(* ===== verification/Prelude.thy ===== *)
theory Prelude
  imports Main "HOL-Library.Word" "HOL-Library.Sublist"
begin

text \<open>
  Shared vocabulary of the development. Go strings and byte slices are both \<open>string\<close>
  (a list of 8-bit characters), so \<open>length\<close> counts bytes as Go's \<open>len\<close> does. The
  functions of this theory model the parts of Go's standard library that several
  components call (\<open>strings\<close>, \<open>encoding/hex\<close>, \<open>encoding/binary\<close>) on ASCII text; the
  lemmas are the ones the components share. A Go function that returns \<open>(T, error)\<close> is
  an \<open>'e + 'a\<close> with the error on the left.
\<close>

named_theorems go_str "evaluation rules for the string functions"
named_theorems inv_intro "preservation of component invariants"

type_synonym u8 = "8 word"
type_synonym u32 = "32 word"
type_synonym u64 = "64 word"
type_synonym bytes = string
type_synonym ('e, 'a) result = "'e + 'a"

section \<open>Results\<close>

definition is_ok :: "'e + 'a \<Rightarrow> bool" where
  "is_ok r = (case r of Inl _ \<Rightarrow> False | Inr _ \<Rightarrow> True)"

lemma is_ok_simps [simp]: "is_ok (Inr x)" "\<not> is_ok (Inl e)"
  by (simp_all add: is_ok_def)

lemma is_ok_iff: "is_ok r \<longleftrightarrow> (\<exists>x. r = Inr x)"
  by (cases r) auto

section \<open>Package strings\<close>

definition to_lower_char :: "char \<Rightarrow> char" where
  "to_lower_char c = (let n = of_char c :: nat in
     if 65 \<le> n \<and> n \<le> 90 then char_of (n + 32) else c)"

definition to_lower :: "string \<Rightarrow> string" where
  "to_lower = map to_lower_char"

definition is_space :: "char \<Rightarrow> bool" where
  "is_space c = (let n = of_char c :: nat in n = 32 \<or> (9 \<le> n \<and> n \<le> 13))"

definition trim_space :: "string \<Rightarrow> string" where
  "trim_space s = rev (dropWhile is_space (rev (dropWhile is_space s)))"

definition has_prefix :: "string \<Rightarrow> string \<Rightarrow> bool" where
  "has_prefix s p = (take (length p) s = p)"

definition has_suffix :: "string \<Rightarrow> string \<Rightarrow> bool" where
  "has_suffix s p = (length p \<le> length s \<and> drop (length s - length p) s = p)"

definition trim_prefix :: "string \<Rightarrow> string \<Rightarrow> string" where
  "trim_prefix s p = (if has_prefix s p then drop (length p) s else s)"

text \<open>\<open>strings.Split (s, sep)\<close> for a one-character separator.\<close>

fun split_on :: "char \<Rightarrow> string \<Rightarrow> string list" where
  "split_on d [] = [[]]"
| "split_on d (c # cs) =
     (if c = d then [] # split_on d cs
      else (case split_on d cs of [] \<Rightarrow> [[c]] | w # ws \<Rightarrow> (c # w) # ws))"

text \<open>\<open>strings.FieldsFunc\<close>: the maximal non-empty runs of characters outside \<open>p\<close>.\<close>

fun fields_func :: "(char \<Rightarrow> bool) \<Rightarrow> string \<Rightarrow> string list" where
  "fields_func p [] = []"
| "fields_func p (c # cs) =
     (if p c then fields_func p cs
      else (case cs of
              [] \<Rightarrow> [[c]]
            | d # _ \<Rightarrow> if p d then [c] # fields_func p cs
                       else (case fields_func p cs of [] \<Rightarrow> [[c]] | w # ws \<Rightarrow> (c # w) # ws)))"

lemma to_lower_char_idem [simp]: "to_lower_char (to_lower_char c) = to_lower_char c"
proof -
  have "of_char c < (256::nat)" by simp
  then show ?thesis by (simp add: to_lower_char_def Let_def)
qed

lemma to_lower_idem [simp]: "to_lower (to_lower s) = to_lower s"
  by (simp add: to_lower_def)

lemma length_to_lower [simp]: "length (to_lower s) = length s"
  by (simp add: to_lower_def)

lemma to_lower_append [simp]: "to_lower (a @ b) = to_lower a @ to_lower b"
  by (simp add: to_lower_def)

lemma to_lower_Nil_iff [simp]: "to_lower s = [] \<longleftrightarrow> s = []"
  by (simp add: to_lower_def)

lemma has_prefix_iff [go_str]: "has_prefix s p \<longleftrightarrow> prefix p s"
  by (metis append_eq_conv_conj has_prefix_def prefix_def)

lemma has_suffix_iff [go_str]: "has_suffix s p \<longleftrightarrow> suffix p s"
  unfolding has_suffix_def suffix_def
  by (metis append_eq_conv_conj append_take_drop_id diff_diff_cancel length_append le_add2
      length_drop add_diff_cancel_right')

section \<open>Package encoding/hex\<close>

definition is_hex_char :: "char \<Rightarrow> bool" where
  "is_hex_char c = (let n = of_char c :: nat in (48 \<le> n \<and> n \<le> 57) \<or> (97 \<le> n \<and> n \<le> 102))"

definition hex_digit :: "nat \<Rightarrow> char" where
  "hex_digit n = char_of (if n < 10 then 48 + n else 87 + n)"

definition hex_val :: "char \<Rightarrow> nat option" where
  "hex_val c = (let n = of_char c :: nat in
     if 48 \<le> n \<and> n \<le> 57 then Some (n - 48)
     else if 97 \<le> n \<and> n \<le> 102 then Some (n - 87)
     else if 65 \<le> n \<and> n \<le> 70 then Some (n - 55)
     else None)"

definition hex_of_char :: "char \<Rightarrow> string" where
  "hex_of_char c = (let n = of_char c :: nat in [hex_digit (n div 16), hex_digit (n mod 16)])"

definition hex_encode :: "bytes \<Rightarrow> string" where
  "hex_encode bs = concat (map hex_of_char bs)"

text \<open>\<open>hex.DecodeString\<close>: \<open>None\<close> is its error (odd length or a character outside the alphabet).\<close>

fun hex_decode :: "string \<Rightarrow> bytes option" where
  "hex_decode [] = Some []"
| "hex_decode [c] = None"
| "hex_decode (a # b # cs) =
     (case (hex_val a, hex_val b) of
        (Some x, Some y) \<Rightarrow> map_option (\<lambda>r. char_of (16 * x + y) # r) (hex_decode cs)
      | _ \<Rightarrow> None)"

lemma hex_digit_cases: "n < 16 \<Longrightarrow> hex_val (hex_digit n) = Some n \<and> is_hex_char (hex_digit n)"
  by (auto simp: hex_val_def hex_digit_def is_hex_char_def Let_def)

lemma length_hex_encode [simp]: "length (hex_encode bs) = 2 * length bs"
  by (induction bs) (simp_all add: hex_encode_def hex_of_char_def Let_def)

lemma hex_encode_hex: "list_all is_hex_char (hex_encode bs)"
proof (induction bs)
  case (Cons c bs)
  have "of_char c < (256::nat)" by simp
  then have "(of_char c :: nat) div 16 < 16" by arith
  then show ?case
    using Cons hex_digit_cases[of "of_char c mod 16"] hex_digit_cases[of "of_char c div 16"]
    by (simp add: hex_encode_def hex_of_char_def Let_def)
qed (simp add: hex_encode_def)

lemma hex_decode_encode: "hex_decode (hex_encode bs) = Some bs"
proof (induction bs)
  case Nil
  then show ?case by (simp add: hex_encode_def)
next
  case (Cons c bs)
  define n where "n = (of_char c :: nat)"
  have n: "n < 256" and c: "char_of n = c" by (simp_all add: n_def)
  from n have "n div 16 < 16" "n mod 16 < 16" by auto
  then have v: "hex_val (hex_digit (n div 16)) = Some (n div 16)"
      "hex_val (hex_digit (n mod 16)) = Some (n mod 16)"
    by (simp_all add: hex_digit_cases)
  have e: "hex_encode (c # bs) = hex_digit (n div 16) # hex_digit (n mod 16) # hex_encode bs"
    by (simp add: hex_encode_def hex_of_char_def n_def Let_def)
  show ?case by (simp only: e hex_decode.simps v Cons.IH) (simp add: c)
qed

lemma hex_encode_inj: "hex_encode a = hex_encode b \<Longrightarrow> a = b"
  by (metis hex_decode_encode option.inject)

section \<open>Package encoding/binary\<close>

text \<open>\<open>LittleEndian.PutUint64\<close> into a fresh eight-byte array.\<close>

fun le_bytes :: "nat \<Rightarrow> nat \<Rightarrow> bytes" where
  "le_bytes 0 n = []"
| "le_bytes (Suc k) n = char_of (n mod 256) # le_bytes k (n div 256)"

definition le64 :: "nat \<Rightarrow> bytes" where
  "le64 n = le_bytes 8 n"

lemma length_le_bytes [simp]: "length (le_bytes k n) = k"
  by (induction k arbitrary: n) auto

lemma length_le64 [simp]: "length (le64 n) = 8"
  by (simp add: le64_def)

lemma le64_not_Nil [simp]: "le64 n \<noteq> []" "[] \<noteq> le64 n"
  by (metis length_le64 list.size(3) zero_neq_numeral)+

lemma le_bytes_inj: "le_bytes k m = le_bytes k n \<Longrightarrow> m < 256 ^ k \<Longrightarrow> n < 256 ^ k \<Longrightarrow> m = n"
proof (induction k arbitrary: m n)
  case (Suc k)
  have "of_char (char_of (m mod 256)) = (of_char (char_of (n mod 256)) :: nat)"
    using Suc.prems(1) by simp
  then have "m mod 256 = n mod 256" by simp
  moreover have "m div 256 = n div 256"
    using Suc by (simp add: less_mult_imp_div_less mult.commute)
  ultimately show ?case by (metis mult_div_mod_eq)
qed auto

lemma le64_inj: "le64 m = le64 n \<Longrightarrow> m < 2 ^ 64 \<Longrightarrow> n < 2 ^ 64 \<Longrightarrow> m = n"
  by (rule le_bytes_inj[of 8]) (simp_all add: le64_def)

section \<open>Event loops\<close>

text \<open>
  A \<open>for { select { ... } }\<close> loop handles one event at a time and may break: its run over
  the events it receives, in order, with \<open>None\<close> for the break.
\<close>

fun run_until :: "('s \<Rightarrow> 'r \<Rightarrow> 's option) \<Rightarrow> 's \<Rightarrow> 'r list \<Rightarrow> 's" where
  "run_until step s [] = s"
| "run_until step s (r # rs) = (case step s r of None \<Rightarrow> s | Some s' \<Rightarrow> run_until step s' rs)"

text \<open>A property kept by every step of a loop holds after every run of it.\<close>

lemma run_until_invariant:
  assumes "I s"
    and "\<And>s r s'. I s \<Longrightarrow> r \<in> set rs \<Longrightarrow> step s r = Some s' \<Longrightarrow> I s'"
  shows "I (run_until step s rs)"
  using assms
proof (induction rs arbitrary: s)
  case (Cons r rs)
  show ?case
  proof (cases "step s r")
    case None
    then show ?thesis using Cons.prems(1) by simp
  next
    case (Some s')
    then have "I s'" using Cons.prems by auto
    then have "I (run_until step s' rs)" by (rule Cons.IH) (use Cons.prems(2) in auto)
    then show ?thesis using Some by simp
  qed
qed simp

lemma run_until_append:
  "(\<And>s r. r \<in> set as \<Longrightarrow> step s r \<noteq> None) \<Longrightarrow> run_until step s (as @ bs) = run_until step (run_until step s as) bs"
proof (induction as arbitrary: s)
  case (Cons a as)
  then have "step s a \<noteq> None" by simp
  then show ?case using Cons by (cases "step s a") simp_all
qed simp

text \<open>The same for a total step function.\<close>

lemma foldl_invariant:
  assumes "I s" and "\<And>s e. I s \<Longrightarrow> e \<in> set es \<Longrightarrow> I (f s e)"
  shows "I (foldl f s es)"
  using assms by (induction es arbitrary: s) simp_all

text \<open>
  A store whose entries belong to someone. If no step taken for one actor touches an entry
  of another, an entry survives every run in which only others act.
\<close>

locale owned_store =
  fixes lookup :: "'s \<Rightarrow> 'k \<Rightarrow> 'e option"
    and step :: "'s \<Rightarrow> 'r \<Rightarrow> 's option"
    and acts_for :: "'r \<Rightarrow> 'o \<Rightarrow> bool"
    and owned_by :: "'e \<Rightarrow> 'o \<Rightarrow> bool"
  assumes step_foreign:
    "lookup s k = Some e \<Longrightarrow> owned_by e w \<Longrightarrow> \<not> acts_for r w \<Longrightarrow> step s r = Some s' \<Longrightarrow>
     lookup s' k = Some e"
begin

lemma run_foreign:
  assumes "lookup s k = Some e" and "owned_by e w" and "\<forall>r \<in> set rs. \<not> acts_for r w"
  shows "lookup (run_until step s rs) k = Some e"
  by (rule run_until_invariant[where I = "\<lambda>s. lookup s k = Some e"])
    (use assms in \<open>auto intro: step_foreign\<close>)

end

section \<open>Maps and lists\<close>

lemma append_eq_same_length:
  "length a = length c \<Longrightarrow> a @ b = c @ d \<longleftrightarrow> a = c \<and> b = d"
  by auto

lemma sum_list_map_update:
  fixes f :: "'a \<Rightarrow> 'b::ab_group_add"
  assumes "i < length xs"
  shows "sum_list (map f (xs[i := x])) = sum_list (map f xs) - f (xs ! i) + f x"
  using assms
proof (induction xs arbitrary: i)
  case (Cons y ys)
  then show ?case by (cases i) (simp_all add: algebra_simps)
qed simp

lemma find_snoc:
  "find P (xs @ [x]) = (case find P xs of None \<Rightarrow> if P x then Some x else None | Some y \<Rightarrow> Some y)"
  by (induction xs) auto

lemma unat_add_le: "unat (a + b) \<le> unat a + unat (b :: 'a::len word)"
  by (simp add: unat_word_ariths)

end
