(* ===== verification/Market.thy ===== *)
theory Market
  imports Prelude
begin

text \<open>
  The identifiers of the Akash market that the provider's components exchange
  (\<open>mtypes.OrderID\<close>, \<open>mtypes.LeaseID\<close>, \<open>mtypes.BidID\<close> of the chain SDK): records with
  the fields the provider reads, and the projections between them. They are the data
  vocabulary of the components; no behaviour of the SDK is assumed beyond them.
\<close>

record group_id =
  g_owner :: string
  g_dseq :: u64
  g_gseq :: u32

record order_id =
  o_owner :: string
  o_dseq :: u64
  o_gseq :: u32
  o_oseq :: u32

record lease_id =
  l_owner :: string
  l_dseq :: u64
  l_gseq :: u32
  l_oseq :: u32
  l_provider :: string

type_synonym bid_id = lease_id

text \<open>The states of a lease on the chain; a reclaiming lease may carry its deadline.\<close>

datatype mv1_lease_state = LeaseActive | LeaseReclaiming "int option" | LeaseClosed | LeaseInsufficientFunds | LeaseStateInvalid

definition lease_order_id :: "lease_id \<Rightarrow> order_id" where
  "lease_order_id l = \<lparr>o_owner = l_owner l, o_dseq = l_dseq l, o_gseq = l_gseq l, o_oseq = l_oseq l\<rparr>"

definition lease_group_id :: "lease_id \<Rightarrow> group_id" where
  "lease_group_id l = \<lparr>g_owner = l_owner l, g_dseq = l_dseq l, g_gseq = l_gseq l\<rparr>"

definition order_group_id :: "order_id \<Rightarrow> group_id" where
  "order_group_id o1 = \<lparr>g_owner = o_owner o1, g_dseq = o_dseq o1, g_gseq = o_gseq o1\<rparr>"

definition make_bid_id :: "order_id \<Rightarrow> string \<Rightarrow> bid_id" where
  "make_bid_id o1 p = \<lparr>l_owner = o_owner o1, l_dseq = o_dseq o1, l_gseq = o_gseq o1,
     l_oseq = o_oseq o1, l_provider = p\<rparr>"

lemma lease_order_id_make_bid [simp]: "lease_order_id (make_bid_id o1 p) = o1"
  by (simp add: lease_order_id_def make_bid_id_def)

lemma lease_group_id_order: "lease_group_id l = order_group_id (lease_order_id l)"
  by (simp add: lease_group_id_def order_group_id_def lease_order_id_def)

end
