(* ===== verification/Hostname.thy ===== *)
theory Hostname
  imports Market
begin

text \<open>
  The hostname reservation service (\<open>cluster/hostname.go\<close>): a store from hostnames to the
  deployment group that uses them, the four operations of \<open>HostnameServiceClient\<close> on it,
  the block list read from the configuration, and the service that serialises the
  operations in one goroutine. The decoding of an owner's bech32 address is the SDK's, so
  it is the parameter \<open>addr\<close> (\<open>None\<close> is its error).
\<close>

section \<open>Data\<close>

record hostname_id =
  h_owner :: string
  h_dseq :: u64
  h_gseq :: u32

type_synonym hostname_store = "string \<rightharpoonup> hostname_id"

datatype hostname_error =
    ErrHostnameNotAllowed string
  | ErrHostnameBlocked string
  | ErrDomainBlocked string
  | ErrOwnerAddress
  | ErrNotRunning
  | ErrCtx

text \<open>\<open>Equals\<close> compares the group, the deployment and the owner.\<close>

definition hostname_id_equals :: "hostname_id \<Rightarrow> hostname_id \<Rightarrow> bool" where
  "hostname_id_equals a b =
     (h_gseq a = h_gseq b \<and> h_dseq a = h_dseq b \<and> h_owner a = h_owner b)"

definition hostnameIDFromLeaseID ::
    "(string \<Rightarrow> string option) \<Rightarrow> lease_id \<Rightarrow> hostname_error + hostname_id" where
  "hostnameIDFromLeaseID addr l =
     (case addr (l_owner l) of
        None \<Rightarrow> Inl ErrOwnerAddress
      | Some a \<Rightarrow> Inr \<lparr>h_owner = a, h_dseq = l_dseq l, h_gseq = l_gseq l\<rparr>)"

section \<open>The operations on the store\<close>

text \<open>First loop of \<open>prepareHostnamesImpl\<close>: the names to change, or the first foreign one.\<close>

fun prepare_scan :: "hostname_store \<Rightarrow> string list \<Rightarrow> hostname_id \<Rightarrow> hostname_error + string list" where
  "prepare_scan st [] hid = Inr []"
| "prepare_scan st (h # hs) hid =
     (case st h of
        None \<Rightarrow> prepare_scan st hs hid
      | Some e \<Rightarrow>
          if h_owner e = h_owner hid
          then (case prepare_scan st hs hid of Inl er \<Rightarrow> Inl er | Inr ws \<Rightarrow> Inr (h # ws))
          else Inl (ErrHostnameNotAllowed h))"

fun store_all :: "hostname_store \<Rightarrow> string list \<Rightarrow> hostname_id \<Rightarrow> hostname_store" where
  "store_all st [] hid = st"
| "store_all st (h # hs) hid = store_all (st(h \<mapsto> hid)) hs hid"

definition prepareHostnamesImpl ::
    "hostname_store \<Rightarrow> string list \<Rightarrow> hostname_id \<Rightarrow> hostname_store \<times> (hostname_error + unit)" where
  "prepareHostnamesImpl st hostnames hid =
     (case prepare_scan st hostnames hid of
        Inl e \<Rightarrow> (st, Inl e)
      | Inr toChange \<Rightarrow> (store_all st toChange hid, Inr ()))"

text \<open>First loop of \<open>reserveHostnamesImpl\<close>: the withheld names in the order they are met.\<close>

fun reserve_scan :: "hostname_store \<Rightarrow> string list \<Rightarrow> hostname_id \<Rightarrow> hostname_error + string list" where
  "reserve_scan st [] hid = Inr []"
| "reserve_scan st (h # hs) hid =
     (case st h of
        None \<Rightarrow> reserve_scan st hs hid
      | Some e \<Rightarrow>
          if h_owner e \<noteq> h_owner hid then Inl (ErrHostnameNotAllowed h)
          else (case reserve_scan st hs hid of
                  Inl er \<Rightarrow> Inl er
                | Inr ws \<Rightarrow> Inr (if hostname_id_equals e hid then ws else h # ws)))"

text \<open>
  \<open>reserveHostnamesImpl\<close>: names that belong to another group of the same owner are
  withheld, the other requested names are stored, and names this group held but did not
  request again are deleted (\<open>removeHostnames\<close> is computed from the store before it is
  written).
\<close>

definition removable :: "hostname_store \<Rightarrow> string list \<Rightarrow> hostname_id \<Rightarrow> string \<Rightarrow> bool" where
  "removable st hostnames hid h =
     (h \<notin> set hostnames \<and>
      (case st h of None \<Rightarrow> False | Some e \<Rightarrow> hostname_id_equals e hid))"

definition reserveHostnamesImpl ::
    "hostname_store \<Rightarrow> string list \<Rightarrow> hostname_id \<Rightarrow> hostname_store \<times> (hostname_error + string list)" where
  "reserveHostnamesImpl st hostnames hid =
     (case reserve_scan st hostnames hid of
        Inl e \<Rightarrow> (st, Inl e)
      | Inr withheld \<Rightarrow>
          (let stored = store_all st (filter (\<lambda>h. h \<notin> set withheld) hostnames) hid
           in ((\<lambda>h. if removable st hostnames hid h then None else stored h), Inr withheld)))"

fun canReserveHostnamesImpl ::
    "hostname_store \<Rightarrow> string list \<Rightarrow> string \<Rightarrow> hostname_error + unit" where
  "canReserveHostnamesImpl st [] owner = Inr ()"
| "canReserveHostnamesImpl st (h # hs) owner =
     (case st h of
        None \<Rightarrow> canReserveHostnamesImpl st hs owner
      | Some e \<Rightarrow> if h_owner e \<noteq> owner then Inl (ErrHostnameNotAllowed h)
                  else canReserveHostnamesImpl st hs owner)"

definition releaseHostnamesImpl :: "hostname_store \<Rightarrow> hostname_id \<Rightarrow> hostname_store" where
  "releaseHostnamesImpl st hid =
     (\<lambda>h. case st h of None \<Rightarrow> None | Some e \<Rightarrow> if hostname_id_equals e hid then None else Some e)"

section \<open>The service\<close>

record hostname_service =
  inUse :: hostname_store
  blockedHostnames :: "string list"
  blockedDomains :: "string list"

fun split_blocked :: "string list \<Rightarrow> string list \<times> string list" where
  "split_blocked [] = ([], [])"
| "split_blocked (name # names) =
     (let (hs, ds) = split_blocked names in
      (case name of
         [] \<Rightarrow> (name # hs, ds)
       | c # rest \<Rightarrow> if c = CHR ''.'' then (rest # hs, name # ds) else (name # hs, ds)))"

fun init_in_use ::
    "(string \<Rightarrow> string option) \<Rightarrow> (string \<times> lease_id) list \<Rightarrow> hostname_error + hostname_store" where
  "init_in_use addr [] = Inr Map.empty"
| "init_in_use addr ((k, l) # rest) =
     (case hostnameIDFromLeaseID addr l of
        Inl e \<Rightarrow> Inl e
      | Inr hid \<Rightarrow> (case init_in_use addr rest of Inl e \<Rightarrow> Inl e | Inr st \<Rightarrow> Inr (st(k \<mapsto> hid))))"

definition newHostnameService ::
    "(string \<Rightarrow> string option) \<Rightarrow> string list \<Rightarrow> (string \<times> lease_id) list
      \<Rightarrow> hostname_error + hostname_service" where
  "newHostnameService addr blocked initialData =
     (case init_in_use addr initialData of
        Inl e \<Rightarrow> Inl e
      | Inr st \<Rightarrow> Inr \<lparr>inUse = st, blockedHostnames = fst (split_blocked blocked),
                       blockedDomains = snd (split_blocked blocked)\<rparr>)"

definition isHostnameBlocked :: "hostname_service \<Rightarrow> string \<Rightarrow> hostname_error + unit" where
  "isHostnameBlocked hs hostname =
     (if hostname \<in> set (blockedHostnames hs) then Inl (ErrHostnameBlocked hostname)
      else if list_ex (\<lambda>d. has_suffix hostname d) (blockedDomains hs) then Inl (ErrDomainBlocked hostname)
      else Inr ())"

fun first_blocked :: "hostname_service \<Rightarrow> string list \<Rightarrow> hostname_error option" where
  "first_blocked hs [] = None"
| "first_blocked hs (n # ns) =
     (case isHostnameBlocked hs n of Inl e \<Rightarrow> Some e | Inr _ \<Rightarrow> first_blocked hs ns)"

text \<open>
  The goroutine \<open>run\<close> takes one request at a time; a step is one case of its \<open>select\<close>.
  \<open>None\<close> is the loop's end after a shutdown request.
\<close>

datatype hostname_request =
    ReqReserve "string list" hostname_id
  | ReqCanReserve "string list" string
  | ReqRelease hostname_id
  | ReqPrepare "string list" hostname_id
  | ReqShutdown

datatype hostname_reply =
    RepWithheld "string list"
  | RepOk
  | RepErr hostname_error
  | RepNone

definition unit_reply :: "hostname_error + unit \<Rightarrow> hostname_reply" where
  "unit_reply r = (case r of Inl e \<Rightarrow> RepErr e | Inr _ \<Rightarrow> RepOk)"

fun hostname_run_step ::
    "hostname_service \<Rightarrow> hostname_request \<Rightarrow> (hostname_service \<times> hostname_reply) option" where
  "hostname_run_step hs (ReqReserve ns hid) =
     (let (st, r) = reserveHostnamesImpl (inUse hs) ns hid
      in Some (hs\<lparr>inUse := st\<rparr>, case r of Inl e \<Rightarrow> RepErr e | Inr ws \<Rightarrow> RepWithheld ws))"
| "hostname_run_step hs (ReqCanReserve ns owner) =
     Some (hs, unit_reply (canReserveHostnamesImpl (inUse hs) ns owner))"
| "hostname_run_step hs (ReqRelease hid) =
     Some (hs\<lparr>inUse := releaseHostnamesImpl (inUse hs) hid\<rparr>, RepNone)"
| "hostname_run_step hs (ReqPrepare ns hid) =
     (let (st, r) = prepareHostnamesImpl (inUse hs) ns hid
      in Some (hs\<lparr>inUse := st\<rparr>, unit_reply r))"
| "hostname_run_step hs ReqShutdown = None"

text \<open>
  The clients send a request and wait for its reply. Each \<open>select\<close> they make has three
  outcomes: the channel operation, the caller's context, the service's shutdown. The
  arguments \<open>s1\<close> and \<open>s2\<close> say which outcome the scheduler took.
\<close>

datatype sel = SelChan | SelCtx | SelShutdown

definition ReserveHostnames ::
    "(string \<Rightarrow> string option) \<Rightarrow> hostname_service \<Rightarrow> string list \<Rightarrow> lease_id \<Rightarrow> sel \<Rightarrow> sel
      \<Rightarrow> hostname_service \<times> (hostname_error + string list)" where
  "ReserveHostnames addr hs hostnames lid s1 s2 =
     (let lower = map to_lower hostnames in
      case first_blocked hs lower of
        Some e \<Rightarrow> (hs, Inl e)
      | None \<Rightarrow>
         (case hostnameIDFromLeaseID addr lid of
            Inl e \<Rightarrow> (hs, Inl e)
          | Inr hid \<Rightarrow>
             (case s1 of
                SelCtx \<Rightarrow> (hs, Inl ErrCtx)
              | SelShutdown \<Rightarrow> (hs, Inl ErrNotRunning)
              | SelChan \<Rightarrow>
                 (let (st, r) = reserveHostnamesImpl (inUse hs) lower hid;
                      hs' = hs\<lparr>inUse := st\<rparr>
                  in case s2 of
                       SelCtx \<Rightarrow> (hs', Inl ErrCtx)
                     | SelShutdown \<Rightarrow> (hs', Inl ErrNotRunning)
                     | SelChan \<Rightarrow> (hs', r)))))"

definition ReleaseHostnames ::
    "(string \<Rightarrow> string option) \<Rightarrow> hostname_service \<Rightarrow> lease_id \<Rightarrow> sel
      \<Rightarrow> hostname_service \<times> (hostname_error + unit)" where
  "ReleaseHostnames addr hs lid s1 =
     (case hostnameIDFromLeaseID addr lid of
        Inl e \<Rightarrow> (hs, Inl e)
      | Inr hid \<Rightarrow>
          (if s1 = SelChan then (hs\<lparr>inUse := releaseHostnamesImpl (inUse hs) hid\<rparr>, Inr ())
           else (hs, Inr ())))"

definition CanReserveHostnames ::
    "hostname_service \<Rightarrow> string list \<Rightarrow> string \<Rightarrow> sel \<Rightarrow> hostname_error + unit" where
  "CanReserveHostnames hs hostnames owner s1 =
     (let lower = map to_lower hostnames in
      case first_blocked hs lower of
        Some e \<Rightarrow> Inl e
      | None \<Rightarrow> (if s1 = SelChan then canReserveHostnamesImpl (inUse hs) lower owner
                 else Inl ErrNotRunning))"

definition PrepareHostnamesForTransfer ::
    "(string \<Rightarrow> string option) \<Rightarrow> hostname_service \<Rightarrow> string list \<Rightarrow> lease_id \<Rightarrow> sel \<Rightarrow> sel
      \<Rightarrow> hostname_service \<times> (hostname_error + unit)" where
  "PrepareHostnamesForTransfer addr hs hostnames lid s1 s2 =
     (case hostnameIDFromLeaseID addr lid of
        Inl e \<Rightarrow> (hs, Inl e)
      | Inr hid \<Rightarrow>
         (case s1 of
            SelCtx \<Rightarrow> (hs, Inl ErrCtx)
          | SelShutdown \<Rightarrow> (hs, if s2 = SelCtx then Inl ErrCtx else Inl ErrNotRunning)
          | SelChan \<Rightarrow>
             (let (st, r) = prepareHostnamesImpl (inUse hs) hostnames hid;
                  hs' = hs\<lparr>inUse := st\<rparr>
              in case s2 of
                   SelCtx \<Rightarrow> (hs', Inl ErrCtx)
                 | SelShutdown \<Rightarrow> (hs', Inl ErrNotRunning)
                 | SelChan \<Rightarrow> (hs', r))))"

text \<open>\<open>SimpleHostnames\<close>: the same store behind a mutex, without block list or lower-casing.\<close>

definition simple_PrepareHostnamesForTransfer ::
    "(string \<Rightarrow> string option) \<Rightarrow> hostname_store \<Rightarrow> string list \<Rightarrow> lease_id \<Rightarrow> sel
      \<Rightarrow> hostname_store \<times> (hostname_error + unit)" where
  "simple_PrepareHostnamesForTransfer addr st hostnames lid s =
     (case hostnameIDFromLeaseID addr lid of
        Inl e \<Rightarrow> (st, Inl e)
      | Inr hid \<Rightarrow>
          (let (st', r) = prepareHostnamesImpl st hostnames hid
           in (st', if s = SelCtx then Inl ErrCtx else r)))"

definition simple_ReserveHostnames ::
    "(string \<Rightarrow> string option) \<Rightarrow> hostname_store \<Rightarrow> string list \<Rightarrow> lease_id \<Rightarrow> sel
      \<Rightarrow> hostname_store \<times> (hostname_error + string list)" where
  "simple_ReserveHostnames addr st hostnames lid s =
     (case hostnameIDFromLeaseID addr lid of
        Inl e \<Rightarrow> (st, Inl e)
      | Inr hid \<Rightarrow>
          (let (st', r) = reserveHostnamesImpl st hostnames hid
           in (st', if s = SelCtx then Inl ErrCtx else r)))"

definition simple_ReleaseHostnames ::
    "(string \<Rightarrow> string option) \<Rightarrow> hostname_store \<Rightarrow> lease_id \<Rightarrow> hostname_store \<times> (hostname_error + unit)" where
  "simple_ReleaseHostnames addr st lid =
     (case hostnameIDFromLeaseID addr lid of
        Inl e \<Rightarrow> (st, Inl e)
      | Inr hid \<Rightarrow> (releaseHostnamesImpl st hid, Inr ()))"

definition simple_CanReserveHostnames :: "hostname_store \<Rightarrow> string list \<Rightarrow> string \<Rightarrow> hostname_error + unit" where
  "simple_CanReserveHostnames st hostnames owner = canReserveHostnamesImpl st hostnames owner"

definition NewSimpleHostnames :: hostname_store where
  "NewSimpleHostnames = Map.empty"

text \<open>The service's goroutine, run over the requests it receives.\<close>

definition hostname_run :: "hostname_service \<Rightarrow> hostname_request list \<Rightarrow> hostname_service" where
  "hostname_run = run_until (\<lambda>hs r. map_option fst (hostname_run_step hs r))"

section \<open>Laws of the store operations\<close>

lemma hostname_id_equals_eq [simp]: "hostname_id_equals a b \<longleftrightarrow> a = b"
  by (auto simp: hostname_id_equals_def)

lemma store_all_apply: "store_all st ns hid h = (if h \<in> set ns then Some hid else st h)"
  by (induction ns arbitrary: st) auto

definition free_for :: "hostname_store \<Rightarrow> string \<Rightarrow> string \<Rightarrow> bool" where
  "free_for st owner h = (case st h of None \<Rightarrow> True | Some e \<Rightarrow> h_owner e = owner)"

definition held_elsewhere :: "hostname_store \<Rightarrow> hostname_id \<Rightarrow> string \<Rightarrow> bool" where
  "held_elsewhere st hid h = (case st h of None \<Rightarrow> False | Some e \<Rightarrow> e \<noteq> hid)"

lemma free_for_iff: "free_for st owner h \<longleftrightarrow> (\<forall>e. st h = Some e \<longrightarrow> h_owner e = owner)"
  by (simp add: free_for_def split: option.split)

lemma prepare_scan_ok_iff:
  "is_ok (prepare_scan st ns hid) \<longleftrightarrow> list_all (free_for st (h_owner hid)) ns"
proof (induction ns)
  case (Cons h hs)
  then show ?case
    by (cases "st h"; cases "prepare_scan st hs hid") (simp_all add: free_for_def)
qed simp

lemma prepare_scan_set:
  "prepare_scan st ns hid = Inr ws \<Longrightarrow> set ws = {h \<in> set ns. st h \<noteq> None}"
proof (induction ns arbitrary: ws)
  case (Cons h hs)
  show ?case
  proof (cases "st h")
    case None
    then have "prepare_scan st hs hid = Inr ws" using Cons.prems by simp
    from Cons.IH[OF this] None show ?thesis by auto
  next
    case (Some e)
    then obtain ws' where "prepare_scan st hs hid = Inr ws'" "ws = h # ws'"
      using Cons.prems by (auto split: if_splits sum.splits)
    with Cons.IH[of ws'] Some show ?thesis by auto
  qed
qed simp

lemma reserve_scan_ok_iff:
  "is_ok (reserve_scan st ns hid) \<longleftrightarrow> list_all (free_for st (h_owner hid)) ns"
proof (induction ns)
  case (Cons h hs)
  then show ?case
    by (cases "st h"; cases "reserve_scan st hs hid") (simp_all add: free_for_def)
qed simp

lemma reserve_scan_withheld:
  "reserve_scan st ns hid = Inr ws \<Longrightarrow> ws = filter (held_elsewhere st hid) ns"
proof (induction ns arbitrary: ws)
  case (Cons h hs)
  then show ?case
    by (cases "st h"; cases "reserve_scan st hs hid")
      (auto simp: held_elsewhere_def split: if_splits)
qed simp

lemma canReserve_ok_iff:
  "is_ok (canReserveHostnamesImpl st ns owner) \<longleftrightarrow> list_all (free_for st owner) ns"
proof (induction ns)
  case (Cons h hs)
  then show ?case by (cases "st h") (simp_all add: free_for_def)
qed simp

lemma reserve_error_keeps:
  "snd (reserveHostnamesImpl st ns hid) = Inl e \<Longrightarrow> fst (reserveHostnamesImpl st ns hid) = st"
  by (auto simp: reserveHostnamesImpl_def Let_def split: sum.splits)

lemma reserve_ok_scan:
  "snd (reserveHostnamesImpl st ns hid) = Inr ws \<longleftrightarrow> reserve_scan st ns hid = Inr ws"
  by (auto simp: reserveHostnamesImpl_def Let_def split: sum.split)

lemma reserve_ok_lookup:
  assumes "snd (reserveHostnamesImpl st ns hid) = Inr ws"
  shows "fst (reserveHostnamesImpl st ns hid) h =
    (if h \<in> set ns then (if h \<in> set ws then st h else Some hid)
     else if st h = Some hid then None else st h)"
proof -
  from assms have "reserve_scan st ns hid = Inr ws" by (simp add: reserve_ok_scan)
  then show ?thesis
    by (cases "st h") (simp_all add: reserveHostnamesImpl_def Let_def removable_def store_all_apply)
qed

lemma reserve_ok_iff:
  "is_ok (snd (reserveHostnamesImpl st ns hid)) \<longleftrightarrow> list_all (free_for st (h_owner hid)) ns"
  unfolding reserve_scan_ok_iff[symmetric] by (simp add: is_ok_iff reserve_ok_scan)

lemma reserve_ok_withheld:
  "snd (reserveHostnamesImpl st ns hid) = Inr ws \<Longrightarrow> ws = filter (held_elsewhere st hid) ns"
  by (simp add: reserve_ok_scan reserve_scan_withheld)

lemma reserve_ok_owner:
  assumes "snd (reserveHostnamesImpl st ns hid) = Inr ws" and "h \<in> set ns" and "st h = Some e"
  shows "h_owner e = h_owner hid"
proof -
  from assms(1) have "list_all (free_for st (h_owner hid)) ns"
    using reserve_ok_iff[of st ns hid] by simp
  with assms(2) have "free_for st (h_owner hid) h" by (simp add: list_all_iff)
  then show ?thesis using assms(3) by (simp add: free_for_def)
qed

lemma reserve_foreign:
  assumes "st h = Some e" and "h_owner e \<noteq> h_owner hid"
  shows "fst (reserveHostnamesImpl st ns hid) h = Some e"
proof (cases "snd (reserveHostnamesImpl st ns hid)")
  case (Inl er)
  then show ?thesis using assms(1) by (simp add: reserve_error_keeps)
next
  case (Inr ws)
  then have "h \<notin> set ns" using assms reserve_ok_owner[OF Inr] by blast
  then show ?thesis using reserve_ok_lookup[OF Inr] assms by auto
qed

lemma prepare_ok_scan:
  "snd (prepareHostnamesImpl st ns hid) = Inr () \<longleftrightarrow> is_ok (prepare_scan st ns hid)"
  by (cases "prepare_scan st ns hid") (simp_all add: prepareHostnamesImpl_def)

lemma prepare_lookup:
  "fst (prepareHostnamesImpl st ns hid) h =
    (if snd (prepareHostnamesImpl st ns hid) = Inr () \<and> h \<in> set ns \<and> st h \<noteq> None
     then Some hid else st h)"
proof (cases "prepare_scan st ns hid")
  case (Inr ws)
  from prepare_scan_set[OF Inr] show ?thesis
    by (simp add: prepareHostnamesImpl_def Inr store_all_apply)
qed (simp add: prepareHostnamesImpl_def)

lemma prepare_ok_iff:
  "snd (prepareHostnamesImpl st ns hid) = Inr () \<longleftrightarrow> list_all (free_for st (h_owner hid)) ns"
  by (simp add: prepare_ok_scan prepare_scan_ok_iff)

lemma prepare_foreign:
  assumes "st h = Some e" and "h_owner e \<noteq> h_owner hid"
  shows "fst (prepareHostnamesImpl st ns hid) h = Some e"
proof -
  have "\<not> (list_all (free_for st (h_owner hid)) ns \<and> h \<in> set ns)"
  proof -
    have "\<not> free_for st (h_owner hid) h" using assms by (simp add: free_for_def)
    then show ?thesis by (auto simp: list_all_iff)
  qed
  then show ?thesis using assms(1) by (auto simp: prepare_lookup prepare_ok_iff)
qed

lemma release_lookup:
  "releaseHostnamesImpl st hid h = (if st h = Some hid then None else st h)"
  by (cases "st h") (simp_all add: releaseHostnamesImpl_def)

lemmas hostname_laws = reserve_foreign prepare_foreign release_lookup

section \<open>The service as an owned store\<close>

fun request_for :: "hostname_request \<Rightarrow> string \<Rightarrow> bool" where
  "request_for (ReqReserve ns hid) w = (h_owner hid = w)"
| "request_for (ReqRelease hid) w = (h_owner hid = w)"
| "request_for (ReqPrepare ns hid) w = (h_owner hid = w)"
| "request_for (ReqCanReserve ns owner) w = False"
| "request_for ReqShutdown w = False"

lemma hostname_step_foreign:
  assumes "inUse hs h = Some e" and "h_owner e = w" and "\<not> request_for r w"
    and "map_option fst (hostname_run_step hs r) = Some hs'"
  shows "inUse hs' h = Some e"
  using assms
  by (cases r) (auto simp: hostname_laws Let_def case_prod_beta)

interpretation hostnames: owned_store
  "\<lambda>hs h. inUse hs h" "\<lambda>hs r. map_option fst (hostname_run_step hs r)" request_for
  "\<lambda>e w. h_owner e = w"
  by unfold_locales (rule hostname_step_foreign)

section \<open>The block list\<close>

lemma split_blocked_hostnames:
  "n \<in> set (fst (split_blocked bs)) \<longleftrightarrow>
   (n \<in> set bs \<and> (n = [] \<or> hd n \<noteq> CHR ''.'')) \<or> (CHR ''.'' # n) \<in> set bs"
proof (induction bs)
  case (Cons b bs)
  then show ?case
    by (cases b) (auto simp: Let_def case_prod_beta)
qed simp

lemma split_blocked_domains:
  "d \<in> set (snd (split_blocked bs)) \<longleftrightarrow> d \<in> set bs \<and> d \<noteq> [] \<and> hd d = CHR ''.''"
proof (induction bs)
  case (Cons b bs)
  then show ?case by (cases b) (auto simp: Let_def case_prod_beta)
qed simp

lemma newHostnameService_blocked:
  assumes "newHostnameService addr blocked ini = Inr hs"
  shows "blockedHostnames hs = fst (split_blocked blocked)"
    and "blockedDomains hs = snd (split_blocked blocked)"
  using assms by (auto simp: newHostnameService_def split: sum.splits)

lemma isHostnameBlocked_ok:
  "is_ok (isHostnameBlocked hs n) \<longleftrightarrow>
   n \<notin> set (blockedHostnames hs) \<and> (\<forall>d \<in> set (blockedDomains hs). \<not> has_suffix n d)"
  by (auto simp: isHostnameBlocked_def list_ex_iff)

lemma first_blocked_None:
  "first_blocked hs ns = None \<longleftrightarrow> list_all (\<lambda>n. is_ok (isHostnameBlocked hs n)) ns"
proof (induction ns)
  case (Cons n ns)
  then show ?case by (cases "isHostnameBlocked hs n") auto
qed simp

lemma first_blocked_Some:
  "n \<in> set ns \<Longrightarrow> \<not> is_ok (isHostnameBlocked hs n) \<Longrightarrow> \<exists>e. first_blocked hs ns = Some e"
  using first_blocked_None[of hs ns] by (cases "first_blocked hs ns") (auto simp: list_all_iff)

section \<open>Properties\<close>

text \<open>C10: a hostname in use is never taken over by requests made for other owners: whatever
  requests the service handles, in any order, as long as none is made for the owner of the
  entry, the entry is still there afterwards, unchanged.\<close>

theorem hostname_never_stolen:
  assumes "inUse hs h = Some e" and "\<forall>r \<in> set rs. \<not> request_for r (h_owner e)"
  shows "inUse (hostname_run hs rs) h = Some e"
  unfolding hostname_run_def by (rule hostnames.run_foreign[OF assms(1) refl assms(2)])

abbreviation ex_hid :: "string \<Rightarrow> hostname_id" where
  "ex_hid w \<equiv> \<lparr>h_owner = w, h_dseq = 1, h_gseq = 1\<rparr>"

theorem hostname_never_stolen_witness:
  "inUse (hostname_run
      \<lparr>inUse = [''a.com'' \<mapsto> ex_hid ''alice''], blockedHostnames = [], blockedDomains = []\<rparr>
      [ReqReserve [''a.com''] (ex_hid ''bob''), ReqPrepare [''a.com''] (ex_hid ''bob''),
       ReqRelease (ex_hid ''bob'')]) ''a.com'' = Some (ex_hid ''alice'')"
  by (rule hostname_never_stolen) simp_all

text \<open>the effect of \<open>reserveHostnamesImpl\<close> on every branch. An error leaves the store as
  it was and happens exactly when some requested name belongs to another owner. On success
  the withheld names are the requested ones another group of the owner holds, they keep
  their entries, every other requested name is held by the requesting group, and the
  group's names that were not requested again are gone.\<close>

theorem reserve_hostnames_spec:
  fixes st :: hostname_store and ns :: "string list" and hid :: hostname_id
  defines "st' \<equiv> fst (reserveHostnamesImpl st ns hid)"
  shows "case snd (reserveHostnamesImpl st ns hid) of
      Inl _ \<Rightarrow> st' = st \<and> \<not> list_all (free_for st (h_owner hid)) ns
    | Inr ws \<Rightarrow> list_all (free_for st (h_owner hid)) ns \<and> ws = filter (held_elsewhere st hid) ns
        \<and> st' = (\<lambda>h. if h \<in> set ns then (if held_elsewhere st hid h then st h else Some hid)
                      else if st h = Some hid then None else st h)"
proof (cases "snd (reserveHostnamesImpl st ns hid)")
  case (Inl e)
  then show ?thesis
    using reserve_ok_iff[of st ns hid] by (simp add: st'_def reserve_error_keeps)
next
  case (Inr ws)
  have "ws = filter (held_elsewhere st hid) ns" by (rule reserve_ok_withheld[OF Inr])
  then show ?thesis
    using reserve_ok_iff[of st ns hid] reserve_ok_lookup[OF Inr] Inr
    by (auto simp: st'_def fun_eq_iff)
qed

text \<open>transferring hostnames to a new deployment works. When
  \<open>prepareHostnamesImpl\<close> accepts the names for a group, a reservation of the same names by
  that group succeeds, withholds nothing, and leaves the group holding all of them.\<close>

theorem transfer_then_reserve:
  assumes "prepareHostnamesImpl st ns hid = (st1, Inr ())"
  shows "\<exists>st2. reserveHostnamesImpl st1 ns hid = (st2, Inr []) \<and> (\<forall>h \<in> set ns. st2 h = Some hid)"
proof -
  have ok: "snd (prepareHostnamesImpl st ns hid) = Inr ()" and st1: "st1 = fst (prepareHostnamesImpl st ns hid)"
    using assms by simp_all
  have held: "h \<in> set ns \<Longrightarrow> st1 h = None \<or> st1 h = Some hid" for h
    using ok by (auto simp: st1 prepare_lookup)
  then have "list_all (free_for st1 (h_owner hid)) ns"
    by (fastforce simp: list_all_iff free_for_def)
  then obtain ws where ws: "snd (reserveHostnamesImpl st1 ns hid) = Inr ws"
    using reserve_ok_iff[of st1 ns hid] by (auto simp: is_ok_iff)
  have "ws = filter (held_elsewhere st1 hid) ns" by (rule reserve_ok_withheld[OF ws])
  also have "\<dots> = []" using held by (fastforce simp: filter_empty_conv held_elsewhere_def)
  finally have "ws = []" .
  with ws reserve_ok_lookup[OF ws] show ?thesis
    by (cases "reserveHostnamesImpl st1 ns hid") auto
qed

theorem transfer_then_reserve_witness:
  "\<exists>st2. reserveHostnamesImpl [''a.com'' \<mapsto> ex_hid ''alice''] [''a.com'', ''b.com''] (ex_hid ''alice'')
      = (st2, Inr []) \<and> (\<forall>h \<in> set [''a.com'', ''b.com'']. st2 h = Some (ex_hid ''alice''))"
proof (rule transfer_then_reserve)
  show "prepareHostnamesImpl [''a.com'' \<mapsto> (ex_hid ''alice'')\<lparr>h_dseq := 9\<rparr>] [''a.com'', ''b.com''] (ex_hid ''alice'')
      = ([''a.com'' \<mapsto> ex_hid ''alice''], Inr ())"
    by (simp add: prepareHostnamesImpl_def)
qed

text \<open>\<open>CanReserveHostnames\<close> answers exactly what \<open>ReserveHostnames\<close> would do: for the
  owner of a lease, the check succeeds if and only if the reservation itself would.\<close>

theorem can_reserve_agrees:
  assumes "addr (l_owner lid) = Some w"
  shows "is_ok (CanReserveHostnames hs ns w SelChan) \<longleftrightarrow>
         is_ok (snd (ReserveHostnames addr hs ns lid SelChan SelChan))"
proof (cases "first_blocked hs (map to_lower ns)")
  case None
  then show ?thesis
    using assms
    by (simp add: CanReserveHostnames_def ReserveHostnames_def hostnameIDFromLeaseID_def Let_def
        case_prod_beta canReserve_ok_iff reserve_ok_iff)
next
  case (Some e)
  then show ?thesis by (simp add: CanReserveHostnames_def ReserveHostnames_def Let_def)
qed

abbreviation ex_lease :: lease_id where
  "ex_lease \<equiv> \<lparr>l_owner = ''alice'', l_dseq = 1, l_gseq = 1, l_oseq = 1, l_provider = ''p''\<rparr>"

theorem can_reserve_agrees_witness:
  "is_ok (CanReserveHostnames \<lparr>inUse = Map.empty, blockedHostnames = [], blockedDomains = []\<rparr> [''A.com''] ''alice'' SelChan) \<longleftrightarrow>
   is_ok (snd (ReserveHostnames Some \<lparr>inUse = Map.empty, blockedHostnames = [], blockedDomains = []\<rparr> [''A.com''] ex_lease SelChan SelChan))"
  by (rule can_reserve_agrees) simp

text \<open>a configured entry \<open>.d\<close> blocks the domain \<open>d\<close> and all its subdomains, in any letter
  case of the request: a reservation that asks for one of them is refused and changes
  nothing.\<close>

theorem blocked_domain_refused:
  assumes new: "newHostnameService addr0 blocked ini = Inr hs"
    and cfg: "CHR ''.'' # d \<in> set blocked"
    and n: "n \<in> set ns" "to_lower n = d \<or> suffix (CHR ''.'' # d) (to_lower n)"
  shows "\<exists>e. ReserveHostnames addr hs ns lid s1 s2 = (hs, Inl e)"
proof -
  have "d \<in> set (blockedHostnames hs)" and "CHR ''.'' # d \<in> set (blockedDomains hs)"
    using cfg by (simp_all add: newHostnameService_blocked[OF new] split_blocked_hostnames
        split_blocked_domains)
  then have "\<not> is_ok (isHostnameBlocked hs (to_lower n))"
    using n(2) by (auto simp: isHostnameBlocked_ok has_suffix_iff)
  then obtain e where "first_blocked hs (map to_lower ns) = Some e"
    using first_blocked_Some[of "to_lower n" "map to_lower ns" hs] n(1) by auto
  then show ?thesis by (simp add: ReserveHostnames_def Let_def)
qed

theorem blocked_domain_refused_witness:
  "\<exists>e. ReserveHostnames Some
      \<lparr>inUse = Map.empty, blockedHostnames = [''b.io''], blockedDomains = [''.b.io'']\<rparr>
      [''X.b.IO''] ex_lease SelChan SelChan
    = (\<lparr>inUse = Map.empty, blockedHostnames = [''b.io''], blockedDomains = [''.b.io'']\<rparr>, Inl e)"
proof (rule blocked_domain_refused)
  show "newHostnameService Some [''.b.io''] [] =
      Inr \<lparr>inUse = Map.empty, blockedHostnames = [''b.io''], blockedDomains = [''.b.io'']\<rparr>"
    by (simp add: newHostnameService_def)
  show "CHR ''.'' # ''b.io'' \<in> set [''.b.io'']" by simp
  show "''X.b.IO'' \<in> set [''X.b.IO'']" by simp
  show "to_lower ''X.b.IO'' = ''b.io'' \<or> suffix (CHR ''.'' # ''b.io'') (to_lower ''X.b.IO'')"
  proof -
    have "to_lower ''X.b.IO'' = ''x'' @ CHR ''.'' # ''b.io''" by code_simp
    then show ?thesis unfolding suffix_def by blast
  qed
qed

text \<open>a block entry that contains an upper-case letter blocks nothing: the requested names
  are lower-cased before they are compared with it, the entries of the configuration are
  not. A service configured with only such an entry never refuses a name as blocked.\<close>

theorem uppercase_block_entry_ineffective:
  assumes new: "newHostnameService addr0 [b] ini = Inr hs" and b: "to_lower b \<noteq> b"
  shows "first_blocked hs (map to_lower ns) = None"
proof -
  have dot: "to_lower_char CHR ''.'' = CHR ''.''" by (simp add: to_lower_char_def)
  have neq: "b \<noteq> to_lower n" "b \<noteq> CHR ''.'' # to_lower n" for n
    using b dot by (auto simp: to_lower_def)
  have suf: "\<not> has_suffix (to_lower n) b" for n
  proof
    assume "has_suffix (to_lower n) b"
    then obtain z where "to_lower n = z @ b" by (auto simp: has_suffix_iff suffix_def)
    then have "to_lower z @ to_lower b = z @ b" by (metis to_lower_append to_lower_idem)
    then show False using b by (simp add: append_eq_same_length)
  qed
  have "is_ok (isHostnameBlocked hs (to_lower n))" for n
    using neq suf unfolding isHostnameBlocked_ok newHostnameService_blocked[OF new]
    by (auto simp: split_blocked_hostnames split_blocked_domains simp del: split_blocked.simps
        dest: sym)
  then show ?thesis by (simp add: first_blocked_None list_all_iff)
qed

theorem uppercase_block_entry_ineffective_witness:
  "first_blocked \<lparr>inUse = Map.empty, blockedHostnames = [''Evil.com''], blockedDomains = []\<rparr>
     (map to_lower [''Evil.com'']) = None"
proof (rule uppercase_block_entry_ineffective)
  show "newHostnameService Some [''Evil.com''] [] =
      Inr \<lparr>inUse = Map.empty, blockedHostnames = [''Evil.com''], blockedDomains = []\<rparr>"
    by (simp add: newHostnameService_def)
  show "to_lower ''Evil.com'' \<noteq> ''Evil.com''"
    by code_simp
qed

end
