(* ===== verification/Json.thy ===== *)
theory Json
  imports Prelude
begin

text \<open>
  The part of Go's \<open>encoding/json\<close> and \<open>strconv\<close> the provider uses, above the text level:
  JSON values, decoding of an object into a struct (keys match a field up to letter case,
  a later duplicate wins, \<open>null\<close> leaves the field alone, a value of the wrong kind is an
  error) and decimal rendering. The lexical level (bytes to values and back) is a
  parameter of the definitions that read or write JSON text.
\<close>

datatype json =
    JNull
  | JBool bool
  | JNum string
  | JStr string
  | JArr "json list"
  | JObj "(string \<times> json) list"

text \<open>Decoding into a Go \<open>string\<close>, \<open>bool\<close> or unsigned integer variable that holds \<open>cur\<close>.\<close>

fun decode_string :: "string \<Rightarrow> json \<Rightarrow> string option" where
  "decode_string cur JNull = Some cur"
| "decode_string cur (JStr s) = Some s"
| "decode_string cur _ = None"

fun decode_bool :: "bool \<Rightarrow> json \<Rightarrow> bool option" where
  "decode_bool cur JNull = Some cur"
| "decode_bool cur (JBool b) = Some b"
| "decode_bool cur _ = None"

definition is_digit :: "char \<Rightarrow> bool" where
  "is_digit c = (let n = of_char c :: nat in 48 \<le> n \<and> n \<le> 57)"

definition digits_val :: "string \<Rightarrow> nat" where
  "digits_val s = foldl (\<lambda>a c. 10 * a + (of_char c - 48)) 0 s"

definition parse_uint :: "string \<Rightarrow> nat option" where
  "parse_uint s = (if s \<noteq> [] \<and> list_all is_digit s then Some (digits_val s) else None)"

fun decode_uint :: "nat \<Rightarrow> nat \<Rightarrow> json \<Rightarrow> nat option" where
  "decode_uint bits cur JNull = Some cur"
| "decode_uint bits cur (JNum s) =
     (case parse_uint s of None \<Rightarrow> None | Some n \<Rightarrow> if n < 2 ^ bits then Some n else None)"
| "decode_uint bits cur _ = None"

text \<open>Objects: every member in turn, the key lower-cased for the field match.\<close>

fun decode_fields :: "(string \<Rightarrow> json \<Rightarrow> 'r \<Rightarrow> 'r option) \<Rightarrow> 'r \<Rightarrow> (string \<times> json) list \<Rightarrow> 'r option" where
  "decode_fields f r [] = Some r"
| "decode_fields f r ((k, v) # kvs) =
     (case f (to_lower k) v r of None \<Rightarrow> None | Some r' \<Rightarrow> decode_fields f r' kvs)"

fun decode_struct :: "(string \<Rightarrow> json \<Rightarrow> 'r \<Rightarrow> 'r option) \<Rightarrow> 'r \<Rightarrow> json \<Rightarrow> 'r option" where
  "decode_struct f r JNull = Some r"
| "decode_struct f r (JObj kvs) = decode_fields f r kvs"
| "decode_struct f r _ = None"

text \<open>A pointer field: \<open>null\<close> clears it, an object is decoded into the value it points to.\<close>

definition decode_ptr :: "('r \<Rightarrow> json \<Rightarrow> 'r option) \<Rightarrow> 'r \<Rightarrow> 'r option \<Rightarrow> json \<Rightarrow> 'r option option" where
  "decode_ptr dec zero cur v =
     (if v = JNull then Some None
      else map_option Some (dec (case cur of None \<Rightarrow> zero | Some r \<Rightarrow> r) v))"

text \<open>\<open>strconv.Itoa\<close> on a non-negative number.\<close>

fun itoa :: "nat \<Rightarrow> string" where
  "itoa n = (if n < 10 then [char_of (48 + n)] else itoa (n div 10) @ [char_of (48 + n mod 10)])"

declare itoa.simps [simp del]

lemma digits_val_snoc: "digits_val (s @ [c]) = 10 * digits_val s + (of_char c - 48)"
  by (simp add: digits_val_def)

lemma digit_char: "(d::nat) < 10 \<Longrightarrow> is_digit (char_of (48 + d)) \<and> of_char (char_of (48 + d)) - 48 = d"
  by (simp add: is_digit_def Let_def)

lemma itoa_digits: "itoa n \<noteq> [] \<and> list_all is_digit (itoa n) \<and> digits_val (itoa n) = n"
proof (induction n rule: itoa.induct)
  case (1 n)
  show ?case
  proof (cases "n < 10")
    case True
    then show ?thesis
      using digit_char[of n] by (simp add: itoa.simps[of n] digits_val_def)
  next
    case False
    then show ?thesis
      using 1 digit_char[of "n mod 10"] by (simp add: itoa.simps[of n] digits_val_snoc)
  qed
qed

lemma parse_uint_itoa [simp]: "parse_uint (itoa n) = Some n"
  by (simp add: parse_uint_def itoa_digits)

end
