(* ===== verification/Envelope.thy ===== *)
theory Envelope
  imports Json
begin

text \<open>
  The out-of-band bid envelope (\<open>pirgate/envelope.go\<close>) and the tagged hash it shares with
  the access tokens (\<open>gateway/pir/access.go\<close>). SHA-256, the ChaCha20-Poly1305 AEAD, the
  JSON text codec, the random source, the environment and the file system are the fields
  of the record \<open>world\<close>: code outside the repository, passed to every definition that
  calls it.
\<close>

section \<open>The surroundings\<close>

datatype http_res = HttpErr | HttpResp nat "bytes option"

record world =
  getenv :: "string \<Rightarrow> string"
  read_file :: "string \<Rightarrow> bytes option"
  parse_json :: "bytes \<Rightarrow> json option"
  render_json :: "json \<Rightarrow> bytes"
  sha256 :: "bytes \<Rightarrow> bytes"
  aead_seal :: "bytes \<Rightarrow> bytes \<Rightarrow> bytes \<Rightarrow> bytes \<Rightarrow> bytes"
  aead_open :: "bytes \<Rightarrow> bytes \<Rightarrow> bytes \<Rightarrow> bytes \<Rightarrow> bytes option"
  url_ok :: "string \<Rightarrow> bool"
  http_post :: "string \<Rightarrow> bytes \<Rightarrow> http_res"
  http_get :: "string \<Rightarrow> http_res"

section \<open>Tagged hashes\<close>

definition bidCommitTag :: string where
  "bidCommitTag = ''bid-commit-v1''"

text \<open>What is written to the hash: the tag, its length byte, and each part with its length.\<close>

definition hash_part :: "bytes \<Rightarrow> bytes" where
  "hash_part p = le64 (length p) @ p"

definition tagged_preimage :: "string \<Rightarrow> bytes list \<Rightarrow> bytes" where
  "tagged_preimage tag parts = tag @ [char_of (length tag)] @ concat (map hash_part parts)"

definition taggedHash :: "(bytes \<Rightarrow> bytes) \<Rightarrow> string \<Rightarrow> bytes list \<Rightarrow> bytes" where
  "taggedHash sha tag parts = sha (tagged_preimage tag parts)"

definition aeadAAD :: "string \<Rightarrow> bytes \<Rightarrow> bytes" where
  "aeadAAD askID nonce = le64 (length askID) @ askID @ nonce"

section \<open>Byte arrays in JSON\<close>

fun join_commas :: "string list \<Rightarrow> string" where
  "join_commas [] = []"
| "join_commas [x] = x"
| "join_commas (x # xs) = x @ '','' @ join_commas xs"

definition jsonBytes_MarshalJSON :: "bytes \<Rightarrow> string" where
  "jsonBytes_MarshalJSON j = ''['' @ join_commas (map (\<lambda>c. itoa (of_char c)) j) @ '']''"

fun decode_u8s :: "json list \<Rightarrow> bytes option" where
  "decode_u8s [] = Some []"
| "decode_u8s (v # vs) =
     (case decode_uint 8 0 v of
        None \<Rightarrow> None
      | Some n \<Rightarrow> map_option (\<lambda>r. char_of n # r) (decode_u8s vs))"

fun jsonBytes_UnmarshalJSON :: "json \<Rightarrow> bytes option" where
  "jsonBytes_UnmarshalJSON JNull = Some []"
| "jsonBytes_UnmarshalJSON (JStr s) = hex_decode (trim_prefix (to_lower (trim_space s)) ''0x'')"
| "jsonBytes_UnmarshalJSON (JArr vs) = decode_u8s vs"
| "jsonBytes_UnmarshalJSON _ = None"

section \<open>Envelopes and bids\<close>

record envelope =
  AskID :: string
  Nonce :: bytes
  Ciphertext :: bytes
  Mac :: bytes

record plaintext_bid =
  pb_AskID :: string
  BidderIdentity :: string
  PriceUakt :: nat
  ProviderEndpoint :: string

definition zero_envelope :: envelope where
  "zero_envelope = \<lparr>AskID = [], Nonce = [], Ciphertext = [], Mac = []\<rparr>"

definition zero_bid :: plaintext_bid where
  "zero_bid = \<lparr>pb_AskID = [], BidderIdentity = [], PriceUakt = 0, ProviderEndpoint = []\<rparr>"

definition envelope_field :: "string \<Rightarrow> json \<Rightarrow> envelope \<Rightarrow> envelope option" where
  "envelope_field k v e =
     (if k = ''ask_id'' then map_option (\<lambda>s. e\<lparr>AskID := s\<rparr>) (decode_string (AskID e) v)
      else if k = ''nonce'' then map_option (\<lambda>b. e\<lparr>Nonce := b\<rparr>) (jsonBytes_UnmarshalJSON v)
      else if k = ''ciphertext'' then map_option (\<lambda>b. e\<lparr>Ciphertext := b\<rparr>) (jsonBytes_UnmarshalJSON v)
      else if k = ''mac'' then map_option (\<lambda>b. e\<lparr>Mac := b\<rparr>) (jsonBytes_UnmarshalJSON v)
      else Some e)"

definition bid_field :: "string \<Rightarrow> json \<Rightarrow> plaintext_bid \<Rightarrow> plaintext_bid option" where
  "bid_field k v b =
     (if k = ''ask_id'' then map_option (\<lambda>s. b\<lparr>pb_AskID := s\<rparr>) (decode_string (pb_AskID b) v)
      else if k = ''bidder_identity'' then map_option (\<lambda>s. b\<lparr>BidderIdentity := s\<rparr>) (decode_string (BidderIdentity b) v)
      else if k = ''price_uakt'' then map_option (\<lambda>n. b\<lparr>PriceUakt := n\<rparr>) (decode_uint 64 (PriceUakt b) v)
      else if k = ''provider_endpoint'' then map_option (\<lambda>s. b\<lparr>ProviderEndpoint := s\<rparr>) (decode_string (ProviderEndpoint b) v)
      else Some b)"

definition bid_json :: "plaintext_bid \<Rightarrow> json" where
  "bid_json b = JObj [(''ask_id'', JStr (pb_AskID b)), (''bidder_identity'', JStr (BidderIdentity b)),
     (''price_uakt'', JNum (itoa (PriceUakt b))), (''provider_endpoint'', JStr (ProviderEndpoint b))]"

datatype envelope_error =
    ErrEmptyBid | ErrRand | ErrAeadShort | ErrTruncated | ErrChachaAuth | ErrBidJSON
  | ErrEmptyEnvelope | ErrEnvelopeJSON | ErrNotEnvelope | ErrKey32 | ErrNonce16 | ErrReadFile

definition SealEnvelope ::
    "world \<Rightarrow> bytes option \<Rightarrow> plaintext_bid \<Rightarrow> bytes \<Rightarrow> bytes \<Rightarrow> envelope_error + envelope" where
  "SealEnvelope w rnd bid key nonce0 =
     (if BidderIdentity bid = [] \<or> PriceUakt bid = 0 then Inl ErrEmptyBid
      else
        case (if nonce0 = replicate 16 (char_of (0::nat)) then rnd else Some nonce0) of
          None \<Rightarrow> Inl ErrRand
        | Some nonce \<Rightarrow>
            (let plain = render_json w (bid_json bid);
                 sealed = aead_seal w key (take 12 nonce) plain (aeadAAD (pb_AskID bid) nonce)
             in if length sealed < 16 then Inl ErrAeadShort
                else Inr \<lparr>AskID = pb_AskID bid, Nonce = nonce,
                          Ciphertext = take (length sealed - 16) sealed,
                          Mac = drop (length sealed - 16) sealed @ replicate 16 (char_of (0::nat))\<rparr>))"

definition envelope_Open :: "world \<Rightarrow> envelope \<Rightarrow> bytes \<Rightarrow> envelope_error + plaintext_bid" where
  "envelope_Open w e key =
     (if length (Nonce e) < 12 \<or> Ciphertext e = [] \<or> length (Mac e) < 16 then Inl ErrTruncated
      else
        case aead_open w key (take 12 (Nonce e)) (Ciphertext e @ take 16 (Mac e)) (aeadAAD (AskID e) (Nonce e)) of
          None \<Rightarrow> Inl ErrChachaAuth
        | Some plain \<Rightarrow>
           (case parse_json w plain of
              None \<Rightarrow> Inl ErrBidJSON
            | Some j \<Rightarrow> (case decode_struct bid_field zero_bid j of
                           None \<Rightarrow> Inl ErrBidJSON | Some b \<Rightarrow> Inr b)))"

definition Commitment :: "(bytes \<Rightarrow> bytes) \<Rightarrow> envelope \<Rightarrow> bytes" where
  "Commitment sha e = taggedHash sha bidCommitTag [AskID e, Nonce e, Ciphertext e, Mac e]"

definition CommitmentHex :: "(bytes \<Rightarrow> bytes) \<Rightarrow> envelope \<Rightarrow> string" where
  "CommitmentHex sha e = hex_encode (Commitment sha e)"

definition wrap_field :: "string \<Rightarrow> json \<Rightarrow> envelope option \<Rightarrow> envelope option option" where
  "wrap_field k v cur =
     (if k = ''envelope'' then decode_ptr (decode_struct envelope_field) zero_envelope cur v
      else Some cur)"

definition ParseEnvelope :: "world \<Rightarrow> bytes \<Rightarrow> envelope_error + envelope" where
  "ParseEnvelope w raw0 =
     (let raw = trim_space raw0 in
      if raw = [] then Inl ErrEmptyEnvelope
      else
        let doc = parse_json w raw;
            wrap = (case doc of None \<Rightarrow> None | Some j \<Rightarrow> decode_struct wrap_field None j);
            plain = (case doc of
                       None \<Rightarrow> Inl ErrEnvelopeJSON
                     | Some j \<Rightarrow> (case decode_struct envelope_field zero_envelope j of
                                    None \<Rightarrow> Inl ErrEnvelopeJSON
                                  | Some e \<Rightarrow> if AskID e = [] \<or> Ciphertext e = [] then Inl ErrNotEnvelope
                                              else Inr e))
        in case wrap of
             Some (Some e) \<Rightarrow> if AskID e \<noteq> [] then Inr e else plain
           | _ \<Rightarrow> plain)"

definition parse_fixed_hex :: "nat \<Rightarrow> string \<Rightarrow> bytes option" where
  "parse_fixed_hex n s =
     (case hex_decode (trim_prefix (to_lower (trim_space s)) ''0x'') of
        None \<Rightarrow> None
      | Some b \<Rightarrow> if length b = n then Some b else None)"

definition ParseKey32 :: "string \<Rightarrow> envelope_error + bytes" where
  "ParseKey32 s = (case parse_fixed_hex 32 s of None \<Rightarrow> Inl ErrKey32 | Some b \<Rightarrow> Inr b)"

definition ParseNonce16 :: "string \<Rightarrow> envelope_error + bytes" where
  "ParseNonce16 s =
     (if trim_space s = [] then Inr (replicate 16 (char_of (0::nat)))
      else (case parse_fixed_hex 16 s of None \<Rightarrow> Inl ErrNonce16 | Some b \<Rightarrow> Inr b))"

definition loadEnvelopeFromEnv :: "world \<Rightarrow> envelope_error + envelope option" where
  "loadEnvelopeFromEnv w =
     (let p = getenv w ''PIR_BID_ENVELOPE_FILE'';
          src = (if p = [] then Some (trim_space (getenv w ''PIR_BID_ENVELOPE''))
                 else map_option trim_space (read_file w p))
      in case src of
           None \<Rightarrow> Inl ErrReadFile
         | Some raw \<Rightarrow>
             if raw = [] then Inr None
             else (case ParseEnvelope w raw of Inl e \<Rightarrow> Inl e | Inr e \<Rightarrow> Inr (Some e)))"

section \<open>Lemmas\<close>

lemma hash_parts_inj:
  assumes "concat (map hash_part ps) = concat (map hash_part qs)"
    and "\<forall>p \<in> set ps. length p < 2 ^ 64" and "\<forall>q \<in> set qs. length q < 2 ^ 64"
  shows "ps = qs"
  using assms
proof (induction ps arbitrary: qs)
  case Nil
  then show ?case by (cases qs) (auto simp: hash_part_def)
next
  case (Cons p ps)
  from Cons.prems(1) obtain q qs' where qs: "qs = q # qs'"
    by (cases qs) (auto simp: hash_part_def)
  from Cons.prems(1) have eq:
    "le64 (length p) @ (p @ concat (map hash_part ps)) = le64 (length q) @ (q @ concat (map hash_part qs'))"
    by (simp add: qs hash_part_def[of p] hash_part_def[of q])
  then have le: "le64 (length p) = le64 (length q)"
    and rest: "p @ concat (map hash_part ps) = q @ concat (map hash_part qs')"
    by (simp_all add: append_eq_same_length)
  have "length p = length q" using le64_inj[OF le] Cons.prems(2,3) qs by simp
  then have "p = q" and "concat (map hash_part ps) = concat (map hash_part qs')"
    using rest by simp_all
  then show ?case using Cons.IH[of qs'] Cons.prems(2,3) qs by simp
qed

lemma tagged_preimage_parts:
  "tagged_preimage t ps = tagged_preimage t qs \<longleftrightarrow> concat (map hash_part ps) = concat (map hash_part qs)"
  by (simp add: tagged_preimage_def)

text \<open>Two different inputs with the same hash.\<close>

definition collides :: "(bytes \<Rightarrow> bytes) \<Rightarrow> bytes \<Rightarrow> bytes \<Rightarrow> bool" where
  "collides sha x y = (x \<noteq> y \<and> sha x = sha y)"

lemma taggedHash_parts:
  assumes "taggedHash sha t ps = taggedHash sha t qs"
    and "\<forall>p \<in> set ps. length p < 2 ^ 64" and "\<forall>q \<in> set qs. length q < 2 ^ 64"
  shows "ps = qs \<or> collides sha (tagged_preimage t ps) (tagged_preimage t qs)"
proof (cases "tagged_preimage t ps = tagged_preimage t qs")
  case True
  then show ?thesis
    using hash_parts_inj[OF _ assms(2,3)] by (simp add: tagged_preimage_parts)
next
  case False
  then show ?thesis using assms(1) by (simp add: taggedHash_def collides_def)
qed

lemma decode_u8s_itoa: "decode_u8s (map (\<lambda>c. JNum (itoa (of_char c))) bs) = Some bs"
  by (induction bs) simp_all

lemma is_hex_lower: "is_hex_char c \<Longrightarrow> to_lower_char c = c \<and> \<not> is_space c \<and> c \<noteq> CHR ''x''"
  by (auto simp: is_hex_char_def to_lower_char_def is_space_def Let_def)

lemma dropWhile_none: "list_all (\<lambda>c. \<not> P c) s \<Longrightarrow> dropWhile P s = s"
  by (cases s) auto

lemma hex_normal:
  assumes "list_all is_hex_char s"
  shows "to_lower s = s" "trim_space s = s" "trim_prefix s ''0x'' = s"
proof -
  show "to_lower s = s"
    using assms by (induction s) (auto simp: to_lower_def is_hex_lower)
  have "list_all (\<lambda>c. \<not> is_space c) s" using assms by (auto simp: list_all_iff is_hex_lower)
  then show "trim_space s = s" by (simp add: trim_space_def dropWhile_none list_all_iff)
  have "\<not> has_prefix s ''0x''"
  proof
    assume "has_prefix s ''0x''"
    then have "CHR ''x'' \<in> set s" by (auto simp: has_prefix_iff prefix_def)
    then show False using assms by (auto simp: list_all_iff dest: is_hex_lower)
  qed
  then show "trim_prefix s ''0x'' = s" by (simp add: trim_prefix_def)
qed

lemma hex_prefix_normal:
  assumes "list_all is_hex_char s"
  shows "trim_prefix (to_lower (trim_space (''0x'' @ s))) ''0x'' = s"
proof -
  have "list_all (\<lambda>c. \<not> is_space c) (''0x'' @ s)"
  proof -
    have "\<not> is_space CHR ''0''" "\<not> is_space CHR ''x''" by code_simp+
    then show ?thesis using assms by (auto simp: list_all_iff is_hex_lower)
  qed
  then have "trim_space (''0x'' @ s) = ''0x'' @ s"
    by (simp add: trim_space_def dropWhile_none list_all_iff)
  moreover have "to_lower (''0x'' @ s) = ''0x'' @ s"
    using hex_normal(1)[OF assms] by (simp add: to_lower_def) (simp add: to_lower_char_def)
  ultimately show ?thesis by (simp add: trim_prefix_def has_prefix_def)
qed

lemmas hex_encode_normal = hex_normal[OF hex_encode_hex] hex_prefix_normal[OF hex_encode_hex]

lemma decode_bid_json:
  assumes "PriceUakt b < 2 ^ 64"
  shows "decode_struct bid_field zero_bid (bid_json b) = Some b"
proof -
  have l: "to_lower ''ask_id'' = ''ask_id''" "to_lower ''bidder_identity'' = ''bidder_identity''"
    "to_lower ''price_uakt'' = ''price_uakt''" "to_lower ''provider_endpoint'' = ''provider_endpoint''"
    by code_simp+
  show ?thesis using assms by (simp add: bid_json_def l bid_field_def zero_bid_def)
qed

section \<open>A concrete world for the witnesses\<close>

text \<open>
  A codec that knows one bid, an AEAD that appends the key's first bytes, a hash that pads:
  total functions that satisfy the laws below, used only to show that the hypotheses of
  the properties can hold.
\<close>

definition toy_bid :: plaintext_bid where
  "toy_bid = \<lparr>pb_AskID = ''ask'', BidderIdentity = ''bob'', PriceUakt = 7, ProviderEndpoint = ''p''\<rparr>"

definition toy_tag :: "bytes \<Rightarrow> bytes" where
  "toy_tag k = take 16 (k @ replicate 16 CHR ''0'')"

definition toy_world :: world where
  "toy_world = \<lparr>getenv = (\<lambda>_. []), read_file = (\<lambda>_. None),
     parse_json = (\<lambda>s. if s = ''bid'' then Some (bid_json toy_bid)
        else if s = ''wrapped'' then Some (JObj [(''envelope'', JObj [(''ask_id'', JStr ''ask'')])])
        else if s = ''bare'' then Some (JObj [(''ask_id'', JStr ''ask'')])
        else if s = ''yes'' then Some (JObj [(''matches'', JBool True)])
        else None),
     render_json = (\<lambda>_. ''bid''), sha256 = (\<lambda>x. take 32 (x @ replicate 32 CHR ''0'')),
     aead_seal = (\<lambda>k n p a. p @ toy_tag k),
     aead_open = (\<lambda>k n c a. if 16 \<le> length c \<and> drop (length c - 16) c = toy_tag k
        then Some (take (length c - 16) c) else None),
     url_ok = (\<lambda>_. True), http_post = (\<lambda>_ _. HttpResp 200 (Some ''yes'')), http_get = (\<lambda>_. HttpErr)\<rparr>"

lemma length_toy_tag [simp]: "length (toy_tag k) = 16"
  by (simp add: toy_tag_def)

section \<open>Properties\<close>

text \<open>What the code relies on of ChaCha20-Poly1305 and of the JSON text codec.\<close>

definition aead_laws :: "world \<Rightarrow> bool" where
  "aead_laws w \<longleftrightarrow>
     (\<forall>k n p a. aead_open w k n (aead_seal w k n p a) a = Some p) \<and>
     (\<forall>k n p a. length (aead_seal w k n p a) = length p + 16)"

definition json_text_law :: "world \<Rightarrow> json \<Rightarrow> bool" where
  "json_text_law w j \<longleftrightarrow> parse_json w (render_json w j) = Some j \<and> render_json w j \<noteq> []"

text \<open>the commitment binds the whole envelope. If two envelopes (of lengths that fit the
  64-bit length fields) have the same commitment, they are the same envelope, or the two
  byte strings that were hashed for them are different and so a SHA-256 collision.\<close>

theorem commitment_binding:
  assumes "Commitment sha e1 = Commitment sha e2"
    and "\<forall>p \<in> set [AskID e1, Nonce e1, Ciphertext e1, Mac e1]. length p < 2 ^ 64"
    and "\<forall>p \<in> set [AskID e2, Nonce e2, Ciphertext e2, Mac e2]. length p < 2 ^ 64"
  shows "e1 = e2 \<or>
    collides sha (tagged_preimage bidCommitTag [AskID e1, Nonce e1, Ciphertext e1, Mac e1])
      (tagged_preimage bidCommitTag [AskID e2, Nonce e2, Ciphertext e2, Mac e2])"
proof -
  from assms(1)
  have "taggedHash sha bidCommitTag [AskID e1, Nonce e1, Ciphertext e1, Mac e1] =
      taggedHash sha bidCommitTag [AskID e2, Nonce e2, Ciphertext e2, Mac e2]"
    by (simp add: Commitment_def)
  from taggedHash_parts[OF this assms(2,3)] show ?thesis by auto
qed

theorem commitment_binding_witness:
  "zero_envelope = zero_envelope \<or> collides id (tagged_preimage bidCommitTag [[], [], [], []])
     (tagged_preimage bidCommitTag [[], [], [], []])"
  using commitment_binding[of id zero_envelope zero_envelope] by (simp add: zero_envelope_def)

text \<open>C35: sealing and opening round-trip. Under the laws of the AEAD and of the JSON codec,
  opening a sealed envelope with the session key it was sealed with gives back the bid.\<close>

theorem seal_open_roundtrip:
  assumes laws: "aead_laws w" "json_text_law w (bid_json bid)"
    and sealed: "SealEnvelope w rnd bid key nonce0 = Inr e"
    and sizes: "PriceUakt bid < 2 ^ 64" "length nonce0 = 16" "\<forall>r. rnd = Some r \<longrightarrow> length r = 16"
  shows "envelope_Open w e key = Inr bid"
proof -
  from sealed obtain nonce where nonce: "length nonce = 16"
    and e: "e = (let s = aead_seal w key (take 12 nonce) (render_json w (bid_json bid)) (aeadAAD (pb_AskID bid) nonce)
      in \<lparr>AskID = pb_AskID bid, Nonce = nonce, Ciphertext = take (length s - 16) s,
          Mac = drop (length s - 16) s @ replicate 16 (char_of (0::nat))\<rparr>)"
    using sizes by (auto simp: SealEnvelope_def Let_def split: if_splits option.splits)
  define s where "s = aead_seal w key (take 12 nonce) (render_json w (bid_json bid)) (aeadAAD (pb_AskID bid) nonce)"
  have len: "length s = length (render_json w (bid_json bid)) + 16"
    using laws(1) by (simp add: aead_laws_def s_def)
  have json: "parse_json w (render_json w (bid_json bid)) = Some (bid_json bid)" "render_json w (bid_json bid) \<noteq> []"
    using laws(2) by (simp_all add: json_text_law_def)
  have join: "take (length s - 16) s @ take 16 (drop (length s - 16) s @ replicate 16 (char_of (0::nat))) = s"
    using len by simp
  have "aead_open w key (take 12 nonce) s (aeadAAD (pb_AskID bid) nonce) = Some (render_json w (bid_json bid))"
    using laws(1) by (simp add: aead_laws_def s_def)
  moreover have "s \<noteq> []" using len by auto
  ultimately show ?thesis
    using json len nonce join
    by (simp add: e Let_def envelope_Open_def decode_bid_json[OF sizes(1)] flip: s_def)
qed

theorem seal_open_roundtrip_witness:
  "envelope_Open toy_world \<lparr>AskID = ''ask'', Nonce = replicate 16 CHR ''n'', Ciphertext = ''bid'',
     Mac = toy_tag ''key'' @ replicate 16 (char_of (0::nat))\<rparr> ''key'' = Inr toy_bid"
proof (rule seal_open_roundtrip)
  show "aead_laws toy_world" by (simp add: aead_laws_def toy_world_def)
  show "json_text_law toy_world (bid_json toy_bid)" by (simp add: json_text_law_def toy_world_def)
  show "SealEnvelope toy_world None toy_bid ''key'' (replicate 16 CHR ''n'') =
      Inr \<lparr>AskID = ''ask'', Nonce = replicate 16 CHR ''n'', Ciphertext = ''bid'',
        Mac = toy_tag ''key'' @ replicate 16 (char_of (0::nat))\<rparr>"
  proof -
    have "CHR ''n'' \<noteq> char_of (0::nat)" by code_simp
    then show ?thesis by (simp add: SealEnvelope_def toy_world_def toy_bid_def)
  qed
qed (simp_all add: toy_bid_def)

text \<open>a byte string written as a JSON number array, as a hexadecimal string, or as one
  with a \<open>0x\<close> prefix, is read back by \<open>jsonBytes.UnmarshalJSON\<close> as the same bytes.\<close>

theorem json_bytes_roundtrip:
  "jsonBytes_UnmarshalJSON (JArr (map (\<lambda>c. JNum (itoa (of_char c))) bs)) = Some bs \<and>
   jsonBytes_UnmarshalJSON (JStr (hex_encode bs)) = Some bs \<and>
   jsonBytes_UnmarshalJSON (JStr (''0x'' @ hex_encode bs)) = Some bs"
  by (simp only: jsonBytes_UnmarshalJSON.simps decode_u8s_itoa hex_encode_normal hex_decode_encode)

text \<open>a session key is accepted exactly in its hexadecimal form: \<open>ParseKey32\<close> returns
  only 32-byte keys, and returns the key itself on the hexadecimal text of any 32-byte key.\<close>

theorem parse_key32_roundtrip:
  "(\<forall>s k. ParseKey32 s = Inr k \<longrightarrow> length k = 32) \<and>
   (\<forall>k. length k = 32 \<longrightarrow> ParseKey32 (hex_encode k) = Inr k)"
  by (auto simp: ParseKey32_def parse_fixed_hex_def hex_encode_normal hex_decode_encode
      split: option.splits if_splits)

theorem parse_key32_roundtrip_witness:
  "ParseKey32 (hex_encode (replicate 32 CHR ''k'')) = Inr (replicate 32 CHR ''k'')"
  using parse_key32_roundtrip by simp

text \<open>the ciphertext check is skipped for wrapped envelopes. A document
  \<open>{"envelope": {"ask_id": a}}\<close> with a non-empty \<open>a\<close> is accepted as an envelope although it
  has no nonce, no ciphertext and no authentication tag, whereas the same fields without
  the wrapper are refused as not being an envelope.\<close>

theorem wrapped_envelope_unchecked:
  assumes "a \<noteq> []" and "trim_space raw = raw" "raw \<noteq> []" "trim_space raw2 = raw2" "raw2 \<noteq> []"
    and "parse_json w raw = Some (JObj [(''envelope'', JObj [(''ask_id'', JStr a)])])"
    and "parse_json w raw2 = Some (JObj [(''ask_id'', JStr a)])"
  shows "ParseEnvelope w raw = Inr \<lparr>AskID = a, Nonce = [], Ciphertext = [], Mac = []\<rparr> \<and>
    ParseEnvelope w raw2 = Inl ErrNotEnvelope"
proof (rule conjI)
  have l: "to_lower ''ask_id'' = ''ask_id''" "to_lower ''envelope'' = ''envelope''" by code_simp+
  note d = wrap_field_def envelope_field_def decode_ptr_def zero_envelope_def Let_def l
  show "ParseEnvelope w raw = Inr \<lparr>AskID = a, Nonce = [], Ciphertext = [], Mac = []\<rparr>"
    using assms by (simp add: ParseEnvelope_def d)
  show "ParseEnvelope w raw2 = Inl ErrNotEnvelope"
    using assms by (simp add: ParseEnvelope_def d)
qed

theorem wrapped_envelope_unchecked_witness:
  "ParseEnvelope toy_world ''wrapped'' = Inr \<lparr>AskID = ''ask'', Nonce = [], Ciphertext = [], Mac = []\<rparr> \<and>
   ParseEnvelope toy_world ''bare'' = Inl ErrNotEnvelope"
proof -
  have t: "trim_space ''wrapped'' = ''wrapped''" "trim_space ''bare'' = ''bare''" by code_simp+
  show ?thesis
    using wrapped_envelope_unchecked[of "''ask''" "''wrapped''" "''bare''" toy_world] t
    by (simp add: toy_world_def)
qed

end
