(* ===== verification/Gate.thy ===== *)
theory Gate
  imports Envelope
begin

text \<open>
  The allocation gate of the private market (\<open>pirgate/gate.go\<close>) and the local commitment
  store with its HTTP handler (\<open>pirgate/match.go\<close>). The gate decides from the process
  environment, from files and from HTTP answers whether the provider may allocate; those
  are fields of \<open>world\<close>. Base64 and path escaping are modelled, the URL and HTTP layers are
  not.
\<close>

section \<open>Commitments from the environment\<close>

definition pirMode :: "world \<Rightarrow> bool" where
  "pirMode w = (getenv w ''PIR_REQUIRE_COMMIT'' = ''1'' \<or> getenv w ''PIR_MODE'' = ''1'')"

definition normal_hex :: "string \<Rightarrow> string" where
  "normal_hex s = trim_prefix (to_lower (trim_space s)) ''0x''"

definition hex64 :: "world \<Rightarrow> string \<Rightarrow> string \<Rightarrow> string \<times> bool" where
  "hex64 w raw fileEnv =
     (let s0 = normal_hex (getenv w raw);
          p = getenv w fileEnv;
          s = (if p = [] then s0
               else (case read_file w p of None \<Rightarrow> s0 | Some b \<Rightarrow> normal_hex b))
      in if length s \<noteq> 64 then ([], False)
         else if list_all is_hex_char s then (s, True)
         else ([], False))"

definition is_commit_hex :: "string \<Rightarrow> bool" where
  "is_commit_hex s = (length s = 64 \<and> list_all is_hex_char s)"

section \<open>The match query\<close>

record match_req =
  ask_commitment :: string
  bid_commitment :: string

record match_resp =
  matches :: bool
  data :: "bool option"

definition data_field :: "string \<Rightarrow> json \<Rightarrow> bool \<Rightarrow> bool option" where
  "data_field k v b = (if k = ''matches'' then decode_bool b v else Some b)"

definition match_resp_field :: "string \<Rightarrow> json \<Rightarrow> match_resp \<Rightarrow> match_resp option" where
  "match_resp_field k v m =
     (if k = ''matches'' then map_option (\<lambda>b. m\<lparr>matches := b\<rparr>) (decode_bool (matches m) v)
      else if k = ''data'' then
        map_option (\<lambda>d. m\<lparr>data := d\<rparr>) (decode_ptr (decode_struct data_field) False (data m) v)
      else Some m)"

text \<open>The probe \<open>map[string]json.RawMessage\<close>: keys are compared exactly.\<close>

fun probe_has :: "json \<Rightarrow> string \<Rightarrow> bool option" where
  "probe_has JNull k = Some False"
| "probe_has (JObj kvs) k = Some (list_ex (\<lambda>(k', v). k' = k) kvs)"
| "probe_has _ k = None"

definition parseMatchJSON :: "world \<Rightarrow> bytes \<Rightarrow> bool \<times> bool" where
  "parseMatchJSON w raw =
     (case parse_json w raw of
        None \<Rightarrow> (False, False)
      | Some j \<Rightarrow>
         (case decode_struct match_resp_field \<lparr>matches = False, data = None\<rparr> j of
            None \<Rightarrow> (False, False)
          | Some m \<Rightarrow>
             (case data m of
                Some d \<Rightarrow> (d, True)
              | None \<Rightarrow> (case probe_has j ''matches'' of
                           Some True \<Rightarrow> (matches m, True)
                         | _ \<Rightarrow> (False, False)))))"

definition b64_alphabet :: string where
  "b64_alphabet = ''ABCDEFGHIJKLMNOPQRSTUVWXYZabcdefghijklmnopqrstuvwxyz0123456789+/''"

definition b64_char :: "nat \<Rightarrow> char" where
  "b64_char n = b64_alphabet ! n"

fun b64_encode :: "bytes \<Rightarrow> string" where
  "b64_encode [] = []"
| "b64_encode [a] = (let x = of_char a :: nat in
     [b64_char (x div 4), b64_char (x mod 4 * 16), CHR ''='', CHR ''=''])"
| "b64_encode [a, b] = (let x = of_char a :: nat; y = of_char b in
     [b64_char (x div 4), b64_char (x mod 4 * 16 + y div 16), b64_char (y mod 16 * 4), CHR ''=''])"
| "b64_encode (a # b # c # r) = (let x = of_char a :: nat; y = of_char b; z = of_char c in
     b64_char (x div 4) # b64_char (x mod 4 * 16 + y div 16) # b64_char (y mod 16 * 4 + z div 64)
       # b64_char (z mod 64) # b64_encode r)"

text \<open>\<open>url.PathEscape\<close>: everything but the unreserved characters and \<open>$&+=:@\<close> is escaped.\<close>

definition path_safe :: "char \<Rightarrow> bool" where
  "path_safe c = (let n = of_char c :: nat in
     (48 \<le> n \<and> n \<le> 57) \<or> (65 \<le> n \<and> n \<le> 90) \<or> (97 \<le> n \<and> n \<le> 122) \<or> c \<in> set ''-_.~$&+=:@'')"

definition upper_hex_digit :: "nat \<Rightarrow> char" where
  "upper_hex_digit n = char_of (if n < 10 then 48 + n else 55 + n)"

definition path_escape :: "string \<Rightarrow> string" where
  "path_escape s = concat (map (\<lambda>c. if path_safe c then [c]
     else [CHR ''%'', upper_hex_digit (of_char c div 16), upper_hex_digit (of_char c mod 16)]) s)"

definition last_index :: "string \<Rightarrow> string \<Rightarrow> nat option" where
  "last_index s sub = find (\<lambda>i. has_prefix (drop i s) sub) (rev [0..<Suc (length s)])"

definition lcdSmartURL :: "string \<Rightarrow> bytes \<Rightarrow> string" where
  "lcdSmartURL rawURL queryJSON =
     (let enc = path_escape (b64_encode queryJSON) in
      case last_index rawURL ''/smart/'' of
        Some i \<Rightarrow> take (i + 7) rawURL @ enc
      | None \<Rightarrow> if has_suffix rawURL ''/smart'' then rawURL @ ''/'' @ enc else [])"

definition match_query_json :: "string \<Rightarrow> string \<Rightarrow> json" where
  "match_query_json ask bid =
     JObj [(''match'', JObj [(''ask_commitment'', JStr ask), (''bid_commitment'', JStr bid)])]"

datatype gate_error =
    ErrNewRequest | ErrMatchJSON | ErrGet | ErrGetRead | ErrLcdJSON | ErrMatchFailed
  | ErrZap1Config | ErrZap1Get | ErrZap1Read

definition limit64k :: "bytes \<Rightarrow> bytes" where
  "limit64k b = take 65536 b"

definition queryLCD :: "world \<Rightarrow> string \<Rightarrow> bytes \<Rightarrow> gate_error + bool" where
  "queryLCD w endpoint body =
     (let getURL = lcdSmartURL endpoint body in
      if getURL = [] then Inl ErrMatchFailed
      else (case http_get w getURL of
              HttpErr \<Rightarrow> Inl ErrGet
            | HttpResp code None \<Rightarrow> Inl ErrGetRead
            | HttpResp code (Some raw) \<Rightarrow>
                (case parseMatchJSON w (limit64k raw) of
                   (m, True) \<Rightarrow> Inr m
                 | (m, False) \<Rightarrow> Inl ErrLcdJSON)))"

definition queryMatch :: "world \<Rightarrow> string \<Rightarrow> string \<Rightarrow> string \<Rightarrow> gate_error + bool" where
  "queryMatch w endpoint ask bid =
     (let body = render_json w (match_query_json ask bid) in
      if \<not> url_ok w endpoint then Inl ErrNewRequest
      else (case http_post w endpoint body of
              HttpErr \<Rightarrow> queryLCD w endpoint body
            | HttpResp code raw \<Rightarrow>
                (case (case raw of None \<Rightarrow> (False, False) | Some r \<Rightarrow> parseMatchJSON w (limit64k r)) of
                   (m, True) \<Rightarrow> Inr m
                 | (m, False) \<Rightarrow> if 200 \<le> code \<and> code < 300 then Inl ErrMatchJSON
                                 else queryLCD w endpoint body)))"

section \<open>The ZAP1 condition\<close>

record zap1_accept =
  Accepted :: bool
  Matches :: bool
  Zap1Matches :: bool
  Zap1Halo2Accepted :: bool
  Zap1Halo2Stored :: bool

definition zap1_field :: "string \<Rightarrow> json \<Rightarrow> zap1_accept \<Rightarrow> zap1_accept option" where
  "zap1_field k v z =
     (if k = ''accepted'' then map_option (\<lambda>b. z\<lparr>Accepted := b\<rparr>) (decode_bool (Accepted z) v)
      else if k = ''matches'' then map_option (\<lambda>b. z\<lparr>Matches := b\<rparr>) (decode_bool (Matches z) v)
      else if k = ''zap1_matches'' then map_option (\<lambda>b. z\<lparr>Zap1Matches := b\<rparr>) (decode_bool (Zap1Matches z) v)
      else if k = ''zap1_halo2_accepted'' then
        map_option (\<lambda>b. z\<lparr>Zap1Halo2Accepted := b\<rparr>) (decode_bool (Zap1Halo2Accepted z) v)
      else if k = ''zap1_halo2_stored'' then
        map_option (\<lambda>b. z\<lparr>Zap1Halo2Stored := b\<rparr>) (decode_bool (Zap1Halo2Stored z) v)
      else Some z)"

definition zap1JSONOk :: "world \<Rightarrow> bytes \<Rightarrow> bool" where
  "zap1JSONOk w raw =
     (case parse_json w raw of
        None \<Rightarrow> False
      | Some j \<Rightarrow>
         (case decode_struct zap1_field
             \<lparr>Accepted = False, Matches = False, Zap1Matches = False,
              Zap1Halo2Accepted = False, Zap1Halo2Stored = False\<rparr> j of
            None \<Rightarrow> False
          | Some z \<Rightarrow> Zap1Halo2Accepted z \<or> Zap1Matches z \<or> Matches z \<or> Accepted z))"

definition zap1Accepted :: "world \<Rightarrow> gate_error + bool" where
  "zap1Accepted w =
     (if getenv w ''PIR_ZAP1_REQUIRE'' \<noteq> ''1'' then Inr True
      else if getenv w ''PIR_ZAP1_ACCEPT_URL'' \<noteq> [] then
        (case http_get w (getenv w ''PIR_ZAP1_ACCEPT_URL'') of
           HttpErr \<Rightarrow> Inl ErrZap1Get
         | HttpResp code None \<Rightarrow> Inl ErrZap1Read
         | HttpResp code (Some raw) \<Rightarrow> Inr (zap1JSONOk w (limit64k raw)))
      else if getenv w ''PIR_ZAP1_ACCEPT_FILE'' = [] then Inl ErrZap1Config
      else (case read_file w (getenv w ''PIR_ZAP1_ACCEPT_FILE'') of
              None \<Rightarrow> Inl ErrZap1Read
            | Some raw \<Rightarrow> Inr (zap1JSONOk w raw)))"

section \<open>The gate\<close>

text \<open>\<open>(ask, bid, envLoaded, ok)\<close>, in the order of the checks.\<close>

definition resolveAskBid :: "world \<Rightarrow> string \<times> string \<times> bool \<times> bool" where
  "resolveAskBid w =
     (let (ask, okA) = hex64 w ''PIR_ASK_COMMIT'' ''PIR_ASK_COMMIT_FILE'';
          (bid, okB) = hex64 w ''PIR_BID_COMMIT'' ''PIR_BID_COMMIT_FILE''
      in case loadEnvelopeFromEnv w of
           Inl e \<Rightarrow> ([], [], False, False)
         | Inr None \<Rightarrow>
             if getenv w ''PIR_REQUIRE_ENVELOPE'' = ''1'' then (ask, bid, False, False)
             else (ask, bid, False, okA \<and> okB)
         | Inr (Some env) \<Rightarrow>
             (let derived = CommitmentHex (sha256 w) env;
                  ks = getenv w ''PIR_SESSION_KEY''
              in if okB \<and> bid \<noteq> derived then (ask, derived, True, False)
                 else if ks \<noteq> [] \<and>
                   (case ParseKey32 ks of
                      Inl e \<Rightarrow> True
                    | Inr key \<Rightarrow> \<not> is_ok (envelope_Open w env key))
                 then (ask, derived, True, False)
                 else (ask, derived, True, okA)))"

definition EnvelopeLoaded :: "world \<Rightarrow> bool" where
  "EnvelopeLoaded w = (case loadEnvelopeFromEnv w of Inr (Some e) \<Rightarrow> True | _ \<Rightarrow> False)"

definition CommitMatchURLSet :: "world \<Rightarrow> bool" where
  "CommitMatchURLSet w = (trim_space (getenv w ''PIR_COMMIT_MATCH_URL'') \<noteq> [])"

definition LiveCommitMatches :: "world \<Rightarrow> bool" where
  "LiveCommitMatches w =
     (let u = trim_space (getenv w ''PIR_COMMIT_MATCH_URL'') in
      if u = [] then False
      else (case resolveAskBid w of
              (ask, bid, l, ok) \<Rightarrow>
                if \<not> ok then False
                else (case queryMatch w u ask bid of Inl e \<Rightarrow> False | Inr m \<Rightarrow> m)))"

definition PirAllocationAllowed :: "world \<Rightarrow> bool" where
  "PirAllocationAllowed w =
     (if \<not> pirMode w then True
      else (case resolveAskBid w of
              (ask, bid, envLoaded, ok) \<Rightarrow>
                if \<not> ok then False
                else
                  let u = trim_space (getenv w ''PIR_COMMIT_MATCH_URL'') in
                  if getenv w ''PIR_REQUIRE_ENVELOPE'' = ''1'' \<and> u = [] then False
                  else if u \<noteq> [] \<and> (case queryMatch w u ask bid of Inl e \<Rightarrow> True | Inr m \<Rightarrow> \<not> m) then False
                  else (case zap1Accepted w of Inl e \<Rightarrow> False | Inr z \<Rightarrow> z)))"

section \<open>The local commitment store\<close>

record commit_store =
  cs_ask :: string
  cs_bid :: string

definition NewCommitStore :: "string \<Rightarrow> string \<Rightarrow> commit_store" where
  "NewCommitStore ask bid = \<lparr>cs_ask = ask, cs_bid = bid\<rparr>"

definition store_Post :: "commit_store \<Rightarrow> string \<Rightarrow> string \<Rightarrow> commit_store" where
  "store_Post s ask bid = s\<lparr>cs_ask := ask, cs_bid := bid\<rparr>"

definition store_Match :: "commit_store \<Rightarrow> string \<Rightarrow> string \<Rightarrow> bool" where
  "store_Match s ask bid = (cs_ask s \<noteq> [] \<and> cs_bid s \<noteq> [] \<and> cs_ask s = ask \<and> cs_bid s = bid)"

definition zero_match_req :: match_req where
  "zero_match_req = \<lparr>ask_commitment = [], bid_commitment = []\<rparr>"

definition match_req_field :: "string \<Rightarrow> json \<Rightarrow> match_req \<Rightarrow> match_req option" where
  "match_req_field k v m =
     (if k = ''ask_commitment'' then
        map_option (\<lambda>s. m\<lparr>ask_commitment := s\<rparr>) (decode_string (ask_commitment m) v)
      else if k = ''bid_commitment'' then
        map_option (\<lambda>s. m\<lparr>bid_commitment := s\<rparr>) (decode_string (bid_commitment m) v)
      else Some m)"

definition match_wrap_field :: "string \<Rightarrow> json \<Rightarrow> match_req \<Rightarrow> match_req option" where
  "match_wrap_field k v m = (if k = ''match'' then decode_struct match_req_field m v else Some m)"

definition unmarshal :: "world \<Rightarrow> (string \<Rightarrow> json \<Rightarrow> 'r \<Rightarrow> 'r option) \<Rightarrow> 'r \<Rightarrow> bytes \<Rightarrow> 'r option" where
  "unmarshal w f zero raw =
     (case parse_json w raw of None \<Rightarrow> None | Some j \<Rightarrow> decode_struct f zero j)"

definition decodeMatchBody :: "world \<Rightarrow> bytes \<Rightarrow> string \<times> string" where
  "decodeMatchBody w raw =
     (let wrapped = (case unmarshal w match_wrap_field zero_match_req raw of
                       Some m \<Rightarrow> (ask_commitment m, bid_commitment m)
                     | None \<Rightarrow> ([], []))
      in case unmarshal w match_req_field zero_match_req raw of
           Some m \<Rightarrow> if ask_commitment m \<noteq> [] \<or> bid_commitment m \<noteq> []
                     then (ask_commitment m, bid_commitment m) else wrapped
         | None \<Rightarrow> wrapped)"

text \<open>The four base64 decoders, tried in order; line breaks are skipped.\<close>

definition b64_val :: "bool \<Rightarrow> char \<Rightarrow> nat option" where
  "b64_val url c = (let n = of_char c :: nat in
     if 65 \<le> n \<and> n \<le> 90 then Some (n - 65)
     else if 97 \<le> n \<and> n \<le> 122 then Some (n - 71)
     else if 48 \<le> n \<and> n \<le> 57 then Some (n + 4)
     else if c = (if url then CHR ''-'' else CHR ''+'') then Some 62
     else if c = (if url then CHR ''_'' else CHR ''/'') then Some 63
     else None)"

definition b64_two :: "nat \<Rightarrow> nat \<Rightarrow> bytes" where
  "b64_two a b = [char_of (a * 4 + b div 16)]"

definition b64_three :: "nat \<Rightarrow> nat \<Rightarrow> nat \<Rightarrow> bytes" where
  "b64_three a b c = [char_of (a * 4 + b div 16), char_of (b mod 16 * 16 + c div 4)]"

fun b64_decode :: "bool \<Rightarrow> bool \<Rightarrow> string \<Rightarrow> bytes option" where
  "b64_decode url pad [] = Some []"
| "b64_decode url pad [a] = None"
| "b64_decode url pad [a, b] =
     (case (b64_val url a, b64_val url b) of
        (Some x, Some y) \<Rightarrow> if pad then None else Some (b64_two x y) | _ \<Rightarrow> None)"
| "b64_decode url pad [a, b, c] =
     (case (b64_val url a, b64_val url b, b64_val url c) of
        (Some x, Some y, Some z) \<Rightarrow> if pad then None else Some (b64_three x y z) | _ \<Rightarrow> None)"
| "b64_decode url pad (a # b # c # d # r) =
     (case (b64_val url a, b64_val url b) of
        (Some x, Some y) \<Rightarrow>
          (if pad \<and> r = [] \<and> c = CHR ''='' \<and> d = CHR ''='' then Some (b64_two x y)
           else (case b64_val url c of
                   None \<Rightarrow> None
                 | Some z \<Rightarrow>
                     if pad \<and> r = [] \<and> d = CHR ''='' then Some (b64_three x y z)
                     else (case b64_val url d of
                             None \<Rightarrow> None
                           | Some u \<Rightarrow> map_option (\<lambda>t. b64_three x y z @ [char_of (z mod 4 * 64 + u)] @ t)
                                         (b64_decode url pad r))))
      | _ \<Rightarrow> None)"

fun path_unescape_opt :: "string \<Rightarrow> string option" where
  "path_unescape_opt [] = Some []"
| "path_unescape_opt (c # cs) =
     (if c = CHR ''%'' then
        (case cs of
           a # b # r \<Rightarrow>
             (case (hex_val a, hex_val b) of
                (Some x, Some y) \<Rightarrow> map_option (\<lambda>t. char_of (16 * x + y) # t) (path_unescape_opt r)
              | _ \<Rightarrow> None)
         | _ \<Rightarrow> None)
      else map_option (\<lambda>t. c # t) (path_unescape_opt cs))"

definition decodeB64Query :: "string \<Rightarrow> bytes" where
  "decodeB64Query enc0 =
     (let enc = trim_space (case path_unescape_opt enc0 of None \<Rightarrow> [] | Some s \<Rightarrow> s);
          body = filter (\<lambda>c. c \<noteq> char_of (10::nat) \<and> c \<noteq> char_of (13::nat)) enc
      in case b64_decode False True body of Some r \<Rightarrow> r | None \<Rightarrow>
         (case b64_decode True True body of Some r \<Rightarrow> r | None \<Rightarrow>
         (case b64_decode False False body of Some r \<Rightarrow> r | None \<Rightarrow>
         (case b64_decode True False body of Some r \<Rightarrow> r | None \<Rightarrow> enc))))"

section \<open>The HTTP handler of the store\<close>

text \<open>
  A request as \<open>net/http\<close> hands it to the handler: method, cleaned path, the values of the
  three query parameters the handler reads, and the body (\<open>None\<close> when reading it fails).
\<close>

record http_request =
  r_method :: string
  r_path :: string
  r_ask :: string
  r_bid :: string
  r_query :: string
  r_body :: "bytes option"

datatype http_reply = ReplyMatches bool | ReplyOk | ReplyBadBody | ReplyNotFound

definition handleMatch :: "world \<Rightarrow> commit_store \<Rightarrow> http_request \<Rightarrow> http_reply" where
  "handleMatch w s r =
     (let direct = (if r_method r = ''GET'' then
                      (if r_ask r = [] \<and> r_bid r = [] \<and> r_query r \<noteq> []
                       then decodeMatchBody w (decodeB64Query (r_query r))
                       else (r_ask r, r_bid r))
                    else ([], []))
      in if fst direct \<noteq> [] \<or> snd direct \<noteq> []
         then ReplyMatches (store_Match s (fst direct) (snd direct))
         else (case r_body r of
                 None \<Rightarrow> ReplyBadBody
               | Some raw \<Rightarrow> (let (ask, bid) = decodeMatchBody w (limit64k raw)
                              in ReplyMatches (store_Match s ask bid))))"

definition trim_slashes :: "string \<Rightarrow> string" where
  "trim_slashes s = rev (dropWhile (\<lambda>c. c = CHR ''/'') (rev (dropWhile (\<lambda>c. c = CHR ''/'') s)))"

definition handleSmart :: "world \<Rightarrow> commit_store \<Rightarrow> http_request \<Rightarrow> http_reply" where
  "handleSmart w s r =
     (let enc = trim_slashes (trim_prefix (r_path r) ''/smart/'') in
      if enc = [] then handleMatch w s r
      else (let (ask, bid) = decodeMatchBody w (decodeB64Query enc)
            in ReplyMatches (store_Match s ask bid)))"

definition post_field :: "string \<Rightarrow> json \<Rightarrow> match_req option \<Rightarrow> match_req option option" where
  "post_field k v cur =
     (if k = ''post_commitments'' then decode_ptr (decode_struct match_req_field) zero_match_req cur v
      else Some cur)"

definition handleExecute :: "world \<Rightarrow> commit_store \<Rightarrow> http_request \<Rightarrow> commit_store \<times> http_reply" where
  "handleExecute w s r =
     (case r_body r of
        None \<Rightarrow> (s, ReplyBadBody)
      | Some raw0 \<Rightarrow>
         (let raw = limit64k raw0;
              flat = (case unmarshal w match_req_field zero_match_req raw of
                        Some m \<Rightarrow> store_Post s (ask_commitment m) (bid_commitment m)
                      | None \<Rightarrow> s)
          in (case unmarshal w post_field None raw of
                Some (Some m) \<Rightarrow> store_Post s (ask_commitment m) (bid_commitment m)
              | _ \<Rightarrow> flat, ReplyOk)))"

definition CommitMatchHandler :: "world \<Rightarrow> commit_store \<Rightarrow> http_request \<Rightarrow> commit_store \<times> http_reply" where
  "CommitMatchHandler w s r =
     (if r_path r = ''/health'' then (s, ReplyOk)
      else if r_path r = ''/match'' \<or> r_path r = ''/query'' then (s, handleMatch w s r)
      else if has_prefix (r_path r) ''/smart/'' \<or> r_path r = ''/smart'' then
        (s, handleSmart w s r)
      else if r_path r = ''/execute'' then handleExecute w s r
      else if r_path r \<noteq> ''/'' then (s, ReplyNotFound)
      else if r_method r = ''GET'' then (s, ReplyOk)
      else (s, handleMatch w s r))"

section \<open>Lemmas\<close>

lemma CommitmentHex_commit:
  assumes "\<And>x. length (sha256 w x) = 32"
  shows "is_commit_hex (CommitmentHex (sha256 w) e)"
  using assms
  by (simp add: is_commit_hex_def CommitmentHex_def Commitment_def taggedHash_def hex_encode_hex)

lemma resolve_ok_env:
  assumes "resolveAskBid w = (ask, bid, l, True)" and "loadEnvelopeFromEnv w = Inr (Some env)"
  shows "bid = CommitmentHex (sha256 w) env"
    and "getenv w ''PIR_SESSION_KEY'' \<noteq> [] \<Longrightarrow>
      \<exists>key b. ParseKey32 (getenv w ''PIR_SESSION_KEY'') = Inr key \<and> envelope_Open w env key = Inr b"
  using assms
  by (auto simp: resolveAskBid_def Let_def is_ok_iff split: prod.splits sum.splits if_splits)

lemmas match_field_names =
  match_req_field_def match_wrap_field_def match_resp_field_def data_field_def zero_match_req_def

lemma lower_keys:
  "to_lower ''match'' = ''match''" "to_lower ''matches'' = ''matches''"
  "to_lower ''ask_commitment'' = ''ask_commitment''" "to_lower ''bid_commitment'' = ''bid_commitment''"
  "to_lower ''post_commitments'' = ''post_commitments''"
  by code_simp+

lemma decodeMatchBody_query:
  assumes "parse_json w raw = Some (match_query_json ask bid)"
  shows "decodeMatchBody w raw = (ask, bid)"
  using assms
  by (simp add: decodeMatchBody_def unmarshal_def match_query_json_def match_field_names lower_keys)

lemma parseMatchJSON_reply:
  assumes "parse_json w raw = Some (JObj [(''matches'', JBool b)])"
  shows "parseMatchJSON w raw = (b, True)"
  using assms by (simp add: parseMatchJSON_def match_field_names lower_keys)

text \<open>The handler behind a URL: what \<open>http.Client\<close> sees of a POST to it.\<close>

definition post_request :: "string \<Rightarrow> bytes \<Rightarrow> http_request" where
  "post_request path body = \<lparr>r_method = ''POST'', r_path = path, r_ask = [], r_bid = [],
     r_query = [], r_body = Some body\<rparr>"

definition reply_text :: "world \<Rightarrow> json \<Rightarrow> bytes" where
  "reply_text w j = render_json w j @ [char_of (10::nat)]"

definition serve :: "world \<Rightarrow> commit_store \<Rightarrow> string \<Rightarrow> bytes \<Rightarrow> http_res" where
  "serve w s path body =
     (case snd (CommitMatchHandler w s (post_request path body)) of
        ReplyMatches b \<Rightarrow> HttpResp 200 (Some (reply_text w (JObj [(''matches'', JBool b)])))
      | ReplyOk \<Rightarrow> HttpResp 200 (Some (reply_text w (JObj [(''ok'', JBool True)])))
      | ReplyBadBody \<Rightarrow> HttpResp 400 (Some ''body'')
      | ReplyNotFound \<Rightarrow> HttpResp 404 (Some ''404 page not found''))"

text \<open>The JSON codec reads back what the client and the handler write, within the size limit.\<close>

definition match_codec_laws :: "world \<Rightarrow> string \<Rightarrow> string \<Rightarrow> bool" where
  "match_codec_laws w ask bid \<longleftrightarrow>
     parse_json w (render_json w (match_query_json ask bid)) = Some (match_query_json ask bid) \<and>
     length (render_json w (match_query_json ask bid)) \<le> 65536 \<and>
     list_all (\<lambda>b. parse_json w (reply_text w (JObj [(''matches'', JBool b)])) = Some (JObj [(''matches'', JBool b)])
        \<and> length (reply_text w (JObj [(''matches'', JBool b)])) \<le> 65536) [True, False]"

lemma match_codec_reply:
  "match_codec_laws w ask bid \<Longrightarrow>
   parseMatchJSON w (limit64k (reply_text w (JObj [(''matches'', JBool b)]))) = (b, True)"
  by (cases b) (simp_all add: match_codec_laws_def limit64k_def parseMatchJSON_reply)

lemma queryMatch_of_reply:
  assumes "url_ok w u" and "match_codec_laws w ask bid"
    and "http_post w u (render_json w (match_query_json ask bid)) =
      HttpResp 200 (Some (reply_text w (JObj [(''matches'', JBool b)])))"
  shows "queryMatch w u ask bid = Inr b"
  using assms by (simp add: queryMatch_def match_codec_reply)

section \<open>Properties\<close>

text \<open>What the commitments are meant to be: the text of the file a variable names, when it names
  one that can be read, else the variable's own text; and for the bid the commitment of the
  envelope, when one is loaded.\<close>

definition configured_commit :: "world \<Rightarrow> string \<Rightarrow> string \<Rightarrow> string" where
  "configured_commit w var fileVar =
     normal_hex (case if getenv w fileVar = [] then None else read_file w (getenv w fileVar) of
        None \<Rightarrow> getenv w var
      | Some b \<Rightarrow> b)"

definition ask_commit :: "world \<Rightarrow> string" where
  "ask_commit w = configured_commit w ''PIR_ASK_COMMIT'' ''PIR_ASK_COMMIT_FILE''"

definition bid_commit :: "world \<Rightarrow> string" where
  "bid_commit w = configured_commit w ''PIR_BID_COMMIT'' ''PIR_BID_COMMIT_FILE''"

definition effective_bid :: "world \<Rightarrow> string" where
  "effective_bid w = (case loadEnvelopeFromEnv w of Inr (Some env) \<Rightarrow> CommitmentHex (sha256 w) env | _ \<Rightarrow> bid_commit w)"

lemma hex64_configured:
  "hex64 w a f = (if is_commit_hex (configured_commit w a f) then (configured_commit w a f, True) else ([], False))"
  by (auto simp: hex64_def configured_commit_def is_commit_hex_def Let_def split: option.splits)

lemma key_opens:
  "(case ParseKey32 ks of Inl e \<Rightarrow> True | Inr key \<Rightarrow> \<not> is_ok (envelope_Open w env key)) \<longleftrightarrow>
     \<not> (\<exists>key b. ParseKey32 ks = Inr key \<and> envelope_Open w env key = Inr b)"
  by (auto simp: is_ok_iff split: sum.splits)

lemma resolve_ok_iff:
  assumes "\<And>x. length (sha256 w x) = 32"
  shows "(\<exists>l. resolveAskBid w = (ask, bid, l, True)) \<longleftrightarrow>
    ask = ask_commit w \<and> bid = effective_bid w \<and> is_commit_hex ask \<and> is_commit_hex bid \<and>
    (\<exists>r. loadEnvelopeFromEnv w = Inr r \<and>
      (case r of
         None \<Rightarrow> getenv w ''PIR_REQUIRE_ENVELOPE'' \<noteq> ''1''
       | Some env \<Rightarrow> (is_commit_hex (bid_commit w) \<longrightarrow> bid_commit w = bid) \<and>
           (getenv w ''PIR_SESSION_KEY'' \<noteq> [] \<longrightarrow>
            (\<exists>key b. ParseKey32 (getenv w ''PIR_SESSION_KEY'') = Inr key \<and> envelope_Open w env key = Inr b))))"
  using CommitmentHex_commit[OF assms]
  by (auto simp: resolveAskBid_def Let_def hex64_configured ask_commit_def bid_commit_def effective_bid_def key_opens
      split: sum.splits option.splits if_splits)

text \<open>C7: the gate is fail-closed, exactly. In private-market mode an allocation is allowed if and
  only if all of this holds: the ask commitment configured in the environment, and the bid
  commitment, which is the one of the loaded envelope, or the configured one when no envelope
  is configured, are 64 lower-case hexadecimal digits; the envelope's configuration is not in
  error, and with an envelope a well-formed configured bid commitment agrees with it and a
  configured session key opens it; a required envelope is loaded and comes with a match URL; a
  configured match query answers true for these two commitments; and a required ZAP1 check
  accepts.\<close>

theorem gate_fail_closed:
  assumes "pirMode w" and "\<And>x. length (sha256 w x) = 32"
  shows "PirAllocationAllowed w \<longleftrightarrow>
    is_commit_hex (ask_commit w) \<and> is_commit_hex (effective_bid w)
    \<and> (\<exists>r. loadEnvelopeFromEnv w = Inr r)
    \<and> (\<forall>env. loadEnvelopeFromEnv w = Inr (Some env) \<longrightarrow>
         (is_commit_hex (bid_commit w) \<longrightarrow> bid_commit w = CommitmentHex (sha256 w) env) \<and>
         (getenv w ''PIR_SESSION_KEY'' \<noteq> [] \<longrightarrow>
          (\<exists>key b. ParseKey32 (getenv w ''PIR_SESSION_KEY'') = Inr key \<and> envelope_Open w env key = Inr b)))
    \<and> (getenv w ''PIR_REQUIRE_ENVELOPE'' = ''1'' \<longrightarrow> EnvelopeLoaded w \<and> CommitMatchURLSet w)
    \<and> (CommitMatchURLSet w \<longrightarrow>
        queryMatch w (trim_space (getenv w ''PIR_COMMIT_MATCH_URL'')) (ask_commit w) (effective_bid w) = Inr True)
    \<and> (getenv w ''PIR_ZAP1_REQUIRE'' = ''1'' \<longrightarrow> zap1Accepted w = Inr True)"
    (is "_ \<longleftrightarrow> ?spec")
proof -
  let ?u = "trim_space (getenv w ''PIR_COMMIT_MATCH_URL'')"
  have "PirAllocationAllowed w \<longleftrightarrow>
      (\<exists>ask bid. (\<exists>l. resolveAskBid w = (ask, bid, l, True)) \<and> (getenv w ''PIR_REQUIRE_ENVELOPE'' = ''1'' \<longrightarrow> ?u \<noteq> []) \<and>
        (?u \<noteq> [] \<longrightarrow> queryMatch w ?u ask bid = Inr True) \<and> zap1Accepted w = Inr True)"
    using assms(1) by (cases "resolveAskBid w") (auto simp: PirAllocationAllowed_def Let_def split: sum.splits)
  also have "\<dots> \<longleftrightarrow> ?spec"
  proof -
    have z: "zap1Accepted w = Inr True \<longleftrightarrow> (getenv w ''PIR_ZAP1_REQUIRE'' = ''1'' \<longrightarrow> zap1Accepted w = Inr True)"
      by (auto simp: zap1Accepted_def)
    show ?thesis
      unfolding resolve_ok_iff[OF assms(2)] CommitMatchURLSet_def EnvelopeLoaded_def
      by (subst z) (auto simp: effective_bid_def split: sum.splits option.splits)
  qed
  finally show ?thesis .
qed

definition gate_world :: world where
  "gate_world = toy_world\<lparr>getenv := (\<lambda>v.
     if v = ''PIR_MODE'' then ''1''
     else if v = ''PIR_ASK_COMMIT'' \<or> v = ''PIR_BID_COMMIT'' then replicate 64 CHR ''a''
     else if v = ''PIR_COMMIT_MATCH_URL'' then ''u'' else [])\<rparr>"

lemma gate_world_open: "PirAllocationAllowed gate_world \<and> pirMode gate_world"
proof -
  have h: "list_all is_hex_char (replicate 64 CHR ''a'')"
    by (simp add: list_all_iff is_hex_char_def)
  have n: "normal_hex (replicate 64 CHR ''a'') = replicate 64 CHR ''a''"
    using hex_normal[OF h] by (simp add: normal_hex_def)
  have x: "hex64 gate_world v f = (replicate 64 CHR ''a'', True)"
    if "v = ''PIR_ASK_COMMIT'' \<or> v = ''PIR_BID_COMMIT''" "getenv gate_world f = []" for v f
    using that n h by (auto simp: hex64_def gate_world_def)
  have e: "loadEnvelopeFromEnv gate_world = Inr None"
    by (simp add: loadEnvelopeFromEnv_def gate_world_def trim_space_def)
  have r: "resolveAskBid gate_world = (replicate 64 CHR ''a'', replicate 64 CHR ''a'', False, True)"
  proof -
    have "getenv gate_world ''PIR_ASK_COMMIT_FILE'' = []" "getenv gate_world ''PIR_BID_COMMIT_FILE'' = []"
      "getenv gate_world ''PIR_REQUIRE_ENVELOPE'' = []" by (simp_all add: gate_world_def)
    then show ?thesis by (simp add: resolveAskBid_def x e)
  qed
  have y: "parseMatchJSON gate_world (limit64k ''yes'') = (True, True)"
    by (rule parseMatchJSON_reply) (simp add: gate_world_def toy_world_def limit64k_def)
  have q: "queryMatch gate_world u a b = Inr True" for u a b
    using y by (simp add: queryMatch_def) (simp add: gate_world_def toy_world_def)
  have "pirMode gate_world" by (simp add: pirMode_def gate_world_def)
  moreover have "zap1Accepted gate_world = Inr True" by (simp add: zap1Accepted_def gate_world_def)
  moreover have "getenv gate_world ''PIR_REQUIRE_ENVELOPE'' = []" by (simp add: gate_world_def)
  ultimately show ?thesis by (simp add: PirAllocationAllowed_def r q)
qed

text \<open>The gate is open in this world, and closed once its ask commitment is missing.\<close>

definition no_ask_world :: world where
  "no_ask_world = gate_world\<lparr>getenv := (\<lambda>v. if v = ''PIR_ASK_COMMIT'' then [] else getenv gate_world v)\<rparr>"

theorem gate_fail_closed_witness:
  "queryMatch gate_world ''u'' (ask_commit gate_world) (effective_bid gate_world) = Inr True \<and>
   pirMode no_ask_world \<and> \<not> PirAllocationAllowed no_ask_world"
proof -
  have len: "\<And>x. length (sha256 gate_world x) = 32" "\<And>x. length (sha256 no_ask_world x) = 32"
    by (simp_all add: gate_world_def no_ask_world_def toy_world_def)
  have u: "trim_space (getenv gate_world ''PIR_COMMIT_MATCH_URL'') = ''u''" by code_simp
  have n: "pirMode no_ask_world" by code_simp
  have "ask_commit no_ask_world = []" by code_simp
  then have "\<not> is_commit_hex (ask_commit no_ask_world)" by (simp add: is_commit_hex_def)
  then have "\<not> PirAllocationAllowed no_ask_world" using gate_fail_closed[OF n len(2)] by blast
  moreover have "queryMatch gate_world ''u'' (ask_commit gate_world) (effective_bid gate_world) = Inr True"
    using gate_fail_closed[OF conjunct2[OF gate_world_open] len(1)] gate_world_open u
    by (simp add: CommitMatchURLSet_def)
  ultimately show ?thesis using n by blast
qed

text \<open>a session key that does not open the envelope denies the allocation: in
  private-market mode, when an envelope is configured and the configured session key is
  malformed or fails to open it, the gate is closed whatever the other inputs are.\<close>

theorem loser_key_denied:
  assumes "pirMode w" and "loadEnvelopeFromEnv w = Inr (Some env)"
    and "getenv w ''PIR_SESSION_KEY'' \<noteq> []"
    and "\<And>key b. ParseKey32 (getenv w ''PIR_SESSION_KEY'') = Inr key \<Longrightarrow> envelope_Open w env key \<noteq> Inr b"
  shows "\<not> PirAllocationAllowed w"
proof
  assume "PirAllocationAllowed w"
  then obtain ask bid l where r: "resolveAskBid w = (ask, bid, l, True)"
    using assms(1) by (auto simp: PirAllocationAllowed_def split: prod.splits if_splits)
  show False using resolve_ok_env(2)[OF r assms(2) assms(3)] assms(4) by blast
qed

definition loser_world :: world where
  "loser_world = gate_world\<lparr>getenv := (\<lambda>v. if v = ''PIR_BID_ENVELOPE'' then ''wrapped''
     else if v = ''PIR_SESSION_KEY'' then ''zz'' else getenv gate_world v)\<rparr>"

theorem loser_key_denied_witness: "\<not> PirAllocationAllowed loser_world"
proof (rule loser_key_denied)
  show "pirMode loser_world" by code_simp
  show "loadEnvelopeFromEnv loser_world =
      Inr (Some \<lparr>AskID = ''ask'', Nonce = [], Ciphertext = [], Mac = []\<rparr>)" by code_simp
  show "getenv loser_world ''PIR_SESSION_KEY'' \<noteq> []" by code_simp
  have "ParseKey32 (getenv loser_world ''PIR_SESSION_KEY'') = Inl ErrKey32" by code_simp
  then show "envelope_Open loser_world \<lparr>AskID = ''ask'', Nonce = [], Ciphertext = [], Mac = []\<rparr> key \<noteq> Inr b"
    if "ParseKey32 (getenv loser_world ''PIR_SESSION_KEY'') = Inr key" for key b
    using that by simp
qed

text \<open>C37: the gate's client and the store's handler agree. When the configured URL is served by
  the handler at \<open>/match\<close>, \<open>/query\<close> or \<open>/\<close>, the query answers exactly whether the store holds
  that pair of commitments.\<close>

theorem match_client_server:
  assumes "path \<in> {''/match'', ''/query'', ''/''}" and "url_ok w u" and "match_codec_laws w ask bid"
    and "\<And>body. http_post w u body = serve w s path body"
  shows "queryMatch w u ask bid = Inr (store_Match s ask bid)"
proof -
  have body: "limit64k (render_json w (match_query_json ask bid)) = render_json w (match_query_json ask bid)"
    and dec: "decodeMatchBody w (render_json w (match_query_json ask bid)) = (ask, bid)"
    using assms(3) by (simp_all add: match_codec_laws_def limit64k_def decodeMatchBody_query)
  have "handleMatch w s (post_request path (render_json w (match_query_json ask bid))) =
      ReplyMatches (store_Match s ask bid)"
    by (simp add: handleMatch_def post_request_def body dec)
  then have "CommitMatchHandler w s (post_request path (render_json w (match_query_json ask bid))) =
      (s, ReplyMatches (store_Match s ask bid))"
    using assms(1) by (auto simp: CommitMatchHandler_def has_prefix_def post_request_def)
  then show ?thesis
    by (intro queryMatch_of_reply) (simp_all add: assms serve_def)
qed

text \<open>the endpoint \<open>/smart\<close> without a trailing slash never matches. The handler takes the
  path itself for the encoded query, so it answers \<open>false\<close> to every request, also to a POST
  whose body names the stored commitments, and a gate whose match URL is served there
  stays closed for every pair.\<close>

theorem smart_endpoint_never_matches:
  assumes "parse_json w ''smart'' = None" and "url_ok w u" and "match_codec_laws w ask bid"
    and "\<And>body. http_post w u body = serve w s ''/smart'' body"
  shows "queryMatch w u ask bid = Inr False"
proof -
  have enc: "trim_slashes (trim_prefix ''/smart'' ''/smart/'') = ''smart''"
    "decodeB64Query ''smart'' = ''smart''" by code_simp+
  have "decodeMatchBody w ''smart'' = ([], [])"
    using assms(1) by (simp add: decodeMatchBody_def unmarshal_def)
  then have "CommitMatchHandler w s (post_request ''/smart'' b) = (s, ReplyMatches False)" for b
    by (simp add: CommitMatchHandler_def handleSmart_def post_request_def has_prefix_def enc
        store_Match_def)
  then show ?thesis
    by (intro queryMatch_of_reply) (simp_all add: assms serve_def)
qed

text \<open>A world whose codec reads the store's messages, for the two witnesses above.\<close>

definition codec_world :: "(bytes \<Rightarrow> http_res) \<Rightarrow> world" where
  "codec_world post = toy_world\<lparr>
     render_json := (\<lambda>j. if j = match_query_json ''a'' ''b'' then ''query''
        else if j = JObj [(''matches'', JBool True)] then ''yes'' else ''no''),
     parse_json := (\<lambda>s. if s = ''query'' then Some (match_query_json ''a'' ''b'')
        else if s = ''yes'' @ [char_of (10::nat)] then Some (JObj [(''matches'', JBool True)])
        else if s = ''no'' @ [char_of (10::nat)] then Some (JObj [(''matches'', JBool False)])
        else None),
     http_post := (\<lambda>_. post)\<rparr>"

lemma codec_world_laws: "match_codec_laws (codec_world post) ''a'' ''b''"
  by (simp add: match_codec_laws_def codec_world_def reply_text_def match_query_json_def)

text \<open>The handler reads only the codec of the world.\<close>

lemma unmarshal_post [simp]: "unmarshal (w\<lparr>http_post := f\<rparr>) g z raw = unmarshal w g z raw"
  by (simp add: unmarshal_def)

lemma decodeMatchBody_post [simp]: "decodeMatchBody (w\<lparr>http_post := f\<rparr>) raw = decodeMatchBody w raw"
  by (simp add: decodeMatchBody_def)

lemma handleMatch_post: "handleMatch (w\<lparr>http_post := f\<rparr>) s r = handleMatch w s r"
  unfolding handleMatch_def decodeMatchBody_post ..

lemma handleSmart_post: "handleSmart (w\<lparr>http_post := f\<rparr>) s r = handleSmart w s r"
  unfolding handleSmart_def handleMatch_post decodeMatchBody_post ..

lemma handleExecute_post: "handleExecute (w\<lparr>http_post := f\<rparr>) s r = handleExecute w s r"
  unfolding handleExecute_def unmarshal_post ..

lemmas handlers_post = handleMatch_post handleSmart_post handleExecute_post

lemma handler_post: "CommitMatchHandler (w\<lparr>http_post := f\<rparr>) s r = CommitMatchHandler w s r"
  unfolding CommitMatchHandler_def handlers_post ..

lemma reply_text_post: "reply_text (w\<lparr>http_post := f\<rparr>) j = reply_text w j"
  by (simp add: reply_text_def)

lemma serve_post: "serve (w\<lparr>http_post := f\<rparr>) s path body = serve w s path body"
  unfolding serve_def handler_post reply_text_post ..

lemma codec_world_served:
  "http_post (codec_world (serve (codec_world (\<lambda>_. HttpErr)) s path)) u body =
   serve (codec_world (serve (codec_world (\<lambda>_. HttpErr)) s path)) s path body"
proof -
  have "codec_world f = (codec_world g)\<lparr>http_post := \<lambda>_. f\<rparr>" for f g by (simp add: codec_world_def)
  then have eq: "serve (codec_world f) s path body = serve (codec_world (\<lambda>_. HttpErr)) s path body" for f
    by (metis serve_post)
  show ?thesis by (rule trans[OF _ eq[symmetric]]) (simp add: codec_world_def)
qed

theorem match_client_server_witness:
  "queryMatch (codec_world (serve (codec_world (\<lambda>_. HttpErr)) (NewCommitStore ''a'' ''b'') ''/match'')) ''u'' ''a'' ''b''
     = Inr (store_Match (NewCommitStore ''a'' ''b'') ''a'' ''b'')"
  by (rule match_client_server[OF _ _ codec_world_laws codec_world_served])
    (simp_all add: codec_world_def toy_world_def)

theorem smart_endpoint_never_matches_witness:
  "store_Match (NewCommitStore ''a'' ''b'') ''a'' ''b'' \<and>
   queryMatch (codec_world (serve (codec_world (\<lambda>_. HttpErr)) (NewCommitStore ''a'' ''b'') ''/smart'')) ''u'' ''a'' ''b''
     = Inr False"
proof
  show "store_Match (NewCommitStore ''a'' ''b'') ''a'' ''b''"
    by (simp add: store_Match_def NewCommitStore_def)
  show "queryMatch (codec_world (serve (codec_world (\<lambda>_. HttpErr)) (NewCommitStore ''a'' ''b'') ''/smart'')) ''u'' ''a'' ''b''
     = Inr False"
    by (rule smart_endpoint_never_matches[OF _ _ codec_world_laws codec_world_served])
      (simp_all add: codec_world_def toy_world_def)
qed

end
