(* ===== verification/LeaseBook.thy ===== *)
theory LeaseBook
  imports Gate "HOL-Library.AList"
begin

text \<open>
  Access to leases of the private market (package \<open>gateway/pir\<close>): the lease book
  (\<open>lease.go\<close>), the derived bearer tokens and the admission check (\<open>access.go\<close>), and the
  container server of a lease (\<open>serve.go\<close>). The package variables and the book file are the
  record \<open>lease_state\<close>; each operation holds the package's mutex for its whole body, so an
  operation is one function on that state. The JSON text codec of the book, the outcome of
  the file operations and the docker daemon are parameters.
\<close>

section \<open>The book\<close>

record lease_rec =
  Bearer :: string
  Session :: string
  Open :: bool
  Container :: string
  HostPort :: int
  Name :: string

type_synonym book = "(string \<times> lease_rec) list"

record lease_state =
  st_book :: "book option"
  st_disk :: "bytes option"

text \<open>
  \<open>decode_book\<close> is \<open>json.Unmarshal\<close> into the nil map: \<open>None\<close> is its error, \<open>Some None\<close> the
  document \<open>null\<close>, which leaves the map nil. \<open>mkdir_parent\<close> holds when the directory of the
  path is there or can be made; \<open>write_fail\<close> is what a failing \<open>os.WriteFile\<close> leaves behind.
\<close>

record book_io =
  encode_book :: "book option \<Rightarrow> bytes"
  decode_book :: "bytes \<Rightarrow> book option option"
  mkdir_parent :: "string \<Rightarrow> bool"
  write_fail :: "bytes option option"

datatype lease_error =
    ErrNotExist | ErrMkdir | ErrWrite | PanicNilMap
  | ErrAllocateDenied | ErrDockerRun string | ErrNotServing string

definition zero_rec :: lease_rec where
  "zero_rec = \<lparr>Bearer = [], Session = [], Open = False, Container = [], HostPort = 0, Name = []\<rparr>"

definition stringsLower :: "string \<Rightarrow> string" where
  "stringsLower s = map (\<lambda>c. let n = of_char c :: nat in
     if 65 \<le> n \<and> n \<le> 90 then char_of (n + (97 - 65)) else c) s"

definition leasePath :: "world \<Rightarrow> string" where
  "leasePath w = getenv w ''PIR_LEASE_BOOK_FILE''"

definition loadBook :: "world \<Rightarrow> book_io \<Rightarrow> lease_state \<Rightarrow> lease_state \<times> book option" where
  "loadBook w io st =
     (if leasePath w = [] then
        (let b = (case st_book st of None \<Rightarrow> [] | Some b \<Rightarrow> b) in (st\<lparr>st_book := Some b\<rparr>, Some b))
      else (case st_disk st of
              None \<Rightarrow> (st, Some [])
            | Some raw \<Rightarrow>
                if raw = [] then (st, Some [])
                else (case decode_book io raw of None \<Rightarrow> (st, Some []) | Some m \<Rightarrow> (st, m))))"

definition saveBook :: "world \<Rightarrow> book_io \<Rightarrow> lease_state \<Rightarrow> book option \<Rightarrow> lease_state \<times> (lease_error + unit)" where
  "saveBook w io st m =
     (let p = leasePath w; st1 = st\<lparr>st_book := m\<rparr> in
      if p = [] then (st1, Inr ())
      else if \<not> mkdir_parent io p then (st1, Inl ErrMkdir)
      else (case write_fail io of
              None \<Rightarrow> (st1\<lparr>st_disk := Some (encode_book io m)\<rparr>, Inr ())
            | Some d \<Rightarrow> (st1\<lparr>st_disk := d\<rparr>, Inl ErrWrite)))"

definition book_get :: "book option \<Rightarrow> string \<Rightarrow> lease_rec option" where
  "book_get m k = (case m of None \<Rightarrow> None | Some b \<Rightarrow> map_of b k)"

text \<open>\<open>m[k] = r; saveBook(m)\<close>: assigning into a nil map panics.\<close>

definition put_and_save ::
    "world \<Rightarrow> book_io \<Rightarrow> lease_state \<Rightarrow> book option \<Rightarrow> string \<Rightarrow> lease_rec \<Rightarrow> lease_state \<times> (lease_error + unit)" where
  "put_and_save w io st m k r =
     (case m of
        None \<Rightarrow> (st, Inl PanicNilMap)
      | Some b \<Rightarrow> saveBook w io st (Some (AList.update k r b)))"

definition AcceptBid ::
    "world \<Rightarrow> book_io \<Rightarrow> lease_state \<Rightarrow> string \<Rightarrow> string \<Rightarrow> lease_state \<times> (lease_error + unit)" where
  "AcceptBid w io st leaseID bearer =
     (case loadBook w io st of
        (st1, m) \<Rightarrow> put_and_save w io st1 m leaseID
          (zero_rec\<lparr>Bearer := stringsLower bearer, Open := True\<rparr>))"

definition OpenSession ::
    "world \<Rightarrow> book_io \<Rightarrow> lease_state \<Rightarrow> string \<Rightarrow> string \<Rightarrow> lease_state \<times> (lease_error + unit)" where
  "OpenSession w io st leaseID sessionBearer =
     (case loadBook w io st of
        (st1, m) \<Rightarrow>
          (case book_get m leaseID of
             None \<Rightarrow> (st1, Inl ErrNotExist)
           | Some rec \<Rightarrow>
               if \<not> Open rec then (st1, Inl ErrNotExist)
               else put_and_save w io st1 m leaseID (rec\<lparr>Session := stringsLower sessionBearer\<rparr>)))"

definition CloseLease :: "world \<Rightarrow> book_io \<Rightarrow> lease_state \<Rightarrow> string \<Rightarrow> lease_state \<times> (lease_error + unit)" where
  "CloseLease w io st leaseID =
     (case loadBook w io st of
        (st1, m) \<Rightarrow>
          (case book_get m leaseID of
             None \<Rightarrow> saveBook w io st1 m
           | Some rec \<Rightarrow> put_and_save w io st1 m leaseID (rec\<lparr>Open := False, Session := []\<rparr>)))"

definition AccessLease :: "world \<Rightarrow> book_io \<Rightarrow> lease_state \<Rightarrow> string \<Rightarrow> string \<Rightarrow> string" where
  "AccessLease w io st leaseID bearer =
     (case loadBook w io st of
        (st1, m) \<Rightarrow>
          (case book_get m leaseID of
             None \<Rightarrow> ''unknown''
           | Some rec \<Rightarrow>
               if \<not> Open rec then ''closed''
               else let b = stringsLower bearer in
                 if Bearer rec = b \<or> (Session rec \<noteq> [] \<and> Session rec = b) then ''ok''
                 else ''unauthorized''))"

definition rec_bearers :: "lease_rec \<Rightarrow> string list" where
  "rec_bearers rec =
     (if Open rec \<and> length (Bearer rec) = 64 then [Bearer rec] else []) @
     (if Open rec \<and> length (Session rec) = 64 then [Session rec] else [])"

definition openBearers :: "world \<Rightarrow> book_io \<Rightarrow> lease_state \<Rightarrow> string list" where
  "openBearers w io st =
     (case loadBook w io st of
        (st1, m) \<Rightarrow> (case m of None \<Rightarrow> [] | Some b \<Rightarrow> concat (map (\<lambda>(k, rec). rec_bearers rec) b)))"

section \<open>Derived tokens\<close>

definition tagBearer :: string where
  "tagBearer = ''pir-access-bearer-v1''"

definition tagSecret :: string where
  "tagSecret = ''pir-access-v1''"

definition tagSession :: string where
  "tagSession = ''pir-access-session-v1''"

definition tagSessionBearer :: string where
  "tagSessionBearer = ''pir-access-session-bearer-v1''"

definition SecretFromSession :: "(bytes \<Rightarrow> bytes) \<Rightarrow> string \<Rightarrow> bytes \<Rightarrow> bytes \<Rightarrow> bytes" where
  "SecretFromSession sha askID sessionKey bidCommitment =
     taggedHash sha tagSecret [sessionKey, bidCommitment, askID]"

definition BearerHex :: "(bytes \<Rightarrow> bytes) \<Rightarrow> bytes \<Rightarrow> string" where
  "BearerHex sha secret = hex_encode (taggedHash sha tagBearer [secret])"

definition SessionBearerHex :: "(bytes \<Rightarrow> bytes) \<Rightarrow> string \<Rightarrow> bytes \<Rightarrow> bytes \<Rightarrow> bytes \<Rightarrow> string" where
  "SessionBearerHex sha askID oobKey note nonce =
     (let secret = taggedHash sha tagSession [oobKey, note, askID, nonce]
      in hex_encode (taggedHash sha tagSessionBearer [secret]))"

section \<open>Admission\<close>

definition loadEnvOrFile :: "world \<Rightarrow> string list" where
  "loadEnvOrFile w =
     (let raw0 = getenv w ''PIR_ACCESS_BEARERS'';
          p = getenv w ''PIR_ACCESS_BEARERS_FILE'';
          raw = (if p \<noteq> [] then (case read_file w p of Some b \<Rightarrow> b | None \<Rightarrow> raw0) else raw0);
          toks = fields_func (\<lambda>c. c = CHR '','' \<or> c = char_of (10::nat) \<or> c = CHR '' '') raw
      in filter (\<lambda>t. length t = 64) (map (\<lambda>t. trim_space (to_lower t)) toks))"

definition ResetAllowed :: "world \<Rightarrow> lease_state \<Rightarrow> lease_state" where
  "ResetAllowed w st = (if leasePath w = [] then st\<lparr>st_book := Some []\<rparr> else st)"

definition hexTok :: "string \<Rightarrow> string \<times> bool" where
  "hexTok tok =
     (let t = to_lower (trim_space tok) in
      if length t \<noteq> 64 then ([], False)
      else if list_all is_hex_char t then (t, True)
      else ([], False))"

definition AcceptBearer :: "world \<Rightarrow> book_io \<Rightarrow> lease_state \<Rightarrow> string \<Rightarrow> bool" where
  "AcceptBearer w io st tok =
     (case hexTok tok of
        (t, ok) \<Rightarrow>
          if \<not> ok then False
          else if t \<in> set (openBearers w io st) then True
          else t \<in> set (loadEnvOrFile w))"

section \<open>Serving a lease\<close>

definition defaultServeImage :: string where
  "defaultServeImage = ''python:3.12-alpine''"

definition name_char :: "char \<Rightarrow> char" where
  "name_char c = (let n = of_char c :: nat in
     if (97 \<le> n \<and> n \<le> 122) \<or> (65 \<le> n \<and> n \<le> 90) \<or> (48 \<le> n \<and> n \<le> 57) \<or> c = CHR ''-''
     then c else CHR ''-'')"

definition leaseContainerName :: "string \<Rightarrow> string" where
  "leaseContainerName leaseID = ''pir-lease-'' @ map name_char leaseID"

text \<open>
  One attempt of \<open>waitLeaseServing\<close>: the outcome of the \<open>docker exec\<close> probe and of the GET on
  the published port. The attempts made before the deadline are a list.
\<close>

record poll =
  exec_ok :: bool
  exec_out :: bytes
  host_get :: http_res

datatype wait_error = NoAttempt | ExecFailed string | HostStatus nat | HostErr

type_synonym docker_cmd = "string list"

definition probe_script :: string where
  "probe_script = ''import urllib.request; r=urllib.request.urlopen('' @ [char_of (39::nat)] @
     ''http://127.0.0.1:8080/'' @ [char_of (39::nat)] @
     '', timeout=2); raise SystemExit(0 if r.status==200 else r.status)''"

fun wait_loop :: "string \<Rightarrow> bool \<Rightarrow> wait_error \<Rightarrow> poll list \<Rightarrow> docker_cmd list \<times> (wait_error + unit)" where
  "wait_loop name hasPort lst [] = ([], Inl lst)"
| "wait_loop name hasPort lst (p # ps) =
     (let cmd = [''exec'', name, ''python'', ''-c'', probe_script] in
      if exec_ok p then ([cmd], Inr ())
      else
        let next = (\<lambda>e. case wait_loop name hasPort e ps of (cs, r) \<Rightarrow> (cmd # cs, r)) in
        if \<not> hasPort then next (ExecFailed (trim_space (exec_out p)))
        else (case host_get p of
                HttpErr \<Rightarrow> next HostErr
              | HttpResp code _ \<Rightarrow> if code = 200 then ([cmd], Inr ()) else next (HostStatus code)))"

definition waitLeaseServing :: "poll list \<Rightarrow> string \<Rightarrow> int \<Rightarrow> docker_cmd list \<times> (lease_error + unit)" where
  "waitLeaseServing polls name hostPort =
     (case wait_loop name (0 < hostPort) NoAttempt polls of
        (cs, Inr u) \<Rightarrow> (cs, Inr ())
      | (cs, Inl e) \<Rightarrow> (cs, Inl (ErrNotServing name)))"

definition run_args :: "string \<Rightarrow> string \<Rightarrow> string \<Rightarrow> int \<Rightarrow> docker_cmd" where
  "run_args name leaseID img hostPort =
     [''run'', ''-d'', ''--name'', name, ''-p'', itoa (nat hostPort) @ '':8080'',
      ''--label'', ''pir.lease='' @ leaseID, ''--label'', ''pir.role=re-zerve-serve'',
      img, ''python'', ''-m'', ''http.server'', ''8080'']"

definition served_rec :: "lease_rec \<Rightarrow> string \<Rightarrow> string \<Rightarrow> int \<Rightarrow> string \<Rightarrow> lease_rec" where
  "served_rec rec bearer cid hostPort name =
     rec\<lparr>Bearer := stringsLower bearer, Open := True, Container := cid, HostPort := hostPort, Name := name\<rparr>"

definition serve_image :: "world \<Rightarrow> string \<Rightarrow> string" where
  "serve_image w img0 =
     (let img1 = (if img0 = [] then getenv w ''PIR_SERVE_IMAGE'' else img0)
      in if img1 = [] then defaultServeImage else img1)"

text \<open>
  \<open>docker_run\<close> answers the \<open>docker run\<close> command with its success and its combined output.
  The result carries the docker commands issued, in order.
\<close>

definition ServeLease ::
    "world \<Rightarrow> book_io \<Rightarrow> (docker_cmd \<Rightarrow> bool \<times> bytes) \<Rightarrow> poll list \<Rightarrow> lease_state \<Rightarrow>
     string \<Rightarrow> string \<Rightarrow> string \<Rightarrow> int \<Rightarrow> lease_state \<times> docker_cmd list \<times> (lease_error + string \<times> int)" where
  "ServeLease w io docker_run polls st leaseID bearer img0 hostPort0 =
     (if \<not> PirAllocationAllowed w then (st, [], Inl ErrAllocateDenied)
      else
        (case AcceptBid w io st leaseID bearer of
           (st1, Inl e) \<Rightarrow> (st1, [], Inl e)
         | (st1, Inr u) \<Rightarrow>
            (let img = serve_image w img0;
                 hostPort = (if hostPort0 \<le> 0 then 18765 else hostPort0);
                 name = leaseContainerName leaseID;
                 rm = [''rm'', ''-f'', name];
                 args = run_args name leaseID img hostPort
             in case docker_run args of
                  (ok, out) \<Rightarrow>
                    let cid = trim_space out in
                    if \<not> ok then (st1, [rm, args], Inl (ErrDockerRun cid))
                    else
                      (case loadBook w io st1 of
                         (st2, m) \<Rightarrow>
                           let rec = (case book_get m leaseID of None \<Rightarrow> zero_rec | Some r \<Rightarrow> r) in
                           (case m of
                              None \<Rightarrow> (st2, [rm, args], Inl PanicNilMap)
                            | Some b \<Rightarrow>
                               let st3 = fst (put_and_save w io st2 m leaseID (served_rec rec bearer cid hostPort name)) in
                               (case waitLeaseServing polls name hostPort of
                                  (cs, Inl e) \<Rightarrow> (st3, [rm, args] @ cs @ [rm], Inl e)
                                | (cs, Inr u) \<Rightarrow> (st3, [rm, args] @ cs, Inr (cid, hostPort))))))))"

definition StopServe ::
    "world \<Rightarrow> book_io \<Rightarrow> lease_state \<Rightarrow> string \<Rightarrow> lease_state \<times> docker_cmd list \<times> (lease_error + unit)" where
  "StopServe w io st leaseID =
     (case loadBook w io st of
        (st1, m) \<Rightarrow>
          let name = (case book_get m leaseID of
                        Some rec \<Rightarrow> if Name rec \<noteq> [] then Name rec else leaseContainerName leaseID
                      | None \<Rightarrow> leaseContainerName leaseID)
          in (case CloseLease w io st1 leaseID of (st2, r) \<Rightarrow> (st2, [[''rm'', ''-f'', name]], r)))"

text \<open>\<open>docker_inspect\<close> answers \<open>docker inspect\<close> with its output, or \<open>None\<close> on an error.\<close>

definition ContainerRunning :: "(docker_cmd \<Rightarrow> bytes option) \<Rightarrow> string \<Rightarrow> bool" where
  "ContainerRunning docker_inspect leaseID =
     (case docker_inspect [''inspect'', ''-f'', ''{{.State.Running}}'', leaseContainerName leaseID] of
        None \<Rightarrow> False
      | Some st \<Rightarrow> trim_space st = ''true'')"

section \<open>Lemmas\<close>

lemma stringsLower_eq: "stringsLower s = to_lower s"
  by (simp add: stringsLower_def to_lower_def to_lower_char_def Let_def)

lemma stringsLower_idem [simp]: "stringsLower (stringsLower s) = stringsLower s"
  by (simp add: stringsLower_eq)

text \<open>What the code relies on of the JSON codec: a map written to the file is read back.\<close>

definition book_codec_law :: "book_io \<Rightarrow> book option \<Rightarrow> bool" where
  "book_codec_law io m \<longleftrightarrow> encode_book io m \<noteq> [] \<and>
     (\<forall>b. m = Some b \<and> distinct (map fst b) \<longrightarrow>
        (\<exists>b'. decode_book io (encode_book io m) = Some (Some b') \<and>
          map_of b' = map_of b \<and> distinct (map fst b')))"

text \<open>The book as the next operation will see it.\<close>

definition book_of :: "world \<Rightarrow> book_io \<Rightarrow> lease_state \<Rightarrow> book option" where
  "book_of w io st = snd (loadBook w io st)"

definition book_ok :: "world \<Rightarrow> book_io \<Rightarrow> lease_state \<Rightarrow> bool" where
  "book_ok w io st = (case book_of w io st of None \<Rightarrow> True | Some b \<Rightarrow> distinct (map fst b))"

definition lease_at :: "world \<Rightarrow> book_io \<Rightarrow> lease_state \<Rightarrow> string \<Rightarrow> lease_rec option" where
  "lease_at w io st = book_get (book_of w io st)"

lemma book_get_Some [simp]: "book_get (Some b) = map_of b"
  by (simp add: book_get_def fun_eq_iff)

lemma loadBook_idem: "loadBook w io (fst (loadBook w io st)) = loadBook w io st"
  by (auto simp: loadBook_def Let_def split: option.splits)

lemma saveBook_ok:
  assumes "saveBook w io st (Some b) = (st', Inr u)" and "distinct (map fst b)"
    and "book_codec_law io (st_book st')"
  shows "lease_at w io st' = map_of b \<and> book_ok w io st'"
proof (cases "leasePath w = []")
  case True
  then show ?thesis
    using assms by (auto simp: saveBook_def Let_def lease_at_def book_ok_def book_of_def loadBook_def)
next
  case False
  then have st': "st_disk st' = Some (encode_book io (Some b))"
    and "st_book st' = Some b"
    using assms(1) by (auto simp: saveBook_def Let_def split: if_splits option.splits)
  with assms(2,3) obtain b' where "encode_book io (Some b) \<noteq> []"
    "decode_book io (encode_book io (Some b)) = Some (Some b')" "map_of b' = map_of b" "distinct (map fst b')"
    by (auto simp: book_codec_law_def)
  with False st' show ?thesis
    by (simp add: lease_at_def book_ok_def book_of_def loadBook_def)
qed

lemma put_and_save_ok:
  assumes "put_and_save w io st m k r = (st', Inr u)"
    and "case m of None \<Rightarrow> True | Some b \<Rightarrow> distinct (map fst b)" and "book_codec_law io (st_book st')"
  shows "lease_at w io st' = (book_get m)(k \<mapsto> r) \<and> book_ok w io st'"
  using assms
  by (auto simp: put_and_save_def update_conv' distinct_update split: option.splits
      dest!: saveBook_ok[OF _ _ assms(3)])

lemma access_of_lease:
  "AccessLease w io st k t =
     (case lease_at w io st k of
        None \<Rightarrow> ''unknown''
      | Some r \<Rightarrow> if \<not> Open r then ''closed''
                  else if Bearer r = stringsLower t \<or> (Session r \<noteq> [] \<and> Session r = stringsLower t) then ''ok''
                  else ''unauthorized'')"
  by (simp add: AccessLease_def lease_at_def book_of_def Let_def split: prod.splits option.splits)

lemma book_ok_case:
  "book_ok w io st \<Longrightarrow> loadBook w io st = (st1, m) \<Longrightarrow>
   case m of None \<Rightarrow> True | Some b \<Rightarrow> distinct (map fst b)"
  by (simp add: book_ok_def book_of_def)

text \<open>What each operation does to the leases it leaves behind.\<close>

lemma AcceptBid_lease:
  assumes "AcceptBid w io st k t = (st', Inr u)" and "book_ok w io st" and "book_codec_law io (st_book st')"
  shows "lease_at w io st' = (lease_at w io st)(k \<mapsto> zero_rec\<lparr>Bearer := stringsLower t, Open := True\<rparr>) \<and>
    book_ok w io st'"
proof -
  obtain st1 m where l: "loadBook w io st = (st1, m)" by fastforce
  have "put_and_save w io st1 m k (zero_rec\<lparr>Bearer := stringsLower t, Open := True\<rparr>) = (st', Inr u)"
    using assms(1) l by (simp add: AcceptBid_def)
  from put_and_save_ok[OF this book_ok_case[OF assms(2) l] assms(3)] show ?thesis
    by (simp add: lease_at_def book_of_def l)
qed

lemma OpenSession_lease:
  assumes "OpenSession w io st k t = (st', Inr u)" and "book_ok w io st" and "book_codec_law io (st_book st')"
  shows "\<exists>r. lease_at w io st k = Some r \<and> Open r \<and> book_ok w io st' \<and>
    lease_at w io st' = (lease_at w io st)(k \<mapsto> r\<lparr>Session := stringsLower t\<rparr>)"
proof -
  obtain st1 m where l: "loadBook w io st = (st1, m)" by fastforce
  from assms(1) l obtain r where r: "book_get m k = Some r" "Open r"
    and "put_and_save w io st1 m k (r\<lparr>Session := stringsLower t\<rparr>) = (st', Inr u)"
    by (auto simp: OpenSession_def split: option.splits if_splits)
  from put_and_save_ok[OF this(3) book_ok_case[OF assms(2) l] assms(3)] r show ?thesis
    by (simp add: lease_at_def book_of_def l)
qed

lemma CloseLease_lease:
  assumes "CloseLease w io st k = (st', Inr u)" and "book_ok w io st" and "book_codec_law io (st_book st')"
    and "book_of w io st \<noteq> None"
  shows "book_ok w io st' \<and> lease_at w io st' =
    (case lease_at w io st k of
       None \<Rightarrow> lease_at w io st
     | Some r \<Rightarrow> (lease_at w io st)(k \<mapsto> r\<lparr>Open := False, Session := []\<rparr>))"
proof -
  obtain st1 b where l: "loadBook w io st = (st1, Some b)" and d: "distinct (map fst b)"
    using assms(2,4) by (cases "loadBook w io st") (auto simp: book_of_def book_ok_def)
  have at: "lease_at w io st = map_of b" by (simp add: lease_at_def book_of_def l)
  show ?thesis
  proof (cases "map_of b k")
    case None
    then have "saveBook w io st1 (Some b) = (st', Inr u)"
      using assms(1) l by (simp add: CloseLease_def)
    from saveBook_ok[OF this d assms(3)] show ?thesis using None at by simp
  next
    case (Some r)
    then have "put_and_save w io st1 (Some b) k (r\<lparr>Open := False, Session := []\<rparr>) = (st', Inr u)"
      using assms(1) l by (simp add: CloseLease_def)
    from put_and_save_ok[OF this _ assms(3)] d show ?thesis using Some at by simp
  qed
qed


lemma openBearers_iff:
  assumes "book_ok w io st"
  shows "t \<in> set (openBearers w io st) \<longleftrightarrow>
    (\<exists>k r. lease_at w io st k = Some r \<and> Open r \<and> length t = 64 \<and> (Bearer r = t \<or> Session r = t))"
proof -
  obtain st1 m where l: "loadBook w io st = (st1, m)" by fastforce
  show ?thesis
  proof (cases m)
    case None
    then show ?thesis by (simp add: openBearers_def lease_at_def book_of_def l book_get_def)
  next
    case (Some b)
    then have d: "distinct (map fst b)" using book_ok_case[OF assms l] by simp
    have "t \<in> set (openBearers w io st) \<longleftrightarrow> (\<exists>k r. (k, r) \<in> set b \<and> t \<in> set (rec_bearers r))"
      by (auto simp: openBearers_def l Some)
    also have "\<dots> \<longleftrightarrow> (\<exists>k r. map_of b k = Some r \<and> t \<in> set (rec_bearers r))"
      using d by (simp add: map_of_eq_Some_iff)
    also have "\<dots> \<longleftrightarrow> (\<exists>k r. lease_at w io st k = Some r \<and> Open r \<and> length t = 64 \<and> (Bearer r = t \<or> Session r = t))"
      by (auto simp: lease_at_def book_of_def l Some rec_bearers_def)
    finally show ?thesis .
  qed
qed

lemma hexTok_spec:
  "hexTok tok = (t, True) \<longleftrightarrow> t = to_lower (trim_space tok) \<and> length t = 64 \<and> list_all is_hex_char t"
  by (auto simp: hexTok_def Let_def)

text \<open>No tag is a prefix of another, so hashes under different tags have different inputs.\<close>

lemma tags_separate:
  "tagged_preimage tagBearer [s] \<noteq> tagged_preimage tagSessionBearer ps"
  by (simp add: tagged_preimage_def tagBearer_def tagSessionBearer_def)

lemma wait_loop_fails:
  "\<forall>p \<in> set ps. \<not> exec_ok p \<and> host_get p = HttpErr \<Longrightarrow>
   \<exists>cs e'. wait_loop name hp e ps = (cs, Inl e')"
proof (induction ps arbitrary: e)
  case (Cons p ps)
  have ih: "\<exists>cs e'. wait_loop name hp f ps = (cs, Inl e')" for f using Cons by simp
  from ih[of HostErr] obtain cs1 e1 where 1: "wait_loop name hp HostErr ps = (cs1, Inl e1)" by auto
  from ih[of "ExecFailed (trim_space (exec_out p))"] obtain cs2 e2 where
    2: "wait_loop name hp (ExecFailed (trim_space (exec_out p))) ps = (cs2, Inl e2)" by auto
  show ?case using Cons.prems 1 2 by (cases hp) (simp_all add: Let_def)
qed simp

section \<open>Properties\<close>

text \<open>
  For the witnesses: an environment with a book file, a codec that knows one book, and the
  states of a lease called \<open>l\<close>.
\<close>

definition file_world :: world where
  "file_world = toy_world\<lparr>getenv := (\<lambda>v. if v = ''PIR_LEASE_BOOK_FILE'' then ''book'' else [])\<rparr>"

definition one_io :: "book \<Rightarrow> book_io" where
  "one_io b = \<lparr>encode_book = (\<lambda>m. if m = Some b then ''b'' else ''other''),
     decode_book = (\<lambda>s. if s = ''b'' then Some (Some b) else if s = ''old'' then Some (Some [(''l'', zero_rec\<lparr>Bearer := ''aa'', Open := True\<rparr>)]) else None),
     mkdir_parent = (\<lambda>_. True), write_fail = None\<rparr>"

definition lease_st :: "book option \<Rightarrow> bytes \<Rightarrow> lease_state" where
  "lease_st b d = \<lparr>st_book = b, st_disk = Some d\<rparr>"

lemmas one_io_simps = one_io_def file_world_def leasePath_def lease_st_def loadBook_def saveBook_def
  put_and_save_def book_ok_def book_of_def book_codec_law_def

text \<open>accepting a bid opens the lease for its bearer and for nobody else. When
  \<open>AcceptBid\<close> succeeds, the lease admits a token exactly when it equals the bearer up to
  ASCII letter case (a session of an earlier lease of that name no longer admits), and every
  other lease answers as before.\<close>

theorem accept_opens_lease:
  assumes "AcceptBid w io st k t = (st', Inr u)" and "book_ok w io st" and "book_codec_law io (st_book st')"
  shows "AccessLease w io st' k t' = (if to_lower t' = to_lower t then ''ok'' else ''unauthorized'') \<and>
    (k' \<noteq> k \<longrightarrow> AccessLease w io st' k' t' = AccessLease w io st k' t')"
  using AcceptBid_lease[OF assms]
  by (auto simp: access_of_lease zero_rec_def stringsLower_eq)

theorem accept_opens_lease_witness:
  "let b = [(''l'', zero_rec\<lparr>Bearer := ''ab'', Open := True\<rparr>)]; st' = lease_st (Some b) ''b'' in
     AccessLease file_world (one_io b) st' ''l'' ''AB'' = (if to_lower ''AB'' = to_lower ''Ab'' then ''ok'' else ''unauthorized'') \<and>
     (''m'' \<noteq> ''l'' \<longrightarrow> AccessLease file_world (one_io b) st' ''m'' ''AB'' =
        AccessLease file_world (one_io b) (lease_st None ''old'') ''m'' ''AB'')"
  unfolding Let_def
proof (rule accept_opens_lease)
  have "stringsLower ''Ab'' = ''ab''" by code_simp
  then show "AcceptBid file_world (one_io [(''l'', zero_rec\<lparr>Bearer := ''ab'', Open := True\<rparr>)]) (lease_st None ''old'') ''l'' ''Ab'' =
    (lease_st (Some [(''l'', zero_rec\<lparr>Bearer := ''ab'', Open := True\<rparr>)]) ''b'', Inr ())"
    by (simp add: AcceptBid_def one_io_simps)
qed (simp_all add: one_io_simps)

text \<open>closing a lease is final for its tokens. After a successful \<open>CloseLease\<close> the lease
  admits no token at all, neither the lease bearer nor a session bearer, a session can no
  longer be opened on it, and every other lease answers as before.\<close>

theorem close_denies_access:
  assumes "CloseLease w io st k = (st', Inr u)" and "book_ok w io st" and "book_codec_law io (st_book st')"
    and "book_of w io st \<noteq> None"
  shows "AccessLease w io st' k t = (if lease_at w io st k = None then ''unknown'' else ''closed'') \<and>
    snd (OpenSession w io st' k t) = Inl ErrNotExist \<and>
    (k' \<noteq> k \<longrightarrow> AccessLease w io st' k' t = AccessLease w io st k' t)"
proof (intro conjI impI)
  note at = CloseLease_lease[OF assms]
  show "AccessLease w io st' k t = (if lease_at w io st k = None then ''unknown'' else ''closed'')"
    using at by (auto simp: access_of_lease split: option.splits)
  have "\<forall>r. lease_at w io st' k = Some r \<longrightarrow> \<not> Open r" using at by (auto split: option.splits)
  then show "snd (OpenSession w io st' k t) = Inl ErrNotExist"
    by (auto simp: OpenSession_def lease_at_def book_of_def split: prod.splits option.splits)
  show "AccessLease w io st' k' t = AccessLease w io st k' t" if "k' \<noteq> k"
    using at that by (auto simp: access_of_lease split: option.splits)
qed

theorem close_denies_access_witness:
  "let b = [(''l'', zero_rec\<lparr>Bearer := ''aa''\<rparr>)]; st = lease_st None ''old''; st' = lease_st (Some b) ''b'' in
     AccessLease file_world (one_io b) st' ''l'' ''aa'' =
       (if lease_at file_world (one_io b) st ''l'' = None then ''unknown'' else ''closed'') \<and>
     snd (OpenSession file_world (one_io b) st' ''l'' ''aa'') = Inl ErrNotExist \<and>
     (''m'' \<noteq> ''l'' \<longrightarrow> AccessLease file_world (one_io b) st' ''m'' ''aa'' = AccessLease file_world (one_io b) st ''m'' ''aa'')"
  unfolding Let_def
  by (rule close_denies_access[where u = "()"]) (simp_all add: CloseLease_def one_io_simps zero_rec_def)

text \<open>opening a session adds a credential and removes none. After a successful
  \<open>OpenSession\<close> on a lease with bearer \<open>b\<close>, a token is admitted exactly when it equals \<open>b\<close> or
  the non-empty session bearer; every other lease answers as before.\<close>

theorem session_adds_credential:
  assumes "OpenSession w io st k s = (st', Inr u)" and "book_ok w io st" and "book_codec_law io (st_book st')"
  shows "\<exists>r. lease_at w io st k = Some r \<and> Open r \<and>
    (AccessLease w io st' k t = ''ok'' \<longleftrightarrow> to_lower t = Bearer r \<or> (s \<noteq> [] \<and> to_lower t = to_lower s)) \<and>
    (k' \<noteq> k \<longrightarrow> AccessLease w io st' k' t = AccessLease w io st k' t)"
proof -
  from OpenSession_lease[OF assms] obtain r where
    "lease_at w io st k = Some r" "Open r"
    "lease_at w io st' = (lease_at w io st)(k \<mapsto> r\<lparr>Session := stringsLower s\<rparr>)" by auto
  then show ?thesis by (intro exI[of _ r]) (auto simp: access_of_lease stringsLower_eq)
qed

theorem session_adds_credential_witness:
  "let b = [(''l'', zero_rec\<lparr>Bearer := ''aa'', Open := True, Session := ''bb''\<rparr>)];
       st = lease_st None ''old''; st' = lease_st (Some b) ''b'' in
   \<exists>r. lease_at file_world (one_io b) st ''l'' = Some r \<and> Open r \<and>
     (AccessLease file_world (one_io b) st' ''l'' ''aa'' = ''ok'' \<longleftrightarrow>
        to_lower ''aa'' = Bearer r \<or> (''bb'' \<noteq> [] \<and> to_lower ''aa'' = to_lower ''bb'')) \<and>
     (''m'' \<noteq> ''l'' \<longrightarrow> AccessLease file_world (one_io b) st' ''m'' ''aa'' = AccessLease file_world (one_io b) st ''m'' ''aa'')"
  unfolding Let_def
proof (rule session_adds_credential)
  have "stringsLower ''bb'' = ''bb''" by code_simp
  then show "OpenSession file_world (one_io [(''l'', zero_rec\<lparr>Bearer := ''aa'', Open := True, Session := ''bb''\<rparr>)])
      (lease_st None ''old'') ''l'' ''bb'' =
    (lease_st (Some [(''l'', zero_rec\<lparr>Bearer := ''aa'', Open := True, Session := ''bb''\<rparr>)]) ''b'', Inr ())"
    by (simp add: OpenSession_def one_io_simps)
qed (simp_all add: one_io_simps)

text \<open>the gateway admits exactly the right tokens. \<open>AcceptBearer\<close> accepts a token iff,
  trimmed and lower-cased, it is 64 hexadecimal characters and is the bearer or session
  bearer of an open lease, or on the allow-list read from the environment or its file.\<close>

theorem accept_bearer_iff:
  assumes "book_ok w io st"
  shows "AcceptBearer w io st tok \<longleftrightarrow>
    (let t = to_lower (trim_space tok) in
       length t = 64 \<and> list_all is_hex_char t \<and>
       ((\<exists>k r. lease_at w io st k = Some r \<and> Open r \<and> (Bearer r = t \<or> Session r = t)) \<or>
        t \<in> set (loadEnvOrFile w)))"
proof (cases "hexTok tok")
  case (Pair t ok)
  show ?thesis
  proof (cases ok)
    case True
    then have t: "t = to_lower (trim_space tok)" "length t = 64" "list_all is_hex_char t"
      using Pair hexTok_spec by auto
    show ?thesis
      using Pair True t(2,3) openBearers_iff[OF assms, of t]
      unfolding AcceptBearer_def by (auto simp: Let_def t(1)[symmetric])
  next
    case False
    then have "\<not> (length (to_lower (trim_space tok)) = 64 \<and> list_all is_hex_char (to_lower (trim_space tok)))"
      using Pair hexTok_spec[of tok "to_lower (trim_space tok)"] by auto
    then show ?thesis using Pair False by (auto simp: AcceptBearer_def Let_def)
  qed
qed

theorem accept_bearer_iff_witness:
  "AcceptBearer file_world (one_io []) (lease_st None ''old'') ''aa'' \<longleftrightarrow>
    (let t = to_lower (trim_space ''aa'') in
       length t = 64 \<and> list_all is_hex_char t \<and>
       ((\<exists>k r. lease_at file_world (one_io []) (lease_st None ''old'') k = Some r \<and> Open r \<and> (Bearer r = t \<or> Session r = t)) \<or>
        t \<in> set (loadEnvOrFile file_world)))"
  by (rule accept_bearer_iff) (simp add: one_io_simps)

text \<open>C34: a lease bearer is bound to what it derives from. Two lease bearers that agree come
  from the same ask, session key and bid commitment, or the inputs hashed for the two
  secrets or for the two bearers are a SHA-256 collision.\<close>

theorem bearer_binding:
  assumes "BearerHex sha (SecretFromSession sha a1 k1 c1) = BearerHex sha (SecretFromSession sha a2 k2 c2)"
    and "\<forall>p \<in> set [k1, c1, a1]. length p < 2 ^ 64" and "\<forall>p \<in> set [k2, c2, a2]. length p < 2 ^ 64"
    and "\<forall>x. length (sha x) = 32"
  shows "(a1, k1, c1) = (a2, k2, c2) \<or>
    collides sha (tagged_preimage tagSecret [k1, c1, a1]) (tagged_preimage tagSecret [k2, c2, a2]) \<or>
    collides sha (tagged_preimage tagBearer [SecretFromSession sha a1 k1 c1])
      (tagged_preimage tagBearer [SecretFromSession sha a2 k2 c2])"
proof -
  let ?s1 = "SecretFromSession sha a1 k1 c1" and ?s2 = "SecretFromSession sha a2 k2 c2"
  have "taggedHash sha tagBearer [?s1] = taggedHash sha tagBearer [?s2]"
    using assms(1) unfolding BearerHex_def by (rule hex_encode_inj)
  moreover have "length ?s1 < 2 ^ 64" "length ?s2 < 2 ^ 64"
    by (simp_all add: SecretFromSession_def taggedHash_def assms(4))
  ultimately have "?s1 = ?s2 \<or> collides sha (tagged_preimage tagBearer [?s1]) (tagged_preimage tagBearer [?s2])"
    using taggedHash_parts[of sha tagBearer "[?s1]" "[?s2]"] by auto
  moreover have "(a1, k1, c1) = (a2, k2, c2) \<or>
      collides sha (tagged_preimage tagSecret [k1, c1, a1]) (tagged_preimage tagSecret [k2, c2, a2])"
    if "?s1 = ?s2"
    using taggedHash_parts[OF that[unfolded SecretFromSession_def] assms(2,3)] by auto
  ultimately show ?thesis by blast
qed

text \<open>Two hashes of 32 bytes: one that keeps the end of its input, under which the bearers of two asks differ, and a
  constant one, under which they agree and the two secrets are a collision.\<close>

definition tail_hash :: "bytes \<Rightarrow> bytes" where
  "tail_hash x = take 32 (rev x @ replicate 32 CHR ''0'')"

definition constant_hash :: "bytes \<Rightarrow> bytes" where
  "constant_hash x = replicate 32 CHR ''0''"

theorem bearer_binding_witness:
  "BearerHex tail_hash (SecretFromSession tail_hash ''a'' ''k'' ''c'') \<noteq> BearerHex tail_hash (SecretFromSession tail_hash ''b'' ''k'' ''c'') \<and>
   BearerHex constant_hash (SecretFromSession constant_hash ''a'' ''k'' ''c'') = BearerHex constant_hash (SecretFromSession constant_hash ''b'' ''k'' ''c'') \<and>
   collides constant_hash (tagged_preimage tagSecret [''k'', ''c'', ''a'']) (tagged_preimage tagSecret [''k'', ''c'', ''b''])"
proof -
  have len: "\<forall>x. length (tail_hash x) = 32" "\<forall>x. length (constant_hash x) = 32" by (simp_all add: tail_hash_def constant_hash_def min_def)
  have small: "\<forall>p \<in> set [''k'', ''c'', x]. length p < 2 ^ 64" if "x = ''a'' \<or> x = ''b''" for x using that by auto
  have no: "tail_hash (tagged_preimage tagSecret [''k'', ''c'', ''a'']) \<noteq> tail_hash (tagged_preimage tagSecret [''k'', ''c'', ''b''])"
    "tail_hash (tagged_preimage tagBearer [SecretFromSession tail_hash ''a'' ''k'' ''c'']) \<noteq>
     tail_hash (tagged_preimage tagBearer [SecretFromSession tail_hash ''b'' ''k'' ''c''])" by code_simp+
  have same: "BearerHex constant_hash x = BearerHex constant_hash y" "SecretFromSession constant_hash ''a'' ''k'' ''c'' = SecretFromSession constant_hash ''b'' ''k'' ''c''"
    for x y by (simp_all add: BearerHex_def SecretFromSession_def taggedHash_def constant_hash_def)
  have "BearerHex tail_hash (SecretFromSession tail_hash ''a'' ''k'' ''c'') \<noteq> BearerHex tail_hash (SecretFromSession tail_hash ''b'' ''k'' ''c'')"
    using bearer_binding[OF _ small small len(1), of "''a''" "''b''"] no by (auto simp: collides_def)
  moreover have "collides constant_hash (tagged_preimage tagSecret [''k'', ''c'', ''a'']) (tagged_preimage tagSecret [''k'', ''c'', ''b''])"
    using bearer_binding[OF same(1) small small len(2), of "''a''" "''b''"] same(2) by (auto simp: collides_def)
  ultimately show ?thesis using same(1) by blast
qed

text \<open>session bearers and lease bearers are kept apart by their tags. A session bearer
  that equals the lease bearer of a secret exhibits a SHA-256 collision between inputs
  under the two tags.\<close>

theorem session_bearer_separate:
  assumes "BearerHex sha s = SessionBearerHex sha a k n nonce"
  shows "collides sha (tagged_preimage tagBearer [s])
    (tagged_preimage tagSessionBearer [taggedHash sha tagSession [k, n, a, nonce]])"
proof -
  have "sha (tagged_preimage tagBearer [s]) =
      sha (tagged_preimage tagSessionBearer [taggedHash sha tagSession [k, n, a, nonce]])"
    using assms unfolding BearerHex_def SessionBearerHex_def Let_def taggedHash_def[of sha tagBearer]
      taggedHash_def[of sha tagSessionBearer] by (rule hex_encode_inj)
  then show ?thesis using tags_separate by (simp add: collides_def)
qed

theorem session_bearer_separate_witness:
  "collides (\<lambda>_. []) (tagged_preimage tagBearer [''s''])
    (tagged_preimage tagSessionBearer [taggedHash (\<lambda>_. []) tagSession [''k'', ''n'', ''a'', ''x'']])"
  by (rule session_bearer_separate)
    (simp add: BearerHex_def SessionBearerHex_def taggedHash_def Let_def)


lemma ServeLease_cases:
  assumes "ServeLease w io docker polls st k t img port0 = (st', cmds, r)"
    and "AcceptBid w io st k t = (st1, Inr u)" and "docker (run_args (leaseContainerName k) k (serve_image w img)
      (if port0 \<le> 0 then 18765 else port0)) = (True, out)"
    and "PirAllocationAllowed w"
    and "book_ok w io st" and "book_codec_law io (st_book st1)" and "book_codec_law io (st_book st')"
  shows "lease_at w io st' = (lease_at w io st)(k \<mapsto> served_rec zero_rec t (trim_space out)
      (if port0 \<le> 0 then 18765 else port0) (leaseContainerName k)) \<and> book_ok w io st'"
proof -
  let ?port = "if port0 \<le> 0 then 18765 else port0" and ?name = "leaseContainerName k"
  let ?acc = "zero_rec\<lparr>Bearer := stringsLower t, Open := True\<rparr>"
  note at1 = AcceptBid_lease[OF assms(2,5,6)]
  obtain st2 m where l: "loadBook w io st1 = (st2, m)" by fastforce
  with at1 have g: "book_get m k = Some ?acc" by (auto simp: lease_at_def book_of_def)
  then obtain b where m: "m = Some b" by (auto simp: book_get_def split: option.splits)
  let ?put = "put_and_save w io st2 m k (served_rec ?acc t (trim_space out) ?port ?name)"
  have st': "st' = fst ?put"
    using assms(1-4) l g
    by (auto simp: ServeLease_def Let_def m split: prod.splits sum.splits)
  have "snd ?put = Inr ()"
    using assms(2) by (auto simp: m put_and_save_def AcceptBid_def saveBook_def Let_def
        split: prod.splits option.splits if_splits)
  then have put: "?put = (st', Inr ())" using st' by (metis prod.collapse)
  have same: "served_rec ?acc t c p n = served_rec zero_rec t c p n" for c p n by (simp add: served_rec_def)
  from put_and_save_ok[OF put _ assms(7)] book_ok_case[OF conjunct2[OF at1] l] at1 same l show ?thesis
    by (auto simp: lease_at_def book_of_def)
qed

lemma ServeLease_success_inv:
  assumes "ServeLease w io docker polls st k t img port0 = (st', cmds, Inr (cid, port))"
  obtains st1 u out cs where "PirAllocationAllowed w" and "AcceptBid w io st k t = (st1, Inr u)"
    and "port = (if port0 \<le> 0 then 18765 else port0)" and "cid = trim_space out"
    and "docker (run_args (leaseContainerName k) k (serve_image w img) port) = (True, out)"
    and "cmds = [''rm'', ''-f'', leaseContainerName k]
           # run_args (leaseContainerName k) k (serve_image w img) port # cs"
  using assms
  by (auto simp: ServeLease_def Let_def split: if_splits prod.splits sum.splits option.splits)

text \<open>A codec that knows two books, for the witnesses about serving.\<close>

definition two_io :: "book \<Rightarrow> book \<Rightarrow> book_io" where
  "two_io b1 b2 = \<lparr>encode_book = (\<lambda>m. if m = Some b1 then ''1'' else ''2''),
     decode_book = (\<lambda>s. if s = ''1'' then Some (Some b1) else if s = ''2'' then Some (Some b2) else None),
     mkdir_parent = (\<lambda>_. True), write_fail = None\<rparr>"

text \<open>The lease \<open>a-b\<close> that is served in the witnesses, and the container it gets.\<close>

definition acc_ab :: lease_rec where
  "acc_ab = zero_rec\<lparr>Bearer := ''t'', Open := True\<rparr>"

definition srv_ab :: lease_rec where
  "srv_ab = served_rec zero_rec ''t'' ''c1'' 18765 ''pir-lease-a-b''"

lemma ab_names:
  "leaseContainerName ''a-b'' = ''pir-lease-a-b''" "leaseContainerName ''a_b'' = ''pir-lease-a-b''"
  "stringsLower ''t'' = ''t''" "trim_space ''c1'' = ''c1''" "trim_space [] = []"
  by code_simp+

lemmas two_io_simps = two_io_def file_world_def leasePath_def lease_st_def loadBook_def saveBook_def
  put_and_save_def book_ok_def book_of_def book_codec_law_def AcceptBid_def ab_names acc_ab_def
  srv_ab_def served_rec_def zero_rec_def Let_def

text \<open>a lease that is served is gated, recorded and accessible. When \<open>ServeLease\<close> returns a
  container and a port, the allocation gate had allowed it, the port is positive, the only
  lease changed is the one served, it records the container, the port and its name and admits
  exactly the bearer it was served for, and the docker commands begin by removing a stale
  container of that name and starting the new one.\<close>

theorem serve_success:
  assumes "ServeLease w io docker polls st k t img port0 = (st', cmds, Inr (cid, port))"
    and "book_ok w io st" and "book_codec_law io (st_book (fst (AcceptBid w io st k t)))"
    and "book_codec_law io (st_book st')"
  shows "PirAllocationAllowed w \<and> 0 < port \<and>
    lease_at w io st' = (lease_at w io st)(k \<mapsto> served_rec zero_rec t cid port (leaseContainerName k)) \<and>
    (AccessLease w io st' k t' = ''ok'' \<longleftrightarrow> to_lower t' = to_lower t) \<and>
    take 2 cmds = [[''rm'', ''-f'', leaseContainerName k],
                   run_args (leaseContainerName k) k (serve_image w img) port]"
proof -
  from ServeLease_success_inv[OF assms(1)] obtain st1 u out cs where
    g: "PirAllocationAllowed w" and a: "AcceptBid w io st k t = (st1, Inr u)"
    and p: "port = (if port0 \<le> 0 then 18765 else port0)" and c: "cid = trim_space out"
    and d: "docker (run_args (leaseContainerName k) k (serve_image w img) port) = (True, out)"
    and cmds: "cmds = [''rm'', ''-f'', leaseContainerName k]
           # run_args (leaseContainerName k) k (serve_image w img) port # cs" by blast
  have at: "lease_at w io st' = (lease_at w io st)(k \<mapsto> served_rec zero_rec t cid port (leaseContainerName k))"
    using ServeLease_cases[OF assms(1) a d[unfolded p] g assms(2) _ assms(4)] assms(3) a c p by simp
  moreover have "AccessLease w io st' k t' = ''ok'' \<longleftrightarrow> to_lower t' = to_lower t"
    using at by (auto simp: access_of_lease served_rec_def zero_rec_def stringsLower_eq)
  ultimately show ?thesis using g p cmds by simp
qed

theorem serve_success_witness:
  "let io = two_io [(''a-b'', acc_ab)] [(''a-b'', srv_ab)]; st' = lease_st (Some [(''a-b'', srv_ab)]) ''2'';
       port = 18765 in
    PirAllocationAllowed file_world \<and> 0 < port \<and>
    lease_at file_world io st' = (lease_at file_world io (lease_st None []))(''a-b'' \<mapsto>
      served_rec zero_rec ''t'' ''c1'' port (leaseContainerName ''a-b'')) \<and>
    (AccessLease file_world io st' ''a-b'' ''x'' = ''ok'' \<longleftrightarrow> to_lower ''x'' = to_lower ''t'') \<and>
    take 2 [[''rm'', ''-f'', ''pir-lease-a-b''],
            run_args ''pir-lease-a-b'' ''a-b'' ''img'' port,
            [''exec'', ''pir-lease-a-b'', ''python'', ''-c'', probe_script]]
      = [[''rm'', ''-f'', leaseContainerName ''a-b''],
         run_args (leaseContainerName ''a-b'') ''a-b'' (serve_image file_world ''img'') port]"
  unfolding Let_def
proof (rule serve_success)
  show "ServeLease file_world (two_io [(''a-b'', acc_ab)] [(''a-b'', srv_ab)]) (\<lambda>_. (True, ''c1''))
      [\<lparr>exec_ok = True, exec_out = [], host_get = HttpErr\<rparr>] (lease_st None []) ''a-b'' ''t'' ''img'' 0 =
    (lease_st (Some [(''a-b'', srv_ab)]) ''2'',
     [[''rm'', ''-f'', ''pir-lease-a-b''], run_args ''pir-lease-a-b'' ''a-b'' ''img'' 18765,
      [''exec'', ''pir-lease-a-b'', ''python'', ''-c'', probe_script]], Inr (''c1'', 18765))"
    by (simp add: ServeLease_def two_io_simps PirAllocationAllowed_def pirMode_def serve_image_def
        waitLeaseServing_def)
qed (simp_all add: two_io_simps)

text \<open>a lease that never answers stays open. When the gate allows, the bid is accepted and
  docker starts the container, but no probe before the deadline succeeds, \<open>ServeLease\<close> fails
  and removes the container as its last command; the lease it opened is not closed again,
  so the bearer is still admitted to it.\<close>

theorem serve_failure_keeps_lease_open:
  assumes "ServeLease w io docker polls st k t img port0 = (st', cmds, r)"
    and "AcceptBid w io st k t = (st1, Inr u)" and "docker (run_args (leaseContainerName k) k (serve_image w img)
      (if port0 \<le> 0 then 18765 else port0)) = (True, out)"
    and "PirAllocationAllowed w"
    and "\<forall>p \<in> set polls. \<not> exec_ok p \<and> host_get p = HttpErr"
    and "book_ok w io st" and "book_codec_law io (st_book st1)" and "book_codec_law io (st_book st')"
  shows "r = Inl (ErrNotServing (leaseContainerName k)) \<and> last cmds = [''rm'', ''-f'', leaseContainerName k] \<and>
    AccessLease w io st' k t = ''ok''"
proof (intro conjI)
  let ?port = "if port0 \<le> 0 then 18765 else port0"
  from wait_loop_fails[OF assms(5), of "leaseContainerName k" "0 < ?port" NoAttempt] obtain cs where
    wt: "waitLeaseServing polls (leaseContainerName k) ?port = (cs, Inl (ErrNotServing (leaseContainerName k)))"
    unfolding waitLeaseServing_def by auto
  have "book_of w io st1 \<noteq> None"
    using AcceptBid_lease[OF assms(2,6,7)]
    by (auto simp: lease_at_def book_get_def fun_eq_iff split: option.splits if_splits)
  then have l: "\<exists>st2 b. loadBook w io st1 = (st2, Some b)"
    by (cases "loadBook w io st1") (auto simp: book_of_def)
  then show "r = Inl (ErrNotServing (leaseContainerName k))"
    using assms(1-4) wt by (auto simp: ServeLease_def Let_def)
  from l show "last cmds = [''rm'', ''-f'', leaseContainerName k]"
    using assms(1-4) wt by (auto simp: ServeLease_def Let_def)
  show "AccessLease w io st' k t = ''ok''"
    using ServeLease_cases[OF assms(1-4,6-8)] by (simp add: access_of_lease served_rec_def)
qed

theorem serve_failure_keeps_lease_open_witness:
  "let io = two_io [(''a-b'', acc_ab)] [(''a-b'', srv_ab)]; st' = lease_st (Some [(''a-b'', srv_ab)]) ''2'' in
   (Inl (ErrNotServing ''pir-lease-a-b'') :: lease_error + string \<times> int) = Inl (ErrNotServing (leaseContainerName ''a-b'')) \<and>
   last [[''rm'', ''-f'', ''pir-lease-a-b''], run_args ''pir-lease-a-b'' ''a-b'' ''img'' 18765,
      [''rm'', ''-f'', ''pir-lease-a-b'']] = [''rm'', ''-f'', leaseContainerName ''a-b''] \<and>
   AccessLease file_world io st' ''a-b'' ''t'' = ''ok''"
  unfolding Let_def
  by (rule serve_failure_keeps_lease_open[where polls = "[]" and docker = "\<lambda>_. (True, ''c1'')" and img = "''img''"
      and ?port0.0 = 0 and out = "''c1''" and u = "()" and st = "lease_st None []"
      and ?st1.0 = "lease_st (Some [(''a-b'', acc_ab)]) ''1''"])
    (simp_all add: ServeLease_def two_io_simps PirAllocationAllowed_def pirMode_def serve_image_def waitLeaseServing_def)

text \<open>container names are not unique to a lease. Every character outside letters, digits and
  the dash becomes a dash, so serving a lease first removes the running container of any other
  lease whose name maps to the same string, and leaves that other lease open in the book.\<close>

theorem serve_removes_colliding_container:
  assumes "ServeLease w io docker polls st k t img port0 = (st', cmds, Inr (cid, port))"
    and "book_ok w io st" and "book_codec_law io (st_book (fst (AcceptBid w io st k t)))"
    and "book_codec_law io (st_book st')"
    and "leaseContainerName k' = leaseContainerName k" and "k' \<noteq> k"
    and "lease_at w io st k' = Some r'" and "Name r' = leaseContainerName k'"
  shows "hd cmds = [''rm'', ''-f'', Name r'] \<and> lease_at w io st' k' = Some r'"
proof -
  from ServeLease_success_inv[OF assms(1)] obtain st1 u out cs where
    g: "PirAllocationAllowed w" and a: "AcceptBid w io st k t = (st1, Inr u)"
    and p: "port = (if port0 \<le> 0 then 18765 else port0)" and "cid = trim_space out"
    and d: "docker (run_args (leaseContainerName k) k (serve_image w img) port) = (True, out)"
    and cmds: "cmds = [''rm'', ''-f'', leaseContainerName k]
           # run_args (leaseContainerName k) k (serve_image w img) port # cs" by blast
  have law: "book_codec_law io (st_book st1)" using assms(3) a by simp
  have "lease_at w io st' k' = lease_at w io st k'"
    unfolding conjunct1[OF ServeLease_cases[OF assms(1) a d[unfolded p] g assms(2) law assms(4)]]
    using assms(6) by simp
  moreover have "hd cmds = [''rm'', ''-f'', leaseContainerName k]" by (simp add: cmds)
  ultimately show ?thesis by (simp only: assms(5,7,8))
qed

theorem serve_removes_colliding_container_witness:
  "let io = two_io [(''a-b'', srv_ab), (''a_b'', acc_ab)] [(''a-b'', srv_ab), (''a_b'', srv_ab)];
       io' = io\<lparr>decode_book := (decode_book io)(''0'' := Some (Some [(''a-b'', srv_ab)]))\<rparr>;
       st' = lease_st (Some [(''a-b'', srv_ab), (''a_b'', srv_ab)]) ''2'' in
   hd [[''rm'', ''-f'', ''pir-lease-a-b''], run_args ''pir-lease-a-b'' ''a_b'' ''img'' 18765,
      [''exec'', ''pir-lease-a-b'', ''python'', ''-c'', probe_script]] = [''rm'', ''-f'', Name srv_ab] \<and>
   lease_at file_world io' st' ''a-b'' = Some srv_ab"
  unfolding Let_def
proof (rule serve_removes_colliding_container[where cid = "''c1''" and port = 18765])
  let ?io = "two_io [(''a-b'', srv_ab), (''a_b'', acc_ab)] [(''a-b'', srv_ab), (''a_b'', srv_ab)]"
  let ?io' = "?io\<lparr>decode_book := (decode_book ?io)(''0'' := Some (Some [(''a-b'', srv_ab)]))\<rparr>"
  show "ServeLease file_world ?io' (\<lambda>_. (True, ''c1''))
      [\<lparr>exec_ok = True, exec_out = [], host_get = HttpErr\<rparr>] (lease_st None ''0'') ''a_b'' ''t'' ''img'' 0 =
    (lease_st (Some [(''a-b'', srv_ab), (''a_b'', srv_ab)]) ''2'',
     [[''rm'', ''-f'', ''pir-lease-a-b''], run_args ''pir-lease-a-b'' ''a_b'' ''img'' 18765,
      [''exec'', ''pir-lease-a-b'', ''python'', ''-c'', probe_script]], Inr (''c1'', 18765))"
    by (simp add: ServeLease_def two_io_simps PirAllocationAllowed_def pirMode_def serve_image_def
        waitLeaseServing_def)
qed (simp_all add: two_io_simps lease_at_def)

end
