(* ===== verification/Resources.thy ===== *)
theory Resources
  imports Prelude
begin

text \<open>
  Resource requests, node inventories and their attributes: the types the inventory of the
  provider works on (\<open>cluster/types/v1beta3/types.go\<close>,
  \<open>pkg/apis/akash.network/v2beta2/manifest.go\<close>), the attribute parsers
  (\<open>cluster/types/v1beta3/clients/inventory/metrics.go\<close>) and the interconnect helpers
  (\<open>cluster/kube/operators/clients/inventory/interconnect.go\<close>). Kubernetes quantities are
  integers in nano-units, the finest resolution a quantity has; requested amounts are natural
  numbers. What the chain SDK and the Kubernetes libraries compute on these types is the
  record \<open>sdk\<close>, an argument of the definitions that call it.
\<close>

section \<open>Types of the SDK and of Kubernetes\<close>

record attribute =
  attr_Key :: string
  attr_Value :: string

type_synonym attributes = "attribute list"

text \<open>A pair's three quantities are pointers, nil for a resource a node does not have.\<close>

record resource_pair =
  Capacity :: "int option"
  Allocatable :: "int option"
  Allocated :: "int option"

record cpu_info =
  cpu_ID :: string
  cpu_Vendor :: string
  cpu_Model :: string
  Vcores :: nat
  Arch :: string

record gpu_info =
  Vendor :: string
  VendorID :: string
  gpu_Name :: string
  ModelID :: string
  MemorySize :: string
  Interface :: string

record node_capabilities =
  StorageClasses :: "string list"
  InterconnectFabric :: string
  InterconnectResourceName :: string
  NCCLHCAPrefixes :: "string list"

record node =
  node_Name :: string
  CPU_Quantity :: resource_pair
  CPU_Info :: "cpu_info list"
  Memory_Quantity :: resource_pair
  GPU_Quantity :: resource_pair
  GPU_Info :: "gpu_info list"
  EphemeralStorage :: resource_pair
  VolumesAttached :: resource_pair
  VolumesMounted :: resource_pair
  GPUInterconnect :: resource_pair
  Capabilities :: node_capabilities

record storage_class =
  sc_Class :: string
  sc_Quantity :: resource_pair

record cluster =
  Nodes :: "node list"
  Storage :: "storage_class list"

record cpu_req =
  cpu_Units :: nat
  cpu_Attributes :: attributes

record gpu_req =
  gpu_Units :: nat
  gpu_Attributes :: attributes

record storage_req =
  sr_Quantity :: nat
  sr_Attributes :: attributes

datatype endpoint_kind = Endpoint_SHARED_HTTP | Endpoint_RANDOM_PORT | Endpoint_LEASED_IP

record endpoint =
  ep_Kind :: endpoint_kind
  SequenceNumber :: u32

text \<open>\<open>CPU\<close>, \<open>Memory\<close> and \<open>GPU\<close> of a resource are pointers.\<close>

record resources =
  res_ID :: u32
  res_CPU :: "cpu_req option"
  res_Memory :: "nat option"
  res_GPU :: "gpu_req option"
  res_Storage :: "storage_req list"
  res_Endpoints :: "endpoint list"

record resource_unit =
  ru_Resources :: resources
  ru_Count :: nat

text \<open>The concrete types behind the \<open>ResourceGroup\<close> interface: name, placement attributes, units.\<close>

datatype resource_group =
    GroupPtr string attributes "resource_unit list"
  | GroupVal string attributes "resource_unit list"
  | GroupSpecPtr string attributes "resource_unit list"
  | GroupSpecVal string attributes "resource_unit list"
  | OtherGroup string "resource_unit list"

fun GetName :: "resource_group \<Rightarrow> string" where
  "GetName (GroupPtr n _ _) = n"
| "GetName (GroupVal n _ _) = n"
| "GetName (GroupSpecPtr n _ _) = n"
| "GetName (GroupSpecVal n _ _) = n"
| "GetName (OtherGroup n _) = n"

fun GetResourceUnits :: "resource_group \<Rightarrow> resource_unit list" where
  "GetResourceUnits (GroupPtr _ _ us) = us"
| "GetResourceUnits (GroupVal _ _ us) = us"
| "GetResourceUnits (GroupSpecPtr _ _ us) = us"
| "GetResourceUnits (GroupSpecVal _ _ us) = us"
| "GetResourceUnits (OtherGroup _ us) = us"

text \<open>
  \<open>sub_nlz\<close> and \<open>sub_milli_nlz\<close> are \<open>ResourcePair.SubNLZ\<close> and \<open>SubMilliNLZ\<close> (\<open>None\<close> when they
  answer false), \<open>available\<close> is \<open>ResourcePair.Available\<close>, \<open>quantity_value\<close> and
  \<open>quantity_milli\<close> are \<open>Quantity.Value\<close> and \<open>MilliValue\<close>, \<open>gpu_ram\<close> is
  \<open>MemoryQuantityFromString\<close> followed by \<open>StringWithSuffix "Gi"\<close>, \<open>attr_persistent\<close> and
  \<open>attr_class\<close> read the two storage attributes (false and empty when absent).
\<close>

record sdk =
  sub_nlz :: "resource_pair \<Rightarrow> nat \<Rightarrow> resource_pair option"
  sub_milli_nlz :: "resource_pair \<Rightarrow> nat \<Rightarrow> resource_pair option"
  available :: "resource_pair \<Rightarrow> int"
  quantity_value :: "int \<Rightarrow> int"
  quantity_milli :: "int \<Rightarrow> int"
  storage_class_supported :: "node \<Rightarrow> string \<Rightarrow> bool"
  gpu_ram :: "string \<Rightarrow> string option"
  attr_persistent :: "attributes \<Rightarrow> bool"
  attr_class :: "attributes \<Rightarrow> string"
  valid_label :: "string \<Rightarrow> bool"

section \<open>Confidential compute types\<close>

type_synonym tee_type = string
type_synonym tee_platform = string
type_synonym runtime_class = string

definition TEETypeNone :: tee_type where "TEETypeNone = []"
definition TEETypeCPU :: tee_type where "TEETypeCPU = ''cpu''"
definition TEETypeCPUGPU :: tee_type where "TEETypeCPUGPU = ''cpu-gpu''"

definition ParseTEEType :: "string \<Rightarrow> string + tee_type" where
  "ParseTEEType s =
     (if s = TEETypeNone \<or> s = TEETypeCPU \<or> s = TEETypeCPUGPU then Inr s
      else Inl (''unknown TEE type: '' @ s))"

definition IsCC :: "tee_type \<Rightarrow> bool" where
  "IsCC t = (t \<noteq> TEETypeNone)"

definition IsGPU :: "tee_type \<Rightarrow> bool" where
  "IsGPU t = (t = TEETypeCPUGPU)"

definition RuntimeClassKataQemuSNP :: runtime_class where
  "RuntimeClassKataQemuSNP = ''kata-qemu-snp''"
definition RuntimeClassKataQemuNvidiaGPUSNP :: runtime_class where
  "RuntimeClassKataQemuNvidiaGPUSNP = ''kata-qemu-nvidia-gpu-snp''"
definition RuntimeClassKataQemuTDX :: runtime_class where
  "RuntimeClassKataQemuTDX = ''kata-qemu-tdx''"
definition RuntimeClassKataQemuNvidiaGPUTDX :: runtime_class where
  "RuntimeClassKataQemuNvidiaGPUTDX = ''kata-qemu-nvidia-gpu-tdx''"

record runtime_class_filter =
  rcf_cc :: bool
  rcf_gpu :: bool
  rcf_snp :: bool
  rcf_tdx :: bool

definition runtimeClassAttrs :: "(runtime_class \<times> runtime_class_filter) list" where
  "runtimeClassAttrs =
     [(RuntimeClassKataQemuSNP, \<lparr>rcf_cc = True, rcf_gpu = False, rcf_snp = True, rcf_tdx = False\<rparr>),
      (RuntimeClassKataQemuNvidiaGPUSNP, \<lparr>rcf_cc = True, rcf_gpu = True, rcf_snp = True, rcf_tdx = False\<rparr>),
      (RuntimeClassKataQemuTDX, \<lparr>rcf_cc = True, rcf_gpu = False, rcf_snp = False, rcf_tdx = True\<rparr>),
      (RuntimeClassKataQemuNvidiaGPUTDX, \<lparr>rcf_cc = True, rcf_gpu = True, rcf_snp = False, rcf_tdx = True\<rparr>)]"

datatype runtime_class_option = WithCC | WithGPU | WithSNP | WithTDX

fun opt_filter :: "runtime_class_option \<Rightarrow> runtime_class_filter" where
  "opt_filter WithCC = \<lparr>rcf_cc = True, rcf_gpu = False, rcf_snp = False, rcf_tdx = False\<rparr>"
| "opt_filter WithGPU = \<lparr>rcf_cc = False, rcf_gpu = True, rcf_snp = False, rcf_tdx = False\<rparr>"
| "opt_filter WithSNP = \<lparr>rcf_cc = False, rcf_gpu = False, rcf_snp = True, rcf_tdx = False\<rparr>"
| "opt_filter WithTDX = \<lparr>rcf_cc = False, rcf_gpu = False, rcf_snp = False, rcf_tdx = True\<rparr>"

definition RuntimeClass_Is :: "runtime_class \<Rightarrow> runtime_class_option list \<Rightarrow> bool" where
  "RuntimeClass_Is rc opts =
     (case map_of runtimeClassAttrs rc of
        None \<Rightarrow> False
      | Some a \<Rightarrow> list_all (\<lambda>opt. let r = opt_filter opt in
          \<not> (rcf_cc r \<and> \<not> rcf_cc a) \<and> \<not> (rcf_gpu r \<and> \<not> rcf_gpu a) \<and>
          \<not> (rcf_snp r \<and> \<not> rcf_snp a) \<and> \<not> (rcf_tdx r \<and> \<not> rcf_tdx a)) opts)"

definition RuntimeClassForTEEType :: "tee_type \<Rightarrow> tee_platform \<Rightarrow> runtime_class" where
  "RuntimeClassForTEEType teeType teePlatform =
     (let isGPU = (teeType = ''cpu-gpu'') in
      if teePlatform = ''tdx'' then
        (if isGPU then RuntimeClassKataQemuNvidiaGPUTDX else RuntimeClassKataQemuTDX)
      else if teePlatform = ''snp'' then
        (if isGPU then RuntimeClassKataQemuNvidiaGPUSNP else RuntimeClassKataQemuSNP)
      else [])"

definition FilterGPUInterface :: "string \<Rightarrow> string" where
  "FilterGPUInterface v = (let v = to_lower v in if has_prefix v ''sxm'' then ''sxm'' else v)"

definition SidecarCPULimitMillicores :: nat where
  "SidecarCPULimitMillicores = 100"

definition SidecarMemoryLimitBytes :: nat where
  "SidecarMemoryLimitBytes = 64 * (1024 * 1024)"

definition SidecarGPUMemoryLimitBytes :: nat where
  "SidecarGPUMemoryLimitBytes = 128 * (1024 * 1024)"

record inventory_options =
  DryRun :: bool
  opt_TEEType :: tee_type
  opt_TEEPlatform :: tee_platform

datatype inventory_option = WithDryRun | WithTEEType tee_type | WithTEEPlatform tee_platform

fun apply_option :: "inventory_option \<Rightarrow> inventory_options \<Rightarrow> inventory_options" where
  "apply_option WithDryRun o1 = o1\<lparr>DryRun := True\<rparr>"
| "apply_option (WithTEEType t) o1 = o1\<lparr>opt_TEEType := t\<rparr>"
| "apply_option (WithTEEPlatform p) o1 = o1\<lparr>opt_TEEPlatform := p\<rparr>"

definition options_of :: "inventory_option list \<Rightarrow> inventory_options" where
  "options_of opts = fold apply_option opts \<lparr>DryRun = False, opt_TEEType = [], opt_TEEPlatform = []\<rparr>"

section \<open>Scheduler parameters\<close>

record scheduler_gpu =
  sg_Vendor :: string
  sg_Model :: string
  sg_MemorySize :: string
  sg_Interface :: string

record scheduler_interconnect =
  si_Enabled :: bool
  si_Units :: nat
  si_ResourceName :: string
  si_Fabric :: string
  si_NCCLHCAPrefixes :: "string list"

record scheduler_resources =
  sr_GPU :: "scheduler_gpu option"
  sr_Interconnect :: "scheduler_interconnect option"

record scheduler_params =
  RuntimeClass :: runtime_class
  sp_Resources :: "scheduler_resources option"
  AttestationDisabled :: bool
  sp_TEEType :: string

definition zero_sparams :: scheduler_params where
  "zero_sparams = \<lparr>RuntimeClass = [], sp_Resources = None, AttestationDisabled = False, sp_TEEType = []\<rparr>"

definition sParamsEnsureResources :: "scheduler_params \<Rightarrow> scheduler_params" where
  "sParamsEnsureResources sp =
     (case sp_Resources sp of
        None \<Rightarrow> sp\<lparr>sp_Resources := Some \<lparr>sr_GPU = None, sr_Interconnect = None\<rparr>\<rparr>
      | Some r \<Rightarrow> sp)"

definition sParamsEnsureGPU :: "scheduler_params \<Rightarrow> scheduler_params" where
  "sParamsEnsureGPU sp0 =
     (let sp = sParamsEnsureResources sp0 in
      sp\<lparr>sp_Resources := map_option (\<lambda>r. case sr_GPU r of
          None \<Rightarrow> r\<lparr>sr_GPU := Some \<lparr>sg_Vendor = [], sg_Model = [], sg_MemorySize = [], sg_Interface = []\<rparr>\<rparr>
        | Some g \<Rightarrow> r) (sp_Resources sp)\<rparr>)"

definition sparams_set_gpu :: "scheduler_params \<Rightarrow> string \<Rightarrow> string \<Rightarrow> scheduler_params" where
  "sparams_set_gpu sp v m =
     sp\<lparr>sp_Resources := map_option (\<lambda>r. r\<lparr>sr_GPU := map_option (\<lambda>g. g\<lparr>sg_Vendor := v, sg_Model := m\<rparr>) (sr_GPU r)\<rparr>)
        (sp_Resources sp)\<rparr>"

definition sparams_set_interconnect :: "scheduler_params \<Rightarrow> scheduler_interconnect \<Rightarrow> scheduler_params" where
  "sparams_set_interconnect sp i =
     sp\<lparr>sp_Resources := map_option (\<lambda>r. r\<lparr>sr_Interconnect := Some i\<rparr>) (sp_Resources sp)\<rparr>"

section \<open>Attribute parsers\<close>

datatype attr_error =
    InvalidGPUAttribute | UnexpectedGPUType string | BadGPURam | UnsupportedGPUInterface string
  | UnsupportedGPUVendor string | UnsupportedCPUArch string | UnsupportedCPUAttribute string
  | NoStorageClass

record gpu_model_attributes =
  RAM :: string
  gma_Interface :: string

text \<open>Maps are association lists; an assignment conses, so the latest entry is found first.\<close>

type_synonym gpu_models = "(string \<times> gpu_model_attributes option) list"
type_synonym gpu_attributes = "(string \<times> gpu_models) list"

definition ExistsOrWildcard :: "gpu_models \<Rightarrow> string \<Rightarrow> gpu_model_attributes option option" where
  "ExistsOrWildcard m model =
     (case map_of m model of Some a \<Rightarrow> Some a | None \<Rightarrow> map_of m ''*'')"

fun parse_gpu_tokens :: "sdk \<Rightarrow> gpu_model_attributes \<Rightarrow> string list \<Rightarrow> attr_error + gpu_model_attributes" where
  "parse_gpu_tokens K a (key # val # rest) =
     (if key = ''ram'' then
        (case gpu_ram K val of
           None \<Rightarrow> Inl BadGPURam
         | Some r \<Rightarrow> parse_gpu_tokens K (a\<lparr>RAM := r\<rparr>) rest)
      else if key = ''interface'' then
        (if val = ''pcie'' \<or> val = ''sxm'' then parse_gpu_tokens K (a\<lparr>gma_Interface := val\<rparr>) rest
         else Inl (UnsupportedGPUInterface val))
      else parse_gpu_tokens K a rest)"
| "parse_gpu_tokens K a _ = Inr a"

fun parse_gpu_loop :: "sdk \<Rightarrow> attributes \<Rightarrow> gpu_models \<Rightarrow> gpu_models \<Rightarrow> attr_error + gpu_models \<times> gpu_models" where
  "parse_gpu_loop K [] nvidia amd = Inr (nvidia, amd)"
| "parse_gpu_loop K (attr # attrs) nvidia amd =
     (if attr_Key attr = ''interconnect/group'' then parse_gpu_loop K attrs nvidia amd
      else
        let tokens = split_on CHR ''/'' (attr_Key attr) in
        if length tokens < 4 \<or> length tokens mod 2 \<noteq> 0 then Inl InvalidGPUAttribute
        else if tokens ! 0 \<noteq> ''vendor'' then Inl (UnexpectedGPUType (tokens ! 0))
        else if tokens ! 2 \<noteq> ''model'' then Inl (UnexpectedGPUType (tokens ! 2))
        else
          (case (if 4 < length tokens
                 then (case parse_gpu_tokens K \<lparr>RAM = [], gma_Interface = []\<rparr> (drop 4 tokens) of
                         Inl e \<Rightarrow> Inl e | Inr a \<Rightarrow> Inr (Some a))
                 else Inr None) of
             Inl e \<Rightarrow> Inl e
           | Inr mattrs \<Rightarrow>
               let vendor = tokens ! 1; model = tokens ! 3 in
               if vendor = ''nvidia'' then parse_gpu_loop K attrs ((model, mattrs) # nvidia) amd
               else if vendor = ''amd'' then parse_gpu_loop K attrs nvidia ((model, mattrs) # amd)
               else Inl (UnsupportedGPUVendor vendor)))"

definition ParseGPUAttributes :: "sdk \<Rightarrow> attributes \<Rightarrow> attr_error + gpu_attributes" where
  "ParseGPUAttributes K attrs =
     (case parse_gpu_loop K attrs [] [] of
        Inl e \<Rightarrow> Inl e
      | Inr (nvidia, amd) \<Rightarrow>
          Inr ((if nvidia \<noteq> [] then [(''nvidia'', nvidia)] else []) @
               (if amd \<noteq> [] then [(''amd'', amd)] else [])))"

fun parse_cpu_loop :: "string \<Rightarrow> attributes \<Rightarrow> attr_error + string" where
  "parse_cpu_loop arch [] = Inr arch"
| "parse_cpu_loop arch (attr # attrs) =
     (if attr_Key attr = ''arch'' then
        (if attr_Value attr = ''amd64'' \<or> attr_Value attr = ''arm64'' then parse_cpu_loop (attr_Value attr) attrs
         else Inl (UnsupportedCPUArch (attr_Value attr)))
      else Inl (UnsupportedCPUAttribute (attr_Key attr)))"

definition ParseCPUAttributes :: "attributes \<Rightarrow> attr_error + string" where
  "ParseCPUAttributes attrs = parse_cpu_loop [] attrs"

record storage_attributes =
  Persistent :: bool
  sa_Class :: string

definition ParseStorageAttributes :: "sdk \<Rightarrow> attributes \<Rightarrow> attr_error + storage_attributes" where
  "ParseStorageAttributes K attrs =
     (let persistent = attr_persistent K attrs; class = attr_class K attrs in
      if persistent \<and> (class = [] \<or> class = ''ram'') then Inl NoStorageClass
      else Inr \<lparr>Persistent = persistent, sa_Class = class\<rparr>)"

section \<open>Interconnect helpers\<close>

definition AttributeGPUInterconnectGroupKey :: string where
  "AttributeGPUInterconnectGroupKey = ''interconnect/group''"

definition ResourceInterconnectGroup :: "resources \<Rightarrow> string \<times> bool" where
  "ResourceInterconnectGroup r =
     (case res_GPU r of
        None \<Rightarrow> ([], False)
      | Some g \<Rightarrow>
         (case find (\<lambda>a. attr_Key a = AttributeGPUInterconnectGroupKey) (gpu_Attributes g) of
            Some a \<Rightarrow> (attr_Value a, True)
          | None \<Rightarrow> ([], False)))"

definition ResourceRequiresInterconnect :: "resources \<Rightarrow> bool" where
  "ResourceRequiresInterconnect r = snd (ResourceInterconnectGroup r)"

definition interconnectCapsSuitable :: "node_capabilities \<Rightarrow> string \<Rightarrow> bool" where
  "interconnectCapsSuitable caps requiredFabric =
     (if InterconnectFabric caps = [] \<or> InterconnectResourceName caps = [] then False
      else requiredFabric = [] \<or> InterconnectFabric caps = requiredFabric)"

fun placementAttrs :: "resource_group \<Rightarrow> attributes" where
  "placementAttrs (GroupPtr _ as _) = as"
| "placementAttrs (GroupVal _ as _) = as"
| "placementAttrs (GroupSpecPtr _ as _) = as"
| "placementAttrs (GroupSpecVal _ as _) = as"
| "placementAttrs (OtherGroup _ _) = []"

definition AttributeInterconnectFabricInfiniBand :: string where
  "AttributeInterconnectFabricInfiniBand = ''capabilities/gpu-interconnect/fabric/infiniband''"

definition AttributeInterconnectFabricRoCE :: string where
  "AttributeInterconnectFabricRoCE = ''capabilities/gpu-interconnect/fabric/roce''"

fun placementFabricFromAttrs :: "attributes \<Rightarrow> string \<times> bool" where
  "placementFabricFromAttrs [] = ([], False)"
| "placementFabricFromAttrs (a # as) =
     (if attr_Value a \<noteq> ''true'' then placementFabricFromAttrs as
      else if attr_Key a = AttributeInterconnectFabricInfiniBand then (''infiniband'', True)
      else if attr_Key a = AttributeInterconnectFabricRoCE then (''roce'', True)
      else placementFabricFromAttrs as)"

definition PlacementRequiredFabric :: "resource_group \<Rightarrow> string \<times> bool" where
  "PlacementRequiredFabric rg = placementFabricFromAttrs (placementAttrs rg)"

section \<open>Endpoints\<close>

definition accumEndpointsOfResources :: "resources \<Rightarrow> endpoint_kind \<Rightarrow> u32 list \<Rightarrow> u32 list" where
  "accumEndpointsOfResources r kind accum =
     fold (\<lambda>e acc. if ep_Kind e = kind then List.insert (SequenceNumber e) acc else acc) (res_Endpoints r) accum"

definition GetEndpointQuantityOfResourceGroup :: "resource_group \<Rightarrow> endpoint_kind \<Rightarrow> nat" where
  "GetEndpointQuantityOfResourceGroup rg kind =
     length (fold (\<lambda>u acc. accumEndpointsOfResources (ru_Resources u) kind acc) (GetResourceUnits rg) [])"

definition GetEndpointQuantityOfResourceUnits :: "resources \<Rightarrow> endpoint_kind \<Rightarrow> nat" where
  "GetEndpointQuantityOfResourceUnits r kind = length (accumEndpointsOfResources r kind [])"

end
