(* ===== verification/Placement.thy ===== *)
theory Placement
  imports Resources
begin

text \<open>
  Fitting a resource group into a cluster. Both inventories of the provider do this with the
  same algorithm: the Kubernetes one (\<open>cluster/kube/operators/clients/inventory/inventory.go\<close>)
  and the in-memory one (\<open>cluster/types/v1beta3/clients/inventory/inventory.go\<close>). The steps on
  one node (\<open>tryAdjust\<close> and its helpers) come first, then the placement loop of \<open>Adjust\<close>,
  which is written once over the node step. A node step receives the resource it may rewrite
  by value and returns it.
\<close>

section \<open>One node\<close>

definition tryAdjustCPU :: "sdk \<Rightarrow> node \<Rightarrow> cpu_req \<Rightarrow> resource_pair option" where
  "tryAdjustCPU K nd req =
     (case (if cpu_Attributes req = [] then Inr ''amd64''
            else (case ParseCPUAttributes (cpu_Attributes req) of
                    Inl e \<Rightarrow> Inl e
                  | Inr arch \<Rightarrow> Inr (if arch \<noteq> [] then arch else ''amd64''))) of
        Inl e \<Rightarrow> None
      | Inr requestedArch \<Rightarrow>
          (case CPU_Info nd of
             [] \<Rightarrow> sub_milli_nlz K (CPU_Quantity nd) (cpu_Units req)
           | i # _ \<Rightarrow>
               if Arch i \<noteq> [] \<and> Arch i \<noteq> requestedArch then None
               else sub_milli_nlz K (CPU_Quantity nd) (cpu_Units req)))"

text \<open>Whether a GPU of the node satisfies the parsed attributes, with the attributes it matched.\<close>

definition gpu_match :: "(string \<Rightarrow> string) \<Rightarrow> gpu_attributes \<Rightarrow> gpu_info \<Rightarrow> gpu_model_attributes option option" where
  "gpu_match filt attrs info =
     (case map_of attrs (Vendor info) of
        None \<Rightarrow> None
      | Some models \<Rightarrow>
         (case ExistsOrWildcard models (gpu_Name info) of
            None \<Rightarrow> None
          | Some None \<Rightarrow> Some None
          | Some (Some a) \<Rightarrow>
              if RAM a \<noteq> [] \<and> RAM a \<noteq> MemorySize info then None
              else if gma_Interface a \<noteq> [] \<and> gma_Interface a \<noteq> filt (Interface info) then None
              else Some (Some a)))"

text \<open>The loop over the node's GPUs: the GPU at which the requested number is reached.\<close>

fun gpu_scan :: "(string \<Rightarrow> string) \<Rightarrow> gpu_attributes \<Rightarrow> gpu_info list \<Rightarrow> nat \<Rightarrow>
    (gpu_info \<times> gpu_model_attributes option) option" where
  "gpu_scan filt attrs [] reqCnt = None"
| "gpu_scan filt attrs (info # infos) reqCnt =
     (case gpu_match filt attrs info of
        None \<Rightarrow> gpu_scan filt attrs infos reqCnt
      | Some a \<Rightarrow> if reqCnt - 1 = 0 then Some (info, a) else gpu_scan filt attrs infos (reqCnt - 1))"

definition gpu_key :: "string \<Rightarrow> string \<Rightarrow> gpu_model_attributes option \<Rightarrow> string" where
  "gpu_key vendor model attr =
     (let key = ''vendor/'' @ vendor @ ''/model/'' @ model in
      case attr of
        None \<Rightarrow> key
      | Some a \<Rightarrow>
          (let key1 = (if RAM a \<noteq> [] then key @ ''/ram/'' @ RAM a else key)
           in if gma_Interface a \<noteq> [] then key1 @ ''/interface/'' @ gma_Interface a else key1))"

text \<open>
  The two inventories differ in how they compare the interface of a GPU (\<open>filt\<close>) and in
  whether they select the NVIDIA runtime class (\<open>nv\<close>).
\<close>

definition adjust_gpu :: "(string \<Rightarrow> string) \<Rightarrow> bool \<Rightarrow> sdk \<Rightarrow> node \<Rightarrow> gpu_req \<Rightarrow> scheduler_params \<Rightarrow>
    tee_type \<Rightarrow> tee_platform \<Rightarrow> (resource_pair \<times> gpu_req \<times> scheduler_params) option" where
  "adjust_gpu filt nv K nd req sp tee plat =
     (if gpu_Units req = 0 then Some (GPU_Quantity nd, req, sp)
      else if quantity_value K (available K (GPU_Quantity nd)) = 0 then None
      else
        (case ParseGPUAttributes K (gpu_Attributes req) of
           Inl e \<Rightarrow> None
         | Inr attrs \<Rightarrow>
            (case gpu_scan filt attrs (GPU_Info nd) (gpu_Units req) of
               None \<Rightarrow> None
             | Some (info, attr) \<Rightarrow>
                let vendor = to_lower (Vendor info) in
                (case sub_nlz K (GPU_Quantity nd) (gpu_Units req) of
                   None \<Rightarrow> None
                 | Some rp \<Rightarrow>
                     let sp1 = sparams_set_gpu (sParamsEnsureGPU sp) vendor (gpu_Name info);
                         sp2 = (if IsCC tee then sp1\<lparr>RuntimeClass := RuntimeClassForTEEType tee plat\<rparr>
                                else if nv \<and> vendor = ''nvidia'' then sp1\<lparr>RuntimeClass := ''nvidia''\<rparr>
                                else sp1)
                     in Some (rp, req\<lparr>gpu_Attributes := [\<lparr>attr_Key = gpu_key vendor (gpu_Name info) attr, attr_Value = ''true''\<rparr>]\<rparr>, sp2)))))"

definition kube_tryAdjustGPU :: "sdk \<Rightarrow> node \<Rightarrow> gpu_req \<Rightarrow> scheduler_params \<Rightarrow>
    tee_type \<Rightarrow> tee_platform \<Rightarrow> (resource_pair \<times> gpu_req \<times> scheduler_params) option" where
  "kube_tryAdjustGPU = adjust_gpu FilterGPUInterface True"

definition null_tryAdjustGPU :: "sdk \<Rightarrow> node \<Rightarrow> gpu_req \<Rightarrow> scheduler_params \<Rightarrow>
    tee_type \<Rightarrow> tee_platform \<Rightarrow> (resource_pair \<times> gpu_req \<times> scheduler_params) option" where
  "null_tryAdjustGPU = adjust_gpu (\<lambda>i. i) False"

definition tryAdjustInterconnect :: "sdk \<Rightarrow> node \<Rightarrow> resources \<Rightarrow> scheduler_params \<Rightarrow> string \<Rightarrow> bool \<Rightarrow>
    (resource_pair \<times> scheduler_params) option" where
  "tryAdjustInterconnect K nd r sp requiredFabric required =
     (if \<not> required then Some (GPUInterconnect nd, sp)
      else if \<not> interconnectCapsSuitable (Capabilities nd) requiredFabric then None
      else
        (case res_GPU r of
           None \<Rightarrow> None
         | Some g \<Rightarrow>
            (case sub_nlz K (GPUInterconnect nd) (gpu_Units g) of
               None \<Rightarrow> None
             | Some rp \<Rightarrow>
                 Some (rp, sparams_set_interconnect (sParamsEnsureResources sp)
                   \<lparr>si_Enabled = True, si_Units = gpu_Units g,
                    si_ResourceName = InterconnectResourceName (Capabilities nd),
                    si_Fabric = InterconnectFabric (Capabilities nd),
                    si_NCCLHCAPrefixes = NCCLHCAPrefixes (Capabilities nd)\<rparr>))))"

definition tryAdjustEphemeralStorage :: "sdk \<Rightarrow> resource_pair \<Rightarrow> storage_req \<Rightarrow> resource_pair option" where
  "tryAdjustEphemeralStorage K rp s = sub_nlz K rp (sr_Quantity s)"

fun adjust_class :: "sdk \<Rightarrow> string \<Rightarrow> nat \<Rightarrow> storage_class list \<Rightarrow> storage_class list option" where
  "adjust_class K cls q [] = None"
| "adjust_class K cls q (c # cs) =
     (if sc_Class c = cls then
        (case sub_nlz K (sc_Quantity c) q of None \<Rightarrow> None | Some rp \<Rightarrow> Some (c\<lparr>sc_Quantity := rp\<rparr> # cs))
      else map_option (Cons c) (adjust_class K cls q cs))"

text \<open>
  What a node step answers: the replica fits, with its scheduler parameters (nil when there
  are none), the node or the whole cluster cannot take it, or the step dereferences a nil
  pointer of the request.
\<close>

datatype fit = Fits "scheduler_params option" | NodeUnfit | ClusterUnfit | NilDeref

fun try_storage :: "sdk \<Rightarrow> node \<Rightarrow> storage_class list \<Rightarrow> storage_req list \<Rightarrow> fit + node \<times> storage_class list" where
  "try_storage K nd classes [] = Inr (nd, classes)"
| "try_storage K nd classes (s # ss) =
     (case ParseStorageAttributes K (sr_Attributes s) of
        Inl e \<Rightarrow> Inl ClusterUnfit
      | Inr a \<Rightarrow>
          if \<not> Persistent a then
            (if sa_Class a = ''ram'' then
               (case sub_nlz K (Memory_Quantity nd) (sr_Quantity s) of
                  None \<Rightarrow> Inl NodeUnfit
                | Some rp \<Rightarrow> try_storage K (nd\<lparr>Memory_Quantity := rp\<rparr>) classes ss)
             else
               (case tryAdjustEphemeralStorage K (EphemeralStorage nd) s of
                  None \<Rightarrow> Inl NodeUnfit
                | Some rp \<Rightarrow> try_storage K (nd\<lparr>EphemeralStorage := rp\<rparr>) classes ss))
          else if \<not> storage_class_supported K nd (sa_Class a) then Inl NodeUnfit
          else
            (case adjust_class K (sa_Class a) (sr_Quantity s) classes of
               None \<Rightarrow> Inl ClusterUnfit
             | Some classes' \<Rightarrow> try_storage K nd classes' ss))"

definition sidecar_memory :: "runtime_class \<Rightarrow> nat" where
  "sidecar_memory rc = (if RuntimeClass_Is rc [WithGPU] then SidecarGPUMemoryLimitBytes else SidecarMemoryLimitBytes)"

text \<open>The runtime class and the sidecar of a confidential workload.\<close>

definition try_sidecar :: "sdk \<Rightarrow> node \<Rightarrow> scheduler_params \<Rightarrow> tee_type \<Rightarrow> tee_platform \<Rightarrow> (node \<times> scheduler_params) option" where
  "try_sidecar K nd sp tee plat =
     (if \<not> IsCC tee then Some (nd, sp)
      else
        let sp1 = (if RuntimeClass sp = [] then sp\<lparr>RuntimeClass := RuntimeClassForTEEType tee plat\<rparr> else sp) in
        (case sub_milli_nlz K (CPU_Quantity nd) SidecarCPULimitMillicores of
           None \<Rightarrow> None
         | Some cpu \<Rightarrow>
            (case sub_nlz K (Memory_Quantity nd) (sidecar_memory (RuntimeClass sp1)) of
               None \<Rightarrow> None
             | Some mem \<Rightarrow> Some (nd\<lparr>CPU_Quantity := cpu, Memory_Quantity := mem\<rparr>, sp1))))"

text \<open>From the memory check on, both inventories proceed alike; \<open>r\<close> already carries the GPU attributes.\<close>

definition try_rest :: "sdk \<Rightarrow> cluster \<Rightarrow> nat \<Rightarrow> node \<Rightarrow> resources \<Rightarrow> scheduler_params \<Rightarrow>
    tee_type \<Rightarrow> tee_platform \<Rightarrow> fit \<times> cluster" where
  "try_rest K cl i nd r sp tee plat =
     (case res_Memory r of
        None \<Rightarrow> (NilDeref, cl)
      | Some mem \<Rightarrow>
         (case sub_nlz K (Memory_Quantity nd) mem of
            None \<Rightarrow> (NodeUnfit, cl)
          | Some rp \<Rightarrow>
             (case try_storage K (nd\<lparr>Memory_Quantity := rp\<rparr>) (Storage cl) (res_Storage r) of
                Inl f \<Rightarrow> (f, cl)
              | Inr (nd1, classes) \<Rightarrow>
                 (case try_sidecar K nd1 sp tee plat of
                    None \<Rightarrow> (NodeUnfit, cl)
                  | Some (nd2, sp2) \<Rightarrow>
                      (Fits (if sp2 = zero_sparams then None else Some sp2),
                       cl\<lparr>Nodes := (Nodes cl)[i := nd2], Storage := classes\<rparr>)))))"

text \<open>\<open>(group, node)\<close> pairs of \<open>groupClaims\<close>.\<close>

type_synonym claims = "(string \<times> nat) list"

definition kube_tryAdjust :: "sdk \<Rightarrow> tee_type \<Rightarrow> tee_platform \<Rightarrow> string \<Rightarrow> bool \<Rightarrow> string \<Rightarrow> nat \<Rightarrow>
    cluster \<times> claims \<Rightarrow> resources \<Rightarrow> fit \<times> (cluster \<times> claims) \<times> resources" where
  "kube_tryAdjust K tee plat requiredFabric requiresIC icGroup i st r =
     (case st of (cl, groupClaims) \<Rightarrow>
        let nd = Nodes cl ! i in
        if icGroup \<noteq> [] \<and> (icGroup, i) \<in> set groupClaims then (NodeUnfit, st, r)
        else if requiresIC \<and> \<not> interconnectCapsSuitable (Capabilities nd) requiredFabric then (NodeUnfit, st, r)
        else
          (case res_CPU r of
             None \<Rightarrow> (NilDeref, st, r)
           | Some cpu \<Rightarrow>
              (case tryAdjustCPU K nd cpu of
                 None \<Rightarrow> (NodeUnfit, st, r)
               | Some cq \<Rightarrow>
                  (case tryAdjustInterconnect K nd r zero_sparams requiredFabric requiresIC of
                     None \<Rightarrow> (NodeUnfit, st, r)
                   | Some (iq, sp) \<Rightarrow>
                      (case res_GPU r of
                         None \<Rightarrow> (NilDeref, st, r)
                       | Some gpu \<Rightarrow>
                          (case kube_tryAdjustGPU K nd gpu sp tee plat of
                             None \<Rightarrow> (NodeUnfit, st, r)
                           | Some (gq, gpu', sp') \<Rightarrow>
                              let r' = r\<lparr>res_GPU := Some gpu'\<rparr>;
                                  nd' = nd\<lparr>CPU_Quantity := cq, GPUInterconnect := iq, GPU_Quantity := gq\<rparr> in
                              (case try_rest K cl i nd' r' sp' tee plat of
                                 (Fits p, cl') \<Rightarrow>
                                   (Fits p, (cl', if icGroup \<noteq> [] then (icGroup, i) # groupClaims else groupClaims), r')
                               | (f, cl') \<Rightarrow> (f, st, r'))))))))"

definition null_tryAdjust :: "sdk \<Rightarrow> tee_type \<Rightarrow> tee_platform \<Rightarrow> nat \<Rightarrow>
    cluster \<times> claims \<Rightarrow> resources \<Rightarrow> fit \<times> (cluster \<times> claims) \<times> resources" where
  "null_tryAdjust K tee plat i st r =
     (case st of (cl, none) \<Rightarrow>
        let nd = Nodes cl ! i in
        (case res_CPU r of
           None \<Rightarrow> (NilDeref, st, r)
         | Some cpu \<Rightarrow>
            (case tryAdjustCPU K nd cpu of
               None \<Rightarrow> (NodeUnfit, st, r)
             | Some cq \<Rightarrow>
                (case res_GPU r of
                   None \<Rightarrow> (NilDeref, st, r)
                 | Some gpu \<Rightarrow>
                    (case null_tryAdjustGPU K nd gpu zero_sparams tee plat of
                       None \<Rightarrow> (NodeUnfit, st, r)
                     | Some (gq, gpu', sp') \<Rightarrow>
                        let r' = r\<lparr>res_GPU := Some gpu'\<rparr>;
                            nd' = nd\<lparr>CPU_Quantity := cq, GPU_Quantity := gq\<rparr> in
                        (case try_rest K cl i nd' r' sp' tee plat of
                           (Fits p, cl') \<Rightarrow> (Fits p, (cl', none), r')
                         | (f, cl') \<Rightarrow> (f, st, r')))))))"

section \<open>The placement loop\<close>

datatype adjust_error =
    ErrInsufficientCapacity | ErrGroupResourceMismatch | ErrInvalidInterconnectGroup string | PanicNilDeref

type_synonym cluster_params = "(u32 \<times> scheduler_params option) list"
type_synonym 'st node_step = "'st \<Rightarrow> resources \<Rightarrow> fit \<times> 'st \<times> resources"

text \<open>\<open>cparams[id]\<close>: a missing entry reads as the nil pointer.\<close>

definition cparams_get :: "cluster_params \<Rightarrow> u32 \<Rightarrow> scheduler_params option" where
  "cparams_get cp k = (case map_of cp k of None \<Rightarrow> None | Some p \<Rightarrow> p)"

datatype placement_exit = AllPlaced | NextNode | BreakNodes "adjust_error option"

text \<open>
  The innermost loop: replicas of one group on one node, until all are placed or the loop is
  left. \<open>base\<close> is \<open>adjustedResources[i]\<close>, compared against when \<open>adjustedGroup\<close> holds;
  otherwise \<open>adjusted\<close> is a pointer to it and the caller stores the resource returned.
\<close>

fun fill_node :: "'st node_step \<Rightarrow> bool \<Rightarrow> resources \<Rightarrow> resources \<Rightarrow> nat \<Rightarrow> cluster_params \<Rightarrow> 'st \<Rightarrow>
    placement_exit \<times> resources \<times> nat \<times> cluster_params \<times> 'st" where
  "fill_node step adjustedGroup base adjusted 0 cparams st = (AllPlaced, adjusted, 0, cparams, st)"
| "fill_node step adjustedGroup base adjusted (Suc n) cparams st =
     (case step st adjusted of
        (ClusterUnfit, st', adj') \<Rightarrow> (BreakNodes None, adj', Suc n, cparams, st')
      | (NilDeref, st', adj') \<Rightarrow> (BreakNodes (Some PanicNilDeref), adj', Suc n, cparams, st')
      | (NodeUnfit, st', adj') \<Rightarrow> (NextNode, adj', Suc n, cparams, st')
      | (Fits sparams, st', adj') \<Rightarrow>
          if adjustedGroup then
            (if adj' \<noteq> base then (BreakNodes (Some ErrGroupResourceMismatch), adj', Suc n, cparams, st')
             else if sparams \<noteq> cparams_get cparams (res_ID adj')
             then (BreakNodes (Some ErrGroupResourceMismatch), adj', Suc n, cparams, st')
             else fill_node step adjustedGroup base adj' n cparams st')
          else fill_node step adjustedGroup base adj' n ((res_ID adj', sparams) # cparams) st')"

text \<open>The walk over the nodes for one group, from the node it has reached.\<close>

fun walk_nodes :: "(nat \<Rightarrow> 'st node_step) \<Rightarrow> nat \<Rightarrow> nat list \<Rightarrow> resources \<Rightarrow> nat \<Rightarrow> cluster_params \<Rightarrow> 'st \<Rightarrow>
    adjust_error + resources \<times> cluster_params \<times> 'st" where
  "walk_nodes step origCount [] adjusted cnt cparams st = Inl ErrInsufficientCapacity"
| "walk_nodes step origCount (nd # nds) adjusted cnt cparams st =
     (let adjustedGroup = (origCount \<noteq> cnt) in
      case fill_node (step nd) adjustedGroup adjusted adjusted cnt cparams st of
        (exit, adj', cnt', cparams', st') \<Rightarrow>
          let adjusted' = (if adjustedGroup then adjusted else adj') in
          (case exit of
             AllPlaced \<Rightarrow> Inr (adjusted', cparams', st')
           | NextNode \<Rightarrow> walk_nodes step origCount nds adjusted' cnt' cparams' st'
           | BreakNodes None \<Rightarrow> Inl ErrInsufficientCapacity
           | BreakNodes (Some e) \<Rightarrow> Inl e))"

text \<open>
  The groups, last one first: every way out of the inner loops leaves the current group
  (\<open>break nodes\<close>, \<open>continue nodes\<close>, or its removal and \<open>goto nodes\<close>), so a walk over the nodes
  only ever treats the last remaining group, and placing it restarts the walk at node 0.
\<close>

fun place_groups :: "(nat \<Rightarrow> nat \<Rightarrow> 'st node_step) \<Rightarrow> nat list \<Rightarrow> resource_unit list \<Rightarrow> nat \<Rightarrow>
    resource_unit list \<Rightarrow> cluster_params \<Rightarrow> 'st \<Rightarrow> adjust_error + resource_unit list \<times> cluster_params \<times> 'st" where
  "place_groups step nodes orig 0 adjusted cparams st = Inr (adjusted, cparams, st)"
| "place_groups step nodes orig (Suc i) adjusted cparams st =
     (case walk_nodes (step i) (ru_Count (orig ! i)) nodes (ru_Resources (adjusted ! i)) (ru_Count (orig ! i)) cparams st of
        Inl e \<Rightarrow> Inl e
      | Inr (adj, cparams', st') \<Rightarrow>
          place_groups step nodes orig i (adjusted[i := (adjusted ! i)\<lparr>ru_Resources := adj\<rparr>]) cparams' st')"

section \<open>Reservations\<close>

text \<open>The values the code stores behind \<open>ClusterParams() interface{}\<close>.\<close>

datatype cluster_params_value =
    NilParams
  | ReservationClusterSettings cluster_params
  | ClusterSettingsVal "scheduler_params option list"
  | ClusterSettingsPtr "scheduler_params option list option"

record reservation_group =
  rg_resources :: resource_group
  rg_allocated_resources :: "resource_unit list"
  rg_cluster_params :: cluster_params_value

definition SetAllocatedResources :: "resource_unit list \<Rightarrow> reservation_group \<Rightarrow> reservation_group" where
  "SetAllocatedResources v r = r\<lparr>rg_allocated_resources := v\<rparr>"

definition SetClusterParams :: "cluster_params_value \<Rightarrow> reservation_group \<Rightarrow> reservation_group" where
  "SetClusterParams v r = r\<lparr>rg_cluster_params := v\<rparr>"

section \<open>The Kubernetes inventory\<close>

record kube_inventory =
  inv_Cluster :: cluster
  sanitized :: cluster

definition sanitizeQuantity :: "int option \<Rightarrow> int option" where
  "sanitizeQuantity q = (case q of None \<Rightarrow> None | Some v \<Rightarrow> if v < 0 then Some 0 else Some v)"

definition sanitizeResourcePair :: "resource_pair \<Rightarrow> resource_pair" where
  "sanitizeResourcePair p = p\<lparr>Capacity := sanitizeQuantity (Capacity p),
     Allocatable := sanitizeQuantity (Allocatable p), Allocated := sanitizeQuantity (Allocated p)\<rparr>"

definition sanitizeNodeResources :: "node \<Rightarrow> node" where
  "sanitizeNodeResources nd = nd\<lparr>
     CPU_Quantity := sanitizeResourcePair (CPU_Quantity nd),
     Memory_Quantity := sanitizeResourcePair (Memory_Quantity nd),
     GPU_Quantity := sanitizeResourcePair (GPU_Quantity nd),
     EphemeralStorage := sanitizeResourcePair (EphemeralStorage nd),
     VolumesAttached := sanitizeResourcePair (VolumesAttached nd),
     VolumesMounted := sanitizeResourcePair (VolumesMounted nd),
     GPUInterconnect := sanitizeResourcePair (GPUInterconnect nd)\<rparr>"

definition sanitizeCluster :: "cluster \<Rightarrow> cluster" where
  "sanitizeCluster cl = cl\<lparr>Nodes := map sanitizeNodeResources (Nodes cl),
     Storage := map (\<lambda>c. c\<lparr>sc_Quantity := sanitizeResourcePair (sc_Quantity c)\<rparr>) (Storage cl)\<rparr>"

definition newInventory :: "cluster \<Rightarrow> kube_inventory" where
  "newInventory clState = \<lparr>inv_Cluster = clState, sanitized = sanitizeCluster clState\<rparr>"

definition sanitizedDup :: "kube_inventory \<Rightarrow> kube_inventory" where
  "sanitizedDup iv = \<lparr>inv_Cluster = sanitized iv, sanitized = sanitized iv\<rparr>"

definition Snapshot :: "kube_inventory \<Rightarrow> cluster" where
  "Snapshot iv = sanitized iv"

text \<open>The first unit whose opt-in group label Kubernetes would refuse.\<close>

definition invalid_group :: "sdk \<Rightarrow> resource_unit list \<Rightarrow> string option" where
  "invalid_group K units =
     map_option (\<lambda>u. fst (ResourceInterconnectGroup (ru_Resources u)))
       (find (\<lambda>u. case ResourceInterconnectGroup (ru_Resources u) of (g, req) \<Rightarrow> req \<and> \<not> valid_label K g) units)"

definition kube_step :: "sdk \<Rightarrow> inventory_options \<Rightarrow> string \<Rightarrow> resource_unit list \<Rightarrow> nat \<Rightarrow> nat \<Rightarrow> (cluster \<times> claims) node_step" where
  "kube_step K cfg requiredFabric orig g nd =
     (case ResourceInterconnectGroup (ru_Resources (orig ! g)) of
        (icGroup, requiresIC) \<Rightarrow>
          kube_tryAdjust K (opt_TEEType cfg) (opt_TEEPlatform cfg) requiredFabric requiresIC icGroup nd)"

definition kube_Adjust :: "sdk \<Rightarrow> kube_inventory \<Rightarrow> reservation_group \<Rightarrow> inventory_option list \<Rightarrow>
    kube_inventory \<times> reservation_group \<times> (adjust_error + unit)" where
  "kube_Adjust K iv rsv opts =
     (let cfg = options_of opts;
          orig = GetResourceUnits (rg_resources rsv);
          curr = inv_Cluster (sanitizedDup iv);
          requiredFabric = fst (PlacementRequiredFabric (rg_resources rsv))
      in case invalid_group K orig of
           Some g \<Rightarrow> (iv, rsv, Inl (ErrInvalidInterconnectGroup g))
         | None \<Rightarrow>
            (case place_groups (kube_step K cfg requiredFabric orig) [0..<length (Nodes curr)] orig
                    (length orig) orig [] (curr, []) of
               Inl e \<Rightarrow> (iv, rsv, Inl e)
             | Inr (adjusted, cparams, (cl, _)) \<Rightarrow>
                 (if DryRun cfg then iv else iv\<lparr>sanitized := cl\<rparr>,
                  SetClusterParams (ReservationClusterSettings cparams) (SetAllocatedResources adjusted rsv), Inr ())))"

section \<open>The in-memory inventory\<close>

definition null_step :: "sdk \<Rightarrow> inventory_options \<Rightarrow> nat \<Rightarrow> nat \<Rightarrow> (cluster \<times> claims) node_step" where
  "null_step K cfg g nd = null_tryAdjust K (opt_TEEType cfg) (opt_TEEPlatform cfg) nd"

definition null_Adjust :: "sdk \<Rightarrow> cluster \<Rightarrow> reservation_group \<Rightarrow> inventory_option list \<Rightarrow>
    cluster \<times> reservation_group \<times> (adjust_error + unit)" where
  "null_Adjust K iv rsv opts =
     (let cfg = options_of opts;
          orig = GetResourceUnits (rg_resources rsv)
      in case place_groups (null_step K cfg) [0..<length (Nodes iv)] orig (length orig) orig [] (iv, []) of
           Inl e \<Rightarrow> (iv, rsv, Inl e)
         | Inr (adjusted, cparams, (cl, _)) \<Rightarrow>
             (if DryRun cfg then iv else cl,
              SetClusterParams (ReservationClusterSettings cparams) (SetAllocatedResources adjusted rsv), Inr ()))"

section \<open>Laws of the SDK\<close>

definition alloc :: "resource_pair \<Rightarrow> int" where
  "alloc rp = (case Allocated rp of None \<Rightarrow> 0 | Some q \<Rightarrow> q)"

definition allocatable :: "resource_pair \<Rightarrow> int" where
  "allocatable rp = (case Allocatable rp of None \<Rightarrow> 0 | Some q \<Rightarrow> q)"

text \<open>
  What the code relies on of \<open>SubNLZ\<close> (in whole units) and \<open>SubMilliNLZ\<close> (in thousandths): on
  success the amount is added to what is allocated, what is allocatable does not change, and
  the amount is at most what is available rounded up to the unit.
\<close>

definition sub_law :: "int \<Rightarrow> (resource_pair \<Rightarrow> nat \<Rightarrow> resource_pair option) \<Rightarrow> bool" where
  "sub_law u sub \<longleftrightarrow> (\<forall>rp v rp'. sub rp v = Some rp' \<longrightarrow>
     alloc rp' = alloc rp + int v * u \<and> allocatable rp' = allocatable rp \<and> int v * u < allocatable rp - alloc rp + u)"

text \<open>
  Because of that rounding a pair may be over-allocated by less than one unit. It is not when
  the amounts are whole multiples of the unit: \<open>well_allocated wh\<close> is the first condition for
  \<open>wh = False\<close> and the second for \<open>wh = True\<close>.
\<close>

definition well_allocated :: "bool \<Rightarrow> int \<Rightarrow> resource_pair \<Rightarrow> bool" where
  "well_allocated wh u rp \<longleftrightarrow>
     (if wh then u dvd alloc rp \<and> u dvd allocatable rp \<and> alloc rp \<le> allocatable rp
      else alloc rp < allocatable rp + u)"

lemma dvd_less_le:
  fixes a b u :: int
  assumes "u dvd a" "u dvd b" "0 < u" "a < b + u"
  shows "a \<le> b"
proof -
  obtain k l where "a = u * k" "b = u * l" using assms(1,2) by (auto elim!: dvdE)
  moreover from this have "u * k < u * (l + 1)" using assms(4) by (simp add: distrib_left)
  then have "k < l + 1" using assms(3) by simp
  ultimately show ?thesis using assms(3) by simp
qed

lemma sub_law_allocated:
  assumes "sub_law u sub" and "sub rp v = Some rp'" and "0 < u" and "well_allocated wh u rp"
  shows "well_allocated wh u rp'"
proof -
  have *: "alloc rp' = alloc rp + int v * u" "allocatable rp' = allocatable rp" "alloc rp' < allocatable rp' + u"
    using assms(1,2) unfolding sub_law_def by fastforce+
  then show ?thesis using assms(3,4) dvd_less_le[of u "alloc rp'" "allocatable rp'"]
    by (auto simp: well_allocated_def split: if_splits)
qed

definition sdk_laws :: "sdk \<Rightarrow> bool" where
  "sdk_laws K \<longleftrightarrow> sub_law (10 ^ 9) (sub_nlz K) \<and> sub_law (10 ^ 6) (sub_milli_nlz K)"

section \<open>Generic lemmas of the placement loop\<close>

text \<open>
  A weight on states that grows by the demand of a replica whenever a node step places one,
  and an invariant the steps keep: both carry over to the whole loop.
\<close>

definition step_law :: "('st \<Rightarrow> bool) \<Rightarrow> nat set \<Rightarrow> (nat \<Rightarrow> 'st node_step) \<Rightarrow> ('st \<Rightarrow> int) \<Rightarrow> (resources \<Rightarrow> int) \<Rightarrow> bool" where
  "step_law I nds step f d \<longleftrightarrow> (\<forall>nd \<in> nds. \<forall>st r. I st \<longrightarrow>
     (case step nd st r of (ft, st', r') \<Rightarrow>
        I st' \<and> d r' = d r \<and> f st' = f st + (case ft of Fits _ \<Rightarrow> d r | _ \<Rightarrow> 0)))"

lemma step_lawD:
  assumes "step_law I nds step f d" and "nd \<in> nds" and "I st" and "step nd st r = (ft, st', r')"
  shows "I st'" and "d r' = d r" and "f st' = f st + (case ft of Fits _ \<Rightarrow> d r | _ \<Rightarrow> 0)"
proof -
  have "case step nd st r of (ft, st', r') \<Rightarrow>
      I st' \<and> d r' = d r \<and> f st' = f st + (case ft of Fits _ \<Rightarrow> d r | _ \<Rightarrow> 0)"
    using assms(1)[unfolded step_law_def, rule_format, OF assms(2,3)] .
  then show "I st'" "d r' = d r" "f st' = f st + (case ft of Fits _ \<Rightarrow> d r | _ \<Rightarrow> 0)"
    using assms(4) by auto
qed

lemma fill_node_law:
  assumes law: "step_law I nds step f d" and nd: "nd \<in> nds" and "I st"
    and "fill_node (step nd) ag base adj n cp st = (ex, adj', n', cp', st')"
  shows "I st' \<and> d adj' = d adj \<and> n' \<le> n \<and> (ex = AllPlaced \<longrightarrow> n' = 0) \<and>
    (ex = AllPlaced \<or> ex = NextNode \<longrightarrow> f st' = f st + int (n - n') * d adj)"
  using assms(3,4)
proof (induction n arbitrary: adj cp st)
  case (Suc n)
  obtain ft st1 adj1 where s: "step nd st adj = (ft, st1, adj1)" by (metis prod_cases3)
  note st1 = step_lawD[OF law nd Suc.prems(1) s]
  show ?case
  proof (cases ft)
    case (Fits p)
    show ?thesis
    proof (cases "ag \<and> (adj1 \<noteq> base \<or> p \<noteq> cparams_get cp (res_ID adj1))")
      case True
      then show ?thesis using Suc.prems(2) s Fits st1 by (auto split: if_splits)
    next
      case False
      define cp1 where "cp1 = (if ag then cp else (res_ID adj1, p) # cp)"
      have "fill_node (step nd) ag base adj1 n cp1 st1 = (ex, adj', n', cp', st')"
        using Suc.prems(2) s Fits False by (auto simp: cp1_def split: if_splits)
      from Suc.IH[OF st1(1) this] show ?thesis
        using st1 Fits by (auto simp: algebra_simps of_nat_diff Suc_diff_le)
    qed
  qed (use Suc.prems(2) s st1 in auto)
qed simp

lemma walk_nodes_law:
  assumes law: "step_law I nds step f d" and "set ns \<subseteq> nds" and "I st"
    and "walk_nodes step oc ns adj n cp st = Inr (adj', cp', st')"
  shows "I st' \<and> d adj' = d adj \<and> f st' = f st + int n * d adj"
  using assms(2-4)
proof (induction ns arbitrary: adj n cp st)
  case (Cons nd ns)
  obtain ex adj1 n1 cp1 st1 where
    f: "fill_node (step nd) (oc \<noteq> n) adj adj n cp st = (ex, adj1, n1, cp1, st1)" by (metis prod_cases5)
  have nd: "nd \<in> nds" using Cons.prems(1) by simp
  note l = fill_node_law[OF law nd Cons.prems(2) f]
  define adj2 where "adj2 = (if oc \<noteq> n then adj else adj1)"
  have d: "d adj2 = d adj" using l by (simp add: adj2_def)
  show ?case
  proof (cases ex)
    case AllPlaced
    then show ?thesis using Cons.prems(3) f l by (auto simp: Let_def split: if_splits)
  next
    case NextNode
    then have "walk_nodes step oc ns adj2 n1 cp1 st1 = Inr (adj', cp', st')"
      using Cons.prems(3) f by (simp add: Let_def adj2_def)
    from Cons.IH[OF _ _ this] Cons.prems(1) l show ?thesis
      using NextNode d by (auto simp: algebra_simps of_nat_diff)
  next
    case (BreakNodes e)
    then show ?thesis using Cons.prems(3) f by (cases e) (simp_all add: Let_def)
  qed
qed simp

lemma place_groups_law:
  assumes law: "\<And>g. g < k \<Longrightarrow> step_law I (set ns) (step g) f (d g)" and "I st"
    and "place_groups step ns orig k adj cp st = Inr (adj', cp', st')" and "k \<le> length adj"
  shows "I st' \<and> f st' = f st + (\<Sum>g < k. int (ru_Count (orig ! g)) * d g (ru_Resources (adj ! g)))"
  using assms
proof (induction k arbitrary: adj cp st)
  case (Suc k)
  from Suc.prems(3) obtain a1 cp1 st1 where
    w: "walk_nodes (step k) (ru_Count (orig ! k)) ns (ru_Resources (adj ! k)) (ru_Count (orig ! k)) cp st = Inr (a1, cp1, st1)"
    and p: "place_groups step ns orig k (adj[k := (adj ! k)\<lparr>ru_Resources := a1\<rparr>]) cp1 st1 = Inr (adj', cp', st')"
    by (auto split: sum.splits)
  note l = walk_nodes_law[OF Suc.prems(1)[of k] _ Suc.prems(2) w]
  have "I st' \<and> f st' = f st1 + (\<Sum>g < k. int (ru_Count (orig ! g)) *
      d g (ru_Resources (adj[k := (adj ! k)\<lparr>ru_Resources := a1\<rparr>] ! g)))"
    by (rule Suc.IH[OF _ _ p]) (use Suc.prems l in auto)
  then show ?case using l by simp
qed simp

section \<open>What one node step does\<close>

text \<open>A step rewrites nothing of a request but the GPU attributes.\<close>

definition same_request :: "resources \<Rightarrow> resources \<Rightarrow> bool" where
  "same_request r r' \<longleftrightarrow> r'\<lparr>res_GPU := None\<rparr> = r\<lparr>res_GPU := None\<rparr> \<and>
     map_option gpu_Units (res_GPU r') = map_option gpu_Units (res_GPU r)"

definition ram_demand :: "sdk \<Rightarrow> storage_req list \<Rightarrow> nat" where
  "ram_demand K ss = sum_list (map (\<lambda>s. if \<not> attr_persistent K (sr_Attributes s) \<and> attr_class K (sr_Attributes s) = ''ram''
     then sr_Quantity s else 0) ss)"

text \<open>What a replica takes of its node, in nano-units, the sidecar of a confidential workload included.\<close>

definition cpu_demand :: "tee_type \<Rightarrow> resources \<Rightarrow> int" where
  "cpu_demand tee r = (case res_CPU r of None \<Rightarrow> 0 | Some c \<Rightarrow> int (cpu_Units c) * 10 ^ 6) +
     (if IsCC tee then int SidecarCPULimitMillicores * 10 ^ 6 else 0)"

definition mem_demand :: "sdk \<Rightarrow> tee_type \<Rightarrow> tee_platform \<Rightarrow> resources \<Rightarrow> int" where
  "mem_demand K tee plat r =
     (int (case res_Memory r of None \<Rightarrow> 0 | Some m \<Rightarrow> m) + int (ram_demand K (res_Storage r)) +
      (if IsCC tee then int (sidecar_memory (RuntimeClassForTEEType tee plat)) else 0)) * 10 ^ 9"

definition node_ok :: "bool \<Rightarrow> node \<Rightarrow> bool" where
  "node_ok wh nd \<longleftrightarrow> well_allocated wh (10 ^ 6) (CPU_Quantity nd) \<and> well_allocated wh (10 ^ 9) (Memory_Quantity nd) \<and>
     well_allocated wh (10 ^ 9) (GPU_Quantity nd) \<and> well_allocated wh (10 ^ 9) (EphemeralStorage nd)"

definition placed_on :: "sdk \<Rightarrow> tee_type \<Rightarrow> tee_platform \<Rightarrow> nat \<Rightarrow> resources \<Rightarrow> cluster \<Rightarrow> cluster \<Rightarrow> bool" where
  "placed_on K tee plat i r cl cl' \<longleftrightarrow> (\<exists>nd' ss.
     cl' = cl\<lparr>Nodes := (Nodes cl)[i := nd'], Storage := ss\<rparr> \<and>
     alloc (CPU_Quantity nd') = alloc (CPU_Quantity (Nodes cl ! i)) + cpu_demand tee r \<and>
     alloc (Memory_Quantity nd') = alloc (Memory_Quantity (Nodes cl ! i)) + mem_demand K tee plat r \<and>
     (\<forall>wh. node_ok wh (Nodes cl ! i) \<longrightarrow> node_ok wh nd'))"

lemma same_request_refl [simp]: "same_request r r"
  by (simp add: same_request_def)

lemma same_request_trans: "same_request a b \<Longrightarrow> same_request b c \<Longrightarrow> same_request a c"
  by (simp add: same_request_def)

lemma same_request_gpu: "res_GPU r = Some g \<Longrightarrow> gpu_Units g' = gpu_Units g \<Longrightarrow> same_request r (r\<lparr>res_GPU := Some g'\<rparr>)"
  by (simp add: same_request_def)

lemma same_request_fields:
  assumes "same_request r r'"
  shows "res_CPU r' = res_CPU r" "res_Memory r' = res_Memory r" "res_Storage r' = res_Storage r"
    "res_ID r' = res_ID r" "res_Endpoints r' = res_Endpoints r"
  using assms by (cases r; cases r'; simp add: same_request_def)+

lemma demand_same:
  "same_request r r' \<Longrightarrow> cpu_demand tee r' = cpu_demand tee r"
  "same_request r r' \<Longrightarrow> mem_demand K tee plat r' = mem_demand K tee plat r"
  by (simp_all add: cpu_demand_def mem_demand_def same_request_fields)

lemma sub_nlz_law:
  assumes "sdk_laws K" and "sub_nlz K rp v = Some rp'"
  shows "alloc rp' = alloc rp + int v * 10 ^ 9" "well_allocated wh (10 ^ 9) rp \<Longrightarrow> well_allocated wh (10 ^ 9) rp'"
  using assms sub_law_allocated[of _ _ rp v rp'] by (auto simp: sdk_laws_def sub_law_def)

lemma sub_milli_law:
  assumes "sdk_laws K" and "sub_milli_nlz K rp v = Some rp'"
  shows "alloc rp' = alloc rp + int v * 10 ^ 6" "well_allocated wh (10 ^ 6) rp \<Longrightarrow> well_allocated wh (10 ^ 6) rp'"
  using assms sub_law_allocated[of _ _ rp v rp'] by (auto simp: sdk_laws_def sub_law_def)

lemma try_storage_law:
  assumes "sdk_laws K" and "try_storage K nd cls ss = Inr (nd', cls')"
  shows "CPU_Quantity nd' = CPU_Quantity nd \<and>
    alloc (Memory_Quantity nd') = alloc (Memory_Quantity nd) + int (ram_demand K ss) * 10 ^ 9 \<and>
    (node_ok wh nd \<longrightarrow> node_ok wh nd')"
  using assms(2)
proof (induction ss arbitrary: nd cls)
  case (Cons s ss)
  then obtain a where p: "ParseStorageAttributes K (sr_Attributes s) = Inr a"
    and a: "Persistent a = attr_persistent K (sr_Attributes s)" "sa_Class a = attr_class K (sr_Attributes s)"
    by (auto simp: ParseStorageAttributes_def Let_def split: sum.splits if_splits)
  note l = sub_nlz_law[OF assms(1)]
  show ?case
  proof (cases "Persistent a")
    case True
    then obtain cls1 where "try_storage K nd cls1 ss = Inr (nd', cls')"
      using Cons.prems p by (auto split: if_splits option.splits)
    from Cons.IH[OF this] True a show ?thesis by (simp add: ram_demand_def)
  next
    case eph: False
    show ?thesis
    proof (cases "sa_Class a = ''ram''")
      case True
      then obtain rp where r: "sub_nlz K (Memory_Quantity nd) (sr_Quantity s) = Some rp"
        and t: "try_storage K (nd\<lparr>Memory_Quantity := rp\<rparr>) cls ss = Inr (nd', cls')"
        using Cons.prems p eph by (auto split: option.splits)
      from Cons.IH[OF t] l[OF r] show ?thesis
        using True eph a by (simp add: ram_demand_def node_ok_def algebra_simps)
    next
      case False
      then obtain rp where r: "sub_nlz K (EphemeralStorage nd) (sr_Quantity s) = Some rp"
        and t: "try_storage K (nd\<lparr>EphemeralStorage := rp\<rparr>) cls ss = Inr (nd', cls')"
        using Cons.prems p eph by (auto simp: tryAdjustEphemeralStorage_def split: option.splits)
      from Cons.IH[OF t] l[OF r] show ?thesis
        using False a by (simp add: ram_demand_def node_ok_def)
    qed
  qed
qed (simp add: ram_demand_def)

lemma try_storage_Inl: "try_storage K nd cls ss = Inl f \<Longrightarrow> f = NodeUnfit \<or> f = ClusterUnfit"
  by (induction K nd cls ss rule: try_storage.induct) (auto split: sum.splits if_splits option.splits)

lemma try_sidecar_law:
  assumes "sdk_laws K" and "try_sidecar K nd sp tee plat = Some (nd', sp')"
    and "IsCC tee \<longrightarrow> RuntimeClass sp \<in> {[], RuntimeClassForTEEType tee plat}"
  shows "alloc (CPU_Quantity nd') = alloc (CPU_Quantity nd) + (if IsCC tee then int SidecarCPULimitMillicores * 10 ^ 6 else 0) \<and>
    alloc (Memory_Quantity nd') = alloc (Memory_Quantity nd) +
      (if IsCC tee then int (sidecar_memory (RuntimeClassForTEEType tee plat)) * 10 ^ 9 else 0) \<and>
    (node_ok wh nd \<longrightarrow> node_ok wh nd')"
proof (cases "IsCC tee")
  case True
  define sp1 where "sp1 = (if RuntimeClass sp = [] then sp\<lparr>RuntimeClass := RuntimeClassForTEEType tee plat\<rparr> else sp)"
  have rc: "RuntimeClass sp1 = RuntimeClassForTEEType tee plat" using assms(3) True by (auto simp: sp1_def)
  from assms(2) True obtain c m where
    c: "sub_milli_nlz K (CPU_Quantity nd) SidecarCPULimitMillicores = Some c"
    and m: "sub_nlz K (Memory_Quantity nd) (sidecar_memory (RuntimeClass sp1)) = Some m"
    and nd': "nd' = nd\<lparr>CPU_Quantity := c, Memory_Quantity := m\<rparr>"
    by (auto simp: try_sidecar_def Let_def sp1_def split: option.splits)
  show ?thesis
    using sub_milli_law[OF assms(1) c] sub_nlz_law[OF assms(1) m] True by (simp add: nd' rc node_ok_def)
next
  case False
  then show ?thesis using assms(2) by (simp add: try_sidecar_def)
qed

lemma try_rest_law:
  assumes K: "sdk_laws K" and t: "try_rest K cl i nd r sp tee plat = (Fits p, cl')"
    and "IsCC tee \<longrightarrow> RuntimeClass sp \<in> {[], RuntimeClassForTEEType tee plat}"
    and cpu: "res_CPU r = Some c" "alloc (CPU_Quantity nd) = alloc (CPU_Quantity (Nodes cl ! i)) + int (cpu_Units c) * 10 ^ 6"
    and mem: "Memory_Quantity nd = Memory_Quantity (Nodes cl ! i)"
    and ok: "\<And>wh. node_ok wh (Nodes cl ! i) \<longrightarrow> node_ok wh nd"
  shows "placed_on K tee plat i r cl cl'"
proof -
  from t obtain m rp nd1 cls nd2 sp2 where m: "res_Memory r = Some m"
    and rp: "sub_nlz K (Memory_Quantity nd) m = Some rp"
    and st: "try_storage K (nd\<lparr>Memory_Quantity := rp\<rparr>) (Storage cl) (res_Storage r) = Inr (nd1, cls)"
    and sc: "try_sidecar K nd1 sp tee plat = Some (nd2, sp2)"
    and cl': "cl' = cl\<lparr>Nodes := (Nodes cl)[i := nd2], Storage := cls\<rparr>"
  proof -
    from t obtain m rp where m: "res_Memory r = Some m" and rp: "sub_nlz K (Memory_Quantity nd) m = Some rp"
      by (auto simp: try_rest_def split: option.splits)
    from t m rp obtain nd1 cls where
      st: "try_storage K (nd\<lparr>Memory_Quantity := rp\<rparr>) (Storage cl) (res_Storage r) = Inr (nd1, cls)"
      by (cases "try_storage K (nd\<lparr>Memory_Quantity := rp\<rparr>) (Storage cl) (res_Storage r)")
        (auto simp: try_rest_def dest: try_storage_Inl)
    from t m rp st obtain nd2 sp2 where sc: "try_sidecar K nd1 sp tee plat = Some (nd2, sp2)"
      by (auto simp: try_rest_def split: option.splits)
    from that[OF m rp st sc] t m rp st sc show thesis by (simp add: try_rest_def)
  qed
  note l = sub_nlz_law[OF K rp] try_storage_law[OF K st] try_sidecar_law[OF K sc assms(3)]
  have "node_ok wh (Nodes cl ! i) \<longrightarrow> node_ok wh nd2" for wh using l ok[of wh] by (auto simp: node_ok_def)
  then show ?thesis
    unfolding placed_on_def using l cpu mem m
    by (intro exI[of _ nd2] exI[of _ cls]) (auto simp: cl' cpu_demand_def mem_demand_def algebra_simps)
qed

lemma adjust_gpu_law:
  assumes "adjust_gpu filt nv K nd g sp tee plat = Some (gq, g', sp')" and "sdk_laws K"
  shows "gpu_Units g' = gpu_Units g" and "well_allocated wh (10 ^ 9) (GPU_Quantity nd) \<Longrightarrow> well_allocated wh (10 ^ 9) gq"
    and "RuntimeClass sp = [] \<Longrightarrow> IsCC tee \<Longrightarrow> RuntimeClass sp' \<in> {[], RuntimeClassForTEEType tee plat}"
proof -
  show "gpu_Units g' = gpu_Units g"
    using assms(1) by (auto simp: adjust_gpu_def Let_def split: if_splits sum.splits option.splits)
  show "well_allocated wh (10 ^ 9) gq" if "well_allocated wh (10 ^ 9) (GPU_Quantity nd)"
  proof (cases "gpu_Units g = 0")
    case True
    then show ?thesis using assms(1) that by (simp add: adjust_gpu_def)
  next
    case False
    then have "sub_nlz K (GPU_Quantity nd) (gpu_Units g) = Some gq"
      using assms(1) by (auto simp: adjust_gpu_def Let_def split: if_splits sum.splits option.splits)
    from sub_nlz_law(2)[OF assms(2) this that] show ?thesis .
  qed
  show "RuntimeClass sp' \<in> {[], RuntimeClassForTEEType tee plat}" if "RuntimeClass sp = []" "IsCC tee"
    using assms(1) that by (auto simp: adjust_gpu_def Let_def split: if_splits sum.splits option.splits)
qed

lemma tryAdjustCPU_sub:
  "tryAdjustCPU K nd c = Some rp \<Longrightarrow> sub_milli_nlz K (CPU_Quantity nd) (cpu_Units c) = Some rp"
  by (auto simp: tryAdjustCPU_def split: if_splits sum.splits list.splits)

lemma try_rest_unfit: "try_rest K cl i nd r sp tee plat = (ft, cl') \<Longrightarrow> (\<forall>p. ft \<noteq> Fits p) \<Longrightarrow> cl' = cl"
  by (auto simp: try_rest_def split: option.splits sum.splits)

lemma interconnect_class:
  "tryAdjustInterconnect K nd r zero_sparams fab req = Some (iq, sp) \<Longrightarrow> RuntimeClass sp = []"
  by (auto simp: tryAdjustInterconnect_def sparams_set_interconnect_def sParamsEnsureResources_def zero_sparams_def
      split: if_splits option.splits)

text \<open>The outcome of a node step: it leaves the state alone, or places one replica on its node.\<close>

definition step_outcome :: "sdk \<Rightarrow> tee_type \<Rightarrow> tee_platform \<Rightarrow> string \<Rightarrow> nat \<Rightarrow> cluster \<times> claims \<Rightarrow> resources \<Rightarrow>
    fit \<times> (cluster \<times> claims) \<times> resources \<Rightarrow> bool" where
  "step_outcome K tee plat grp i st r out = (case out of (ft, st', r') \<Rightarrow>
     same_request r r' \<and>
     (case ft of
        Fits p \<Rightarrow> placed_on K tee plat i r (fst st) (fst st') \<and>
          snd st' = (if grp \<noteq> [] then (grp, i) # snd st else snd st) \<and>
          (grp \<noteq> [] \<longrightarrow> (grp, i) \<notin> set (snd st))
      | _ \<Rightarrow> st' = st))"

lemma step_outcome_unfit:
  "\<forall>p. ft \<noteq> Fits p \<Longrightarrow> same_request r r' \<Longrightarrow> step_outcome K tee plat grp i st r (ft, st, r')"
  by (cases ft) (auto simp: step_outcome_def)

lemma gpu_same_request:
  "adjust_gpu filt nv K nd g sp tee plat = Some (gq, g', sp') \<Longrightarrow> res_GPU r = Some g \<Longrightarrow> sdk_laws K \<Longrightarrow>
   same_request r (r\<lparr>res_GPU := Some g'\<rparr>)"
  by (blast intro: same_request_gpu adjust_gpu_law(1))

lemma gpu_rest_placed:
  assumes K: "sdk_laws K" and c: "res_CPU r = Some c" "tryAdjustCPU K (Nodes cl ! i) c = Some cq"
    and g: "res_GPU r = Some g" and gpu: "adjust_gpu filt nv K (Nodes cl ! i) g sp tee plat = Some (gq, g', sp')"
    and sp: "RuntimeClass sp = []"
    and t: "try_rest K cl i ((Nodes cl ! i)\<lparr>CPU_Quantity := cq, GPUInterconnect := iq, GPU_Quantity := gq\<rparr>)
      (r\<lparr>res_GPU := Some g'\<rparr>) sp' tee plat = (Fits p, cl')"
  shows "placed_on K tee plat i r cl cl'"
proof -
  note gl = adjust_gpu_law[OF gpu K] and cpu = sub_milli_law[OF K tryAdjustCPU_sub[OF c(2)]]
  have "placed_on K tee plat i (r\<lparr>res_GPU := Some g'\<rparr>) cl cl'"
    by (rule try_rest_law[OF K t]) (use c cpu gl(2,3) sp in \<open>auto simp: node_ok_def\<close>)
  then show ?thesis
    using demand_same[OF gpu_same_request[OF gpu g K]] by (simp add: placed_on_def)
qed

lemma kube_step_outcome:
  assumes K: "sdk_laws K"
  shows "step_outcome K tee plat grp i st r (kube_tryAdjust K tee plat fab req grp i st r)"
proof -
  obtain cl cm where st: "st = (cl, cm)" by fastforce
  let ?nd = "Nodes cl ! i"
  consider (guards) "(grp \<noteq> [] \<and> (grp, i) \<in> set cm) \<or> (req \<and> \<not> interconnectCapsSuitable (Capabilities ?nd) fab)"
    | (early) "\<not> ((grp \<noteq> [] \<and> (grp, i) \<in> set cm) \<or> (req \<and> \<not> interconnectCapsSuitable (Capabilities ?nd) fab))"
        "\<nexists>c cq iq sp g gq g' sp'. res_CPU r = Some c \<and> tryAdjustCPU K ?nd c = Some cq \<and>
        tryAdjustInterconnect K ?nd r zero_sparams fab req = Some (iq, sp) \<and> res_GPU r = Some g \<and>
        kube_tryAdjustGPU K ?nd g sp tee plat = Some (gq, g', sp')"
    | (late) c cq iq sp g gq g' sp' where
        "\<not> ((grp \<noteq> [] \<and> (grp, i) \<in> set cm) \<or> (req \<and> \<not> interconnectCapsSuitable (Capabilities ?nd) fab))"
        "res_CPU r = Some c" "tryAdjustCPU K ?nd c = Some cq"
        "tryAdjustInterconnect K ?nd r zero_sparams fab req = Some (iq, sp)" "res_GPU r = Some g"
        "kube_tryAdjustGPU K ?nd g sp tee plat = Some (gq, g', sp')"
    by blast
  then show ?thesis
  proof cases
    case guards
    then show ?thesis by (auto simp: kube_tryAdjust_def st Let_def intro: step_outcome_unfit)
  next
    case early
    then show ?thesis
      by (auto simp: kube_tryAdjust_def st Let_def intro: step_outcome_unfit split: option.splits)
  next
    case late
    note gpu = late(6)[unfolded kube_tryAdjustGPU_def]
    let ?r = "r\<lparr>res_GPU := Some g'\<rparr>"
    obtain ft cl' where t: "try_rest K cl i (?nd\<lparr>CPU_Quantity := cq, GPUInterconnect := iq, GPU_Quantity := gq\<rparr>) ?r sp' tee plat = (ft, cl')"
      by fastforce
    have out: "kube_tryAdjust K tee plat fab req grp i st r =
        (case ft of Fits p \<Rightarrow> (Fits p, (cl', if grp \<noteq> [] then (grp, i) # cm else cm), ?r) | _ \<Rightarrow> (ft, st, ?r))"
      using late t by (auto simp: kube_tryAdjust_def st Let_def split: fit.splits)
    note same = gpu_same_request[OF gpu late(5) K]
    show ?thesis
    proof (cases ft)
      case (Fits p)
      then have "placed_on K tee plat i r cl cl'"
        using gpu_rest_placed[OF K late(2,3,5) gpu interconnect_class[OF late(4)]] t by blast
      then show ?thesis unfolding out using late(1) same by (auto simp: Fits step_outcome_def st)
    qed (unfold out, simp_all add: step_outcome_unfit same)
  qed
qed

lemma null_step_outcome:
  assumes K: "sdk_laws K"
  shows "step_outcome K tee plat [] i st r (null_tryAdjust K tee plat i st r)"
proof -
  obtain cl cm where st: "st = (cl, cm)" by fastforce
  let ?nd = "Nodes cl ! i"
  consider (early) "\<nexists>c cq g gq g' sp'. res_CPU r = Some c \<and> tryAdjustCPU K ?nd c = Some cq \<and> res_GPU r = Some g \<and>
        null_tryAdjustGPU K ?nd g zero_sparams tee plat = Some (gq, g', sp')"
    | (late) c cq g gq g' sp' where "res_CPU r = Some c" "tryAdjustCPU K ?nd c = Some cq" "res_GPU r = Some g"
        "null_tryAdjustGPU K ?nd g zero_sparams tee plat = Some (gq, g', sp')"
    by blast
  then show ?thesis
  proof cases
    case early
    then show ?thesis
      by (auto simp: null_tryAdjust_def st Let_def intro: step_outcome_unfit split: option.splits)
  next
    case late
    note gpu = late(4)[unfolded null_tryAdjustGPU_def]
    let ?r = "r\<lparr>res_GPU := Some g'\<rparr>"
    have nd: "?nd\<lparr>CPU_Quantity := cq, GPU_Quantity := gq\<rparr> =
        ?nd\<lparr>CPU_Quantity := cq, GPUInterconnect := GPUInterconnect ?nd, GPU_Quantity := gq\<rparr>" by simp
    obtain ft cl' where t: "try_rest K cl i (?nd\<lparr>CPU_Quantity := cq, GPU_Quantity := gq\<rparr>) ?r sp' tee plat = (ft, cl')"
      by fastforce
    have out: "null_tryAdjust K tee plat i st r =
        (case ft of Fits p \<Rightarrow> (Fits p, (cl', cm), ?r) | _ \<Rightarrow> (ft, st, ?r))"
      using late t by (auto simp: null_tryAdjust_def st Let_def split: fit.splits)
    note same = gpu_same_request[OF gpu late(3) K]
    show ?thesis
    proof (cases ft)
      case (Fits p)
      have "RuntimeClass zero_sparams = []" by (simp add: zero_sparams_def)
      from gpu_rest_placed[OF K late(1-3) gpu this t[unfolded nd Fits]] have "placed_on K tee plat i r cl cl'" .
      then show ?thesis unfolding out using same by (simp add: Fits step_outcome_def st)
    qed (unfold out, simp_all add: step_outcome_unfit same)
  qed
qed

section \<open>What the whole loop does\<close>

definition cpu_total :: "cluster \<Rightarrow> int" where
  "cpu_total cl = (\<Sum>nd \<leftarrow> Nodes cl. alloc (CPU_Quantity nd))"

definition mem_total :: "cluster \<Rightarrow> int" where
  "mem_total cl = (\<Sum>nd \<leftarrow> Nodes cl. alloc (Memory_Quantity nd))"

definition nodes_ok :: "bool \<Rightarrow> cluster \<Rightarrow> bool" where
  "nodes_ok wh cl = (\<forall>nd \<in> set (Nodes cl). node_ok wh nd)"

lemma placed_on_totals:
  assumes "placed_on K tee plat i r cl cl'" and "i < length (Nodes cl)"
  shows "length (Nodes cl') = length (Nodes cl) \<and> cpu_total cl' = cpu_total cl + cpu_demand tee r \<and>
    mem_total cl' = mem_total cl + mem_demand K tee plat r \<and> (nodes_ok wh cl \<longrightarrow> nodes_ok wh cl')"
  using assms
  by (auto simp: placed_on_def cpu_total_def mem_total_def nodes_ok_def sum_list_map_update
      dest!: set_update_subset_insert[THEN subsetD] intro: nth_mem)

text \<open>A step with the outcomes above adds its demand to each of the totals.\<close>

lemma outcome_laws:
  assumes out: "\<And>nd st r. step_outcome K tee plat grp nd st r (step nd st r)"
  shows "step_law (\<lambda>st. length (Nodes (fst st)) = N) {..<N} step (\<lambda>st. cpu_total (fst st)) (cpu_demand tee)"
    and "step_law (\<lambda>st. length (Nodes (fst st)) = N) {..<N} step (\<lambda>st. mem_total (fst st)) (mem_demand K tee plat)"
    and "step_law (\<lambda>st. length (Nodes (fst st)) = N \<and> nodes_ok wh (fst st)) {..<N} step (\<lambda>_. 0) (\<lambda>_. 0)"
    and "step_law (\<lambda>st. distinct (snd st)) {..<N} step
      (\<lambda>st. int (length (filter (\<lambda>c. fst c = g) (snd st)))) (\<lambda>_. if grp = g \<and> g \<noteq> [] then 1 else 0)"
    and "step_law (\<lambda>st. set (snd st) \<subseteq> UNIV \<times> {..<N}) {..<N} step (\<lambda>_. 0) (\<lambda>_. 0)"
proof -
  have cs: "case step nd st r of (ft, st', r') \<Rightarrow> same_request r r' \<and>
      (case ft of Fits p \<Rightarrow> placed_on K tee plat nd r (fst st) (fst st') \<and>
          snd st' = (if grp \<noteq> [] then (grp, nd) # snd st else snd st) \<and> (grp \<noteq> [] \<longrightarrow> (grp, nd) \<notin> set (snd st))
        | _ \<Rightarrow> st' = st)" for nd st r
    using out[where nd = nd and st = st and r = r] by (simp add: step_outcome_def)
  have inv: "\<exists>ft st' r'. step nd st r = (ft, st', r') \<and> same_request r r' \<and>
      ((\<exists>p. ft = Fits p \<and> placed_on K tee plat nd r (fst st) (fst st') \<and>
          snd st' = (if grp \<noteq> [] then (grp, nd) # snd st else snd st) \<and> (grp \<noteq> [] \<longrightarrow> (grp, nd) \<notin> set (snd st))) \<or>
       ((\<forall>p. ft \<noteq> Fits p) \<and> st' = st))" for nd st r
    using cs[where nd = nd and st = st and r = r] by (auto split: prod.splits fit.splits)
  show "step_law (\<lambda>st. length (Nodes (fst st)) = N) {..<N} step (\<lambda>st. cpu_total (fst st)) (cpu_demand tee)"
    unfolding step_law_def
  proof (intro ballI allI impI)
    fix nd r and st :: "cluster \<times> claims" assume "nd \<in> {..<N}" "length (Nodes (fst st)) = N"
    with inv[where nd = nd and st = st and r = r] show "case step nd st r of (ft, st', r') \<Rightarrow> length (Nodes (fst st')) = N \<and>
        cpu_demand tee r' = cpu_demand tee r \<and>
        cpu_total (fst st') = cpu_total (fst st) + (case ft of Fits _ \<Rightarrow> cpu_demand tee r | _ \<Rightarrow> 0)"
      by (auto simp: demand_same dest: placed_on_totals split: fit.splits)
  qed
  show "step_law (\<lambda>st. length (Nodes (fst st)) = N) {..<N} step (\<lambda>st. mem_total (fst st)) (mem_demand K tee plat)"
    unfolding step_law_def
  proof (intro ballI allI impI)
    fix nd r and st :: "cluster \<times> claims" assume "nd \<in> {..<N}" "length (Nodes (fst st)) = N"
    with inv[where nd = nd and st = st and r = r] show "case step nd st r of (ft, st', r') \<Rightarrow> length (Nodes (fst st')) = N \<and>
        mem_demand K tee plat r' = mem_demand K tee plat r \<and>
        mem_total (fst st') = mem_total (fst st) + (case ft of Fits _ \<Rightarrow> mem_demand K tee plat r | _ \<Rightarrow> 0)"
      by (auto simp: demand_same dest: placed_on_totals split: fit.splits)
  qed
  show "step_law (\<lambda>st. length (Nodes (fst st)) = N \<and> nodes_ok wh (fst st)) {..<N} step (\<lambda>_. 0) (\<lambda>_. 0)"
    unfolding step_law_def
  proof (intro ballI allI impI)
    fix nd r and st :: "cluster \<times> claims" assume "nd \<in> {..<N}" "length (Nodes (fst st)) = N \<and> nodes_ok wh (fst st)"
    with inv[where nd = nd and st = st and r = r] show "case step nd st r of (ft, st', r') \<Rightarrow>
        (length (Nodes (fst st')) = N \<and> nodes_ok wh (fst st')) \<and> (0::int) = 0 \<and> (0::int) = 0 + (case ft of Fits _ \<Rightarrow> 0 | _ \<Rightarrow> 0)"
      by (auto dest: placed_on_totals split: fit.splits)
  qed
  show "step_law (\<lambda>st. distinct (snd st)) {..<N} step
      (\<lambda>st. int (length (filter (\<lambda>c. fst c = g) (snd st)))) (\<lambda>_. if grp = g \<and> g \<noteq> [] then 1 else 0)"
    unfolding step_law_def
  proof (intro ballI allI impI)
    fix nd r and st :: "cluster \<times> claims" assume "nd \<in> {..<N}" "distinct (snd st)"
    with inv[where nd = nd and st = st and r = r] show "case step nd st r of (ft, st', r') \<Rightarrow> distinct (snd st') \<and>
        (if grp = g \<and> g \<noteq> [] then 1 else 0 :: int) = (if grp = g \<and> g \<noteq> [] then 1 else 0) \<and>
        int (length (filter (\<lambda>c. fst c = g) (snd st'))) = int (length (filter (\<lambda>c. fst c = g) (snd st))) +
          (case ft of Fits _ \<Rightarrow> if grp = g \<and> g \<noteq> [] then 1 else 0 | _ \<Rightarrow> 0)"
      by (auto split: fit.splits)
  qed
  show "step_law (\<lambda>st. set (snd st) \<subseteq> UNIV \<times> {..<N}) {..<N} step (\<lambda>_. 0) (\<lambda>_. 0)"
    unfolding step_law_def
  proof (intro ballI allI impI)
    fix nd r and st :: "cluster \<times> claims" assume "nd \<in> {..<N}" "set (snd st) \<subseteq> UNIV \<times> {..<N}"
    with inv[where nd = nd and st = st and r = r] show "case step nd st r of (ft, st', r') \<Rightarrow>
        set (snd st') \<subseteq> UNIV \<times> {..<N} \<and> (0::int) = 0 \<and> (0::int) = 0 + (case ft of Fits _ \<Rightarrow> 0 | _ \<Rightarrow> 0)"
      by (auto split: fit.splits if_splits)
  qed
qed

lemma sum_units:
  "(\<Sum>g < length us. int (ru_Count (us ! g)) * d (ru_Resources (us ! g))) =
   (\<Sum>u \<leftarrow> us. int (ru_Count u) * d (ru_Resources u))"
  by (simp add: sum_list_sum_nth atLeast0LessThan)

lemma place_groups_totals:
  assumes out: "\<And>g nd st r. step_outcome K tee plat (grp g) nd st r (step g nd st r)"
    and p: "place_groups step [0..<length (Nodes cl)] us (length us) us [] (cl, []) = Inr (adj, cp, cl', cm)"
  shows "cpu_total cl' = cpu_total cl + (\<Sum>u \<leftarrow> us. int (ru_Count u) * cpu_demand tee (ru_Resources u))"
    and "mem_total cl' = mem_total cl + (\<Sum>u \<leftarrow> us. int (ru_Count u) * mem_demand K tee plat (ru_Resources u))"
    and "nodes_ok wh cl \<Longrightarrow> nodes_ok wh cl'"
    and "distinct cm" and "set cm \<subseteq> UNIV \<times> {..<length (Nodes cl)}"
    and "h \<noteq> [] \<Longrightarrow> int (length (filter (\<lambda>c. fst c = h) cm)) = (\<Sum>g < length us. if grp g = h then int (ru_Count (us ! g)) else 0)"
proof -
  have ns: "set [0..<length (Nodes cl)] = {..<length (Nodes cl)}" by auto
  note laws = outcome_laws[OF out, where N = "length (Nodes cl)", folded ns]
  show "cpu_total cl' = cpu_total cl + (\<Sum>u \<leftarrow> us. int (ru_Count u) * cpu_demand tee (ru_Resources u))"
    using place_groups_law[OF laws(1) _ p] by (simp flip: sum_units)
  show "mem_total cl' = mem_total cl + (\<Sum>u \<leftarrow> us. int (ru_Count u) * mem_demand K tee plat (ru_Resources u))"
    using place_groups_law[OF laws(2) _ p] by (simp flip: sum_units)
  show "nodes_ok wh cl'" if "nodes_ok wh cl" using place_groups_law[OF laws(3) _ p] that by simp
  show "distinct cm" using place_groups_law[OF laws(4) _ p] by simp
  show "set cm \<subseteq> UNIV \<times> {..<length (Nodes cl)}" using place_groups_law[OF laws(5) _ p] by (simp add: atLeast0LessThan)
  show "int (length (filter (\<lambda>c. fst c = h) cm)) = (\<Sum>g < length us. if grp g = h then int (ru_Count (us ! g)) else 0)"
    if "h \<noteq> []"
    using place_groups_law[OF laws(4)[where g = h] _ p] that by (simp add: if_distrib cong: if_cong)
qed

lemma place_groups_units:
  assumes "\<And>g nd st r ft st' r'. step g nd st r = (ft, st', r') \<Longrightarrow> R r r'" and "\<And>r. R r r"
    and trans: "\<And>a b c. R a b \<Longrightarrow> R b c \<Longrightarrow> R a c"
    and "place_groups step ns orig k adj cp st = Inr (adj', cp', st')"
  shows "list_all2 (\<lambda>u v. ru_Count v = ru_Count u \<and> R (ru_Resources u) (ru_Resources v)) adj adj'"
proof -
  have fill: "R a a'" if "fill_node (step g nd) ag base a n cp st = (ex, a', n', cp', st')" for g nd ag base a n cp st ex a' n' cp' st'
    using that
  proof (induction n arbitrary: a cp st)
    case (Suc n)
    obtain ft st1 a1 where s: "step g nd st a = (ft, st1, a1)" by (metis prod_cases3)
    with assms(1) have r: "R a a1" .
    show ?case
      using Suc.prems s r Suc.IH[of a1] trans[OF r] by (auto split: fit.splits if_splits)
  qed (simp add: assms(2))
  have walk: "R a a'" if "walk_nodes (step g) oc ns a n cp st = Inr (a', cp', st')" for g oc ns a n cp st a' cp' st'
    using that
  proof (induction ns arbitrary: a n cp st)
    case (Cons nd ns)
    obtain ex a1 n1 cp1 st1 where f: "fill_node (step g nd) (oc \<noteq> n) a a n cp st = (ex, a1, n1, cp1, st1)"
      by (metis prod_cases5)
    show ?case
      using Cons.prems f fill[OF f] Cons.IH trans assms(2)
      by (fastforce simp: Let_def split: placement_exit.splits option.splits if_splits)
  qed simp
  show ?thesis
    using assms(4)
  proof (induction k arbitrary: adj cp st)
    case 0
    then show ?case by (simp add: list.rel_refl assms(2))
  next
    case (Suc k)
    from Suc.prems obtain a1 cp1 st1 where
      w: "walk_nodes (step k) (ru_Count (orig ! k)) ns (ru_Resources (adj ! k)) (ru_Count (orig ! k)) cp st = Inr (a1, cp1, st1)"
      and p: "place_groups step ns orig k (adj[k := (adj ! k)\<lparr>ru_Resources := a1\<rparr>]) cp1 st1 = Inr (adj', cp', st')"
      by (auto split: sum.splits)
    have upd: "list_all2 (\<lambda>u v. ru_Count v = ru_Count u \<and> R (ru_Resources u) (ru_Resources v))
        adj (adj[k := (adj ! k)\<lparr>ru_Resources := a1\<rparr>])"
      by (cases "k < length adj") (auto simp: list_all2_conv_all_nth nth_list_update assms(2) walk[OF w])
    show ?case
      by (rule list_all2_trans[OF _ upd Suc.IH[OF p]]) (auto intro: trans)
  qed
qed

section \<open>The contract of an inventory\<close>

text \<open>
  \<open>ctypes.Inventory\<close> as its clients use it: a failed or a dry-run adjustment leaves the
  inventory as it was, a failed one the reservation too, the requested resources are never
  touched, and a success allocates the requested number of replicas of every unit.
\<close>

locale inventory_contract =
  fixes adjust :: "'i \<Rightarrow> reservation_group \<Rightarrow> inventory_option list \<Rightarrow> 'i \<times> reservation_group \<times> (adjust_error + unit)"
  assumes adjust_error: "adjust iv r os = (iv', r', Inl e) \<Longrightarrow> iv' = iv \<and> r' = r"
    and adjust_dry: "adjust iv r os = (iv', r', x) \<Longrightarrow> DryRun (options_of os) \<Longrightarrow> iv' = iv"
    and adjust_resources: "adjust iv r os = (iv', r', x) \<Longrightarrow> rg_resources r' = rg_resources r"
    and adjust_counts: "adjust iv r os = (iv', r', Inr u) \<Longrightarrow>
      map ru_Count (rg_allocated_resources r') = map ru_Count (GetResourceUnits (rg_resources r))"
begin

text \<open>Probing any number of reservations with \<open>WithDryRun\<close> changes no inventory.\<close>

lemma probe_keeps:
  "\<forall>(r, os) \<in> set rs. DryRun (options_of os) \<Longrightarrow> fold (\<lambda>(r, os) iv. fst (adjust iv r os)) rs iv = iv"
proof (induction rs)
  case (Cons x rs)
  obtain r os where x: "x = (r, os)" by fastforce
  then have "fst (adjust iv r os) = iv"
    using Cons.prems adjust_dry[of iv r os] by (cases "adjust iv r os") auto
  then show ?case using Cons x by auto
qed simp

lemma adjust_twice_failed:
  "adjust iv r os = (iv', r', Inl e) \<Longrightarrow> adjust iv' r' os = (iv', r', Inl e)"
  using adjust_error by fastforce

end

lemma place_groups_counts:
  "place_groups step ns orig k adj cp st = Inr (adj', cp', st') \<Longrightarrow> map ru_Count adj' = map ru_Count adj"
  using place_groups_units[where R = "\<lambda>_ _. True", of step ns orig k adj cp st adj' cp' st']
  by (auto simp: list_all2_conv_all_nth intro: nth_equalityI)

lemmas adjust_defs = kube_Adjust_def null_Adjust_def Let_def SetClusterParams_def SetAllocatedResources_def

interpretation kube: inventory_contract "kube_Adjust K"
proof
  fix iv r os iv' r' e assume "kube_Adjust K iv r os = (iv', r', Inl e)"
  then show "iv' = iv \<and> r' = r" by (auto simp: adjust_defs split: option.splits sum.splits)
next
  fix iv r os iv' r' x assume "kube_Adjust K iv r os = (iv', r', x)"
  then show "DryRun (options_of os) \<Longrightarrow> iv' = iv" and "rg_resources r' = rg_resources r"
    by (auto simp: adjust_defs split: option.splits sum.splits)
next
  fix iv r os iv' r' u assume "kube_Adjust K iv r os = (iv', r', Inr u)"
  then show "map ru_Count (rg_allocated_resources r') = map ru_Count (GetResourceUnits (rg_resources r))"
    by (auto simp: adjust_defs split: option.splits sum.splits dest!: place_groups_counts)
qed

interpretation null: inventory_contract "null_Adjust K"
proof
  fix iv r os iv' r' e assume "null_Adjust K iv r os = (iv', r', Inl e)"
  then show "iv' = iv \<and> r' = r" by (auto simp: adjust_defs split: sum.splits)
next
  fix iv r os iv' r' x assume "null_Adjust K iv r os = (iv', r', x)"
  then show "DryRun (options_of os) \<Longrightarrow> iv' = iv" and "rg_resources r' = rg_resources r"
    by (auto simp: adjust_defs split: sum.splits)
next
  fix iv r os iv' r' u assume "null_Adjust K iv r os = (iv', r', Inr u)"
  then show "map ru_Count (rg_allocated_resources r') = map ru_Count (GetResourceUnits (rg_resources r))"
    by (auto simp: adjust_defs split: sum.splits dest!: place_groups_counts)
qed

end
