(* ===== verification/Inventories.thy ===== *)
theory Inventories
  imports Placement
begin

text \<open>
  Properties of the two inventories of \<open>Placement\<close>: what a successful adjustment allocates,
  how interconnect groups are spread over nodes, what it returns in the reservation, and an
  order dependence of the search.
\<close>

section \<open>A concrete SDK and cluster\<close>

definition sub_units :: "int \<Rightarrow> resource_pair \<Rightarrow> nat \<Rightarrow> resource_pair option" where
  "sub_units u rp v = (let a = alloc rp + int v * u in
     if a \<le> allocatable rp then Some (rp\<lparr>Allocated := Some a\<rparr>) else None)"

definition ex_sdk :: sdk where
  "ex_sdk = \<lparr>sub_nlz = sub_units (10 ^ 9), sub_milli_nlz = sub_units (10 ^ 6),
     available = (\<lambda>rp. allocatable rp - alloc rp),
     quantity_value = (\<lambda>q. (q + (10 ^ 9 - 1)) div 10 ^ 9), quantity_milli = (\<lambda>q. (q + (10 ^ 6 - 1)) div 10 ^ 6),
     storage_class_supported = (\<lambda>nd c. c \<in> set (StorageClasses (Capabilities nd))),
     gpu_ram = Some, attr_persistent = (\<lambda>as. \<lparr>attr_Key = ''persistent'', attr_Value = ''true''\<rparr> \<in> set as),
     attr_class = (\<lambda>as. case find (\<lambda>a. attr_Key a = ''class'') as of None \<Rightarrow> [] | Some a \<Rightarrow> attr_Value a),
     valid_label = (\<lambda>_. True)\<rparr>"

lemma sub_units_law: "0 < u \<Longrightarrow> sub_law u (sub_units u)"
  by (auto simp: sub_law_def sub_units_def Let_def alloc_def allocatable_def split: if_splits)

lemma ex_sdk_laws: "sdk_laws ex_sdk"
  by (simp add: sdk_laws_def ex_sdk_def sub_units_law)

definition ex_pair :: "int \<Rightarrow> resource_pair" where
  "ex_pair q = \<lparr>Capacity = Some q, Allocatable = Some q, Allocated = Some 0\<rparr>"

text \<open>A node with ten cores, \<open>mem\<close> bytes, one GPU of the given model and an InfiniBand adapter.\<close>

definition ex_node :: "string \<Rightarrow> nat \<Rightarrow> string \<Rightarrow> node" where
  "ex_node name mem model = \<lparr>node_Name = name, CPU_Quantity = ex_pair (10 * 10 ^ 9), CPU_Info = [],
     Memory_Quantity = ex_pair (int mem * 10 ^ 9), GPU_Quantity = ex_pair (10 ^ 9),
     GPU_Info = [\<lparr>Vendor = ''nvidia'', VendorID = ''10de'', gpu_Name = model, ModelID = ''20b2'', MemorySize = [], Interface = []\<rparr>],
     EphemeralStorage = ex_pair 0, VolumesAttached = ex_pair 0, VolumesMounted = ex_pair 0,
     GPUInterconnect = ex_pair (10 ^ 9),
     Capabilities = \<lparr>StorageClasses = [], InterconnectFabric = ''infiniband'',
       InterconnectResourceName = ''rdma/hca'', NCCLHCAPrefixes = []\<rparr>\<rparr>"

definition ex_unit :: "nat \<Rightarrow> nat \<Rightarrow> nat \<Rightarrow> attributes \<Rightarrow> resource_unit" where
  "ex_unit cnt mem gpus gattrs = \<lparr>ru_Resources = \<lparr>res_ID = 1, res_CPU = Some \<lparr>cpu_Units = 1000, cpu_Attributes = []\<rparr>,
       res_Memory = Some mem, res_GPU = Some \<lparr>gpu_Units = gpus, gpu_Attributes = gattrs\<rparr>,
       res_Storage = [], res_Endpoints = []\<rparr>, ru_Count = cnt\<rparr>"

definition ex_reservation :: "resource_unit list \<Rightarrow> reservation_group" where
  "ex_reservation us = \<lparr>rg_resources = GroupSpecVal ''group'' [] us, rg_allocated_resources = [], rg_cluster_params = NilParams\<rparr>"

definition any_nvidia :: attributes where
  "any_nvidia = [\<lparr>attr_Key = ''vendor/nvidia/model/*'', attr_Value = ''true''\<rparr>]"

definition ex_cluster :: "node list \<Rightarrow> cluster" where
  "ex_cluster nds = \<lparr>Nodes = nds, Storage = []\<rparr>"

definition ex_adjusted :: "node list \<Rightarrow> resource_unit list \<Rightarrow> kube_inventory \<times> reservation_group \<times> (adjust_error + unit)" where
  "ex_adjusted nds us = kube_Adjust ex_sdk (newInventory (ex_cluster nds)) (ex_reservation us) []"

lemma ex_adjusted_ok: "snd (snd (ex_adjusted [ex_node ''big'' 10 ''b''] [ex_unit 2 3 0 []])) = Inr ()"
  by code_simp

lemma adjusted_eq:
  assumes "snd (snd p) = x"
  shows "p = (fst p, fst (snd p), x)"
  using assms by (metis prod.collapse)

lemma ex_adjusted_eq:
  "kube_Adjust ex_sdk (newInventory (ex_cluster [ex_node ''big'' 10 ''b''])) (ex_reservation [ex_unit 2 3 0 []]) [] =
      (fst (ex_adjusted [ex_node ''big'' 10 ''b''] [ex_unit 2 3 0 []]),
       fst (snd (ex_adjusted [ex_node ''big'' 10 ''b''] [ex_unit 2 3 0 []])), Inr ())"
  using adjusted_eq[OF ex_adjusted_ok] by (simp only: ex_adjusted_def)

section \<open>Lemmas\<close>

text \<open>The placement loop as \<open>Adjust\<close> of the Kubernetes inventory starts it.\<close>

definition kube_run :: "sdk \<Rightarrow> inventory_options \<Rightarrow> cluster \<Rightarrow> resource_group \<Rightarrow>
    adjust_error + resource_unit list \<times> cluster_params \<times> cluster \<times> claims" where
  "kube_run K cfg cl rg = (let us = GetResourceUnits rg in
     place_groups (kube_step K cfg (fst (PlacementRequiredFabric rg)) us) [0..<length (Nodes cl)] us (length us) us [] (cl, []))"

lemma kube_Adjust_success:
  assumes "kube_Adjust K iv rsv opts = (iv', rsv', Inr u)"
  shows "\<exists>cp cl cm. kube_run K (options_of opts) (sanitized iv) (rg_resources rsv) = Inr (rg_allocated_resources rsv', cp, cl, cm) \<and>
    iv' = (if DryRun (options_of opts) then iv else iv\<lparr>sanitized := cl\<rparr>)"
  using assms
  by (cases "DryRun (options_of opts)")
    (auto simp: adjust_defs sanitizedDup_def kube_run_def split: option.splits sum.splits)

lemma kube_step_outcome_at:
  "sdk_laws K \<Longrightarrow> step_outcome K (opt_TEEType cfg) (opt_TEEPlatform cfg)
     (fst (ResourceInterconnectGroup (ru_Resources (us ! g)))) nd st r (kube_step K cfg fab us g nd st r)"
  by (auto simp: kube_step_def kube_step_outcome split: prod.splits)

lemma units_with_group:
  "(\<Sum>g < length us. if h (us ! g) then int (ru_Count (us ! g)) else 0) =
   int (\<Sum>u \<leftarrow> us. if h u then ru_Count u else 0)"
  by (simp add: sum_list_sum_nth atLeast0LessThan of_nat_sum[symmetric] if_distrib cong: if_cong)

text \<open>The amounts a node is checked for, each with the unit its requests are counted in:
  thousandths of a core, bytes of memory, GPUs and bytes of ephemeral storage.\<close>

definition node_amounts :: "node \<Rightarrow> (int \<times> resource_pair) list" where
  "node_amounts nd = [(10 ^ 6, CPU_Quantity nd), (10 ^ 9, Memory_Quantity nd), (10 ^ 9, GPU_Quantity nd), (10 ^ 9, EphemeralStorage nd)]"

definition every_amount :: "(int \<Rightarrow> resource_pair \<Rightarrow> bool) \<Rightarrow> cluster \<Rightarrow> bool" where
  "every_amount P cl = list_all (\<lambda>nd. list_all (\<lambda>(u, rp). P u rp) (node_amounts nd)) (Nodes cl)"

definition over_by_less_than_a_unit :: "cluster \<Rightarrow> bool" where
  "over_by_less_than_a_unit = every_amount (\<lambda>u rp. alloc rp < allocatable rp + u)"

definition not_over_allocated :: "cluster \<Rightarrow> bool" where
  "not_over_allocated = every_amount (\<lambda>u rp. alloc rp \<le> allocatable rp)"

definition in_whole_units :: "cluster \<Rightarrow> bool" where
  "in_whole_units = every_amount (\<lambda>u rp. u dvd alloc rp \<and> u dvd allocatable rp)"

lemma nodes_ok_amounts:
  "nodes_ok False cl \<longleftrightarrow> over_by_less_than_a_unit cl"
  "nodes_ok True cl \<longleftrightarrow> in_whole_units cl \<and> not_over_allocated cl"
  by (auto simp: nodes_ok_def node_ok_def well_allocated_def over_by_less_than_a_unit_def in_whole_units_def
      not_over_allocated_def every_amount_def node_amounts_def list_all_iff)

section \<open>Properties\<close>

text \<open>C8: the Kubernetes inventory allocates exactly what is requested. When \<open>Adjust\<close> succeeds
  (and is no dry run), the CPU and the memory allocated over all nodes grow by the sum, over
  the units of the group, of the replicas times the CPU and the memory of one replica
  (memory-backed volumes and the confidential-compute sidecar included), and the raw cluster
  state is not touched. What is available is rounded up to the unit of the request
  (thousandths of a core, bytes, GPUs) when it is compared, so: if no node was over-allocated
  by a unit or more of CPU, memory, GPU or ephemeral storage, none is afterwards; and if no
  node was over-allocated at all and all these amounts were whole numbers of units (no pod
  asked for a fraction of a byte, say), the same holds afterwards.\<close>

theorem kube_adjust_conserves:
  assumes K: "sdk_laws K" and a: "kube_Adjust K iv rsv opts = (iv', rsv', Inr u)"
    and "\<not> DryRun (options_of opts)"
  shows "cpu_total (sanitized iv') = cpu_total (sanitized iv) +
      (\<Sum>u \<leftarrow> GetResourceUnits (rg_resources rsv). int (ru_Count u) * cpu_demand (opt_TEEType (options_of opts)) (ru_Resources u)) \<and>
    mem_total (sanitized iv') = mem_total (sanitized iv) +
      (\<Sum>u \<leftarrow> GetResourceUnits (rg_resources rsv). int (ru_Count u) *
         mem_demand K (opt_TEEType (options_of opts)) (opt_TEEPlatform (options_of opts)) (ru_Resources u)) \<and>
    (over_by_less_than_a_unit (sanitized iv) \<longrightarrow> over_by_less_than_a_unit (sanitized iv')) \<and>
    (in_whole_units (sanitized iv) \<and> not_over_allocated (sanitized iv) \<longrightarrow>
     in_whole_units (sanitized iv') \<and> not_over_allocated (sanitized iv')) \<and>
    inv_Cluster iv' = inv_Cluster iv"
proof -
  from kube_Adjust_success[OF a] assms(3) obtain cp cl cm where
    p: "kube_run K (options_of opts) (sanitized iv) (rg_resources rsv) = Inr (rg_allocated_resources rsv', cp, cl, cm)"
    and iv': "iv' = iv\<lparr>sanitized := cl\<rparr>" by auto
  note t = place_groups_totals[OF kube_step_outcome_at[OF K] p[unfolded kube_run_def Let_def]]
  show ?thesis using t(1,2) t(3)[of False] t(3)[of True] by (simp add: iv' nodes_ok_amounts)
qed

theorem kube_adjust_conserves_witness:
  "mem_total (sanitized (fst (ex_adjusted [ex_node ''big'' 10 ''b''] [ex_unit 2 3 0 []]))) = 6 * 10 ^ 9 \<and>
   not_over_allocated (sanitized (fst (ex_adjusted [ex_node ''big'' 10 ''b''] [ex_unit 2 3 0 []])))"
proof -
  have dry: "\<not> DryRun (options_of [])" by (simp add: options_of_def)
  have m: "mem_total (sanitized (newInventory (ex_cluster [ex_node ''big'' 10 ''b'']))) = 0"
    "(\<Sum>u \<leftarrow> GetResourceUnits (rg_resources (ex_reservation [ex_unit 2 3 0 []])). int (ru_Count u) *
         mem_demand ex_sdk (opt_TEEType (options_of [])) (opt_TEEPlatform (options_of [])) (ru_Resources u)) = 6 * 10 ^ 9"
    by code_simp+
  have "in_whole_units (sanitized (newInventory (ex_cluster [ex_node ''big'' 10 ''b''])))"
    "not_over_allocated (sanitized (newInventory (ex_cluster [ex_node ''big'' 10 ''b''])))" by code_simp+
  then show ?thesis using kube_adjust_conserves[OF ex_sdk_laws ex_adjusted_eq dry] unfolding m by simp
qed

text \<open>the in-memory inventory allocates exactly what is requested, in the same sense.\<close>

theorem null_adjust_conserves:
  assumes K: "sdk_laws K" and a: "null_Adjust K iv rsv opts = (iv', rsv', Inr u)"
    and "\<not> DryRun (options_of opts)"
  shows "cpu_total iv' = cpu_total iv +
      (\<Sum>u \<leftarrow> GetResourceUnits (rg_resources rsv). int (ru_Count u) * cpu_demand (opt_TEEType (options_of opts)) (ru_Resources u)) \<and>
    mem_total iv' = mem_total iv +
      (\<Sum>u \<leftarrow> GetResourceUnits (rg_resources rsv). int (ru_Count u) *
         mem_demand K (opt_TEEType (options_of opts)) (opt_TEEPlatform (options_of opts)) (ru_Resources u)) \<and>
    (over_by_less_than_a_unit iv \<longrightarrow> over_by_less_than_a_unit iv') \<and>
    (in_whole_units iv \<and> not_over_allocated iv \<longrightarrow> in_whole_units iv' \<and> not_over_allocated iv')"
proof -
  from a assms(3) obtain adj cp cm where
    p: "place_groups (null_step K (options_of opts)) [0..<length (Nodes iv)] (GetResourceUnits (rg_resources rsv))
       (length (GetResourceUnits (rg_resources rsv))) (GetResourceUnits (rg_resources rsv)) [] (iv, []) = Inr (adj, cp, iv', cm)"
    by (auto simp: adjust_defs split: sum.splits)
  have out: "step_outcome K (opt_TEEType (options_of opts)) (opt_TEEPlatform (options_of opts)) [] nd st r
      (null_step K (options_of opts) g nd st r)" for g nd st r
    using null_step_outcome[OF K] by (simp add: null_step_def)
  note t = place_groups_totals[OF out p]
  show ?thesis using t(1,2) t(3)[of False] t(3)[of True] by (simp add: nodes_ok_amounts)
qed

theorem null_adjust_conserves_witness:
  "cpu_total (fst (null_Adjust ex_sdk (ex_cluster [ex_node ''n'' 10 ''b'']) (ex_reservation [ex_unit 2 3 0 []]) [])) = 2 * 10 ^ 9"
proof -
  have "snd (snd (null_Adjust ex_sdk (ex_cluster [ex_node ''n'' 10 ''b'']) (ex_reservation [ex_unit 2 3 0 []]) [])) = Inr ()"
    by code_simp
  note eq = adjusted_eq[OF this]
  have dry: "\<not> DryRun (options_of [])" by (simp add: options_of_def)
  have m: "cpu_total (ex_cluster [ex_node ''n'' 10 ''b'']) = 0"
    "(\<Sum>u \<leftarrow> GetResourceUnits (rg_resources (ex_reservation [ex_unit 2 3 0 []])). int (ru_Count u) *
         cpu_demand (opt_TEEType (options_of [])) (ru_Resources u)) = 2 * 10 ^ 9"
    by code_simp+
  show ?thesis using null_adjust_conserves[OF ex_sdk_laws eq dry] unfolding m by simp
qed

text \<open>replicas of one interconnect group land on distinct nodes. When the placement loop of
  the Kubernetes inventory succeeds, the claims it made are distinct pairs of a group and a
  node of the cluster, and every named group has claimed as many nodes as its units have
  replicas; so a group with more replicas than there are nodes is never placed.\<close>

theorem interconnect_groups_separate:
  assumes K: "sdk_laws K" and "h \<noteq> []"
    and p: "kube_run K cfg cl rg = Inr (adj, cp, cl', cm)"
  shows "distinct cm \<and>
    card {nd. (h, nd) \<in> set cm} =
      (\<Sum>u \<leftarrow> GetResourceUnits rg. if fst (ResourceInterconnectGroup (ru_Resources u)) = h then ru_Count u else 0) \<and>
    {nd. (h, nd) \<in> set cm} \<subseteq> {..<length (Nodes cl)}"
proof -
  note t = place_groups_totals[OF kube_step_outcome_at[OF K] p[unfolded kube_run_def Let_def]]
  have d: "distinct (map snd (filter (\<lambda>c. fst c = h) cm))"
    using t(4) by (auto simp: distinct_map inj_on_def)
  have "{nd. (h, nd) \<in> set cm} = set (map snd (filter (\<lambda>c. fst c = h) cm))" by force
  then have "card {nd. (h, nd) \<in> set cm} = length (filter (\<lambda>c. fst c = h) cm)"
    using distinct_card[OF d] by simp
  also have "\<dots> = (\<Sum>u \<leftarrow> GetResourceUnits rg. if fst (ResourceInterconnectGroup (ru_Resources u)) = h then ru_Count u else 0)"
    using t(6)[OF assms(2)]
      units_with_group[of "\<lambda>u. fst (ResourceInterconnectGroup (ru_Resources u)) = h" "GetResourceUnits rg"] by simp
  finally show ?thesis using t(4,5) by auto
qed

definition ic_unit :: resource_unit where
  "ic_unit = ex_unit 2 1 1 (\<lparr>attr_Key = ''interconnect/group'', attr_Value = ''g''\<rparr> # any_nvidia)"

definition ic_cluster :: cluster where
  "ic_cluster = ex_cluster [ex_node ''n0'' 5 ''b'', ex_node ''n1'' 5 ''b'', ex_node ''n2'' 5 ''b'']"

definition ic_run :: "adjust_error + resource_unit list \<times> cluster_params \<times> cluster \<times> claims" where
  "ic_run = kube_run ex_sdk (options_of []) ic_cluster (GroupSpecVal ''group'' [] [ic_unit])"

definition ic_claims :: claims where
  "ic_claims = (case ic_run of Inr (adj, cp, cl, cm) \<Rightarrow> cm | Inl e \<Rightarrow> [])"

theorem interconnect_groups_separate_witness:
  "distinct ic_claims \<and> card {nd. (''g'', nd) \<in> set ic_claims} = 2"
proof -
  have "is_ok ic_run" by code_simp
  then obtain adj cp cl cm where r: "ic_run = Inr (adj, cp, cl, cm)" by (auto simp: is_ok_iff)
  have s: "(\<Sum>u \<leftarrow> GetResourceUnits (GroupSpecVal ''group'' [] [ic_unit]).
      if fst (ResourceInterconnectGroup (ru_Resources u)) = ''g'' then ru_Count u else 0) = 2"
    by code_simp
  have c: "ic_claims = cm" by (simp add: ic_claims_def r)
  show ?thesis
    using interconnect_groups_separate[OF ex_sdk_laws _ r[unfolded ic_run_def], of "''g''"] unfolding s c by blast
qed

text \<open>the allocated resources are the requested ones. After a successful \<open>Adjust\<close> the
  reservation holds one entry per requested unit, with the same count and the same resource
  apart from the GPU attributes, which are narrowed to the chosen model.\<close>

theorem kube_adjust_returns_request:
  assumes K: "sdk_laws K" and a: "kube_Adjust K iv rsv opts = (iv', rsv', Inr u)"
  shows "list_all2 (\<lambda>u v. ru_Count v = ru_Count u \<and> same_request (ru_Resources u) (ru_Resources v))
    (GetResourceUnits (rg_resources rsv)) (rg_allocated_resources rsv')"
proof -
  from kube_Adjust_success[OF a] obtain cp cl cm where
    p: "kube_run K (options_of opts) (sanitized iv) (rg_resources rsv) = Inr (rg_allocated_resources rsv', cp, cl, cm)"
    by auto
  have same: "same_request r r'" if "kube_step K cfg fab us g nd st r = (ft, st', r')" for cfg fab us g nd st r ft st' r'
    using kube_step_outcome_at[OF K, of cfg us g nd st r fab] that by (simp add: step_outcome_def)
  show ?thesis
    by (rule place_groups_units[where R = same_request, OF same _ same_request_trans p[unfolded kube_run_def Let_def]])
      simp_all
qed

theorem kube_adjust_returns_request_witness:
  "list_all2 (\<lambda>u v. ru_Count v = ru_Count u \<and> same_request (ru_Resources u) (ru_Resources v))
    (GetResourceUnits (rg_resources (ex_reservation [ex_unit 2 3 0 []])))
    (rg_allocated_resources (fst (snd (ex_adjusted [ex_node ''big'' 10 ''b''] [ex_unit 2 3 0 []]))))"
  by (rule kube_adjust_returns_request[OF ex_sdk_laws ex_adjusted_eq])

text \<open>probing is free of effects. Adjusting a Kubernetes inventory for any reservations with
  \<open>WithDryRun\<close> among the options leaves its snapshot as it was, as does every failed
  adjustment.\<close>

theorem kube_probe_keeps_snapshot:
  assumes "\<forall>(r, os) \<in> set rs. DryRun (options_of os) \<or> (\<exists>e. snd (snd (kube_Adjust K iv r os)) = Inl e)"
  shows "Snapshot (fold (\<lambda>(r, os) iv. fst (kube_Adjust K iv r os)) rs iv) = Snapshot iv"
proof -
  have "fold (\<lambda>(r, os) iv. fst (kube_Adjust K iv r os)) rs iv = iv"
    using assms
  proof (induction rs)
    case (Cons x rs)
    obtain r os where x: "x = (r, os)" by fastforce
    obtain iv' r' y where a: "kube_Adjust K iv r os = (iv', r', y)" by (metis prod_cases3)
    then have "iv' = iv"
      using Cons.prems x kube.adjust_dry[OF a] kube.adjust_error[of K iv r os iv' r'] by (auto simp: a)
    then show ?case using Cons x a by simp
  qed simp
  then show ?thesis by simp
qed

theorem kube_probe_keeps_snapshot_witness:
  "Snapshot (fold (\<lambda>(r, os) iv. fst (kube_Adjust ex_sdk iv r os)) [(ex_reservation [ex_unit 2 3 0 []], [WithDryRun])]
      (newInventory (ex_cluster [ex_node ''big'' 10 ''b'']))) = Snapshot (newInventory (ex_cluster [ex_node ''big'' 10 ''b'']))"
  by (rule kube_probe_keeps_snapshot) (simp add: options_of_def)

text \<open>the search depends on the order of the nodes. A node that is rejected after its GPU
  step (here: too little memory) has already narrowed the GPU attributes of the request to
  its own model, so a request for any NVIDIA GPU that fits the second node is refused with
  insufficient capacity, although the same request is placed when the nodes are listed the
  other way round.\<close>

theorem rejected_node_narrows_gpu:
  "snd (snd (ex_adjusted [ex_node ''small'' 1 ''a'', ex_node ''big'' 10 ''b''] [ex_unit 1 5 1 any_nvidia])) = Inl ErrInsufficientCapacity \<and>
   snd (snd (ex_adjusted [ex_node ''big'' 10 ''b'', ex_node ''small'' 1 ''a''] [ex_unit 1 5 1 any_nvidia])) = Inr ()"
  by code_simp

end
