(* ===== verification/InventoryService.thy ===== *)
theory InventoryService
  imports Inventories Market
begin

text \<open>
  The inventory service of the cluster (\<open>cluster/inventory.go\<close>, \<open>cluster/reservation.go\<close>):
  the goroutine that owns the reservations, the external ports and the leased IP addresses.
  Its loop is \<open>inventory_run\<close>, one event at a time; the inventory it drives is an argument,
  known only through \<open>inventory_contract\<close>. The state holds the local variables of \<open>run\<close>: the
  current inventory, its copy \<open>currinv\<close>, the one-place channels \<open>invupch\<close> and \<open>signalch\<close>, the
  pending IP check \<open>runch\<close>, and whether \<open>reservech\<close> is set. Metrics and log output are left
  out.
\<close>

section \<open>Reservations\<close>

record reservation =
  r_order :: order_id
  r_group :: reservation_group
  r_endpointQuantity :: u64
  r_allocated :: bool
  r_ipsConfirmed :: bool
  r_teeType :: tee_type

definition newReservation :: "order_id \<Rightarrow> resource_group \<Rightarrow> reservation" where
  "newReservation order rg = \<lparr>r_order = order,
     r_group = \<lparr>rg_resources = rg, rg_allocated_resources = [], rg_cluster_params = NilParams\<rparr>,
     r_endpointQuantity = of_nat (GetEndpointQuantityOfResourceGroup rg Endpoint_LEASED_IP),
     r_allocated = False, r_ipsConfirmed = False, r_teeType = TEETypeNone\<rparr>"

abbreviation r_resources :: "reservation \<Rightarrow> resource_group" where
  "r_resources r \<equiv> rg_resources (r_group r)"

definition unit_ports :: "resource_unit \<Rightarrow> u64" where
  "unit_ports u = of_nat (length (filter (\<lambda>e. ep_Kind e = Endpoint_RANDOM_PORT) (res_Endpoints (ru_Resources u))))"

definition reservationCountEndpoints :: "reservation \<Rightarrow> u64" where
  "reservationCountEndpoints r = sum_list (map unit_ports (GetResourceUnits (r_resources r)))"

section \<open>The state and its environment\<close>

text \<open>
  The commit functions are \<open>sdlutil.ComputeCommittedResources\<close> at the configured levels;
  \<open>env_adjust\<close> is the \<open>Adjust\<close> method of the inventory.
\<close>

record 'i service_env =
  env_adjust :: "'i \<Rightarrow> reservation_group \<Rightarrow> inventory_option list \<Rightarrow> 'i \<times> reservation_group \<times> (adjust_error + unit)"
  commit_cpu :: "nat \<Rightarrow> nat"
  commit_gpu :: "nat \<Rightarrow> nat"
  commit_memory :: "nat \<Rightarrow> nat"
  commit_storage :: "nat \<Rightarrow> nat"
  InventoryExternalPortQuantity :: u64
  env_teePlatform :: tee_platform
  has_ip_client :: bool

record address_usage =
  au_Available :: u64
  au_InUse :: u64

record confirmation_item =
  ci_orderID :: order_id
  expectedQuantity :: u64

record 'i inventory_state =
  s_inventory :: "'i option"
  s_ipAddrUsage :: address_usage
  s_reservations :: "reservation list"
  s_availableExternalPorts :: u64
  s_currinv :: "'i option"
  s_invupch :: "'i option"
  s_runch :: "confirmation_item list option"
  s_reservech :: bool
  s_signalch :: bool

datatype inventory_error =
    errReservationNotFound | errNoLeasedIPsAvailable | errInsufficientIPs u64
  | ErrAdjust adjust_error | ErrInvalidResource string nat | PanicNilInventory

section \<open>Requests\<close>

text \<open>The check \<open>reserve\<close> makes before it sends the request.\<close>

fun reserve_check :: "nat \<Rightarrow> resource_unit list \<Rightarrow> inventory_error option" where
  "reserve_check idx [] = None"
| "reserve_check idx (u # us) =
     (if res_CPU (ru_Resources u) = None then Some (ErrInvalidResource ''CPU'' idx)
      else if res_GPU (ru_Resources u) = None then Some (ErrInvalidResource ''GPU'' idx)
      else if res_Memory (ru_Resources u) = None then Some (ErrInvalidResource ''Memory'' idx)
      else reserve_check (Suc idx) us)"

definition placementRequirements :: "resource_group \<Rightarrow> attributes" where
  "placementRequirements rg =
     (case rg of GroupPtr _ a _ \<Rightarrow> a | GroupVal _ a _ \<Rightarrow> a | GroupSpecPtr _ a _ \<Rightarrow> a
      | GroupSpecVal _ a _ \<Rightarrow> a | OtherGroup _ _ \<Rightarrow> [])"

text \<open>The nil-safe getters of the SDK read a nil resource as the zero one.\<close>

definition commit_resources :: "'i service_env \<Rightarrow> resources \<Rightarrow> resources" where
  "commit_resources E r = \<lparr>
     res_ID = res_ID r,
     res_CPU = Some (case res_CPU r of
         None \<Rightarrow> \<lparr>cpu_Units = commit_cpu E 0, cpu_Attributes = []\<rparr>
       | Some c \<Rightarrow> c\<lparr>cpu_Units := commit_cpu E (cpu_Units c)\<rparr>),
     res_Memory = Some (commit_memory E (case res_Memory r of None \<Rightarrow> 0 | Some m \<Rightarrow> m)),
     res_GPU = Some (case res_GPU r of
         None \<Rightarrow> \<lparr>gpu_Units = commit_gpu E 0, gpu_Attributes = []\<rparr>
       | Some g \<Rightarrow> g\<lparr>gpu_Units := commit_gpu E (gpu_Units g)\<rparr>),
     res_Storage = map (\<lambda>v. v\<lparr>sr_Quantity := commit_storage E (sr_Quantity v)\<rparr>) (res_Storage r),
     res_Endpoints = res_Endpoints r\<rparr>"

definition resourcesToCommit :: "'i service_env \<Rightarrow> resource_group \<Rightarrow> resource_group" where
  "resourcesToCommit E rg =
     GroupSpecVal (GetName rg) (placementRequirements rg)
       (map (\<lambda>u. \<lparr>ru_Resources = commit_resources E (ru_Resources u), ru_Count = ru_Count u\<rparr>) (GetResourceUnits rg))"

definition countReservedIPs :: "reservation list \<Rightarrow> u64" where
  "countReservedIPs rs = fold (\<lambda>r acc. if \<not> r_ipsConfirmed r then acc + r_endpointQuantity r else acc) rs 0"

definition availableLeasedIPs :: "u64 \<Rightarrow> u64 \<Rightarrow> u64 \<Rightarrow> u64" where
  "availableLeasedIPs tot inUse reserved =
     (if inUse \<ge> tot then 0
      else let avail = tot - inUse in
        if reserved \<ge> avail then 0 else avail - reserved)"

fun first_tee_attr :: "attributes \<Rightarrow> tee_type" where
  "first_tee_attr [] = TEETypeNone"
| "first_tee_attr (a # as) =
     (if attr_Key a = ''tee/type'' then
        (case ParseTEEType (attr_Value a) of Inr t \<Rightarrow> t | Inl e \<Rightarrow> first_tee_attr as)
      else first_tee_attr as)"

definition teeTypeFromResourceGroup :: "resource_group \<Rightarrow> tee_type" where
  "teeTypeFromResourceGroup rg =
     (case rg of GroupSpecVal _ a _ \<Rightarrow> first_tee_attr a | GroupSpecPtr _ a _ \<Rightarrow> first_tee_attr a
      | GroupVal _ a _ \<Rightarrow> first_tee_attr a | GroupPtr _ a _ \<Rightarrow> first_tee_attr a
      | OtherGroup _ _ \<Rightarrow> TEETypeNone)"

fun first_tee_sparams :: "scheduler_params option list \<Rightarrow> tee_type" where
  "first_tee_sparams [] = TEETypeNone"
| "first_tee_sparams (sp # sps) =
     (case sp of
        None \<Rightarrow> first_tee_sparams sps
      | Some p \<Rightarrow>
          if sp_TEEType p \<noteq> [] \<and> \<not> AttestationDisabled p then
            (case ParseTEEType (sp_TEEType p) of Inr t \<Rightarrow> t | Inl e \<Rightarrow> first_tee_sparams sps)
          else first_tee_sparams sps)"

definition teeTypeFromClusterParams :: "cluster_params_value \<Rightarrow> tee_type" where
  "teeTypeFromClusterParams cp =
     (case cp of
        ClusterSettingsPtr None \<Rightarrow> TEETypeNone
      | ClusterSettingsPtr (Some sps) \<Rightarrow> first_tee_sparams sps
      | ClusterSettingsVal sps \<Rightarrow> first_tee_sparams sps
      | _ \<Rightarrow> TEETypeNone)"

definition adjustOpts :: "'i service_env \<Rightarrow> tee_type \<Rightarrow> inventory_option list" where
  "adjustOpts E t = WithTEEPlatform (env_teePlatform E) # (if t \<noteq> TEETypeNone then [WithTEEType t] else [])"

text \<open>A deployment found at start-up: its lease, its manifest group and its stored parameters.\<close>

record recovered_deployment =
  d_lease :: lease_id
  d_group :: resource_group
  d_params :: cluster_params_value

definition recovered_reservation :: "recovered_deployment \<Rightarrow> reservation" where
  "recovered_reservation d =
     (let r = newReservation (lease_order_id (d_lease d)) (d_group d) in
      r\<lparr>r_group := SetClusterParams (d_params d) (r_group r), r_teeType := teeTypeFromClusterParams (d_params d)\<rparr>)"

definition newInventoryService :: "'i service_env \<Rightarrow> recovered_deployment list \<Rightarrow> 'i inventory_state" where
  "newInventoryService E ds = \<lparr>s_inventory = None, s_ipAddrUsage = \<lparr>au_Available = 0, au_InUse = 0\<rparr>,
     s_reservations = map recovered_reservation ds, s_availableExternalPorts = InventoryExternalPortQuantity E,
     s_currinv = None, s_invupch = None, s_runch = None, s_reservech = False, s_signalch = False\<rparr>"

definition handleRequest :: "'i service_env \<Rightarrow> 'i inventory_state \<Rightarrow> order_id \<Rightarrow> resource_group \<Rightarrow>
    'i inventory_state \<times> (inventory_error + reservation)" where
  "handleRequest E st order rg =
     (let r0 = newReservation order (resourcesToCommit E rg) in
      if r_endpointQuantity r0 \<noteq> 0 \<and> \<not> has_ip_client E then (st, Inl errNoLeasedIPsAvailable)
      else if r_endpointQuantity r0 \<noteq> 0 \<and>
        r_endpointQuantity r0 > availableLeasedIPs (au_Available (s_ipAddrUsage st)) (au_InUse (s_ipAddrUsage st))
          (countReservedIPs (s_reservations st))
      then (st, Inl (errInsufficientIPs (r_endpointQuantity r0)))
      else
        let r1 = (if r_endpointQuantity r0 \<noteq> 0 then r0 else r0\<lparr>r_ipsConfirmed := True\<rparr>);
            r = r1\<lparr>r_teeType := teeTypeFromResourceGroup rg\<rparr> in
        (case s_inventory st of
           None \<Rightarrow> (st, Inl PanicNilInventory)
         | Some iv \<Rightarrow>
            (case env_adjust E iv (r_group r) (adjustOpts E (r_teeType r)) of
               (iv', grp, Inl e) \<Rightarrow> (st\<lparr>s_inventory := Some iv'\<rparr>, Inl (ErrAdjust e))
             | (iv', grp, Inr u) \<Rightarrow>
                 (let r' = r\<lparr>r_group := grp\<rparr> in
                  (st\<lparr>s_inventory := Some iv', s_reservations := s_reservations st @ [r']\<rparr>, Inr r')))))"

definition matches_group :: "order_id \<Rightarrow> string \<Rightarrow> reservation \<Rightarrow> bool" where
  "matches_group order name r = (r_order r = order \<and> GetName (r_resources r) = name)"

definition handle_lookup :: "'i inventory_state \<Rightarrow> order_id \<Rightarrow> string \<Rightarrow> inventory_error + reservation" where
  "handle_lookup st order name =
     (case find (matches_group order name) (s_reservations st) of
        Some r \<Rightarrow> Inr r | None \<Rightarrow> Inl errReservationNotFound)"

definition handle_unreserve :: "'i inventory_state \<Rightarrow> order_id \<Rightarrow> 'i inventory_state \<times> (inventory_error + reservation)" where
  "handle_unreserve st order =
     (case find (\<lambda>r. r_order r = order) (s_reservations st) of
        None \<Rightarrow> (st, Inl errReservationNotFound)
      | Some r \<Rightarrow>
          (st\<lparr>s_reservations := remove1 r (s_reservations st),
              s_availableExternalPorts := (if r_allocated r then s_availableExternalPorts st + reservationCountEndpoints r
                 else s_availableExternalPorts st)\<rparr>, Inr r))"

section \<open>Leased addresses\<close>

text \<open>
  \<open>runCheck\<close> takes the confirmation items when it is started; the goroutine then asks the IP
  operator: \<open>usage\<close> is \<open>GetIPAddressUsage\<close>, \<open>status\<close> the number of addresses
  \<open>GetIPAddressStatus\<close> reports, each \<open>None\<close> on an error.
\<close>

definition runCheck_items :: "reservation list \<Rightarrow> confirmation_item list" where
  "runCheck_items rs = map (\<lambda>r. \<lparr>ci_orderID = r_order r, expectedQuantity = r_endpointQuantity r\<rparr>)
     (filter (\<lambda>r. \<not> (r_ipsConfirmed r \<or> \<not> r_allocated r)) rs)"

record run_check_result =
  ipResult :: address_usage
  confirmedResult :: "order_id list"

definition runCheck :: "address_usage option \<Rightarrow> (order_id \<Rightarrow> u64 option) \<Rightarrow> confirmation_item list \<Rightarrow> run_check_result option" where
  "runCheck usage status items =
     map_option (\<lambda>u. \<lparr>ipResult = u, confirmedResult =
       map ci_orderID (filter (\<lambda>i. status (ci_orderID i) = Some (expectedQuantity i)) items)\<rparr>) usage"

fun confirm_first :: "order_id \<Rightarrow> reservation list \<Rightarrow> reservation list" where
  "confirm_first order [] = []"
| "confirm_first order (r # rs) =
     (if r_order r = order then r\<lparr>r_ipsConfirmed := True\<rparr> # rs else r # confirm_first order rs)"

definition apply_check :: "'i inventory_state \<Rightarrow> run_check_result option \<Rightarrow> 'i inventory_state" where
  "apply_check st res =
     (case res of
        None \<Rightarrow> st
      | Some c \<Rightarrow> st\<lparr>s_ipAddrUsage := ipResult c,
                     s_reservations := fold confirm_first (confirmedResult c) (s_reservations st)\<rparr>)"

definition updateIPs :: "'i service_env \<Rightarrow> 'i inventory_state \<Rightarrow> 'i inventory_state" where
  "updateIPs E st =
     (if has_ip_client E then
        st\<lparr>s_reservech := False,
           s_runch := (case s_runch st of None \<Rightarrow> Some (runCheck_items (s_reservations st)) | Some c \<Rightarrow> Some c)\<rparr>
      else if \<not> s_reservech st \<and> s_inventory st \<noteq> None then st\<lparr>s_reservech := True\<rparr>
      else st)"

section \<open>Events of the loop\<close>

fun set_allocated :: "order_id \<Rightarrow> string \<Rightarrow> bool \<Rightarrow> reservation list \<Rightarrow> reservation list \<times> reservation option" where
  "set_allocated order name deployed [] = ([], None)"
| "set_allocated order name deployed (r # rs) =
     (if matches_group order name r then
        (r\<lparr>r_allocated := deployed\<rparr> # rs, if r_allocated r \<noteq> deployed then Some r else None)
      else (case set_allocated order name deployed rs of (rs', c) \<Rightarrow> (r # rs', c)))"

definition handle_deployment :: "'i service_env \<Rightarrow> 'i inventory_state \<Rightarrow> order_id \<Rightarrow> string \<Rightarrow> bool \<Rightarrow> 'i inventory_state" where
  "handle_deployment E st order name deployed =
     (case set_allocated order name deployed (s_reservations st) of
        (rs, changed) \<Rightarrow>
          let st1 = st\<lparr>s_reservations := rs\<rparr>;
              st2 = (case changed of
                       None \<Rightarrow> st1
                     | Some r \<Rightarrow> st1\<lparr>
                         s_availableExternalPorts :=
                           (if deployed then s_availableExternalPorts st - reservationCountEndpoints r
                            else s_availableExternalPorts st + reservationCountEndpoints r),
                         s_invupch := (case s_currinv st of
                             None \<Rightarrow> s_invupch st
                           | Some iv \<Rightarrow> (case s_invupch st of None \<Rightarrow> Some iv | Some x \<Rightarrow> Some x))\<rparr>)
          in updateIPs E st2)"

text \<open>The pending reservations, adjusted one after the other on a fresh inventory.\<close>

fun readjust :: "'i service_env \<Rightarrow> 'i \<Rightarrow> reservation list \<Rightarrow> 'i \<times> reservation list" where
  "readjust E iv [] = (iv, [])"
| "readjust E iv (r # rs) =
     (if r_allocated r then (case readjust E iv rs of (iv', rs') \<Rightarrow> (iv', r # rs'))
      else
        (case env_adjust E iv (r_group r) (adjustOpts E (r_teeType r)) of
           (iv1, grp, _) \<Rightarrow> (case readjust E iv1 rs of (iv', rs') \<Rightarrow> (iv', r\<lparr>r_group := grp\<rparr> # rs'))))"

definition handle_inventory :: "'i service_env \<Rightarrow> 'i inventory_state \<Rightarrow> 'i \<Rightarrow> 'i inventory_state" where
  "handle_inventory E st iv =
     (let st1 = updateIPs E (st\<lparr>s_invupch := None, s_currinv := Some iv, s_inventory := Some iv\<rparr>) in
      case readjust E iv (s_reservations st1) of
        (iv', rs) \<Rightarrow> st1\<lparr>s_inventory := Some iv', s_reservations := rs, s_signalch := True\<rparr>)"

datatype 'i inventory_event =
    ShutdownRequest
  | ClusterDeploymentEvent order_id string bool
  | TimerTick
  | ReserveReq order_id resource_group
  | LookupReq order_id string
  | UnreserveReq order_id
  | InventoryUpdate "'i option"
  | InventoryUp
  | CheckDone "address_usage option" "order_id \<Rightarrow> u64 option"
  | SignalStatus

text \<open>
  One turn of the loop. An event whose channel is nil or empty is never received, so it
  leaves the state alone; \<open>None\<close> ends the loop.
\<close>

definition inventory_step :: "'i service_env \<Rightarrow> 'i inventory_state \<Rightarrow> 'i inventory_event \<Rightarrow> 'i inventory_state option" where
  "inventory_step E st ev =
     (case ev of
        ShutdownRequest \<Rightarrow> None
      | ClusterDeploymentEvent order name deployed \<Rightarrow> Some (handle_deployment E st order name deployed)
      | TimerTick \<Rightarrow> Some (updateIPs E st)
      | ReserveReq order rg \<Rightarrow> Some (if s_reservech st then fst (handleRequest E st order rg) else st)
      | LookupReq order name \<Rightarrow> Some st
      | UnreserveReq order \<Rightarrow> Some (fst (handle_unreserve st order))
      | InventoryUpdate None \<Rightarrow> Some st
      | InventoryUpdate (Some iv) \<Rightarrow> Some (st\<lparr>s_invupch := Some iv\<rparr>)
      | InventoryUp \<Rightarrow> Some (case s_invupch st of None \<Rightarrow> st | Some iv \<Rightarrow> handle_inventory E st iv)
      | CheckDone usage status \<Rightarrow>
          Some (case s_runch st of
                  None \<Rightarrow> st
                | Some items \<Rightarrow>
                    (apply_check (st\<lparr>s_runch := None\<rparr>) (runCheck usage status items))\<lparr>s_reservech := True, s_signalch := True\<rparr>)
      | SignalStatus \<Rightarrow> Some (st\<lparr>s_signalch := False\<rparr>))"

definition inventory_run :: "'i service_env \<Rightarrow> recovered_deployment list \<Rightarrow> 'i inventory_event list \<Rightarrow> 'i inventory_state" where
  "inventory_run E ds = run_until (inventory_step E) (newInventoryService E ds)"

section \<open>Lemmas\<close>

definition port_sum :: "reservation list \<Rightarrow> u64" where
  "port_sum rs = sum_list (map (\<lambda>r. if r_allocated r then reservationCountEndpoints r else 0) rs)"

definition ports_inv :: "'i service_env \<Rightarrow> 'i inventory_state \<Rightarrow> bool" where
  "ports_inv E st \<longleftrightarrow> s_availableExternalPorts st + port_sum (s_reservations st) = InventoryExternalPortQuantity E"

lemma port_sum_simps [simp]:
  "port_sum [] = 0" "port_sum (r # rs) = (if r_allocated r then reservationCountEndpoints r else 0) + port_sum rs"
  "port_sum (as @ bs) = port_sum as + port_sum bs"
  by (simp_all add: port_sum_def)

lemma reservationCountEndpoints_cong:
  "rg_resources g = r_resources r \<Longrightarrow> reservationCountEndpoints (r\<lparr>r_group := g\<rparr>) = reservationCountEndpoints r"
  "reservationCountEndpoints (r\<lparr>r_allocated := b\<rparr>) = reservationCountEndpoints r"
  "reservationCountEndpoints (r\<lparr>r_ipsConfirmed := b\<rparr>) = reservationCountEndpoints r"
  by (simp_all add: reservationCountEndpoints_def)

lemma set_allocated_ports:
  "set_allocated order name d rs = (rs', c) \<Longrightarrow>
   port_sum rs' = port_sum rs + (case c of None \<Rightarrow> 0 | Some r \<Rightarrow> if d then reservationCountEndpoints r else - reservationCountEndpoints r)"
  by (induction rs arbitrary: rs' c)
    (auto simp: reservationCountEndpoints_cong algebra_simps split: if_splits prod.splits)

lemma confirm_ports: "port_sum (confirm_first order rs) = port_sum rs"
  by (induction rs) (auto simp: reservationCountEndpoints_cong)

lemma confirm_fold_ports: "port_sum (fold confirm_first os rs) = port_sum rs"
  by (induction os arbitrary: rs) (auto simp: confirm_ports)

lemma remove1_ports:
  "r \<in> set rs \<Longrightarrow> port_sum rs = port_sum (remove1 r rs) + (if r_allocated r then reservationCountEndpoints r else 0)"
  unfolding port_sum_def by (subst sum_list_map_remove1[of r rs]) (auto simp: add.commute)

lemma updateIPs_keeps [simp]:
  "s_availableExternalPorts (updateIPs E st) = s_availableExternalPorts st"
  "s_reservations (updateIPs E st) = s_reservations st" "s_inventory (updateIPs E st) = s_inventory st"
  "s_ipAddrUsage (updateIPs E st) = s_ipAddrUsage st"
  by (simp_all add: updateIPs_def)

lemma handle_deployment_ports [inv_intro]: "ports_inv E st \<Longrightarrow> ports_inv E (handle_deployment E st order name d)"
  by (auto simp: handle_deployment_def ports_inv_def Let_def algebra_simps
      split: prod.splits option.splits dest!: set_allocated_ports)

lemma handle_unreserve_ports [inv_intro]: "ports_inv E st \<Longrightarrow> ports_inv E (fst (handle_unreserve st order))"
proof (cases "find (\<lambda>r. r_order r = order) (s_reservations st)")
  case (Some r)
  assume "ports_inv E st"
  moreover have "r \<in> set (s_reservations st)" using Some by (auto simp: find_Some_iff)
  ultimately show ?thesis
    using Some remove1_ports[of r "s_reservations st"]
    by (auto simp: handle_unreserve_def ports_inv_def algebra_simps)
qed (simp add: handle_unreserve_def)

lemma apply_check_ports [inv_intro]: "ports_inv E st \<Longrightarrow> ports_inv E (apply_check st res)"
  by (auto simp: apply_check_def ports_inv_def confirm_fold_ports split: option.splits)

lemma ports_inv_update [simp]:
  "ports_inv E (st\<lparr>s_invupch := a\<rparr>) = ports_inv E st" "ports_inv E (st\<lparr>s_currinv := a\<rparr>) = ports_inv E st"
  "ports_inv E (st\<lparr>s_inventory := a\<rparr>) = ports_inv E st" "ports_inv E (st\<lparr>s_runch := c\<rparr>) = ports_inv E st"
  "ports_inv E (st\<lparr>s_reservech := b\<rparr>) = ports_inv E st" "ports_inv E (st\<lparr>s_signalch := b\<rparr>) = ports_inv E st"
  "ports_inv E (updateIPs E st) = ports_inv E st"
  by (simp_all add: ports_inv_def)

lemma readjust_ports: "readjust E iv rs = (iv', rs') \<Longrightarrow> port_sum rs' = port_sum rs"
  by (induction rs arbitrary: iv rs') (auto split: prod.splits if_splits)

lemma handleRequest_ports [inv_intro]: "ports_inv E st \<Longrightarrow> ports_inv E (fst (handleRequest E st order rg))"
  by (auto simp: handleRequest_def Let_def ports_inv_def newReservation_def split: option.splits prod.splits sum.splits)

lemma handle_inventory_ports [inv_intro]: "ports_inv E st \<Longrightarrow> ports_inv E (handle_inventory E st iv)"
  by (auto simp: handle_inventory_def Let_def ports_inv_def split: prod.splits dest!: readjust_ports)

lemma step_ports: "ports_inv E st \<Longrightarrow> inventory_step E st ev = Some st' \<Longrightarrow> ports_inv E st'"
  by (cases ev) (auto simp: inventory_step_def intro!: inv_intro split: option.splits if_splits)

lemma new_service_ports: "ports_inv E (newInventoryService E ds)"
proof -
  have "port_sum (map recovered_reservation ds) = 0"
    by (induction ds) (simp_all add: recovered_reservation_def newReservation_def Let_def)
  then show ?thesis by (simp add: ports_inv_def newInventoryService_def)
qed

text \<open>What identifies a reservation for the clients of the service.\<close>

definition held :: "order_id \<Rightarrow> string \<Rightarrow> 'i inventory_state \<Rightarrow> bool" where
  "held order name st = (\<exists>r \<in> set (s_reservations st). matches_group order name r)"

lemma lookup_iff_held: "is_ok (handle_lookup st order name) = held order name st"
  by (auto simp: handle_lookup_def held_def find_None_iff find_Some_iff split: option.splits)

lemma set_allocated_held:
  "set_allocated o1 n1 d rs = (rs', c) \<Longrightarrow> (\<exists>r \<in> set rs'. matches_group order name r) \<longleftrightarrow> (\<exists>r \<in> set rs. matches_group order name r)"
  by (induction rs arbitrary: rs' c) (auto simp: matches_group_def split: if_splits prod.splits)

lemma confirm_held:
  "(\<exists>r \<in> set (fold confirm_first os rs). matches_group order name r) \<longleftrightarrow> (\<exists>r \<in> set rs. matches_group order name r)"
proof -
  have 1: "(\<exists>r \<in> set (confirm_first o1 rs). matches_group order name r) \<longleftrightarrow> (\<exists>r \<in> set rs. matches_group order name r)" for o1 rs
    by (induction rs) (auto simp: matches_group_def)
  show ?thesis by (induction os arbitrary: rs) (auto simp: 1)
qed

lemma held_update [simp]:
  "held order name (st\<lparr>s_invupch := a\<rparr>) = held order name st" "held order name (st\<lparr>s_currinv := a\<rparr>) = held order name st"
  "held order name (st\<lparr>s_inventory := a\<rparr>) = held order name st" "held order name (st\<lparr>s_runch := c\<rparr>) = held order name st"
  "held order name (st\<lparr>s_reservech := b\<rparr>) = held order name st" "held order name (st\<lparr>s_signalch := b\<rparr>) = held order name st"
  "held order name (updateIPs E st) = held order name st"
  "held order name (st\<lparr>s_availableExternalPorts := p\<rparr>) = held order name st"
  by (simp_all add: held_def)

lemma handle_deployment_held:
  "held order name (handle_deployment E st o1 n1 d) = held order name st"
  by (auto simp: handle_deployment_def held_def Let_def split: prod.splits option.splits dest: set_allocated_held)

lemma apply_check_held: "held order name (apply_check st res) = held order name st"
  by (auto simp: apply_check_def held_def confirm_held split: option.splits)

lemma handleRequest_held: "held order name st \<Longrightarrow> held order name (fst (handleRequest E st o1 rg))"
  by (auto simp: handleRequest_def Let_def held_def split: option.splits prod.splits sum.splits)

lemma handle_unreserve_held: "held order name st \<Longrightarrow> o1 \<noteq> order \<Longrightarrow> held order name (fst (handle_unreserve st o1))"
  by (auto simp: handle_unreserve_def held_def matches_group_def find_Some_iff in_set_remove1 split: option.splits)
    (metis in_set_remove1)

text \<open>
  The service as a client of the inventory: because \<open>Adjust\<close> never changes the resources of a
  reservation, re-adjusting the pending ones keeps every reservation findable.
\<close>

context inventory_contract
begin

lemma readjust_requests:
  assumes "env_adjust E = adjust" and "readjust E iv rs = (iv', rs')"
  shows "map (\<lambda>r. (r_order r, r_resources r)) rs' = map (\<lambda>r. (r_order r, r_resources r)) rs"
  using assms(2)
proof (induction rs arbitrary: iv iv' rs')
  case (Cons r rs)
  show ?case
  proof (cases "r_allocated r")
    case True
    then show ?thesis using Cons by (auto split: prod.splits)
  next
    case False
    obtain iv1 g x where a: "adjust iv (r_group r) (adjustOpts E (r_teeType r)) = (iv1, g, x)" by (metis prod_cases3)
    obtain iv2 rs2 where r: "readjust E iv1 rs = (iv2, rs2)" by fastforce
    show ?thesis
      using Cons.prems Cons.IH[OF r] False a r adjust_resources[OF a] by (auto simp: assms(1))
  qed
qed simp

lemma held_of_requests:
  "held order name st \<longleftrightarrow> (order, name) \<in> (\<lambda>(o1, rg). (o1, GetName rg)) ` set (map (\<lambda>r. (r_order r, r_resources r)) (s_reservations st))"
  by (force simp: held_def matches_group_def)

lemma handle_inventory_held:
  assumes "env_adjust E = adjust"
  shows "held order name (handle_inventory E st iv) = held order name st"
  using readjust_requests[OF assms]
  by (auto simp: handle_inventory_def Let_def held_of_requests simp del: set_map split: prod.splits)

lemma run_held:
  assumes "env_adjust E = adjust" and "held order name st" and "UnreserveReq order \<notin> set evs"
  shows "held order name (run_until (inventory_step E) st evs)"
proof (rule run_until_invariant[where I = "held order name"])
  fix s ev s'
  assume "held order name s" "ev \<in> set evs" "inventory_step E s ev = Some s'"
  then show "held order name s'"
    using assms(3) handle_unreserve_held[of order name s]
    by (cases ev) (fastforce simp: inventory_step_def handle_deployment_held apply_check_held handleRequest_held
        handle_inventory_held[OF assms(1)] split: option.splits if_splits)+
qed (rule assms(2))

end

lemma countReservedIPs_snoc:
  "countReservedIPs (rs @ [r]) = countReservedIPs rs + (if r_ipsConfirmed r then 0 else r_endpointQuantity r)"
  by (simp add: countReservedIPs_def)

lemma available_fits:
  assumes "q \<le> availableLeasedIPs tot inUse reserved" and "q \<noteq> 0"
  shows "unat inUse + (unat reserved + unat q) \<le> unat tot"
proof -
  have lt: "inUse < tot" "reserved < tot - inUse" "q \<le> tot - inUse - reserved"
    using assms by (auto simp: availableLeasedIPs_def Let_def split: if_splits)
  then have "unat (tot - inUse) = unat tot - unat inUse" "unat (tot - inUse - reserved) = unat (tot - inUse) - unat reserved"
    by (simp_all add: unat_sub order_less_imp_le)
  moreover have "unat q \<le> unat (tot - inUse - reserved)" using lt(3) by (simp add: word_le_nat_alt)
  ultimately show ?thesis using lt(1,2) by (simp add: word_less_nat_alt)
qed

lemma handleRequest_ok:
  assumes "handleRequest E st order rg = (st', Inr r)"
  shows "s_reservations st' = s_reservations st @ [r]" and "r_order r = order" and "\<not> r_allocated r"
    and "s_ipAddrUsage st' = s_ipAddrUsage st" and "s_availableExternalPorts st' = s_availableExternalPorts st"
    and "r_endpointQuantity r \<noteq> 0 \<Longrightarrow> \<not> r_ipsConfirmed r \<and>
      r_endpointQuantity r \<le> availableLeasedIPs (au_Available (s_ipAddrUsage st)) (au_InUse (s_ipAddrUsage st))
        (countReservedIPs (s_reservations st))"
    and "\<exists>iv iv' g u. s_inventory st = Some iv \<and> s_inventory st' = Some iv' \<and>
      env_adjust E iv (r_group ((newReservation order (resourcesToCommit E rg))\<lparr>r_teeType := teeTypeFromResourceGroup rg\<rparr>))
        (adjustOpts E (r_teeType r)) = (iv', r_group r, Inr u)"
  using assms
  by (auto simp: handleRequest_def Let_def newReservation_def split: if_splits option.splits prod.splits sum.splits)

text \<open>The addresses reserved and not yet confirmed, as a number that does not wrap around. The code's 64-bit
  sum is that number while it is below \<open>2 ^ 64\<close>, which every step keeps.\<close>

definition reserved_ips :: "reservation list \<Rightarrow> nat" where
  "reserved_ips rs = (\<Sum>r \<leftarrow> rs. if r_ipsConfirmed r then 0 else unat (r_endpointQuantity r))"

lemma reserved_ips_simps [simp]:
  "reserved_ips [] = 0" "reserved_ips (r # rs) = (if r_ipsConfirmed r then 0 else unat (r_endpointQuantity r)) + reserved_ips rs"
  "reserved_ips (as @ bs) = reserved_ips as + reserved_ips bs"
  by (simp_all add: reserved_ips_def)

lemma count_reserved: "countReservedIPs rs = of_nat (reserved_ips rs)"
  by (induction rs rule: rev_induct) (simp_all add: countReservedIPs_snoc, simp add: countReservedIPs_def)

lemma count_reserved_unat: "reserved_ips rs < 2 ^ 64 \<Longrightarrow> unat (countReservedIPs rs) = reserved_ips rs"
  by (simp add: count_reserved unsigned_of_nat take_bit_nat_eq_self)

lemma set_allocated_ips: "set_allocated order name d rs = (rs', c) \<Longrightarrow> reserved_ips rs' = reserved_ips rs"
  by (induction rs arbitrary: rs' c) (auto split: if_splits prod.splits)

lemma confirm_ips: "reserved_ips (fold confirm_first os rs) \<le> reserved_ips rs"
proof (induction os arbitrary: rs)
  case (Cons o1 os)
  have "reserved_ips (confirm_first o1 rs) \<le> reserved_ips rs" by (induction rs) auto
  then show ?case using Cons.IH[of "confirm_first o1 rs"] by simp
qed simp

lemma remove1_ips: "reserved_ips (remove1 r rs) \<le> reserved_ips rs"
  by (induction rs) auto

lemma readjust_ips: "readjust E iv rs = (iv', rs') \<Longrightarrow> reserved_ips rs' = reserved_ips rs"
  by (induction rs arbitrary: iv rs') (auto split: prod.splits if_splits)

lemma request_ips:
  assumes "handleRequest E st order rg = (st', Inr r)" and "r_endpointQuantity r \<noteq> 0" and "reserved_ips (s_reservations st) < 2 ^ 64"
  shows "reserved_ips (s_reservations st') = reserved_ips (s_reservations st) + unat (r_endpointQuantity r)"
    and "unat (au_InUse (s_ipAddrUsage st')) + reserved_ips (s_reservations st') \<le> unat (au_Available (s_ipAddrUsage st'))"
proof -
  note ok = handleRequest_ok[OF assms(1)]
  show c: "reserved_ips (s_reservations st') = reserved_ips (s_reservations st) + unat (r_endpointQuantity r)"
    using ok(1) ok(6)[OF assms(2)] by simp
  show "unat (au_InUse (s_ipAddrUsage st')) + reserved_ips (s_reservations st') \<le> unat (au_Available (s_ipAddrUsage st'))"
    using available_fits[OF conjunct2[OF ok(6)[OF assms(2)]] assms(2)] count_reserved_unat[OF assms(3)] c ok(4) by simp
qed

definition ips_inv :: "'i inventory_state \<Rightarrow> bool" where
  "ips_inv st \<longleftrightarrow> reserved_ips (s_reservations st) < 2 ^ 64"

lemma handleRequest_ips:
  assumes "ips_inv st"
  shows "ips_inv (fst (handleRequest E st order rg))"
proof (cases "snd (handleRequest E st order rg)")
  case (Inl e)
  then have "s_reservations (fst (handleRequest E st order rg)) = s_reservations st"
    by (auto simp: handleRequest_def Let_def split: option.splits prod.splits sum.splits if_splits)
  then show ?thesis using assms by (simp add: ips_inv_def)
next
  case (Inr r)
  then have h: "handleRequest E st order rg = (fst (handleRequest E st order rg), Inr r)" by (metis prod.collapse)
  show ?thesis
  proof (cases "r_endpointQuantity r = 0")
    case True
    then show ?thesis using assms handleRequest_ok(1)[OF h] by (simp add: ips_inv_def)
  next
    case False
    have "unat (au_Available (s_ipAddrUsage (fst (handleRequest E st order rg)))) < 2 ^ 64"
      using unsigned_less[where 'a = nat, of "au_Available (s_ipAddrUsage (fst (handleRequest E st order rg)))"] by simp
    then show ?thesis using request_ips(2)[OF h False] assms by (simp add: ips_inv_def)
  qed
qed

lemma step_ips:
  assumes "ips_inv st" and "inventory_step E st ev = Some st'"
  shows "ips_inv st'"
proof (cases ev)
  case (ClusterDeploymentEvent order name d)
  obtain rs c where "set_allocated order name d (s_reservations st) = (rs, c)" by fastforce
  then show ?thesis using assms ClusterDeploymentEvent set_allocated_ips[of order name d "s_reservations st" rs c]
    by (auto simp: inventory_step_def handle_deployment_def ips_inv_def Let_def split: option.splits)
next
  case (ReserveReq order rg)
  then show ?thesis using assms handleRequest_ips by (auto simp: inventory_step_def split: if_splits)
next
  case (UnreserveReq order)
  then show ?thesis using assms le_less_trans[OF remove1_ips]
    by (auto simp: inventory_step_def handle_unreserve_def ips_inv_def split: option.splits)
next
  case InventoryUp
  then show ?thesis using assms
    by (auto simp: inventory_step_def handle_inventory_def ips_inv_def Let_def split: option.splits prod.splits dest!: readjust_ips)
next
  case (CheckDone usage status)
  then show ?thesis using assms le_less_trans[OF confirm_ips]
    by (auto simp: inventory_step_def apply_check_def ips_inv_def split: option.splits)
qed (use assms in \<open>auto simp: inventory_step_def ips_inv_def split: option.splits\<close>)

section \<open>Properties\<close>

text \<open>C9: external ports are conserved. In every run of the service, whatever the order of
  deployment events, reservations and cancellations, the ports still available plus the
  random ports of the allocated reservations are the configured number (in 64-bit
  arithmetic).\<close>

theorem external_ports_conserved:
  "s_availableExternalPorts (inventory_run E ds evs) +
     sum_list (map (\<lambda>r. if r_allocated r then reservationCountEndpoints r else 0) (s_reservations (inventory_run E ds evs)))
   = InventoryExternalPortQuantity E"
proof -
  have "ports_inv E (inventory_run E ds evs)"
    unfolding inventory_run_def
    by (rule run_until_invariant[where I = "ports_inv E", OF new_service_ports]) (rule step_ports)
  then show ?thesis by (simp add: ports_inv_def port_sum_def)
qed

text \<open>a reservation is kept until it is cancelled. On a service that drives the Kubernetes
  inventory, a reservation that can be looked up can still be looked up after any events
  (inventory updates and re-adjustments, deployments, IP checks, other requests) among
  which none cancels its order.\<close>

theorem reservation_kept_until_unreserved:
  assumes "env_adjust E = kube_Adjust K" and "is_ok (handle_lookup st order name)" and "UnreserveReq order \<notin> set evs"
  shows "is_ok (handle_lookup (run_until (inventory_step E) st evs) order name)"
  using kube.run_held[OF assms(1)] assms(2,3) by (simp add: lookup_iff_held)

definition ex_env :: "bool \<Rightarrow> kube_inventory service_env" where
  "ex_env ip = \<lparr>env_adjust = kube_Adjust ex_sdk, commit_cpu = id, commit_gpu = id, commit_memory = id, commit_storage = id,
     InventoryExternalPortQuantity = 10, env_teePlatform = [], has_ip_client = ip\<rparr>"

definition ex_order :: order_id where
  "ex_order = \<lparr>o_owner = ''owner'', o_dseq = 1, o_gseq = 1, o_oseq = 1\<rparr>"

definition ex_lease :: lease_id where
  "ex_lease = \<lparr>l_owner = ''owner'', l_dseq = 1, l_gseq = 1, l_oseq = 1, l_provider = ''p''\<rparr>"

definition ex_state :: "kube_inventory inventory_state" where
  "ex_state = newInventoryService (ex_env False)
     [\<lparr>d_lease = ex_lease, d_group = GroupSpecVal ''web'' [] [ex_unit 1 1 0 []], d_params = NilParams\<rparr>]"

theorem reservation_kept_until_unreserved_witness:
  "is_ok (handle_lookup (run_until (inventory_step (ex_env False)) ex_state
     [InventoryUpdate (Some (newInventory (ex_cluster []))), InventoryUp]) ex_order ''web'')"
proof (rule reservation_kept_until_unreserved)
  show "env_adjust (ex_env False) = kube_Adjust ex_sdk" by (simp add: ex_env_def)
  show "is_ok (handle_lookup ex_state ex_order ''web'')"
    by (simp add: ex_state_def newInventoryService_def recovered_reservation_def newReservation_def Let_def
        handle_lookup_def matches_group_def ex_order_def ex_lease_def lease_order_id_def SetClusterParams_def)
qed simp

text \<open>C33: leased addresses are never promised twice. Take any run of the service in which the
  deployments recovered at the start have fewer than \<open>2 ^ 64\<close> leased addresses together. When it
  accepts a request with leased IP endpoints, then, as unbounded numbers, the addresses in use
  plus all those reserved but not yet confirmed, the new ones included, are at most the addresses
  the provider has, and the code's 64-bit sum of the reserved ones is that number: it has not
  wrapped around.\<close>

theorem leased_ips_fit:
  assumes "reserved_ips (map recovered_reservation ds) < 2 ^ 64"
    and "handleRequest E (inventory_run E ds evs) order rg = (st', Inr r)" and "r_endpointQuantity r \<noteq> 0"
  shows "reserved_ips (s_reservations st') = reserved_ips (s_reservations (inventory_run E ds evs)) + unat (r_endpointQuantity r) \<and>
    unat (au_InUse (s_ipAddrUsage st')) + reserved_ips (s_reservations st') \<le> unat (au_Available (s_ipAddrUsage st')) \<and>
    unat (countReservedIPs (s_reservations st')) = reserved_ips (s_reservations st')"
proof -
  have "ips_inv (inventory_run E ds evs)"
    unfolding inventory_run_def
    by (rule run_until_invariant[where I = ips_inv])
      (use assms(1) in \<open>simp add: ips_inv_def newInventoryService_def\<close>, rule step_ips)
  note q = request_ips[OF assms(2,3) this[unfolded ips_inv_def]]
  have "unat (au_Available (s_ipAddrUsage st')) < 2 ^ 64"
    using unsigned_less[where 'a = nat, of "au_Available (s_ipAddrUsage st')"] by simp
  then show ?thesis using q count_reserved_unat[of "s_reservations st'"] by simp
qed

definition ip_group :: resource_group where
  "ip_group = GroupSpecVal ''web'' [] [(ex_unit 1 1 0 [])\<lparr>ru_Resources := (ru_Resources (ex_unit 1 1 0 []))\<lparr>res_Endpoints :=
     [\<lparr>ep_Kind = Endpoint_LEASED_IP, SequenceNumber = 1\<rparr>]\<rparr>\<rparr>]"

definition ip_state :: "kube_inventory inventory_state" where
  "ip_state = (newInventoryService (ex_env True) [])\<lparr>s_ipAddrUsage := \<lparr>au_Available = 3, au_InUse = 2\<rparr>,
     s_inventory := Some (newInventory (ex_cluster [ex_node ''n'' 10 ''b'']))\<rparr>"

definition ip_request :: "kube_inventory inventory_state \<times> (inventory_error + reservation)" where
  "ip_request = handleRequest (ex_env True) ip_state ex_order ip_group"

definition ip_events :: "kube_inventory inventory_event list" where
  "ip_events = [InventoryUpdate (Some (newInventory (ex_cluster [ex_node ''n'' 10 ''b'']))), InventoryUp,
     CheckDone (Some \<lparr>au_Available = 3, au_InUse = 2\<rparr>) (\<lambda>_. None)]"

theorem leased_ips_fit_witness:
  "\<exists>st' r. handleRequest (ex_env True) (inventory_run (ex_env True) [] ip_events) ex_order ip_group = (st', Inr r) \<and>
     unat (au_InUse (s_ipAddrUsage st')) + reserved_ips (s_reservations st') \<le> unat (au_Available (s_ipAddrUsage st'))"
proof -
  let ?q = "handleRequest (ex_env True) (inventory_run (ex_env True) [] ip_events) ex_order ip_group"
  have ok: "(case snd ?q of Inr r \<Rightarrow> r_endpointQuantity r \<noteq> 0 | Inl e \<Rightarrow> False)" by code_simp
  then obtain r where r: "snd ?q = Inr r" "r_endpointQuantity r \<noteq> 0" by (auto split: sum.splits)
  then have h: "?q = (fst ?q, Inr r)" by (metis prod.collapse)
  have z: "reserved_ips (map recovered_reservation []) < 2 ^ 64" by simp
  from leased_ips_fit[OF z h r(2)] h show ?thesis by blast
qed

text \<open>cancelling undoes a reservation. If an order has no reservation yet and a request for
  it is accepted, then cancelling the order returns that reservation, leaves the other
  reservations and the external ports as they were, and the order can no longer be looked
  up.\<close>

theorem reserve_unreserve_roundtrip:
  assumes "handleRequest E st order rg = (st1, Inr r)" and "\<forall>r \<in> set (s_reservations st). r_order r \<noteq> order"
    and "handle_unreserve st1 order = (st2, res)"
  shows "res = Inr r \<and> s_reservations st2 = s_reservations st \<and>
    s_availableExternalPorts st2 = s_availableExternalPorts st \<and> handle_lookup st2 order name = Inl errReservationNotFound"
proof -
  note ok = handleRequest_ok[OF assms(1)]
  have none: "find (\<lambda>r. r_order r = order) (s_reservations st) = None" using assms(2) by (simp add: find_None_iff)
  have "find (\<lambda>r. r_order r = order) (s_reservations st @ [r]) = Some r"
    using none ok(2) by (simp add: find_snoc)
  moreover have "remove1 r (s_reservations st @ [r]) = s_reservations st"
    using assms(2) ok(2) by (auto simp: remove1_append)
  ultimately have 2: "st2 = st1\<lparr>s_reservations := s_reservations st, s_availableExternalPorts := s_availableExternalPorts st\<rparr>"
    "res = Inr r" using assms(3) ok(1,3,5) by (auto simp: handle_unreserve_def)
  have "find (matches_group order name) (s_reservations st) = None"
    using assms(2) by (auto simp: find_None_iff matches_group_def)
  then show ?thesis using 2 by (simp add: handle_lookup_def)
qed

theorem reserve_unreserve_roundtrip_witness:
  "case snd ip_request of Inl e \<Rightarrow> False | Inr r \<Rightarrow>
     snd (handle_unreserve (fst ip_request) ex_order) = Inr r \<and>
     s_reservations (fst (handle_unreserve (fst ip_request) ex_order)) = []"
proof -
  have "is_ok (snd ip_request)" by code_simp
  then obtain r where r: "snd ip_request = Inr r" by (auto simp: is_ok_iff)
  then have h: "handleRequest (ex_env True) ip_state ex_order ip_group = (fst ip_request, Inr r)"
    by (metis ip_request_def prod.collapse)
  have e: "s_reservations ip_state = []" by (simp add: ip_state_def newInventoryService_def)
  show ?thesis
    using reserve_unreserve_roundtrip[OF h _ prod.collapse[symmetric]] e r by simp
qed

text \<open>without an IP operator no request is handled before the first inventory. In every run
  of a service that has no IP client, requests are accepted only once an inventory is
  there, so no request meets the nil inventory.\<close>

theorem requests_wait_for_inventory:
  assumes "\<not> has_ip_client E"
  shows "s_reservech (inventory_run E ds evs) \<longrightarrow>
    (\<exists>iv. s_inventory (inventory_run E ds evs) = Some iv) \<and>
    snd (handleRequest E (inventory_run E ds evs) order rg) \<noteq> Inl PanicNilInventory"
proof -
  let ?I = "\<lambda>st. (s_reservech st \<longrightarrow> s_inventory st \<noteq> None) \<and> s_runch st = None"
  have req: "(s_inventory (fst (handleRequest E st o1 g)) \<noteq> None) = (s_inventory st \<noteq> None) \<and>
      s_reservech (fst (handleRequest E st o1 g)) = s_reservech st \<and> s_runch (fst (handleRequest E st o1 g)) = s_runch st" for st o1 g
    by (auto simp: handleRequest_def Let_def split: option.splits prod.splits sum.splits)
  have "?I (inventory_run E ds evs)"
    unfolding inventory_run_def
  proof (rule run_until_invariant[where I = ?I])
    fix s ev s' assume "?I s" "inventory_step E s ev = Some s'"
    then show "?I s'"
      using assms req[of s]
      by (cases ev) (auto simp: inventory_step_def updateIPs_def handle_deployment_def handle_inventory_def
          handle_unreserve_def Let_def split: option.splits prod.splits if_splits)
  qed (simp add: newInventoryService_def)
  then show ?thesis
    by (auto simp: handleRequest_def Let_def split: option.splits prod.splits sum.splits)
qed

theorem requests_wait_for_inventory_witness:
  "s_reservech (inventory_run (ex_env False) [] [InventoryUpdate (Some (newInventory (ex_cluster []))), InventoryUp]) \<and>
   snd (handleRequest (ex_env False) (inventory_run (ex_env False) [] [InventoryUpdate (Some (newInventory (ex_cluster []))), InventoryUp])
     ex_order (GroupSpecVal ''web'' [] [])) \<noteq> Inl PanicNilInventory"
proof -
  have "\<not> has_ip_client (ex_env False)" by (simp add: ex_env_def)
  moreover have "s_reservech (inventory_run (ex_env False) [] [InventoryUpdate (Some (newInventory (ex_cluster []))), InventoryUp])"
    by (simp add: inventory_run_def inventory_step_def newInventoryService_def handle_inventory_def updateIPs_def ex_env_def Let_def)
  ultimately show ?thesis using requests_wait_for_inventory by blast
qed

text \<open>with an IP operator the service can meet the nil inventory. A deployment event that
  arrives before the first inventory starts an IP check; its result opens the request
  channel although there is no inventory yet, and the next request without leased IPs
  dereferences nil.\<close>

theorem reserve_before_inventory_panics:
  assumes "has_ip_client E" and "GetEndpointQuantityOfResourceGroup (resourcesToCommit E rg) Endpoint_LEASED_IP = 0"
  shows "s_reservech (inventory_run E ds [ClusterDeploymentEvent o1 n d, CheckDone usage status]) \<and>
    snd (handleRequest E (inventory_run E ds [ClusterDeploymentEvent o1 n d, CheckDone usage status]) order rg) = Inl PanicNilInventory"
  using assms
  by (auto simp: inventory_run_def inventory_step_def newInventoryService_def handle_deployment_def updateIPs_def
      apply_check_def handleRequest_def newReservation_def Let_def split: prod.splits option.splits)

theorem reserve_before_inventory_panics_witness:
  "snd (handleRequest (ex_env True) (inventory_run (ex_env True) [] [ClusterDeploymentEvent ex_order ''web'' True, CheckDone None (\<lambda>_. None)])
     ex_order (GroupSpecVal ''web'' [] [])) = Inl PanicNilInventory"
proof -
  have "has_ip_client (ex_env True)" by (simp add: ex_env_def)
  moreover have "GetEndpointQuantityOfResourceGroup (resourcesToCommit (ex_env True) (GroupSpecVal ''web'' [] [])) Endpoint_LEASED_IP = 0"
    by (simp add: resourcesToCommit_def GetEndpointQuantityOfResourceGroup_def)
  ultimately show ?thesis using reserve_before_inventory_panics by blast
qed

text \<open>a restart forgets that a deployment is confidential. Deployments recovered from the
  cluster carry their scheduler parameters as \<open>ReservationClusterSettings\<close>, which
  \<open>teeTypeFromClusterParams\<close> does not read: the recovered reservation has no TEE type whatever
  the parameters say, so it is re-adjusted without its sidecar, whereas the same parameters
  stored as \<open>ClusterSettings\<close> would give their TEE type.\<close>

theorem recovered_tee_type_lost:
  assumes "d_params d = ReservationClusterSettings [(i, Some p)]" and "sp_TEEType p = TEETypeCPU" and "\<not> AttestationDisabled p"
  shows "r_teeType (recovered_reservation d) = TEETypeNone \<and>
    \<not> IsCC (opt_TEEType (options_of (adjustOpts E (r_teeType (recovered_reservation d))))) \<and>
    r_teeType (recovered_reservation (d\<lparr>d_params := ClusterSettingsVal [Some p]\<rparr>)) = TEETypeCPU"
  using assms
  by (simp add: recovered_reservation_def Let_def teeTypeFromClusterParams_def adjustOpts_def options_of_def IsCC_def
      ParseTEEType_def TEETypeCPU_def TEETypeNone_def)

definition tee_params :: scheduler_params where
  "tee_params = zero_sparams\<lparr>sp_TEEType := TEETypeCPU\<rparr>"

definition tee_deployment :: recovered_deployment where
  "tee_deployment = \<lparr>d_lease = ex_lease, d_group = GroupSpecVal ''web'' [] [],
     d_params = ReservationClusterSettings [(1, Some tee_params)]\<rparr>"

theorem recovered_tee_type_lost_witness:
  "r_teeType (recovered_reservation tee_deployment) = TEETypeNone \<and>
   r_teeType (recovered_reservation (tee_deployment\<lparr>d_params := ClusterSettingsVal [Some tee_params]\<rparr>)) = TEETypeCPU"
proof -
  have d: "d_params tee_deployment = ReservationClusterSettings [(1, Some tee_params)]" by (simp add: tee_deployment_def)
  have "sp_TEEType tee_params = TEETypeCPU" "\<not> AttestationDisabled tee_params"
    by (simp_all add: tee_params_def zero_sparams_def)
  from recovered_tee_type_lost[OF d this] show ?thesis by blast
qed

end
