(* ===== verification/BidOrder.thy ===== *)
theory BidOrder
  imports Gate Resources Market
begin

text \<open>
  The bidding life of one order (\<open>bidengine/order.go\<close>): the decision whether to bid, the event
  loop that fetches the group, reserves resources, prices, bids and waits for the outcome,
  and the clean-up after the loop. The queries, the transactions, the pricing strategy and
  the cluster run in their own goroutines; their results are events of the loop, and the
  calls the loop makes are collected as actions. Matching and validation of groups is the
  chain SDK's, the fields of \<open>order_env\<close>.
\<close>

section \<open>Data\<close>

text \<open>A price is a denomination and an amount in units of \<open>10\<^sup>-\<^sup>1\<^sup>8\<close>.\<close>

record dec_coin =
  Denom :: string
  Amount :: int

record order_group =
  og_name :: string
  og_units :: "resource_unit list"
  og_price :: dec_coin
  SignedBy_AllOf :: "string list"
  SignedBy_AnyOf :: "string list"

record audited_provider =
  ap_Owner :: string
  ap_Auditor :: string
  ap_Attributes :: attributes

text \<open>
  \<open>match_attributes\<close> is \<open>GroupSpec.MatchAttributes\<close>, \<open>cfg_subset\<close> is \<open>Attributes.SubsetOf\<close> on
  the configured attributes, \<open>get_attributes\<close> and \<open>auditor_signatures\<close> are the two calls of the
  attribute service (\<open>None\<close> on an error), \<open>match_resources\<close>, \<open>match_requirements\<close> and
  \<open>validate_basic\<close> the SDK's checks of the group. \<open>provider_string\<close> is \<open>Provider().String()\<close>,
  \<open>provider_address\<close> the bech32 text of the provider's address.
\<close>

record order_env =
  env_world :: world
  provider_address :: string
  provider_string :: string
  provider_owner :: string
  provider_attributes :: attributes
  match_attributes :: "order_group \<Rightarrow> bool"
  cfg_subset :: "order_group \<Rightarrow> bool"
  get_attributes :: "attributes option"
  match_resources :: "order_group \<Rightarrow> attributes \<Rightarrow> bool"
  MaxGroupVolumes :: int
  auditor_signatures :: "string \<Rightarrow> audited_provider list option"
  match_requirements :: "order_group \<Rightarrow> audited_provider list \<Rightarrow> bool"
  validate_basic :: "order_group \<Rightarrow> bool"
  BidTimeout :: u64
  CreatedAtBlockHeight :: u64

section \<open>Whether to bid\<close>

datatype should_bid_error = ErrGetAttributes | ErrAuditor string

text \<open>Signatures of every auditor once, in order; the map \<open>gotten\<close> is the list of those done.\<close>

fun fetch_signatures :: "order_env \<Rightarrow> string list \<Rightarrow> string list \<Rightarrow> audited_provider list \<Rightarrow>
    should_bid_error + audited_provider list" where
  "fetch_signatures E gotten [] acc = Inr acc"
| "fetch_signatures E gotten (a # as) acc =
     (if a \<in> set gotten then fetch_signatures E gotten as acc
      else (case auditor_signatures E a of
              None \<Rightarrow> Inl (ErrAuditor a)
            | Some sigs \<Rightarrow> fetch_signatures E (a # gotten) as (acc @ sigs)))"

definition volumes_ok :: "order_env \<Rightarrow> order_group \<Rightarrow> bool" where
  "volumes_ok E g = list_all (\<lambda>u. \<not> int (length (res_Storage (ru_Resources u))) > MaxGroupVolumes E) (og_units g)"

definition shouldBid :: "order_env \<Rightarrow> order_group \<Rightarrow> should_bid_error + bool" where
  "shouldBid E g =
     (if \<not> PirAllocationAllowed (env_world E) then Inr False
      else if \<not> match_attributes E g then Inr False
      else if \<not> cfg_subset E g then Inr False
      else
        (case get_attributes E of
           None \<Rightarrow> Inl ErrGetAttributes
         | Some attr \<Rightarrow>
             if \<not> match_resources E g attr then Inr False
             else if \<not> volumes_ok E g then Inr False
             else
               (case (if SignedBy_AllOf g = [] \<and> SignedBy_AnyOf g = [] then Inr True
                      else
                        (case fetch_signatures E [] (SignedBy_AllOf g @ SignedBy_AnyOf g)
                               [\<lparr>ap_Owner = provider_owner E, ap_Auditor = [], ap_Attributes = provider_attributes E\<rparr>] of
                           Inl e \<Rightarrow> Inl e
                         | Inr provAttr \<Rightarrow> Inr (match_requirements E g provAttr))) of
                  Inl e \<Rightarrow> Inl e
                | Inr ok \<Rightarrow> Inr (ok \<and> validate_basic E g))))"

section \<open>Timeouts\<close>

definition bidTimeoutEnabled :: "order_env \<Rightarrow> bool" where
  "bidTimeoutEnabled E = (0 < sint (BidTimeout E))"

text \<open>Heights and durations are 64-bit signed; five seconds are \<open>5 * 10\<^sup>9\<close> nanoseconds.\<close>

definition isStaleBid :: "order_env \<Rightarrow> u64 \<Rightarrow> bool" where
  "isStaleBid E createdAtBlock =
     (if \<not> bidTimeoutEnabled E then False
      else
        let blockAge = createdAtBlock - CreatedAtBlockHeight E;
            atLeastThisOld = blockAge * 5000000000
        in sint atLeastThisOld > sint (BidTimeout E))"

section \<open>The loop\<close>

datatype bid_state = BidOpen | BidActive | BidLost | BidClosed

datatype query_bid = QueryNotFound | QueryError | QueryBid bid_state u64

text \<open>The calls of the loop and of its clean-up, in the order they are made.\<close>

datatype order_action =
    DoQueryGroup
  | DoQueryBid
  | DoShouldBid order_group
  | DoReserve order_id
  | DoCalculatePrice order_group
  | DoCreateBid bid_id dec_coin
  | DoPublishLeaseWon lease_id
  | DoUnreserve order_id
  | DoCloseBid bid_id

text \<open>A channel variable is true while a result may still be received from it.\<close>

record order_state =
  os_groupch :: bool
  os_storedGroupCh :: bool
  os_clusterch :: bool
  os_bidch :: bool
  os_pricech :: bool
  os_queryBidCh :: bool
  os_shouldBidCh :: bool
  os_bidTimeout :: bool
  os_group :: "order_group option"
  os_reservation :: bool
  os_won :: bool
  os_bidPlaced :: bool
  os_actions :: "order_action list"

datatype order_event =
    ShutdownRequested
  | QueryBidResult query_bid
  | LeaseCreated lease_id
  | OrderClosed order_id
  | BidClosedEvent bid_id
  | GroupResult "order_group option"
  | ShouldBidResult "should_bid_error + bool"
  | ClusterResult bool
  | PriceResult "dec_coin option"
  | BidResult bool
  | TimeoutFired

definition order_bid_id :: "order_env \<Rightarrow> order_id \<Rightarrow> bid_id" where
  "order_bid_id E oid = make_bid_id oid (provider_address E)"

definition act :: "order_action \<Rightarrow> order_state \<Rightarrow> order_state" where
  "act a s = s\<lparr>os_actions := os_actions s @ [a]\<rparr>"

definition order_start :: "bool \<Rightarrow> order_state" where
  "order_start checkForExistingBid =
     (let s = \<lparr>os_groupch = True, os_storedGroupCh = False, os_clusterch = False, os_bidch = False, os_pricech = False,
               os_queryBidCh = False, os_shouldBidCh = False, os_bidTimeout = False, os_group = None,
               os_reservation = False, os_won = False, os_bidPlaced = False, os_actions = [DoQueryGroup]\<rparr>
      in if checkForExistingBid
         then act DoQueryBid (s\<lparr>os_queryBidCh := True, os_storedGroupCh := os_groupch s, os_groupch := False\<rparr>)
         else s)"

text \<open>The result of one turn: go on, or leave the loop.\<close>

datatype turn = Continue order_state | BreakLoop order_state

text \<open>The results of the reservation, of the pricing strategy and of the bid transaction.\<close>

definition turn_cluster :: "order_state \<Rightarrow> bool \<Rightarrow> turn" where
  "turn_cluster s ok =
     (if \<not> os_clusterch s then Continue s
      else
        let s0 = s\<lparr>os_clusterch := False\<rparr> in
        if \<not> ok then BreakLoop s0
        else
          let s1 = s0\<lparr>os_reservation := True\<rparr> in
          if os_bidPlaced s1 then Continue s1
          else (case os_group s1 of
                  None \<Rightarrow> BreakLoop s1
                | Some g \<Rightarrow> Continue (act (DoCalculatePrice g) (s1\<lparr>os_pricech := True\<rparr>))))"

definition turn_price :: "order_env \<Rightarrow> order_id \<Rightarrow> order_state \<Rightarrow> dec_coin option \<Rightarrow> turn" where
  "turn_price E oid s r =
     (if \<not> os_pricech s then Continue s
      else
        let s0 = s\<lparr>os_pricech := False\<rparr> in
        (case (r, os_group s0) of
           (Some price, Some g) \<Rightarrow>
             if Denom (og_price g) \<noteq> Denom price then BreakLoop s0
             else if Amount (og_price g) < Amount price then BreakLoop s0
             else Continue (act (DoCreateBid (order_bid_id E oid) price) (s0\<lparr>os_bidch := True\<rparr>))
         | _ \<Rightarrow> BreakLoop s0))"

definition turn_bid :: "order_env \<Rightarrow> order_state \<Rightarrow> bool \<Rightarrow> turn" where
  "turn_bid E s ok =
     (if \<not> os_bidch s then Continue s
      else
        let s0 = s\<lparr>os_bidch := False\<rparr> in
        if \<not> ok then BreakLoop s0
        else Continue (s0\<lparr>os_bidPlaced := True, os_bidTimeout := bidTimeoutEnabled E\<rparr>))"

definition order_turn :: "order_env \<Rightarrow> order_id \<Rightarrow> order_state \<Rightarrow> order_event \<Rightarrow> turn" where
  "order_turn E oid s ev =
     (case ev of
        ShutdownRequested \<Rightarrow> BreakLoop s
      | QueryBidResult q \<Rightarrow>
          if \<not> os_queryBidCh s then Continue s
          else
            let s0 = s\<lparr>os_queryBidCh := False\<rparr>;
                go = (\<lambda>s1. Continue (s1\<lparr>os_groupch := os_storedGroupCh s1, os_storedGroupCh := False\<rparr>))
            in (case q of
                  QueryError \<Rightarrow> BreakLoop s0
                | QueryNotFound \<Rightarrow> go s0
                | QueryBid st createdAt \<Rightarrow>
                    if st \<noteq> BidOpen then BreakLoop s0
                    else
                      let s1 = s0\<lparr>os_bidPlaced := True\<rparr> in
                      if isStaleBid E createdAt then BreakLoop s1
                      else go (s1\<lparr>os_bidTimeout := bidTimeoutEnabled E\<rparr>))
      | LeaseCreated lid \<Rightarrow>
          if lease_group_id lid \<noteq> order_group_id oid then Continue s
          else if l_provider lid \<noteq> provider_address E then
            BreakLoop (if os_bidch s then s\<lparr>os_bidPlaced := True\<rparr> else s)
          else BreakLoop ((act (DoPublishLeaseWon lid) s)\<lparr>os_won := True\<rparr>)
      | OrderClosed o1 \<Rightarrow> if o1 \<noteq> oid then Continue s else BreakLoop s
      | BidClosedEvent bid \<Rightarrow>
          if os_won s then Continue s
          else if lease_group_id bid \<noteq> order_group_id oid then Continue s
          else if l_provider bid \<noteq> provider_string E then Continue s
          else BreakLoop (s\<lparr>os_bidPlaced := False\<rparr>)
      | GroupResult r \<Rightarrow>
          if \<not> os_groupch s then Continue s
          else
            let s0 = s\<lparr>os_groupch := False\<rparr> in
            (case r of
               None \<Rightarrow> BreakLoop s0
             | Some g \<Rightarrow> Continue (act (DoShouldBid g) (s0\<lparr>os_group := Some g, os_shouldBidCh := True\<rparr>)))
      | ShouldBidResult r \<Rightarrow>
          if \<not> os_shouldBidCh s then Continue s
          else
            let s0 = s\<lparr>os_shouldBidCh := False\<rparr> in
            (case r of
               Inl e \<Rightarrow> BreakLoop s0
             | Inr b \<Rightarrow> if \<not> b then BreakLoop s0
                        else Continue (act (DoReserve oid) (s0\<lparr>os_clusterch := True\<rparr>)))
      | ClusterResult ok \<Rightarrow> turn_cluster s ok
      | PriceResult r \<Rightarrow> turn_price E oid s r
      | BidResult ok \<Rightarrow> turn_bid E s ok
      | TimeoutFired \<Rightarrow> if os_bidTimeout s then BreakLoop s else Continue s)"

lemmas order_turn_unfold = order_turn_def turn_cluster_def turn_price_def turn_bid_def

text \<open>The loop over the events it receives: the state, and whether it has been left.\<close>

fun order_loop :: "order_env \<Rightarrow> order_id \<Rightarrow> order_state \<Rightarrow> order_event list \<Rightarrow> order_state \<times> bool" where
  "order_loop E oid s [] = (s, False)"
| "order_loop E oid s (ev # evs) =
     (case order_turn E oid s ev of
        Continue s' \<Rightarrow> order_loop E oid s' evs
      | BreakLoop s' \<Rightarrow> (s', True))"

text \<open>
  The clean-up. A reservation still under way is awaited (\<open>pending\<close> is whether it succeeds).
\<close>

definition order_cleanup :: "order_env \<Rightarrow> order_id \<Rightarrow> bool \<Rightarrow> order_state \<Rightarrow> order_state" where
  "order_cleanup E oid pending s =
     (if os_won s then s
      else
        let s1 = (if os_clusterch s then s\<lparr>os_clusterch := False, os_reservation := os_reservation s \<or> pending\<rparr> else s);
            s2 = (if os_reservation s1 then act (DoUnreserve oid) s1 else s1)
        in if os_bidPlaced s2 then act (DoCloseBid (order_bid_id E oid)) s2 else s2)"

definition order_run :: "order_env \<Rightarrow> order_id \<Rightarrow> bool \<Rightarrow> bool \<Rightarrow> order_event list \<Rightarrow> order_state \<times> bool" where
  "order_run E oid checkForExistingBid pending evs =
     (case order_loop E oid (order_start checkForExistingBid) evs of
        (s, True) \<Rightarrow> (order_cleanup E oid pending s, True)
      | (s, False) \<Rightarrow> (s, False))"

section \<open>Reachable states\<close>

text \<open>
  The states of the loop as a step relation: the loop has gone on to a state from the start by
  events of the set \<open>evs\<close>.
\<close>

inductive order_reach :: "order_env \<Rightarrow> order_id \<Rightarrow> bool \<Rightarrow> order_event set \<Rightarrow> order_state \<Rightarrow> bool"
  for E oid chk evs where
  start: "order_reach E oid chk evs (order_start chk)"
| turn: "order_reach E oid chk evs s \<Longrightarrow> ev \<in> evs \<Longrightarrow> order_turn E oid s ev = Continue s' \<Longrightarrow> order_reach E oid chk evs s'"

lemma order_loop_reach:
  assumes "order_reach E oid chk S s" and "set evs \<subseteq> S" and "order_loop E oid s evs = (s', b)"
  shows "if b then \<exists>s0 ev. order_reach E oid chk S s0 \<and> ev \<in> S \<and> order_turn E oid s0 ev = BreakLoop s'
    else order_reach E oid chk S s'"
  using assms
proof (induction evs arbitrary: s)
  case (Cons ev evs)
  show ?case
  proof (cases "order_turn E oid s ev")
    case (Continue s1)
    then have "order_reach E oid chk S s1" using Cons.prems by (auto intro: order_reach.turn)
    then show ?thesis using Cons.IH[of s1] Cons.prems Continue by simp
  next
    case (BreakLoop s1)
    then show ?thesis using Cons.prems by auto
  qed
qed auto

lemma order_run_left:
  assumes "order_run E oid chk pending evs = (s, True)"
  obtains s0 ev s1 where "order_reach E oid chk (set evs) s0" and "ev \<in> set evs"
    and "order_turn E oid s0 ev = BreakLoop s1" and "s = order_cleanup E oid pending s1"
proof -
  obtain s1 b where l: "order_loop E oid (order_start chk) evs = (s1, b)" by fastforce
  with assms have b: "b" "s = order_cleanup E oid pending s1" by (auto simp: order_run_def split: bool.splits)
  from order_loop_reach[OF order_reach.start subset_refl l] b that show thesis by auto
qed

text \<open>What holds whenever the loop goes on.\<close>

definition order_inv :: "order_env \<Rightarrow> order_id \<Rightarrow> order_state \<Rightarrow> bool" where
  "order_inv E oid s \<longleftrightarrow>
     \<not> os_won s \<and>
     (os_shouldBidCh s \<or> os_clusterch s \<or> os_reservation s \<longrightarrow> os_group s \<noteq> None \<and> \<not> os_groupch s \<and> \<not> os_storedGroupCh s \<and> \<not> os_queryBidCh s) \<and>
     (os_groupch s \<or> os_storedGroupCh s \<longrightarrow> os_group s = None) \<and> (os_groupch s \<longrightarrow> \<not> os_storedGroupCh s \<and> \<not> os_queryBidCh s) \<and>
     (os_shouldBidCh s \<longrightarrow> \<not> os_clusterch s \<and> \<not> os_reservation s) \<and> (os_clusterch s \<longrightarrow> \<not> os_reservation s) \<and>
     (os_pricech s \<or> os_bidch s \<longrightarrow> os_reservation s \<and> \<not> os_bidPlaced s \<and> \<not> os_bidTimeout s) \<and> (os_pricech s \<longrightarrow> \<not> os_bidch s) \<and>
     (DoReserve oid \<in> set (os_actions s) \<longleftrightarrow> os_clusterch s \<or> os_reservation s) \<and>
     (os_bidTimeout s \<longrightarrow> os_bidPlaced s) \<and>
     (\<forall>b p. DoCreateBid b p \<in> set (os_actions s) \<longrightarrow> os_reservation s \<and> \<not> os_pricech s \<and> (os_bidch s \<or> os_bidPlaced s)) \<and>
     DoUnreserve oid \<notin> set (os_actions s) \<and> (\<forall>b. DoCloseBid b \<notin> set (os_actions s))"

lemmas turn_defs = order_turn_unfold act_def Let_def

lemma order_inv_start: "order_inv E oid (order_start chk)"
  by (simp add: order_inv_def order_start_def act_def Let_def)

lemma order_inv_turn:
  assumes "order_inv E oid s" and "order_turn E oid s ev = Continue s'"
  shows "order_inv E oid s'"
proof (cases ev)
  case ShutdownRequested
  then show ?thesis using assms by (simp add: order_turn_unfold)
next
  case (QueryBidResult q)
  then show ?thesis using assms by (clarsimp simp: turn_defs order_inv_def split: if_splits query_bid.splits)
next
  case (LeaseCreated l)
  then show ?thesis using assms by (simp add: turn_defs split: if_splits)
next
  case (OrderClosed o1)
  then show ?thesis using assms by (simp add: turn_defs split: if_splits)
next
  case (BidClosedEvent b)
  then show ?thesis using assms by (simp add: turn_defs split: if_splits)
next
  case (GroupResult r)
  then show ?thesis using assms by (clarsimp simp: turn_defs order_inv_def split: if_splits option.splits)
next
  case (ShouldBidResult r)
  then show ?thesis using assms by (clarsimp simp: turn_defs order_inv_def split: if_splits sum.splits)
next
  case (ClusterResult r)
  then show ?thesis using assms by (clarsimp simp: turn_defs order_inv_def split: if_splits option.splits)
next
  case (PriceResult r)
  then show ?thesis using assms by (clarsimp simp: turn_defs order_inv_def split: if_splits option.splits)
next
  case (BidResult r)
  then show ?thesis using assms by (clarsimp simp: turn_defs order_inv_def split: if_splits)
next
  case TimeoutFired
  then show ?thesis using assms by (simp add: turn_defs split: if_splits)
qed

lemma order_inv_reach: "order_reach E oid chk S s \<Longrightarrow> order_inv E oid s"
  by (induction rule: order_reach.induct) (auto intro: order_inv_start order_inv_turn)

lemma order_inv_created:
  assumes "order_inv E oid s" and "DoCreateBid b p \<in> set (os_actions s)"
  shows "os_bidch s \<or> os_bidPlaced s" and "os_group s \<noteq> None"
proof -
  have "os_reservation s \<and> (os_bidch s \<or> os_bidPlaced s)"
    and g: "os_reservation s \<longrightarrow> os_group s \<noteq> None"
    using assms unfolding order_inv_def by (elim conjE, blast)+
  then show "os_bidch s \<or> os_bidPlaced s" "os_group s \<noteq> None" by simp_all
qed

text \<open>What is left when the loop is left, by the event that ends it.\<close>

lemma turn_break:
  assumes "order_turn E oid s ev = BreakLoop s'"
  shows "(\<forall>b p. DoCreateBid b p \<in> set (os_actions s') \<longleftrightarrow> DoCreateBid b p \<in> set (os_actions s)) \<and>
    (DoReserve oid \<in> set (os_actions s') \<longleftrightarrow> DoReserve oid \<in> set (os_actions s)) \<and>
    (ev \<noteq> ClusterResult False \<longrightarrow> (os_clusterch s \<or> os_reservation s \<longrightarrow> os_clusterch s' \<or> os_reservation s')) \<and>
    (os_won s' \<longrightarrow> os_won s \<or> (\<exists>l. ev = LeaseCreated l \<and> lease_group_id l = order_group_id oid \<and> l_provider l = provider_address E))"
  using assms
  by (cases ev) (auto simp: turn_defs split: if_splits option.splits sum.splits query_bid.splits)

lemma turn_break_placed:
  assumes "order_turn E oid s ev = BreakLoop s'" and "os_bidch s \<or> os_bidPlaced s"
    and "order_inv E oid s"
    and "ev \<noteq> ShutdownRequested" "ev \<noteq> OrderClosed oid" "ev \<noteq> BidResult False"
    and "\<forall>b. ev = BidClosedEvent b \<longrightarrow> l_provider b \<noteq> provider_string E"
    and "os_bidch s \<longrightarrow> os_group s \<noteq> None"
    and "\<exists>b p. DoCreateBid b p \<in> set (os_actions s)"
  shows "os_won s' \<or> os_bidPlaced s'"
  using assms
  by (cases ev) (auto simp: turn_defs order_inv_def split: if_splits option.splits sum.splits query_bid.splits)

lemma cleanup_actions:
  "DoUnreserve oid \<in> set (os_actions (order_cleanup E oid pending s)) \<longleftrightarrow>
     DoUnreserve oid \<in> set (os_actions s) \<or> (\<not> os_won s \<and> (os_reservation s \<or> (os_clusterch s \<and> pending)))"
  "DoCloseBid b \<in> set (os_actions (order_cleanup E oid pending s)) \<longleftrightarrow>
     DoCloseBid b \<in> set (os_actions s) \<or> (\<not> os_won s \<and> os_bidPlaced s \<and> b = order_bid_id E oid)"
  "DoReserve oid \<in> set (os_actions (order_cleanup E oid pending s)) \<longleftrightarrow> DoReserve oid \<in> set (os_actions s)"
  "DoCreateBid c q \<in> set (os_actions (order_cleanup E oid pending s)) \<longleftrightarrow> DoCreateBid c q \<in> set (os_actions s)"
  "os_won (order_cleanup E oid pending s) = os_won s"
  by (auto simp: order_cleanup_def act_def Let_def)

section \<open>Properties\<close>

text \<open>C1: a reservation never leaks. If an order's run asked the cluster for a reservation, and
  the cluster did not refuse it (neither in the loop nor while it was awaited in the
  clean-up), then the run ends with the lease won or with the reservation cancelled.\<close>

theorem reservation_never_leaks:
  assumes "order_run E oid chk True evs = (s, True)" and "DoReserve oid \<in> set (os_actions s)"
    and "ClusterResult False \<notin> set evs"
  shows "os_won s \<or> DoUnreserve oid \<in> set (os_actions s)"
proof -
  from order_run_left[OF assms(1)] obtain s0 ev s1 where r: "order_reach E oid chk (set evs) s0" "ev \<in> set evs"
    and t: "order_turn E oid s0 ev = BreakLoop s1" and s: "s = order_cleanup E oid True s1" by blast
  have "DoReserve oid \<in> set (os_actions s0)" using assms(2) turn_break[OF t] by (simp add: s cleanup_actions)
  then have "os_clusterch s0 \<or> os_reservation s0" using order_inv_reach[OF r(1)] by (simp add: order_inv_def)
  moreover have "ev \<noteq> ClusterResult False" using assms(3) r(2) by blast
  ultimately have "os_clusterch s1 \<or> os_reservation s1" using turn_break[OF t] by blast
  then show ?thesis by (auto simp: s cleanup_actions)
qed

text \<open>A run only ever broadcasts the provider's bid on the order.\<close>

lemma created_bid_own:
  assumes "order_reach E oid chk S s" and "DoCreateBid b p \<in> set (os_actions s)"
  shows "b = order_bid_id E oid"
  using assms
proof (induction rule: order_reach.induct)
  case start
  then show ?case by (auto simp: order_start_def act_def Let_def split: if_splits)
next
  case (turn s ev s')
  have "DoCreateBid b p \<in> set (os_actions s) \<or> b = order_bid_id E oid"
    using turn.hyps(3) turn.prems
    by (cases ev) (auto simp: turn_defs split: if_splits option.splits sum.splits query_bid.splits)
  then show ?case using turn.IH by blast
qed

text \<open>C5: a bid that was placed is closed unless it won. If a run broadcast the bid \<open>b\<close>, the
  broadcast did not fail, no event reported a bid of the provider closed, and the run was
  neither shut down nor ended by the order being closed, then \<open>b\<close> is the provider's bid on
  this order, and the run ends with the lease won, an event having announced a lease of the
  order's group to the provider, or with \<open>b\<close> itself closed.\<close>

theorem placed_bid_closed:
  assumes "order_run E oid chk pending evs = (s, True)" and "DoCreateBid b p \<in> set (os_actions s)"
    and "ShutdownRequested \<notin> set evs" "OrderClosed oid \<notin> set evs" "BidResult False \<notin> set evs"
    and "\<forall>c. BidClosedEvent c \<in> set evs \<longrightarrow> l_provider c \<noteq> provider_string E"
  shows "b = order_bid_id E oid \<and>
    (os_won s \<and> (\<exists>l. LeaseCreated l \<in> set evs \<and> lease_group_id l = order_group_id oid \<and> l_provider l = provider_address E) \<or>
     DoCloseBid b \<in> set (os_actions s))"
proof -
  from order_run_left[OF assms(1)] obtain s0 ev s1 where r: "order_reach E oid chk (set evs) s0" "ev \<in> set evs"
    and t: "order_turn E oid s0 ev = BreakLoop s1" and s: "s = order_cleanup E oid pending s1" by blast
  note inv = order_inv_reach[OF r(1)]
  have c: "DoCreateBid b p \<in> set (os_actions s0)" using assms(2) turn_break[OF t] by (simp add: s cleanup_actions)
  note created = order_inv_created[OF inv this]
  have "os_won s1 \<or> os_bidPlaced s1"
    by (rule turn_break_placed[OF t created(1) inv]) (use created(2) c r(2) assms(3-6) in auto)
  moreover have "\<exists>l. LeaseCreated l \<in> set evs \<and> lease_group_id l = order_group_id oid \<and> l_provider l = provider_address E" if "os_won s1"
    using that turn_break[OF t] inv r(2) unfolding order_inv_def by blast
  ultimately show ?thesis using created_bid_own[OF r(1) c] by (auto simp: s cleanup_actions)
qed

text \<open>What every reachable state satisfies about reservations and bids.\<close>

definition bid_ok :: "order_env \<Rightarrow> order_id \<Rightarrow> order_state \<Rightarrow> bool" where
  "bid_ok E oid s \<longleftrightarrow>
     (os_clusterch s \<or> os_reservation s \<or> DoReserve oid \<in> set (os_actions s) \<longrightarrow> (\<exists>g. os_group s = Some g \<and> shouldBid E g = Inr True)) \<and>
     (\<forall>b p. DoCreateBid b p \<in> set (os_actions s) \<longrightarrow> b = order_bid_id E oid \<and> DoReserve oid \<in> set (os_actions s) \<and>
        (\<exists>g. os_group s = Some g \<and> Denom p = Denom (og_price g) \<and> Amount p \<le> Amount (og_price g)))"

lemma bid_ok_turn:
  assumes "order_inv E oid s" and "bid_ok E oid s" and "order_turn E oid s ev = Continue s'"
    and "\<forall>r g. ev = ShouldBidResult r \<and> os_group s = Some g \<longrightarrow> r = shouldBid E g"
  shows "bid_ok E oid s'"
proof (cases ev)
  case (QueryBidResult q)
  then show ?thesis using assms by (clarsimp simp: turn_defs bid_ok_def split: if_splits query_bid.splits)
next
  case (GroupResult r)
  then show ?thesis using assms by (auto simp: turn_defs bid_ok_def order_inv_def split: if_splits option.splits)
next
  case (ShouldBidResult r)
  then show ?thesis using assms by (auto simp: turn_defs bid_ok_def order_inv_def split: if_splits sum.splits)
next
  case (ClusterResult r)
  then show ?thesis using assms by (clarsimp simp: turn_defs bid_ok_def split: if_splits option.splits)
next
  case (PriceResult r)
  then show ?thesis using assms by (clarsimp simp: turn_defs bid_ok_def order_inv_def split: if_splits option.splits)
next
  case (BidResult r)
  then show ?thesis using assms by (clarsimp simp: turn_defs bid_ok_def split: if_splits)
qed (use assms in \<open>auto simp: turn_defs split: if_splits\<close>)

lemma group_from_event: "order_reach E oid chk S s \<Longrightarrow> os_group s = Some g \<Longrightarrow> GroupResult (Some g) \<in> S"
proof (induction arbitrary: g rule: order_reach.induct)
  case start
  then show ?case by (auto simp: order_start_def act_def Let_def split: if_splits)
next
  case (turn s ev s')
  have "os_group s' = os_group s \<or> (\<exists>h. ev = GroupResult (Some h) \<and> os_group s' = Some h)"
    using turn.hyps(3) by (cases ev) (auto simp: turn_defs split: if_splits option.splits sum.splits query_bid.splits)
  then show ?case
  proof
    assume "os_group s' = os_group s"
    then show ?thesis using turn.IH turn.prems by metis
  next
    assume "\<exists>h. ev = GroupResult (Some h) \<and> os_group s' = Some h"
    then show ?thesis using turn.hyps(2) turn.prems by auto
  qed
qed

lemma bid_ok_reach:
  assumes "order_reach E oid chk S s"
    and "\<forall>r g. ShouldBidResult r \<in> S \<and> GroupResult (Some g) \<in> S \<longrightarrow> r = shouldBid E g"
  shows "bid_ok E oid s"
  using assms(1)
proof (induction rule: order_reach.induct)
  case start
  then show ?case by (simp add: bid_ok_def order_start_def act_def Let_def)
next
  case (turn s ev s')
  have "\<forall>r g. ev = ShouldBidResult r \<and> os_group s = Some g \<longrightarrow> r = shouldBid E g"
    using turn.hyps assms(2) group_from_event by blast
  then show ?case using bid_ok_turn order_inv_reach turn by blast
qed

lemma shouldBid_yes:
  assumes "shouldBid E g = Inr True"
  shows "PirAllocationAllowed (env_world E)" "match_attributes E g" "cfg_subset E g" "volumes_ok E g" "validate_basic E g"
    "\<exists>attr. get_attributes E = Some attr \<and> match_resources E g attr"
    "SignedBy_AllOf g = [] \<and> SignedBy_AnyOf g = [] \<or>
     (\<exists>pa. fetch_signatures E [] (SignedBy_AllOf g @ SignedBy_AnyOf g)
        [\<lparr>ap_Owner = provider_owner E, ap_Auditor = [], ap_Attributes = provider_attributes E\<rparr>] = Inr pa \<and> match_requirements E g pa)"
  using assms by (auto simp: shouldBid_def split: if_splits option.splits sum.splits)

lemma turn_break_group:
  "order_turn E oid s ev = BreakLoop s' \<Longrightarrow> os_group s' = os_group s"
  by (cases ev) (auto simp: turn_defs split: if_splits option.splits sum.splits query_bid.splits)

text \<open>C6: no bid without the gate, the group's consent and an affordable price. When the answers of
  the bid check are those of \<open>shouldBid\<close> for the group that was fetched, every bid a run
  broadcasts is the provider's own bid on the order, is made in the group's denomination at
  most at the group's price, and follows a reservation; and the allocation gate was open, the
  provider's attributes and those configured matched the group, the attributes fetched met its
  resource requirements, no unit had too many volumes, the group was well-formed, and, unless
  the group asks for no signatures, those of all its auditors were fetched and met its
  requirements.\<close>

theorem bid_is_justified:
  assumes "order_run E oid chk pending evs = (s, True)" and "DoCreateBid b p \<in> set (os_actions s)"
    and "\<forall>r g. ShouldBidResult r \<in> set evs \<and> GroupResult (Some g) \<in> set evs \<longrightarrow> r = shouldBid E g"
  shows "b = order_bid_id E oid \<and> DoReserve oid \<in> set (os_actions s) \<and>
    (\<exists>g. GroupResult (Some g) \<in> set evs \<and> Denom p = Denom (og_price g) \<and> Amount p \<le> Amount (og_price g) \<and>
       PirAllocationAllowed (env_world E) \<and> match_attributes E g \<and> cfg_subset E g \<and> volumes_ok E g \<and> validate_basic E g \<and>
       (\<exists>attr. get_attributes E = Some attr \<and> match_resources E g attr) \<and>
       (SignedBy_AllOf g = [] \<and> SignedBy_AnyOf g = [] \<or>
        (\<exists>pa. fetch_signatures E [] (SignedBy_AllOf g @ SignedBy_AnyOf g)
           [\<lparr>ap_Owner = provider_owner E, ap_Auditor = [], ap_Attributes = provider_attributes E\<rparr>] = Inr pa \<and> match_requirements E g pa)))"
proof -
  from order_run_left[OF assms(1)] obtain s0 ev s1 where r: "order_reach E oid chk (set evs) s0" "ev \<in> set evs"
    and t: "order_turn E oid s0 ev = BreakLoop s1" and s: "s = order_cleanup E oid pending s1" by blast
  have c: "DoCreateBid b p \<in> set (os_actions s0)" using assms(2) turn_break[OF t] by (simp add: s cleanup_actions)
  from bid_ok_reach[OF r(1) assms(3)] c obtain g where b: "b = order_bid_id E oid" "DoReserve oid \<in> set (os_actions s0)"
    and g: "os_group s0 = Some g" "Denom p = Denom (og_price g)" "Amount p \<le> Amount (og_price g)"
    unfolding bid_ok_def by blast
  have y: "shouldBid E g = Inr True" using bid_ok_reach[OF r(1) assms(3)] b(2) g(1) unfolding bid_ok_def by auto
  have "DoReserve oid \<in> set (os_actions s)" using b(2) turn_break[OF t] by (simp add: s cleanup_actions)
  then show ?thesis
    by (intro conjI exI[of _ g] b(1) g(2,3) shouldBid_yes[OF y] group_from_event[OF r(1) g(1)])
qed

text \<open>An environment and a run for the witnesses: the group is fetched, approved, reserved and priced.\<close>

definition ex_bid_env :: order_env where
  "ex_bid_env = \<lparr>env_world = toy_world, provider_address = ''akash1p'', provider_string = ''owner: akash1p'', provider_owner = ''akash1p'',
     provider_attributes = [], match_attributes = (\<lambda>_. True), cfg_subset = (\<lambda>_. True), get_attributes = Some [],
     match_resources = (\<lambda>_ _. True), MaxGroupVolumes = 4, auditor_signatures = (\<lambda>_. Some []), match_requirements = (\<lambda>_ _. True),
     validate_basic = (\<lambda>_. True), BidTimeout = 300000000000, CreatedAtBlockHeight = 1000\<rparr>"

definition ex_oid :: order_id where
  "ex_oid = \<lparr>o_owner = ''owner'', o_dseq = 1, o_gseq = 1, o_oseq = 1\<rparr>"

definition ex_bid_group :: order_group where
  "ex_bid_group = \<lparr>og_name = ''web'', og_units = [], og_price = \<lparr>Denom = ''uakt'', Amount = 10\<rparr>, SignedBy_AllOf = [], SignedBy_AnyOf = []\<rparr>"

definition ex_price :: dec_coin where
  "ex_price = \<lparr>Denom = ''uakt'', Amount = 7\<rparr>"

definition bid_prefix :: "order_event list" where
  "bid_prefix = [GroupResult (Some ex_bid_group), ShouldBidResult (Inr True), ClusterResult True, PriceResult (Some ex_price)]"

definition lost_lease :: lease_id where
  "lost_lease = make_bid_id ex_oid ''akash1other''"

definition lost_events :: "order_event list" where
  "lost_events = bid_prefix @ [BidResult True, LeaseCreated lost_lease]"

definition lost_run :: order_state where
  "lost_run = fst (order_run ex_bid_env ex_oid False True lost_events)"

lemmas bid_run_simps = order_run_def order_start_def turn_defs lost_events_def bid_prefix_def ex_bid_group_def ex_price_def
  ex_bid_env_def lost_lease_def lease_group_id_order order_cleanup_def

lemma lost_provider [simp]: "l_provider (make_bid_id o1 p) = p"
  by (simp add: make_bid_id_def)

lemma lost_run_left: "order_run ex_bid_env ex_oid False True lost_events = (lost_run, True)"
proof -
  have "snd (order_run ex_bid_env ex_oid False True lost_events)" by (simp add: bid_run_simps)
  then show ?thesis unfolding lost_run_def by (metis prod.collapse)
qed

lemma lost_run_actions:
  "DoReserve ex_oid \<in> set (os_actions lost_run)"
  "DoCreateBid (order_bid_id ex_bid_env ex_oid) ex_price \<in> set (os_actions lost_run)"
  by (simp_all add: lost_run_def bid_run_simps)

lemma lost_events_answers:
  "\<forall>r g. ShouldBidResult r \<in> set lost_events \<and> GroupResult (Some g) \<in> set lost_events \<longrightarrow> r = shouldBid ex_bid_env g"
  by (auto simp: lost_events_def bid_prefix_def shouldBid_def ex_bid_env_def PirAllocationAllowed_def pirMode_def
      toy_world_def volumes_ok_def ex_bid_group_def)

theorem reservation_never_leaks_witness:
  "os_won lost_run \<or> DoUnreserve ex_oid \<in> set (os_actions lost_run)"
  by (rule reservation_never_leaks[OF lost_run_left lost_run_actions(1)]) (simp add: lost_events_def bid_prefix_def)

theorem placed_bid_closed_witness:
  "\<not> os_won lost_run \<and> DoCloseBid (order_bid_id ex_bid_env ex_oid) \<in> set (os_actions lost_run)"
proof -
  have "\<not> os_won lost_run" by (simp add: lost_run_def bid_run_simps)
  then show ?thesis
    using placed_bid_closed[OF lost_run_left lost_run_actions(2)] by (simp add: lost_events_def bid_prefix_def)
qed

theorem bid_is_justified_witness:
  "\<exists>g. GroupResult (Some g) \<in> set lost_events \<and> Denom ex_price = Denom (og_price g) \<and> Amount ex_price \<le> Amount (og_price g) \<and>
     PirAllocationAllowed (env_world ex_bid_env) \<and>
     (\<exists>attr. get_attributes ex_bid_env = Some attr \<and> match_resources ex_bid_env g attr)"
  using bid_is_justified[OF lost_run_left lost_run_actions(2) lost_events_answers] by blast

text \<open>a bid in flight is forgotten at shutdown. When a shutdown request or the closing of the
  order reaches the loop after a bid has been broadcast and before its result is known, the
  run cancels the reservation but sends no message to close the bid, although the bid may
  still land on the chain (a lease lost in the same situation does close it).\<close>

theorem shutdown_forgets_bid_in_flight:
  assumes "Denom price = Denom (og_price g)" and "Amount price \<le> Amount (og_price g)"
    and "stop = ShutdownRequested \<or> stop = OrderClosed oid"
    and "order_run E oid False pending [GroupResult (Some g), ShouldBidResult (Inr True), ClusterResult True, PriceResult (Some price), stop] = (s, left)"
  shows "left \<and> DoCreateBid (order_bid_id E oid) price \<in> set (os_actions s) \<and> DoUnreserve oid \<in> set (os_actions s) \<and>
    (\<forall>b. DoCloseBid b \<notin> set (os_actions s)) \<and>
    (\<forall>l. lease_group_id l = order_group_id oid \<and> l_provider l \<noteq> provider_address E \<longrightarrow>
       DoCloseBid (order_bid_id E oid) \<in> set (os_actions (fst (order_run E oid False pending
         [GroupResult (Some g), ShouldBidResult (Inr True), ClusterResult True, PriceResult (Some price), LeaseCreated l]))))"
  using assms by (auto simp: order_run_def order_start_def turn_defs order_cleanup_def)

theorem shutdown_forgets_bid_in_flight_witness:
  "\<exists>s. order_run ex_bid_env ex_oid False True (bid_prefix @ [ShutdownRequested]) = (s, True) \<and>
     DoCreateBid (order_bid_id ex_bid_env ex_oid) ex_price \<in> set (os_actions s) \<and> (\<forall>b. DoCloseBid b \<notin> set (os_actions s))"
proof -
  obtain s left where r: "order_run ex_bid_env ex_oid False True
      [GroupResult (Some ex_bid_group), ShouldBidResult (Inr True), ClusterResult True, PriceResult (Some ex_price), ShutdownRequested] = (s, left)"
    by fastforce
  have "Denom ex_price = Denom (og_price ex_bid_group)" "Amount ex_price \<le> Amount (og_price ex_bid_group)"
    by (simp_all add: ex_price_def ex_bid_group_def)
  from shutdown_forgets_bid_in_flight[OF this disjI1[OF refl] r] r show ?thesis by (auto simp: bid_prefix_def)
qed

text \<open>a bid closed from outside goes unnoticed. The loop compares the provider of the event
  with \<open>Provider().String()\<close>, not with the provider's address, so, those two being different
  texts, the closing of the provider's own bid is ignored and the run goes on unchanged.\<close>

theorem external_bid_close_ignored:
  assumes "provider_string E \<noteq> provider_address E"
  shows "order_turn E oid s (BidClosedEvent (order_bid_id E oid)) = Continue s"
  using assms by (simp add: order_turn_unfold order_bid_id_def make_bid_id_def)

theorem external_bid_close_ignored_witness:
  "order_turn ex_bid_env ex_oid (order_start False) (BidClosedEvent (order_bid_id ex_bid_env ex_oid)) = Continue (order_start False)"
  by (rule external_bid_close_ignored) (simp add: ex_bid_env_def)

text \<open>old bids are never found stale. For a bid created before the session started (by at
  most \<open>10\<^sup>9\<close> blocks), \<open>isStaleBid\<close> is false whatever the timeout: the age is computed as the
  bid's height minus the session's, which is not positive.\<close>

theorem old_bid_never_stale:
  assumes "c \<le> CreatedAtBlockHeight E" and "unat (CreatedAtBlockHeight E - c) \<le> 1000000000"
  shows "\<not> isStaleBid E c"
proof -
  define d where "d = unat (CreatedAtBlockHeight E - c)"
  have d: "int d \<le> 1000000000" using assms(2) unfolding d_def by linarith
  have "CreatedAtBlockHeight E - c = of_nat d" by (simp add: d_def)
  then have e: "c - CreatedAtBlockHeight E = - of_nat d" by (metis minus_diff_eq)
  have "(c - CreatedAtBlockHeight E) * 5000000000 = word_of_int (- (int d * 5000000000))"
    by (simp add: e)
  moreover have "sint (word_of_int (- (int d * 5000000000)) :: u64) = - (int d * 5000000000)"
    unfolding sint_sbintrunc' by (rule signed_take_bit_int_eq_self) (use d in simp_all)
  ultimately have "sint ((c - CreatedAtBlockHeight E) * 5000000000) \<le> 0" by simp
  then show ?thesis by (auto simp: isStaleBid_def bidTimeoutEnabled_def Let_def)
qed

theorem old_bid_never_stale_witness: "\<not> isStaleBid ex_bid_env 1"
  by (rule old_bid_never_stale) (simp_all add: ex_bid_env_def)

end
