(* ===== verification/Pricing.thy ===== *)
theory Pricing
  imports Complex_Main BidOrder
begin

text \<open>
  The built-in pricing strategies (\<open>bidengine/pricing.go\<close>). Decimals are rationals: sums and
  products of \<open>decimal.Decimal\<close> are exact, its division and the conversion to the chain's
  18-digit decimals are parameters. Amounts of coins are in units of \<open>10\<^sup>-\<^sup>1\<^sup>8\<close>, as in
  \<open>BidOrder\<close>. A map of storage scales is an association list with distinct keys; its iteration
  order does not matter, as sums are exact.
\<close>

section \<open>Storage scales\<close>

type_synonym storage_scale = "(string \<times> rat) list"

definition IsAnyZero :: "storage_scale \<Rightarrow> bool" where
  "IsAnyZero ss = (if ss = [] then True else list_ex (\<lambda>(k, v). v = 0) ss)"

definition IsAnyNegative :: "storage_scale \<Rightarrow> bool" where
  "IsAnyNegative ss = list_ex (\<lambda>(k, v). v < 0) ss"

definition AllLessThenOrEqual :: "storage_scale \<Rightarrow> rat \<Rightarrow> bool" where
  "AllLessThenOrEqual ss val = list_all (\<lambda>(k, v). v \<le> val) ss"

record scale_pricing =
  cpuScale :: rat
  memoryScale :: rat
  storageScale :: storage_scale
  endpointScale :: rat
  ipScale :: rat

datatype price_error =
    errAllScalesZero | errScaleNegative | errNoPriceScaleForStorageClass string
  | ErrBidQuantityInvalid | ErrBidZero | ErrLegacyDec | ErrRandom | PricePanicNil | PricePanicInt64

definition MakeScalePricing :: "rat \<Rightarrow> rat \<Rightarrow> storage_scale \<Rightarrow> rat \<Rightarrow> rat \<Rightarrow> price_error + scale_pricing" where
  "MakeScalePricing cpu mem st ep ip =
     (if cpu = 0 \<and> mem = 0 \<and> IsAnyZero st \<and> ep = 0 \<and> ip = 0 then Inl errAllScalesZero
      else if cpu < 0 \<or> mem < 0 \<or> IsAnyNegative st \<or> ep < 0 \<or> ip < 0 then Inl errScaleNegative
      else Inr \<lparr>cpuScale = cpu, memoryScale = mem, storageScale = st, endpointScale = ep, ipScale = ip\<rparr>)"

definition ceilBigRatToBigInt :: "rat \<Rightarrow> int" where
  "ceilBigRatToBigInt v = (case quotient_of v of (n, d) \<Rightarrow>
     if d = 1 then n div d else n div d + 1)"

section \<open>Scale pricing\<close>

text \<open>
  The priced group. \<open>div_mi\<close> is \<open>Decimal.Div\<close> by one mebibyte, \<open>legacy_dec\<close> is
  \<open>LegacyNewDecFromStr\<close> of the decimal's text (\<open>None\<close> on an error; the result in units of
  \<open>10\<^sup>-\<^sup>1\<^sup>8\<close>), \<open>max_sortable\<close> is \<open>LegacyMaxSortableDec\<close>, \<open>storage_class_of\<close> reads the class of a
  persistent volume (\<open>None\<close> when the attribute is not set) and \<open>ephemeral_class\<close> is
  \<open>sdl.StorageEphemeral\<close>.
\<close>

record price_env =
  div_mi :: "rat \<Rightarrow> rat"
  legacy_dec :: "rat \<Rightarrow> int option"
  max_sortable :: int
  is_persistent :: "attributes \<Rightarrow> bool"
  storage_class_of :: "attributes \<Rightarrow> string option"
  ephemeral_class :: string

definition volume_class :: "price_env \<Rightarrow> storage_req \<Rightarrow> string" where
  "volume_class P s =
     (if is_persistent P (sr_Attributes s) then
        (case storage_class_of P (sr_Attributes s) of Some c \<Rightarrow> c | None \<Rightarrow> ephemeral_class P)
      else ephemeral_class P)"

definition update_total :: "string \<Rightarrow> rat \<Rightarrow> storage_scale \<Rightarrow> storage_scale" where
  "update_total cls q totals = map (\<lambda>(k, v). if k = cls then (k, v + q) else (k, v)) totals"

fun add_volumes :: "price_env \<Rightarrow> rat \<Rightarrow> storage_req list \<Rightarrow> storage_scale \<Rightarrow> price_error + storage_scale" where
  "add_volumes P cnt [] totals = Inr totals"
| "add_volumes P cnt (s # ss) totals =
     (let cls = volume_class P s in
      if map_of totals cls = None then Inl (errNoPriceScaleForStorageClass cls)
      else add_volumes P cnt ss (update_total cls (of_nat (sr_Quantity s) * cnt) totals))"

record price_totals =
  cpuTotal :: rat
  memoryTotal :: rat
  storageTotal :: storage_scale
  endpointTotal :: rat

fun sum_units_price :: "price_env \<Rightarrow> resource_unit list \<Rightarrow> price_totals \<Rightarrow> price_error + price_totals" where
  "sum_units_price P [] t = Inr t"
| "sum_units_price P (u # us) t =
     (let cnt = of_nat (ru_Count u); r = ru_Resources u in
      case (res_CPU r, res_Memory r) of
        (Some cpu, Some mem) \<Rightarrow>
          (case add_volumes P cnt (res_Storage r) (storageTotal t) of
             Inl e \<Rightarrow> Inl e
           | Inr st \<Rightarrow> sum_units_price P us
               \<lparr>cpuTotal = cpuTotal t + of_nat (cpu_Units cpu) * cnt,
                memoryTotal = memoryTotal t + of_nat mem * cnt,
                storageTotal = st,
                endpointTotal = endpointTotal t + of_nat (length (res_Endpoints r))\<rparr>)
      | _ \<Rightarrow> Inl PricePanicNil)"

definition scale_storage :: "price_env \<Rightarrow> scale_pricing \<Rightarrow> storage_scale \<Rightarrow> storage_scale" where
  "scale_storage P fp totals = map (\<lambda>(k, v). (k, div_mi P v * (case map_of (storageScale fp) k of None \<Rightarrow> 0 | Some s \<Rightarrow> s))) totals"

definition scale_CalculatePrice :: "price_env \<Rightarrow> scale_pricing \<Rightarrow> order_group \<Rightarrow> price_error + dec_coin" where
  "scale_CalculatePrice P fp g =
     (let ipTotal = ipScale fp * of_nat (GetEndpointQuantityOfResourceGroup (GroupSpecPtr (og_name g) [] (og_units g)) Endpoint_LEASED_IP)
      in case sum_units_price P (og_units g)
            \<lparr>cpuTotal = 0, memoryTotal = 0, storageTotal = map (\<lambda>(k, v). (k, 0)) (storageScale fp), endpointTotal = 0\<rparr> of
           Inl e \<Rightarrow> Inl e
         | Inr t \<Rightarrow>
            let cpu = cpuTotal t * cpuScale fp;
                mem = div_mi P (memoryTotal t) * memoryScale fp;
                st = scale_storage P fp (storageTotal t);
                ep = endpointTotal t * endpointScale fp
            in if cpu < 0 \<or> mem < 0 \<or> IsAnyNegative st \<or> ep < 0 \<or> ipTotal < 0 then Inl ErrBidQuantityInvalid
               else
                 let totalCost = cpu + mem + sum_list (map snd st) + ep + ipTotal in
                 if totalCost < 0 then Inl ErrBidQuantityInvalid
                 else if totalCost = 0 then Inl ErrBidZero
                 else (case legacy_dec P totalCost of
                         None \<Rightarrow> Inl ErrLegacyDec
                       | Some c \<Rightarrow> if \<not> c \<le> max_sortable P then Inl ErrBidQuantityInvalid
                                   else Inr \<lparr>Denom = Denom (og_price g), Amount = c\<rparr>))"

section \<open>Random pricing\<close>

definition dec_one :: int where
  "dec_one = 10 ^ 18"

definition calculatePriceRange :: "order_group \<Rightarrow> price_error + dec_coin \<times> dec_coin" where
  "calculatePriceRange g =
     (if list_ex (\<lambda>u. res_Memory (ru_Resources u) = None) (og_units g) then Inl PricePanicNil
      else
      let mem = sum_list (map (\<lambda>u. int (case res_Memory (ru_Resources u) of None \<Rightarrow> 0 | Some m \<Rightarrow> m) * int (ru_Count u)) (og_units g));
          rmax = og_price g;
          cmin0 = (mem * 50 div 1073741824) * dec_one;
          cmax0 = (mem * 1048576 div 1073741824) * dec_one;
          cmax1 = (if cmax0 > Amount rmax then Amount rmax else cmax0);
          cmin = (if cmin0 = 0 then dec_one else cmin0);
          cmax = (if cmax1 = 0 then dec_one else cmax1)
      in Inr (\<lparr>Denom = Denom rmax, Amount = cmin\<rparr>, \<lparr>Denom = Denom rmax, Amount = cmax\<rparr>))"

text \<open>
  \<open>rnd n\<close> is \<open>rand.Int\<close> below \<open>n\<close> (\<open>None\<close> on an error). \<open>TruncateInt64\<close> and \<open>QuoInt64\<close> truncate;
  \<open>TruncateInt64\<close> panics on a value beyond 64 bits (\<open>None\<close>).
\<close>

definition random_bound :: "int \<Rightarrow> int \<Rightarrow> int option" where
  "random_bound lo hi =
     (let delta = (hi - lo) * 10000;
          minbid = (if 0 \<le> delta then delta div dec_one else - ((- delta) div dec_one))
      in if minbid < - (2 ^ 63) \<or> 2 ^ 63 \<le> minbid then None
         else Some (if minbid < 1 then 1 else minbid))"

definition random_CalculatePrice :: "(int \<Rightarrow> int option) \<Rightarrow> order_group \<Rightarrow> price_error + dec_coin" where
  "random_CalculatePrice rnd g =
     (case calculatePriceRange g of
        Inl e \<Rightarrow> Inl e
      | Inr (minPrice, maxPrice) \<Rightarrow>
          if minPrice = maxPrice then Inr maxPrice
          else
            (case random_bound (Amount minPrice) (Amount maxPrice) of
               None \<Rightarrow> Inl PricePanicInt64
             | Some minbid \<Rightarrow>
                (case rnd minbid of
                   None \<Rightarrow> Inl ErrRandom
                 | Some val \<Rightarrow>
                     Inr \<lparr>Denom = Denom minPrice, Amount = Amount minPrice + val * dec_one div 10000 div 100\<rparr>)))"

section \<open>Lemmas\<close>

text \<open>The volumes of a class over all units, in replicas times bytes.\<close>

definition class_bytes :: "price_env \<Rightarrow> string \<Rightarrow> storage_req list \<Rightarrow> rat" where
  "class_bytes P cls ss = sum_list (map (\<lambda>s. if volume_class P s = cls then of_nat (sr_Quantity s) else 0) ss)"

lemma update_total_map: "map fst (update_total c q ts) = map fst ts"
  by (induction ts) (auto simp: update_total_def)

lemma add_volumes_total:
  "add_volumes P cnt ss ts = Inr ts' \<Longrightarrow> ts' = map (\<lambda>(k, v). (k, v + class_bytes P k ss * cnt)) ts"
proof (induction ss arbitrary: ts)
  case Nil
  then show ?case by (simp add: class_bytes_def)
next
  case (Cons s ss)
  then have "add_volumes P cnt ss (update_total (volume_class P s) (of_nat (sr_Quantity s) * cnt) ts) = Inr ts'"
    by (simp add: Let_def split: if_splits)
  from Cons.IH[OF this] show ?case
    by (auto simp: update_total_def class_bytes_def algebra_simps)
qed

lemma sum_units_total:
  assumes "sum_units_price P us t = Inr t'"
  shows "cpuTotal t' = cpuTotal t + (\<Sum>u \<leftarrow> us. of_nat (case res_CPU (ru_Resources u) of None \<Rightarrow> 0 | Some c \<Rightarrow> cpu_Units c) * of_nat (ru_Count u)) \<and>
    memoryTotal t' = memoryTotal t + (\<Sum>u \<leftarrow> us. of_nat (case res_Memory (ru_Resources u) of None \<Rightarrow> 0 | Some m \<Rightarrow> m) * of_nat (ru_Count u)) \<and>
    storageTotal t' = map (\<lambda>(k, v). (k, v + (\<Sum>u \<leftarrow> us. class_bytes P k (res_Storage (ru_Resources u)) * of_nat (ru_Count u)))) (storageTotal t) \<and>
    endpointTotal t' = endpointTotal t + (\<Sum>u \<leftarrow> us. of_nat (length (res_Endpoints (ru_Resources u))))"
  using assms
proof (induction us arbitrary: t)
  case (Cons u us)
  from Cons.prems obtain c m st where c: "res_CPU (ru_Resources u) = Some c" "res_Memory (ru_Resources u) = Some m"
    and st: "add_volumes P (of_nat (ru_Count u)) (res_Storage (ru_Resources u)) (storageTotal t) = Inr st"
    and rest: "sum_units_price P us \<lparr>cpuTotal = cpuTotal t + of_nat (cpu_Units c) * of_nat (ru_Count u),
        memoryTotal = memoryTotal t + of_nat m * of_nat (ru_Count u), storageTotal = st,
        endpointTotal = endpointTotal t + of_nat (length (res_Endpoints (ru_Resources u)))\<rparr> = Inr t'"
    by (auto simp: Let_def split: option.splits sum.splits)
  from Cons.IH[OF rest] add_volumes_total[OF st] show ?case
    by (auto simp: c algebra_simps)
qed simp

section \<open>The contract of a pricing strategy\<close>

text \<open>
  \<open>BidPricingStrategy\<close>: a price is quoted in the denomination of the group. The order loop,
  fed with the quotes of such a strategy, only ever stops on a price that is too high.
\<close>

locale pricing_strategy =
  fixes quote :: "order_group \<Rightarrow> price_error + dec_coin"
  assumes quote_denom: "quote g = Inr c \<Longrightarrow> Denom c = Denom (og_price g)"
begin

lemma quote_bids:
  assumes "quote g = Inr c" and "os_pricech s" and "os_group s = Some g"
  shows "order_turn E oid s (PriceResult (Some c)) =
    (if Amount c \<le> Amount (og_price g)
     then Continue (act (DoCreateBid (order_bid_id E oid) c) (s\<lparr>os_pricech := False, os_bidch := True\<rparr>))
     else BreakLoop (s\<lparr>os_pricech := False\<rparr>))"
  using quote_denom[OF assms(1)] assms(2,3) by (simp add: order_turn_unfold Let_def)

end

interpretation scale: pricing_strategy "scale_CalculatePrice P fp"
  by unfold_locales (auto simp: scale_CalculatePrice_def Let_def split: sum.splits if_splits option.splits)

lemma priceRange_denom:
  "calculatePriceRange g = Inr (lo, hi) \<Longrightarrow> Denom lo = Denom (og_price g) \<and> Denom hi = Denom (og_price g)"
  unfolding calculatePriceRange_def Let_def by (auto split: if_split_asm)

interpretation random: pricing_strategy "random_CalculatePrice rnd"
proof
  fix g c assume r: "random_CalculatePrice rnd g = Inr c"
  then obtain lo hi where p: "calculatePriceRange g = Inr (lo, hi)"
    by (auto simp: random_CalculatePrice_def split: sum.splits)
  from r p have "Denom c = Denom lo \<or> c = hi"
    by (simp add: random_CalculatePrice_def Let_def split: if_splits option.splits) auto
  then show "Denom c = Denom (og_price g)" using priceRange_denom[OF p] by auto
qed

section \<open>Properties\<close>

text \<open>The cost of a group at given scales, in closed form.\<close>

definition group_cost :: "price_env \<Rightarrow> scale_pricing \<Rightarrow> order_group \<Rightarrow> rat" where
  "group_cost P fp g =
     (\<Sum>u \<leftarrow> og_units g. of_nat (case res_CPU (ru_Resources u) of None \<Rightarrow> 0 | Some c \<Rightarrow> cpu_Units c) * of_nat (ru_Count u)) * cpuScale fp +
     div_mi P (\<Sum>u \<leftarrow> og_units g. of_nat (case res_Memory (ru_Resources u) of None \<Rightarrow> 0 | Some m \<Rightarrow> m) * of_nat (ru_Count u)) * memoryScale fp +
     (\<Sum>(k, sc) \<leftarrow> storageScale fp. div_mi P (\<Sum>u \<leftarrow> og_units g. class_bytes P k (res_Storage (ru_Resources u)) * of_nat (ru_Count u)) * sc) +
     (\<Sum>u \<leftarrow> og_units g. of_nat (length (res_Endpoints (ru_Resources u)))) * endpointScale fp +
     ipScale fp * of_nat (GetEndpointQuantityOfResourceGroup (GroupSpecPtr (og_name g) [] (og_units g)) Endpoint_LEASED_IP)"

text \<open>C36: scale pricing charges the sum of the scaled amounts. When it quotes a price, the price
  is, in the group's denomination, the chain decimal of: CPU, memory and each class of storage
  over all replicas times their scales, plus the endpoints of the units and the distinct leased
  IPs times theirs; that cost is positive. GPUs are not charged.\<close>

theorem scale_price_is_group_cost:
  assumes "scale_CalculatePrice P fp g = Inr c" and "distinct (map fst (storageScale fp))"
  shows "legacy_dec P (group_cost P fp g) = Some (Amount c) \<and> Denom c = Denom (og_price g) \<and> 0 < group_cost P fp g"
proof -
  let ?t0 = "\<lparr>cpuTotal = 0, memoryTotal = 0, storageTotal = map (\<lambda>(k, v). (k, 0)) (storageScale fp), endpointTotal = 0\<rparr>"
  from assms(1) obtain t where t: "sum_units_price P (og_units g) ?t0 = Inr t"
    by (auto simp: scale_CalculatePrice_def Let_def split: sum.splits)
  note s = sum_units_total[OF t, simplified]
  let ?bytes = "\<lambda>k. \<Sum>u \<leftarrow> og_units g. class_bytes P k (res_Storage (ru_Resources u)) * of_nat (ru_Count u)"
  have "scale_storage P fp (storageTotal t) = map (\<lambda>(k, sc). (k, div_mi P (?bytes k) * sc)) (storageScale fp)"
    using s assms(2) by (auto simp: scale_storage_def map_of_eq_Some_iff[THEN iffD2] intro!: map_cong)
  then have st: "sum_list (map snd (scale_storage P fp (storageTotal t))) =
      (\<Sum>(k, sc) \<leftarrow> storageScale fp. div_mi P (?bytes k) * sc)"
    by (simp add: comp_def case_prod_unfold)
  have cost: "group_cost P fp g = cpuTotal t * cpuScale fp + div_mi P (memoryTotal t) * memoryScale fp +
      sum_list (map snd (scale_storage P fp (storageTotal t))) + endpointTotal t * endpointScale fp +
      ipScale fp * of_nat (GetEndpointQuantityOfResourceGroup (GroupSpecPtr (og_name g) [] (og_units g)) Endpoint_LEASED_IP)"
    unfolding group_cost_def st using s by presburger
  show ?thesis
    using assms(1) scale.quote_denom[OF assms(1)]
    by (auto simp: scale_CalculatePrice_def Let_def t cost split: if_splits option.splits)
qed

definition ex_price_env :: price_env where
  "ex_price_env = \<lparr>div_mi = (\<lambda>q. q / 1048576), legacy_dec = (\<lambda>q. Some \<lfloor>q * 10 ^ 18\<rfloor>), max_sortable = 10 ^ 36,
     is_persistent = (\<lambda>_. False), storage_class_of = (\<lambda>_. None), ephemeral_class = ''ephemeral''\<rparr>"

definition ex_scales :: scale_pricing where
  "ex_scales = \<lparr>cpuScale = 2, memoryScale = 0, storageScale = [], endpointScale = 0, ipScale = 0\<rparr>"

definition ex_priced_group :: order_group where
  "ex_priced_group = ex_bid_group\<lparr>og_units := [\<lparr>ru_Resources = \<lparr>res_ID = 1, res_CPU = Some \<lparr>cpu_Units = 10, cpu_Attributes = []\<rparr>,
       res_Memory = Some 0, res_GPU = None, res_Storage = [], res_Endpoints = []\<rparr>, ru_Count = 3\<rparr>]\<rparr>"

theorem scale_price_is_group_cost_witness:
  "group_cost ex_price_env ex_scales ex_priced_group > 0 \<and>
   legacy_dec ex_price_env (group_cost ex_price_env ex_scales ex_priced_group) = Some (60 * 10 ^ 18)"
proof -
  have "scale_CalculatePrice ex_price_env ex_scales ex_priced_group = Inr \<lparr>Denom = ''uakt'', Amount = 60 * 10 ^ 18\<rparr>"
    by (simp add: scale_CalculatePrice_def ex_price_env_def ex_scales_def ex_priced_group_def ex_bid_group_def Let_def
        scale_storage_def IsAnyNegative_def)
  from scale_price_is_group_cost[OF this] show ?thesis by (simp add: ex_scales_def)
qed

lemma random_bound_scaled:
  assumes "lo \<le> hi" and "0 \<le> v" and "random_bound lo hi = Some n" and "v < n"
  shows "v * dec_one div 10000 \<le> hi - lo"
proof -
  have one: "0 < dec_one" by (simp add: dec_one_def)
  have "0 \<le> (hi - lo) * 10000 div dec_one" using assms(1) one by (simp add: pos_imp_zdiv_nonneg_iff)
  then have "v \<le> (hi - lo) * 10000 div dec_one"
    using assms by (auto simp: random_bound_def Let_def split: if_splits)
  then have "v * dec_one \<le> (hi - lo) * 10000 div dec_one * dec_one" using one by simp
  also have "\<dots> \<le> (hi - lo) * 10000"
    using one pos_mod_sign[of dec_one "(hi - lo) * 10000"] by (simp add: minus_mod_eq_div_mult[symmetric])
  finally have "v * dec_one div 10000 \<le> (hi - lo) * 10000 div 10000" by (rule zdiv_mono1) simp
  then show ?thesis by simp
qed

text \<open>random pricing stays in its range. With a random source that respects its bound, the
  quoted price is at least the minimum of the range and, when the minimum does not exceed the
  maximum, at most one hundredth of the way from the minimum to the maximum.\<close>

theorem random_price_in_range:
  assumes "random_CalculatePrice rnd g = Inr c" and "\<forall>n v. rnd n = Some v \<longrightarrow> 0 \<le> v \<and> v < n"
    and "calculatePriceRange g = Inr (lo, hi)"
  shows "Amount lo \<le> Amount c \<and> (Amount lo \<le> Amount hi \<longrightarrow> Amount c \<le> Amount hi \<and>
    (Amount lo < Amount hi \<longrightarrow> Amount c \<le> Amount lo + (Amount hi - Amount lo) div 100))"
proof (cases "lo = hi")
  case True
  then show ?thesis using assms by (simp add: random_CalculatePrice_def)
next
  case False
  from assms(1,3) False obtain n v where n: "random_bound (Amount lo) (Amount hi) = Some n" and r: "rnd n = Some v"
    and c: "Amount c = Amount lo + v * dec_one div 10000 div 100"
    by (auto simp: random_CalculatePrice_def split: option.splits)
  have v: "0 \<le> v" "v < n" using assms(2) r by blast+
  have lo: "Amount lo \<le> Amount c" using v(1) by (simp add: c dec_one_def)
  have "v * dec_one div 10000 div 100 \<le> (Amount hi - Amount lo) div 100" if "Amount lo \<le> Amount hi"
    using random_bound_scaled[OF that v(1) n v(2)] by (rule zdiv_mono1) simp
  moreover have "(Amount hi - Amount lo) div 100 \<le> Amount hi - Amount lo" if "Amount lo \<le> Amount hi"
    using that by linarith
  ultimately show ?thesis using lo by (auto simp: c)
qed

definition range_group :: order_group where
  "range_group = ex_bid_group\<lparr>og_price := \<lparr>Denom = ''uakt'', Amount = 1000 * 10 ^ 18\<rparr>,
     og_units := [\<lparr>ru_Resources = \<lparr>res_ID = 1, res_CPU = None, res_Memory = Some 4294967296, res_GPU = None,
       res_Storage = [], res_Endpoints = []\<rparr>, ru_Count = 1\<rparr>]\<rparr>"

lemma range_group_range:
  "calculatePriceRange range_group = Inr (\<lparr>Denom = ''uakt'', Amount = 200 * 10 ^ 18\<rparr>, \<lparr>Denom = ''uakt'', Amount = 1000 * 10 ^ 18\<rparr>)"
  by (simp add: calculatePriceRange_def range_group_def ex_bid_group_def dec_one_def)

lemma range_group_quote:
  "random_CalculatePrice (\<lambda>n. if 0 < n then Some (n - 1) else None) range_group = Inr \<lparr>Denom = ''uakt'', Amount = 207999999 * 10 ^ 12\<rparr>"
  by (simp add: random_CalculatePrice_def range_group_range random_bound_def dec_one_def)

theorem random_price_in_range_witness:
  "200 * 10 ^ 18 \<le> Amount \<lparr>Denom = ''uakt'', Amount = 207999999 * 10 ^ 12\<rparr> \<and>
   Amount \<lparr>Denom = ''uakt'', Amount = 207999999 * 10 ^ 12\<rparr> \<le> 208 * 10 ^ 18"
proof -
  have "\<forall>n v. (if 0 < n then Some (n - 1) else None) = Some v \<longrightarrow> 0 \<le> v \<and> v < (n::int)" by auto
  from random_price_in_range[OF range_group_quote this range_group_range] show ?thesis by simp
qed

text \<open>the order loop bids on every affordable quote of the built-in strategies. When the quote
  for the fetched group arrives, the loop broadcasts a bid at that price if it is at most the
  group's price and stops otherwise; the denomination check never stops it.\<close>

theorem built_in_quotes_are_bid:
  assumes "scale_CalculatePrice P fp g = Inr c \<or> random_CalculatePrice rnd g = Inr c" and "os_pricech s" and "os_group s = Some g"
  shows "order_turn E oid s (PriceResult (Some c)) =
    (if Amount c \<le> Amount (og_price g)
     then Continue (act (DoCreateBid (order_bid_id E oid) c) (s\<lparr>os_pricech := False, os_bidch := True\<rparr>))
     else BreakLoop (s\<lparr>os_pricech := False\<rparr>))"
  using assms(1)
proof
  assume "scale_CalculatePrice P fp g = Inr c"
  then show ?thesis by (rule scale.quote_bids) (rule assms)+
next
  assume "random_CalculatePrice rnd g = Inr c"
  then show ?thesis by (rule random.quote_bids) (rule assms)+
qed

theorem built_in_quotes_are_bid_witness:
  "let s = (order_start False)\<lparr>os_pricech := True, os_group := Some range_group\<rparr>; c = \<lparr>Denom = ''uakt'', Amount = 207999999 * 10 ^ 12\<rparr> in
   order_turn ex_bid_env ex_oid s (PriceResult (Some c)) =
    (if Amount c \<le> Amount (og_price range_group)
     then Continue (act (DoCreateBid (order_bid_id ex_bid_env ex_oid) c) (s\<lparr>os_pricech := False, os_bidch := True\<rparr>))
     else BreakLoop (s\<lparr>os_pricech := False\<rparr>))"
  unfolding Let_def
  by (rule built_in_quotes_are_bid[OF disjI2, OF range_group_quote]) simp_all

text \<open>a configuration with one priced storage class is refused as all zero. The check asks
  whether any storage scale is zero, not whether all are, so a non-zero price for one class
  does not count when another class is free.\<close>

theorem partly_priced_storage_refused:
  assumes "(a, 0) \<in> set st" and "(b, q) \<in> set st" and "0 < q"
  shows "MakeScalePricing 0 0 st 0 0 = Inl errAllScalesZero"
  using assms by (auto simp: MakeScalePricing_def IsAnyZero_def list_ex_iff)

theorem partly_priced_storage_refused_witness:
  "MakeScalePricing 0 0 [(''beta1'', 0), (''beta2'', 5)] 0 0 = Inl errAllScalesZero"
  by (rule partly_priced_storage_refused[of "''beta1''" _ "''beta2''" 5]) simp_all

end
