(* ===== verification/Registry.thy ===== *)
theory Registry
  imports Prelude
begin

text \<open>
  The contract of a service that keeps one child per key. The bid engine, the cluster
  service and the manifest service each hold a map from keys to running children, start a
  child when an event needs one that is not there, and drop the entry when the child reports
  that it is done. \<open>live\<close> is whether the map has the key, \<open>started\<close> the log of the children
  started, \<open>ends\<close> whether an event is the end of the child of a key, and \<open>wf\<close> an invariant of the
  service. The laws speak of one turn of the service's loop; the lemmas of its whole run.
\<close>

locale child_registry =
  fixes wf :: "'s \<Rightarrow> bool"
    and live :: "'s \<Rightarrow> 'k \<Rightarrow> bool"
    and started :: "'s \<Rightarrow> 'k list"
    and step :: "'s \<Rightarrow> 'e \<Rightarrow> 's option"
    and ends :: "'e \<Rightarrow> 'k \<Rightarrow> bool"
  assumes wf_law: "wf s \<Longrightarrow> step s e = Some s' \<Longrightarrow> wf s'"
    and start_law:
    "wf s \<Longrightarrow> step s e = Some s' \<Longrightarrow>
     count_list (started s') k + of_bool (live s k) \<le>
       count_list (started s) k + of_bool (ends e k) + of_bool (live s' k)"
    and keep_law: "wf s \<Longrightarrow> step s e = Some s' \<Longrightarrow> live s k \<Longrightarrow> \<not> ends e k \<Longrightarrow> live s' k"
begin

lemma run_wf: "wf s \<Longrightarrow> wf (run_until step s es)"
  by (rule run_until_invariant[where I = wf]) (auto intro: wf_law)

text \<open>A child stays in the map until it ends.\<close>

lemma run_keeps:
  assumes "wf s" and "live s k" and "\<forall>e \<in> set es. \<not> ends e k"
  shows "live (run_until step s es) k"
proof -
  have "wf (run_until step s es) \<and> live (run_until step s es) k"
    by (rule run_until_invariant[where I = "\<lambda>s. wf s \<and> live s k"]) (use assms in \<open>auto intro: keep_law wf_law\<close>)
  then show ?thesis by simp
qed

text \<open>
  A key is started at most once per end, and once more if its child is live at the end of the
  run: two children of one key never run at the same time.
\<close>

lemma run_starts:
  "wf s \<Longrightarrow> count_list (started (run_until step s es)) k + of_bool (live s k) \<le>
   count_list (started s) k + length (filter (\<lambda>e. ends e k) es) + of_bool (live (run_until step s es) k)"
proof (induction es arbitrary: s)
  case (Cons e es)
  show ?case
  proof (cases "step s e")
    case (Some s')
    have "length (filter (\<lambda>e. ends e k) (e # es)) = of_bool (ends e k) + length (filter (\<lambda>e. ends e k) es)" by simp
    then show ?thesis using start_law[OF Cons.prems Some, of k] Cons.IH[OF wf_law[OF Cons.prems Some]]
      by (simp only: Some run_until.simps option.case)
  qed simp
qed simp

text \<open>A child that some event of a run starts, if need be, is live at the end of the run.\<close>

lemma run_reaches:
  assumes "wf s" and "e0 \<in> set es" and "\<forall>s s'. step s e0 = Some s' \<longrightarrow> live s' k"
    and "\<forall>e \<in> set es. \<forall>s. step s e \<noteq> None" and "\<forall>e \<in> set es. \<not> ends e k"
  shows "live (run_until step s es) k"
  using assms(1,2,4,5)
proof (induction es arbitrary: s)
  case (Cons e es)
  from Cons.prems(3) have "step s e \<noteq> None" by simp
  then obtain s' where s': "step s e = Some s'" by blast
  have wf': "wf s'" by (rule wf_law[OF Cons.prems(1) s'])
  show ?case
  proof (cases "e = e0")
    case True
    then have "live s' k" using s' assms(3) by blast
    then show ?thesis using s' Cons.prems(4) run_keeps[OF wf', of k es] by simp
  next
    case False
    then have "live (run_until step s' es) k" using Cons.prems wf' by (intro Cons.IH) simp_all
    then show ?thesis using s' by simp
  qed
qed simp

end

end
