(* ===== verification/BidService.thy ===== *)
theory BidService
  imports Registry Market
begin

text \<open>
  The bid engine's service (\<open>bidengine/service.go\<close>): the traversal of the open orders at start
  (\<open>ordersFetcher\<close>), the map of running order monitors and the loop that creates and drains
  them. The key of an order, \<open>mquery.OrderPath\<close>, is the SDK's and a parameter; an order's own
  life is the theory \<open>BidOrder\<close>. Creating a monitor fails only when the subscription cannot be
  cloned; events carry that outcome.
\<close>

section \<open>The traversal of open orders\<close>

text \<open>
  What one turn of the traversal meets. A query fails or answers with the orders of a page and
  its next key (empty when there is none or no pagination); the flags say whether the context
  is found done after a failed query, after the retry delay, after an answer, and when
  the page is handed over.
\<close>

datatype orders_answer =
    OrdersErr bool bool
  | OrdersResp "order_id list" bytes bool bool

datatype fetch_result = FetchDone | FetchCancelled | FetchKeyRepeated bytes

text \<open>
  The loop may run for ever when the chain keeps failing, so it is a partial function; \<open>n\<close>
  counts the queries, \<open>pages\<close> are those queued so far.
\<close>

partial_function (option) ordersFetcher ::
    "(nat \<Rightarrow> bytes \<Rightarrow> orders_answer) \<Rightarrow> nat \<Rightarrow> bytes \<Rightarrow> order_id list list \<Rightarrow> (order_id list list \<times> fetch_result) option" where
  "ordersFetcher query n nextKey pages =
     (case query n nextKey of
        OrdersErr ctxDone delayDone \<Rightarrow>
          if ctxDone \<or> delayDone then Some (pages, FetchCancelled)
          else ordersFetcher query (Suc n) nextKey pages
      | OrdersResp orders pageNextKey ctxDone sendDone \<Rightarrow>
          if ctxDone then Some (pages, FetchCancelled)
          else if pageNextKey \<noteq> [] \<and> pageNextKey = nextKey then Some (pages, FetchKeyRepeated pageNextKey)
          else if sendDone then Some (pages, FetchCancelled)
          else if pageNextKey = [] then Some (pages @ [orders], FetchDone)
          else ordersFetcher query (Suc n) pageNextKey (pages @ [orders]))"

section \<open>The service\<close>

record bid_service =
  bs_orders :: "string \<rightharpoonup> order_id"
  bs_started :: "(string \<times> order_id \<times> bool) list"
  bs_signal :: bool
  bs_published :: "nat list"

definition newBidService :: bid_service where
  "newBidService = \<lparr>bs_orders = Map.empty, bs_started = [], bs_signal = True, bs_published = []\<rparr>"

text \<open>\<open>newOrder\<close> for an order that has no monitor yet; \<open>ok\<close> is whether it succeeds.\<close>

definition add_order :: "(order_id \<Rightarrow> string) \<Rightarrow> bool \<Rightarrow> bid_service \<Rightarrow> order_id \<times> bool \<Rightarrow> bid_service" where
  "add_order path checkExisting s o1 =
     (case o1 of (oid, ok) \<Rightarrow>
        if bs_orders s (path oid) \<noteq> None then s
        else if \<not> ok then s
        else s\<lparr>bs_orders := (bs_orders s)(path oid \<mapsto> oid), bs_started := bs_started s @ [(path oid, oid, checkExisting)]\<rparr>)"

definition processOrdersPage :: "(order_id \<Rightarrow> string) \<Rightarrow> bid_service \<Rightarrow> (order_id \<times> bool) list \<Rightarrow> bid_service" where
  "processOrdersPage path s page = fold (\<lambda>o1 s. add_order path True s o1) page s"

datatype bid_event =
    BidShutdown
  | OrdersPageReceived "(order_id \<times> bool) list"
  | OrderCreated order_id bool
  | OrderDrained order_id
  | BidSignal
  | BidStatusReq

text \<open>One turn of the loop; \<open>trySignal\<close> fills the one-place signal channel.\<close>

definition bid_step :: "(order_id \<Rightarrow> string) \<Rightarrow> bid_service \<Rightarrow> bid_event \<Rightarrow> bid_service option" where
  "bid_step path s ev =
     (case ev of
        BidShutdown \<Rightarrow> None
      | OrdersPageReceived page \<Rightarrow> Some (processOrdersPage path s page)
      | OrderCreated oid ok \<Rightarrow>
          Some (if bs_orders s (path oid) \<noteq> None \<or> \<not> ok then s
                else (add_order path False s (oid, ok))\<lparr>bs_signal := True\<rparr>)
      | OrderDrained oid \<Rightarrow> Some (s\<lparr>bs_orders := (bs_orders s)(path oid := None), bs_signal := True\<rparr>)
      | BidSignal \<Rightarrow>
          Some (if bs_signal s
                then s\<lparr>bs_signal := False, bs_published := bs_published s @ [card (dom (bs_orders s))]\<rparr> else s)
      | BidStatusReq \<Rightarrow> Some s)"

definition bid_run :: "(order_id \<Rightarrow> string) \<Rightarrow> bid_event list \<Rightarrow> bid_service" where
  "bid_run path = run_until (bid_step path) newBidService"

text \<open>The drain after the loop: it waits for monitors until the map is empty (\<open>None\<close>: it still waits).\<close>

fun bid_drain :: "(order_id \<Rightarrow> string) \<Rightarrow> (string \<rightharpoonup> order_id) \<Rightarrow> order_id list \<Rightarrow> (string \<rightharpoonup> order_id) option" where
  "bid_drain path m [] = (if dom m = {} then Some m else None)"
| "bid_drain path m (oid # oids) = (if dom m = {} then Some m else bid_drain path (m(path oid := None)) oids)"

section \<open>Lemmas\<close>

text \<open>The pages of a chain, in order: \<open>P key\<close> is the page at a key and its next key.\<close>

fun page_chain :: "(bytes \<Rightarrow> order_id list \<times> bytes) \<Rightarrow> bytes \<Rightarrow> order_id list list \<Rightarrow> bool" where
  "page_chain P k [] = False"
| "page_chain P k [os] = (P k = (os, []))"
| "page_chain P k (os # ps) = (fst (P k) = os \<and> snd (P k) \<noteq> [] \<and> snd (P k) \<noteq> k \<and> page_chain P (snd (P k)) ps)"

text \<open>The answers a live context gives over such a chain: a page, or a failure that is retried.\<close>

definition answers_chain :: "(bytes \<Rightarrow> order_id list \<times> bytes) \<Rightarrow> (nat \<Rightarrow> bytes \<Rightarrow> orders_answer) \<Rightarrow> nat \<Rightarrow> bool" where
  "answers_chain P query N \<longleftrightarrow>
     (\<forall>n k. query n k = OrdersErr False False \<and> n < N \<or> query n k = OrdersResp (fst (P k)) (snd (P k)) False False)"

lemma fetch_retry:
  assumes "answers_chain P query N"
  shows "\<exists>m. ordersFetcher query n k pages = ordersFetcher query m k pages \<and> query m k = OrdersResp (fst (P k)) (snd (P k)) False False"
  using assms
proof (induction "N - n" arbitrary: n rule: less_induct)
  case less
  show ?case
  proof (cases "query n k = OrdersErr False False")
    case True
    then have n: "n < N" using less.prems unfolding answers_chain_def by (metis orders_answer.distinct(1))
    then obtain m where "ordersFetcher query (Suc n) k pages = ordersFetcher query m k pages"
      and "query m k = OrdersResp (fst (P k)) (snd (P k)) False False"
      using less.hyps[of "Suc n"] less.prems by (metis diff_less_mono2 lessI)
    then show ?thesis using True by (subst ordersFetcher.simps) auto
  next
    case False
    then show ?thesis using less.prems by (auto simp: answers_chain_def)
  qed
qed

lemma fetch_chain:
  assumes "answers_chain P query N" and "page_chain P k ps"
  shows "ordersFetcher query n k pages = Some (pages @ ps, FetchDone)"
  using assms(2)
proof (induction ps arbitrary: k n pages)
  case (Cons os ps)
  note step = Cons
  from fetch_retry[OF assms(1), of n k pages] obtain m where
    m: "ordersFetcher query n k pages = ordersFetcher query m k pages"
      "query m k = OrdersResp (fst (P k)) (snd (P k)) False False" by blast
  show ?case
  proof (cases ps)
    case Nil
    then have "P k = (os, [])" using step(2) by simp
    then show ?thesis unfolding m(1) by (subst ordersFetcher.simps) (simp add: m(2) Nil)
  next
    case (Cons p qs)
    with step(2) have "fst (P k) = os" "snd (P k) \<noteq> []" "snd (P k) \<noteq> k" "page_chain P (snd (P k)) ps"
      by simp_all
    then show ?thesis unfolding m(1) by (subst ordersFetcher.simps) (simp add: m(2) step(1))
  qed
qed simp

fun cancelled :: "orders_answer \<Rightarrow> bool" where
  "cancelled (OrdersErr c d) = (c \<or> d)"
| "cancelled (OrdersResp os k c d) = (c \<or> d)"

lemma fetch_cancelled:
  assumes "\<forall>n \<ge> N. \<forall>k. cancelled (query n k)"
  shows "\<exists>r. ordersFetcher query n k pages = Some r"
proof (induction "N - n" arbitrary: n k pages rule: less_induct)
  case less
  show ?case
  proof (cases "N \<le> n")
    case True
    then have "cancelled (query n k)" using assms by blast
    then show ?thesis by (subst ordersFetcher.simps) (cases "query n k"; auto)
  next
    case False
    then have "\<exists>r. ordersFetcher query (Suc n) k' pages' = Some r" for k' pages'
      by (intro less) simp
    then show ?thesis by (subst ordersFetcher.simps) (auto split: orders_answer.splits)
  qed
qed

text \<open>The keys of the monitors that were started.\<close>

abbreviation started_keys :: "bid_service \<Rightarrow> string list" where
  "started_keys s \<equiv> map fst (bs_started s)"

abbreviation monitored :: "bid_service \<Rightarrow> string \<Rightarrow> bool" where
  "monitored s k \<equiv> bs_orders s k \<noteq> None"

lemma add_order_balance:
  "count_list (started_keys (add_order path c s o1)) k + of_bool (monitored s k) =
   count_list (started_keys s) k + of_bool (monitored (add_order path c s o1) k)"
  by (cases o1) (simp add: add_order_def)

lemma add_order_keeps: "monitored s k \<Longrightarrow> monitored (add_order path c s o1) k"
  by (cases o1) (simp add: add_order_def)

lemma add_order_adds: "monitored (add_order path c s (oid, True)) (path oid)"
  by (auto simp: add_order_def)

lemma page_balance:
  "count_list (started_keys (processOrdersPage path s page)) k + of_bool (monitored s k) =
   count_list (started_keys s) k + of_bool (monitored (processOrdersPage path s page) k)"
proof (induction page arbitrary: s)
  case (Cons o1 page)
  show ?case using add_order_balance[of path True s o1 k] Cons.IH[of "add_order path True s o1"]
    by (simp add: processOrdersPage_def)
qed (simp add: processOrdersPage_def)

lemma page_keeps: "monitored s k \<Longrightarrow> monitored (processOrdersPage path s page) k"
  unfolding processOrdersPage_def
  by (induction page arbitrary: s) (simp, metis add_order_keeps fold_simps(2))

lemma page_adds: "(oid, True) \<in> set page \<Longrightarrow> monitored (processOrdersPage path s page) (path oid)"
proof (induction page arbitrary: s)
  case (Cons o1 page)
  have "monitored (processOrdersPage path s (o1 # page)) (path oid) =
      monitored (processOrdersPage path (add_order path True s o1) page) (path oid)" by (simp add: processOrdersPage_def)
  then show ?case using Cons add_order_adds[of path True s oid] page_keeps by auto
qed simp

definition drains :: "(order_id \<Rightarrow> string) \<Rightarrow> bid_event \<Rightarrow> string \<Rightarrow> bool" where
  "drains path ev k = (case ev of OrderDrained oid \<Rightarrow> path oid = k | _ \<Rightarrow> False)"

interpretation bids: child_registry "\<lambda>s. True" "\<lambda>s k. monitored s k" started_keys "bid_step path" "drains path"
proof
  fix s e s' k assume st: "bid_step path s e = Some s'"
  show "count_list (started_keys s') k + of_bool (monitored s k) \<le>
      count_list (started_keys s) k + of_bool (drains path e k) + of_bool (monitored s' k)"
  proof (cases e)
    case (OrdersPageReceived page)
    then show ?thesis using st page_balance[of path s page k] by (simp add: bid_step_def)
  next
    case (OrderCreated oid ok)
    then show ?thesis using st add_order_balance[of path False s "(oid, ok)" k]
      by (cases "monitored s (path oid) \<or> \<not> ok") (auto simp: bid_step_def)
  qed (use st in \<open>auto simp: bid_step_def drains_def split: if_splits\<close>)
next
  fix s e s' k assume "bid_step path s e = Some s'" and "monitored s k" and "\<not> drains path e k"
  then show "monitored s' k"
    using page_keeps[of s k path] add_order_keeps[of s k path False]
    by (cases e) (auto simp: bid_step_def drains_def split: if_splits)
qed

lemma bid_drain_all:
  "\<forall>k \<in> dom m. \<exists>oid \<in> set oids. path oid = k \<Longrightarrow> bid_drain path m oids = Some Map.empty"
proof (induction oids arbitrary: m)
  case (Cons oid oids)
  have "\<forall>k \<in> dom (m(path oid := None)). \<exists>oid \<in> set oids. path oid = k" 
  proof
    fix k assume k: "k \<in> dom (m(path oid := None))"
    then have "k \<in> dom m" and "path oid \<noteq> k" by (auto split: if_splits)
    then show "\<exists>oid \<in> set oids. path oid = k" using Cons.prems by auto
  qed
  then have "bid_drain path (m(path oid := None)) oids = Some Map.empty" by (rule Cons.IH)
  then show ?case by simp
qed auto

lemma bid_step_total: "ev \<noteq> BidShutdown \<Longrightarrow> bid_step path s ev \<noteq> None"
  by (cases ev) (auto simp: bid_step_def)

section \<open>Properties\<close>

text \<open>C25: every open order gets a monitor. When the chain's pages are linked by their next keys,
  queries fail only finitely often and the context stays alive, the traversal returns with all
  pages in order; and when the service receives those pages, among any other events, an
  order on them is monitored at the end of the run unless its monitor has reported that it is
  done (monitors being created without error).\<close>

theorem open_orders_monitored:
  assumes "answers_chain P query N" and "page_chain P [] ps" and "oid \<in> set (concat ps)"
    and "\<forall>p \<in> set ps. OrdersPageReceived (map (\<lambda>o1. (o1, True)) p) \<in> set evs" and "BidShutdown \<notin> set evs"
    and "\<forall>o1. OrderDrained o1 \<in> set evs \<longrightarrow> path o1 \<noteq> path oid"
  shows "ordersFetcher query 0 [] [] = Some (ps, FetchDone) \<and> bs_orders (bid_run path evs) (path oid) \<noteq> None"
proof
  show "ordersFetcher query 0 [] [] = Some (ps, FetchDone)" using fetch_chain[OF assms(1,2), of 0 "[]"] by simp
  obtain p where p: "p \<in> set ps" "oid \<in> set p" using assms(3) by auto
  let ?e = "OrdersPageReceived (map (\<lambda>o1. (o1, True)) p)"
  show "monitored (bid_run path evs) (path oid)" unfolding bid_run_def
  proof (rule bids.run_reaches[where ?e0.0 = ?e, OF TrueI])
    show "\<forall>s s'. bid_step path s ?e = Some s' \<longrightarrow> monitored s' (path oid)"
      using page_adds[of oid "map (\<lambda>o1. (o1, True)) p" path] p(2) by (auto simp: bid_step_def)
    show "\<forall>e \<in> set evs. \<forall>s. bid_step path s e \<noteq> None" using bid_step_total assms(5) by metis
    show "\<forall>e \<in> set evs. \<not> drains path e (path oid)"
      using assms(6) by (auto simp: drains_def split: bid_event.splits)
  qed (use assms(4) p in auto)
qed

definition ex_order1 :: order_id where
  "ex_order1 = \<lparr>o_owner = ''alice'', o_dseq = 1, o_gseq = 1, o_oseq = 1\<rparr>"

definition ex_order2 :: order_id where
  "ex_order2 = \<lparr>o_owner = ''bob'', o_dseq = 2, o_gseq = 1, o_oseq = 1\<rparr>"

definition ex_pages :: "bytes \<Rightarrow> order_id list \<times> bytes" where
  "ex_pages k = (if k = [] then ([ex_order1], ''k'') else ([ex_order2], []))"

definition ex_query :: "nat \<Rightarrow> bytes \<Rightarrow> orders_answer" where
  "ex_query n k = (if n = 1 then OrdersErr False False else OrdersResp (fst (ex_pages k)) (snd (ex_pages k)) False False)"

theorem open_orders_monitored_witness:
  "ordersFetcher ex_query 0 [] [] = Some ([[ex_order1], [ex_order2]], FetchDone) \<and>
   bs_orders (bid_run o_owner [OrdersPageReceived [(ex_order1, True)], OrderCreated ex_order2 True,
     OrdersPageReceived [(ex_order2, True)]]) ''bob'' \<noteq> None"
proof -
  have "answers_chain ex_pages ex_query 2" by (simp add: answers_chain_def ex_query_def)
  moreover have "page_chain ex_pages [] [[ex_order1], [ex_order2]]" by (simp add: ex_pages_def)
  ultimately show ?thesis
    using open_orders_monitored[of ex_pages ex_query 2 "[[ex_order1], [ex_order2]]" ex_order2
        "[OrdersPageReceived [(ex_order1, True)], OrderCreated ex_order2 True, OrdersPageReceived [(ex_order2, True)]]" o_owner]
    by (simp add: ex_order2_def)
qed

text \<open>two monitors of one order never run at the same time. In every run of the service the
  number of monitors started for an order is at most the number of monitors of it that
  reported done, plus one if one is still in the map; so catch-up pages and creation events
  that name an order again start nothing.\<close>

theorem one_monitor_per_order:
  "count_list (map fst (bs_started (bid_run path evs))) k \<le>
   length (filter (\<lambda>ev. drains path ev k) evs) + of_bool (bs_orders (bid_run path evs) k \<noteq> None)"
  using bids.run_starts[OF TrueI, of path newBidService evs k] by (simp add: bid_run_def newBidService_def)

text \<open>C26: the bid engine shuts down. Once the context is cancelled the traversal returns, whatever
  the chain answers, even if its pages were linked in a cycle; and the drain of the order monitors returns
  with an empty map once every monitor in it has reported.\<close>

theorem bid_service_shuts_down:
  assumes "\<forall>n \<ge> N. \<forall>k. cancelled (query n k)" and "\<forall>k \<in> dom m. \<exists>oid \<in> set oids. path oid = k"
  shows "(\<exists>pages r. ordersFetcher query 0 [] [] = Some (pages, r)) \<and> bid_drain path m oids = Some Map.empty"
  using fetch_cancelled[OF assms(1), of 0 "[]" "[]"] bid_drain_all[OF assms(2)] by auto

theorem bid_service_shuts_down_witness:
  "(\<exists>pages r. ordersFetcher (\<lambda>n k. if n < 3 then OrdersErr False False else OrdersErr True False) 0 [] [] = Some (pages, r)) \<and>
   bid_drain o_owner [''alice'' \<mapsto> ex_order1] [ex_order2, ex_order1] = Some Map.empty"
  by (rule bid_service_shuts_down[of 3]) (simp_all add: ex_order1_def)

end
