(* ===== verification/ManifestData.thy ===== *)
theory ManifestData
  imports Market Envelope
begin

text \<open>
  The manifest as the provider reads it, and the small functions on it that several components
  share: hostnames and ingress names (\<open>manifest/parse.go\<close>), the sharing key of a leased address
  and the namespace of a lease (\<open>cluster/util\<close>), the group of a received manifest
  (\<open>event/events.go\<close>), the proxy limits (\<open>manifest/proxy_limits.go\<close>) and the mapping of submit
  errors to HTTP (\<open>manifest/gateway.go\<close>). The manifest types are the SDK's; the text of a lease
  id and the name-based UUID are parameters.
\<close>

section \<open>Manifests\<close>

record proxy_options =
  BufferSize :: u32
  BuffersNumber :: u32
  BuffersSize :: u32
  BusyBuffersSize :: u32

record expose =
  ex_Port :: u32
  ex_ExternalPort :: u32
  ex_Proto :: string
  ex_Global :: bool
  ex_Hosts :: "string list"
  ex_IP :: string
  ex_Proxy :: "proxy_options option"

record mani_service =
  sv_Name :: string
  sv_Count :: u32
  sv_Expose :: "expose list"

record mani_group =
  mg_Name :: string
  mg_Services :: "mani_service list"

type_synonym mani = "mani_group list"

definition AllHostnamesOfManifestGroup :: "mani_group \<Rightarrow> string list" where
  "AllHostnamesOfManifestGroup g = concat (map (\<lambda>s. concat (map ex_Hosts (sv_Expose s))) (mg_Services g))"

text \<open>\<open>ManifestReceived.ManifestGroup\<close>: the group of the manifest with the name of the lease's group.\<close>

definition ManifestGroup :: "mani \<Rightarrow> string \<Rightarrow> mani_group option" where
  "ManifestGroup m groupName = find (\<lambda>g. mg_Name g = groupName) m"

section \<open>Names\<close>

text \<open>
  \<open>base32.HexEncoding\<close> without padding: five bits at a time, the last group filled with zeros.
\<close>

definition byte_bits :: "char \<Rightarrow> bool list" where
  "byte_bits c = map (\<lambda>i. odd ((of_char c :: nat) div 2 ^ (7 - i))) [0..<8]"

definition base32hex_char :: "nat \<Rightarrow> char" where
  "base32hex_char n = char_of (if n < 10 then 48 + n else 65 + (n - 10))"

definition bits_value :: "bool list \<Rightarrow> nat" where
  "bits_value bs = foldl (\<lambda>v b. 2 * v + of_bool b) 0 bs"

fun base32hex_bits :: "bool list \<Rightarrow> string" where
  "base32hex_bits [] = []"
| "base32hex_bits (a # b # c # d # e # rest) = base32hex_char (bits_value [a, b, c, d, e]) # base32hex_bits rest"
| "base32hex_bits bs = [base32hex_char (bits_value (bs @ replicate (5 - length bs) False))]"

definition base32hex :: "bytes \<Rightarrow> string" where
  "base32hex bs = base32hex_bits (concat (map byte_bits bs))"

definition allowedIPEndpointName :: "string \<Rightarrow> bool" where
  "allowedIPEndpointName s = (s \<noteq> [] \<and> list_all (\<lambda>c. let n = of_char c :: nat in
     (97 \<le> n \<and> n \<le> 122) \<or> (48 \<le> n \<and> n \<le> 57) \<or> c = CHR ''-'') s)"

definition MakeIPSharingKey :: "(bytes \<Rightarrow> bytes) \<Rightarrow> lease_id \<Rightarrow> string \<Rightarrow> string" where
  "MakeIPSharingKey sha lid endpointName =
     l_owner lid @ ''-ip-'' @
     (if allowedIPEndpointName endpointName then endpointName
      else to_lower (base32hex (take 15 (sha endpointName))))"

definition LeaseIDToNamespace :: "(bytes \<Rightarrow> bytes) \<Rightarrow> (lease_id \<Rightarrow> string) \<Rightarrow> lease_id \<Rightarrow> string" where
  "LeaseIDToNamespace sha224 lease_text lid = to_lower (base32hex (sha224 (lease_text lid)))"

definition IngressHost :: "(bytes \<Rightarrow> bytes) \<Rightarrow> (lease_id \<Rightarrow> string) \<Rightarrow> lease_id \<Rightarrow> string \<Rightarrow> string" where
  "IngressHost uuid_dns lease_text lid svcName = to_lower (base32hex (uuid_dns (lease_text lid @ svcName)))"

section \<open>Errors of a submission\<close>

text \<open>
  The errors a submitted manifest can be answered with. \<open>ErrSdkCheck\<close> are errors of
  \<open>CheckAgainstDeployment\<close>, \<open>ErrMVersionOf\<close> of \<open>Manifest.Version\<close>, \<open>ErrHostnameCheck\<close> of the hostname
  service; the flag of \<open>ErrSdkCheck\<close> says whether it is tagged \<open>ErrManifestCrossValidation\<close>.
\<close>

datatype manifest_error =
    ErrInvalidManifest string
  | ErrManifestVersion
  | ErrMVersionOf
  | ErrSdkCheck bool
  | ErrOwnerOfDeployment
  | errManifestRejected string
  | ErrHostnameCheck
  | ErrNoLeaseForDeployment
  | ErrMNotRunning
  | ErrFetch
  | ErrReqCtx

datatype submit_reply = SubmitOk | SubmitHttp nat manifest_error | SubmitErr manifest_error

definition ManifestSubmitErrorToHTTP :: "manifest_error option \<Rightarrow> submit_reply" where
  "ManifestSubmitErrorToHTTP e =
     (case e of
        None \<Rightarrow> SubmitOk
      | Some ErrManifestVersion \<Rightarrow> SubmitHttp 422 ErrManifestVersion
      | Some (ErrInvalidManifest s) \<Rightarrow> SubmitHttp 422 (ErrInvalidManifest s)
      | Some (ErrSdkCheck x) \<Rightarrow> if x then SubmitHttp 422 (ErrSdkCheck x) else SubmitErr (ErrSdkCheck x)
      | Some (errManifestRejected s) \<Rightarrow> SubmitHttp 422 (errManifestRejected s)
      | Some ErrNoLeaseForDeployment \<Rightarrow> SubmitHttp 404 ErrNoLeaseForDeployment
      | Some er \<Rightarrow> SubmitErr er)"

section \<open>Proxy limits\<close>

definition maxProxyBufferSize :: u32 where "maxProxyBufferSize = 128 * 1024"
definition maxProxyBuffersNumber :: u32 where "maxProxyBuffersNumber = 16"
definition maxProxyBuffersSize :: u32 where "maxProxyBuffersSize = 128 * 1024"
definition maxProxyBusyBuffersSize :: u32 where "maxProxyBusyBuffersSize = 256 * 1024"

definition proxy_over_limit :: "expose \<Rightarrow> string option" where
  "proxy_over_limit e =
     (case ex_Proxy e of
        None \<Rightarrow> None
      | Some p \<Rightarrow>
          if BufferSize p > maxProxyBufferSize then Some ''buffer_size''
          else if BuffersNumber p > maxProxyBuffersNumber then Some ''buffers_number''
          else if BuffersSize p > maxProxyBuffersSize then Some ''buffers_size''
          else if BusyBuffersSize p > maxProxyBusyBuffersSize then Some ''busy_buffers_size''
          else None)"

fun first_some :: "('a \<Rightarrow> 'b option) \<Rightarrow> 'a list \<Rightarrow> 'b option" where
  "first_some f [] = None"
| "first_some f (x # xs) = (case f x of Some y \<Rightarrow> Some y | None \<Rightarrow> first_some f xs)"

definition validateProxyBufferLimits :: "mani \<Rightarrow> manifest_error option" where
  "validateProxyBufferLimits m =
     map_option ErrInvalidManifest
       (first_some (\<lambda>g. first_some (\<lambda>s. first_some proxy_over_limit (sv_Expose s)) (mg_Services g)) m)"

section \<open>Lemmas\<close>

lemma first_some_None [simp]: "first_some f xs = None \<longleftrightarrow> (\<forall>x \<in> set xs. f x = None)"
  by (induction xs) (auto split: option.splits)

lemma first_some_SomeD: "first_some f xs = Some y \<Longrightarrow> \<exists>x \<in> set xs. f x = Some y"
  by (induction xs) (auto split: option.splits)

lemma in_AllHostnames:
  "h \<in> set (AllHostnamesOfManifestGroup g) \<longleftrightarrow> (\<exists>s \<in> set (mg_Services g). \<exists>e \<in> set (sv_Expose s). h \<in> set (ex_Hosts e))"
  by (simp add: AllHostnamesOfManifestGroup_def)

lemma sharing_key_inj:
  assumes "allowedIPEndpointName a" and "allowedIPEndpointName b" and "MakeIPSharingKey sha l a = MakeIPSharingKey sha l b"
  shows "a = b"
  using assms by (simp add: MakeIPSharingKey_def)

end
