(* ===== verification/DeploymentManager.thy ===== *)
theory DeploymentManager
  imports Hostname ManifestData
begin

text \<open>
  The manager of one lease's workload (\<open>cluster/manager.go\<close>): the loop that serialises deploys,
  updates, teardown and reclamation, and the tasks it runs off the loop. The loop's state is
  the record \<open>dm\<close>: the struct's fields and \<open>run\<close>'s local variables; one event is one ready case of
  its \<open>select\<close>. A channel that is nil, or a result that no task can send, is never ready, so its
  event leaves the state as it is. The Kubernetes client, the chain client and the SDK's
  manifest methods are parameters.
\<close>

section \<open>State\<close>

datatype deploymentState =
    dsDeployActive | dsDeployPending | dsDeployComplete
  | dsTeardownActive | dsTeardownPending | dsTeardownComplete

record dep =
  dp_LeaseID :: lease_id
  dp_ManifestGroup :: mani_group

text \<open>
  The task behind \<open>runch\<close>: a deploy before and after it has handed \<open>dm.deployment\<close> to
  \<open>client.Deploy\<close>, or a teardown.
\<close>

datatype run_task = TaskDeploy | TaskDeployed | TaskTeardown

datatype run_result = RunOk | RunErr string | RunLeaseInactive string

text \<open>What the manager does to the outside, in order.\<close>

datatype dm_action =
    ActDeploy dep
  | ActStartMonitor dep
  | ActStopMonitor
  | ActRemoveFundsMonitor lease_id
  | ActTeardown
  | ActReclaimAttempt int
  | ActCloseBid bid_id int bool

datatype dm_pc = DmLoop | DmLeft | DmPanic

text \<open>\<open>dm_runch\<close> is the task whose channel the loop reads, \<open>dm_running\<close> the number of tasks that were started
  and whose result has not been received: overwriting \<open>runch\<close> does not end the task behind it.\<close>

record dm =
  dm_state :: deploymentState
  dm_deployment :: dep
  dm_monitor :: "dep option"
  dm_runch :: "run_task option"
  dm_running :: nat
  dm_retryTeardown :: bool
  dm_teardownErr :: "string option"
  dm_reclaimch :: "int option"
  dm_reclaimDeadline :: int
  dm_reclaimC :: "int option"
  dm_reclaiming :: "int option"
  dm_messages :: "string list"
  dm_actions :: "dm_action list"
  dm_pc :: dm_pc

text \<open>
  \<open>DmReclaim\<close> is a call of \<open>reclaim\<close>, \<open>DmReclaimRecv\<close> the loop's receive from the buffered
  channel, \<open>DmReclaimTimer\<close> a fired timer, \<open>DmReclaimResult\<close> the end of an attempt with the
  node's answers to it, \<open>DmDeployCall\<close> the moment the deploy task reads \<open>dm.deployment\<close> for
  \<open>client.Deploy\<close>. \<open>dm_reclaimC\<close> is the wait of the armed timer, \<open>dm_reclaiming\<close> the deadline the attempt
  in flight was started with.
\<close>

datatype sync_answer = SyncErr | SyncInfo bool int

datatype dm_event =
    DmShutdown
  | DmReclaim int
  | DmReclaimRecv
  | DmReclaimTimer
  | DmReclaimResult sync_answer bool
  | DmUpdate dep
  | DmDeployCall
  | DmRun run_result
  | DmRetryTeardown
  | DmTeardown

section \<open>Steps of the loop\<close>

definition s64 :: "int \<Rightarrow> int" where
  "s64 x = sint (word_of_int x :: 64 word)"

text \<open>
  \<open>attemptReclaimClose\<close> on the node's sync state and the outcome of the broadcast: whether a close
  was sent, whether the attempt is done, and otherwise the delay before the next one in
  nanoseconds (\<open>int64\<close> arithmetic).
\<close>

definition attemptReclaimClose :: "int \<Rightarrow> int \<Rightarrow> sync_answer \<Rightarrow> bool \<Rightarrow> bool \<times> bool \<times> int" where
  "attemptReclaimClose retryInterval deadline sync accepted =
     (case sync of
        SyncErr \<Rightarrow> (False, False, retryInterval)
      | SyncInfo catchingUp blockTime \<Rightarrow>
          if catchingUp then (False, False, retryInterval)
          else (let remaining = s64 (deadline - blockTime) in
            if remaining > 0 then (False, False, s64 (remaining * 1000000000))
            else if \<not> accepted then (True, False, retryInterval)
            else (True, True, 0)))"

definition dm_act :: "dm_action \<Rightarrow> dm \<Rightarrow> dm" where
  "dm_act a m = m\<lparr>dm_actions := dm_actions m @ [a]\<rparr>"

definition tearingDown :: "dm \<Rightarrow> bool" where
  "tearingDown m = (case dm_state m of
     dsTeardownPending \<Rightarrow> True | dsTeardownActive \<Rightarrow> True | dsTeardownComplete \<Rightarrow> True | _ \<Rightarrow> False)"

text \<open>A monitor is never forgotten, only shut down; shutting it down again is harmless.\<close>

definition startMonitor :: "dm \<Rightarrow> dm" where
  "startMonitor m = dm_act (ActStartMonitor (dm_deployment m)) (m\<lparr>dm_monitor := Some (dm_deployment m)\<rparr>)"

definition stopMonitor :: "dm \<Rightarrow> dm" where
  "stopMonitor m = (if dm_monitor m \<noteq> None then dm_act ActStopMonitor m else m)"

definition startDeploy :: "dm \<Rightarrow> dm" where
  "startDeploy m = (stopMonitor m)\<lparr>dm_state := dsDeployActive, dm_runch := Some TaskDeploy, dm_running := dm_running m + 1\<rparr>"

definition startTeardown :: "dm \<Rightarrow> dm" where
  "startTeardown m =
     dm_act ActTeardown
       ((dm_act (ActRemoveFundsMonitor (dp_LeaseID (dm_deployment m))) (stopMonitor m))
        \<lparr>dm_state := dsTeardownActive, dm_runch := Some TaskTeardown, dm_running := dm_running m + 1\<rparr>)"

definition dm_reclaim :: "int \<Rightarrow> dm \<Rightarrow> dm" where
  "dm_reclaim deadline m = (if dm_reclaimch m = None then m\<lparr>dm_reclaimch := Some deadline\<rparr> else m)"

definition startReclaimAttempt :: "dm \<Rightarrow> dm" where
  "startReclaimAttempt m =
     (if dm_reclaiming m \<noteq> None \<or> tearingDown m then m
      else dm_act (ActReclaimAttempt (dm_reclaimDeadline m)) (m\<lparr>dm_reclaiming := Some (dm_reclaimDeadline m)\<rparr>))"

definition scheduleReclaim :: "bool \<Rightarrow> int \<Rightarrow> dm \<Rightarrow> dm" where
  "scheduleReclaim done wait m = (if done then m\<lparr>dm_reclaimC := None\<rparr> else m\<lparr>dm_reclaimC := Some wait\<rparr>)"

definition handleUpdate :: "dm \<Rightarrow> dm" where
  "handleUpdate m = (case dm_state m of
     dsDeployActive \<Rightarrow> m\<lparr>dm_state := dsDeployPending\<rparr>
   | dsDeployComplete \<Rightarrow> startDeploy m
   | _ \<Rightarrow> m)"

fun run_error :: "run_result \<Rightarrow> string option" where
  "run_error RunOk = None"
| "run_error (RunErr s) = Some s"
| "run_error (RunLeaseInactive s) = Some s"

text \<open>
  The results a task can send: a deploy succeeds only after its call of \<open>client.Deploy\<close>, and
  only a deploy finds its lease inactive, before that call (\<open>checkLeaseActive\<close> comes first).
\<close>

fun sends :: "run_task \<Rightarrow> run_result \<Rightarrow> bool" where
  "sends TaskDeploy RunOk = False"
| "sends TaskDeployed (RunLeaseInactive s) = False"
| "sends TaskTeardown (RunLeaseInactive s) = False"
| "sends _ _ = True"

definition handle_result :: "run_result \<Rightarrow> dm \<Rightarrow> dm" where
  "handle_result result m0 =
     (let m = m0\<lparr>dm_runch := None, dm_running := dm_running m0 - 1\<rparr> in
      case result of
        RunLeaseInactive _ \<Rightarrow> startTeardown m
      | _ \<Rightarrow>
        (case dm_state m of
           dsDeployActive \<Rightarrow>
             (startMonitor (m\<lparr>dm_state := dsDeployComplete\<rparr>))
             \<lparr>dm_messages := (case run_error result of None \<Rightarrow> [] | Some e \<Rightarrow> [e])\<rparr>
         | dsDeployPending \<Rightarrow> startDeploy m
         | dsDeployComplete \<Rightarrow> m\<lparr>dm_pc := DmPanic\<rparr>
         | dsTeardownActive \<Rightarrow>
             (let m1 = m\<lparr>dm_teardownErr := run_error result\<rparr> in
              if run_error result \<noteq> None then m1\<lparr>dm_retryTeardown := True\<rparr>
              else m1\<lparr>dm_state := dsTeardownComplete, dm_pc := DmLeft\<rparr>)
         | dsTeardownPending \<Rightarrow> startTeardown m
         | dsTeardownComplete \<Rightarrow> m\<lparr>dm_pc := DmPanic\<rparr>))"

definition handle_teardown :: "dm \<Rightarrow> dm" where
  "handle_teardown m0 =
     (let m = stopMonitor m0 in
      case dm_state m of
        dsDeployActive \<Rightarrow> m\<lparr>dm_state := dsTeardownPending\<rparr>
      | dsDeployPending \<Rightarrow> m\<lparr>dm_state := dsTeardownPending\<rparr>
      | dsDeployComplete \<Rightarrow> startTeardown m
      | _ \<Rightarrow> m)"

definition dm_turn :: "int \<Rightarrow> dm \<Rightarrow> dm_event \<Rightarrow> dm" where
  "dm_turn retryInterval m ev =
     (if dm_pc m \<noteq> DmLoop then m else
      case ev of
        DmShutdown \<Rightarrow> m\<lparr>dm_pc := DmLeft\<rparr>
      | DmReclaim deadline \<Rightarrow> dm_reclaim deadline m
      | DmReclaimRecv \<Rightarrow>
          (case dm_reclaimch m of
             None \<Rightarrow> m
           | Some deadline \<Rightarrow> startReclaimAttempt (m\<lparr>dm_reclaimch := None, dm_reclaimDeadline := deadline\<rparr>))
      | DmReclaimTimer \<Rightarrow> if dm_reclaimC m = None then m else startReclaimAttempt (m\<lparr>dm_reclaimC := None\<rparr>)
      | DmReclaimResult sync accepted \<Rightarrow>
          (case dm_reclaiming m of
             None \<Rightarrow> m
           | Some deadline \<Rightarrow>
               (let (sent, done, wait) = attemptReclaimClose retryInterval deadline sync accepted;
                    m1 = (if sent then dm_act (ActCloseBid (dp_LeaseID (dm_deployment m)) deadline accepted) m else m)\<lparr>dm_reclaiming := None\<rparr>
                in if tearingDown m1 then m1 else scheduleReclaim done wait m1))
      | DmUpdate d \<Rightarrow> handleUpdate (m\<lparr>dm_deployment := d\<rparr>)
      | DmDeployCall \<Rightarrow>
          if dm_runch m = Some TaskDeploy then dm_act (ActDeploy (dm_deployment m)) (m\<lparr>dm_runch := Some TaskDeployed\<rparr>) else m
      | DmRun result \<Rightarrow>
          (case dm_runch m of None \<Rightarrow> m | Some t \<Rightarrow> if sends t result then handle_result result m else m)
      | DmRetryTeardown \<Rightarrow> if dm_retryTeardown m then startTeardown (m\<lparr>dm_retryTeardown := False\<rparr>) else m
      | DmTeardown \<Rightarrow> handle_teardown m)"

definition newDeploymentManager :: "dep \<Rightarrow> dm" where
  "newDeploymentManager d =
     \<lparr>dm_state = dsDeployActive, dm_deployment = d, dm_monitor = None, dm_runch = None, dm_running = 0,
      dm_retryTeardown = False, dm_teardownErr = None, dm_reclaimch = None, dm_reclaimDeadline = 0,
      dm_reclaimC = None, dm_reclaiming = None, dm_messages = [], dm_actions = [], dm_pc = DmLoop\<rparr>"

text \<open>The whole loop: \<open>run\<close> starts a deploy and then handles events.\<close>

definition dm_run :: "int \<Rightarrow> dep \<Rightarrow> dm_event list \<Rightarrow> dm" where
  "dm_run retryInterval d evs = foldl (dm_turn retryInterval) (startDeploy (newDeploymentManager d)) evs"

section \<open>Lemmas\<close>

lemmas dm_steps = dm_act_def startMonitor_def stopMonitor_def startDeploy_def startTeardown_def dm_reclaim_def
  startReclaimAttempt_def scheduleReclaim_def handleUpdate_def handle_result_def handle_teardown_def tearingDown_def

text \<open>At most one task runs, and the state says which.\<close>

definition flight_ok :: "dm \<Rightarrow> bool" where
  "flight_ok m = (case dm_state m of
     dsDeployActive \<Rightarrow> dm_runch m \<in> {Some TaskDeploy, Some TaskDeployed} \<and> \<not> dm_retryTeardown m
   | dsDeployPending \<Rightarrow> dm_runch m \<in> {Some TaskDeploy, Some TaskDeployed} \<and> \<not> dm_retryTeardown m
   | dsTeardownPending \<Rightarrow> dm_runch m \<in> {Some TaskDeploy, Some TaskDeployed} \<and> \<not> dm_retryTeardown m
   | dsDeployComplete \<Rightarrow> dm_runch m = None \<and> \<not> dm_retryTeardown m
   | dsTeardownActive \<Rightarrow> dm_runch m \<in> {None, Some TaskTeardown} \<and> (dm_retryTeardown m \<longleftrightarrow> dm_runch m = None)
   | dsTeardownComplete \<Rightarrow> False)"

definition dm_inv :: "dm \<Rightarrow> bool" where
  "dm_inv m = (dm_pc m \<noteq> DmPanic \<and> (dm_pc m = DmLoop \<longrightarrow> flight_ok m))"

lemma dm_inv_start [inv_intro]: "dm_inv (startDeploy (newDeploymentManager d))"
  by (simp add: dm_inv_def flight_ok_def newDeploymentManager_def dm_steps)

text \<open>Reclamation runs beside the rest of the loop: it touches only its own variables.\<close>

fun reclaim_event :: "dm_event \<Rightarrow> bool" where
  "reclaim_event (DmReclaim dl) = True"
| "reclaim_event DmReclaimRecv = True"
| "reclaim_event DmReclaimTimer = True"
| "reclaim_event (DmReclaimResult sy a) = True"
| "reclaim_event _ = False"

lemma dm_act_keeps [simp]:
  "dm_state (dm_act a m) = dm_state m" "dm_deployment (dm_act a m) = dm_deployment m" "dm_monitor (dm_act a m) = dm_monitor m"
  "dm_runch (dm_act a m) = dm_runch m" "dm_running (dm_act a m) = dm_running m" "dm_retryTeardown (dm_act a m) = dm_retryTeardown m" "dm_pc (dm_act a m) = dm_pc m"
  "dm_messages (dm_act a m) = dm_messages m" "dm_reclaimch (dm_act a m) = dm_reclaimch m" "dm_reclaimC (dm_act a m) = dm_reclaimC m"
  "dm_reclaiming (dm_act a m) = dm_reclaiming m" "dm_reclaimDeadline (dm_act a m) = dm_reclaimDeadline m"
  "dm_actions (dm_act a m) = dm_actions m @ [a]"
  by (simp_all add: dm_act_def)

lemma tearingDown_state: "dm_state m' = dm_state m \<Longrightarrow> tearingDown m' = tearingDown m"
  by (simp add: tearingDown_def)

lemma tearingDown_act [simp]:
  "tearingDown (dm_act a m) = tearingDown m" "tearingDown (m\<lparr>dm_reclaiming := x\<rparr>) = tearingDown m"
  "tearingDown (m\<lparr>dm_reclaimch := y\<rparr>) = tearingDown m" "tearingDown (m\<lparr>dm_reclaimDeadline := z\<rparr>) = tearingDown m"
  "tearingDown (m\<lparr>dm_reclaimC := u\<rparr>) = tearingDown m" "tearingDown (m\<lparr>dm_runch := v\<rparr>) = tearingDown m"
  "tearingDown (m\<lparr>dm_running := n\<rparr>) = tearingDown m"
  "tearingDown (m\<lparr>dm_deployment := d\<rparr>) = tearingDown m" "tearingDown (m\<lparr>dm_pc := w\<rparr>) = tearingDown m"
  by (simp_all add: tearingDown_def)

lemma reclaim_turn_keeps:
  assumes "reclaim_event ev"
  shows "dm_state (dm_turn ri m ev) = dm_state m" "dm_deployment (dm_turn ri m ev) = dm_deployment m"
    "dm_monitor (dm_turn ri m ev) = dm_monitor m" "dm_runch (dm_turn ri m ev) = dm_runch m"
    "dm_retryTeardown (dm_turn ri m ev) = dm_retryTeardown m" "dm_pc (dm_turn ri m ev) = dm_pc m"
    "dm_messages (dm_turn ri m ev) = dm_messages m" "dm_running (dm_turn ri m ev) = dm_running m"
  using assms
  by (cases ev; simp add: dm_turn_def startReclaimAttempt_def dm_reclaim_def scheduleReclaim_def Let_def split: option.split prod.split)+

text \<open>
  The control skeleton of the loop: its state, the task in flight, whether a teardown waits for
  its retry, and whether the loop still runs. It is a finite machine on its own.
\<close>

definition core :: "dm \<Rightarrow> deploymentState \<times> run_task option \<times> bool \<times> dm_pc" where
  "core m = (dm_state m, dm_runch m, dm_retryTeardown m, dm_pc m)"

fun core_result :: "deploymentState \<Rightarrow> bool \<Rightarrow> run_result \<Rightarrow> deploymentState \<times> run_task option \<times> bool \<times> dm_pc" where
  "core_result st rt (RunLeaseInactive e) = (dsTeardownActive, Some TaskTeardown, rt, DmLoop)"
| "core_result dsDeployActive rt r = (dsDeployComplete, None, rt, DmLoop)"
| "core_result dsDeployPending rt r = (dsDeployActive, Some TaskDeploy, rt, DmLoop)"
| "core_result dsTeardownPending rt r = (dsTeardownActive, Some TaskTeardown, rt, DmLoop)"
| "core_result dsTeardownActive rt RunOk = (dsTeardownComplete, None, rt, DmLeft)"
| "core_result dsTeardownActive rt r = (dsTeardownActive, None, True, DmLoop)"
| "core_result st rt r = (st, None, rt, DmPanic)"

fun core_turn :: "deploymentState \<times> run_task option \<times> bool \<times> dm_pc \<Rightarrow> dm_event \<Rightarrow> deploymentState \<times> run_task option \<times> bool \<times> dm_pc" where
  "core_turn (st, t, rt, pc) ev =
     (if pc \<noteq> DmLoop then (st, t, rt, pc) else
      case ev of
        DmShutdown \<Rightarrow> (st, t, rt, DmLeft)
      | DmUpdate d \<Rightarrow> if st = dsDeployActive then (dsDeployPending, t, rt, pc)
                      else if st = dsDeployComplete then (dsDeployActive, Some TaskDeploy, rt, pc) else (st, t, rt, pc)
      | DmDeployCall \<Rightarrow> (st, if t = Some TaskDeploy then Some TaskDeployed else t, rt, pc)
      | DmRun r \<Rightarrow> (case t of None \<Rightarrow> (st, t, rt, pc) | Some u \<Rightarrow> if sends u r then core_result st rt r else (st, t, rt, pc))
      | DmRetryTeardown \<Rightarrow> if rt then (dsTeardownActive, Some TaskTeardown, False, pc) else (st, t, rt, pc)
      | DmTeardown \<Rightarrow> if st = dsDeployActive \<or> st = dsDeployPending then (dsTeardownPending, t, rt, pc)
                      else if st = dsDeployComplete then (dsTeardownActive, Some TaskTeardown, rt, pc) else (st, t, rt, pc)
      | _ \<Rightarrow> (st, t, rt, pc))"

lemma core_handle_result:
  "dm_pc m = DmLoop \<Longrightarrow> core (handle_result r m) = core_result (dm_state m) (dm_retryTeardown m) r"
  by (cases "dm_state m"; cases r) (simp_all add: core_def handle_result_def startTeardown_def startDeploy_def startMonitor_def stopMonitor_def Let_def)

lemma core_refines: "core (dm_turn ri m ev) = core_turn (core m) ev"
proof (cases "reclaim_event ev")
  case True
  then show ?thesis unfolding core_def reclaim_turn_keeps[OF True] by (cases ev) simp_all
next
  case False
  show ?thesis
  proof (cases ev)
    case (DmRun r)
    then show ?thesis using core_handle_result[of m r] by (auto simp: dm_turn_def core_def split: option.split)
  qed (use False in \<open>simp_all add: core_def dm_turn_def handleUpdate_def handle_teardown_def startTeardown_def
      startDeploy_def stopMonitor_def Let_def split: deploymentState.split\<close>)
qed

lemma core_turns: "core (foldl (dm_turn ri) m evs) = foldl core_turn (core m) evs"
  by (induction evs arbitrary: m) (simp_all add: core_refines)

lemma dm_inv_core:
  "dm_inv m = (case core m of (st, t, rt, pc) \<Rightarrow> pc \<noteq> DmPanic \<and> (pc = DmLoop \<longrightarrow>
     (st, t, rt) \<in> {(dsDeployActive, Some TaskDeploy, False), (dsDeployActive, Some TaskDeployed, False),
      (dsDeployPending, Some TaskDeploy, False), (dsDeployPending, Some TaskDeployed, False),
      (dsTeardownPending, Some TaskDeploy, False), (dsTeardownPending, Some TaskDeployed, False),
      (dsDeployComplete, None, False), (dsTeardownActive, None, True), (dsTeardownActive, Some TaskTeardown, False)}))"
  by (cases "dm_state m") (auto simp: dm_inv_def flight_ok_def core_def)

lemma core_result_ok:
  assumes "sends u r" and "(st, Some u, rt) \<in> {(dsDeployActive, Some TaskDeploy, False), (dsDeployActive, Some TaskDeployed, False),
      (dsDeployPending, Some TaskDeploy, False), (dsDeployPending, Some TaskDeployed, False),
      (dsTeardownPending, Some TaskDeploy, False), (dsTeardownPending, Some TaskDeployed, False), (dsTeardownActive, Some TaskTeardown, False)}"
  shows "core_result st rt r \<in> {(dsDeployComplete, None, False, DmLoop), (dsDeployActive, Some TaskDeploy, False, DmLoop),
    (dsTeardownActive, Some TaskTeardown, False, DmLoop), (dsTeardownComplete, None, False, DmLeft), (dsTeardownActive, None, True, DmLoop)}"
  using assms by (cases r) auto

lemma dm_turn_inv [inv_intro]:
  assumes "dm_inv m"
  shows "dm_inv (dm_turn ri m ev)"
proof -
  obtain st t rt pc where c: "core m = (st, t, rt, pc)" by (metis prod_cases4)
  show ?thesis
  proof (cases "\<exists>r u. ev = DmRun r \<and> t = Some u \<and> sends u r \<and> pc = DmLoop")
    case True
    then obtain r u where r: "ev = DmRun r" "t = Some u" "sends u r" "pc = DmLoop" by blast
    have "core (dm_turn ri m ev) = core_result st rt r" using r by (simp add: core_refines c)
    moreover have "core_result st rt r \<in> {(dsDeployComplete, None, False, DmLoop), (dsDeployActive, Some TaskDeploy, False, DmLoop),
        (dsTeardownActive, Some TaskTeardown, False, DmLoop), (dsTeardownComplete, None, False, DmLeft), (dsTeardownActive, None, True, DmLoop)}"
      by (rule core_result_ok[OF r(3)]) (use assms r in \<open>simp add: dm_inv_core c\<close>)
    ultimately show ?thesis by (elim insertE emptyE) (simp_all add: dm_inv_core)
  next
    case False
    then have "core_turn (st, t, rt, pc) ev = (st, t, rt, pc)" if "\<exists>r. ev = DmRun r"
      using that by (auto split: option.split)
    then show ?thesis using assms unfolding dm_inv_core core_refines c
      by (cases ev) (simp_all, auto)
  qed
qed

lemma dm_run_inv [inv_intro]: "dm_inv (dm_run ri d evs)"
  unfolding dm_run_def by (rule foldl_invariant[of dm_inv]) (simp_all add: dm_inv_start dm_turn_inv)

text \<open>No task runs but the one behind \<open>runch\<close>: a task is started only when none is running.\<close>

definition one_task :: "dm \<Rightarrow> bool" where
  "one_task m \<longleftrightarrow> dm_running m = of_bool (dm_runch m \<noteq> None)"

lemma one_task_turn:
  assumes "dm_inv m" and "one_task m"
  shows "one_task (dm_turn ri m ev)"
proof (cases "dm_pc m = DmLoop")
  case loop: True
  then have fl: "flight_ok m" using assms(1) by (simp add: dm_inv_def)
  show ?thesis
  proof (cases "reclaim_event ev")
    case True
    show ?thesis using assms(2) unfolding one_task_def reclaim_turn_keeps[OF True] .
  next
    case False
    show ?thesis
    proof (cases ev)
      case (DmRun r)
      then show ?thesis using loop fl assms(2)
        by (cases r) (auto simp: one_task_def dm_turn_def handle_result_def startMonitor_def startDeploy_def startTeardown_def
            stopMonitor_def Let_def split: option.splits deploymentState.splits)
    qed (use False loop fl assms(2) in \<open>auto simp: one_task_def dm_turn_def flight_ok_def handleUpdate_def handle_teardown_def
        startDeploy_def startTeardown_def stopMonitor_def Let_def split: deploymentState.splits\<close>)
  qed
qed (use assms in \<open>simp add: dm_turn_def\<close>)

lemma dm_run_one_task: "one_task (dm_run ri d evs)"
proof -
  have "dm_inv (dm_run ri d evs) \<and> one_task (dm_run ri d evs)" unfolding dm_run_def
    by (rule foldl_invariant[where I = "\<lambda>m. dm_inv m \<and> one_task m"])
      (simp add: dm_inv_start, simp add: one_task_def newDeploymentManager_def startDeploy_def stopMonitor_def, simp add: dm_turn_inv one_task_turn)
  then show ?thesis ..
qed

text \<open>The deployments handed to Kubernetes, in order.\<close>

definition deploys :: "dm \<Rightarrow> dep list" where
  "deploys m = concat (map (\<lambda>a. case a of ActDeploy d \<Rightarrow> [d] | _ \<Rightarrow> []) (dm_actions m))"

lemma deploys_act [simp]: "deploys (dm_act a m) = deploys m @ (case a of ActDeploy d \<Rightarrow> [d] | _ \<Rightarrow> [])"
  by (simp add: deploys_def)

lemma deploys_same: "dm_actions m' = dm_actions m \<Longrightarrow> deploys m' = deploys m"
  by (simp add: deploys_def)

text \<open>What is deployed is what the manager holds, unless an update waits for its turn.\<close>

definition current_ok :: "dm \<Rightarrow> bool" where
  "current_ok m = (case dm_state m of
     dsDeployActive \<Rightarrow> dm_runch m = Some TaskDeployed \<longrightarrow> deploys m \<noteq> [] \<and> last (deploys m) = dm_deployment m
   | dsDeployComplete \<Rightarrow> dm_monitor m = Some (dm_deployment m) \<and>
       (dm_messages m = [] \<longrightarrow> deploys m \<noteq> [] \<and> last (deploys m) = dm_deployment m)
   | _ \<Rightarrow> True)"

definition dm_good :: "dm \<Rightarrow> bool" where
  "dm_good m = (dm_inv m \<and> (dm_pc m = DmLoop \<longrightarrow> current_ok m))"

lemma deploys_upd [simp]:
  "deploys (m\<lparr>dm_state := a\<rparr>) = deploys m" "deploys (m\<lparr>dm_runch := b\<rparr>) = deploys m"
  "deploys (m\<lparr>dm_deployment := c\<rparr>) = deploys m" "deploys (m\<lparr>dm_monitor := d\<rparr>) = deploys m"
  "deploys (m\<lparr>dm_messages := e\<rparr>) = deploys m" "deploys (m\<lparr>dm_retryTeardown := f\<rparr>) = deploys m"
  "deploys (m\<lparr>dm_reclaiming := g\<rparr>) = deploys m" "deploys (m\<lparr>dm_reclaimC := h\<rparr>) = deploys m"
  "deploys (m\<lparr>dm_reclaimch := i\<rparr>) = deploys m" "deploys (m\<lparr>dm_reclaimDeadline := j\<rparr>) = deploys m"
  "deploys (m\<lparr>dm_running := n\<rparr>) = deploys m"
  "deploys (m\<lparr>dm_teardownErr := k\<rparr>) = deploys m" "deploys (m\<lparr>dm_pc := l\<rparr>) = deploys m"
  by (simp_all add: deploys_def)

lemmas dm_ops = startMonitor_def stopMonitor_def startDeploy_def startTeardown_def handleUpdate_def
  handle_result_def handle_teardown_def

lemma reclaim_turn_deploys: "reclaim_event ev \<Longrightarrow> deploys (dm_turn ri m ev) = deploys m"
  by (cases ev) (simp_all add: dm_turn_def startReclaimAttempt_def dm_reclaim_def scheduleReclaim_def Let_def
      split: option.split prod.split)

lemma handle_result_current:
  assumes "dm_inv m" and "current_ok m" and "dm_runch m = Some t" and "sends t r" and "dm_pc m = DmLoop"
  shows "current_ok (handle_result r m)"
  using assms
  by (cases "dm_state m"; cases r; cases t) (auto simp: dm_inv_def flight_ok_def current_ok_def dm_ops Let_def)

lemma dm_turn_good [inv_intro]:
  assumes "dm_good m"
  shows "dm_good (dm_turn ri m ev)"
proof (cases "reclaim_event ev")
  case True
  show ?thesis
    using assms dm_turn_inv[of m ri ev]
    unfolding dm_good_def current_ok_def reclaim_turn_keeps[OF True] reclaim_turn_deploys[OF True] by blast
next
  case False
  have "current_ok (dm_turn ri m ev)" if "dm_pc m = DmLoop" "current_ok m"
  proof (cases ev)
    case (DmRun r)
    then show ?thesis using that assms handle_result_current
      by (auto simp: dm_turn_def dm_good_def split: option.splits)
  qed (use False assms that in
      \<open>auto simp: dm_turn_def dm_good_def dm_inv_def flight_ok_def current_ok_def dm_ops Let_def split: deploymentState.splits\<close>)
  moreover have "dm_turn ri m ev = m" if "dm_pc m \<noteq> DmLoop" using that by (simp add: dm_turn_def)
  ultimately show ?thesis using assms dm_turn_inv[of m ri ev] by (cases "dm_pc m = DmLoop") (auto simp: dm_good_def)
qed

lemma dm_run_good [inv_intro]: "dm_good (dm_run ri d evs)"
  unfolding dm_run_def
  by (rule foldl_invariant[of dm_good])
    (simp_all add: dm_turn_good, simp add: dm_good_def dm_inv_start, simp add: current_ok_def startDeploy_def)

definition last_update :: "dep \<Rightarrow> dm_event list \<Rightarrow> dep" where
  "last_update d evs = fold (\<lambda>ev d. case ev of DmUpdate d' \<Rightarrow> d' | _ \<Rightarrow> d) evs d"

lemma ops_deployment [simp]:
  "dm_deployment (stopMonitor m) = dm_deployment m" "dm_deployment (startMonitor m) = dm_deployment m"
  "dm_deployment (startDeploy m) = dm_deployment m" "dm_deployment (startTeardown m) = dm_deployment m"
  "dm_deployment (handleUpdate m) = dm_deployment m" "dm_deployment (handle_teardown m) = dm_deployment m"
  "dm_deployment (handle_result r m) = dm_deployment m"
  by (simp_all add: dm_ops Let_def split: run_result.split deploymentState.split)

lemma turn_deployment:
  "dm_pc m = DmLoop \<Longrightarrow> dm_deployment (dm_turn ri m ev) = (case ev of DmUpdate d \<Rightarrow> d | _ \<Rightarrow> dm_deployment m)"
  by (cases "reclaim_event ev"; cases ev) (simp_all add: reclaim_turn_keeps, simp_all add: dm_turn_def split: option.split)

lemma turn_stopped [simp]: "dm_pc m \<noteq> DmLoop \<Longrightarrow> dm_turn ri m ev = m"
  by (simp add: dm_turn_def)

lemma turns_stopped [simp]: "dm_pc m \<noteq> DmLoop \<Longrightarrow> foldl (dm_turn ri) m evs = m"
  by (induction evs) simp_all

lemma turns_deployment:
  "dm_pc (foldl (dm_turn ri) m evs) = DmLoop \<Longrightarrow>
   dm_deployment (foldl (dm_turn ri) m evs) = last_update (dm_deployment m) evs"
proof (induction evs arbitrary: m)
  case (Cons ev evs)
  then have "dm_pc m = DmLoop" by (metis turns_stopped)
  then show ?case using Cons turn_deployment[of m ri ev] by (simp add: last_update_def)
qed (simp add: last_update_def)

text \<open>Counts of the actions taken.\<close>

definition acted :: "(dm_action \<Rightarrow> bool) \<Rightarrow> dm \<Rightarrow> nat" where
  "acted P m = length (filter P (dm_actions m))"

fun is_ActDeploy :: "dm_action \<Rightarrow> bool" where "is_ActDeploy (ActDeploy d) = True" | "is_ActDeploy _ = False"
fun is_ActStartMonitor :: "dm_action \<Rightarrow> bool" where "is_ActStartMonitor (ActStartMonitor d) = True" | "is_ActStartMonitor _ = False"
fun is_ActReclaimAttempt :: "dm_action \<Rightarrow> bool" where "is_ActReclaimAttempt (ActReclaimAttempt d) = True" | "is_ActReclaimAttempt _ = False"
fun is_ActCloseBid :: "dm_action \<Rightarrow> bool" where "is_ActCloseBid (ActCloseBid b d a) = True" | "is_ActCloseBid _ = False"

text \<open>
  What a manager may still do once it is tearing down: let the deploy that is in flight make
  its call and the reclamation attempt in flight send its close, once each.
\<close>

definition winding_down :: "dm \<Rightarrow> dm \<Rightarrow> bool" where
  "winding_down m m' =
     (tearingDown m' \<and> acted is_ActStartMonitor m' = acted is_ActStartMonitor m \<and>
      acted is_ActReclaimAttempt m' = acted is_ActReclaimAttempt m \<and>
      acted is_ActDeploy m' + of_bool (dm_runch m' = Some TaskDeploy) \<le> acted is_ActDeploy m + of_bool (dm_runch m = Some TaskDeploy) \<and>
      acted is_ActCloseBid m' + of_bool (dm_reclaiming m' \<noteq> None) \<le> acted is_ActCloseBid m + of_bool (dm_reclaiming m \<noteq> None))"

lemma winding_trans: "winding_down a b \<Longrightarrow> winding_down b c \<Longrightarrow> winding_down a c"
  unfolding winding_down_def by linarith

lemma tearing_core: "tearingDown m = (fst (core m) \<in> {dsTeardownPending, dsTeardownActive, dsTeardownComplete})"
  by (simp add: tearingDown_def core_def split: deploymentState.split)

lemma winding_result: "tearingDown m \<Longrightarrow> dm_pc m = DmLoop \<Longrightarrow> winding_down m (handle_result r m)"
  by (cases "dm_state m"; cases r)
    (simp_all add: winding_down_def acted_def tearingDown_def handle_result_def startTeardown_def stopMonitor_def Let_def)

lemma handleUpdate_tearing: "tearingDown m \<Longrightarrow> handleUpdate m = m"
  by (simp add: tearingDown_def handleUpdate_def split: deploymentState.splits)

lemma handle_teardown_tearing: "tearingDown m \<Longrightarrow> handle_teardown m = stopMonitor m"
  by (simp add: tearingDown_def handle_teardown_def stopMonitor_def Let_def split: deploymentState.splits)

lemma winding_stopMonitor: "tearingDown m \<Longrightarrow> winding_down m (stopMonitor m)"
  by (simp add: winding_down_def stopMonitor_def acted_def)

lemma winding_startTeardown: "winding_down m (startTeardown m)"
  by (simp add: winding_down_def startTeardown_def stopMonitor_def acted_def tearingDown_def)

lemma winding_turn:
  assumes "tearingDown m"
  shows "winding_down m (dm_turn ri m ev)"
proof (cases "dm_pc m = DmLoop")
  case True
  have same: "winding_down m m" using assms by (simp add: winding_down_def)
  show ?thesis
  proof (cases ev)
    case (DmRun r)
    then show ?thesis using winding_result[OF assms True] same by (simp add: dm_turn_def split: option.split)
  next
    case (DmReclaimResult sy a)
    obtain sent fin wait where r: "attemptReclaimClose ri (the (dm_reclaiming m)) sy a = (sent, fin, wait)"
      by (metis prod_cases3)
    show ?thesis using assms True DmReclaimResult r
      by (cases "dm_reclaiming m"; cases sent) (simp_all add: winding_down_def acted_def dm_turn_def)
  next
    case DmReclaimRecv
    then show ?thesis using assms True
      by (simp add: winding_down_def acted_def dm_turn_def startReclaimAttempt_def split: option.split)
  next
    case (DmUpdate d)
    then show ?thesis using True assms
      by (simp add: dm_turn_def handleUpdate_tearing) (simp add: winding_down_def acted_def)
  next
    case DmRetryTeardown
    then show ?thesis using True same winding_startTeardown[of "m\<lparr>dm_retryTeardown := False\<rparr>"]
      by (simp add: dm_turn_def) (simp add: winding_down_def acted_def)
  next
    case DmTeardown
    then show ?thesis using True assms by (simp add: dm_turn_def handle_teardown_tearing winding_stopMonitor)
  qed (use assms True in \<open>simp_all add: winding_down_def acted_def dm_turn_def dm_reclaim_def startReclaimAttempt_def\<close>)
qed (use assms in \<open>simp add: winding_down_def\<close>)

lemma winding_turns: "tearingDown m \<Longrightarrow> winding_down m (foldl (dm_turn ri) m evs)"
proof (induction evs arbitrary: m)
  case (Cons ev evs)
  have "winding_down m (dm_turn ri m ev)" by (rule winding_turn[OF Cons.prems])
  moreover from this have "tearingDown (dm_turn ri m ev)" by (simp add: winding_down_def)
  ultimately show ?case using Cons.IH by (auto intro: winding_trans)
qed (simp add: winding_down_def)

lemma s64_id: "- (2 ^ 63) \<le> x \<Longrightarrow> x < 2 ^ 63 \<Longrightarrow> s64 x = x"
  by (simp add: s64_def sint_sbintrunc' signed_take_bit_int_eq_self)

text \<open>A deadline is not forgotten: it is queued, being tried, waiting for its timer, or done.\<close>

definition pursued :: "dm \<Rightarrow> bool" where
  "pursued m = (dm_reclaimch m \<noteq> None \<or> dm_reclaiming m \<noteq> None \<or> dm_reclaimC m \<noteq> None \<or>
     list_ex (\<lambda>a. case a of ActCloseBid b dl ok \<Rightarrow> ok | _ \<Rightarrow> False) (dm_actions m))"

definition reclaim_view :: "dm \<Rightarrow> int option \<times> int option \<times> int option \<times> int \<times> dm_action list" where
  "reclaim_view m = (dm_reclaimch m, dm_reclaiming m, dm_reclaimC m, dm_reclaimDeadline m, filter is_ActCloseBid (dm_actions m))"

lemma reclaim_view_act [simp]: "\<not> is_ActCloseBid a \<Longrightarrow> reclaim_view (dm_act a m) = reclaim_view m"
  by (simp add: reclaim_view_def)

lemma reclaim_view_upd [simp]:
  "reclaim_view (m\<lparr>dm_state := a\<rparr>) = reclaim_view m" "reclaim_view (m\<lparr>dm_runch := b\<rparr>) = reclaim_view m"
  "reclaim_view (m\<lparr>dm_deployment := c\<rparr>) = reclaim_view m" "reclaim_view (m\<lparr>dm_monitor := d\<rparr>) = reclaim_view m"
  "reclaim_view (m\<lparr>dm_messages := e\<rparr>) = reclaim_view m" "reclaim_view (m\<lparr>dm_retryTeardown := f\<rparr>) = reclaim_view m"
  "reclaim_view (m\<lparr>dm_running := n\<rparr>) = reclaim_view m"
  "reclaim_view (m\<lparr>dm_teardownErr := k\<rparr>) = reclaim_view m" "reclaim_view (m\<lparr>dm_pc := l\<rparr>) = reclaim_view m"
  by (simp_all add: reclaim_view_def)

lemma reclaim_view_ops [simp]:
  "reclaim_view (stopMonitor m) = reclaim_view m" "reclaim_view (startMonitor m) = reclaim_view m"
  "reclaim_view (startDeploy m) = reclaim_view m" "reclaim_view (startTeardown m) = reclaim_view m"
  by (simp_all add: startMonitor_def stopMonitor_def startDeploy_def startTeardown_def)

lemma reclaim_view_result [simp]: "reclaim_view (handle_result r m) = reclaim_view m"
  by (simp add: handle_result_def Let_def split: run_result.split deploymentState.split)

lemma reclaim_view_turn: "\<not> reclaim_event ev \<Longrightarrow> reclaim_view (dm_turn ri m ev) = reclaim_view m"
  by (cases ev) (simp_all add: dm_turn_def handleUpdate_def handle_teardown_def Let_def split: option.split deploymentState.split)

lemma pursued_other:
  assumes "\<not> reclaim_event ev"
  shows "dm_reclaimch (dm_turn ri m ev) = dm_reclaimch m" "dm_reclaiming (dm_turn ri m ev) = dm_reclaiming m"
    "dm_reclaimC (dm_turn ri m ev) = dm_reclaimC m" "dm_reclaimDeadline (dm_turn ri m ev) = dm_reclaimDeadline m"
    "filter is_ActCloseBid (dm_actions (dm_turn ri m ev)) = filter is_ActCloseBid (dm_actions m)"
  using reclaim_view_turn[OF assms, of ri m] by (simp_all add: reclaim_view_def)

lemma accepted_filter:
  "list_ex (\<lambda>a. case a of ActCloseBid b dl ok \<Rightarrow> ok | _ \<Rightarrow> False) as =
   list_ex (\<lambda>a. case a of ActCloseBid b dl ok \<Rightarrow> ok | _ \<Rightarrow> False) (filter is_ActCloseBid as)"
  by (induction as) (auto split: dm_action.splits)

lemma attempt_cases:
  "attemptReclaimClose ri dl sy a = (sent, done, wait) \<Longrightarrow> (done \<longrightarrow> sent \<and> a) \<and> (sent \<longrightarrow> (\<exists>t. sy = SyncInfo False t \<and> s64 (dl - t) \<le> 0))"
  by (auto simp: attemptReclaimClose_def Let_def split: sync_answer.splits if_splits)

lemma pursued_turn:
  assumes "tearingDown m \<or> pursued m"
  shows "tearingDown (dm_turn ri m ev) \<or> pursued (dm_turn ri m ev)"
proof (cases "tearingDown m")
  case True
  then show ?thesis using winding_turn by (auto simp: winding_down_def)
next
  case False
  then have p: "pursued m" using assms by simp
  show ?thesis
  proof (cases "reclaim_event ev")
    case True
    then show ?thesis
    proof (cases ev)
      case (DmReclaimResult sy a)
      then show ?thesis using p False
        by (auto simp: dm_turn_def pursued_def scheduleReclaim_def Let_def dest: attempt_cases split: option.splits prod.splits if_splits)
    qed (use p False in \<open>auto simp: dm_turn_def pursued_def dm_reclaim_def startReclaimAttempt_def tearingDown_def
          split: option.splits if_splits deploymentState.splits\<close>)
  next
    case False
    then show ?thesis using p unfolding pursued_def accepted_filter[of "dm_actions _"] pursued_other[OF False] by blast
  qed
qed

lemma pursued_turns: "tearingDown m \<or> pursued m \<Longrightarrow> tearingDown (foldl (dm_turn ri) m evs) \<or> pursued (foldl (dm_turn ri) m evs)"
  by (rule foldl_invariant[where I = "\<lambda>m. tearingDown m \<or> pursued m"]) (simp, rule pursued_turn)

text \<open>Where deadlines come from, and when a close was sent, over a set \<open>E\<close> of events.\<close>

definition close_due :: "dm_event set \<Rightarrow> dm_action \<Rightarrow> bool" where
  "close_due E a = (case a of
     ActCloseBid b dl ok \<Rightarrow> DmReclaim dl \<in> E \<and> (\<exists>t. DmReclaimResult (SyncInfo False t) ok \<in> E \<and> s64 (dl - t) \<le> 0)
   | _ \<Rightarrow> True)"

definition reclaim_inv :: "dm_event set \<Rightarrow> dm \<Rightarrow> bool" where
  "reclaim_inv E m =
     ((\<forall>dl. dm_reclaimch m = Some dl \<longrightarrow> DmReclaim dl \<in> E) \<and> (\<forall>dl. dm_reclaiming m = Some dl \<longrightarrow> DmReclaim dl \<in> E) \<and>
      (dm_reclaiming m \<noteq> None \<or> dm_reclaimC m \<noteq> None \<longrightarrow> DmReclaim (dm_reclaimDeadline m) \<in> E) \<and>
      list_all (close_due E) (filter is_ActCloseBid (dm_actions m)))"

lemma reclaim_turn_inv:
  assumes "reclaim_inv E m" and "ev \<in> E"
  shows "reclaim_inv E (dm_turn ri m ev)"
proof (cases "reclaim_event ev")
  case True
  show ?thesis
  proof (cases ev)
    case (DmReclaimResult sy a)
    show ?thesis
    proof (cases "dm_pc m = DmLoop")
      case loop: True
      obtain sent fin wait where r: "attemptReclaimClose ri (the (dm_reclaiming m)) sy a = (sent, fin, wait)"
        by (metis prod_cases3)
      show ?thesis using assms DmReclaimResult r attempt_cases[OF r] loop
        by (cases "dm_reclaiming m"; cases sent)
          (auto simp: dm_turn_def reclaim_inv_def scheduleReclaim_def close_due_def Let_def)
    qed (use assms in simp)
  qed (use assms True in \<open>auto simp: dm_turn_def reclaim_inv_def dm_reclaim_def startReclaimAttempt_def split: option.splits\<close>)
next
  case False
  show ?thesis using assms(1) unfolding reclaim_inv_def pursued_other[OF False] .
qed

lemma reclaim_run_inv: "reclaim_inv (set evs) (dm_run ri d evs)"
  unfolding dm_run_def
  by (rule foldl_invariant[where I = "reclaim_inv (set evs)"])
    (simp add: reclaim_inv_def newDeploymentManager_def startDeploy_def stopMonitor_def, rule reclaim_turn_inv)

text \<open>The states a manager can be in before anything shuts it down.\<close>

definition dm_reachable :: "int \<Rightarrow> dm \<Rightarrow> bool" where
  "dm_reachable ri m = (\<exists>d evs. m = dm_run ri d evs \<and> DmShutdown \<notin> set evs)"

lemma dm_reachable_start: "dm_reachable ri (startDeploy (newDeploymentManager d))"
  unfolding dm_reachable_def by (rule exI[of _ d], rule exI[of _ "[]"]) (simp add: dm_run_def)

lemma dm_reachable_turn: "dm_reachable ri m \<Longrightarrow> ev \<noteq> DmShutdown \<Longrightarrow> dm_reachable ri (dm_turn ri m ev)"
  unfolding dm_reachable_def by (clarify, rule_tac x = d in exI, rule_tac x = "evs @ [ev]" in exI) (simp add: dm_run_def)

lemma core_leaves:
  assumes "ev \<noteq> DmShutdown" and "snd (snd (snd c)) \<noteq> DmLeft \<or> fst c = dsTeardownComplete"
  shows "snd (snd (snd (core_turn c ev))) \<noteq> DmLeft \<or> fst (core_turn c ev) = dsTeardownComplete"
proof -
  obtain st t rt pc where c: "c = (st, t, rt, pc)" by (metis prod_cases4)
  have "snd (snd (snd (core_result st rt r))) \<noteq> DmLeft \<or> fst (core_result st rt r) = dsTeardownComplete" for r
    by (cases st; cases r) simp_all
  then show ?thesis using assms unfolding c by (cases ev) (auto split: option.split)
qed

text \<open>A manager that was not shut down leaves its loop only when teardown has succeeded.\<close>

lemma dm_reachable_left:
  assumes "dm_reachable ri m" and "dm_pc m \<noteq> DmLoop"
  shows "dm_state m = dsTeardownComplete"
proof -
  obtain d evs where m: "m = dm_run ri d evs" and evs: "DmShutdown \<notin> set evs" using assms(1) by (auto simp: dm_reachable_def)
  have "(\<lambda>c. snd (snd (snd c)) \<noteq> DmLeft \<or> fst c = dsTeardownComplete) (core m)"
    unfolding m dm_run_def core_turns
    by (rule foldl_invariant[where I = "\<lambda>c. snd (snd (snd c)) \<noteq> DmLeft \<or> fst c = dsTeardownComplete"])
      (simp add: core_def newDeploymentManager_def startDeploy_def stopMonitor_def, rule core_leaves, use evs in auto)
  moreover have "dm_pc m = DmLeft" using assms(2) dm_run_inv[of ri d evs] by (cases "dm_pc m") (auto simp: m dm_inv_def)
  ultimately show ?thesis by (simp add: core_def)
qed

lemma dm_turn_deployment:
  "dm_deployment (dm_turn ri m ev) = (case ev of DmUpdate d \<Rightarrow> if dm_pc m = DmLoop then d else dm_deployment m | _ \<Rightarrow> dm_deployment m)"
  by (cases "dm_pc m = DmLoop") (simp_all add: turn_deployment split: dm_event.split)

section \<open>Properties\<close>

definition ex_dm_lease :: lease_id where
  "ex_dm_lease = \<lparr>l_owner = ''alice'', l_dseq = 1, l_gseq = 1, l_oseq = 1, l_provider = ''p''\<rparr>"

definition ex_dep :: "string \<Rightarrow> dep" where
  "ex_dep n = \<lparr>dp_LeaseID = ex_dm_lease, dp_ManifestGroup = \<lparr>mg_Name = n, mg_Services = []\<rparr>\<rparr>"

text \<open>C15: the manager of a lease never panics and runs one task at a time. Whatever the order of
  updates, results, timers and requests, \<open>INVALID STATE\<close> is not reached; of the deploys and
  teardowns that were started, at most one has not finished, and it is the one whose result the
  loop awaits (no task is started over a running one and forgotten). While the loop runs, a task
  is in flight exactly when the state is neither \<open>deploy-complete\<close> nor a failed teardown that waits
  for its retry, and it is a teardown exactly when the state is \<open>teardown-active\<close>.\<close>

theorem manager_single_flight:
  "dm_pc (dm_run ri d evs) \<noteq> DmPanic \<and>
   dm_running (dm_run ri d evs) = (if dm_runch (dm_run ri d evs) = None then 0 else 1) \<and>
   (dm_pc (dm_run ri d evs) = DmLoop \<longrightarrow>
     (dm_running (dm_run ri d evs) = 1) =
       (dm_state (dm_run ri d evs) \<noteq> dsDeployComplete \<and> \<not> dm_retryTeardown (dm_run ri d evs)) \<and>
     (dm_runch (dm_run ri d evs) = Some TaskTeardown) =
       (dm_state (dm_run ri d evs) = dsTeardownActive \<and> \<not> dm_retryTeardown (dm_run ri d evs)))"
  using dm_run_inv[of ri d evs] dm_run_one_task[of ri d evs]
  by (cases "dm_state (dm_run ri d evs)") (auto simp: dm_inv_def flight_ok_def one_task_def)

theorem manager_single_flight_witness:
  "dm_pc (dm_run 60 (ex_dep ''a'') [DmDeployCall, DmUpdate (ex_dep ''b''), DmRun RunOk, DmTeardown]) = DmLoop \<and>
   dm_running (dm_run 60 (ex_dep ''a'') [DmDeployCall, DmUpdate (ex_dep ''b''), DmRun RunOk, DmTeardown]) = 1"
proof -
  let ?m = "dm_run 60 (ex_dep ''a'') [DmDeployCall, DmUpdate (ex_dep ''b''), DmRun RunOk, DmTeardown]"
  have "dm_pc ?m = DmLoop" "dm_state ?m = dsTeardownPending" "\<not> dm_retryTeardown ?m"
    by (simp_all add: dm_run_def newDeploymentManager_def dm_turn_def dm_steps Let_def)
  then show ?thesis
    using manager_single_flight[of 60 "ex_dep ''a''" "[DmDeployCall, DmUpdate (ex_dep ''b''), DmRun RunOk, DmTeardown]"] by simp
qed

text \<open>C2: an update is never lost. When a manager has settled in \<open>deploy-complete\<close> without an error
  message, the deployment last handed to Kubernetes is the last one received, whatever was
  in flight when the updates came, and that is the deployment the monitor watches (the monitor
  watches it after a failed deploy too).\<close>

theorem latest_update_deployed:
  assumes "dm_pc (dm_run ri d evs) = DmLoop" and "dm_state (dm_run ri d evs) = dsDeployComplete"
  shows "dm_monitor (dm_run ri d evs) = Some (last_update d evs) \<and>
    (dm_messages (dm_run ri d evs) = [] \<longrightarrow>
      deploys (dm_run ri d evs) \<noteq> [] \<and> last (deploys (dm_run ri d evs)) = last_update d evs)"
proof -
  have "dm_deployment (dm_run ri d evs) = last_update d evs"
    using turns_deployment[of ri "startDeploy (newDeploymentManager d)" evs] assms(1)
    by (simp add: dm_run_def newDeploymentManager_def)
  then show ?thesis using dm_run_good[of ri d evs] assms by (simp add: dm_good_def current_ok_def)
qed

definition ex_dm_events :: "dm_event list" where
  "ex_dm_events = [DmDeployCall, DmUpdate (ex_dep ''b''), DmUpdate (ex_dep ''c''), DmRun (RunErr ''x''), DmDeployCall, DmRun RunOk]"

lemma ex_dm_run:
  "dm_run 60 (ex_dep ''a'') ex_dm_events =
     \<lparr>dm_state = dsDeployComplete, dm_deployment = ex_dep ''c'', dm_monitor = Some (ex_dep ''c''), dm_runch = None, dm_running = 0,
      dm_retryTeardown = False, dm_teardownErr = None, dm_reclaimch = None, dm_reclaimDeadline = 0,
      dm_reclaimC = None, dm_reclaiming = None, dm_messages = [],
      dm_actions = [ActDeploy (ex_dep ''a''), ActDeploy (ex_dep ''c''), ActStartMonitor (ex_dep ''c'')], dm_pc = DmLoop\<rparr>"
  by (simp add: ex_dm_events_def dm_run_def newDeploymentManager_def dm_turn_def dm_steps Let_def)

theorem latest_update_deployed_witness:
  "dm_state (dm_run 60 (ex_dep ''a'') ex_dm_events) = dsDeployComplete \<and>
   last (deploys (dm_run 60 (ex_dep ''a'') ex_dm_events)) = ex_dep ''c''"
proof -
  have "last_update (ex_dep ''a'') ex_dm_events = ex_dep ''c''" by (simp add: ex_dm_events_def last_update_def)
  then show ?thesis using latest_update_deployed[of 60 "ex_dep ''a''" ex_dm_events] by (simp add: ex_dm_run)
qed

text \<open>teardown is final. From any state of any run that is tearing down, whatever happens next,
  the manager keeps tearing down and starts no monitor and no reclamation attempt; the only
  things it can still do are one call of the deploy that was in flight and one close of the
  reclamation attempt that was in flight.\<close>

theorem teardown_is_final:
  assumes "tearingDown (dm_run ri d evs)"
  shows "tearingDown (dm_run ri d (evs @ later)) \<and>
    acted is_ActStartMonitor (dm_run ri d (evs @ later)) = acted is_ActStartMonitor (dm_run ri d evs) \<and>
    acted is_ActReclaimAttempt (dm_run ri d (evs @ later)) = acted is_ActReclaimAttempt (dm_run ri d evs) \<and>
    acted is_ActDeploy (dm_run ri d (evs @ later)) \<le>
      acted is_ActDeploy (dm_run ri d evs) + of_bool (dm_runch (dm_run ri d evs) = Some TaskDeploy) \<and>
    acted is_ActCloseBid (dm_run ri d (evs @ later)) \<le>
      acted is_ActCloseBid (dm_run ri d evs) + of_bool (dm_reclaiming (dm_run ri d evs) \<noteq> None)"
  using winding_turns[OF assms, of ri later] by (auto simp: winding_down_def dm_run_def)

theorem teardown_is_final_witness:
  "tearingDown (dm_run 60 (ex_dep ''a'') ([DmTeardown] @ [DmUpdate (ex_dep ''b''), DmReclaim 5, DmReclaimRecv, DmDeployCall]))"
proof -
  have "tearingDown (dm_run 60 (ex_dep ''a'') [DmTeardown])"
    by (simp add: dm_run_def newDeploymentManager_def dm_turn_def dm_steps Let_def)
  from teardown_is_final[OF this, of "[DmUpdate (ex_dep ''b''), DmReclaim 5, DmReclaimRecv, DmDeployCall]"]
  show ?thesis by blast
qed

text \<open>C16: a lease can always be torn down. In every state the loop can be in, a teardown request
  followed by the answers of the tasks it leads to (the deploy in flight returns, a failed
  teardown is retried, the teardown succeeds) ends the loop in \<open>teardown-complete\<close>.\<close>

theorem teardown_completes:
  assumes "dm_pc (dm_run ri d evs) = DmLoop"
  shows "dm_state (dm_run ri d (evs @ [DmTeardown, DmDeployCall, DmRun RunOk, DmRetryTeardown, DmRun RunOk])) = dsTeardownComplete \<and>
    dm_pc (dm_run ri d (evs @ [DmTeardown, DmDeployCall, DmRun RunOk, DmRetryTeardown, DmRun RunOk])) = DmLeft"
proof -
  let ?m = "dm_run ri d evs"
  have core: "core (dm_run ri d (evs @ es)) = foldl core_turn (core ?m) es" for es
    by (simp add: dm_run_def core_turns)
  have "flight_ok ?m" using dm_run_inv[of ri d evs] assms by (simp add: dm_inv_def)
  then have "core ?m \<in> {(dsDeployActive, Some TaskDeploy, False, DmLoop), (dsDeployActive, Some TaskDeployed, False, DmLoop),
      (dsDeployPending, Some TaskDeploy, False, DmLoop), (dsDeployPending, Some TaskDeployed, False, DmLoop),
      (dsTeardownPending, Some TaskDeploy, False, DmLoop), (dsTeardownPending, Some TaskDeployed, False, DmLoop),
      (dsDeployComplete, None, False, DmLoop), (dsTeardownActive, None, True, DmLoop),
      (dsTeardownActive, Some TaskTeardown, False, DmLoop)}"
    using assms by (cases "dm_state ?m") (auto simp: flight_ok_def core_def)
  then have "core (dm_run ri d (evs @ [DmTeardown, DmDeployCall, DmRun RunOk, DmRetryTeardown, DmRun RunOk]))
      = (dsTeardownComplete, None, False, DmLeft)"
    unfolding core by auto
  then show ?thesis by (simp add: core_def)
qed

theorem teardown_completes_witness:
  "dm_state (dm_run 60 (ex_dep ''a'') (ex_dm_events @ [DmTeardown, DmDeployCall, DmRun RunOk, DmRetryTeardown, DmRun RunOk])) = dsTeardownComplete"
  using teardown_completes[of 60 "ex_dep ''a''" ex_dm_events] by (simp add: ex_dm_run)

text \<open>a reclaimed lease is closed when it is due, and not before. Every close that was sent
  carries a deadline that was announced, and the node had answered, synced, with a block
  time at or after it; and once a deadline has been announced it is never dropped: until the
  lease is torn down it is queued, being tried, waiting for its timer, or a close was
  accepted.\<close>

theorem reclaim_closes_when_due:
  assumes "\<forall>dl. DmReclaim dl \<in> set evs \<longrightarrow> 0 \<le> dl \<and> dl < 2 ^ 63"
    and "\<forall>c t a. DmReclaimResult (SyncInfo c t) a \<in> set evs \<longrightarrow> 0 \<le> t \<and> t < 2 ^ 63"
  shows "(\<forall>b dl a. ActCloseBid b dl a \<in> set (dm_actions (dm_run ri d evs)) \<longrightarrow>
      DmReclaim dl \<in> set evs \<and> (\<exists>t. DmReclaimResult (SyncInfo False t) a \<in> set evs \<and> dl \<le> t)) \<and>
    (\<forall>dl. dm_pc (dm_run ri d evs) = DmLoop \<and> DmReclaim dl \<in> set evs \<longrightarrow>
      tearingDown (dm_run ri d evs) \<or> pursued (dm_run ri d evs))"
proof (intro conjI allI impI)
  fix b dl a assume a: "ActCloseBid b dl a \<in> set (dm_actions (dm_run ri d evs))"
  then have "close_due (set evs) (ActCloseBid b dl a)"
    using reclaim_run_inv[of evs ri d] by (auto simp: reclaim_inv_def list_all_iff)
  then obtain t where t: "DmReclaim dl \<in> set evs" "DmReclaimResult (SyncInfo False t) a \<in> set evs" "s64 (dl - t) \<le> 0"
    by (auto simp: close_due_def)
  have "s64 (dl - t) = dl - t" using assms t(1,2) by (intro s64_id) (simp_all, smt+)
  then show "DmReclaim dl \<in> set evs" "\<exists>t. DmReclaimResult (SyncInfo False t) a \<in> set evs \<and> dl \<le> t" using t by auto
next
  fix dl assume a: "dm_pc (dm_run ri d evs) = DmLoop \<and> DmReclaim dl \<in> set evs"
  then obtain pre post where evs: "evs = pre @ DmReclaim dl # post" by (meson split_list)
  let ?m = "dm_run ri d pre"
  have run: "dm_run ri d evs = foldl (dm_turn ri) (dm_turn ri ?m (DmReclaim dl)) post" by (simp add: evs dm_run_def)
  then have "dm_pc ?m = DmLoop" using a by (metis turn_stopped turns_stopped)
  then have "pursued (dm_turn ri ?m (DmReclaim dl))" by (simp add: dm_turn_def dm_reclaim_def pursued_def)
  then show "tearingDown (dm_run ri d evs) \<or> pursued (dm_run ri d evs)" unfolding run by (intro pursued_turns) simp
qed

theorem reclaim_closes_when_due_witness:
  "ActCloseBid ex_dm_lease 100 True \<in> set (dm_actions (dm_run 60 (ex_dep ''a'')
     [DmReclaim 100, DmReclaimRecv, DmReclaimResult (SyncInfo False 40) True, DmReclaimTimer, DmReclaimResult (SyncInfo False 101) True])) \<and>
   dm_reclaimC (dm_run 60 (ex_dep ''a'') [DmReclaim 100, DmReclaimRecv, DmReclaimResult (SyncInfo False 40) True]) = Some 60000000000 \<and>
   pursued (dm_run 60 (ex_dep ''a'') [DmReclaim 100, DmReclaimRecv])"
proof -
  have "tearingDown (dm_run 60 (ex_dep ''a'') [DmReclaim 100, DmReclaimRecv]) \<or> pursued (dm_run 60 (ex_dep ''a'') [DmReclaim 100, DmReclaimRecv])"
    using reclaim_closes_when_due[of "[DmReclaim 100, DmReclaimRecv]" 60 "ex_dep ''a''"]
    by (simp add: dm_run_def newDeploymentManager_def dm_turn_def dm_steps Let_def)
  then show ?thesis
    by (simp add: dm_run_def newDeploymentManager_def dm_turn_def dm_steps Let_def attemptReclaimClose_def s64_id ex_dep_def)
qed

end
