(* ===== verification/Deploy.thy ===== *)
theory Deploy
  imports DeploymentManager
begin

text \<open>
  The tasks a deployment manager runs off its loop (\<open>cluster/manager.go\<close>,
  \<open>cluster/manager_cleanup.go\<close>): the check that the lease is still active, the deploy with its
  reservation and declaration of hostnames and leased addresses, and the teardown. The
  Kubernetes client answers through the record \<open>kube\<close>; what the task asked of it is the list of
  \<open>kube_call\<close>s. The order in which Go ranges over a map is the parameter \<open>ord\<close>.
\<close>

section \<open>The lease check\<close>

datatype deploy_error =
    DeployErr string
  | ErrLeaseInactive lease_id
  | ErrHostnames hostname_error

text \<open>
  \<open>checkLeaseActive\<close> on what the retried query returned: the deadline it hands to \<open>reclaim\<close> when the
  lease is found reclaiming, and its error.
\<close>

definition checkLeaseActive :: "lease_id \<Rightarrow> string + (lease_id \<times> mv1_lease_state) \<Rightarrow> int option \<times> deploy_error option" where
  "checkLeaseActive lid answer =
     (case answer of
        Inl e \<Rightarrow> (None, Some (DeployErr e))
      | Inr (rid, st) \<Rightarrow>
          if rid \<noteq> lid then (None, Some (DeployErr ''lease query returned a different ID''))
          else (case st of
                  LeaseActive \<Rightarrow> (None, None)
                | LeaseReclaiming deadline \<Rightarrow> (deadline, None)
                | LeaseClosed \<Rightarrow> (None, Some (ErrLeaseInactive lid))
                | LeaseInsufficientFunds \<Rightarrow> (None, Some (ErrLeaseInactive lid))
                | LeaseStateInvalid \<Rightarrow> (None, Some (DeployErr ''unexpected lease state''))))"

section \<open>The deploy\<close>

record declared_ip =
  di_SharingKey :: string
  di_Protocol :: string
  di_ServiceName :: string
  di_ExternalPort :: u32

record purgeIPEntry =
  pi_serviceName :: string
  pi_port :: u32
  pi_proto :: string

record deployCleanupHelper =
  hostnamesToPurge :: "string list"
  ipsToPurge :: "purgeIPEntry list"

definition newDeployCleanupHelper :: deployCleanupHelper where
  "newDeployCleanupHelper = \<lparr>hostnamesToPurge = [], ipsToPurge = []\<rparr>"

definition addHostname :: "deployCleanupHelper \<Rightarrow> string \<Rightarrow> deployCleanupHelper" where
  "addHostname h hostname = h\<lparr>hostnamesToPurge := hostnamesToPurge h @ [hostname]\<rparr>"

definition addIP :: "deployCleanupHelper \<Rightarrow> string \<Rightarrow> u32 \<Rightarrow> string \<Rightarrow> deployCleanupHelper" where
  "addIP h serviceName port proto =
     h\<lparr>ipsToPurge := ipsToPurge h @ [\<lparr>pi_serviceName = serviceName, pi_port = port, pi_proto = proto\<rparr>]\<rparr>"

datatype kube_call =
    CallDeploy dep
  | CallDeclareHostname string string u32
  | CallDeclareIP string u32 u32 string string
  | CallPurgeHostname string
  | CallPurgeIP string u32 string

text \<open>\<open>purgeAll\<close>: every entry is purged, errors are logged.\<close>

definition purgeAll :: "deployCleanupHelper \<Rightarrow> kube_call list" where
  "purgeAll h = map CallPurgeHostname (hostnamesToPurge h) @
     map (\<lambda>e. CallPurgeIP (pi_serviceName e) (pi_port e) (pi_proto e)) (ipsToPurge h)"

datatype ip_answer = IPOk | IPAlreadyExists | IPErr string

record kube =
  k_GetDeclaredIPs :: "string + declared_ip list"
  k_Deploy :: "string option"
  k_DeclareHostname :: "string \<Rightarrow> string option"
  k_DeclareIP :: "nat \<Rightarrow> ip_answer"

record deploy_env =
  de_lease :: "string + (lease_id \<times> mv1_lease_state)"
  de_addr :: "string \<Rightarrow> string option"
  de_sel :: "sel \<times> sel"
  de_static :: bool
  de_domain :: string
  de_isIngress :: "expose \<Rightarrow> bool"
  de_externalPort :: "expose \<Rightarrow> u32"
  de_parseProto :: "string \<Rightarrow> string option"
  de_sharingKey :: "lease_id \<Rightarrow> string \<Rightarrow> string"
  de_ingressHost :: "lease_id \<Rightarrow> string \<Rightarrow> string"
  de_ord :: "string set \<Rightarrow> string list"

text \<open>
  What the walk over the services collects: the expose and the service of each host to declare
  (a later one replaces an earlier one), the custom hosts now in use, and the leased
  addresses in order.
\<close>

record collected =
  co_hosts :: "string \<rightharpoonup> expose \<times> string"
  co_current :: "string set"
  co_ips :: "(expose \<times> string) list"

definition collect_host :: "string list \<Rightarrow> expose \<Rightarrow> string \<Rightarrow> string \<Rightarrow> collected \<Rightarrow> collected" where
  "collect_host blocked ex svc host c =
     (if host \<in> set blocked then c
      else c\<lparr>co_current := insert host (co_current c), co_hosts := (co_hosts c)(host \<mapsto> (ex, svc))\<rparr>)"

definition collect_expose :: "deploy_env \<Rightarrow> lease_id \<Rightarrow> string list \<Rightarrow> string \<Rightarrow> expose \<Rightarrow> collected \<Rightarrow> collected" where
  "collect_expose env lid blocked svc ex c =
     (let c1 = (if de_isIngress env ex
                then fold (collect_host blocked ex svc) (ex_Hosts ex)
                  (if de_static env
                   then c\<lparr>co_hosts := (co_hosts c)(de_ingressHost env lid svc @ ''.'' @ de_domain env \<mapsto> (ex, svc))\<rparr>
                   else c)
                else c)
      in if ex_Global ex \<and> ex_IP ex \<noteq> [] then c1\<lparr>co_ips := co_ips c1 @ [(ex, svc)]\<rparr> else c1)"

definition collect_all :: "deploy_env \<Rightarrow> lease_id \<Rightarrow> string list \<Rightarrow> mani_group \<Rightarrow> collected" where
  "collect_all env lid blocked g =
     fold (\<lambda>s. fold (collect_expose env lid blocked (sv_Name s)) (sv_Expose s)) (mg_Services g)
       \<lparr>co_hosts = Map.empty, co_current = {}, co_ips = []\<rparr>"

text \<open>Declared addresses that no leased address of this request uses any more.\<close>

fun stale_ips :: "deploy_env \<Rightarrow> string set \<Rightarrow> declared_ip list \<Rightarrow> deployCleanupHelper \<Rightarrow> deployCleanupHelper \<times> deploy_error option" where
  "stale_ips env used [] h = (h, None)"
| "stale_ips env used (ip # ips) h =
     (if di_SharingKey ip \<in> used then stale_ips env used ips h
      else case de_parseProto env (di_Protocol ip) of
             None \<Rightarrow> (h, Some (DeployErr ''unknown protocol''))
           | Some proto \<Rightarrow> stale_ips env used ips (addIP h (di_ServiceName ip) (di_ExternalPort ip) proto))"

fun declare_hosts :: "deploy_env \<Rightarrow> kube \<Rightarrow> (string \<rightharpoonup> expose \<times> string) \<Rightarrow> string list \<Rightarrow> kube_call list \<times> deploy_error option" where
  "declare_hosts env k m [] = ([], None)"
| "declare_hosts env k m (host # hs) =
     (case m host of
        None \<Rightarrow> declare_hosts env k m hs
      | Some (ex, svc) \<Rightarrow>
          (case k_DeclareHostname k host of
             Some e \<Rightarrow> ([CallDeclareHostname host svc (de_externalPort env ex)], Some (DeployErr e))
           | None \<Rightarrow> (let (cs, r) = declare_hosts env k m hs
                      in (CallDeclareHostname host svc (de_externalPort env ex) # cs, r))))"

text \<open>The leased addresses, in order: the calls, and the withheld sharing keys or the error.\<close>

fun declare_ips :: "deploy_env \<Rightarrow> kube \<Rightarrow> lease_id \<Rightarrow> nat \<Rightarrow> (expose \<times> string) list \<Rightarrow> kube_call list \<times> (deploy_error + string list)" where
  "declare_ips env k lid i [] = ([], Inr [])"
| "declare_ips env k lid i ((ex, svc) # rest) =
     (let key = de_sharingKey env lid (ex_IP ex);
          call = CallDeclareIP svc (ex_Port ex) (de_externalPort env ex) (ex_Proto ex) key;
          (cs, r) = declare_ips env k lid (Suc i) rest
      in case k_DeclareIP k i of
           IPErr e \<Rightarrow> ([call], Inl (DeployErr e))
         | IPAlreadyExists \<Rightarrow> (call # cs, map_sum id (\<lambda>ws. key # ws) r)
         | IPOk \<Rightarrow> (call # cs, r))"

record deploy_out =
  do_calls :: "kube_call list"
  do_hostnames :: hostname_service
  do_current :: "string set"
  do_reclaim :: "int option"
  do_result :: "deploy_error + (string list \<times> string list)"

definition doDeploy :: "deploy_env \<Rightarrow> kube \<Rightarrow> hostname_service \<Rightarrow> string set \<Rightarrow> dep \<Rightarrow> deploy_out" where
  "doDeploy env k hs current d =
     (let lid = dp_LeaseID d;
          out = \<lparr>do_calls = [], do_hostnames = hs, do_current = current, do_reclaim = None, do_result = Inr ([], [])\<rparr>
      in case checkLeaseActive lid (de_lease env) of
           (rc, Some e) \<Rightarrow> out\<lparr>do_reclaim := rc, do_result := Inl e\<rparr>
         | (rc, None) \<Rightarrow>
      (case k_GetDeclaredIPs k of
         Inl e \<Rightarrow> out\<lparr>do_reclaim := rc, do_result := Inl (DeployErr e)\<rparr>
       | Inr currentIPs \<Rightarrow>
      (let allHostnames = AllHostnamesOfManifestGroup (dp_ManifestGroup d);
           (hs1, r) = ReserveHostnames (de_addr env) hs allHostnames lid (fst (de_sel env)) (snd (de_sel env));
           out1 = out\<lparr>do_reclaim := rc, do_hostnames := hs1\<rparr>
       in case r of
            Inl e \<Rightarrow> out1\<lparr>do_result := Inl (ErrHostnames e)\<rparr>
          | Inr withheld \<Rightarrow>
      (let helper = fold (\<lambda>h c. addHostname c h) (de_ord env {h \<in> current. h \<notin> set allHostnames}) newDeployCleanupHelper
       in case k_Deploy k of
            Some e \<Rightarrow> out1\<lparr>do_calls := CallDeploy d # purgeAll helper, do_result := Inl (DeployErr e)\<rparr>
          | None \<Rightarrow>
      (let c = collect_all env lid withheld (dp_ManifestGroup d);
           out2 = out1\<lparr>do_current := co_current c\<rparr>;
           used = (\<lambda>(ex, svc). de_sharingKey env lid (ex_IP ex)) ` set (co_ips c);
           (helper2, se) = stale_ips env used currentIPs helper
       in case se of
            Some e \<Rightarrow> out2\<lparr>do_calls := CallDeploy d # purgeAll helper2, do_result := Inl e\<rparr>
          | None \<Rightarrow>
      (let (hcalls, he) = declare_hosts env k (co_hosts c) (de_ord env (dom (co_hosts c)))
       in case he of
            Some e \<Rightarrow> out2\<lparr>do_calls := CallDeploy d # hcalls @ purgeAll helper2, do_result := Inl e\<rparr>
          | None \<Rightarrow>
      (let (icalls, ir) = declare_ips env k lid 0 (co_ips c)
       in out2\<lparr>do_calls := CallDeploy d # hcalls @ icalls @ purgeAll helper2,
               do_result := map_sum id (\<lambda>ws. (withheld, ws)) ir\<rparr>)))))))"

text \<open>The result a deploy task sends on \<open>runch\<close>.\<close>

fun deploy_run_result :: "deploy_error + (string list \<times> string list) \<Rightarrow> run_result" where
  "deploy_run_result (Inr _) = RunOk"
| "deploy_run_result (Inl (ErrLeaseInactive l)) = RunLeaseInactive ''inactive Lease''"
| "deploy_run_result (Inl (DeployErr e)) = RunErr e"
| "deploy_run_result (Inl (ErrHostnames h)) = RunErr ''hostnames''"

section \<open>The teardown\<close>

text \<open>\<open>doTeardown\<close> on the results of its three activities in the order they arrive.\<close>

fun doTeardown :: "string option list \<Rightarrow> string option" where
  "doTeardown [] = None"
| "doTeardown (r # rs) = (case r of None \<Rightarrow> doTeardown rs | Some e \<Rightarrow> Some e)"

section \<open>Lemmas\<close>

definition ingress_hosts :: "deploy_env \<Rightarrow> mani_group \<Rightarrow> string set" where
  "ingress_hosts env g = {h. \<exists>s \<in> set (mg_Services g). \<exists>e \<in> set (sv_Expose s). de_isIngress env e \<and> h \<in> set (ex_Hosts e)}"

definition static_hosts :: "deploy_env \<Rightarrow> lease_id \<Rightarrow> mani_group \<Rightarrow> string set" where
  "static_hosts env lid g =
     {h. de_static env \<and> (\<exists>s \<in> set (mg_Services g). \<exists>e \<in> set (sv_Expose s).
        de_isIngress env e \<and> h = de_ingressHost env lid (sv_Name s) @ ''.'' @ de_domain env)}"

lemma collect_hosts_fold:
  "co_current (fold (collect_host blocked ex svc) hs c) = co_current c \<union> (set hs - set blocked) \<and>
   dom (co_hosts (fold (collect_host blocked ex svc) hs c)) = dom (co_hosts c) \<union> (set hs - set blocked)"
  by (induction hs arbitrary: c) (auto simp: collect_host_def)

lemma collect_expose_doms:
  "co_current (collect_expose env lid blocked svc ex c) =
     co_current c \<union> (if de_isIngress env ex then set (ex_Hosts ex) - set blocked else {}) \<and>
   dom (co_hosts (collect_expose env lid blocked svc ex c)) =
     dom (co_hosts c) \<union> (if de_isIngress env ex then set (ex_Hosts ex) - set blocked else {}) \<union>
     (if de_isIngress env ex \<and> de_static env then {de_ingressHost env lid svc @ ''.'' @ de_domain env} else {})"
  using collect_hosts_fold[of blocked ex svc "ex_Hosts ex"] by (auto simp: collect_expose_def Let_def)

lemma collect_service_doms:
  "co_current (fold (collect_expose env lid blocked svc) exs c) =
     co_current c \<union> (\<Union>e \<in> set exs. if de_isIngress env e then set (ex_Hosts e) - set blocked else {}) \<and>
   dom (co_hosts (fold (collect_expose env lid blocked svc) exs c)) =
     dom (co_hosts c) \<union> (\<Union>e \<in> set exs. if de_isIngress env e then set (ex_Hosts e) - set blocked else {}) \<union>
     (\<Union>e \<in> set exs. if de_isIngress env e \<and> de_static env then {de_ingressHost env lid svc @ ''.'' @ de_domain env} else {})"
proof (induction exs arbitrary: c)
  case (Cons e exs)
  show ?case using Cons.IH[of "collect_expose env lid blocked svc e c"] collect_expose_doms[of env lid blocked svc e c]
    by (simp only: fold_simps list.set UN_insert) blast
qed simp

lemma collect_all_doms:
  "co_current (collect_all env lid blocked g) = ingress_hosts env g - set blocked \<and>
   dom (co_hosts (collect_all env lid blocked g)) = (ingress_hosts env g - set blocked) \<union> static_hosts env lid g"
proof -
  let ?I = "\<lambda>s. \<Union>e \<in> set (sv_Expose s). if de_isIngress env e then set (ex_Hosts e) - set blocked else {}"
  let ?S = "\<lambda>s. \<Union>e \<in> set (sv_Expose s). if de_isIngress env e \<and> de_static env then {de_ingressHost env lid (sv_Name s) @ ''.'' @ de_domain env} else {}"
  have "co_current (fold (\<lambda>s. fold (collect_expose env lid blocked (sv_Name s)) (sv_Expose s)) ss c) = co_current c \<union> (\<Union>s \<in> set ss. ?I s) \<and>
      dom (co_hosts (fold (\<lambda>s. fold (collect_expose env lid blocked (sv_Name s)) (sv_Expose s)) ss c)) =
        dom (co_hosts c) \<union> (\<Union>s \<in> set ss. ?I s) \<union> (\<Union>s \<in> set ss. ?S s)" for ss c
  proof (induction ss arbitrary: c)
    case (Cons s ss)
    show ?case
      using Cons.IH[of "fold (collect_expose env lid blocked (sv_Name s)) (sv_Expose s) c"]
        collect_service_doms[of env lid blocked "sv_Name s" "sv_Expose s" c]
      by (simp only: fold_simps list.set UN_insert) blast
  qed simp
  from this[of "mg_Services g" "\<lparr>co_hosts = Map.empty, co_current = {}, co_ips = []\<rparr>"] show ?thesis
    by (auto simp: collect_all_def ingress_hosts_def static_hosts_def split: if_splits)
qed

fun declared_host :: "kube_call \<Rightarrow> string option" where
  "declared_host (CallDeclareHostname h s p) = Some h" | "declared_host _ = None"

definition declared_hosts :: "kube_call list \<Rightarrow> string set" where
  "declared_hosts cs = {h. Some h \<in> declared_host ` set cs}"

lemma declare_hosts_ok:
  "declare_hosts env k m hs = (cs, None) \<Longrightarrow> declared_hosts cs = set hs \<inter> dom m"
proof (induction hs arbitrary: cs)
  case (Cons h hs)
  then show ?case
    by (cases "declare_hosts env k m hs") (fastforce simp: declared_hosts_def split: option.splits prod.splits)
qed (simp add: declared_hosts_def)

lemma purgeAll_declares_none: "declared_hosts (purgeAll h) = {}"
  by (auto simp: declared_hosts_def purgeAll_def)

lemma declare_ips_declares_none: "declared_hosts (fst (declare_ips env k lid i ips)) = {}"
proof (induction ips arbitrary: i)
  case (Cons x ips)
  obtain ex svc where x: "x = (ex, svc)" by force
  show ?case using Cons.IH[of "Suc i"]
    by (cases "declare_ips env k lid (Suc i) ips") (simp add: x Let_def declared_hosts_def split: ip_answer.split)
qed (simp add: declared_hosts_def)

lemmas no_declared_hosts = purgeAll_declares_none declare_ips_declares_none

lemma declared_hosts_append: "declared_hosts (a @ b) = declared_hosts a \<union> declared_hosts b"
  by (auto simp: declared_hosts_def)

lemma declared_hosts_CallDeploy [simp]: "declared_hosts (CallDeploy d # cs) = declared_hosts cs"
  by (auto simp: declared_hosts_def)

lemma ReserveHostnames_ok:
  assumes "ReserveHostnames addr hs names lid s1 s2 = (hs', Inr ws)"
  obtains hid where "hostnameIDFromLeaseID addr lid = Inr hid"
    and "ws = filter (held_elsewhere (inUse hs) hid) (map to_lower names)"
    and "inUse hs' = (\<lambda>h. if h \<in> to_lower ` set names then (if held_elsewhere (inUse hs) hid h then inUse hs h else Some hid)
           else if inUse hs h = Some hid then None else inUse hs h)"
proof -
  obtain hid where hid: "hostnameIDFromLeaseID addr lid = Inr hid"
    and st: "reserveHostnamesImpl (inUse hs) (map to_lower names) hid = (inUse hs', Inr ws)"
    using assms by (auto simp: ReserveHostnames_def Let_def split: option.splits sum.splits sel.splits prod.splits)
  then have ok: "snd (reserveHostnamesImpl (inUse hs) (map to_lower names) hid) = Inr ws" by simp
  show ?thesis
    using that[OF hid] reserve_ok_withheld[OF ok] reserve_ok_lookup[OF ok] st by (simp add: fun_eq_iff image_iff)
qed

text \<open>What a successful deploy consists of.\<close>

lemma doDeploy_ok:
  assumes "do_result (doDeploy env k hs current d) = Inr (withheld, eps)"
  obtains rc hs1 h2 hcalls ips where
    "ReserveHostnames (de_addr env) hs (AllHostnamesOfManifestGroup (dp_ManifestGroup d)) (dp_LeaseID d)
       (fst (de_sel env)) (snd (de_sel env)) = (hs1, Inr withheld)"
    and "doDeploy env k hs current d =
      \<lparr>do_calls = CallDeploy d # hcalls @ fst (declare_ips env k (dp_LeaseID d) 0 ips) @ purgeAll h2, do_hostnames = hs1,
       do_current = co_current (collect_all env (dp_LeaseID d) withheld (dp_ManifestGroup d)), do_reclaim = rc,
       do_result = Inr (withheld, eps)\<rparr>"
    and "declare_hosts env k (co_hosts (collect_all env (dp_LeaseID d) withheld (dp_ManifestGroup d)))
       (de_ord env (dom (co_hosts (collect_all env (dp_LeaseID d) withheld (dp_ManifestGroup d))))) = (hcalls, None)"
proof -
  obtain rc where c: "checkLeaseActive (dp_LeaseID d) (de_lease env) = (rc, None)"
    using assms by (auto simp: doDeploy_def Let_def split: prod.splits option.splits)
  obtain cips where ips: "k_GetDeclaredIPs k = Inr cips"
    using assms by (auto simp: doDeploy_def Let_def c split: sum.splits)
  obtain hs1 r where r: "ReserveHostnames (de_addr env) hs (AllHostnamesOfManifestGroup (dp_ManifestGroup d)) (dp_LeaseID d)
       (fst (de_sel env)) (snd (de_sel env)) = (hs1, r)" by force
  obtain w where w: "r = Inr w" using assms by (cases r) (auto simp: doDeploy_def Let_def c ips r)
  have dep: "k_Deploy k = None" using assms by (cases "k_Deploy k") (auto simp: doDeploy_def Let_def c ips r w)
  let ?c = "collect_all env (dp_LeaseID d) w (dp_ManifestGroup d)"
  let ?h = "fold (\<lambda>h c. addHostname c h) (de_ord env {h \<in> current. h \<notin> set (AllHostnamesOfManifestGroup (dp_ManifestGroup d))}) newDeployCleanupHelper"
  obtain h2 se where h2: "stale_ips env ((\<lambda>(ex, svc). de_sharingKey env (dp_LeaseID d) (ex_IP ex)) ` set (co_ips ?c)) cips ?h = (h2, se)"
    by force
  obtain hcalls he where hc: "declare_hosts env k (co_hosts ?c) (de_ord env (dom (co_hosts ?c))) = (hcalls, he)" by force
  obtain ic ir where ic: "declare_ips env k (dp_LeaseID d) 0 (co_ips ?c) = (ic, ir)" by force
  have se: "se = None" using assms by (cases se) (auto simp: doDeploy_def Let_def c ips r w dep h2)
  have he: "he = None" using assms by (cases he) (auto simp: doDeploy_def Let_def c ips r w dep h2 se hc)
  obtain ws where ir: "ir = Inr ws" "w = withheld" "ws = eps"
    using assms by (cases ir) (auto simp: doDeploy_def Let_def c ips r w dep h2 se hc he ic)
  show ?thesis
    by (rule that[of hs1 hcalls "co_ips ?c" h2 rc], unfold ir(2)[symmetric] ir(3)[symmetric])
      (simp_all add: doDeploy_def Let_def c ips r w dep h2 se hc he ic ir(1))
qed

section \<open>Properties\<close>

text \<open>C29: a deploy declares exactly the hostnames its group holds. When a deploy succeeds and the
  manifest's hostnames are lower case, the hostnames declared in the cluster are the static
  ingress names and the ingress hostnames of the manifest that are not withheld; each of
  the latter is held by the lease's group in the hostname service, each withheld one is held
  by another group, and the manager remembers exactly them as current.\<close>

theorem declared_hostnames_are_held:
  assumes "do_result (doDeploy env k hs current d) = Inr (withheld, eps)"
    and "\<forall>h \<in> set (AllHostnamesOfManifestGroup (dp_ManifestGroup d)). to_lower h = h"
    and "\<forall>S \<subseteq> ingress_hosts env (dp_ManifestGroup d) \<union> static_hosts env (dp_LeaseID d) (dp_ManifestGroup d). set (de_ord env S) = S"
  shows "\<exists>hid. hostnameIDFromLeaseID (de_addr env) (dp_LeaseID d) = Inr hid \<and>
    declared_hosts (do_calls (doDeploy env k hs current d)) =
      (ingress_hosts env (dp_ManifestGroup d) - set withheld) \<union> static_hosts env (dp_LeaseID d) (dp_ManifestGroup d) \<and>
    do_current (doDeploy env k hs current d) = ingress_hosts env (dp_ManifestGroup d) - set withheld \<and>
    (\<forall>h \<in> ingress_hosts env (dp_ManifestGroup d) - set withheld.
       inUse (do_hostnames (doDeploy env k hs current d)) h = Some hid) \<and>
    (\<forall>h \<in> set withheld. \<exists>other. other \<noteq> hid \<and> inUse (do_hostnames (doDeploy env k hs current d)) h = Some other)"
proof -
  let ?g = "dp_ManifestGroup d" and ?lid = "dp_LeaseID d"
  obtain rc hs1 h2 hcalls ips where
    res: "ReserveHostnames (de_addr env) hs (AllHostnamesOfManifestGroup ?g) ?lid (fst (de_sel env)) (snd (de_sel env)) = (hs1, Inr withheld)"
    and out: "doDeploy env k hs current d =
      \<lparr>do_calls = CallDeploy d # hcalls @ fst (declare_ips env k ?lid 0 ips) @ purgeAll h2, do_hostnames = hs1,
       do_current = co_current (collect_all env ?lid withheld ?g), do_reclaim = rc, do_result = Inr (withheld, eps)\<rparr>"
    and dh: "declare_hosts env k (co_hosts (collect_all env ?lid withheld ?g))
       (de_ord env (dom (co_hosts (collect_all env ?lid withheld ?g)))) = (hcalls, None)" by (rule doDeploy_ok[OF assms(1)])
  from ReserveHostnames_ok[OF res] obtain hid where hid: "hostnameIDFromLeaseID (de_addr env) ?lid = Inr hid"
    and wh: "withheld = filter (held_elsewhere (inUse hs) hid) (map to_lower (AllHostnamesOfManifestGroup ?g))"
    and st: "inUse hs1 = (\<lambda>h. if h \<in> to_lower ` set (AllHostnamesOfManifestGroup ?g)
        then (if held_elsewhere (inUse hs) hid h then inUse hs h else Some hid)
        else if inUse hs h = Some hid then None else inUse hs h)" by blast
  have lower: "to_lower ` set (AllHostnamesOfManifestGroup ?g) = set (AllHostnamesOfManifestGroup ?g)"
    using assms(2) by force
  have sub: "ingress_hosts env ?g \<subseteq> set (AllHostnamesOfManifestGroup ?g)"
    unfolding ingress_hosts_def by (rule subsetI) (unfold in_AllHostnames, blast)
  note doms = collect_all_doms[of env ?lid withheld ?g]
  have "set (de_ord env (dom (co_hosts (collect_all env ?lid withheld ?g)))) = dom (co_hosts (collect_all env ?lid withheld ?g))"
    by (rule assms(3)[rule_format]) (use doms in blast)
  then have "declared_hosts (do_calls (doDeploy env k hs current d)) = dom (co_hosts (collect_all env ?lid withheld ?g))"
    using declare_hosts_ok[OF dh] by (simp add: out declared_hosts_append no_declared_hosts)
  moreover have "\<forall>h \<in> ingress_hosts env ?g - set withheld. inUse (do_hostnames (doDeploy env k hs current d)) h = Some hid"
  proof
    fix h assume "h \<in> ingress_hosts env ?g - set withheld"
    then have "h \<in> set (AllHostnamesOfManifestGroup ?g)" "\<not> held_elsewhere (inUse hs) hid h"
      using sub lower wh by auto
    then show "inUse (do_hostnames (doDeploy env k hs current d)) h = Some hid" by (simp add: out st lower)
  qed
  moreover have "\<forall>h \<in> set withheld. \<exists>other. other \<noteq> hid \<and> inUse (do_hostnames (doDeploy env k hs current d)) h = Some other"
  proof
    fix h assume "h \<in> set withheld"
    then have "h \<in> to_lower ` set (AllHostnamesOfManifestGroup ?g)" and he: "held_elsewhere (inUse hs) hid h" using wh by auto
    then have "inUse (do_hostnames (doDeploy env k hs current d)) h = inUse hs h" by (simp add: out st)
    then show "\<exists>other. other \<noteq> hid \<and> inUse (do_hostnames (doDeploy env k hs current d)) h = Some other"
      using he by (simp add: held_elsewhere_def split: option.splits)
  qed
  moreover have "do_current (doDeploy env k hs current d) = ingress_hosts env ?g - set withheld" using doms by (simp add: out)
  ultimately show ?thesis
    using hid doms[THEN conjunct2] by (intro exI[of _ hid] conjI) (assumption | simp only:)+
qed

text \<open>the blocked set is compared as written. The hostname service answers in lower case and
  \<open>doDeploy\<close> looks a manifest's hostname up as it stands, so in a successful deploy every ingress
  hostname with an upper-case letter is declared, even when its lower-case form was withheld
  because another group holds it.\<close>

theorem withheld_upper_case_declared:
  assumes "do_result (doDeploy env k hs current d) = Inr (withheld, eps)"
    and "h \<in> ingress_hosts env (dp_ManifestGroup d)" and "to_lower h \<noteq> h" and "\<forall>S \<subseteq> ingress_hosts env (dp_ManifestGroup d) \<union> static_hosts env (dp_LeaseID d) (dp_ManifestGroup d). set (de_ord env S) = S"
  shows "h \<in> declared_hosts (do_calls (doDeploy env k hs current d))"
proof -
  let ?g = "dp_ManifestGroup d" and ?lid = "dp_LeaseID d"
  obtain rc hs1 h2 hcalls ips where
    res: "ReserveHostnames (de_addr env) hs (AllHostnamesOfManifestGroup ?g) ?lid (fst (de_sel env)) (snd (de_sel env)) = (hs1, Inr withheld)"
    and out: "doDeploy env k hs current d =
      \<lparr>do_calls = CallDeploy d # hcalls @ fst (declare_ips env k ?lid 0 ips) @ purgeAll h2, do_hostnames = hs1,
       do_current = co_current (collect_all env ?lid withheld ?g), do_reclaim = rc, do_result = Inr (withheld, eps)\<rparr>"
    and dh: "declare_hosts env k (co_hosts (collect_all env ?lid withheld ?g))
       (de_ord env (dom (co_hosts (collect_all env ?lid withheld ?g)))) = (hcalls, None)" by (rule doDeploy_ok[OF assms(1)])
  from ReserveHostnames_ok[OF res] obtain hid
    where "withheld = filter (held_elsewhere (inUse hs) hid) (map to_lower (AllHostnamesOfManifestGroup ?g))" by blast
  then have "h \<notin> set withheld" using assms(3) by auto
  moreover note doms = collect_all_doms[of env ?lid withheld ?g]
  have "set (de_ord env (dom (co_hosts (collect_all env ?lid withheld ?g)))) = dom (co_hosts (collect_all env ?lid withheld ?g))"
    by (rule assms(4)[rule_format]) (use doms in blast)
  moreover from doms have "dom (co_hosts (collect_all env ?lid withheld ?g)) = (ingress_hosts env ?g - set withheld) \<union> static_hosts env ?lid ?g" ..
  ultimately have "h \<in> declared_hosts hcalls" using declare_hosts_ok[OF dh] assms(2) by blast
  then show ?thesis by (simp add: out declared_hosts_append)
qed

definition ex_deploy_env :: deploy_env where
  "ex_deploy_env = \<lparr>de_lease = Inr (ex_dm_lease, LeaseActive), de_addr = Some, de_sel = (SelChan, SelChan), de_static = False, de_domain = ''d'',
     de_isIngress = ex_Global, de_externalPort = ex_ExternalPort, de_parseProto = Some, de_sharingKey = (\<lambda>l n. n), de_ingressHost = (\<lambda>l n. n),
     de_ord = (\<lambda>S. filter (\<lambda>h. h \<in> S) [''a.com'', ''B.com'', ''c.com''])\<rparr>"

definition ex_kube :: kube where
  "ex_kube = \<lparr>k_GetDeclaredIPs = Inr [], k_Deploy = None, k_DeclareHostname = (\<lambda>h. None), k_DeclareIP = (\<lambda>i. IPOk)\<rparr>"

definition ex_expose :: "string list \<Rightarrow> expose" where
  "ex_expose hs = \<lparr>ex_Port = 80, ex_ExternalPort = 80, ex_Proto = ''TCP'', ex_Global = True, ex_Hosts = hs, ex_IP = [], ex_Proxy = None\<rparr>"

definition ex_web :: "string list \<Rightarrow> dep" where
  "ex_web hs = \<lparr>dp_LeaseID = ex_dm_lease, dp_ManifestGroup = \<lparr>mg_Name = ''g'',
     mg_Services = [\<lparr>sv_Name = ''web'', sv_Count = 1, sv_Expose = [ex_expose hs]\<rparr>]\<rparr>\<rparr>"

text \<open>A hostname service in which another deployment of the same owner holds \<open>c.com\<close> and \<open>b.com\<close>.\<close>

definition ex_hs :: hostname_service where
  "ex_hs = \<lparr>inUse = [''c.com'' \<mapsto> \<lparr>h_owner = ''alice'', h_dseq = 2, h_gseq = 1\<rparr>, ''b.com'' \<mapsto> \<lparr>h_owner = ''alice'', h_dseq = 2, h_gseq = 1\<rparr>],
     blockedHostnames = [], blockedDomains = []\<rparr>"

lemmas ex_deploy_defs = doDeploy_def ex_deploy_env_def ex_kube_def ex_web_def ex_expose_def ex_hs_def ex_dm_lease_def checkLeaseActive_def
  AllHostnamesOfManifestGroup_def ReserveHostnames_def reserveHostnamesImpl_def hostnameIDFromLeaseID_def isHostnameBlocked_def
  collect_all_def collect_expose_def collect_host_def newDeployCleanupHelper_def purgeAll_def to_lower_def to_lower_char_def Let_def

lemma ex_lower_b: "char_of (98::nat) = CHR ''b''"
  by code_simp

lemma ex_deploy_withheld: "do_result (doDeploy ex_deploy_env ex_kube ex_hs {} (ex_web [''a.com'', ''c.com''])) = Inr ([''c.com''], [])"
  by (simp add: ex_deploy_defs)

lemma ex_deploy_upper: "do_result (doDeploy ex_deploy_env ex_kube ex_hs {} (ex_web [''B.com''])) = Inr ([''b.com''], [])"
  by (simp add: ex_deploy_defs ex_lower_b)

lemma ex_web_hosts:
  "ingress_hosts ex_deploy_env (dp_ManifestGroup (ex_web hs)) = set hs" "static_hosts ex_deploy_env (dp_LeaseID (ex_web hs)) (dp_ManifestGroup (ex_web hs)) = {}"
  by (simp_all add: ingress_hosts_def static_hosts_def ex_deploy_env_def ex_web_def ex_expose_def)

theorem declared_hostnames_are_held_witness:
  "declared_hosts (do_calls (doDeploy ex_deploy_env ex_kube ex_hs {} (ex_web [''a.com'', ''c.com'']))) = {''a.com''}"
proof -
  have "\<forall>h \<in> set (AllHostnamesOfManifestGroup (dp_ManifestGroup (ex_web [''a.com'', ''c.com'']))). to_lower h = h"
    by (simp add: AllHostnamesOfManifestGroup_def ex_web_def ex_expose_def to_lower_def to_lower_char_def Let_def)
  moreover have "\<forall>S \<subseteq> ingress_hosts ex_deploy_env (dp_ManifestGroup (ex_web [''a.com'', ''c.com''])) \<union>
      static_hosts ex_deploy_env (dp_LeaseID (ex_web [''a.com'', ''c.com''])) (dp_ManifestGroup (ex_web [''a.com'', ''c.com''])). set (de_ord ex_deploy_env S) = S"
    unfolding ex_web_hosts by (auto simp: ex_deploy_env_def)
  ultimately have "declared_hosts (do_calls (doDeploy ex_deploy_env ex_kube ex_hs {} (ex_web [''a.com'', ''c.com'']))) =
      (ingress_hosts ex_deploy_env (dp_ManifestGroup (ex_web [''a.com'', ''c.com''])) - set [''c.com'']) \<union>
      static_hosts ex_deploy_env (dp_LeaseID (ex_web [''a.com'', ''c.com''])) (dp_ManifestGroup (ex_web [''a.com'', ''c.com'']))"
    using declared_hostnames_are_held[OF ex_deploy_withheld] by blast
  then show ?thesis unfolding ex_web_hosts by auto
qed

theorem withheld_upper_case_declared_witness:
  "''B.com'' \<in> declared_hosts (do_calls (doDeploy ex_deploy_env ex_kube ex_hs {} (ex_web [''B.com'']))) \<and>
   inUse ex_hs ''b.com'' = Some \<lparr>h_owner = ''alice'', h_dseq = 2, h_gseq = 1\<rparr>"
proof -
  have "\<forall>S \<subseteq> ingress_hosts ex_deploy_env (dp_ManifestGroup (ex_web [''B.com''])) \<union>
      static_hosts ex_deploy_env (dp_LeaseID (ex_web [''B.com''])) (dp_ManifestGroup (ex_web [''B.com''])). set (de_ord ex_deploy_env S) = S"
    unfolding ex_web_hosts by (auto simp: ex_deploy_env_def)
  then show ?thesis using withheld_upper_case_declared[OF ex_deploy_upper, of "''B.com''"]
    by (simp add: ex_web_hosts ex_hs_def to_lower_def to_lower_char_def ex_lower_b)
qed

text \<open>a lease that is not active gets no workload. When the check of the lease fails the deploy
  makes no call to Kubernetes and reserves no hostname; the task reports an inactive lease exactly
  when the chain says the lease is closed or out of funds; and on that report the
  manager's loop, whatever its state, turns to teardown.\<close>

theorem inactive_lease_not_deployed:
  assumes "snd (checkLeaseActive (dp_LeaseID d) (de_lease env)) \<noteq> None"
    and "dm_pc (dm_run ri d0 evs) = DmLoop" and "dm_runch (dm_run ri d0 evs) = Some TaskDeploy"
  shows "do_calls (doDeploy env k hs current d) = [] \<and> do_hostnames (doDeploy env k hs current d) = hs \<and>
    (deploy_run_result (do_result (doDeploy env k hs current d)) = RunLeaseInactive ''inactive Lease'') =
      (\<exists>st \<in> {LeaseClosed, LeaseInsufficientFunds}. de_lease env = Inr (dp_LeaseID d, st)) \<and>
    (deploy_run_result (do_result (doDeploy env k hs current d)) = RunLeaseInactive ''inactive Lease'' \<longrightarrow>
      dm_state (dm_run ri d0 (evs @ [DmRun (deploy_run_result (do_result (doDeploy env k hs current d)))])) = dsTeardownActive)"
proof -
  obtain rc e where c: "checkLeaseActive (dp_LeaseID d) (de_lease env) = (rc, Some e)" using assms(1) by (metis not_None_eq prod.collapse)
  have out: "doDeploy env k hs current d =
      \<lparr>do_calls = [], do_hostnames = hs, do_current = current, do_reclaim = rc, do_result = Inl e\<rparr>"
    by (simp add: doDeploy_def c Let_def)
  have "(deploy_run_result (Inl e) = RunLeaseInactive ''inactive Lease'') = (\<exists>st \<in> {LeaseClosed, LeaseInsufficientFunds}. de_lease env = Inr (dp_LeaseID d, st))"
    using c by (auto simp: checkLeaseActive_def split: sum.splits if_splits mv1_lease_state.splits)
  moreover have "dm_state (dm_run ri d0 (evs @ [DmRun (RunLeaseInactive x)])) = dsTeardownActive" for x
    using assms(2,3) by (simp add: dm_run_def dm_turn_def handle_result_def startTeardown_def)
  ultimately show ?thesis by (auto simp: out)
qed

theorem inactive_lease_not_deployed_witness:
  "do_calls (doDeploy (ex_deploy_env\<lparr>de_lease := Inr (ex_dm_lease, LeaseClosed)\<rparr>) ex_kube ex_hs {} (ex_web [''a.com''])) = [] \<and>
   dm_state (dm_run 60 (ex_web [''a.com'']) [DmRun (deploy_run_result (do_result
     (doDeploy (ex_deploy_env\<lparr>de_lease := Inr (ex_dm_lease, LeaseClosed)\<rparr>) ex_kube ex_hs {} (ex_web [''a.com'']))))]) = dsTeardownActive"
proof -
  have c: "snd (checkLeaseActive (dp_LeaseID (ex_web [''a.com''])) (de_lease (ex_deploy_env\<lparr>de_lease := Inr (ex_dm_lease, LeaseClosed)\<rparr>))) \<noteq> None"
    by (simp add: checkLeaseActive_def ex_web_def)
  have m: "dm_pc (dm_run 60 (ex_web [''a.com'']) []) = DmLoop" "dm_runch (dm_run 60 (ex_web [''a.com'']) []) = Some TaskDeploy"
    by (simp_all add: dm_run_def newDeploymentManager_def startDeploy_def stopMonitor_def)
  show ?thesis using inactive_lease_not_deployed[OF c m, of ex_kube ex_hs "{}"] by (simp add: ex_web_def)
qed

end
