(* ===== verification/DeploymentMonitor.thy ===== *)
theory DeploymentMonitor
  imports DeploymentManager
begin

text \<open>
  The health monitor of a deployed group (\<open>cluster/monitor.go\<close>): it checks the lease's services
  after a delay, retries while they are unhealthy, and closes the bid when they stay unhealthy.
  One event is one ready case of the loop; \<open>mo_checks\<close> is the history of check results, kept for
  the statements. The delays are not modelled, only whether a tick is scheduled.
\<close>

section \<open>State and steps\<close>

datatype ClusterDeploymentStatus = ClusterDeploymentUnknown | ClusterDeploymentUpdated | ClusterDeploymentPending | ClusterDeploymentDeployed

record monitor_config =
  MonitorMaxRetries :: nat
  MonitorHealthcheckPeriod :: int

record deploymentMonitor =
  mo_attempts :: nat
  mo_tickch :: bool
  mo_runch :: bool
  mo_closech :: bool
  mo_prevStatus :: ClusterDeploymentStatus
  mo_running :: bool
  mo_published :: "ClusterDeploymentStatus list"
  mo_closes :: "bid_id list"
  mo_checks :: "bool list"

definition newDeploymentMonitor :: deploymentMonitor where
  "newDeploymentMonitor =
     \<lparr>mo_attempts = 0, mo_tickch = True, mo_runch = False, mo_closech = False, mo_prevStatus = ClusterDeploymentUnknown,
      mo_running = True, mo_published = [], mo_closes = [], mo_checks = []\<rparr>"

text \<open>
  \<open>doCheck\<close>: the lease is healthy when every service of the group is reported with at least its
  count of available replicas. \<open>Available\<close> is an \<open>int32\<close> read as \<open>uint32\<close>.
\<close>

definition badsvc :: "mani_group \<Rightarrow> (string \<rightharpoonup> u32) \<Rightarrow> nat" where
  "badsvc g status =
     length (filter (\<lambda>s. case status (sv_Name s) of None \<Rightarrow> True | Some available \<Rightarrow> available < sv_Count s) (mg_Services g))"

definition doCheck :: "mani_group \<Rightarrow> string + (string \<rightharpoonup> u32) \<Rightarrow> bool" where
  "doCheck g answer = (case answer of Inl e \<Rightarrow> False | Inr status \<Rightarrow> badsvc g status = 0)"

datatype monitor_event = MonShutdown | MonTick | MonCheck "string + (string \<rightharpoonup> u32)" | MonClosed

definition monitor_runCheck :: "deploymentMonitor \<Rightarrow> deploymentMonitor" where
  "monitor_runCheck m = m\<lparr>mo_attempts := mo_attempts m + 1, mo_runch := True\<rparr>"

definition runCloseLease :: "dep \<Rightarrow> deploymentMonitor \<Rightarrow> deploymentMonitor" where
  "runCloseLease d m = m\<lparr>mo_closech := True, mo_closes := mo_closes m @ [dp_LeaseID d]\<rparr>"

definition publishStatus :: "ClusterDeploymentStatus \<Rightarrow> deploymentMonitor \<Rightarrow> deploymentMonitor" where
  "publishStatus st m =
     (if st \<noteq> mo_prevStatus m then m\<lparr>mo_published := mo_published m @ [st], mo_prevStatus := st\<rparr> else m)"

definition scheduleHealthcheck :: "monitor_config \<Rightarrow> deploymentMonitor \<Rightarrow> deploymentMonitor" where
  "scheduleHealthcheck cfg m = m\<lparr>mo_tickch := MonitorHealthcheckPeriod cfg > 0\<rparr>"

definition check_result :: "monitor_config \<Rightarrow> dep \<Rightarrow> bool \<Rightarrow> deploymentMonitor \<Rightarrow> deploymentMonitor" where
  "check_result cfg d healthy m0 =
     (let m = m0\<lparr>mo_runch := False, mo_checks := mo_checks m0 @ [healthy]\<rparr> in
      if healthy then publishStatus ClusterDeploymentDeployed (scheduleHealthcheck cfg (m\<lparr>mo_attempts := 0\<rparr>))
      else (let m1 = publishStatus ClusterDeploymentPending m in
            if mo_attempts m1 \<le> MonitorMaxRetries cfg then m1\<lparr>mo_tickch := True\<rparr> else runCloseLease d m1))"

definition monitor_turn :: "monitor_config \<Rightarrow> dep \<Rightarrow> deploymentMonitor \<Rightarrow> monitor_event \<Rightarrow> deploymentMonitor" where
  "monitor_turn cfg d m ev =
     (if \<not> mo_running m then m else
      case ev of
        MonShutdown \<Rightarrow> m\<lparr>mo_running := False\<rparr>
      | MonTick \<Rightarrow> if mo_tickch m then monitor_runCheck (m\<lparr>mo_tickch := False\<rparr>) else m
      | MonCheck answer \<Rightarrow> if mo_runch m then check_result cfg d (doCheck (dp_ManifestGroup d) answer) m else m
      | MonClosed \<Rightarrow> m\<lparr>mo_closech := False\<rparr>)"

definition monitor_run :: "monitor_config \<Rightarrow> dep \<Rightarrow> monitor_event list \<Rightarrow> deploymentMonitor" where
  "monitor_run cfg d evs = foldl (monitor_turn cfg d) newDeploymentMonitor evs"

section \<open>Lemmas\<close>

text \<open>The number of unhealthy checks since the last healthy one.\<close>

definition unhealthy_streak :: "bool list \<Rightarrow> nat" where
  "unhealthy_streak cs = length (takeWhile Not (rev cs))"

lemma streak_simps [simp]:
  "unhealthy_streak [] = 0" "unhealthy_streak (cs @ [c]) = (if c then 0 else Suc (unhealthy_streak cs))"
  by (simp_all add: unhealthy_streak_def)

definition check_status :: "bool \<Rightarrow> ClusterDeploymentStatus" where
  "check_status healthy = (if healthy then ClusterDeploymentDeployed else ClusterDeploymentPending)"

definition monitor_inv :: "monitor_config \<Rightarrow> dep \<Rightarrow> deploymentMonitor \<Rightarrow> bool" where
  "monitor_inv cfg d m =
     ((mo_runch m \<longrightarrow> \<not> mo_tickch m) \<and>
      (if mo_runch m \<or> mo_tickch m
       then mo_closes m = [] \<and> unhealthy_streak (mo_checks m) \<le> MonitorMaxRetries cfg \<and>
            mo_attempts m = unhealthy_streak (mo_checks m) + of_bool (mo_runch m)
       else mo_closes m = [dp_LeaseID d] \<and> unhealthy_streak (mo_checks m) = MonitorMaxRetries cfg + 1 \<or>
            mo_closes m = [] \<and> unhealthy_streak (mo_checks m) = 0 \<and> MonitorHealthcheckPeriod cfg \<le> 0))"

lemma check_result_inv:
  "monitor_inv cfg d m \<Longrightarrow> mo_runch m \<Longrightarrow> monitor_inv cfg d (check_result cfg d healthy m)"
  by (auto simp: monitor_inv_def check_result_def publishStatus_def scheduleHealthcheck_def runCloseLease_def Let_def)

lemma monitor_turn_inv: "monitor_inv cfg d m \<Longrightarrow> monitor_inv cfg d (monitor_turn cfg d m ev)"
  by (cases ev) (simp_all add: monitor_turn_def check_result_inv, auto simp: monitor_inv_def monitor_runCheck_def)

lemma monitor_run_inv: "monitor_inv cfg d (monitor_run cfg d evs)"
  unfolding monitor_run_def
  by (rule foldl_invariant[where I = "monitor_inv cfg d"]) (simp add: monitor_inv_def newDeploymentMonitor_def, rule monitor_turn_inv)

definition published_ok :: "deploymentMonitor \<Rightarrow> bool" where
  "published_ok m =
     (mo_published m = remdups_adj (map check_status (mo_checks m)) \<and>
      mo_prevStatus m = (if mo_checks m = [] then ClusterDeploymentUnknown else check_status (last (mo_checks m))))"

lemma remdups_adj_snoc:
  "remdups_adj (xs @ [x]) = (if xs \<noteq> [] \<and> last xs = x then remdups_adj xs else remdups_adj xs @ [x])"
  by (induction xs rule: remdups_adj.induct) auto

lemma published_turn: "published_ok m \<Longrightarrow> published_ok (monitor_turn cfg d m ev)"
  by (cases ev)
    (auto simp: monitor_turn_def monitor_runCheck_def check_result_def publishStatus_def scheduleHealthcheck_def runCloseLease_def
      published_ok_def check_status_def remdups_adj_snoc last_map Let_def)

section \<open>Properties\<close>

text \<open>C30: a lease is closed for bad health exactly when \<open>MonitorMaxRetries\<close> + 1 checks in a row
  found it unhealthy; it is closed once, no check follows, and the streak never gets longer.\<close>

theorem monitor_closes_after_retries:
  "mo_closes (monitor_run cfg d evs) =
     (if unhealthy_streak (mo_checks (monitor_run cfg d evs)) > MonitorMaxRetries cfg then [dp_LeaseID d] else []) \<and>
   unhealthy_streak (mo_checks (monitor_run cfg d evs)) \<le> MonitorMaxRetries cfg + 1"
  using monitor_run_inv[of cfg d evs] by (auto simp: monitor_inv_def split: if_splits)

text \<open>the published statuses are the check results without repetitions: one event per change
  between healthy and unhealthy, in order.\<close>

theorem monitor_publishes_changes:
  "mo_published (monitor_run cfg d evs) = remdups_adj (map check_status (mo_checks (monitor_run cfg d evs)))"
proof -
  have "published_ok (monitor_run cfg d evs)"
    unfolding monitor_run_def
    by (rule foldl_invariant[where I = published_ok]) (simp add: published_ok_def newDeploymentMonitor_def, rule published_turn)
  then show ?thesis by (simp add: published_ok_def)
qed

end
