(* ===== verification/ClusterService.thy ===== *)
theory ClusterService
  imports InventoryService DeploymentManager Registry
begin

text \<open>
  The cluster service (\<open>cluster/service.go\<close>): the loop that starts a deployment manager when a
  manifest arrives for a reserved lease, hands it updates, teardown and reclamation, and gives the
  lease's reservation back when the manager is done. Its state joins the inventory service
  and the managers, and its events interleave theirs: \<open>ClManager\<close> is a turn of one manager's own
  loop, \<open>ClInventory\<close> a turn of the inventory service for another client. The provider's address is
  the parameter \<open>own\<close>. Status values and metrics are left out, but for the counts.
\<close>

section \<open>State and steps\<close>

record 'i cluster =
  cl_managers :: "lease_id \<rightharpoonup> dm"
  cl_inventory :: "'i inventory_state"
  cl_started :: "lease_id list"
  cl_signal :: bool

datatype 'i cluster_event =
    ClShutdown
  | ClManifest lease_id mani string
  | ClLeaseClosed lease_id
  | ClReclaimStarted lease_id int
  | ClManager lease_id dm_event
  | ClManagerDone lease_id
  | ClInventory "'i inventory_event"
  | ClSignal

text \<open>Start-up: a reservation and a manager for every deployment found in the cluster.\<close>

definition start_manager :: "dep \<Rightarrow> dm" where
  "start_manager d = startDeploy (newDeploymentManager d)"

fun recover_managers :: "(recovered_deployment \<times> mani_group) list \<Rightarrow> 'i cluster \<Rightarrow> 'i cluster" where
  "recover_managers [] s = s"
| "recover_managers ((r, g) # ds) s =
     recover_managers ds (s\<lparr>cl_managers := (cl_managers s)(d_lease r \<mapsto> start_manager \<lparr>dp_LeaseID = d_lease r, dp_ManifestGroup = g\<rparr>),
       cl_started := cl_started s @ [d_lease r]\<rparr>)"

definition newClusterService :: "'i service_env \<Rightarrow> (recovered_deployment \<times> mani_group) list \<Rightarrow> 'i cluster" where
  "newClusterService E ds =
     recover_managers ds \<lparr>cl_managers = Map.empty, cl_inventory = newInventoryService E (map fst ds), cl_started = [], cl_signal = True\<rparr>"

definition cl_unreserve :: "lease_id \<Rightarrow> 'i cluster \<Rightarrow> 'i cluster" where
  "cl_unreserve lid s = s\<lparr>cl_inventory := fst (handle_unreserve (cl_inventory s) (lease_order_id lid))\<rparr>"

definition tell_manager :: "int \<Rightarrow> lease_id \<Rightarrow> dm_event \<Rightarrow> 'i cluster \<Rightarrow> 'i cluster" where
  "tell_manager ri lid ev s =
     (case cl_managers s lid of None \<Rightarrow> s | Some m \<Rightarrow> s\<lparr>cl_managers := (cl_managers s)(lid \<mapsto> dm_turn ri m ev)\<rparr>)"

definition teardownLease :: "string \<Rightarrow> int \<Rightarrow> lease_id \<Rightarrow> 'i cluster \<Rightarrow> 'i cluster" where
  "teardownLease own ri lid s =
     (if cl_managers s lid \<noteq> None then tell_manager ri lid DmTeardown s
      else if l_provider lid = own then cl_unreserve lid s else s)"

definition manifest_received :: "int \<Rightarrow> lease_id \<Rightarrow> mani \<Rightarrow> string \<Rightarrow> 'i cluster \<Rightarrow> 'i cluster" where
  "manifest_received ri lid m groupName s =
     (case ManifestGroup m groupName of
        None \<Rightarrow> s
      | Some mgroup \<Rightarrow>
         (case handle_lookup (cl_inventory s) (lease_order_id lid) (mg_Name mgroup) of
            Inl e \<Rightarrow> s
          | Inr reservation \<Rightarrow>
             (let d = \<lparr>dp_LeaseID = lid, dp_ManifestGroup = mgroup\<rparr> in
              if cl_managers s lid \<noteq> None then tell_manager ri lid (DmUpdate d) s
              else s\<lparr>cl_managers := (cl_managers s)(lid \<mapsto> start_manager d), cl_started := cl_started s @ [lid], cl_signal := True\<rparr>)))"

definition manager_done :: "dm \<Rightarrow> 'i cluster \<Rightarrow> 'i cluster" where
  "manager_done m s =
     (let lid = dp_LeaseID (dm_deployment m); s1 = cl_unreserve lid s
      in s1\<lparr>cl_managers := (cl_managers s1)(lid := None), cl_signal := True\<rparr>)"

text \<open>
  The events of a manager that do not come from the service: all but updates, teardown requests,
  and the shutdown that only the end of the service causes.
\<close>

fun manager_own :: "dm_event \<Rightarrow> bool" where
  "manager_own (DmUpdate d) = False"
| "manager_own DmTeardown = False"
| "manager_own DmShutdown = False"
| "manager_own _ = True"

definition cluster_step :: "'i service_env \<Rightarrow> string \<Rightarrow> int \<Rightarrow> 'i cluster \<Rightarrow> 'i cluster_event \<Rightarrow> 'i cluster option" where
  "cluster_step E own ri s ev =
     (case ev of
        ClShutdown \<Rightarrow> None
      | ClManifest lid m groupName \<Rightarrow> Some (manifest_received ri lid m groupName s)
      | ClLeaseClosed lid \<Rightarrow> Some (teardownLease own ri lid s)
      | ClReclaimStarted lid deadline \<Rightarrow> Some (tell_manager ri lid (DmReclaim deadline) s)
      | ClManager lid e \<Rightarrow> Some (if manager_own e then tell_manager ri lid e s else s)
      | ClManagerDone lid \<Rightarrow>
          Some (case cl_managers s lid of None \<Rightarrow> s | Some m \<Rightarrow> if dm_pc m = DmLoop then s else manager_done m s)
      | ClInventory e \<Rightarrow>
          Some (case inventory_step E (cl_inventory s) e of None \<Rightarrow> s | Some i \<Rightarrow> s\<lparr>cl_inventory := i\<rparr>)
      | ClSignal \<Rightarrow> Some (s\<lparr>cl_signal := False\<rparr>))"

definition cluster_run :: "'i service_env \<Rightarrow> string \<Rightarrow> int \<Rightarrow> (recovered_deployment \<times> mani_group) list \<Rightarrow> 'i cluster_event list \<Rightarrow> 'i cluster" where
  "cluster_run E own ri ds evs = run_until (cluster_step E own ri) (newClusterService E ds) evs"

text \<open>\<open>doCheckDeploymentExists\<close> over the managed leases in the order Go ranges over them.\<close>

definition doCheckDeploymentExists :: "lease_id list \<Rightarrow> string \<Rightarrow> u64 \<Rightarrow> u32 \<Rightarrow> lease_id option" where
  "doCheckDeploymentExists leases owner dseq gseq =
     find (\<lambda>lid. l_gseq lid = gseq \<and> l_dseq lid = dseq \<and> l_owner lid = owner) leases"

datatype 'g find_lease_answer = FindCtx | FindNone | FindKubeErr | FindNoManifestGroup | FindLease lease_id 'g

text \<open>\<open>FindActiveLease\<close>: \<open>getGroup\<close> is the answer of \<open>GetManifestGroup\<close> (\<open>Inl\<close> an error, \<open>None\<close> not found).\<close>

definition FindActiveLease :: "bool \<Rightarrow> lease_id list \<Rightarrow> (lease_id \<Rightarrow> unit + 'g option) \<Rightarrow> string \<Rightarrow> u64 \<Rightarrow> u32 \<Rightarrow> 'g find_lease_answer" where
  "FindActiveLease cancelled leases getGroup owner dseq gseq =
     (if cancelled then FindCtx
      else case doCheckDeploymentExists leases owner dseq gseq of
        None \<Rightarrow> FindNone
      | Some lid \<Rightarrow> (case getGroup lid of Inl e \<Rightarrow> FindKubeErr | Inr None \<Rightarrow> FindNoManifestGroup | Inr (Some g) \<Rightarrow> FindLease lid g))"

section \<open>One manager per lease\<close>

definition finishes :: "'i cluster_event \<Rightarrow> lease_id \<Rightarrow> bool" where
  "finishes ev lid = (case ev of ClManagerDone l \<Rightarrow> l = lid | _ \<Rightarrow> False)"

abbreviation managed :: "'i cluster \<Rightarrow> lease_id \<Rightarrow> bool" where
  "managed s lid \<equiv> cl_managers s lid \<noteq> None"

lemma tell_manager_simps [simp]:
  "cl_managers (tell_manager ri lid ev s) l = None \<longleftrightarrow> cl_managers s l = None"
  "(\<exists>y. cl_managers (tell_manager ri lid ev s) l = Some y) \<longleftrightarrow> (\<exists>y. cl_managers s l = Some y)" "cl_started (tell_manager ri lid ev s) = cl_started s"
  "cl_inventory (tell_manager ri lid ev s) = cl_inventory s"
  by (simp_all add: tell_manager_def split: option.split)

lemma cl_unreserve_simps [simp]: "cl_managers (cl_unreserve lid s) = cl_managers s" "cl_started (cl_unreserve lid s) = cl_started s"
  by (simp_all add: cl_unreserve_def)

definition cluster_wf :: "'i cluster \<Rightarrow> bool" where
  "cluster_wf s = (\<forall>lid m. cl_managers s lid = Some m \<longrightarrow> dp_LeaseID (dm_deployment m) = lid)"

lemma cluster_wfD: "cluster_wf s \<Longrightarrow> cl_managers s lid = Some m \<Longrightarrow> dp_LeaseID (dm_deployment m) = lid"
  by (simp add: cluster_wf_def)

lemma cluster_wf_upd:
  "cluster_wf s \<Longrightarrow> cl_managers s' = (cl_managers s)(lid \<mapsto> m) \<Longrightarrow> dp_LeaseID (dm_deployment m) = lid \<Longrightarrow> cluster_wf s'"
  by (simp add: cluster_wf_def)

lemma cluster_wf_same: "cluster_wf s \<Longrightarrow> cl_managers s' = cl_managers s \<Longrightarrow> cluster_wf s'"
  by (simp add: cluster_wf_def)

lemma tell_manager_wf:
  assumes "cluster_wf s" and "\<And>d. ev = DmUpdate d \<Longrightarrow> dp_LeaseID d = lid"
  shows "cluster_wf (tell_manager ri lid ev s)"
proof (cases "cl_managers s lid")
  case (Some m)
  have "dp_LeaseID (dm_deployment (dm_turn ri m ev)) = lid"
    using assms(2) cluster_wfD[OF assms(1) Some] by (cases ev) (simp_all add: dm_turn_deployment)
  then show ?thesis by (intro cluster_wf_upd[OF assms(1)]) (simp add: tell_manager_def Some)
qed (use assms in \<open>simp add: tell_manager_def\<close>)

lemma start_manager_deployment [simp]: "dm_deployment (start_manager d) = d"
  by (simp add: start_manager_def newDeploymentManager_def)

text \<open>What a manifest does to the map of managers.\<close>

lemma manifest_received_cases:
  obtains "manifest_received ri lid m n s = s"
  | d where "dp_LeaseID d = lid" and "managed s lid" and "manifest_received ri lid m n s = tell_manager ri lid (DmUpdate d) s"
  | d where "dp_LeaseID d = lid" and "\<not> managed s lid" and "is_ok (handle_lookup (cl_inventory s) (lease_order_id lid) (mg_Name (dp_ManifestGroup d)))"
      and "manifest_received ri lid m n s =
        s\<lparr>cl_managers := (cl_managers s)(lid \<mapsto> start_manager d), cl_started := cl_started s @ [lid], cl_signal := True\<rparr>"
proof (cases "ManifestGroup m n")
  case None
  then show ?thesis using that(1) by (simp add: manifest_received_def)
next
  case (Some g)
  let ?d = "\<lparr>dp_LeaseID = lid, dp_ManifestGroup = g\<rparr>"
  show ?thesis
    using that(1) that(2)[of ?d] that(3)[of ?d] Some
    by (cases "handle_lookup (cl_inventory s) (lease_order_id lid) (mg_Name g)"; cases "managed s lid")
      (simp_all add: manifest_received_def Let_def)
qed

lemma cluster_step_wf:
  assumes "cluster_wf s" and "cluster_step E own ri s ev = Some s'"
  shows "cluster_wf s'"
proof (cases ev)
  case (ClManifest lid m n)
  with assms(2) have "s' = manifest_received ri lid m n s" by (simp add: cluster_step_def)
  then show ?thesis
    by (cases rule: manifest_received_cases[of ri lid m n s])
      (use assms(1) in \<open>auto intro: tell_manager_wf cluster_wf_upd\<close>)
next
  case (ClManagerDone lid)
  then show ?thesis using assms
    by (auto simp: cluster_step_def cluster_wf_def manager_done_def Let_def split: option.splits if_splits)
next
  case (ClManager lid e)
  then show ?thesis using assms by (cases "manager_own e") (auto simp: cluster_step_def intro: tell_manager_wf)
next
  case (ClLeaseClosed lid)
  then have "s' = teardownLease own ri lid s" using assms(2) by (simp add: cluster_step_def)
  then show ?thesis using assms(1) tell_manager_wf[OF assms(1), of DmTeardown lid ri] cluster_wf_same[OF assms(1), of "cl_unreserve lid s"]
    by (simp add: teardownLease_def split: if_splits)
next
  case (ClReclaimStarted lid dl)
  then show ?thesis using assms tell_manager_wf[OF assms(1), of "DmReclaim dl" lid ri] by (simp add: cluster_step_def)
qed (use assms in \<open>auto simp: cluster_step_def split: option.splits intro: cluster_wf_same\<close>)

interpretation clusters: child_registry cluster_wf managed cl_started "cluster_step E own ri" finishes
proof
  fix s e s' k assume "cluster_wf s" and "cluster_step E own ri s e = Some s'"
  then show "cluster_wf s'" by (rule cluster_step_wf)
next
  fix s e s' k assume wf: "cluster_wf s" and st: "cluster_step E own ri s e = Some s'"
  show "count_list (cl_started s') k + of_bool (managed s k) \<le>
      count_list (cl_started s) k + of_bool (finishes e k) + of_bool (managed s' k)"
  proof (cases e)
    case (ClManifest lid m n)
    with st have "s' = manifest_received ri lid m n s" by (simp add: cluster_step_def)
    then show ?thesis by (cases rule: manifest_received_cases[of ri lid m n s]) auto
  next
    case (ClManagerDone lid)
    then show ?thesis using st wf
      by (auto simp: cluster_step_def manager_done_def finishes_def cluster_wf_def Let_def split: option.splits if_splits)
  qed (use st in \<open>auto simp: cluster_step_def teardownLease_def split: if_splits option.splits\<close>)
next
  fix s e s' k assume wf: "cluster_wf s" and st: "cluster_step E own ri s e = Some s'" and k: "managed s k" "\<not> finishes e k"
  show "managed s' k"
  proof (cases e)
    case (ClManifest lid m n)
    with st have "s' = manifest_received ri lid m n s" by (simp add: cluster_step_def)
    then show ?thesis using k(1) by (cases rule: manifest_received_cases[of ri lid m n s]) simp_all
  next
    case (ClManagerDone lid)
    then show ?thesis using wf st k
      by (auto simp: cluster_step_def manager_done_def finishes_def cluster_wf_def Let_def split: option.splits if_splits)
  qed (use st k in \<open>auto simp: cluster_step_def teardownLease_def split: if_splits option.splits\<close>)
qed

section \<open>Managers and reservations\<close>

definition reserved :: "'i cluster \<Rightarrow> lease_id \<Rightarrow> bool" where
  "reserved s lid = (\<exists>name. is_ok (handle_lookup (cl_inventory s) (lease_order_id lid) name))"

lemma reserved_held: "reserved s lid = (\<exists>name. held (lease_order_id lid) name (cl_inventory s))"
  by (simp add: reserved_def lookup_iff_held)

text \<open>Every manager is in a state its own loop can reach, and serves a lease of this provider.\<close>

definition managers_ok :: "string \<Rightarrow> int \<Rightarrow> 'i cluster \<Rightarrow> bool" where
  "managers_ok own ri s = (\<forall>lid m. cl_managers s lid = Some m \<longrightarrow>
     dp_LeaseID (dm_deployment m) = lid \<and> l_provider lid = own \<and> dm_reachable ri m)"

lemma managers_okD:
  "managers_ok own ri s \<Longrightarrow> cl_managers s lid = Some m \<Longrightarrow> dp_LeaseID (dm_deployment m) = lid \<and> l_provider lid = own \<and> dm_reachable ri m"
  by (simp add: managers_ok_def)

lemma managers_ok_same: "managers_ok own ri s \<Longrightarrow> cl_managers s' = cl_managers s \<Longrightarrow> managers_ok own ri s'"
  by (simp add: managers_ok_def)

lemma managers_ok_upd:
  "managers_ok own ri s \<Longrightarrow> cl_managers s' = (cl_managers s)(lid \<mapsto> m) \<Longrightarrow> dp_LeaseID (dm_deployment m) = lid \<Longrightarrow>
   l_provider lid = own \<Longrightarrow> dm_reachable ri m \<Longrightarrow> managers_ok own ri s'"
  by (simp add: managers_ok_def)

lemma tell_manager_ok:
  assumes "managers_ok own ri s" and "\<And>d. ev = DmUpdate d \<Longrightarrow> dp_LeaseID d = lid" and "ev \<noteq> DmShutdown"
  shows "managers_ok own ri (tell_manager ri lid ev s)"
proof (cases "cl_managers s lid")
  case (Some m)
  note ok = managers_okD[OF assms(1) Some]
  have d: "dp_LeaseID (dm_deployment (dm_turn ri m ev)) = lid"
    using assms(2) ok by (cases ev) (simp_all add: dm_turn_deployment)
  have r: "dm_reachable ri (dm_turn ri m ev)" using ok assms(3) by (simp add: dm_reachable_turn)
  show ?thesis
    by (rule managers_ok_upd[OF assms(1) _ d ok[THEN conjunct2, THEN conjunct1] r]) (simp add: tell_manager_def Some)
qed (use assms in \<open>simp add: tell_manager_def\<close>)

lemma start_manager_reachable: "dm_reachable ri (start_manager d)"
  by (simp add: start_manager_def dm_reachable_start)

fun manifest_for :: "string \<Rightarrow> 'i cluster_event \<Rightarrow> bool" where
  "manifest_for own (ClManifest lid m n) = (l_provider lid = own)"
| "manifest_for own _ = True"

lemma cluster_step_managers:
  assumes ok: "managers_ok own ri s" and st: "cluster_step E own ri s ev = Some s'" and own: "manifest_for own ev"
  shows "managers_ok own ri s'"
proof (cases ev)
  case (ClManifest lid m n)
  with st have s': "s' = manifest_received ri lid m n s" by (simp add: cluster_step_def)
  have "l_provider lid = own" using own ClManifest by simp
  show ?thesis
  proof (cases rule: manifest_received_cases[of ri lid m n s])
    case (2 d)
    then show ?thesis using tell_manager_ok[OF ok, of "DmUpdate d" lid] by (simp add: s')
  next
    case (3 d)
    then show ?thesis unfolding s'
      by (intro managers_ok_upd[OF ok _ _ \<open>l_provider lid = own\<close> start_manager_reachable[of ri d]]) simp_all
  qed (use ok in \<open>simp add: s'\<close>)
next
  case (ClManagerDone lid)
  then show ?thesis using ok st
    by (auto simp: cluster_step_def managers_ok_def manager_done_def Let_def split: option.splits if_splits)
next
  case (ClManager lid e)
  then show ?thesis using ok st by (cases "manager_own e") (auto simp: cluster_step_def intro: tell_manager_ok)
next
  case (ClLeaseClosed lid)
  then have "s' = teardownLease own ri lid s" using st by (simp add: cluster_step_def)
  then show ?thesis using ok tell_manager_ok[OF ok, of DmTeardown lid] managers_ok_same[OF ok, of "cl_unreserve lid s"]
    by (simp add: teardownLease_def split: if_splits)
next
  case (ClReclaimStarted lid dl)
  then show ?thesis using ok st tell_manager_ok[OF ok, of "DmReclaim dl" lid] by (simp add: cluster_step_def)
qed (use ok st in \<open>auto simp: cluster_step_def split: option.splits intro: managers_ok_same\<close>)

lemma other_lease: "l_provider a = l_provider b \<Longrightarrow> lease_order_id a = lease_order_id b \<Longrightarrow> a = b"
  by (simp add: lease_order_id_def)

lemma unreserve_reserved: "reserved s L \<Longrightarrow> lease_order_id lid \<noteq> lease_order_id L \<Longrightarrow> reserved (cl_unreserve lid s) L"
  unfolding reserved_held cl_unreserve_def using handle_unreserve_held by fastforce

lemma reserved_simps [simp]:
  "reserved (tell_manager ri lid ev s) L = reserved s L" "reserved (s\<lparr>cl_managers := a\<rparr>) L = reserved s L"
  "reserved (s\<lparr>cl_started := b\<rparr>) L = reserved s L" "reserved (s\<lparr>cl_signal := c\<rparr>) L = reserved s L"
  by (simp_all add: reserved_def)

text \<open>One turn: a managed lease keeps its reservation unless its manager is done.\<close>

lemma cluster_step_reserved:
  assumes ok: "managers_ok own ri s" and st: "cluster_step E own ri s ev = Some s'"
    and E: "env_adjust E = kube_Adjust K" and un: "ev \<noteq> ClInventory (UnreserveReq (lease_order_id L))"
    and L: "reserved s L" "managed s L"
  shows "reserved s' L \<or> (ev = ClManagerDone L \<and> \<not> managed s' L \<and> (\<forall>m. cl_managers s L = Some m \<longrightarrow> dm_state m = dsTeardownComplete))"
proof (cases ev)
  case (ClManifest lid m n)
  with st have "s' = manifest_received ri lid m n s" by (simp add: cluster_step_def)
  then show ?thesis using L(1)
    by (cases rule: manifest_received_cases[of ri lid m n s]) auto
next
  case (ClManagerDone lid)
  show ?thesis
  proof (cases "\<exists>m. cl_managers s lid = Some m \<and> dm_pc m \<noteq> DmLoop")
    case True
    then obtain m where m: "cl_managers s lid = Some m" "dm_pc m \<noteq> DmLoop" by blast
    note okm = managers_okD[OF ok m(1)]
    have comp: "dm_state m = dsTeardownComplete" using dm_reachable_left okm m(2) by blast
    have s': "s' = manager_done m s" using st m ClManagerDone by (simp add: cluster_step_def)
    show ?thesis
    proof (cases "lid = L")
      case True
      then show ?thesis using ClManagerDone comp m okm by (simp add: s' manager_done_def Let_def)
    next
      case False
      from L(2) obtain m2 where "cl_managers s L = Some m2" by blast
      then have "lease_order_id lid \<noteq> lease_order_id L" using False okm managers_okD[OF ok] other_lease by metis
      then show ?thesis using unreserve_reserved[OF L(1)] okm
        by (simp add: s' manager_done_def Let_def)
    qed
  next
    case False
    then show ?thesis using st L(1) ClManagerDone by (auto simp: cluster_step_def split: option.splits if_splits)
  qed
next
  case (ClLeaseClosed lid)
  have s': "s' = teardownLease own ri lid s" using st ClLeaseClosed by (simp add: cluster_step_def)
  have "lease_order_id lid \<noteq> lease_order_id L" if "\<not> managed s lid" "l_provider lid = own"
    using that L(2) managers_okD[OF ok] other_lease by (metis not_None_eq)
  then show ?thesis using L(1) unreserve_reserved[OF L(1)] by (simp add: s' teardownLease_def)
next
  case (ClInventory e)
  obtain name where "held (lease_order_id L) name (cl_inventory s)" using L(1) by (auto simp: reserved_held)
  then have "held (lease_order_id L) name (run_until (inventory_step E) (cl_inventory s) [e])"
    using un ClInventory by (intro kube.run_held[OF E]) simp_all
  then show ?thesis using st ClInventory
    by (auto simp: cluster_step_def reserved_held split: option.splits)
next
  case (ClManager lid e)
  then show ?thesis using st L(1) by (auto simp: cluster_step_def)
next
  case (ClReclaimStarted lid dl)
  then show ?thesis using st L(1) by (auto simp: cluster_step_def)
qed (use st L(1) in \<open>auto simp: cluster_step_def reserved_def\<close>)

lemma tell_manager_managedD: "cl_managers (tell_manager ri lid ev s) l = Some y \<Longrightarrow> managed s l"
  by (metis option.distinct(1) tell_manager_simps(1))

lemma newly_managed_reserved:
  assumes "cluster_step E own ri s ev = Some s'" and "\<not> managed s L" and "managed s' L"
  shows "reserved s' L"
proof (cases ev)
  case (ClManifest lid m n)
  with assms(1) have s': "s' = manifest_received ri lid m n s" by (simp add: cluster_step_def)
  show ?thesis
  proof (cases rule: manifest_received_cases[of ri lid m n s])
    case (3 d)
    moreover have "L = lid" using 3(4) assms(2,3) s' by (auto split: if_splits)
    ultimately show ?thesis using s' by (auto simp: reserved_def)
  qed (use s' assms(2,3) in auto)
next
  case (ClManagerDone lid)
  then show ?thesis using assms by (auto simp: cluster_step_def manager_done_def Let_def split: option.splits if_splits)
qed (use assms in \<open>auto simp: cluster_step_def teardownLease_def dest!: tell_manager_managedD split: if_splits option.splits\<close>)

definition cluster_inv :: "string \<Rightarrow> int \<Rightarrow> lease_id \<Rightarrow> 'i cluster \<Rightarrow> bool" where
  "cluster_inv own ri L s = (managers_ok own ri s \<and> (managed s L \<longrightarrow> reserved s L))"

lemma cluster_step_inv:
  assumes "cluster_inv own ri L s" and "cluster_step E own ri s ev = Some s'" and "manifest_for own ev"
    and "env_adjust E = kube_Adjust K" and "ev \<noteq> ClInventory (UnreserveReq (lease_order_id L))"
  shows "cluster_inv own ri L s'"
  using assms cluster_step_managers[OF _ assms(2,3)] cluster_step_reserved[OF _ assms(2,4,5)] newly_managed_reserved[OF assms(2)]
  unfolding cluster_inv_def by blast

lemma recover_inventory [simp]: "cl_inventory (recover_managers ds s) = cl_inventory s"
  by (induction ds s rule: recover_managers.induct) simp_all

lemma recover_managed: "managed (recover_managers ds s) L \<longleftrightarrow> managed s L \<or> L \<in> (\<lambda>(r, g). d_lease r) ` set ds"
  by (induction ds s rule: recover_managers.induct) auto

lemma recover_managers_ok:
  "managers_ok own ri s \<Longrightarrow> \<forall>(r, g) \<in> set ds. l_provider (d_lease r) = own \<Longrightarrow> managers_ok own ri (recover_managers ds s)"
proof (induction ds s rule: recover_managers.induct)
  case (2 r g ds s)
  let ?m = "start_manager \<lparr>dp_LeaseID = d_lease r, dp_ManifestGroup = g\<rparr>"
  have "managers_ok own ri (s\<lparr>cl_managers := (cl_managers s)(d_lease r \<mapsto> ?m), cl_started := cl_started s @ [d_lease r]\<rparr>)"
    by (rule managers_ok_upd[OF 2(2), of _ "d_lease r" ?m]) (use 2(3) in \<open>simp_all add: start_manager_reachable\<close>)
  then show ?case using 2 by simp
qed simp

lemma new_cluster_inv:
  assumes "\<forall>(r, g) \<in> set ds. l_provider (d_lease r) = own"
  shows "cluster_inv own ri L (newClusterService E ds)"
proof -
  have "managers_ok own ri (newClusterService E ds)"
    unfolding newClusterService_def by (rule recover_managers_ok) (use assms in \<open>simp_all add: managers_ok_def\<close>)
  moreover have "reserved (newClusterService E ds) L" if l: "managed (newClusterService E ds) L"
  proof -
    obtain r g where rg: "(r, g) \<in> set ds" "L = d_lease r"
      using l unfolding newClusterService_def recover_managed by auto
    have "recovered_reservation r \<in> set (s_reservations (newInventoryService E (map fst ds)))"
      using rg(1) by (force simp: newInventoryService_def)
    moreover have "r_order (recovered_reservation r) = lease_order_id L"
      by (simp add: rg(2) recovered_reservation_def newReservation_def Let_def)
    ultimately show ?thesis unfolding reserved_held held_def matches_group_def
      by (auto simp: newClusterService_def)
  qed
  ultimately show ?thesis by (simp add: cluster_inv_def)
qed

lemma cluster_run_inv:
  assumes "env_adjust E = kube_Adjust K" and "\<forall>(r, g) \<in> set ds. l_provider (d_lease r) = own"
    and "\<forall>ev \<in> set evs. manifest_for own ev" and "ClInventory (UnreserveReq (lease_order_id L)) \<notin> set evs"
  shows "cluster_inv own ri L (cluster_run E own ri ds evs)"
  unfolding cluster_run_def
proof (rule run_until_invariant[where I = "cluster_inv own ri L"])
  show "cluster_inv own ri L (newClusterService E ds)" by (rule new_cluster_inv[OF assms(2)])
  fix s ev s' assume i: "cluster_inv own ri L s" and e: "ev \<in> set evs" and st: "cluster_step E own ri s ev = Some s'"
  show "cluster_inv own ri L s'" by (rule cluster_step_inv[OF i st _ assms(1)]) (use e assms(3,4) in auto)
qed

lemma recover_wf: "cluster_wf s \<Longrightarrow> cluster_wf (recover_managers ds s)"
proof (induction ds s rule: recover_managers.induct)
  case (2 r g ds s)
  let ?m = "start_manager \<lparr>dp_LeaseID = d_lease r, dp_ManifestGroup = g\<rparr>"
  have "cluster_wf (s\<lparr>cl_managers := (cl_managers s)(d_lease r \<mapsto> ?m), cl_started := cl_started s @ [d_lease r]\<rparr>)"
    by (rule cluster_wf_upd[OF 2(2), of _ "d_lease r" ?m]) simp_all
  then show ?case using 2 by simp
qed simp

lemma new_cluster_wf: "cluster_wf (newClusterService E ds)"
  unfolding newClusterService_def by (rule recover_wf) (simp add: cluster_wf_def)

lemma distinct_count: "distinct xs \<Longrightarrow> count_list xs x = of_bool (x \<in> set xs)"
  by (induction xs) auto

section \<open>Properties\<close>

text \<open>C3: a lease keeps its capacity as long as its workload may exist. In every run of the cluster
  service over the Kubernetes inventory, recovered and new leases alike, a lease with a
  manager has its reservation (no other client cancelling that order); and the turn that
  gives it back is the end of its manager, which had torn the workload down without error.\<close>

theorem managed_lease_keeps_capacity:
  assumes "env_adjust E = kube_Adjust K" and "\<forall>(r, g) \<in> set ds. l_provider (d_lease r) = own"
    and "\<forall>e \<in> set evs. manifest_for own e" and "ClInventory (UnreserveReq (lease_order_id lid)) \<notin> set (evs @ [ev])"
    and "cl_managers (cluster_run E own ri ds evs) lid = Some m"
    and "cluster_step E own ri (cluster_run E own ri ds evs) ev = Some s'"
  shows "reserved (cluster_run E own ri ds evs) lid \<and>
    (\<not> reserved s' lid \<longrightarrow> ev = ClManagerDone lid \<and> dm_state m = dsTeardownComplete)"
proof -
  have "cluster_inv own ri lid (cluster_run E own ri ds evs)"
    by (rule cluster_run_inv[OF assms(1-3)]) (use assms(4) in simp)
  then have ok: "managers_ok own ri (cluster_run E own ri ds evs)" and r: "reserved (cluster_run E own ri ds evs) lid"
    using assms(5) by (simp_all add: cluster_inv_def)
  have "ev \<noteq> ClInventory (UnreserveReq (lease_order_id lid))" using assms(4) by auto
  from cluster_step_reserved[OF ok assms(6,1) this r] show ?thesis using r assms(5) by auto
qed

text \<open>one manager per lease. In every run of the service the managers started for a lease,
  the one recovered at start-up included, are at most one more than the managers of it that
  ended; a second manifest for a managed lease updates its manager and starts none.\<close>

theorem one_manager_per_lease:
  assumes "distinct (map (\<lambda>(r, g). d_lease r) ds)"
  shows "count_list (cl_started (cluster_run E own ri ds evs)) lid \<le>
    length (filter (\<lambda>ev. finishes ev lid) evs) + of_bool (cl_managers (cluster_run E own ri ds evs) lid \<noteq> None)"
proof -
  have gen: "cl_started (recover_managers ds s) = cl_started s @ map (\<lambda>(r, g). d_lease r) ds" for s :: "'a cluster"
    by (induction ds s rule: recover_managers.induct) simp_all
  have wf: "cluster_wf (newClusterService E ds)" by (rule new_cluster_wf)
  have "count_list (cl_started (newClusterService E ds)) lid = of_bool (managed (newClusterService E ds) lid)"
    unfolding newClusterService_def recover_managed gen using distinct_count[OF assms, of lid] by simp
  then show ?thesis using clusters.run_starts[OF wf, of E own ri evs lid] by (simp add: cluster_run_def)
qed

definition ex_recovered :: "(recovered_deployment \<times> mani_group) list" where
  "ex_recovered = [(\<lparr>d_lease = ex_lease, d_group = GroupSpecVal ''web'' [] [ex_unit 1 1 0 []], d_params = NilParams\<rparr>,
     \<lparr>mg_Name = ''web'', mg_Services = []\<rparr>)]"

theorem one_manager_per_lease_witness:
  "count_list (cl_started (cluster_run (ex_env False) ''p'' 60 ex_recovered
     [ClManifest ex_lease [\<lparr>mg_Name = ''web'', mg_Services = []\<rparr>] ''web''])) ex_lease \<le> 1"
proof -
  have "distinct (map (\<lambda>(r, g). d_lease r) ex_recovered)" by (simp add: ex_recovered_def)
  from one_manager_per_lease[OF this, of "ex_env False" "''p''" 60 "[ClManifest ex_lease [\<lparr>mg_Name = ''web'', mg_Services = []\<rparr>] ''web'']" ex_lease]
  have "count_list (cl_started (cluster_run (ex_env False) ''p'' 60 ex_recovered
      [ClManifest ex_lease [\<lparr>mg_Name = ''web'', mg_Services = []\<rparr>] ''web''])) ex_lease \<le> of_bool (managed (cluster_run (ex_env False) ''p'' 60 ex_recovered
      [ClManifest ex_lease [\<lparr>mg_Name = ''web'', mg_Services = []\<rparr>] ''web'']) ex_lease)" by (simp add: finishes_def)
  also have "\<dots> \<le> 1" by (rule of_bool_less_eq_one)
  finally show ?thesis .
qed

theorem managed_lease_keeps_capacity_witness:
  "reserved (cluster_run (ex_env False) ''p'' 60 ex_recovered []) ex_lease \<and>
   reserved (teardownLease ''p'' 60 ex_lease (cluster_run (ex_env False) ''p'' 60 ex_recovered [])) ex_lease"
proof -
  have "env_adjust (ex_env False) = kube_Adjust ex_sdk" by (simp add: ex_env_def)
  moreover have "\<forall>(r, g) \<in> set ex_recovered. l_provider (d_lease r) = ''p''" by (simp add: ex_recovered_def ex_lease_def)
  moreover have "\<exists>m. cl_managers (cluster_run (ex_env False) ''p'' 60 ex_recovered []) ex_lease = Some m"
    by (simp add: cluster_run_def newClusterService_def ex_recovered_def)
  ultimately show ?thesis
    using managed_lease_keeps_capacity[of "ex_env False" ex_sdk ex_recovered "''p''" "[]" ex_lease "ClLeaseClosed ex_lease" 60]
    by (auto simp: cluster_step_def)
qed

text \<open>C17: a closed lease is released. Whatever has happened before, when the chain closes a lease
  that has a manager, the answers of the manager's tasks and its report lead to a state in
  which the lease has no manager and one reservation of its order has been given back.\<close>

theorem closed_lease_is_released:
  assumes "\<forall>(r, g) \<in> set ds. l_provider (d_lease r) = own" and "\<forall>e \<in> set evs. manifest_for own e"
    and "cl_managers (cluster_run E own ri ds evs) lid = Some m" and "dm_pc m = DmLoop" and "ClShutdown \<notin> set evs"
  shows "let s = cluster_run E own ri ds evs;
             s' = cluster_run E own ri ds (evs @ [ClLeaseClosed lid, ClManager lid DmDeployCall, ClManager lid (DmRun RunOk),
               ClManager lid DmRetryTeardown, ClManager lid (DmRun RunOk), ClManagerDone lid])
         in \<not> managed s' lid \<and> cl_inventory s' = fst (handle_unreserve (cl_inventory s) (lease_order_id lid))"
proof -
  let ?s = "cluster_run E own ri ds evs"
  let ?step = "cluster_step E own ri"
  have total: "\<exists>s'. ?step s e = Some s'" if "e \<noteq> ClShutdown" for s e
    using that by (cases e) (simp_all add: cluster_step_def)
  have app: "cluster_run E own ri ds (evs @ es) = run_until ?step ?s es" for es
    unfolding cluster_run_def by (rule run_until_append) (metis assms(5) total option.distinct(1))
  have "managers_ok own ri ?s"
    unfolding cluster_run_def
  proof (rule run_until_invariant[where I = "managers_ok own ri"])
    show "managers_ok own ri (newClusterService E ds)" using new_cluster_inv[OF assms(1), of ri lid E] by (simp add: cluster_inv_def)
    fix s e s' assume "managers_ok own ri s" "e \<in> set evs" "cluster_step E own ri s e = Some s'"
    then show "managers_ok own ri s'" using assms(2) by (blast intro: cluster_step_managers)
  qed
  note ok = managers_okD[OF this assms(3)]
  obtain d es where m: "m = dm_run ri d es" using ok by (auto simp: dm_reachable_def)
  define m' where "m' = foldl (dm_turn ri) m [DmTeardown, DmDeployCall, DmRun RunOk, DmRetryTeardown, DmRun RunOk]"
  have m': "dm_pc m' = DmLeft" "dp_LeaseID (dm_deployment m') = lid"
  proof -
    show "dm_pc m' = DmLeft" using teardown_completes[of ri d es] assms(4) by (simp add: m m'_def dm_run_def)
    show "dp_LeaseID (dm_deployment m') = lid" using ok by (simp add: m'_def dm_turn_deployment)
  qed
  have "run_until ?step ?s [ClLeaseClosed lid, ClManager lid DmDeployCall, ClManager lid (DmRun RunOk),
      ClManager lid DmRetryTeardown, ClManager lid (DmRun RunOk)] = ?s\<lparr>cl_managers := (cl_managers ?s)(lid \<mapsto> m')\<rparr>"
    using assms(3) by (simp add: cluster_step_def teardownLease_def tell_manager_def m'_def)
  then have "run_until ?step ?s ([ClLeaseClosed lid, ClManager lid DmDeployCall, ClManager lid (DmRun RunOk),
      ClManager lid DmRetryTeardown, ClManager lid (DmRun RunOk)] @ [ClManagerDone lid]) =
      manager_done m' (?s\<lparr>cl_managers := (cl_managers ?s)(lid \<mapsto> m')\<rparr>)"
    by (subst run_until_append) (auto simp: total, simp add: cluster_step_def m')
  then show ?thesis unfolding app Let_def by (simp add: manager_done_def m' cl_unreserve_def Let_def)
qed

theorem closed_lease_is_released_witness:
  "cl_managers (cluster_run (ex_env False) ''p'' 60 ex_recovered [ClLeaseClosed ex_lease, ClManager ex_lease DmDeployCall,
     ClManager ex_lease (DmRun RunOk), ClManager ex_lease DmRetryTeardown, ClManager ex_lease (DmRun RunOk), ClManagerDone ex_lease]) ex_lease = None"
proof -
  obtain m where m: "cl_managers (cluster_run (ex_env False) ''p'' 60 ex_recovered []) ex_lease = Some m" "dm_pc m = DmLoop"
    by (simp add: cluster_run_def newClusterService_def ex_recovered_def start_manager_def startDeploy_def stopMonitor_def newDeploymentManager_def)
  have "\<forall>(r, g) \<in> set ex_recovered. l_provider (d_lease r) = ''p''" by (simp add: ex_recovered_def ex_lease_def)
  from closed_lease_is_released[OF this, of "[]" "ex_env False" 60 ex_lease m] m show ?thesis by (simp add: Let_def)
qed

end
