(* ===== verification/ManifestManager.thy ===== *)
theory ManifestManager
  imports Hostname ManifestData
begin

text \<open>
  The manifest manager of one deployment (\<open>manifest/manager.go\<close>): it collects submitted manifests,
  fetches the deployment and the provider's leases from the chain, validates the requests
  against them, publishes \<open>ManifestReceived\<close> for every lease and answers the requests. The state is
  the struct's fields and \<open>run\<close>'s \<open>runch\<close>; one event is one ready case of the loop. The SDK's manifest
  methods and the chain's answers are parameters. A request is named by a number, its reply
  channel by the log of replies; the times are the readings of the clock.
\<close>

section \<open>Data\<close>

record mreq =
  rq_id :: nat
  rq_mani :: mani

text \<open>The deployment response: owner address (\<open>None\<close> when it does not parse), version hash, groups.\<close>

record 'g deployment_data =
  dd_owner :: "string option"
  dd_Hash :: bytes
  dd_Groups :: 'g

type_synonym lease_won = "lease_id \<times> string"

record 'g mm_env =
  me_Validate :: "mani \<Rightarrow> string option"
  me_Version :: "mani \<Rightarrow> bytes option"
  me_CheckAgainstDeployment :: "mani \<Rightarrow> 'g \<Rightarrow> manifest_error option"
  me_isIngress :: "expose \<Rightarrow> bool"
  me_HTTPServicesRequireAtLeastOneHost :: bool
  me_CachedResultMaxAge :: int

record 'g mm =
  mm_data :: "'g deployment_data option"
  mm_fetchedAt :: int
  mm_localLeases :: "lease_won list"
  mm_requests :: "mreq list"
  mm_pendingRequests :: "mreq list"
  mm_manifests :: "mani list"
  mm_versions :: "bytes list"
  mm_stoptimer :: bool
  mm_runch :: bool
  mm_running :: bool
  mm_replies :: "(nat \<times> manifest_error option) list"
  mm_published :: "(lease_id \<times> mani) list"

definition newManager :: "'g mm" where
  "newManager = \<lparr>mm_data = None, mm_fetchedAt = 0, mm_localLeases = [], mm_requests = [], mm_pendingRequests = [], mm_manifests = [],
     mm_versions = [], mm_stoptimer = False, mm_runch = False, mm_running = True, mm_replies = [], mm_published = []\<rparr>"

text \<open>\<open>fetched\<close> is whether there is data; clearing it clears the leases too.\<close>

abbreviation mm_fetched :: "'g mm \<Rightarrow> bool" where
  "mm_fetched m \<equiv> mm_data m \<noteq> None"

definition clearFetched :: "'g mm \<Rightarrow> 'g mm" where
  "clearFetched m = m\<lparr>mm_fetchedAt := 0, mm_data := None, mm_localLeases := []\<rparr>"

section \<open>Fetching\<close>

text \<open>
  \<open>doFetchData\<close> on the two query responses: every lease is paired with the name of its group; the
  last of several groups with one sequence number counts, and a lease without a group is an error.
\<close>

fun lease_events :: "(u32 \<times> string) list \<Rightarrow> lease_id list \<Rightarrow> lease_won list option" where
  "lease_events groups [] = Some []"
| "lease_events groups (l # ls) =
     (case map_of (rev groups) (l_gseq l) of
        None \<Rightarrow> None
      | Some name \<Rightarrow> (case lease_events groups ls of None \<Rightarrow> None | Some es \<Rightarrow> Some ((l, name) # es)))"

definition doFetchData ::
    "('g deployment_data \<times> (u32 \<times> string) list) option \<Rightarrow> lease_id list option \<Rightarrow> manifest_error + ('g deployment_data \<times> lease_won list)" where
  "doFetchData deploymentResponse leasesResponse =
     (case deploymentResponse of
        None \<Rightarrow> Inl ErrFetch
      | Some (dd, groups) \<Rightarrow>
         (case leasesResponse of
            None \<Rightarrow> Inl ErrFetch
          | Some leases \<Rightarrow> (case lease_events groups leases of None \<Rightarrow> Inl ErrFetch | Some es \<Rightarrow> Inr (dd, es))))"

definition maybeFetchData :: "'g mm_env \<Rightarrow> int \<Rightarrow> 'g mm \<Rightarrow> 'g mm" where
  "maybeFetchData env now m =
     (if mm_runch m then m
      else if \<not> mm_fetched m \<or> now - mm_fetchedAt m > me_CachedResultMaxAge env then (clearFetched m)\<lparr>mm_runch := True\<rparr>
      else m)"

text \<open>
  \<open>maybeScheduleStop\<close>. In the first branch a timer that was still running is stopped and its channel
  is read, which never returns: the manager hangs.
\<close>

definition maybeScheduleStop :: "'g mm \<Rightarrow> 'g mm" where
  "maybeScheduleStop m =
     (if mm_localLeases m \<noteq> [] \<or> mm_manifests m \<noteq> []
      then (if mm_stoptimer m then m\<lparr>mm_running := False, mm_stoptimer := False\<rparr> else m)
      else (if mm_stoptimer m then m\<lparr>mm_stoptimer := True\<rparr> else m))"

section \<open>Requests\<close>

definition reply_all :: "manifest_error option \<Rightarrow> mreq list \<Rightarrow> 'g mm \<Rightarrow> 'g mm" where
  "reply_all e rs m = m\<lparr>mm_replies := mm_replies m @ map (\<lambda>r. (rq_id r, e)) rs\<rparr>"

definition fillAllRequests :: "manifest_error \<Rightarrow> 'g mm \<Rightarrow> 'g mm" where
  "fillAllRequests e m =
     (reply_all (Some e) (mm_requests m) (reply_all (Some e) (mm_pendingRequests m) m))
     \<lparr>mm_pendingRequests := [], mm_requests := []\<rparr>"

definition ingress_without_host :: "'g mm_env \<Rightarrow> mani_group \<Rightarrow> string option" where
  "ingress_without_host env g =
     first_some (\<lambda>s. if list_ex (\<lambda>e. me_isIngress env e \<and> ex_Hosts e = []) (sv_Expose s) then Some (sv_Name s) else None) (mg_Services g)"

text \<open>
  \<open>checkHostnamesForManifest\<close>: a group is visited once per lease with its name; the hostnames
  collected so far do not matter when a service without a required hostname is found.
\<close>

definition leased_groups :: "mani \<Rightarrow> string list \<Rightarrow> mani_group list" where
  "leased_groups m groupNames = concat (map (\<lambda>g. map (\<lambda>n. g) (filter (\<lambda>n. n = mg_Name g) groupNames)) m)"

definition checkHostnamesForManifest ::
    "'g mm_env \<Rightarrow> hostname_service \<Rightarrow> string option \<Rightarrow> mani \<Rightarrow> string list \<Rightarrow> manifest_error option" where
  "checkHostnamesForManifest env hs owner m groupNames =
     (case owner of
        None \<Rightarrow> Some ErrOwnerOfDeployment
      | Some ownerAddr \<Rightarrow>
         (case (if me_HTTPServicesRequireAtLeastOneHost env then first_some (ingress_without_host env) (leased_groups m groupNames) else None) of
            Some s \<Rightarrow> Some (errManifestRejected s)
          | None \<Rightarrow>
             (case CanReserveHostnames hs (concat (map AllHostnamesOfManifestGroup (leased_groups m groupNames))) ownerAddr SelChan of
                Inl e \<Rightarrow> Some ErrHostnameCheck
              | Inr u \<Rightarrow> None)))"

definition versionExpected :: "'g mm \<Rightarrow> 'g deployment_data \<Rightarrow> bytes" where
  "versionExpected m dd = (if mm_versions m \<noteq> [] then last (mm_versions m) else dd_Hash dd)"

definition validateRequest :: "'g mm_env \<Rightarrow> hostname_service \<Rightarrow> bool \<Rightarrow> 'g mm \<Rightarrow> 'g deployment_data \<Rightarrow> mani \<Rightarrow> manifest_error option" where
  "validateRequest env hs ctxDone m dd mf =
     (if ctxDone then Some ErrReqCtx
      else case me_Validate env mf of
        Some e \<Rightarrow> Some (ErrInvalidManifest e)
      | None \<Rightarrow>
         (case validateProxyBufferLimits mf of
            Some e \<Rightarrow> Some e
          | None \<Rightarrow>
             (case me_Version env mf of
                None \<Rightarrow> Some ErrMVersionOf
              | Some version \<Rightarrow>
                  if version \<noteq> versionExpected m dd then Some ErrManifestVersion
                  else (case me_CheckAgainstDeployment env mf (dd_Groups dd) of
                          Some e \<Rightarrow> Some e
                        | None \<Rightarrow> checkHostnamesForManifest env hs (dd_owner dd) mf (map snd (mm_localLeases m))))))"

text \<open>
  One request of \<open>validateRequests\<close>: dropped when its context is done (\<open>fst (ctx id)\<close>), answered with its
  error, or moved to the pending ones; \<open>snd (ctx id)\<close> is the context at the second look.
\<close>

fun validate_each ::
    "'g mm_env \<Rightarrow> hostname_service \<Rightarrow> (nat \<Rightarrow> bool \<times> bool) \<Rightarrow> 'g deployment_data \<Rightarrow> mreq list \<Rightarrow> 'g mm \<Rightarrow> mani list \<Rightarrow> 'g mm \<times> mani list" where
  "validate_each env hs ctx dd [] m ms = (m, ms)"
| "validate_each env hs ctx dd (r # rs) m ms =
     (if fst (ctx (rq_id r)) then validate_each env hs ctx dd rs m ms
      else case validateRequest env hs (snd (ctx (rq_id r))) m dd (rq_mani r) of
             Some e \<Rightarrow> validate_each env hs ctx dd rs (reply_all (Some e) [r] m) ms
           | None \<Rightarrow> validate_each env hs ctx dd rs (m\<lparr>mm_pendingRequests := mm_pendingRequests m @ [r]\<rparr>) (ms @ [rq_mani r]))"

definition validateRequests :: "'g mm_env \<Rightarrow> hostname_service \<Rightarrow> (nat \<Rightarrow> bool \<times> bool) \<Rightarrow> 'g mm \<Rightarrow> 'g mm" where
  "validateRequests env hs ctx m =
     (case mm_data m of
        None \<Rightarrow> m
      | Some dd \<Rightarrow>
          if mm_requests m = [] then m
          else (let (m1, ms) = validate_each env hs ctx dd (mm_requests m) m [];
                    m2 = m1\<lparr>mm_requests := []\<rparr>
                in case ms of [] \<Rightarrow> m2 | x # xs \<Rightarrow> m2\<lparr>mm_manifests := mm_manifests m2 @ [x]\<rparr>))"

definition emitReceivedEvents :: "'g mm \<Rightarrow> 'g mm" where
  "emitReceivedEvents m =
     (if \<not> mm_fetched m \<or> mm_manifests m = [] then m
      else if mm_localLeases m = [] then fillAllRequests ErrNoLeaseForDeployment m
      else (reply_all None (mm_pendingRequests m)
              (m\<lparr>mm_published := mm_published m @ map (\<lambda>(l, n). (l, last (mm_manifests m))) (mm_localLeases m)\<rparr>))
           \<lparr>mm_pendingRequests := []\<rparr>)"

section \<open>The loop\<close>

datatype 'g mm_event =
    MmShutdown
  | MmStopTimer
  | MmLease int
  | MmRemoveLease
  | MmManifest mreq int hostname_service "nat \<Rightarrow> bool \<times> bool"
  | MmUpdate bytes
  | MmFetched "manifest_error + ('g deployment_data \<times> lease_won list)" int hostname_service "nat \<Rightarrow> bool \<times> bool"

definition mm_finish :: "'g mm \<Rightarrow> 'g mm" where
  "mm_finish m = (fillAllRequests ErrMNotRunning m)\<lparr>mm_running := False\<rparr>"

text \<open>A request that reaches a manager which is shutting down is refused by \<open>handleManifest\<close>.\<close>

definition refuse :: "'g mm_event \<Rightarrow> 'g mm \<Rightarrow> 'g mm" where
  "refuse ev m = (case ev of MmManifest req now hs ctx \<Rightarrow> reply_all (Some ErrMNotRunning) [req] m | _ \<Rightarrow> m)"

definition mm_turn :: "'g mm_env \<Rightarrow> 'g mm \<Rightarrow> 'g mm_event \<Rightarrow> 'g mm" where
  "mm_turn env m ev =
     (if \<not> mm_running m then refuse ev m else
      case ev of
        MmShutdown \<Rightarrow> mm_finish m
      | MmStopTimer \<Rightarrow> if mm_stoptimer m then mm_finish m else m
      | MmLease now \<Rightarrow> maybeFetchData env now (maybeScheduleStop (clearFetched m))
      | MmRemoveLease \<Rightarrow> maybeScheduleStop (clearFetched m)
      | MmManifest req now hs ctx \<Rightarrow>
          (let m1 = maybeFetchData env now (maybeScheduleStop (m\<lparr>mm_requests := mm_requests m @ [req]\<rparr>))
           in if mm_runch m1 then m1 else emitReceivedEvents (validateRequests env hs ctx m1))
      | MmUpdate version \<Rightarrow> clearFetched (m\<lparr>mm_versions := mm_versions m @ [version]\<rparr>)
      | MmFetched result now hs ctx \<Rightarrow>
          if \<not> mm_runch m then m
          else (let m1 = m\<lparr>mm_runch := False\<rparr> in
                case result of
                  Inl e \<Rightarrow> fillAllRequests e m1
                | Inr (dd, leases) \<Rightarrow>
                    maybeScheduleStop (emitReceivedEvents (validateRequests env hs ctx
                      (m1\<lparr>mm_data := Some dd, mm_fetchedAt := now, mm_localLeases := leases\<rparr>)))))"

definition mm_run :: "'g mm_env \<Rightarrow> 'g mm_event list \<Rightarrow> 'g mm" where
  "mm_run env evs = foldl (mm_turn env) newManager evs"

section \<open>Lemmas\<close>

definition ids :: "mreq list \<Rightarrow> nat \<Rightarrow> nat" where
  "ids rs i = count_list (map rq_id rs) i"

definition replied :: "'g mm \<Rightarrow> nat \<Rightarrow> nat" where
  "replied m i = count_list (map fst (mm_replies m)) i"

lemma ids_simps [simp]: "ids [] i = 0" "ids (a @ b) i = ids a i + ids b i" "ids (r # rs) i = of_bool (rq_id r = i) + ids rs i"
  by (simp_all add: ids_def)

lemma replied_reply_all [simp]: "replied (reply_all e rs m) i = replied m i + ids rs i"
  by (simp add: replied_def reply_all_def ids_def comp_def)

lemma reply_all_keeps [simp]:
  "mm_data (reply_all e rs m) = mm_data m" "mm_localLeases (reply_all e rs m) = mm_localLeases m"
  "mm_requests (reply_all e rs m) = mm_requests m" "mm_pendingRequests (reply_all e rs m) = mm_pendingRequests m"
  "mm_manifests (reply_all e rs m) = mm_manifests m" "mm_versions (reply_all e rs m) = mm_versions m"
  "mm_stoptimer (reply_all e rs m) = mm_stoptimer m" "mm_runch (reply_all e rs m) = mm_runch m"
  "mm_running (reply_all e rs m) = mm_running m" "mm_published (reply_all e rs m) = mm_published m"
  "mm_replies (reply_all e rs m) = mm_replies m @ map (\<lambda>r. (rq_id r, e)) rs"
  by (simp_all add: reply_all_def)

lemma replied_same: "mm_replies m' = mm_replies m \<Longrightarrow> replied m' i = replied m i"
  by (simp add: replied_def)

text \<open>What a walk over the requests changes.\<close>

lemma validate_each_keeps:
  assumes "validate_each env hs ctx dd rs m ms = (m', ms')"
  shows "mm_data m' = mm_data m \<and> mm_localLeases m' = mm_localLeases m \<and> mm_requests m' = mm_requests m \<and>
    mm_manifests m' = mm_manifests m \<and> mm_versions m' = mm_versions m \<and> mm_stoptimer m' = mm_stoptimer m \<and>
    mm_runch m' = mm_runch m \<and> mm_running m' = mm_running m \<and> mm_published m' = mm_published m"
  using assms
proof (induction rs arbitrary: m ms)
  case (Cons r rs)
  show ?case
    using Cons.prems Cons.IH[of m ms] Cons.IH[of "reply_all _ [r] m" ms] Cons.IH[of "m\<lparr>mm_pendingRequests := mm_pendingRequests m @ [r]\<rparr>" "ms @ [rq_mani r]"]
    by (cases "fst (ctx (rq_id r))"; cases "validateRequest env hs (snd (ctx (rq_id r))) m dd (rq_mani r)") simp_all
qed simp

lemma validate_each_count:
  assumes "validate_each env hs ctx dd rs m ms = (m', ms')"
  shows "replied m' i + ids (mm_pendingRequests m') i =
    replied m i + ids (mm_pendingRequests m) i + (if fst (ctx i) then 0 else ids rs i)"
  using assms
proof (induction rs arbitrary: m ms)
  case (Cons r rs)
  have [simp]: "replied (m\<lparr>mm_pendingRequests := x\<rparr>) i = replied m i" for x by (simp add: replied_def)
  show ?case
    using Cons.prems Cons.IH[of m ms] Cons.IH[of "reply_all _ [r] m" ms] Cons.IH[of "m\<lparr>mm_pendingRequests := mm_pendingRequests m @ [r]\<rparr>" "ms @ [rq_mani r]"]
    by (cases "fst (ctx (rq_id r))"; cases "validateRequest env hs (snd (ctx (rq_id r))) m dd (rq_mani r)") auto
qed simp

text \<open>The requests that pass: pending ones and collected manifests correspond.\<close>

definition accepted :: "'g mm_env \<Rightarrow> bytes \<Rightarrow> mani \<Rightarrow> bool" where
  "accepted env v mf = (me_Validate env mf = None \<and> validateProxyBufferLimits mf = None \<and> me_Version env mf = Some v)"

lemma versionExpected_keeps [simp]:
  "versionExpected (m\<lparr>mm_pendingRequests := x\<rparr>) dd = versionExpected m dd" "versionExpected (reply_all e rs m) dd = versionExpected m dd"
  "versionExpected (m\<lparr>mm_requests := y\<rparr>) dd = versionExpected m dd"
  by (simp_all add: versionExpected_def reply_all_def)

lemma validateRequest_accepted: "validateRequest env hs c m dd mf = None \<Longrightarrow> accepted env (versionExpected m dd) mf"
  by (simp add: validateRequest_def accepted_def split: if_splits option.splits)

lemma validate_each_pending:
  assumes "validate_each env hs ctx dd rs m ms = (m', ms')"
  shows "\<exists>ok. mm_pendingRequests m' = mm_pendingRequests m @ ok \<and> ms' = ms @ map rq_mani ok \<and> set ok \<subseteq> set rs \<and>
    (\<forall>r \<in> set ok. accepted env (versionExpected m dd) (rq_mani r))"
  using assms
proof (induction rs arbitrary: m ms)
  case (Cons r rs)
  show ?case
  proof (cases "fst (ctx (rq_id r))")
    case True
    then show ?thesis using Cons.prems Cons.IH[of m ms] by (auto; metis subset_insertI2)
  next
    case False
    note f = this
    show ?thesis
    proof (cases "validateRequest env hs (snd (ctx (rq_id r))) m dd (rq_mani r)")
      case None
      let ?m = "m\<lparr>mm_pendingRequests := mm_pendingRequests m @ [r]\<rparr>"
      have "validate_each env hs ctx dd rs ?m (ms @ [rq_mani r]) = (m', ms')" using Cons.prems f None by simp
      from Cons.IH[OF this] obtain ok where
        ok: "mm_pendingRequests m' = mm_pendingRequests m @ [r] @ ok" "ms' = ms @ [rq_mani r] @ map rq_mani ok" "set ok \<subseteq> set rs"
          "\<forall>r \<in> set ok. accepted env (versionExpected m dd) (rq_mani r)" by auto
      then show ?thesis using validateRequest_accepted[OF None] by (intro exI[of _ "r # ok"]) auto
    next
      case (Some e)
      have "validate_each env hs ctx dd rs (reply_all (Some e) [r] m) ms = (m', ms')" using Cons.prems f Some by simp
      from Cons.IH[OF this] show ?thesis by (auto; metis subset_insertI2)
    qed
  qed
qed (simp add: exI[of _ "[]"])

text \<open>Validation and emission together, the way the loop calls them.\<close>

definition settle :: "'g mm_env \<Rightarrow> hostname_service \<Rightarrow> (nat \<Rightarrow> bool \<times> bool) \<Rightarrow> 'g mm \<Rightarrow> 'g mm" where
  "settle env hs ctx m = emitReceivedEvents (validateRequests env hs ctx m)"

text \<open>The outcome of validation: the requests that passed, and at most one new manifest.\<close>

lemma validateRequests_cases:
  assumes "mm_data m = Some dd" and "mm_pendingRequests m = []" and "n = validateRequests env hs ctx m"
  obtains ok where "mm_requests n = []"
    and "mm_pendingRequests n = ok" and "set ok \<subseteq> set (mm_requests m)"
    and "\<forall>r \<in> set ok. accepted env (versionExpected m dd) (rq_mani r)"
    and "mm_manifests n = mm_manifests m @ (case ok of [] \<Rightarrow> [] | r # rs \<Rightarrow> [rq_mani r])"
    and "\<forall>i. replied n i + ids ok i = replied m i + (if fst (ctx i) then 0 else ids (mm_requests m) i)"
    and "\<forall>i. (i, None) \<in> set (mm_replies n) \<longleftrightarrow> (i, None) \<in> set (mm_replies m)"
    and "mm_data n = Some dd" and "mm_localLeases n = mm_localLeases m"
    and "mm_versions n = mm_versions m" and "mm_stoptimer n = mm_stoptimer m"
    and "mm_runch n = mm_runch m" and "mm_running n = mm_running m"
    and "mm_published n = mm_published m"
proof (cases "mm_requests m = []")
  case True
  then have "n = m" using assms(1,3) by (simp add: validateRequests_def)
  then show ?thesis using that[of "[]"] assms True by simp
next
  case False
  obtain m1 ms where v: "validate_each env hs ctx dd (mm_requests m) m [] = (m1, ms)" by force
  note k = validate_each_keeps[OF v]
  from validate_each_pending[OF v] obtain ok where
    ok: "mm_pendingRequests m1 = ok" "ms = map rq_mani ok" "set ok \<subseteq> set (mm_requests m)"
      "\<forall>r \<in> set ok. accepted env (versionExpected m dd) (rq_mani r)" using assms(2) by auto
  have nones: "validate_each env hs ctx dd rs n xs = (n', xs') \<Longrightarrow> (i, None) \<in> set (mm_replies n') \<longleftrightarrow> (i, None) \<in> set (mm_replies n)"
    for rs n xs n' xs' i
    by (induction rs arbitrary: n xs) (auto split: if_splits option.splits)
  have vr: "n =
      (case ms of [] \<Rightarrow> m1\<lparr>mm_requests := []\<rparr> | x # xs \<Rightarrow> m1\<lparr>mm_requests := [], mm_manifests := mm_manifests m1 @ [x]\<rparr>)"
    using assms(1,3) False by (simp add: validateRequests_def v split: list.split)
  have "replied n i = replied m1 i" for i by (simp add: vr replied_def split: list.split)
  then show ?thesis
    using validate_each_count[OF v] nones[OF v] ok k assms(1,2)
    by (intro that[of ok]) (simp_all add: vr split: list.split)
qed

lemma settle_spec:
  assumes "mm_data m = Some dd" and "mm_pendingRequests m = []"
  shows "mm_requests (settle env hs ctx m) = []" and "mm_pendingRequests (settle env hs ctx m) = []"
    and "replied (settle env hs ctx m) i = replied m i + (if fst (ctx i) then 0 else ids (mm_requests m) i)"
    and "\<forall>x \<in> set (mm_manifests (settle env hs ctx m)). x \<in> set (mm_manifests m) \<or> accepted env (versionExpected m dd) x"
    and "\<forall>(l, x) \<in> set (mm_published (settle env hs ctx m)).
      (l, x) \<in> set (mm_published m) \<or> l \<in> fst ` set (mm_localLeases m) \<and> x \<in> set (mm_manifests (settle env hs ctx m))"
    and "set (mm_published m) \<subseteq> set (mm_published (settle env hs ctx m))"
    and "\<forall>i. (i, None) \<in> set (mm_replies (settle env hs ctx m)) \<longrightarrow> (i, None) \<in> set (mm_replies m) \<or>
      (\<exists>r \<in> set (mm_requests m). rq_id r = i \<and> (\<exists>(l, x) \<in> set (mm_published (settle env hs ctx m)). me_Version env x = me_Version env (rq_mani r)))"
    and "mm_data (settle env hs ctx m) = Some dd" and "mm_localLeases (settle env hs ctx m) = mm_localLeases m"
    and "mm_versions (settle env hs ctx m) = mm_versions m" and "mm_stoptimer (settle env hs ctx m) = mm_stoptimer m"
    and "mm_runch (settle env hs ctx m) = mm_runch m" and "mm_running (settle env hs ctx m) = mm_running m"
proof -
  define m1 where "m1 = validateRequests env hs ctx m"
  obtain ok where ok: "mm_requests m1 = []" "mm_pendingRequests m1 = ok" "set ok \<subseteq> set (mm_requests m)"
      "\<forall>r \<in> set ok. accepted env (versionExpected m dd) (rq_mani r)"
      "mm_manifests m1 = mm_manifests m @ (case ok of [] \<Rightarrow> [] | r # rs \<Rightarrow> [rq_mani r])"
      "\<forall>i. replied m1 i + ids ok i = replied m i + (if fst (ctx i) then 0 else ids (mm_requests m) i)"
      "\<forall>i. (i, None) \<in> set (mm_replies m1) \<longleftrightarrow> (i, None) \<in> set (mm_replies m)"
      "mm_data m1 = Some dd" "mm_localLeases m1 = mm_localLeases m" "mm_versions m1 = mm_versions m" "mm_stoptimer m1 = mm_stoptimer m"
      "mm_runch m1 = mm_runch m" "mm_running m1 = mm_running m" "mm_published m1 = mm_published m"
    by (rule validateRequests_cases[OF assms m1_def])
  have st: "settle env hs ctx m =
      (if mm_manifests m1 = [] then m1 else if mm_localLeases m = [] then fillAllRequests ErrNoLeaseForDeployment m1
       else (reply_all None ok (m1\<lparr>mm_published := mm_published m @ map (\<lambda>(l, n). (l, last (mm_manifests m1))) (mm_localLeases m)\<rparr>))
         \<lparr>mm_pendingRequests := []\<rparr>)"
    by (simp add: settle_def emitReceivedEvents_def m1_def[symmetric] ok)
  have none: "ok = []" if "mm_manifests m1 = []" using that ok(5) by (cases ok) simp_all
  have man: "mm_manifests (settle env hs ctx m) = mm_manifests m1" by (simp add: st fillAllRequests_def)
  have pub: "mm_published (settle env hs ctx m) = mm_published m @
      (if mm_manifests m1 = [] then [] else map (\<lambda>(l, n). (l, last (mm_manifests m1))) (mm_localLeases m))"
    by (simp add: st fillAllRequests_def ok)
  show "mm_requests (settle env hs ctx m) = []" "mm_data (settle env hs ctx m) = Some dd"
    "mm_localLeases (settle env hs ctx m) = mm_localLeases m"
    "mm_versions (settle env hs ctx m) = mm_versions m" "mm_stoptimer (settle env hs ctx m) = mm_stoptimer m"
    "mm_runch (settle env hs ctx m) = mm_runch m" "mm_running (settle env hs ctx m) = mm_running m"
    by (simp_all add: st fillAllRequests_def ok)
  show "mm_pendingRequests (settle env hs ctx m) = []" using none by (simp add: st fillAllRequests_def ok)
  have [simp]: "replied (m\<lparr>mm_pendingRequests := x\<rparr>) i = replied m i" "replied (m\<lparr>mm_requests := y\<rparr>) i = replied m i"
    "replied (m\<lparr>mm_published := z\<rparr>) i = replied m i" for m :: "'a mm" and x y z by (simp_all add: replied_def)
  show "replied (settle env hs ctx m) i = replied m i + (if fst (ctx i) then 0 else ids (mm_requests m) i)"
    using ok(6)[rule_format, of i] none by (auto simp: st fillAllRequests_def ok(1,2))
  show "\<forall>x \<in> set (mm_manifests (settle env hs ctx m)). x \<in> set (mm_manifests m) \<or> accepted env (versionExpected m dd) x"
    unfolding man ok(5) using ok(4) by (cases ok) auto
  show "\<forall>(l, x) \<in> set (mm_published (settle env hs ctx m)).
      (l, x) \<in> set (mm_published m) \<or> l \<in> fst ` set (mm_localLeases m) \<and> x \<in> set (mm_manifests (settle env hs ctx m))"
    unfolding man pub by (auto split: if_splits) force
  show "set (mm_published m) \<subseteq> set (mm_published (settle env hs ctx m))" unfolding pub by simp
  show "\<forall>i. (i, None) \<in> set (mm_replies (settle env hs ctx m)) \<longrightarrow> (i, None) \<in> set (mm_replies m) \<or>
      (\<exists>r \<in> set (mm_requests m). rq_id r = i \<and> (\<exists>(l, x) \<in> set (mm_published (settle env hs ctx m)). me_Version env x = me_Version env (rq_mani r)))"
  proof (intro allI impI)
    fix i assume i: "(i, None) \<in> set (mm_replies (settle env hs ctx m))"
    show "(i, None) \<in> set (mm_replies m) \<or>
      (\<exists>r \<in> set (mm_requests m). rq_id r = i \<and> (\<exists>(l, x) \<in> set (mm_published (settle env hs ctx m)). me_Version env x = me_Version env (rq_mani r)))"
    proof (cases "(i, None) \<in> set (mm_replies m)")
      case False
      then have ne: "mm_manifests m1 \<noteq> []" "mm_localLeases m \<noteq> []" and "i \<in> rq_id ` set ok"
        using i ok(7) by (auto simp: st fillAllRequests_def split: if_splits)
      then obtain r where r: "r \<in> set ok" "rq_id r = i" by auto
      then obtain r0 rs where o: "ok = r0 # rs" by (cases ok) auto
      then have "me_Version env (last (mm_manifests m1)) = me_Version env (rq_mani r)"
        using ok(4,5) r(1) by (auto simp: accepted_def)
      moreover obtain l n where "(l, n) \<in> set (mm_localLeases m)" using ne(2) by (metis list.set_intros(1) neq_Nil_conv surj_pair)
      then have "(l, last (mm_manifests m1)) \<in> set (mm_published (settle env hs ctx m))" unfolding pub using ne(1) by force
      ultimately show ?thesis using r ok(3) by blast
    qed simp
  qed
qed

text \<open>What the chain announced to the manager, over a set \<open>E\<close> of events.\<close>

definition announced :: "'g mm_event set \<Rightarrow> bytes set" where
  "announced E = {v. MmUpdate v \<in> E} \<union> {v. \<exists>dd ls now hs ctx. MmFetched (Inr (dd, ls)) now hs ctx \<in> E \<and> v = dd_Hash dd}"

definition leased :: "'g mm_event set \<Rightarrow> lease_id set" where
  "leased E = {l. \<exists>dd ls now hs ctx. MmFetched (Inr (dd, ls)) now hs ctx \<in> E \<and> l \<in> fst ` set ls}"

definition submitted :: "'g mm_event set \<Rightarrow> mreq set" where
  "submitted E = {r. \<exists>now hs ctx. MmManifest r now hs ctx \<in> E}"

text \<open>The manifests an event set can publish.\<close>

definition publishable :: "'g mm_env \<Rightarrow> 'g mm_event set \<Rightarrow> mani \<Rightarrow> bool" where
  "publishable env E x = (\<exists>v \<in> announced E. accepted env v x)"

definition mm_inv :: "'g mm_env \<Rightarrow> 'g mm_event set \<Rightarrow> 'g mm \<Rightarrow> bool" where
  "mm_inv env E m =
     (mm_pendingRequests m = [] \<and> (mm_requests m \<noteq> [] \<longrightarrow> mm_runch m \<and> mm_running m) \<and> \<not> mm_stoptimer m \<and>
      set (mm_requests m) \<subseteq> submitted E \<and> (\<forall>dd. mm_data m = Some dd \<longrightarrow> dd_Hash dd \<in> announced E) \<and>
      set (mm_versions m) \<subseteq> announced E \<and> fst ` set (mm_localLeases m) \<subseteq> leased E \<and>
      (\<forall>x \<in> set (mm_manifests m). publishable env E x) \<and>
      (\<forall>(l, x) \<in> set (mm_published m). l \<in> leased E \<and> publishable env E x) \<and>
      (\<forall>i. (i, None) \<in> set (mm_replies m) \<longrightarrow>
        (\<exists>r \<in> submitted E. rq_id r = i \<and> (\<exists>(l, x) \<in> set (mm_published m). me_Version env x = me_Version env (rq_mani r)))))"

lemma expected_announced:
  "mm_inv env E m \<Longrightarrow> mm_data m = Some dd \<Longrightarrow> versionExpected m dd \<in> announced E"
  by (auto simp: mm_inv_def versionExpected_def dest: last_in_set)

lemma settle_inv:
  assumes "mm_pendingRequests m = []" and "\<not> mm_stoptimer m" and "set (mm_requests m) \<subseteq> submitted E"
    and "mm_data m = Some dd" and "versionExpected m dd \<in> announced E" and "dd_Hash dd \<in> announced E" and "set (mm_versions m) \<subseteq> announced E"
    and "fst ` set (mm_localLeases m) \<subseteq> leased E" and "\<forall>x \<in> set (mm_manifests m). publishable env E x"
    and "\<forall>(l, x) \<in> set (mm_published m). l \<in> leased E \<and> publishable env E x"
    and "\<forall>i. (i, None) \<in> set (mm_replies m) \<longrightarrow>
        (\<exists>r \<in> submitted E. rq_id r = i \<and> (\<exists>(l, x) \<in> set (mm_published m). me_Version env x = me_Version env (rq_mani r)))"
  shows "mm_inv env E (settle env hs ctx m)"
proof -
  note sp = settle_spec[OF assms(4,1), where env = env and hs = hs and ctx = ctx]
  have man: "\<forall>x \<in> set (mm_manifests (settle env hs ctx m)). publishable env E x"
    using sp(4) assms(5,9) by (auto simp: publishable_def)
  have "\<forall>(l, x) \<in> set (mm_published (settle env hs ctx m)). l \<in> leased E \<and> publishable env E x"
    using sp(5) man assms(8,10) by fast
  moreover have "\<forall>i. (i, None) \<in> set (mm_replies (settle env hs ctx m)) \<longrightarrow>
      (\<exists>r \<in> submitted E. rq_id r = i \<and> (\<exists>(l, x) \<in> set (mm_published (settle env hs ctx m)). me_Version env x = me_Version env (rq_mani r)))"
  proof (intro allI impI)
    fix i assume "(i, None) \<in> set (mm_replies (settle env hs ctx m))"
    then consider "(i, None) \<in> set (mm_replies m)"
      | r l x where "r \<in> set (mm_requests m)" "rq_id r = i" "(l, x) \<in> set (mm_published (settle env hs ctx m))"
          "me_Version env x = me_Version env (rq_mani r)" using sp(7) by blast
    then show "\<exists>r \<in> submitted E. rq_id r = i \<and> (\<exists>(l, x) \<in> set (mm_published (settle env hs ctx m)). me_Version env x = me_Version env (rq_mani r))"
    proof cases
      case 1
      then show ?thesis using assms(11) sp(6) by blast
    next
      case 2
      then show ?thesis using assms(3) by blast
    qed
  qed
  ultimately show ?thesis unfolding mm_inv_def
    using sp(1,2,8-11) man assms(2,6-8) by simp
qed

lemma fillAll_inv: "mm_inv env E m \<Longrightarrow> mm_inv env E (fillAllRequests e m)"
  by (auto simp: mm_inv_def fillAllRequests_def)

lemma schedule_noop: "\<not> mm_stoptimer m \<Longrightarrow> maybeScheduleStop m = m"
  by (simp add: maybeScheduleStop_def)

lemma clear_inv: "mm_inv env E m \<Longrightarrow> mm_inv env E (clearFetched m)"
  by (auto simp: mm_inv_def clearFetched_def)

lemma mm_turn_inv:
  assumes "mm_inv env E m" and "ev \<in> E"
  shows "mm_inv env E (mm_turn env m ev)"
proof (cases "mm_running m")
  case True
  note st = assms(1)[unfolded mm_inv_def, THEN conjunct2, THEN conjunct2, THEN conjunct1]
  show ?thesis
  proof (cases ev)
    case (MmManifest req now hs ctx)
    let ?m = "m\<lparr>mm_requests := mm_requests m @ [req]\<rparr>"
    have sub: "set (mm_requests ?m) \<subseteq> submitted E" using assms MmManifest by (auto simp: mm_inv_def submitted_def)
    show ?thesis
    proof (cases "mm_runch (maybeFetchData env now ?m)")
      case run: True
      then show ?thesis using assms(1) sub True MmManifest st
        by (auto simp: mm_turn_def Let_def schedule_noop mm_inv_def maybeFetchData_def clearFetched_def)
    next
      case run: False
      then have same: "maybeFetchData env now ?m = ?m" and "mm_data m \<noteq> None" by (auto simp: maybeFetchData_def split: if_splits)
      then obtain dd where dd: "mm_data m = Some dd" by blast
      have v: "versionExpected ?m dd \<in> announced E" using expected_announced[OF assms(1) dd] by simp
      have "mm_inv env E (settle env hs ctx ?m)"
        using assms(1) dd v sub by (intro settle_inv[of _ E dd]) (auto simp: mm_inv_def)
      then show ?thesis using run True MmManifest same st by (simp add: mm_turn_def schedule_noop settle_def)
    qed
  next
    case (MmFetched result now hs ctx)
    show ?thesis
    proof (cases "mm_runch m")
      case run: True
      show ?thesis
      proof (cases result)
        case (Inl e)
        have "mm_inv env E (fillAllRequests e (m\<lparr>mm_runch := False\<rparr>))" using assms(1) by (auto simp: mm_inv_def fillAllRequests_def)
        then show ?thesis using MmFetched True run Inl by (simp add: mm_turn_def)
      next
        case (Inr p)
        obtain dd ls where p: "p = (dd, ls)" by force
        let ?m = "m\<lparr>mm_runch := False, mm_data := Some dd, mm_fetchedAt := now, mm_localLeases := ls\<rparr>"
        have e: "MmFetched (Inr (dd, ls)) now hs ctx \<in> E" using assms(2) MmFetched Inr p by simp
        then have a: "dd_Hash dd \<in> announced E" "fst ` set ls \<subseteq> leased E"
          unfolding announced_def leased_def by blast+
        have "set (mm_versions m) \<subseteq> announced E" using assms(1) by (simp add: mm_inv_def)
        then have v: "versionExpected ?m dd \<in> announced E"
          using a(1) subsetD[OF _ last_in_set] by (cases "mm_versions m = []") (simp_all add: versionExpected_def subsetD[OF _ last_in_set])
        have i: "mm_inv env E (settle env hs ctx ?m)"
          using assms(1) a v by (intro settle_inv[of _ E dd]) (auto simp: mm_inv_def)
        then have "\<not> mm_stoptimer (settle env hs ctx ?m)" by (simp add: mm_inv_def)
        then show ?thesis using i MmFetched True run Inr p by (simp add: mm_turn_def settle_def schedule_noop)
      qed
    qed (use assms True MmFetched in \<open>simp add: mm_turn_def\<close>)
  next
    case (MmUpdate v)
    then show ?thesis using assms True by (auto simp: mm_turn_def mm_inv_def clearFetched_def announced_def)
  next
    case (MmLease now)
    then show ?thesis using assms True st by (auto simp: mm_turn_def mm_inv_def clearFetched_def maybeFetchData_def schedule_noop)
  next
    case MmRemoveLease
    then show ?thesis using assms True st by (auto simp: mm_turn_def mm_inv_def clearFetched_def schedule_noop)
  next
    case MmShutdown
    then show ?thesis using assms True by (auto simp: mm_turn_def mm_finish_def mm_inv_def fillAllRequests_def)
  next
    case MmStopTimer
    then show ?thesis using assms True st by (simp add: mm_turn_def)
  qed
next
  case False
  then show ?thesis using assms by (cases ev) (auto simp: mm_turn_def refuse_def mm_inv_def)
qed

lemma mm_run_inv: "mm_inv env (set evs) (mm_run env evs)"
  unfolding mm_run_def
  by (rule foldl_invariant[where I = "mm_inv env (set evs)"]) (simp add: mm_inv_def newManager_def, rule mm_turn_inv)

text \<open>Accounting: every submitted request is answered, or still waits.\<close>

fun submits :: "'g mm_event \<Rightarrow> nat \<Rightarrow> nat" where
  "submits (MmManifest r now hs ctx) i = of_bool (rq_id r = i)"
| "submits _ i = 0"

fun ctx_alive :: "nat \<Rightarrow> 'g mm_event \<Rightarrow> bool" where
  "ctx_alive i (MmManifest r now hs ctx) = (\<not> fst (ctx i))"
| "ctx_alive i (MmFetched res now hs ctx) = (\<not> fst (ctx i))"
| "ctx_alive i _ = True"

definition accounted :: "'g mm \<Rightarrow> nat \<Rightarrow> nat" where
  "accounted m i = replied m i + ids (mm_requests m) i"

lemma replied_upd [simp]:
  "replied (m\<lparr>mm_pendingRequests := a\<rparr>) i = replied m i" "replied (m\<lparr>mm_requests := b\<rparr>) i = replied m i"
  "replied (m\<lparr>mm_runch := c\<rparr>) i = replied m i" "replied (m\<lparr>mm_running := d\<rparr>) i = replied m i"
  "replied (m\<lparr>mm_versions := e\<rparr>) i = replied m i" "replied (m\<lparr>mm_data := f\<rparr>) i = replied m i"
  "replied (m\<lparr>mm_fetchedAt := g\<rparr>) i = replied m i" "replied (m\<lparr>mm_localLeases := h\<rparr>) i = replied m i"
  by (simp_all add: replied_def)

lemma mm_turn_count:
  assumes "mm_inv env E m"
  shows "accounted (mm_turn env m ev) i \<le> accounted m i + submits ev i \<and>
    (ctx_alive i ev \<longrightarrow> accounted (mm_turn env m ev) i = accounted m i + submits ev i)"
proof (cases "mm_running m")
  case True
  have st: "\<not> mm_stoptimer m" and pend: "mm_pendingRequests m = []" using assms by (simp_all add: mm_inv_def)
  show ?thesis
  proof (cases ev)
    case (MmManifest req now hs ctx)
    let ?m = "m\<lparr>mm_requests := mm_requests m @ [req]\<rparr>"
    show ?thesis
    proof (cases "mm_runch (maybeFetchData env now ?m)")
      case run: True
      then show ?thesis using True MmManifest st
        by (auto simp: mm_turn_def accounted_def schedule_noop maybeFetchData_def clearFetched_def)
    next
      case run: False
      then have same: "maybeFetchData env now ?m = ?m" and "mm_data m \<noteq> None" by (auto simp: maybeFetchData_def split: if_splits)
      then obtain dd where dd: "mm_data ?m = Some dd" by auto
      have "mm_turn env m ev = settle env hs ctx ?m" using run True MmManifest same st by (simp add: mm_turn_def schedule_noop settle_def)
      then show ?thesis using settle_spec(1,3)[OF dd, of env hs ctx] pend by (simp add: accounted_def MmManifest)
    qed
  next
    case (MmFetched result now hs ctx)
    show ?thesis
    proof (cases "mm_runch m \<and> is_ok result")
      case run: True
      then obtain dd ls where r: "result = Inr (dd, ls)" by (auto simp: is_ok_iff)
      let ?m = "m\<lparr>mm_runch := False, mm_data := Some dd, mm_fetchedAt := now, mm_localLeases := ls\<rparr>"
      have dd: "mm_data ?m = Some dd" by simp
      have "mm_turn env m ev = settle env hs ctx ?m"
        using MmFetched True run r st settle_spec(11)[OF dd, of env hs ctx] pend by (simp add: mm_turn_def settle_def schedule_noop)
      then show ?thesis using settle_spec(1,3)[OF dd, of env hs ctx] pend by (simp add: accounted_def MmFetched)
    qed (use True MmFetched pend in \<open>cases result; auto simp: mm_turn_def accounted_def fillAllRequests_def\<close>)
  qed (use True st pend in \<open>auto simp: mm_turn_def accounted_def clearFetched_def maybeFetchData_def schedule_noop
      mm_finish_def fillAllRequests_def\<close>)
next
  case False
  then show ?thesis by (cases ev) (auto simp: mm_turn_def refuse_def accounted_def)
qed

lemma mm_run_count:
  "accounted (mm_run env evs) i \<le> sum_list (map (\<lambda>ev. submits ev i) evs) \<and>
   ((\<forall>ev \<in> set evs. ctx_alive i ev) \<longrightarrow> accounted (mm_run env evs) i = sum_list (map (\<lambda>ev. submits ev i) evs))"
proof (induction evs rule: rev_induct)
  case Nil
  show ?case by (simp add: mm_run_def accounted_def newManager_def replied_def)
next
  case (snoc ev evs)
  have "mm_run env (evs @ [ev]) = mm_turn env (mm_run env evs) ev" by (simp add: mm_run_def)
  then show ?case using snoc mm_turn_count[OF mm_run_inv[of env evs], of ev i] by auto
qed

section \<open>Properties\<close>

definition ex_mm_env :: "unit mm_env" where
  "ex_mm_env = \<lparr>me_Validate = (\<lambda>m. None), me_Version = (\<lambda>m. case m of [] \<Rightarrow> None | g # gs \<Rightarrow> Some (mg_Name g)),
     me_CheckAgainstDeployment = (\<lambda>m g. None), me_isIngress = (\<lambda>e. False), me_HTTPServicesRequireAtLeastOneHost = False, me_CachedResultMaxAge = 30\<rparr>"

definition ex_mm_hs :: hostname_service where
  "ex_mm_hs = \<lparr>inUse = Map.empty, blockedHostnames = [], blockedDomains = []\<rparr>"

definition ex_mm_mani :: mani where
  "ex_mm_mani = [\<lparr>mg_Name = ''web'', mg_Services = []\<rparr>]"

definition ex_mm_lease :: lease_id where
  "ex_mm_lease = \<lparr>l_owner = ''alice'', l_dseq = 1, l_gseq = 1, l_oseq = 1, l_provider = ''p''\<rparr>"

text \<open>A manifest is submitted, the fetch returns the deployment with its hash and one lease.\<close>

definition ex_mm_events :: "unit mm_event list" where
  "ex_mm_events = [MmManifest \<lparr>rq_id = 1, rq_mani = ex_mm_mani\<rparr> 0 ex_mm_hs (\<lambda>i. (False, False)),
     MmFetched (Inr (\<lparr>dd_owner = Some ''alice'', dd_Hash = ''web'', dd_Groups = ()\<rparr>, [(ex_mm_lease, ''web'')])) 1 ex_mm_hs (\<lambda>i. (False, False))]"

lemma ex_mm_run:
  "mm_replies (mm_run ex_mm_env ex_mm_events) = [(1, None)]" "mm_published (mm_run ex_mm_env ex_mm_events) = [(ex_mm_lease, ex_mm_mani)]"
  "mm_requests (mm_run ex_mm_env ex_mm_events) = []"
  by code_simp+

text \<open>C27: every submitted manifest is answered once. In every run, a request gets at most one
  reply; as long as its context is not done it has been answered or still waits, and while
  it waits the manager runs and has a fetch in flight, whose result will answer it. So a
  manager that has stopped has answered everything.\<close>

theorem submit_answered_once:
  "replied (mm_run env evs) i + ids (mm_requests (mm_run env evs)) i \<le> sum_list (map (\<lambda>ev. submits ev i) evs) \<and>
   ((\<forall>ev \<in> set evs. ctx_alive i ev) \<longrightarrow>
     replied (mm_run env evs) i + ids (mm_requests (mm_run env evs)) i = sum_list (map (\<lambda>ev. submits ev i) evs)) \<and>
   (mm_requests (mm_run env evs) \<noteq> [] \<longrightarrow> mm_running (mm_run env evs) \<and> mm_runch (mm_run env evs))"
  using mm_run_count[of env evs i] mm_run_inv[of env evs] by (simp add: accounted_def mm_inv_def)

theorem submit_answered_once_witness:
  "replied (mm_run ex_mm_env ex_mm_events) 1 = 1"
  using submit_answered_once[of ex_mm_env ex_mm_events 1] by (simp add: ex_mm_run) (simp add: ex_mm_events_def)

text \<open>C4: only valid manifests are published. Every \<open>ManifestReceived\<close> event is for a lease that a fetch
  returned, and its manifest passed validation, stays within the proxy limits, and has a
  version that the chain announced (the hash of a fetched deployment or an update).\<close>

theorem published_manifest_valid:
  assumes "(l, x) \<in> set (mm_published (mm_run env evs))"
  shows "l \<in> leased (set evs) \<and> me_Validate env x = None \<and> validateProxyBufferLimits x = None \<and>
    (\<exists>v \<in> announced (set evs). me_Version env x = Some v)"
  using assms mm_run_inv[of env evs] by (fastforce simp: mm_inv_def publishable_def accepted_def)

theorem published_manifest_valid_witness:
  "ex_mm_lease \<in> leased (set ex_mm_events) \<and> (\<exists>v \<in> announced (set ex_mm_events). me_Version ex_mm_env ex_mm_mani = Some v)"
  using published_manifest_valid[of ex_mm_lease ex_mm_mani ex_mm_env ex_mm_events] by (simp add: ex_mm_run)

text \<open>a manifest reported as accepted has been published. When a request is answered without an
  error, it was submitted, and a manifest with its version went out for some lease.\<close>

theorem accepted_submit_published:
  assumes "(i, None) \<in> set (mm_replies (mm_run env evs))"
  shows "\<exists>r \<in> submitted (set evs). rq_id r = i \<and>
    (\<exists>(l, x) \<in> set (mm_published (mm_run env evs)). me_Version env x = me_Version env (rq_mani r))"
  using assms mm_run_inv[of env evs] by (simp add: mm_inv_def)

theorem accepted_submit_published_witness:
  "\<exists>r \<in> submitted (set ex_mm_events). rq_id r = 1 \<and> me_Version ex_mm_env ex_mm_mani = me_Version ex_mm_env (rq_mani r)"
  using accepted_submit_published[of 1 ex_mm_env ex_mm_events] by (simp add: ex_mm_run)

text \<open>the linger timer never starts. \<open>maybeScheduleStop\<close> sets the timer only when it is already
  set, so in no run is it set, and a manager whose deployment has neither leases nor manifests is
  never stopped by it.\<close>

theorem stop_timer_never_starts:
  "\<not> mm_stoptimer (mm_run env evs) \<and> mm_turn env (mm_run env evs) MmStopTimer = mm_run env evs"
proof -
  have "\<not> mm_stoptimer (mm_run env evs)" using mm_run_inv[of env evs] by (simp add: mm_inv_def)
  then show ?thesis by (simp add: mm_turn_def refuse_def)
qed

end
