(* ===== verification/ManifestService.thy ===== *)
theory ManifestService
  imports ManifestManager Registry
begin

text \<open>
  The manifest service (\<open>manifest/service.go\<close>): it routes leases, deployment updates and submitted
  manifests to one manager per deployment, and runs a watchdog (\<open>manifest/watchdog.go\<close>) that closes the
  bid of a new lease when no manifest comes in time. \<open>path\<close> is the SDK's \<open>DeploymentPath\<close> and \<open>own\<close> the
  provider's address. The calls the service makes on a manager are the log \<open>ms_calls\<close>; what the
  manager does with them is the theory of the manifest manager.
\<close>

section \<open>Watchdog\<close>

record deployment_id =
  di_owner :: string
  di_dseq :: u64

definition lease_deployment_id :: "lease_id \<Rightarrow> deployment_id" where
  "lease_deployment_id l = \<lparr>di_owner = l_owner l, di_dseq = l_dseq l\<rparr>"

datatype watchdog_phase = WdWaiting | WdBroadcasting | WdDone

record watchdog =
  wd_leaseID :: lease_id
  wd_stopping :: bool
  wd_phase :: watchdog_phase
  wd_closed :: "bid_id list"

definition newWatchdog :: "lease_id \<Rightarrow> watchdog" where
  "newWatchdog lid = \<lparr>wd_leaseID = lid, wd_stopping = False, wd_phase = WdWaiting, wd_closed = []\<rparr>"

definition watchdog_stop :: "watchdog \<Rightarrow> watchdog" where
  "watchdog_stop w = w\<lparr>wd_stopping := True\<rparr>"

text \<open>
  \<open>run\<close>: the timeout and the stop request race until one is taken; after the timeout the close is
  broadcast, and only its result ends the watchdog.
\<close>

datatype watchdog_event = WdTimeout | WdStopSeen | WdResult

definition watchdog_run :: "string \<Rightarrow> watchdog \<Rightarrow> watchdog_event \<Rightarrow> watchdog" where
  "watchdog_run own w ev =
     (case wd_phase w of
        WdWaiting \<Rightarrow>
          (case ev of
             WdTimeout \<Rightarrow> w\<lparr>wd_phase := WdBroadcasting, wd_closed := wd_closed w @ [make_bid_id (lease_order_id (wd_leaseID w)) own]\<rparr>
           | WdStopSeen \<Rightarrow> if wd_stopping w then w\<lparr>wd_phase := WdDone\<rparr> else w
           | WdResult \<Rightarrow> w)
      | WdBroadcasting \<Rightarrow> (case ev of WdResult \<Rightarrow> w\<lparr>wd_phase := WdDone\<rparr> | _ \<Rightarrow> w)
      | WdDone \<Rightarrow> w)"

section \<open>Service\<close>

datatype manager_call = CallHandleLease lease_id | CallRemoveLease lease_id | CallHandleUpdate bytes | CallStop | CallHandleManifest mreq

record manifest_service =
  ms_managers :: "string \<rightharpoonup> deployment_id"
  ms_watchdogs :: "deployment_id \<rightharpoonup> watchdog"
  ms_started :: "string list"
  ms_calls :: "(string \<times> manager_call) list"
  ms_signal :: bool

definition newManifestService :: manifest_service where
  "newManifestService = \<lparr>ms_managers = Map.empty, ms_watchdogs = Map.empty, ms_started = [], ms_calls = [], ms_signal = False\<rparr>"

definition ms_call :: "string \<Rightarrow> manager_call \<Rightarrow> manifest_service \<Rightarrow> manifest_service" where
  "ms_call key c s = s\<lparr>ms_calls := ms_calls s @ [(key, c)]\<rparr>"

definition ms_ensureManager :: "(deployment_id \<Rightarrow> string) \<Rightarrow> deployment_id \<Rightarrow> manifest_service \<Rightarrow> manifest_service" where
  "ms_ensureManager path did s =
     (if ms_managers s (path did) = None
      then s\<lparr>ms_managers := (ms_managers s)(path did \<mapsto> did), ms_started := ms_started s @ [path did]\<rparr> else s)"

definition maybeRemoveWatchdog :: "deployment_id \<Rightarrow> manifest_service \<Rightarrow> manifest_service" where
  "maybeRemoveWatchdog did s =
     (case ms_watchdogs s did of None \<Rightarrow> s | Some w \<Rightarrow> s\<lparr>ms_watchdogs := (ms_watchdogs s)(did \<mapsto> watchdog_stop w)\<rparr>)"

definition ms_handleLease :: "(deployment_id \<Rightarrow> string) \<Rightarrow> int \<Rightarrow> lease_id \<Rightarrow> manifest_service \<Rightarrow> manifest_service" where
  "ms_handleLease path manifestTimeout lid s =
     (let did = lease_deployment_id lid;
          s1 = (if manifestTimeout > 0 \<and> ms_watchdogs s did = None
                then s\<lparr>ms_watchdogs := (ms_watchdogs s)(did \<mapsto> newWatchdog lid)\<rparr> else s)
      in ms_call (path did) (CallHandleLease lid) (ms_ensureManager path did s1))"

datatype ms_event =
    MsShutdown
  | MsLeaseWon lease_id
  | MsDeploymentUpdated deployment_id bytes
  | MsDeploymentClosed deployment_id
  | MsLeaseClosed lease_id
  | MsSubmit deployment_id mreq
  | MsManagerDone deployment_id
  | MsWatchdog deployment_id watchdog_event
  | MsWatchdogDone deployment_id
  | MsSignal

definition if_managed :: "(deployment_id \<Rightarrow> string) \<Rightarrow> deployment_id \<Rightarrow> manager_call \<Rightarrow> manifest_service \<Rightarrow> manifest_service" where
  "if_managed path did c s = (if ms_managers s (path did) \<noteq> None then ms_call (path did) c s else s)"

text \<open>A watchdog reports done only when its loop has ended.\<close>

definition ms_step :: "(deployment_id \<Rightarrow> string) \<Rightarrow> string \<Rightarrow> int \<Rightarrow> manifest_service \<Rightarrow> ms_event \<Rightarrow> manifest_service option" where
  "ms_step path own manifestTimeout s ev =
     (case ev of
        MsShutdown \<Rightarrow> None
      | MsLeaseWon lid \<Rightarrow> Some (if l_provider lid \<noteq> own then s else ms_handleLease path manifestTimeout lid s)
      | MsDeploymentUpdated did hash \<Rightarrow> Some (if_managed path did (CallHandleUpdate hash) s)
      | MsDeploymentClosed did \<Rightarrow> Some (if_managed path did CallStop s)
      | MsLeaseClosed lid \<Rightarrow>
          Some (if l_provider lid \<noteq> own then s else if_managed path (lease_deployment_id lid) (CallRemoveLease lid) s)
      | MsSubmit did req \<Rightarrow>
          Some ((ms_call (path did) (CallHandleManifest req) (ms_ensureManager path did (maybeRemoveWatchdog did s)))\<lparr>ms_signal := True\<rparr>)
      | MsManagerDone did \<Rightarrow>
          Some ((maybeRemoveWatchdog did (s\<lparr>ms_managers := (ms_managers s)(path did := None)\<rparr>))\<lparr>ms_signal := True\<rparr>)
      | MsWatchdog did e \<Rightarrow>
          Some (case ms_watchdogs s did of None \<Rightarrow> s | Some w \<Rightarrow> s\<lparr>ms_watchdogs := (ms_watchdogs s)(did \<mapsto> watchdog_run own w e)\<rparr>)
      | MsWatchdogDone did \<Rightarrow>
          Some (case ms_watchdogs s did of
                  None \<Rightarrow> s
                | Some w \<Rightarrow> if wd_phase w = WdDone then s\<lparr>ms_watchdogs := (ms_watchdogs s)(did := None)\<rparr> else s)
      | MsSignal \<Rightarrow> Some (s\<lparr>ms_signal := False\<rparr>))"

definition ms_run :: "(deployment_id \<Rightarrow> string) \<Rightarrow> string \<Rightarrow> int \<Rightarrow> ms_event list \<Rightarrow> manifest_service" where
  "ms_run path own manifestTimeout evs = run_until (ms_step path own manifestTimeout) newManifestService evs"

text \<open>\<open>IsActive\<close> as the loop answers it.\<close>

definition ms_IsActive :: "(deployment_id \<Rightarrow> string) \<Rightarrow> manifest_service \<Rightarrow> deployment_id \<Rightarrow> bool" where
  "ms_IsActive path s did = (ms_managers s (path did) \<noteq> None)"

text \<open>\<open>Submit\<close>: the two waits with the caller's context and the service's end.\<close>

definition ms_Submit :: "sel \<Rightarrow> sel \<Rightarrow> manifest_error option \<Rightarrow> submit_reply" where
  "ms_Submit s1 s2 result =
     (case s1 of
        SelCtx \<Rightarrow> SubmitErr ErrReqCtx
      | SelShutdown \<Rightarrow> SubmitErr ErrMNotRunning
      | SelChan \<Rightarrow>
         (case s2 of SelCtx \<Rightarrow> SubmitErr ErrReqCtx | SelShutdown \<Rightarrow> SubmitErr ErrMNotRunning
          | SelChan \<Rightarrow> ManifestSubmitErrorToHTTP result))"

section \<open>Lemmas\<close>

definition ms_finishes :: "(deployment_id \<Rightarrow> string) \<Rightarrow> ms_event \<Rightarrow> string \<Rightarrow> bool" where
  "ms_finishes path ev k = (case ev of MsManagerDone did \<Rightarrow> path did = k | _ \<Rightarrow> False)"

lemma ms_call_simps [simp]:
  "ms_managers (ms_call k c s) = ms_managers s" "ms_started (ms_call k c s) = ms_started s" "ms_watchdogs (ms_call k c s) = ms_watchdogs s"
  by (simp_all add: ms_call_def)

lemma if_managed_simps [simp]:
  "ms_managers (if_managed path did c s) = ms_managers s" "ms_started (if_managed path did c s) = ms_started s"
  "ms_watchdogs (if_managed path did c s) = ms_watchdogs s"
  by (simp_all add: if_managed_def)

lemma maybeRemoveWatchdog_simps [simp]:
  "ms_managers (maybeRemoveWatchdog did s) = ms_managers s" "ms_started (maybeRemoveWatchdog did s) = ms_started s"
  by (simp_all add: maybeRemoveWatchdog_def split: option.split)

lemma ensureManager_simps [simp]: "ms_watchdogs (ms_ensureManager path did s) = ms_watchdogs s"
  by (simp add: ms_ensureManager_def)

interpretation manifests: child_registry "\<lambda>s. True" "\<lambda>s k. ms_managers s k \<noteq> None" ms_started "ms_step path own t" "ms_finishes path"
proof
  fix s e s' k assume st: "ms_step path own t s e = Some s'"
  show "count_list (ms_started s') k + of_bool (ms_managers s k \<noteq> None) \<le>
      count_list (ms_started s) k + of_bool (ms_finishes path e k) + of_bool (ms_managers s' k \<noteq> None)"
    using st by (cases e) (auto simp: ms_step_def ms_finishes_def ms_handleLease_def ms_ensureManager_def Let_def split: option.splits if_splits)
next
  fix s e s' k assume "ms_step path own t s e = Some s'" "ms_managers s k \<noteq> None" "\<not> ms_finishes path e k"
  then show "ms_managers s' k \<noteq> None"
    by (cases e) (auto simp: ms_step_def ms_finishes_def ms_handleLease_def ms_ensureManager_def Let_def split: option.splits if_splits)
qed simp

text \<open>A watchdog belongs to a lease that was won, and closes that lease's bid at most once.\<close>

definition watchdog_ok :: "string \<Rightarrow> ms_event set \<Rightarrow> deployment_id \<Rightarrow> watchdog \<Rightarrow> bool" where
  "watchdog_ok own E did w =
     (lease_deployment_id (wd_leaseID w) = did \<and> l_provider (wd_leaseID w) = own \<and> MsLeaseWon (wd_leaseID w) \<in> E \<and>
      wd_closed w \<in> {[], [make_bid_id (lease_order_id (wd_leaseID w)) own]} \<and>
      (wd_phase w = WdWaiting \<longrightarrow> wd_closed w = []) \<and> (wd_closed w \<noteq> [] \<longrightarrow> MsWatchdog did WdTimeout \<in> E) \<and>
      (wd_phase w = WdBroadcasting \<longrightarrow> wd_closed w \<noteq> []))"

definition watchdogs_ok :: "string \<Rightarrow> ms_event set \<Rightarrow> manifest_service \<Rightarrow> bool" where
  "watchdogs_ok own E s = (\<forall>did w. ms_watchdogs s did = Some w \<longrightarrow> watchdog_ok own E did w)"

lemma watchdog_run_ok:
  "watchdog_ok own E did w \<Longrightarrow> MsWatchdog did e \<in> E \<Longrightarrow> watchdog_ok own E did (watchdog_run own w e)"
  by (cases "wd_phase w"; cases e) (auto simp: watchdog_ok_def watchdog_run_def)

lemma watchdogs_upd:
  "watchdogs_ok own E s \<Longrightarrow> watchdog_ok own E did w \<Longrightarrow> ms_watchdogs s' = (ms_watchdogs s)(did \<mapsto> w) \<Longrightarrow> watchdogs_ok own E s'"
  by (simp add: watchdogs_ok_def)

lemma watchdogs_same: "watchdogs_ok own E s \<Longrightarrow> ms_watchdogs s' = ms_watchdogs s \<Longrightarrow> watchdogs_ok own E s'"
  by (simp add: watchdogs_ok_def)

lemma maybeRemoveWatchdog_ok: "watchdogs_ok own E s \<Longrightarrow> watchdogs_ok own E (maybeRemoveWatchdog did s)"
  by (auto simp: maybeRemoveWatchdog_def watchdogs_ok_def watchdog_ok_def watchdog_stop_def split: option.split)

lemma handleLease_watchdogs:
  "ms_watchdogs (ms_handleLease path t lid s) =
     (if t > 0 \<and> ms_watchdogs s (lease_deployment_id lid) = None
      then (ms_watchdogs s)(lease_deployment_id lid \<mapsto> newWatchdog lid) else ms_watchdogs s)"
  by (simp add: ms_handleLease_def Let_def)

lemma ms_step_watchdogs:
  assumes ok: "watchdogs_ok own E s" and st: "ms_step path own t s ev = Some s'" and ev: "ev \<in> E"
  shows "watchdogs_ok own E s'"
proof (cases ev)
  case (MsLeaseWon lid)
  have "watchdog_ok own E (lease_deployment_id lid) (newWatchdog lid)" if "l_provider lid = own"
    using that ev MsLeaseWon by (simp add: watchdog_ok_def newWatchdog_def)
  then show ?thesis using ok st MsLeaseWon
    by (auto simp: ms_step_def watchdogs_ok_def handleLease_watchdogs split: if_splits)
next
  case (MsSubmit did req)
  then show ?thesis using st maybeRemoveWatchdog_ok[OF ok, of did] by (auto simp: ms_step_def watchdogs_ok_def)
next
  case (MsManagerDone did)
  have "watchdogs_ok own E (s\<lparr>ms_managers := (ms_managers s)(path did := None)\<rparr>)" by (rule watchdogs_same[OF ok]) simp
  from maybeRemoveWatchdog_ok[OF this, of did] show ?thesis using st MsManagerDone by (auto simp: ms_step_def watchdogs_ok_def)
next
  case (MsWatchdog did e)
  show ?thesis
  proof (cases "ms_watchdogs s did")
    case (Some w)
    then have "watchdog_ok own E did (watchdog_run own w e)" using ok ev MsWatchdog watchdog_run_ok by (simp add: watchdogs_ok_def)
    then show ?thesis using st MsWatchdog Some by (intro watchdogs_upd[OF ok]) (auto simp: ms_step_def)
  qed (use ok st MsWatchdog in \<open>simp add: ms_step_def\<close>)
next
  case (MsWatchdogDone did)
  then show ?thesis using ok st by (auto simp: ms_step_def watchdogs_ok_def split: option.splits if_splits)
qed (use ok st in \<open>auto simp: ms_step_def intro: watchdogs_same split: if_splits\<close>)

lemma ms_run_watchdogs: "watchdogs_ok own (set evs) (ms_run path own t evs)"
  unfolding ms_run_def
  by (rule run_until_invariant[where I = "watchdogs_ok own (set evs)"])
    (simp add: watchdogs_ok_def newManifestService_def, rule ms_step_watchdogs)

section \<open>Properties\<close>

text \<open>a watchdog closes only the bid it was started for. In every run the watchdog of a deployment
  belongs to a lease of that deployment that this provider won; it closes nothing but that
  lease's bid, at most once, and only after its timeout.\<close>

theorem watchdog_closes_own_bid:
  assumes "ms_watchdogs (ms_run path own t evs) did = Some w"
  shows "MsLeaseWon (wd_leaseID w) \<in> set evs \<and> lease_deployment_id (wd_leaseID w) = did \<and> l_provider (wd_leaseID w) = own \<and>
    wd_closed w \<in> {[], [wd_leaseID w]} \<and> (wd_closed w \<noteq> [] \<longrightarrow> MsWatchdog did WdTimeout \<in> set evs)"
proof -
  have ok: "watchdog_ok own (set evs) did w" using ms_run_watchdogs[of own evs path t] assms by (simp add: watchdogs_ok_def)
  then have "make_bid_id (lease_order_id (wd_leaseID w)) own = wd_leaseID w"
    by (simp add: watchdog_ok_def make_bid_id_def lease_order_id_def)
  then show ?thesis using ok by (simp add: watchdog_ok_def)
qed

definition ex_ms_did :: deployment_id where
  "ex_ms_did = lease_deployment_id ex_mm_lease"

definition ex_ms_req :: mreq where
  "ex_ms_req = \<lparr>rq_id = 1, rq_mani = ex_mm_mani\<rparr>"

theorem watchdog_closes_own_bid_witness:
  "\<exists>w. ms_watchdogs (ms_run di_owner ''p'' 5 [MsLeaseWon ex_mm_lease, MsWatchdog ex_ms_did WdTimeout]) ex_ms_did = Some w \<and>
     wd_closed w = [ex_mm_lease] \<and> MsWatchdog ex_ms_did WdTimeout \<in> set [MsLeaseWon ex_mm_lease, MsWatchdog ex_ms_did WdTimeout]"
proof -
  obtain w where w: "ms_watchdogs (ms_run di_owner ''p'' 5 [MsLeaseWon ex_mm_lease, MsWatchdog ex_ms_did WdTimeout]) ex_ms_did = Some w"
      "wd_closed w = [ex_mm_lease]"
    by (simp add: ms_run_def ms_step_def newManifestService_def handleLease_watchdogs ex_ms_did_def ex_mm_lease_def newWatchdog_def watchdog_run_def
        make_bid_id_def lease_order_id_def lease_deployment_id_def)
  from watchdog_closes_own_bid[OF w(1)] show ?thesis using w by simp
qed

text \<open>a manifest in time keeps the bid. When a manifest is submitted while the deployment's
  watchdog still waits, the watchdog is told to stop; once it has seen that, no later event
  makes it close the bid, until another lease of the deployment is won.\<close>

theorem manifest_stops_watchdog:
  assumes "ms_watchdogs (ms_run path own t evs) did = Some w" and "wd_phase w = WdWaiting" and "MsShutdown \<notin> set evs"
    and "\<forall>l. MsLeaseWon l \<in> set later \<longrightarrow> lease_deployment_id l \<noteq> did"
  shows "case ms_watchdogs (ms_run path own t (evs @ [MsSubmit did req, MsWatchdog did WdStopSeen] @ later)) did of
      None \<Rightarrow> True | Some w' \<Rightarrow> wd_phase w' = WdDone \<and> wd_closed w' = []"
proof -
  let ?step = "ms_step path own t" and ?s = "ms_run path own t evs"
  let ?Q = "\<lambda>s. case ms_watchdogs s did of None \<Rightarrow> True | Some w' \<Rightarrow> wd_phase w' = WdDone \<and> wd_closed w' = []"
  have total: "?step s e \<noteq> None" if "e \<noteq> MsShutdown" for s e using that by (cases e) (simp_all add: ms_step_def)
  have closed: "wd_closed w = []"
    using ms_run_watchdogs[of own evs path t] assms(1,2) by (simp add: watchdogs_ok_def watchdog_ok_def)
  define s1 where "s1 = run_until ?step ?s [MsSubmit did req, MsWatchdog did WdStopSeen]"
  have s1: "?Q s1" using assms(1,2) closed
    by (simp add: s1_def ms_step_def maybeRemoveWatchdog_def watchdog_stop_def watchdog_run_def)
  have "ms_run path own t (evs @ [MsSubmit did req, MsWatchdog did WdStopSeen] @ later) = run_until ?step s1 later"
  proof -
    have "ms_run path own t (evs @ xs) = run_until ?step ?s xs" for xs
      unfolding ms_run_def by (rule run_until_append) (metis total assms(3))
    moreover have "run_until ?step ?s ([MsSubmit did req, MsWatchdog did WdStopSeen] @ later) = run_until ?step s1 later"
      unfolding s1_def by (rule run_until_append) (auto simp: ms_step_def)
    ultimately show ?thesis by metis
  qed
  moreover have "?Q (run_until ?step s1 later)"
  proof (rule run_until_invariant[where I = ?Q])
    fix s e s' assume "?Q s" "e \<in> set later" "?step s e = Some s'"
    then show "?Q s'" using assms(4)
      by (cases e) (auto simp: ms_step_def handleLease_watchdogs maybeRemoveWatchdog_def watchdog_stop_def watchdog_run_def split: option.splits if_splits)
  qed (rule s1)
  ultimately show ?thesis by simp
qed

theorem manifest_stops_watchdog_witness:
  "case ms_watchdogs (ms_run di_owner ''p'' 5 ([MsLeaseWon ex_mm_lease] @ [MsSubmit ex_ms_did ex_ms_req, MsWatchdog ex_ms_did WdStopSeen] @
     [MsWatchdog ex_ms_did WdTimeout])) ex_ms_did of None \<Rightarrow> True | Some w' \<Rightarrow> wd_phase w' = WdDone \<and> wd_closed w' = []"
proof -
  have "ms_watchdogs (ms_run di_owner ''p'' 5 [MsLeaseWon ex_mm_lease]) ex_ms_did = Some (newWatchdog ex_mm_lease)"
    by (simp add: ms_run_def ms_step_def newManifestService_def handleLease_watchdogs ex_ms_did_def ex_mm_lease_def)
  from manifest_stops_watchdog[OF this, of "[MsWatchdog ex_ms_did WdTimeout]" ex_ms_req] show ?thesis by (simp add: newWatchdog_def)
qed

text \<open>a received manifest does not keep a later lease's watchdog from starting. With a manifest
  timeout configured, when a lease of a deployment is won whose manifest had been submitted before
  and whose earlier watchdog is gone, a watchdog starts all the same, and its timeout closes
  the new lease's bid.\<close>

theorem watchdog_ignores_earlier_manifest:
  assumes "MsSubmit (lease_deployment_id lid) req \<in> set evs" and "MsShutdown \<notin> set evs" and "l_provider lid = own" and "t > 0"
    and "ms_watchdogs (ms_run path own t evs) (lease_deployment_id lid) = None"
  shows "map_option wd_closed (ms_watchdogs (ms_run path own t
      (evs @ [MsLeaseWon lid, MsWatchdog (lease_deployment_id lid) WdTimeout])) (lease_deployment_id lid)) = Some [lid]"
proof -
  have total: "ms_step path own t s e \<noteq> None" if "e \<noteq> MsShutdown" for s e using that by (cases e) (simp_all add: ms_step_def)
  have "ms_run path own t (evs @ xs) = run_until (ms_step path own t) (ms_run path own t evs) xs" for xs
    unfolding ms_run_def by (rule run_until_append) (metis total assms(2))
  then show ?thesis using assms(3-5)
    by (simp add: ms_step_def handleLease_watchdogs newWatchdog_def watchdog_run_def make_bid_id_def lease_order_id_def)
qed

theorem watchdog_ignores_earlier_manifest_witness:
  "map_option wd_closed (ms_watchdogs (ms_run di_owner ''p'' 5
     ([MsSubmit ex_ms_did ex_ms_req] @ [MsLeaseWon ex_mm_lease, MsWatchdog ex_ms_did WdTimeout])) ex_ms_did) = Some [ex_mm_lease]"
  unfolding ex_ms_did_def
  by (rule watchdog_ignores_earlier_manifest[of _ ex_ms_req])
    (simp_all add: ex_mm_lease_def ms_run_def ms_step_def newManifestService_def maybeRemoveWatchdog_def)

end
