(* ===== verification/BalanceChecker.thy ===== *)
theory BalanceChecker
  imports Complex_Main Market
begin

text \<open>
  The balance checker (\<open>balance_checker.go\<close>): it checks the escrow account behind every lease of the
  provider again and again, withdraws when the lease is out of funds or a periodic
  withdrawal is due, and starts the local teardown of a lease the chain has closed. Times and
  durations are integers in nanoseconds. Timers carry numbers, because a lease that is added
  twice leaves the timer of its first state running. The averages and balance formulas of the
  node's libraries are the parameters of \<open>balance_lib\<close>.
\<close>

section \<open>One check\<close>

datatype resp_state = respStateNextCheck | respStateOutOfFunds | respStateScheduledWithdraw

record balance_config =
  WithdrawalPeriod :: int
  LeaseFundsCheckInterval :: int

record balance_lib =
  AverageBlockTime :: int
  LeaseCalcBalanceRemain :: "rat option \<Rightarrow> int \<Rightarrow> int \<Rightarrow> rat \<Rightarrow> rat"
  LeaseCalcBlocksRemain :: "rat \<Rightarrow> rat \<Rightarrow> int"

datatype check_error = ErrSyncInfo | ErrNodeNotSynced | ErrLeaseQuery | ErrLeaseOtherID | ErrLeaseState | ErrDeploymentQuery | ErrLeasesQuery | ErrPublish

record leaseCheckResponse =
  cr_lid :: lease_id
  cr_checkAfter :: int
  cr_state :: resp_state
  cr_err :: "check_error option"
  cr_closed :: bool

text \<open>
  The chain's answers to one check: sync state and height, the lease, the escrow account (its funds by
  denomination and the height it was settled at), and the prices of the active and of the reclaiming leases.
\<close>

record escrow_answers =
  ea_sync :: "(bool \<times> int) option"
  ea_lease :: "(lease_id \<times> mv1_lease_state) option"
  ea_account :: "((string \<times> rat) list \<times> int) option"
  ea_active :: "rat list option"
  ea_reclaiming :: "rat list option"

definition minute :: int where "minute = 60000000000"

definition doEscrowCheck :: "balance_lib \<Rightarrow> balance_config \<Rightarrow> escrow_answers \<Rightarrow> lease_id \<Rightarrow> bool \<Rightarrow> leaseCheckResponse" where
  "doEscrowCheck lib cfg ans lid scheduledWithdraw =
     (let resp = \<lparr>cr_lid = lid, cr_checkAfter = 0,
            cr_state = (if scheduledWithdraw then respStateScheduledWithdraw else respStateNextCheck), cr_err = None, cr_closed = False\<rparr>
      in case ea_sync ans of
        None \<Rightarrow> resp\<lparr>cr_err := Some ErrSyncInfo\<rparr>
      | Some (catchingUp, height) \<Rightarrow>
        if catchingUp then resp\<lparr>cr_err := Some ErrNodeNotSynced\<rparr>
        else case ea_lease ans of
          None \<Rightarrow> resp\<lparr>cr_err := Some ErrLeaseQuery\<rparr>
        | Some (rid, st) \<Rightarrow>
          if rid \<noteq> lid then resp\<lparr>cr_err := Some ErrLeaseOtherID\<rparr>
          else if st \<in> {LeaseClosed, LeaseInsufficientFunds} then resp\<lparr>cr_closed := True\<rparr>
          else if st = LeaseStateInvalid then resp\<lparr>cr_err := Some ErrLeaseState\<rparr>
          else case ea_account ans of
            None \<Rightarrow> resp\<lparr>cr_err := Some ErrDeploymentQuery\<rparr>
          | Some (funds, settledAt) \<Rightarrow>
            (case (ea_active ans, ea_reclaiming ans) of
               (Some as, Some rs) \<Rightarrow>
                 (let total = sum_list as + sum_list rs;
                      remain = LeaseCalcBalanceRemain lib (map_of funds ''uact'') height settledAt total;
                      blocks = LeaseCalcBlocksRemain lib remain total
                  in if blocks \<le> 0 then resp\<lparr>cr_state := respStateOutOfFunds, cr_checkAfter := 10 * minute\<rparr>
                     else resp\<lparr>cr_checkAfter :=
                       min blocks (LeaseFundsCheckInterval cfg div AverageBlockTime lib) * AverageBlockTime lib\<rparr>)
             | _ \<Rightarrow> resp\<lparr>cr_err := Some ErrLeasesQuery\<rparr>))"

section \<open>The loop\<close>

record leaseState =
  ls_tm :: "nat option"
  ls_scheduledWithdrawAt :: "int option"

record balance_timer =
  tm_lid :: lease_id
  tm_due :: int
  tm_scheduled :: bool

record balanceChecker =
  bc_leases :: "lease_id \<rightharpoonup> leaseState"
  bc_timers :: "nat \<rightharpoonup> balance_timer"
  bc_next :: nat
  bc_checks :: "(lease_id \<times> bool) list"
  bc_withdraws :: "lease_id list"
  bc_published :: "lease_id list"

definition newBalanceChecker :: balanceChecker where
  "newBalanceChecker = \<lparr>bc_leases = Map.empty, bc_timers = Map.empty, bc_next = 0, bc_checks = [], bc_withdraws = [], bc_published = []\<rparr>"

definition runEscrowCheck :: "lease_id \<Rightarrow> bool \<Rightarrow> balanceChecker \<Rightarrow> balanceChecker" where
  "runEscrowCheck lid scheduled b = b\<lparr>bc_checks := bc_checks b @ [(lid, scheduled)]\<rparr>"

text \<open>\<open>timerFunc\<close> at a time \<open>now\<close>, stored as the timer of the lease's state.\<close>

definition timerFunc :: "int \<Rightarrow> int \<Rightarrow> lease_id \<Rightarrow> bool \<Rightarrow> leaseState \<Rightarrow> balanceChecker \<Rightarrow> balanceChecker" where
  "timerFunc now d lid scheduled st b =
     b\<lparr>bc_timers := (bc_timers b)(bc_next b \<mapsto> \<lparr>tm_lid = lid, tm_due = now + max 0 d, tm_scheduled = scheduled\<rparr>),
       bc_next := Suc (bc_next b),
       bc_leases := (bc_leases b)(lid \<mapsto> st\<lparr>ls_tm := Some (bc_next b)\<rparr>)\<rparr>"

definition removeLease :: "lease_id \<Rightarrow> balanceChecker \<Rightarrow> balanceChecker" where
  "removeLease lid b =
     (case bc_leases b lid of
        None \<Rightarrow> b
      | Some st \<Rightarrow>
          b\<lparr>bc_timers := (case ls_tm st of None \<Rightarrow> bc_timers b | Some i \<Rightarrow> (bc_timers b)(i := None)),
            bc_leases := (bc_leases b)(lid := None)\<rparr>)"

definition add_lease :: "balance_config \<Rightarrow> int \<Rightarrow> int \<Rightarrow> lease_id \<Rightarrow> bool \<Rightarrow> balanceChecker \<Rightarrow> balanceChecker" where
  "add_lease cfg now checkIn lid isNew b =
     (let st = \<lparr>ls_tm = None, ls_scheduledWithdrawAt = (if WithdrawalPeriod cfg > 0 then Some (now + WithdrawalPeriod cfg) else None)\<rparr>
      in if isNew then runEscrowCheck lid False (b\<lparr>bc_leases := (bc_leases b)(lid \<mapsto> st)\<rparr>)
         else timerFunc now checkIn lid False st b)"

definition handle_check :: "balance_config \<Rightarrow> int \<Rightarrow> bool \<Rightarrow> leaseCheckResponse \<Rightarrow> balanceChecker \<Rightarrow> balanceChecker" where
  "handle_check cfg now published res b =
     (case bc_leases b (cr_lid res) of
        None \<Rightarrow> b
      | Some st \<Rightarrow>
        if cr_closed res \<and> published
        then removeLease (cr_lid res) (b\<lparr>bc_published := bc_published b @ [cr_lid res]\<rparr>)
        else if cr_closed res \<or> cr_err res \<noteq> None
        then timerFunc now minute (cr_lid res) (cr_state res = respStateScheduledWithdraw) st b
        else
          (let withdraw = (cr_state res \<noteq> respStateNextCheck);
               st1 = (if withdraw \<and> WithdrawalPeriod cfg > 0 then st\<lparr>ls_scheduledWithdrawAt := Some (now + WithdrawalPeriod cfg)\<rparr> else st);
               (period, scheduled) =
                 (case (if withdraw then None else ls_scheduledWithdrawAt st1) of
                    None \<Rightarrow> (cr_checkAfter res, False)
                  | Some t \<Rightarrow> if cr_checkAfter res \<ge> t - now then (t - now, True) else (cr_checkAfter res, False));
               b1 = timerFunc now period (cr_lid res) scheduled st1 b
           in if withdraw then b1\<lparr>bc_withdraws := bc_withdraws b1 @ [cr_lid res]\<rparr> else b1))"

text \<open>
  \<open>BcCheck\<close> is the arrival of the result of a check in flight, computed from the chain's answers;
  \<open>published\<close> is whether publishing \<open>EventLeaseClosed\<close> succeeded.
\<close>

datatype balance_event =
    BcShutdown
  | BcAdd lease_id bool int int
  | BcRemove lease_id
  | BcTimer nat
  | BcCheck lease_id bool escrow_answers int bool

definition balance_step :: "balance_lib \<Rightarrow> balance_config \<Rightarrow> balanceChecker \<Rightarrow> balance_event \<Rightarrow> balanceChecker option" where
  "balance_step lib cfg b ev =
     (case ev of
        BcShutdown \<Rightarrow> None
      | BcAdd lid isNew now checkIn \<Rightarrow> Some (add_lease cfg now checkIn lid isNew b)
      | BcRemove lid \<Rightarrow> Some (removeLease lid b)
      | BcTimer i \<Rightarrow>
          Some (case bc_timers b i of
                  None \<Rightarrow> b
                | Some t \<Rightarrow> runEscrowCheck (tm_lid t) (tm_scheduled t) (b\<lparr>bc_timers := (bc_timers b)(i := None)\<rparr>))
      | BcCheck lid scheduled ans now published \<Rightarrow>
          Some (if (lid, scheduled) \<in> set (bc_checks b)
                then handle_check cfg now published (doEscrowCheck lib cfg ans lid scheduled)
                       (b\<lparr>bc_checks := remove1 (lid, scheduled) (bc_checks b)\<rparr>)
                else b))"

definition balance_run :: "balance_lib \<Rightarrow> balance_config \<Rightarrow> balance_event list \<Rightarrow> balanceChecker" where
  "balance_run lib cfg evs = run_until (balance_step lib cfg) newBalanceChecker evs"

text \<open>The limits \<open>run.go\<close> puts on the two durations.\<close>

definition balance_flags_ok :: "balance_config \<Rightarrow> bool" where
  "balance_flags_ok cfg =
     (minute \<le> LeaseFundsCheckInterval cfg \<and> LeaseFundsCheckInterval cfg \<le> 24 * 60 * minute \<and>
      \<not> (WithdrawalPeriod cfg > 0 \<and> WithdrawalPeriod cfg < LeaseFundsCheckInterval cfg))"

section \<open>Lemmas\<close>

text \<open>A lease is watched when a timer for it is armed or a check of it is in flight.\<close>

definition watched :: "balanceChecker \<Rightarrow> lease_id \<Rightarrow> bool" where
  "watched b lid = ((\<exists>i t. bc_timers b i = Some t \<and> tm_lid t = lid) \<or> lid \<in> fst ` set (bc_checks b))"

definition balance_inv :: "balanceChecker \<Rightarrow> bool" where
  "balance_inv b =
     ((\<forall>lid st. bc_leases b lid = Some st \<longrightarrow> watched b lid) \<and>
      (\<forall>i. bc_timers b i \<noteq> None \<longrightarrow> i < bc_next b) \<and>
      (\<forall>lid st i. bc_leases b lid = Some st \<and> ls_tm st = Some i \<longrightarrow> i < bc_next b \<and> (\<forall>t. bc_timers b i = Some t \<longrightarrow> tm_lid t = lid)))"

lemma watched_timer: "bc_timers b i = Some t \<Longrightarrow> watched b (tm_lid t)"
  by (auto simp: watched_def)

lemma timerFunc_inv:
  assumes "\<forall>l st. bc_leases b l = Some st \<and> l \<noteq> lid \<longrightarrow> watched b l"
    and "\<forall>i. bc_timers b i \<noteq> None \<longrightarrow> i < bc_next b"
    and "\<forall>l st i. bc_leases b l = Some st \<and> ls_tm st = Some i \<longrightarrow> i < bc_next b \<and> (\<forall>t. bc_timers b i = Some t \<longrightarrow> tm_lid t = l)"
  shows "balance_inv (timerFunc now d lid sch st b)"
proof -
  let ?b = "timerFunc now d lid sch st b"
  have keep: "watched ?b l" if "watched b l" for l
  proof -
    from that consider i t where "bc_timers b i = Some t" "tm_lid t = l" | "l \<in> fst ` set (bc_checks b)" by (auto simp: watched_def)
    then show ?thesis
    proof cases
      case 1
      then have "bc_timers ?b i = Some t" using assms(2) by (auto simp: timerFunc_def)
      then show ?thesis using 1(2) watched_timer by blast
    qed (simp add: watched_def timerFunc_def)
  qed
  have "watched ?b lid" by (auto simp: watched_def timerFunc_def)
  then have "\<forall>l st. bc_leases ?b l = Some st \<longrightarrow> watched ?b l" using assms(1) keep by (auto simp: timerFunc_def)
  moreover have "\<forall>i. bc_timers ?b i \<noteq> None \<longrightarrow> i < bc_next ?b" using assms(2) by (auto simp: timerFunc_def less_SucI)
  moreover have "\<forall>l st i. bc_leases ?b l = Some st \<and> ls_tm st = Some i \<longrightarrow> i < bc_next ?b \<and> (\<forall>t. bc_timers ?b i = Some t \<longrightarrow> tm_lid t = l)"
    using assms(3) by (auto simp: timerFunc_def less_SucI)
  ultimately show ?thesis by (simp add: balance_inv_def)
qed

lemma removeLease_inv:
  assumes "\<forall>l st. bc_leases b l = Some st \<and> l \<noteq> lid \<longrightarrow> watched b l"
    and "\<forall>i. bc_timers b i \<noteq> None \<longrightarrow> i < bc_next b"
    and "\<forall>l st i. bc_leases b l = Some st \<and> ls_tm st = Some i \<longrightarrow> i < bc_next b \<and> (\<forall>t. bc_timers b i = Some t \<longrightarrow> tm_lid t = l)"
  shows "balance_inv (removeLease lid b)"
proof (cases "bc_leases b lid")
  case None
  then show ?thesis using assms by (auto simp: removeLease_def balance_inv_def)
next
  case (Some st)
  let ?b = "removeLease lid b"
  have "watched ?b l" if "watched b l" "l \<noteq> lid" for l
  proof -
    from that(1) consider i t where "bc_timers b i = Some t" "tm_lid t = l" | "l \<in> fst ` set (bc_checks b)" by (auto simp: watched_def)
    then show ?thesis
    proof cases
      case 1
      then have "ls_tm st \<noteq> Some i" using assms(3) Some that(2) by blast
      then have "bc_timers ?b i = Some t" using 1 Some by (auto simp: removeLease_def split: option.split)
      then show ?thesis using 1(2) watched_timer by blast
    qed (simp add: watched_def removeLease_def Some)
  qed
  then show ?thesis using assms Some
    by (auto simp: balance_inv_def removeLease_def split: option.splits if_splits)
qed

lemma handle_check_inv:
  assumes "\<forall>l st. bc_leases b l = Some st \<and> l \<noteq> cr_lid res \<longrightarrow> watched b l"
    and "\<forall>i. bc_timers b i \<noteq> None \<longrightarrow> i < bc_next b"
    and "\<forall>l st i. bc_leases b l = Some st \<and> ls_tm st = Some i \<longrightarrow> i < bc_next b \<and> (\<forall>t. bc_timers b i = Some t \<longrightarrow> tm_lid t = l)"
  shows "balance_inv (handle_check cfg now published res b)"
proof (cases "bc_leases b (cr_lid res)")
  case None
  then show ?thesis using assms by (auto simp: handle_check_def balance_inv_def)
next
  case (Some st)
  have r: "balance_inv (removeLease (cr_lid res) (b\<lparr>bc_published := x\<rparr>))" for x
    by (rule removeLease_inv) (use assms in \<open>simp_all add: watched_def\<close>)
  have t: "balance_inv (timerFunc now d (cr_lid res) sch st' b)" for d sch st' by (rule timerFunc_inv[OF assms])
  have w: "balance_inv b' \<Longrightarrow> balance_inv (b'\<lparr>bc_withdraws := ws\<rparr>)" for b' ws by (simp add: balance_inv_def watched_def)
  show ?thesis using r t w by (simp add: handle_check_def Some Let_def split: prod.split)
qed

lemma remove_check_inv:
  assumes "balance_inv b"
  shows "\<forall>l st. bc_leases b l = Some st \<and> l \<noteq> lid \<longrightarrow> watched (b\<lparr>bc_checks := remove1 (lid, s) (bc_checks b)\<rparr>) l"
proof (intro allI impI)
  fix l st assume l: "bc_leases b l = Some st \<and> l \<noteq> lid"
  then have "watched b l" using assms by (simp add: balance_inv_def)
  then show "watched (b\<lparr>bc_checks := remove1 (lid, s) (bc_checks b)\<rparr>) l"
    using l by (force simp: watched_def)
qed

lemma balance_step_inv:
  assumes "balance_inv b" and "balance_step lib cfg b ev = Some b'"
  shows "balance_inv b'"
proof (cases ev)
  case (BcAdd lid isNew now checkIn)
  have "balance_inv (timerFunc now checkIn lid False st b)" for st
    by (rule timerFunc_inv) (use assms(1) in \<open>auto simp: balance_inv_def\<close>)
  moreover have "balance_inv (runEscrowCheck lid False (b\<lparr>bc_leases := (bc_leases b)(lid \<mapsto> \<lparr>ls_tm = None, ls_scheduledWithdrawAt = w\<rparr>)\<rparr>))" for w
    using assms(1) by (auto simp: balance_inv_def runEscrowCheck_def watched_def)
  ultimately show ?thesis using assms(2) BcAdd by (auto simp: balance_step_def add_lease_def Let_def)
next
  case (BcRemove lid)
  then show ?thesis using assms removeLease_inv[of b lid] by (auto simp: balance_step_def balance_inv_def)
next
  case (BcTimer i)
  show ?thesis
  proof (cases "bc_timers b i")
    case (Some t)
    have "watched b' l" if "watched b l" for l
    proof -
      have b': "b' = runEscrowCheck (tm_lid t) (tm_scheduled t) (b\<lparr>bc_timers := (bc_timers b)(i := None)\<rparr>)"
        using assms(2) BcTimer Some by (simp add: balance_step_def)
      from that consider j u where "bc_timers b j = Some u" "tm_lid u = l" | "l \<in> fst ` set (bc_checks b)" by (auto simp: watched_def)
      then show ?thesis
      proof cases
        case 1
        then show ?thesis using Some by (cases "j = i") (auto simp: b' watched_def runEscrowCheck_def)
      qed (simp add: b' watched_def runEscrowCheck_def)
    qed
    moreover have "bc_leases b' = bc_leases b" "bc_next b' = bc_next b" "bc_timers b' = (bc_timers b)(i := None)"
      using assms(2) BcTimer Some by (auto simp: balance_step_def runEscrowCheck_def)
    ultimately show ?thesis using assms(1) unfolding balance_inv_def by (simp add: fun_upd_def)
  qed (use assms BcTimer in \<open>simp add: balance_step_def\<close>)
next
  case (BcCheck lid s ans now pub)
  have lid: "cr_lid (doEscrowCheck lib cfg ans lid s) = lid"
    by (simp add: doEscrowCheck_def Let_def split: option.split prod.split)
  have "balance_inv (handle_check cfg now pub (doEscrowCheck lib cfg ans lid s) (b\<lparr>bc_checks := remove1 (lid, s) (bc_checks b)\<rparr>))"
    by (rule handle_check_inv) (use assms(1) remove_check_inv[OF assms(1), of lid s] lid in \<open>simp_all add: balance_inv_def\<close>)
  then show ?thesis using assms BcCheck by (auto simp: balance_step_def split: if_splits)
qed (use assms in \<open>simp add: balance_step_def\<close>)

lemma balance_run_inv: "balance_inv (balance_run lib cfg evs)"
  unfolding balance_run_def
  by (rule run_until_invariant[where I = balance_inv]) (simp add: balance_inv_def newBalanceChecker_def, rule balance_step_inv)

lemma escrow_check_state:
  assumes "cr_err (doEscrowCheck lib cfg ans lid s) = None" and "\<not> cr_closed (doEscrowCheck lib cfg ans lid s)"
  obtains height st funds settledAt as rs blocks where "ea_sync ans = Some (False, height)" and "ea_lease ans = Some (lid, st)"
    and "st = LeaseActive \<or> (\<exists>dl. st = LeaseReclaiming dl)" and "ea_account ans = Some (funds, settledAt)"
    and "ea_active ans = Some as" and "ea_reclaiming ans = Some rs"
    and "blocks = LeaseCalcBlocksRemain lib (LeaseCalcBalanceRemain lib (map_of funds ''uact'') height settledAt (sum_list as + sum_list rs)) (sum_list as + sum_list rs)"
    and "cr_state (doEscrowCheck lib cfg ans lid s) =
      (if blocks \<le> 0 then respStateOutOfFunds else if s then respStateScheduledWithdraw else respStateNextCheck)"
    and "cr_checkAfter (doEscrowCheck lib cfg ans lid s) =
      (if blocks \<le> 0 then 10 * minute else min blocks (LeaseFundsCheckInterval cfg div AverageBlockTime lib) * AverageBlockTime lib)"
proof -
  obtain height where sy: "ea_sync ans = Some (False, height)"
    using assms(1) by (auto simp: doEscrowCheck_def Let_def split: option.splits if_splits)
  obtain rid st where l: "ea_lease ans = Some (rid, st)"
    using assms(1) sy by (auto simp: doEscrowCheck_def Let_def split: option.splits)
  have rid: "rid = lid" using assms(1) by (rule_tac ccontr) (simp add: doEscrowCheck_def Let_def sy l)
  have st: "st = LeaseActive \<or> (\<exists>dl. st = LeaseReclaiming dl)"
    using assms by (cases st) (simp_all add: doEscrowCheck_def Let_def sy l rid)
  then have st': "st \<notin> {LeaseClosed, LeaseInsufficientFunds}" "st \<noteq> LeaseStateInvalid" by auto
  obtain funds settledAt where ac: "ea_account ans = Some (funds, settledAt)"
    using assms(1) st' by (cases "ea_account ans") (auto simp: doEscrowCheck_def Let_def sy l rid)
  obtain as where as: "ea_active ans = Some as"
    using assms(1) st' by (cases "ea_active ans") (auto simp: doEscrowCheck_def Let_def sy l rid ac)
  obtain rs where rs: "ea_reclaiming ans = Some rs"
    using assms(1) st' by (cases "ea_reclaiming ans") (auto simp: doEscrowCheck_def Let_def sy l rid ac as)
  show ?thesis
    by (rule that[OF sy _ st ac as rs refl]) (use st' in \<open>simp_all add: doEscrowCheck_def Let_def sy l rid ac as rs\<close>)
qed

section \<open>Properties\<close>

text \<open>C28: no lease is forgotten. In every run of the balance checker, every lease it monitors has a
  timer armed or a check in flight, after any mix of additions, removals, failed queries and
  repeated additions.\<close>

theorem monitored_lease_watched:
  assumes "bc_leases (balance_run lib cfg evs) lid = Some st"
  shows "(\<exists>i t. bc_timers (balance_run lib cfg evs) i = Some t \<and> tm_lid t = lid) \<or> lid \<in> fst ` set (bc_checks (balance_run lib cfg evs))"
  using balance_run_inv[of lib cfg evs] assms by (auto simp: balance_inv_def watched_def)

definition ex_bc_lease :: lease_id where
  "ex_bc_lease = \<lparr>l_owner = ''alice'', l_dseq = 1, l_gseq = 1, l_oseq = 1, l_provider = ''p''\<rparr>"

definition ex_bc_cfg :: balance_config where
  "ex_bc_cfg = \<lparr>WithdrawalPeriod = 60 * minute, LeaseFundsCheckInterval = 10 * minute\<rparr>"

definition ex_bc_lib :: balance_lib where
  "ex_bc_lib = \<lparr>AverageBlockTime = 6000000000,
     LeaseCalcBalanceRemain = (\<lambda>bal h s total. (case bal of None \<Rightarrow> 0 | Some x \<Rightarrow> x) - of_int (h - s) * total),
     LeaseCalcBlocksRemain = (\<lambda>bal total. if total = 0 then 0 else \<lfloor>bal / total\<rfloor>)\<rparr>"

definition ex_bc_ans :: "rat \<Rightarrow> escrow_answers" where
  "ex_bc_ans bal = \<lparr>ea_sync = Some (False, 10), ea_lease = Some (ex_bc_lease, LeaseActive), ea_account = Some ([(''uact'', bal)], 10),
     ea_active = Some [2], ea_reclaiming = Some []\<rparr>"

theorem monitored_lease_watched_witness:
  "\<exists>i t. bc_timers (balance_run ex_bc_lib ex_bc_cfg [BcAdd ex_bc_lease False 0 5]) i = Some t \<and> tm_lid t = ex_bc_lease"
  using monitored_lease_watched[of ex_bc_lib ex_bc_cfg "[BcAdd ex_bc_lease False 0 5]" ex_bc_lease]
  by (simp add: balance_run_def balance_step_def add_lease_def timerFunc_def newBalanceChecker_def)

text \<open>withdrawals are justified. A turn of the loop that sends a withdrawal handles the result of a
  check of that lease, the node was synced, the chain has the lease active or reclaiming, and the
  account has no block left or the check was made for a periodic withdrawal.\<close>

theorem withdraw_justified:
  assumes "balance_step lib cfg b ev = Some b'" and "bc_withdraws b' \<noteq> bc_withdraws b"
  shows "\<exists>lid s ans now pub height st. ev = BcCheck lid s ans now pub \<and> bc_withdraws b' = bc_withdraws b @ [lid] \<and>
    ea_sync ans = Some (False, height) \<and> ea_lease ans = Some (lid, st) \<and> st \<notin> {LeaseClosed, LeaseInsufficientFunds} \<and>
    (s \<or> cr_state (doEscrowCheck lib cfg ans lid s) = respStateOutOfFunds)"
proof -
  have keeps: "bc_withdraws (removeLease l x) = bc_withdraws x" "bc_withdraws (timerFunc n p l f y x) = bc_withdraws x" for l x n p f y
    by (simp_all add: removeLease_def timerFunc_def split: option.split)
  obtain lid s ans now pub where ev: "ev = BcCheck lid s ans now pub" "(lid, s) \<in> set (bc_checks b)"
    using assms by (cases ev) (auto simp: balance_step_def add_lease_def runEscrowCheck_def keeps Let_def split: option.splits if_splits)
  let ?r = "doEscrowCheck lib cfg ans lid s"
  have lid: "cr_lid ?r = lid" by (simp add: doEscrowCheck_def Let_def split: option.split prod.split)
  have b': "b' = handle_check cfg now pub ?r (b\<lparr>bc_checks := remove1 (lid, s) (bc_checks b)\<rparr>)" using assms(1) ev by (simp add: balance_step_def)
  have ok: "cr_err ?r = None" "\<not> cr_closed ?r" "cr_state ?r \<noteq> respStateNextCheck" "bc_withdraws b' = bc_withdraws b @ [lid]"
    using assms(2) lid by (auto simp: b' handle_check_def keeps Let_def split: option.splits if_splits prod.splits)
  show ?thesis
    by (rule escrow_check_state[OF ok(1,2)]) (use ev ok(3,4) in \<open>auto split: if_splits\<close>)
qed

theorem withdraw_justified_witness:
  "bc_withdraws (balance_run ex_bc_lib ex_bc_cfg [BcAdd ex_bc_lease True 0 0, BcCheck ex_bc_lease False (ex_bc_ans 1) 5 True]) = [ex_bc_lease] \<and>
   cr_state (doEscrowCheck ex_bc_lib ex_bc_cfg (ex_bc_ans 1) ex_bc_lease False) = respStateOutOfFunds"
proof -
  let ?b = "balance_run ex_bc_lib ex_bc_cfg [BcAdd ex_bc_lease True 0 0]"
  let ?ev = "BcCheck ex_bc_lease False (ex_bc_ans 1) 5 True"
  have e: "\<exists>b'. balance_step ex_bc_lib ex_bc_cfg ?b ?ev = Some b' \<and> bc_withdraws b' = [ex_bc_lease] \<and> bc_withdraws ?b = []"
    by (simp add: balance_run_def balance_step_def add_lease_def runEscrowCheck_def newBalanceChecker_def handle_check_def timerFunc_def
        doEscrowCheck_def ex_bc_ans_def ex_bc_lib_def ex_bc_cfg_def minute_def Let_def)
  then obtain b' where b': "balance_step ex_bc_lib ex_bc_cfg ?b ?ev = Some b'" "bc_withdraws b' = [ex_bc_lease]" "bc_withdraws ?b = []" by blast
  have add: "balance_step ex_bc_lib ex_bc_cfg b (BcAdd l n t c) = Some (add_lease ex_bc_cfg t c l n b)" for b l n t c
    by (simp add: balance_step_def)
  have "balance_run ex_bc_lib ex_bc_cfg [BcAdd ex_bc_lease True 0 0, ?ev] = b'" using b'(1) by (simp add: balance_run_def add)
  then show ?thesis using withdraw_justified[OF b'(1)] b'(2,3) by auto
qed

lemma capped_blocks:
  fixes A I blocks :: int
  assumes "0 < A" and "0 \<le> I" and "0 < blocks"
  shows "0 \<le> min blocks (I div A) * A" and "min blocks (I div A) * A \<le> I"
proof -
  have "0 \<le> I div A" using assms by (simp add: pos_imp_zdiv_nonneg_iff)
  then show "0 \<le> min blocks (I div A) * A" using assms by simp
  have "min blocks (I div A) * A \<le> I div A * A" using assms by (intro mult_right_mono) simp_all
  also have "\<dots> \<le> I" using assms by (metis add_increasing2 div_mult_mod_eq eq_refl pos_mod_sign)
  finally show "min blocks (I div A) * A \<le> I" .
qed

text \<open>the next check comes in time. With durations that the command line accepts and an average
  block time of at most a minute, the handling of a check of a monitored lease that found no error arms
  a timer for it that is due no earlier than now and no later than ten minutes or the check
  interval from now; and for a lease with funds it is due no later than the lease's next periodic
  withdrawal, unless that is overdue, in which case it is due at once.\<close>

theorem next_check_in_time:
  assumes "balance_flags_ok cfg" and "0 < AverageBlockTime lib" and "AverageBlockTime lib \<le> minute"
    and "bc_leases b lid = Some st" and "(lid, s) \<in> set (bc_checks b)"
    and "cr_err (doEscrowCheck lib cfg ans lid s) = None" and "\<not> cr_closed (doEscrowCheck lib cfg ans lid s)"
    and "balance_step lib cfg b (BcCheck lid s ans now pub) = Some b'"
  shows "\<exists>st' i t. bc_leases b' lid = Some st' \<and> ls_tm st' = Some i \<and> bc_timers b' i = Some t \<and> tm_lid t = lid \<and>
    now \<le> tm_due t \<and> tm_due t \<le> now + max (10 * minute) (LeaseFundsCheckInterval cfg) \<and>
    (WithdrawalPeriod cfg > 0 \<and> cr_state (doEscrowCheck lib cfg ans lid s) \<noteq> respStateOutOfFunds \<longrightarrow>
      (\<forall>w. ls_scheduledWithdrawAt st' = Some w \<longrightarrow> tm_due t \<le> max now w))"
proof -
  let ?r = "doEscrowCheck lib cfg ans lid s" and ?I = "LeaseFundsCheckInterval cfg"
  have lid: "cr_lid ?r = lid" by (simp add: doEscrowCheck_def Let_def split: option.split prod.split)
  have I: "minute \<le> ?I" "0 \<le> ?I" using assms(1) by (simp_all add: balance_flags_ok_def minute_def)
  have W: "?I \<le> WithdrawalPeriod cfg" if "WithdrawalPeriod cfg > 0" using assms(1) that by (simp add: balance_flags_ok_def)
  obtain blocks where r: "cr_state ?r = (if blocks \<le> 0 then respStateOutOfFunds else if s then respStateScheduledWithdraw else respStateNextCheck)"
      "cr_checkAfter ?r = (if blocks \<le> 0 then 10 * minute else min blocks (?I div AverageBlockTime lib) * AverageBlockTime lib)"
    by (rule escrow_check_state[OF assms(6,7)]) blast
  have after: "0 \<le> cr_checkAfter ?r" "cr_checkAfter ?r \<le> max (10 * minute) ?I" "blocks > 0 \<Longrightarrow> cr_checkAfter ?r \<le> ?I"
    using capped_blocks[OF assms(2) I(2), of blocks] by (cases "blocks \<le> 0"; simp add: r(2) minute_def max.coboundedI2)+
  have b': "b' = handle_check cfg now pub ?r (b\<lparr>bc_checks := remove1 (lid, s) (bc_checks b)\<rparr>)" using assms(5,8) by (simp add: balance_step_def)
  show ?thesis
  proof (cases "cr_state ?r = respStateNextCheck")
    case True
    then have pos: "blocks > 0" by (simp add: r(1) split: if_splits)
    show ?thesis
    proof (cases "ls_scheduledWithdrawAt st")
      case None
      then show ?thesis using True after pos assms(4,6,7)
        by (simp add: b' handle_check_def lid timerFunc_def Let_def)
    next
      case (Some w)
      then show ?thesis using True after pos assms(4,6,7)
        by (cases "cr_checkAfter ?r \<ge> w - now") (auto simp: b' handle_check_def lid timerFunc_def Let_def)
    qed
  next
    case False
    have "tm \<le> max now w" if "tm = now + cr_checkAfter ?r" "w = now + WithdrawalPeriod cfg" "blocks > 0" "WithdrawalPeriod cfg > 0" for tm w
      using that after W by simp
    then show ?thesis using False after assms(4,6,7) r(1)
      by (auto simp: b' handle_check_def lid timerFunc_def Let_def)
  qed
qed

theorem next_check_in_time_witness:
  "\<exists>st' i t. bc_leases (balance_run ex_bc_lib ex_bc_cfg [BcAdd ex_bc_lease True 0 0, BcCheck ex_bc_lease False (ex_bc_ans 100) 5 True]) ex_bc_lease = Some st' \<and>
     ls_tm st' = Some i \<and> bc_timers (balance_run ex_bc_lib ex_bc_cfg [BcAdd ex_bc_lease True 0 0, BcCheck ex_bc_lease False (ex_bc_ans 100) 5 True]) i = Some t \<and>
     tm_due t \<le> 5 + 10 * minute"
proof -
  let ?b = "balance_run ex_bc_lib ex_bc_cfg [BcAdd ex_bc_lease True 0 0]"
  let ?ev = "BcCheck ex_bc_lease False (ex_bc_ans 100) 5 True"
  obtain b' where b': "balance_step ex_bc_lib ex_bc_cfg ?b ?ev = Some b'" by (simp add: balance_step_def)
  have "\<exists>st. bc_leases ?b ex_bc_lease = Some st" "(ex_bc_lease, False) \<in> set (bc_checks ?b)"
    by (simp_all add: balance_run_def balance_step_def add_lease_def runEscrowCheck_def)
  moreover have "balance_flags_ok ex_bc_cfg" by (simp add: balance_flags_ok_def ex_bc_cfg_def minute_def)
  moreover have "cr_err (doEscrowCheck ex_bc_lib ex_bc_cfg (ex_bc_ans 100) ex_bc_lease False) = None"
      "\<not> cr_closed (doEscrowCheck ex_bc_lib ex_bc_cfg (ex_bc_ans 100) ex_bc_lease False)"
    by (simp_all add: doEscrowCheck_def ex_bc_ans_def ex_bc_lib_def ex_bc_cfg_def minute_def Let_def)
  moreover have "0 < AverageBlockTime ex_bc_lib" "AverageBlockTime ex_bc_lib \<le> minute" by (simp_all add: ex_bc_lib_def minute_def)
  ultimately obtain st' i t where "bc_leases b' ex_bc_lease = Some st'" "ls_tm st' = Some i" "bc_timers b' i = Some t"
      "tm_due t \<le> 5 + max (10 * minute) (LeaseFundsCheckInterval ex_bc_cfg)"
    using next_check_in_time[OF _ _ _ _ _ _ _ b'] by blast
  moreover have "balance_run ex_bc_lib ex_bc_cfg [BcAdd ex_bc_lease True 0 0, ?ev] = b'"
    using b' by (simp add: balance_run_def) (simp add: balance_step_def[of _ _ _ "BcAdd _ _ _ _"])
  ultimately show ?thesis by (auto simp: ex_bc_cfg_def)
qed

text \<open>a lease the chain has closed is torn down without a transaction. When a check of a monitored
  lease finds it closed or out of funds on the chain and the local event is published, the lease is no longer
  monitored, its timer is stopped and nothing is withdrawn; when publishing fails it is checked
  again in a minute.\<close>

theorem closed_lease_reported:
  assumes "bc_leases b lid = Some st" and "(lid, s) \<in> set (bc_checks b)" and "ea_sync ans = Some (False, height)"
    and "ea_lease ans = Some (lid, lst)" and "lst \<in> {LeaseClosed, LeaseInsufficientFunds}"
    and "balance_step lib cfg b (BcCheck lid s ans now pub) = Some b'"
  shows "bc_withdraws b' = bc_withdraws b \<and>
    (if pub then bc_leases b' lid = None \<and> bc_published b' = bc_published b @ [lid] \<and> (\<forall>i. ls_tm st = Some i \<longrightarrow> bc_timers b' i = None)
     else bc_timers b' (bc_next b) = Some \<lparr>tm_lid = lid, tm_due = now + minute, tm_scheduled = s\<rparr>)"
  using assms
  by (auto simp: balance_step_def doEscrowCheck_def handle_check_def removeLease_def timerFunc_def minute_def Let_def split: option.splits)

theorem closed_lease_reported_witness:
  "bc_leases (balance_run ex_bc_lib ex_bc_cfg [BcAdd ex_bc_lease True 0 0,
     BcCheck ex_bc_lease False ((ex_bc_ans 100)\<lparr>ea_lease := Some (ex_bc_lease, LeaseClosed)\<rparr>) 5 True]) ex_bc_lease = None"
proof -
  let ?b = "balance_run ex_bc_lib ex_bc_cfg [BcAdd ex_bc_lease True 0 0]"
  let ?ans = "(ex_bc_ans 100)\<lparr>ea_lease := Some (ex_bc_lease, LeaseClosed)\<rparr>"
  obtain b' where b': "balance_step ex_bc_lib ex_bc_cfg ?b (BcCheck ex_bc_lease False ?ans 5 True) = Some b'" by (simp add: balance_step_def)
  obtain st where "bc_leases ?b ex_bc_lease = Some st" "(ex_bc_lease, False) \<in> set (bc_checks ?b)"
    by (simp add: balance_run_def balance_step_def add_lease_def runEscrowCheck_def)
  then have "bc_leases b' ex_bc_lease = None"
    using closed_lease_reported[OF _ _ _ _ _ b', of st 10 LeaseClosed] by (simp add: ex_bc_ans_def)
  moreover have "balance_run ex_bc_lib ex_bc_cfg [BcAdd ex_bc_lease True 0 0, BcCheck ex_bc_lease False ?ans 5 True] = b'"
    using b' by (simp add: balance_run_def) (simp add: balance_step_def[of _ _ _ "BcAdd _ _ _ _"])
  ultimately show ?thesis by simp
qed

end
