(* ===== verification/ProviderAttributes.thy ===== *)
theory ProviderAttributes
  imports Prelude
begin

text \<open>
  The provider attribute service of the bid engine (\<open>bidengine/provider_attributes.go\<close>): a cache of what
  auditors have signed about the provider, filled on demand, and the provider's own attributes,
  handed out through a one-place channel. The two halves share a loop but no state, so each
  is a machine of its own. Requests are numbered, their reply channels are the log of
  replies; what an auditor signed is a list whose entries carry their attributes.
\<close>

section \<open>Signed attributes\<close>

type_synonym audited = "string list list"

record providerAttrEntry =
  pe_providerAttr :: audited
  pe_at :: int

datatype attr_reply = AttrOk audited | AttrErr string

record pass =
  pa_data :: "string \<rightharpoonup> providerAttrEntry"
  pa_pending :: "string \<rightharpoonup> nat list"
  pa_inProgress :: "string set"
  pa_fetching :: "string list"
  pa_replies :: "(nat \<times> attr_reply) list"
  pa_running :: bool

definition newPass :: pass where
  "newPass = \<lparr>pa_data = Map.empty, pa_pending = Map.empty, pa_inProgress = {}, pa_fetching = [], pa_replies = [], pa_running = True\<rparr>"

abbreviation pending_of :: "pass \<Rightarrow> string \<Rightarrow> nat list" where
  "pending_of p a \<equiv> (case pa_pending p a of None \<Rightarrow> [] | Some rs \<Rightarrow> rs)"

definition purgeAuditor :: "string \<Rightarrow> pass \<Rightarrow> pass" where
  "purgeAuditor auditor p = p\<lparr>pa_data := (pa_data p)(auditor := None)\<rparr>"

definition failAllPending :: "string \<Rightarrow> string \<Rightarrow> pass \<Rightarrow> pass" where
  "failAllPending auditor err p =
     p\<lparr>pa_replies := pa_replies p @ map (\<lambda>r. (r, AttrErr err)) (pending_of p auditor), pa_pending := (pa_pending p)(auditor := None)\<rparr>"

definition providerAttrSize :: "audited \<Rightarrow> nat" where
  "providerAttrSize entries = sum_list (map length entries)"

definition maxEntries :: nat where "maxEntries = 50000"

text \<open>
  The second loop of \<open>trimCache\<close>: the auditors to delete, in the order \<open>keys\<close> of the iteration, up to
  and with the first one that brings their size to the target.
\<close>

fun to_delete :: "(string \<rightharpoonup> providerAttrEntry) \<Rightarrow> nat \<Rightarrow> string list \<Rightarrow> string list" where
  "to_delete d sz [] = []"
| "to_delete d sz (k # ks) =
     (case d k of
        None \<Rightarrow> to_delete d sz ks
      | Some e \<Rightarrow>
          (let sz' = sz + providerAttrSize (pe_providerAttr e)
           in if sz' \<ge> maxEntries div 2 then [k] else k # to_delete d sz' ks))"

definition cache_size :: "(string \<rightharpoonup> providerAttrEntry) \<Rightarrow> string list \<Rightarrow> nat" where
  "cache_size d keys = sum_list (map (\<lambda>k. case d k of None \<Rightarrow> 0 | Some e \<Rightarrow> providerAttrSize (pe_providerAttr e)) keys)"

definition drop_keys :: "string list \<Rightarrow> (string \<rightharpoonup> providerAttrEntry) \<Rightarrow> (string \<rightharpoonup> providerAttrEntry)" where
  "drop_keys ks d = (\<lambda>k. if k \<in> set ks then None else d k)"

definition expired_keys :: "int \<Rightarrow> int \<Rightarrow> (string \<rightharpoonup> providerAttrEntry) \<Rightarrow> string list \<Rightarrow> string list" where
  "expired_keys ttl now d keys = filter (\<lambda>k. case d k of None \<Rightarrow> False | Some e \<Rightarrow> now - pe_at e > ttl) keys"

definition trimCache :: "int \<Rightarrow> int \<Rightarrow> string list \<Rightarrow> (string \<rightharpoonup> providerAttrEntry) \<Rightarrow> (string \<rightharpoonup> providerAttrEntry)" where
  "trimCache ttl now keys d =
     (let d1 = drop_keys (expired_keys ttl now d keys) d
      in if cache_size d1 keys > maxEntries then drop_keys (to_delete d1 0 keys) d1 else d1)"

definition completeAllPending :: "int \<Rightarrow> int \<Rightarrow> string list \<Rightarrow> string \<Rightarrow> audited \<Rightarrow> pass \<Rightarrow> pass" where
  "completeAllPending ttl now keys auditor result p =
     p\<lparr>pa_pending := (pa_pending p)(auditor := None),
       pa_data := trimCache ttl now keys ((pa_data p)(auditor \<mapsto> \<lparr>pe_providerAttr = result, pe_at = now\<rparr>)),
       pa_replies := pa_replies p @ map (\<lambda>r. (r, AttrOk result)) (pending_of p auditor)\<rparr>"

definition maybeStart :: "string \<Rightarrow> pass \<Rightarrow> pass" where
  "maybeStart auditor p =
     (if pending_of p auditor = [] then p
      else if auditor \<in> pa_inProgress p then p
      else p\<lparr>pa_fetching := pa_fetching p @ [auditor]\<rparr>)"

text \<open>\<open>addRequest\<close>: whether the caller has to start a fetch.\<close>

definition addRequest :: "int \<Rightarrow> int \<Rightarrow> string \<Rightarrow> nat \<Rightarrow> pass \<Rightarrow> pass \<times> bool" where
  "addRequest ttl now auditor r p =
     (let queued = (p\<lparr>pa_pending := (pa_pending p)(auditor \<mapsto> pending_of p auditor @ [r])\<rparr>, True)
      in case pa_data p auditor of
           None \<Rightarrow> queued
         | Some e \<Rightarrow> if now - pe_at e < ttl then (p\<lparr>pa_replies := pa_replies p @ [(r, AttrOk (pe_providerAttr e))]\<rparr>, False) else queued)"

text \<open>
  \<open>fetch\<close> on the answer of the query; an error whose text says that the provider is not known is
  no data (\<open>unknown\<close> is the match of the pattern).
\<close>

definition pass_fetch :: "(string \<Rightarrow> bool) \<Rightarrow> string + audited \<Rightarrow> string + audited" where
  "pass_fetch unknown answer = (case answer of Inl e \<Rightarrow> if unknown e then Inr [] else Inl e | Inr v \<Rightarrow> Inr v)"

datatype pass_event =
    PassShutdown
  | PassAuditorChanged string string
  | PassRequest string nat int
  | PassResult string "string + audited" int "string list"

text \<open>
  One turn; \<open>own\<close> is the provider's address, \<open>keys\<close> the order in which the cache is walked. After the loop a
  fetch that has finished still wants to hand its result to the loop, so nothing removes it.
\<close>

definition pass_turn :: "(string \<Rightarrow> bool) \<Rightarrow> string \<Rightarrow> int \<Rightarrow> pass \<Rightarrow> pass_event \<Rightarrow> pass" where
  "pass_turn unknown own ttl p ev =
     (if \<not> pa_running p then p else
      case ev of
        PassShutdown \<Rightarrow> p\<lparr>pa_running := False\<rparr>
      | PassAuditorChanged owner auditor \<Rightarrow> if owner = own then purgeAuditor auditor p else p
      | PassRequest auditor r now \<Rightarrow>
          (let (p1, start) = addRequest ttl now auditor r p in if start then maybeStart auditor p1 else p1)
      | PassResult auditor answer now keys \<Rightarrow>
          if auditor \<notin> set (pa_fetching p) then p
          else (let p1 = p\<lparr>pa_fetching := remove1 auditor (pa_fetching p)\<rparr>
                in (case pass_fetch unknown answer of
                      Inl e \<Rightarrow> failAllPending auditor e p1
                    | Inr v \<Rightarrow> completeAllPending ttl now keys auditor v p1)))"

definition pass_run :: "(string \<Rightarrow> bool) \<Rightarrow> string \<Rightarrow> int \<Rightarrow> pass_event list \<Rightarrow> pass" where
  "pass_run unknown own ttl evs = foldl (pass_turn unknown own ttl) newPass evs"

text \<open>\<open>run\<close> returns when the loop has ended and \<open>wg.Wait\<close> has seen every fetch goroutine end.\<close>

definition pass_returned :: "pass \<Rightarrow> bool" where
  "pass_returned p = (\<not> pa_running p \<and> pa_fetching p = [])"

section \<open>The provider's own attributes\<close>

text \<open>
  \<open>fetchAttr\<close> and \<open>pushAttr\<close> are one-place signals, \<open>currAttr\<close> a one-place buffer that holds the attributes
  for the next caller, \<open>fetchInProgress\<close> a token that admits one fetch.
\<close>

record 'a own_attr =
  oa_attr :: "'a option"
  oa_currAttr :: "'a option option"
  oa_fetchAttr :: bool
  oa_pushAttr :: bool
  oa_fetchInProgress :: bool
  oa_waiting :: "nat list"
  oa_replies :: "(nat \<times> 'a option option) list"

definition newOwnAttr :: "'a own_attr" where
  "newOwnAttr = \<lparr>oa_attr = None, oa_currAttr = None, oa_fetchAttr = True, oa_pushAttr = False, oa_fetchInProgress = False, oa_waiting = [], oa_replies = []\<rparr>"

datatype 'a own_event =
    OwnProviderUpdated
  | OwnFetchSignal
  | OwnFetched "'a option"
  | OwnRetry
  | OwnPushSignal
  | OwnRequest nat
  | OwnTimeout nat
  | OwnTake nat

text \<open>
  \<open>OwnFetched (Some a)\<close> is the loop's receive of new attributes, \<open>OwnFetched None\<close> a failed fetch; \<open>OwnTake r\<close> is the
  goroutine of request \<open>r\<close> taking the buffered attributes (reply \<open>None\<close> is the timeout error).
\<close>

definition own_turn :: "'a own_attr \<Rightarrow> 'a own_event \<Rightarrow> 'a own_attr" where
  "own_turn s ev =
     (case ev of
        OwnProviderUpdated \<Rightarrow> s\<lparr>oa_fetchAttr := True\<rparr>
      | OwnRetry \<Rightarrow> s\<lparr>oa_fetchAttr := True\<rparr>
      | OwnFetchSignal \<Rightarrow> if oa_fetchAttr s then s\<lparr>oa_fetchAttr := False, oa_fetchInProgress := True\<rparr> else s
      | OwnFetched res \<Rightarrow>
          if \<not> oa_fetchInProgress s then s
          else (case res of
                  None \<Rightarrow> s\<lparr>oa_fetchInProgress := False\<rparr>
                | Some a \<Rightarrow> s\<lparr>oa_fetchInProgress := False, oa_attr := Some a, oa_pushAttr := True\<rparr>)
      | OwnPushSignal \<Rightarrow>
          if oa_pushAttr s
          then s\<lparr>oa_pushAttr := False, oa_currAttr := (if oa_currAttr s = None then Some (oa_attr s) else oa_currAttr s)\<rparr> else s
      | OwnRequest r \<Rightarrow> s\<lparr>oa_waiting := oa_waiting s @ [r]\<rparr>
      | OwnTimeout r \<Rightarrow>
          if r \<in> set (oa_waiting s) then s\<lparr>oa_waiting := remove1 r (oa_waiting s), oa_replies := oa_replies s @ [(r, None)]\<rparr> else s
      | OwnTake r \<Rightarrow>
          (case oa_currAttr s of
             None \<Rightarrow> s
           | Some a \<Rightarrow>
               if r \<in> set (oa_waiting s)
               then s\<lparr>oa_waiting := remove1 r (oa_waiting s), oa_replies := oa_replies s @ [(r, Some a)], oa_currAttr := None, oa_pushAttr := True\<rparr>
               else s))"

definition own_run :: "'a own_event list \<Rightarrow> 'a own_attr" where
  "own_run evs = foldl own_turn newOwnAttr evs"

section \<open>Lemmas\<close>

text \<open>Accounting of the requests for one number.\<close>

definition pass_replied :: "pass \<Rightarrow> nat \<Rightarrow> nat" where
  "pass_replied p r = count_list (map fst (pa_replies p)) r"

text \<open>A request waits only while a fetch for its auditor is under way.\<close>

definition pass_inv :: "pass \<Rightarrow> bool" where
  "pass_inv p = (pa_inProgress p = {} \<and> (\<forall>a. pending_of p a \<noteq> [] \<longrightarrow> a \<in> set (pa_fetching p)))"

lemma pass_turn_inv:
  assumes "pass_inv p"
  shows "pass_inv (pass_turn unknown own ttl p ev)"
proof (cases ev)
  case (PassRequest a r now)
  then show ?thesis using assms
    by (auto simp: pass_turn_def addRequest_def maybeStart_def pass_inv_def Let_def split: option.splits if_splits)
next
  case (PassResult a answer now keys)
  then show ?thesis using assms
    by (auto simp: pass_turn_def failAllPending_def completeAllPending_def pass_inv_def Let_def split: option.splits if_splits sum.splits)
qed (use assms in \<open>auto simp: pass_turn_def purgeAuditor_def pass_inv_def\<close>)

lemma pass_run_inv: "pass_inv (pass_run unknown own ttl evs)"
  unfolding pass_run_def by (rule foldl_invariant[where I = pass_inv]) (simp add: pass_inv_def newPass_def, rule pass_turn_inv)

text \<open>The size of the cache over a list of keys that holds them all.\<close>

abbreviation key_size :: "(string \<rightharpoonup> providerAttrEntry) \<Rightarrow> string \<Rightarrow> nat" where
  "key_size d k \<equiv> (case d k of None \<Rightarrow> 0 | Some e \<Rightarrow> providerAttrSize (pe_providerAttr e))"

lemma cache_size_drop:
  "distinct keys \<Longrightarrow> set ks \<subseteq> set keys \<Longrightarrow> distinct ks \<Longrightarrow> cache_size (drop_keys ks d) keys + cache_size d ks = cache_size d keys"
proof -
  assume a: "distinct keys" "set ks \<subseteq> set keys" "distinct ks"
  have "cache_size (drop_keys ks d) keys = (\<Sum>k \<in> set keys. if k \<in> set ks then 0 else key_size d k)"
    using a(1) by (simp add: cache_size_def sum_list_distinct_conv_sum_set drop_keys_def if_distrib cong: if_cong)
  also have "\<dots> = (\<Sum>k \<in> set keys - set ks. key_size d k)"
    by (rule sum.mono_neutral_cong_right) auto
  finally have 1: "cache_size (drop_keys ks d) keys = (\<Sum>k \<in> set keys - set ks. key_size d k)" .
  have "cache_size d keys = (\<Sum>k \<in> set keys. key_size d k)" "cache_size d ks = (\<Sum>k \<in> set ks. key_size d k)"
    using a by (simp_all add: cache_size_def sum_list_distinct_conv_sum_set)
  then show ?thesis using 1 sum.subset_diff[OF a(2), of "key_size d"] by simp
qed

lemma to_delete_sub: "set (to_delete d sz keys) \<subseteq> set keys \<and> (distinct keys \<longrightarrow> distinct (to_delete d sz keys))"
  by (induction keys arbitrary: sz) (auto simp: Let_def split: option.splits)

lemma to_delete_size:
  "sz + cache_size d keys > maxEntries div 2 \<Longrightarrow> sz + cache_size d (to_delete d sz keys) \<ge> maxEntries div 2 \<or> sz \<ge> maxEntries div 2"
proof (induction keys arbitrary: sz)
  case (Cons k ks)
  show ?case
  proof (cases "d k")
    case None
    then show ?thesis using Cons by (auto simp: cache_size_def)
  next
    case (Some e)
    then show ?thesis using Cons.IH[of "sz + providerAttrSize (pe_providerAttr e)"] Cons.prems
      by (auto simp: cache_size_def Let_def)
  qed
qed (simp add: cache_size_def)

lemma trimCache_size:
  assumes "distinct keys"
  shows "cache_size (trimCache ttl now keys d) keys \<le> max maxEntries (cache_size d keys - maxEntries div 2)"
proof -
  define d1 where "d1 = drop_keys (expired_keys ttl now d keys) d"
  have le: "cache_size d1 keys \<le> cache_size d keys"
    unfolding d1_def cache_size_def by (rule sum_list_mono) (simp add: drop_keys_def split: option.split)
  show ?thesis
  proof (cases "cache_size d1 keys > maxEntries")
    case True
    have "cache_size d1 (to_delete d1 0 keys) \<ge> maxEntries div 2"
      using to_delete_size[of 0 d1 keys] True by (simp add: maxEntries_def)
    moreover have "cache_size (drop_keys (to_delete d1 0 keys) d1) keys + cache_size d1 (to_delete d1 0 keys) = cache_size d1 keys"
      using to_delete_sub[of d1 0 keys] assms by (intro cache_size_drop) auto
    ultimately show ?thesis using True le by (simp add: trimCache_def d1_def[symmetric])
  next
    case False
    then show ?thesis by (simp add: trimCache_def d1_def[symmetric])
  qed
qed

fun pass_asks :: "nat \<Rightarrow> pass_event \<Rightarrow> nat" where
  "pass_asks r (PassRequest a q now) = of_bool (q = r)"
| "pass_asks r _ = 0"

lemma pass_turn_count:
  assumes "pa_running p" and "\<forall>x q t. ev = PassRequest x q t \<and> q = r \<longrightarrow> x = a" and "ev \<noteq> PassShutdown"
    and "\<forall>b. b \<noteq> a \<longrightarrow> r \<notin> set (pending_of p b)"
  shows "pass_replied (pass_turn u own ttl p ev) r + count_list (pending_of (pass_turn u own ttl p ev) a) r =
      pass_replied p r + count_list (pending_of p a) r + pass_asks r ev \<and>
    pa_running (pass_turn u own ttl p ev) \<and> (\<forall>b. b \<noteq> a \<longrightarrow> r \<notin> set (pending_of (pass_turn u own ttl p ev) b))"
proof (cases ev)
  case (PassRequest x q t)
  then show ?thesis using assms
    by (cases "pa_data p x") (auto simp: pass_turn_def addRequest_def maybeStart_def pass_replied_def Let_def split: option.splits if_splits)
next
  case (PassResult x ans now keys)
  have none: "r \<notin> set (pending_of p x)" if "x \<noteq> a" using assms(4) that by blast
  have cnt: "count_list (map fst (map (\<lambda>r. (r, y)) rs)) r = count_list rs r" for rs and y :: attr_reply
    by (induction rs) auto
  show ?thesis
  proof (cases "x \<in> set (pa_fetching p)")
    case True
    obtain y where y: "pa_replies (pass_turn u own ttl p ev) = pa_replies p @ map (\<lambda>r. (r, y)) (pending_of p x)"
        "pa_pending (pass_turn u own ttl p ev) = (pa_pending p)(x := None)" "pa_running (pass_turn u own ttl p ev)"
      using PassResult True assms(1)
      by (cases "pass_fetch u ans") (auto simp: pass_turn_def failAllPending_def completeAllPending_def Let_def)
    have "pass_replied (pass_turn u own ttl p ev) r = pass_replied p r + count_list (pending_of p x) r"
      using cnt[of y "pending_of p x"] by (simp add: pass_replied_def y(1) del: map_map)
    then show ?thesis using none assms(4) y(2,3) PassResult by (auto simp: count_notin)
  qed (use PassResult assms in \<open>simp add: pass_turn_def\<close>)
qed (use assms in \<open>auto simp: pass_turn_def purgeAuditor_def pass_replied_def\<close>)

lemma pass_run_count:
  assumes "PassShutdown \<notin> set evs" and "\<forall>x t. PassRequest x r t \<in> set evs \<longrightarrow> x = a"
  shows "pass_replied (pass_run u own ttl evs) r + count_list (pending_of (pass_run u own ttl evs) a) r = sum_list (map (pass_asks r) evs) \<and>
    pa_running (pass_run u own ttl evs) \<and> (\<forall>b. b \<noteq> a \<longrightarrow> r \<notin> set (pending_of (pass_run u own ttl evs) b))"
  using assms
proof (induction evs rule: rev_induct)
  case Nil
  show ?case by (simp add: pass_run_def newPass_def pass_replied_def)
next
  case (snoc ev evs)
  have IH: "pass_replied (pass_run u own ttl evs) r + count_list (pending_of (pass_run u own ttl evs) a) r = sum_list (map (pass_asks r) evs)"
      "pa_running (pass_run u own ttl evs)" "\<forall>b. b \<noteq> a \<longrightarrow> r \<notin> set (pending_of (pass_run u own ttl evs) b)"
    using snoc by auto
  have "pass_run u own ttl (evs @ [ev]) = pass_turn u own ttl (pass_run u own ttl evs) ev" by (simp add: pass_run_def)
  then show ?case using pass_turn_count[OF IH(2) _ _ IH(3), of ev u own ttl] IH(1) snoc.prems by auto
qed

lemma cache_size_set: "distinct a \<Longrightarrow> distinct b \<Longrightarrow> set a = set b \<Longrightarrow> cache_size d a = cache_size d b"
  by (simp add: cache_size_def sum_list_distinct_conv_sum_set)

lemma cache_size_add:
  assumes "distinct K" and "k \<in> set K"
  shows "cache_size (d(k \<mapsto> e)) K \<le> cache_size d K + providerAttrSize (pe_providerAttr e)"
proof -
  have "(\<Sum>x \<in> set K - {k}. key_size (d(k \<mapsto> e)) x) = (\<Sum>x \<in> set K - {k}. key_size d x)" by (rule sum.cong) auto
  then show ?thesis using assms
    by (simp add: cache_size_def sum_list_distinct_conv_sum_set sum.remove[of "set K" k])
qed

section \<open>Properties\<close>

text \<open>every question about an auditor is answered once. While the service runs, a request has one reply
  or waits, and while it waits a fetch for its auditor is under way, whose result answers every
  request that waits for it.\<close>

theorem audited_request_answered_once:
  assumes "PassShutdown \<notin> set evs" and "\<forall>x t. PassRequest x r t \<in> set evs \<longrightarrow> x = a"
  shows "pass_replied (pass_run u own ttl evs) r + count_list (pending_of (pass_run u own ttl evs) a) r = sum_list (map (pass_asks r) evs) \<and>
    (pending_of (pass_run u own ttl evs) a \<noteq> [] \<longrightarrow> a \<in> set (pa_fetching (pass_run u own ttl evs)))"
  using pass_run_count[OF assms] pass_run_inv[of u own ttl evs] by (auto simp: pass_inv_def)

theorem audited_request_answered_once_witness:
  "pass_replied (pass_run (\<lambda>e. False) ''p'' 10 [PassRequest ''aud'' 1 0, PassResult ''aud'' (Inr [[''x'']]) 1 [''aud'']]) 1 = 1"
proof -
  let ?evs = "[PassRequest ''aud'' 1 0, PassResult ''aud'' (Inr [[''x'']]) 1 [''aud'']]"
  have "pending_of (pass_run (\<lambda>e. False) ''p'' 10 ?evs) ''aud'' = []"
    by (simp add: pass_run_def pass_turn_def newPass_def addRequest_def maybeStart_def pass_fetch_def completeAllPending_def)
  then show ?thesis using audited_request_answered_once[of ?evs 1 "''aud''" "\<lambda>e. False" "''p''" 10] by simp
qed

text \<open>the cache is bounded. If no auditor ever signs more than 25000 attributes, the cache never holds more
  than 50000, whatever the order in which it is walked when it is trimmed.\<close>

theorem attribute_cache_bounded:
  assumes "distinct K"
    and "\<forall>a ans now keys. PassResult a ans now keys \<in> set evs \<longrightarrow> a \<in> set K \<and> distinct keys \<and> set keys = set K \<and>
      (\<forall>v. ans = Inr v \<longrightarrow> providerAttrSize v \<le> maxEntries div 2)"
  shows "cache_size (pa_data (pass_run u own ttl evs)) K \<le> maxEntries"
proof -
  let ?I = "\<lambda>p :: pass. cache_size (pa_data p) K \<le> maxEntries"
  have "?I (foldl (pass_turn u own ttl) newPass evs)"
  proof (rule foldl_invariant[where I = ?I])
    show "?I newPass" by (simp add: newPass_def cache_size_def)
    fix p :: pass and ev assume i: "?I p" and ev: "ev \<in> set evs"
    show "?I (pass_turn u own ttl p ev)"
    proof (cases ev)
      case (PassResult a ans now keys)
      then have h: "a \<in> set K" "distinct keys" "set keys = set K" "\<And>v. ans = Inr v \<Longrightarrow> providerAttrSize v \<le> maxEntries div 2"
        using assms(2) ev by blast+
      have trim: "cache_size (trimCache ttl now keys ((pa_data p)(a \<mapsto> \<lparr>pe_providerAttr = v, pe_at = now\<rparr>))) K \<le> maxEntries"
        if "providerAttrSize v \<le> maxEntries div 2" for v
      proof -
        have "cache_size ((pa_data p)(a \<mapsto> \<lparr>pe_providerAttr = v, pe_at = now\<rparr>)) K \<le> maxEntries + maxEntries div 2"
          using cache_size_add[OF assms(1) h(1), of "pa_data p" "\<lparr>pe_providerAttr = v, pe_at = now\<rparr>"] i that by simp
        then show ?thesis
          using trimCache_size[OF h(2), of ttl now "(pa_data p)(a \<mapsto> \<lparr>pe_providerAttr = v, pe_at = now\<rparr>)"]
            cache_size_set[OF assms(1) h(2) h(3)[symmetric]] by simp
      qed
      have "providerAttrSize v \<le> maxEntries div 2" if "pass_fetch u ans = Inr v" for v
        using that h(4) by (cases ans) (auto simp: pass_fetch_def providerAttrSize_def split: if_splits)
      then show ?thesis using i PassResult trim
        by (auto simp: pass_turn_def failAllPending_def completeAllPending_def Let_def split: sum.split)
    next
      case (PassAuditorChanged o1 a)
      have "cache_size ((pa_data p)(a := None)) K \<le> cache_size (pa_data p) K"
        unfolding cache_size_def by (rule sum_list_mono) simp
      then show ?thesis using i PassAuditorChanged by (simp add: pass_turn_def purgeAuditor_def)
    next
      case (PassRequest a r now)
      then show ?thesis using i
        by (auto simp: pass_turn_def addRequest_def maybeStart_def Let_def split: option.split)
    qed (use i in \<open>simp add: pass_turn_def\<close>)
  qed
  then show ?thesis by (simp add: pass_run_def)
qed

theorem attribute_cache_bounded_witness:
  "cache_size (pa_data (pass_run (\<lambda>e. False) ''p'' 10 [PassRequest ''aud'' 1 0, PassResult ''aud'' (Inr [[''x'']]) 1 [''aud'']])) [''aud''] \<le> maxEntries"
  by (rule attribute_cache_bounded) (auto simp: providerAttrSize_def maxEntries_def)

text \<open>\<open>inProgress\<close> is never written, so it holds back no fetch: every request that the cache does not
  answer starts another fetch for its auditor, also when one is under way.\<close>

theorem every_uncached_request_fetches:
  assumes "pa_running (pass_run u own ttl evs)" and "pa_data (pass_run u own ttl evs) a = None"
  shows "pa_fetching (pass_run u own ttl (evs @ [PassRequest a r now])) = pa_fetching (pass_run u own ttl evs) @ [a]"
proof -
  have "pa_inProgress (pass_run u own ttl evs) = {}" using pass_run_inv[of u own ttl evs] by (simp add: pass_inv_def)
  moreover have "pass_run u own ttl (evs @ [PassRequest a r now]) = pass_turn u own ttl (pass_run u own ttl evs) (PassRequest a r now)"
    by (simp add: pass_run_def)
  ultimately show ?thesis using assms by (simp add: pass_turn_def addRequest_def maybeStart_def)
qed

theorem every_uncached_request_fetches_witness:
  "pa_fetching (pass_run (\<lambda>e. False) ''p'' 10 ([PassRequest ''aud'' 1 0] @ [PassRequest ''aud'' 2 0])) = [''aud'', ''aud'']"
proof -
  have "pa_running (pass_run (\<lambda>e. False) ''p'' 10 [PassRequest ''aud'' 1 0])" "pa_data (pass_run (\<lambda>e. False) ''p'' 10 [PassRequest ''aud'' 1 0]) ''aud'' = None"
      "pa_fetching (pass_run (\<lambda>e. False) ''p'' 10 [PassRequest ''aud'' 1 0]) = [''aud'']"
    by (simp_all add: pass_run_def pass_turn_def newPass_def addRequest_def maybeStart_def)
  then show ?thesis using every_uncached_request_fetches[of "\<lambda>e. False" "''p''" 10 "[PassRequest ''aud'' 1 0]" "''aud''" 2 0] by simp
qed

text \<open>the service does not shut down while a fetch is under way. The loop ends and waits for the fetch
  goroutines, but each of them waits to hand its result to the loop, so \<open>run\<close> never returns.\<close>

theorem shutdown_waits_for_ever:
  assumes "pa_running (pass_run u own ttl evs)" and "pa_fetching (pass_run u own ttl evs) \<noteq> []"
  shows "\<not> pass_returned (pass_run u own ttl (evs @ PassShutdown # later))"
proof -
  let ?p = "(pass_run u own ttl evs)\<lparr>pa_running := False\<rparr>"
  have stop: "foldl (pass_turn u own ttl) ?p es = ?p" for es by (induction es) (simp_all add: pass_turn_def)
  have "pass_run u own ttl (evs @ PassShutdown # later) = ?p"
    using assms(1) stop[of later] by (simp add: pass_run_def pass_turn_def[of _ _ _ _ PassShutdown])
  then show ?thesis using assms(2) by (simp add: pass_returned_def)
qed

theorem shutdown_waits_for_ever_witness:
  "\<not> pass_returned (pass_run (\<lambda>e. False) ''p'' 10 ([PassRequest ''aud'' 1 0] @ PassShutdown # [PassResult ''aud'' (Inl ''canceled'') 1 []]))"
  by (rule shutdown_waits_for_ever) (simp_all add: pass_run_def pass_turn_def newPass_def addRequest_def maybeStart_def)

text \<open>the first caller after an update gets the old attributes. The buffer keeps what was pushed into it
  before, so when new attributes have been fetched and pushed, the next request is still answered
  with the previous ones.\<close>

theorem stale_attributes_after_update:
  assumes "oa_currAttr (own_run evs) = Some old" and "oa_fetchInProgress (own_run evs)" and "oa_waiting (own_run evs) = []"
  shows "last (oa_replies (own_run (evs @ [OwnFetched (Some new), OwnPushSignal, OwnRequest r, OwnTake r]))) = (r, Some old) \<and>
    oa_attr (own_run (evs @ [OwnFetched (Some new), OwnPushSignal, OwnRequest r, OwnTake r])) = Some new"
  using assms by (simp add: own_run_def own_turn_def)

theorem stale_attributes_after_update_witness:
  "last (oa_replies (own_run ([OwnFetchSignal, OwnFetched (Some (1::nat)), OwnPushSignal, OwnProviderUpdated, OwnFetchSignal] @
     [OwnFetched (Some 2), OwnPushSignal, OwnRequest 7, OwnTake 7]))) = (7, Some (Some 1))"
  using stale_attributes_after_update[of "[OwnFetchSignal, OwnFetched (Some (1::nat)), OwnPushSignal, OwnProviderUpdated, OwnFetchSignal]" "Some 1" 2 7]
  by (simp add: own_run_def own_turn_def newOwnAttr_def)

end
