(* ===== verification/ManifestCRD.thy ===== *)
theory ManifestCRD
  imports ManifestData Resources Json
begin

text \<open>
  The manifest as the provider stores it in Kubernetes (pkg/apis/akash.network/v2beta2): the custom
  resource types and the conversions between them and the manifest of the SDK, with which a
  provider that restarts recovers the deployments it runs. The scheduler parameters are pointers
  that several services of a group can share, and the conversion writes through them, so they are
  addresses into a store. The address parser of the chain SDK, its normal form of an address and the
  names of the protocols are parameters.
\<close>

section \<open>The manifest of the SDK\<close>

record am_cpu =
  ac_Units :: u64
  ac_Attributes :: attributes

record am_memory =
  amem_Quantity :: u64
  amem_Attributes :: attributes

record am_storage =
  as_Name :: string
  as_Quantity :: u64
  as_Attributes :: attributes

record am_resources =
  ar_ID :: u32
  ar_CPU :: "am_cpu option"
  ar_GPU :: "am_cpu option"
  ar_Memory :: "am_memory option"
  ar_Storage :: "am_storage list"
  ar_Endpoints :: "endpoint list"

record am_proxy =
  ap_BufferingDisable :: bool
  ap_BufferSize :: u32
  ap_BuffersNumber :: u32
  ap_BuffersSize :: u32
  ap_BusyBuffersSize :: u32
  ap_ConnectTimeout :: u32

record am_http =
  ah_MaxBodySize :: u32
  ah_ReadTimeout :: u32
  ah_SendTimeout :: u32
  ah_NextTries :: u32
  ah_NextTimeout :: u32
  ah_NextCases :: "string list"
  ah_Proxy :: "am_proxy option"

record 'proto am_expose =
  ae_Port :: u32
  ae_ExternalPort :: u32
  ae_Proto :: 'proto
  ae_Service :: string
  ae_Global :: bool
  ae_Hosts :: "string list"
  ae_EndpointSequenceNumber :: u32
  ae_IP :: string
  ae_HTTPOptions :: am_http

record storage_params =
  sp_Name :: string
  sp_Mount :: string
  sp_ReadOnly :: bool

record am_tee =
  tee_Type :: string
  tee_Attestation :: bool

record am_params =
  apar_Storage :: "storage_params list"
  apar_Permissions :: "string list option"
  apar_TEE :: "am_tee option"

record credentials =
  cr_Host :: string
  cr_Email :: string
  cr_Username :: string
  cr_Password :: string

record 'proto am_service =
  as_SvcName :: string
  as_Image :: string
  as_Command :: "string list"
  as_Args :: "string list"
  as_Env :: "string list"
  as_Resources :: am_resources
  as_Count :: u32
  as_Expose :: "'proto am_expose list"
  as_Params :: "am_params option"
  as_Credentials :: "credentials option"
  as_InterconnectGroup :: string

record 'proto am_group =
  ag_Name :: string
  ag_Services :: "'proto am_service list"

section \<open>The custom resource\<close>

record crd_lease_id =
  cl_Owner :: string
  cl_DSeq :: string
  cl_GSeq :: u32
  cl_OSeq :: u32
  cl_Provider :: string

record crd_cpu =
  cc_Units :: u32
  cc_Attributes :: attributes

record crd_memory =
  cm_Size :: string
  cm_Attributes :: attributes

record crd_volume =
  cv_Name :: string
  cv_Size :: string
  cv_Attributes :: attributes

record crd_resources =
  cres_ID :: u32
  cres_CPU :: crd_cpu
  cres_GPU :: crd_cpu
  cres_Memory :: crd_memory
  cres_Storage :: "crd_volume list"

record crd_http =
  ch_MaxBodySize :: u32
  ch_ReadTimeout :: u32
  ch_SendTimeout :: u32
  ch_NextTries :: u32
  ch_NextTimeout :: u32
  ch_NextCases :: "string list"
  ch_ProxyBufferingDisable :: bool
  ch_ProxyBufferSize :: u32
  ch_ProxyBuffersNumber :: u32
  ch_ProxyBuffersSize :: u32
  ch_ProxyBusyBuffersSize :: u32
  ch_ProxyConnectTimeout :: u32

record crd_expose =
  ce_Port :: "16 word"
  ce_ExternalPort :: "16 word"
  ce_Proto :: string
  ce_Service :: string
  ce_Global :: bool
  ce_Hosts :: "string list"
  ce_HTTPOptions :: crd_http
  ce_IP :: string
  ce_EndpointSequenceNumber :: u32

record crd_params =
  cpar_Storage :: "storage_params list"
  cpar_Permissions :: "string list option"

record crd_service =
  cs_Name :: string
  cs_Image :: string
  cs_Command :: "string list"
  cs_Args :: "string list"
  cs_Env :: "string list"
  cs_Resources :: crd_resources
  cs_Count :: u32
  cs_Expose :: "crd_expose list"
  cs_Params :: "crd_params option"
  cs_SchedulerParams :: "nat option"
  cs_Credentials :: "credentials option"
  cs_InterconnectGroup :: string

record crd_group =
  cg_Name :: string
  cg_Services :: "crd_service list"

datatype crd_error = ErrInvalidArgs | ErrCpuOverflow | ErrGpuOverflow | ErrAddress | ErrDSeq | ErrProto string

section \<open>Lease identifiers\<close>

definition LeaseIDFromAkash :: "lease_id \<Rightarrow> crd_lease_id" where
  "LeaseIDFromAkash l = \<lparr>cl_Owner = l_owner l, cl_DSeq = itoa (unat (l_dseq l)), cl_GSeq = l_gseq l, cl_OSeq = l_oseq l,
     cl_Provider = l_provider l\<rparr>"

definition parse_u64 :: "string \<Rightarrow> u64 option" where
  "parse_u64 s = (case parse_uint s of None \<Rightarrow> None | Some n \<Rightarrow> if n < 2 ^ 64 then Some (of_nat n) else None)"

text \<open>\<open>addr\<close> is the address parser followed by the rendering of the address it yields.\<close>

definition LeaseID_FromCRD :: "(string \<Rightarrow> string option) \<Rightarrow> crd_lease_id \<Rightarrow> crd_error + lease_id" where
  "LeaseID_FromCRD addr cid =
     (case addr (cl_Owner cid) of None \<Rightarrow> Inl ErrAddress | Some ow \<Rightarrow>
      (case addr (cl_Provider cid) of None \<Rightarrow> Inl ErrAddress | Some pr \<Rightarrow>
       (case parse_u64 (cl_DSeq cid) of None \<Rightarrow> Inl ErrDSeq | Some dseq \<Rightarrow>
          Inr \<lparr>l_owner = ow, l_dseq = dseq, l_gseq = cl_GSeq cid, l_oseq = cl_OSeq cid, l_provider = pr\<rparr>)))"

section \<open>Resources\<close>

definition ResourceCPU_ToAkash :: "crd_cpu \<Rightarrow> am_cpu" where
  "ResourceCPU_ToAkash c = \<lparr>ac_Units = ucast (cc_Units c), ac_Attributes = cc_Attributes c\<rparr>"

text \<open>A size that does not parse is taken as the value \<open>ParseUint\<close> returns with its error: 0 for a syntax error,
  the largest number for one that is out of range.\<close>

definition parse_size :: "string \<Rightarrow> u64" where
  "parse_size s = (case parse_uint s of None \<Rightarrow> 0 | Some n \<Rightarrow> if n < 2 ^ 64 then of_nat n else - 1)"

definition ResourceMemory_ToAkash :: "crd_memory \<Rightarrow> am_memory" where
  "ResourceMemory_ToAkash m = \<lparr>amem_Quantity = parse_size (cm_Size m), amem_Attributes = cm_Attributes m\<rparr>"

definition ResourceVolume_ToAkash :: "crd_volume \<Rightarrow> am_storage" where
  "ResourceVolume_ToAkash v = \<lparr>as_Name = cv_Name v, as_Quantity = parse_size (cv_Size v), as_Attributes = cv_Attributes v\<rparr>"

definition Resources_ToAkash :: "crd_resources \<Rightarrow> am_resources" where
  "Resources_ToAkash r = \<lparr>ar_ID = cres_ID r, ar_CPU = Some (ResourceCPU_ToAkash (cres_CPU r)),
     ar_GPU = Some (ResourceCPU_ToAkash (cres_GPU r)), ar_Memory = Some (ResourceMemory_ToAkash (cres_Memory r)),
     ar_Storage = map ResourceVolume_ToAkash (cres_Storage r), ar_Endpoints = []\<rparr>"

definition cpuFromAkash :: "am_cpu option \<Rightarrow> crd_cpu option" where
  "cpuFromAkash c =
     (case c of
        None \<Rightarrow> Some \<lparr>cc_Units = 0, cc_Attributes = []\<rparr>
      | Some x \<Rightarrow> if ac_Units x > 0xFFFFFFFF then None else Some \<lparr>cc_Units = ucast (ac_Units x), cc_Attributes = ac_Attributes x\<rparr>)"

definition resourcesFromAkash :: "am_resources \<Rightarrow> crd_error + crd_resources" where
  "resourcesFromAkash a =
     (case cpuFromAkash (ar_CPU a) of None \<Rightarrow> Inl ErrCpuOverflow | Some cpu \<Rightarrow>
      (let mem = (case ar_Memory a of None \<Rightarrow> \<lparr>cm_Size = [], cm_Attributes = []\<rparr>
                  | Some m \<Rightarrow> \<lparr>cm_Size = itoa (unat (amem_Quantity m)), cm_Attributes = amem_Attributes m\<rparr>) in
       (case cpuFromAkash (ar_GPU a) of None \<Rightarrow> Inl ErrGpuOverflow | Some gpu \<Rightarrow>
          Inr \<lparr>cres_ID = ar_ID a, cres_CPU = cpu, cres_GPU = gpu, cres_Memory = mem,
            cres_Storage = map (\<lambda>s. \<lparr>cv_Name = as_Name s, cv_Size = itoa (unat (as_Quantity s)), cv_Attributes = as_Attributes s\<rparr>)
              (ar_Storage a)\<rparr>)))"

section \<open>Exposed ports\<close>

definition proxyToAkash :: "crd_http \<Rightarrow> am_proxy option" where
  "proxyToAkash h =
     (if \<not> ch_ProxyBufferingDisable h \<and> ch_ProxyBufferSize h = 0 \<and> ch_ProxyBuffersNumber h = 0 \<and> ch_ProxyBuffersSize h = 0 \<and>
         ch_ProxyBusyBuffersSize h = 0 \<and> ch_ProxyConnectTimeout h = 0
      then None
      else Some \<lparr>ap_BufferingDisable = ch_ProxyBufferingDisable h, ap_BufferSize = ch_ProxyBufferSize h,
        ap_BuffersNumber = ch_ProxyBuffersNumber h, ap_BuffersSize = ch_ProxyBuffersSize h,
        ap_BusyBuffersSize = ch_ProxyBusyBuffersSize h, ap_ConnectTimeout = ch_ProxyConnectTimeout h\<rparr>)"

definition expose_toAkash :: "(string \<Rightarrow> 'proto option) \<Rightarrow> crd_expose \<Rightarrow> crd_error + 'proto am_expose" where
  "expose_toAkash parse_proto e =
     (case parse_proto (ce_Proto e) of
        None \<Rightarrow> Inl (ErrProto (ce_Proto e))
      | Some pr \<Rightarrow> Inr \<lparr>ae_Port = ucast (ce_Port e), ae_ExternalPort = ucast (ce_ExternalPort e), ae_Proto = pr,
          ae_Service = ce_Service e, ae_Global = ce_Global e, ae_Hosts = ce_Hosts e,
          ae_EndpointSequenceNumber = ce_EndpointSequenceNumber e, ae_IP = ce_IP e,
          ae_HTTPOptions = (let h = ce_HTTPOptions e in
            \<lparr>ah_MaxBodySize = ch_MaxBodySize h, ah_ReadTimeout = ch_ReadTimeout h, ah_SendTimeout = ch_SendTimeout h,
             ah_NextTries = ch_NextTries h, ah_NextTimeout = ch_NextTimeout h, ah_NextCases = ch_NextCases h,
             ah_Proxy = proxyToAkash h\<rparr>)\<rparr>)"

definition DetermineExposedExternalPort :: "crd_expose \<Rightarrow> 16 word" where
  "DetermineExposedExternalPort e = (if ce_ExternalPort e = 0 then ce_Port e else ce_ExternalPort e)"

definition no_proxy :: am_proxy where
  "no_proxy = \<lparr>ap_BufferingDisable = False, ap_BufferSize = 0, ap_BuffersNumber = 0, ap_BuffersSize = 0, ap_BusyBuffersSize = 0,
     ap_ConnectTimeout = 0\<rparr>"

definition manifestServiceExposeFromAkash :: "('proto \<Rightarrow> string) \<Rightarrow> 'proto am_expose \<Rightarrow> crd_expose" where
  "manifestServiceExposeFromAkash proto_text a =
     (let h = ae_HTTPOptions a; p = (case ah_Proxy h of None \<Rightarrow> no_proxy | Some p \<Rightarrow> p) in
      \<lparr>ce_Port = ucast (ae_Port a), ce_ExternalPort = ucast (ae_ExternalPort a), ce_Proto = proto_text (ae_Proto a),
       ce_Service = ae_Service a, ce_Global = ae_Global a, ce_Hosts = ae_Hosts a,
       ce_HTTPOptions = \<lparr>ch_MaxBodySize = ah_MaxBodySize h, ch_ReadTimeout = ah_ReadTimeout h, ch_SendTimeout = ah_SendTimeout h,
         ch_NextTries = ah_NextTries h, ch_NextTimeout = ah_NextTimeout h, ch_NextCases = ah_NextCases h,
         ch_ProxyBufferingDisable = ap_BufferingDisable p, ch_ProxyBufferSize = ap_BufferSize p,
         ch_ProxyBuffersNumber = ap_BuffersNumber p, ch_ProxyBuffersSize = ap_BuffersSize p,
         ch_ProxyBusyBuffersSize = ap_BusyBuffersSize p, ch_ProxyConnectTimeout = ap_ConnectTimeout p\<rparr>,
       ce_IP = ae_IP a, ce_EndpointSequenceNumber = ae_EndpointSequenceNumber a\<rparr>)"

section \<open>Services and groups\<close>

text \<open>The addresses of the scheduler parameters index the store; a \<open>nil\<close> pointer that has to be written becomes a
  new object.\<close>

definition set_tee :: "am_params option \<Rightarrow> nat option \<Rightarrow> scheduler_params list \<Rightarrow> nat option \<times> scheduler_params list" where
  "set_tee params a st =
     (case params of None \<Rightarrow> (a, st) | Some ps \<Rightarrow>
      (case apar_TEE ps of None \<Rightarrow> (a, st) | Some tee \<Rightarrow>
       (let (i, st) = (case a of
              None \<Rightarrow> (length st, st @ [zero_sparams])
            | Some i \<Rightarrow> (i, st));
            p = st ! i;
            p = p\<lparr>sp_TEEType := tee_Type tee\<rparr>;
            p = (if tee_Attestation tee then p else p\<lparr>AttestationDisabled := True\<rparr>)
        in (Some i, st[i := p]))))"

definition manifestServiceFromProvider ::
  "('proto \<Rightarrow> string) \<Rightarrow> 'proto am_service \<Rightarrow> nat option \<Rightarrow> scheduler_params list \<Rightarrow> crd_error + (crd_service \<times> scheduler_params list)" where
  "manifestServiceFromProvider proto_text s a st =
     (case resourcesFromAkash (as_Resources s) of
        Inl e \<Rightarrow> Inl e
      | Inr res \<Rightarrow>
         (let (a, st) = set_tee (as_Params s) a st in
          Inr (\<lparr>cs_Name = as_SvcName s, cs_Image = as_Image s, cs_Command = as_Command s, cs_Args = as_Args s, cs_Env = as_Env s,
            cs_Resources = res, cs_Count = as_Count s,
            cs_Expose = map (manifestServiceExposeFromAkash proto_text) (as_Expose s),
            cs_Params = map_option (\<lambda>p. \<lparr>cpar_Storage = apar_Storage p, cpar_Permissions = apar_Permissions p\<rparr>) (as_Params s),
            cs_SchedulerParams = a, cs_Credentials = as_Credentials s, cs_InterconnectGroup = as_InterconnectGroup s\<rparr>, st)))"

fun services_toCRD ::
  "('proto \<Rightarrow> string) \<Rightarrow> 'proto am_service list \<Rightarrow> nat option list \<Rightarrow> scheduler_params list \<Rightarrow>
   crd_error + (crd_service list \<times> scheduler_params list)" where
  "services_toCRD pt (s # ss) (a # as) st =
     (case manifestServiceFromProvider pt s a st of
        Inl e \<Rightarrow> Inl e
      | Inr (c, st') \<Rightarrow> (case services_toCRD pt ss as st' of Inl e \<Rightarrow> Inl e | Inr (cs, st'') \<Rightarrow> Inr (c # cs, st'')))"
| "services_toCRD pt _ _ st = Inr ([], st)"

definition manifestGroupToCRD ::
  "('proto \<Rightarrow> string) \<Rightarrow> 'proto am_group \<Rightarrow> nat option list \<Rightarrow> scheduler_params list \<Rightarrow> crd_error + (crd_group \<times> scheduler_params list)" where
  "manifestGroupToCRD pt g settings st =
     (case services_toCRD pt (ag_Services g) settings st of
        Inl e \<Rightarrow> Inl e
      | Inr (cs, st') \<Rightarrow> Inr (\<lparr>cg_Name = ag_Name g, cg_Services = cs\<rparr>, st'))"

record crd_manifest =
  cmf_Name :: string
  cmf_Namespace :: string
  cmf_LeaseID :: crd_lease_id
  cmf_Group :: crd_group

definition NewManifest ::
  "('proto \<Rightarrow> string) \<Rightarrow> (lease_id \<Rightarrow> string) \<Rightarrow> string \<Rightarrow> lease_id \<Rightarrow> 'proto am_group \<Rightarrow> nat option list \<Rightarrow> scheduler_params list \<Rightarrow>
   crd_error + (crd_manifest \<times> scheduler_params list)" where
  "NewManifest pt lidNS ns lid g settings st =
     (if length (ag_Services g) \<noteq> length settings then Inl ErrInvalidArgs
      else (case manifestGroupToCRD pt g settings st of
         Inl e \<Rightarrow> Inl e
       | Inr (cg, st') \<Rightarrow> Inr (\<lparr>cmf_Name = lidNS lid, cmf_Namespace = ns, cmf_LeaseID = LeaseIDFromAkash lid, cmf_Group = cg\<rparr>, st')))"

text \<open>
  \<open>fromCRD\<close>. The loop over the exposed ports appends an endpoint to \<open>res\<close> for every leased address, but
  the service has been given its copy of \<open>res\<close> before the loop.
\<close>

fun exposes_fromCRD :: "(string \<Rightarrow> 'proto option) \<Rightarrow> am_resources \<Rightarrow> crd_expose list \<Rightarrow> crd_error + ('proto am_expose list \<times> am_resources)" where
  "exposes_fromCRD pp res [] = Inr ([], res)"
| "exposes_fromCRD pp res (e # es) =
     (case expose_toAkash pp e of
        Inl x \<Rightarrow> Inl x
      | Inr v \<Rightarrow>
         (let res = (if length (ae_IP v) \<noteq> 0
             then res\<lparr>ar_Endpoints := ar_Endpoints res @ [\<lparr>ep_Kind = Endpoint_LEASED_IP, SequenceNumber = ae_EndpointSequenceNumber v\<rparr>]\<rparr>
             else res)
          in (case exposes_fromCRD pp res es of Inl x \<Rightarrow> Inl x | Inr (vs, res') \<Rightarrow> Inr (v # vs, res'))))"

definition service_fromCRD :: "(string \<Rightarrow> 'proto option) \<Rightarrow> crd_service \<Rightarrow> crd_error + 'proto am_service" where
  "service_fromCRD pp c =
     (let res = Resources_ToAkash (cs_Resources c);
          ams = \<lparr>as_SvcName = cs_Name c, as_Image = cs_Image c, as_Command = cs_Command c, as_Args = cs_Args c, as_Env = cs_Env c,
            as_Resources = res, as_Count = cs_Count c, as_Expose = [],
            as_Params = map_option (\<lambda>p. \<lparr>apar_Storage = cpar_Storage p, apar_Permissions = cpar_Permissions p, apar_TEE = None\<rparr>) (cs_Params c),
            as_Credentials = cs_Credentials c, as_InterconnectGroup = cs_InterconnectGroup c\<rparr>
      in (case exposes_fromCRD pp res (cs_Expose c) of
            Inl x \<Rightarrow> Inl x
          | Inr (vs, res') \<Rightarrow> Inr (ams\<lparr>as_Expose := vs\<rparr>)))"

fun services_fromCRD :: "(string \<Rightarrow> 'proto option) \<Rightarrow> crd_service list \<Rightarrow> crd_error + 'proto am_service list" where
  "services_fromCRD pp [] = Inr []"
| "services_fromCRD pp (c # cs) =
     (case service_fromCRD pp c of
        Inl e \<Rightarrow> Inl e
      | Inr s \<Rightarrow> (case services_fromCRD pp cs of Inl e \<Rightarrow> Inl e | Inr ss \<Rightarrow> Inr (s # ss)))"

definition ManifestGroup_FromCRD :: "(string \<Rightarrow> 'proto option) \<Rightarrow> crd_group \<Rightarrow> crd_error + ('proto am_group \<times> nat option list)" where
  "ManifestGroup_FromCRD pp g =
     (case services_fromCRD pp (cg_Services g) of
        Inl e \<Rightarrow> Inl e
      | Inr ss \<Rightarrow> Inr (\<lparr>ag_Name = cg_Name g, ag_Services = ss\<rparr>, map cs_SchedulerParams (cg_Services g)))"

text \<open>The recovered deployment; the parameters are keyed by the identifier of the resources, a later service wins.\<close>

record 'proto crd_deployment =
  cd_lid :: lease_id
  cd_group :: "'proto am_group"
  cd_cparams :: "u32 \<rightharpoonup> nat option"

definition Manifest_Deployment ::
  "(string \<Rightarrow> string option) \<Rightarrow> (string \<Rightarrow> 'proto option) \<Rightarrow> crd_manifest \<Rightarrow> crd_error + 'proto crd_deployment" where
  "Manifest_Deployment addr pp m =
     (case LeaseID_FromCRD addr (cmf_LeaseID m) of Inl e \<Rightarrow> Inl e | Inr lid \<Rightarrow>
      (case ManifestGroup_FromCRD pp (cmf_Group m) of Inl e \<Rightarrow> Inl e | Inr (g, sp) \<Rightarrow>
         Inr \<lparr>cd_lid = lid, cd_group = g,
           cd_cparams = fold (\<lambda>(s, p) c. c(ar_ID (as_Resources s) \<mapsto> p)) (zip (ag_Services g) sp) Map.empty\<rparr>))"

section \<open>The parameters of a cluster deployment\<close>

text \<open>
  \<open>ClusterDeploymentFromDeployment\<close> of the builder (cluster/kube/builder/builder.go): the parameters of
  each service are those of its resources, and are checked before anything is built. A deployment
  carries either settings per service or settings per resource.
\<close>

datatype deployment_params = PerService "nat option list" | PerResource "u32 \<rightharpoonup> nat option" | OtherParams

datatype builder_error = NoParamsFor u32 | UnexpectedParams | CountMismatch | NilCPU string | NilGPU string | NilMemory string | NilGPUParams string

fun buildClusterSettings :: "'proto am_service list \<Rightarrow> (u32 \<rightharpoonup> nat option) \<Rightarrow> builder_error + nat option list" where
  "buildClusterSettings [] res = Inr []"
| "buildClusterSettings (s # ss) res =
     (case res (ar_ID (as_Resources s)) of
        None \<Rightarrow> Inl (NoParamsFor (ar_ID (as_Resources s)))
      | Some a \<Rightarrow> (case buildClusterSettings ss res of Inl e \<Rightarrow> Inl e | Inr as \<Rightarrow> Inr (a # as)))"

definition validate_service :: "scheduler_params list \<Rightarrow> 'proto am_service \<Rightarrow> nat option \<Rightarrow> builder_error option" where
  "validate_service st s a =
     (let r = as_Resources s in
      case ar_CPU r of None \<Rightarrow> Some (NilCPU (as_SvcName s)) | Some _ \<Rightarrow>
      (case ar_GPU r of None \<Rightarrow> Some (NilGPU (as_SvcName s)) | Some gpu \<Rightarrow>
       (case ar_Memory r of None \<Rightarrow> Some (NilMemory (as_SvcName s)) | Some _ \<Rightarrow>
         (if 0 < ac_Units gpu \<and>
             (case a of None \<Rightarrow> True | Some i \<Rightarrow> (case sp_Resources (st ! i) of None \<Rightarrow> True | Some sr \<Rightarrow> sr_GPU sr = None))
          then Some (NilGPUParams (as_SvcName s)) else None))))"

fun validate_services :: "scheduler_params list \<Rightarrow> 'proto am_service list \<Rightarrow> nat option list \<Rightarrow> builder_error option" where
  "validate_services st (s # ss) (a # as) = (case validate_service st s a of Some e \<Rightarrow> Some e | None \<Rightarrow> validate_services st ss as)"
| "validate_services st _ _ = None"

definition validate_deployment :: "scheduler_params list \<Rightarrow> 'proto am_service list \<Rightarrow> nat option list \<Rightarrow> builder_error option" where
  "validate_deployment st ss as = (if length ss \<noteq> length as then Some CountMismatch else validate_services st ss as)"

text \<open>The result: the parameters per service, and whether the stored manifest has to be written again.\<close>

definition ClusterDeploymentFromDeployment ::
  "scheduler_params list \<Rightarrow> 'proto am_group \<Rightarrow> deployment_params \<Rightarrow> builder_error + (nat option list \<times> bool)" where
  "ClusterDeploymentFromDeployment st g p =
     (case (case p of PerService as \<Rightarrow> Inr (as, False)
            | PerResource m \<Rightarrow> (case buildClusterSettings (ag_Services g) m of Inl e \<Rightarrow> Inl e | Inr as \<Rightarrow> Inr (as, True))
            | OtherParams \<Rightarrow> Inl UnexpectedParams) of
        Inl e \<Rightarrow> Inl e
      | Inr (as, upd) \<Rightarrow> (case validate_deployment st (ag_Services g) as of Some e \<Rightarrow> Inl e | None \<Rightarrow> Inr (as, upd)))"

section \<open>What is recovered\<close>

text \<open>
  The part of a manifest that survives the way through the custom resource: absent amounts come back
  as zero, proxy options that set nothing as none, and the endpoints of the resources and the TEE
  parameters of a service do not come back.
\<close>

definition recovered_resources :: "am_resources \<Rightarrow> am_resources" where
  "recovered_resources r = r\<lparr>
     ar_CPU := Some (case ar_CPU r of None \<Rightarrow> \<lparr>ac_Units = 0, ac_Attributes = []\<rparr> | Some c \<Rightarrow> c),
     ar_GPU := Some (case ar_GPU r of None \<Rightarrow> \<lparr>ac_Units = 0, ac_Attributes = []\<rparr> | Some c \<Rightarrow> c),
     ar_Memory := Some (case ar_Memory r of None \<Rightarrow> \<lparr>amem_Quantity = 0, amem_Attributes = []\<rparr> | Some m \<Rightarrow> m),
     ar_Endpoints := []\<rparr>"

definition recovered_expose :: "'proto am_expose \<Rightarrow> 'proto am_expose" where
  "recovered_expose e = e\<lparr>ae_HTTPOptions := (let h = ae_HTTPOptions e in h\<lparr>ah_Proxy := (if ah_Proxy h = Some no_proxy then None else ah_Proxy h)\<rparr>)\<rparr>"

definition recovered_service :: "'proto am_service \<Rightarrow> 'proto am_service" where
  "recovered_service s = s\<lparr>as_Resources := recovered_resources (as_Resources s), as_Expose := map recovered_expose (as_Expose s),
     as_Params := map_option (\<lambda>p. p\<lparr>apar_TEE := None\<rparr>) (as_Params s)\<rparr>"

definition recovered_group :: "'proto am_group \<Rightarrow> 'proto am_group" where
  "recovered_group g = g\<lparr>ag_Services := map recovered_service (ag_Services g)\<rparr>"

text \<open>The ports of a manifest are 32 bits wide, those of the custom resource 16.\<close>

definition ports_fit :: "'proto am_group \<Rightarrow> bool" where
  "ports_fit g = list_all (\<lambda>s. list_all (\<lambda>e. ae_Port e < 65536 \<and> ae_ExternalPort e < 65536) (as_Expose s)) (ag_Services g)"

section \<open>Lemmas\<close>

lemma ucast_64_32: "\<not> 0xFFFFFFFF < (w :: u64) \<Longrightarrow> ucast (ucast w :: u32) = w"
  by (rule word_uint_eqI) (simp add: unsigned_ucast_eq take_bit_int_eq_self word_less_def unsigned_take_bit_eq)

lemma ucast_32_16: "(w :: u32) < 65536 \<Longrightarrow> ucast (ucast w :: 16 word) = w"
  by (rule word_uint_eqI) (simp add: unsigned_ucast_eq take_bit_int_eq_self word_less_def unsigned_take_bit_eq)

lemma parse_size_itoa [simp]: "parse_size (itoa (unat w)) = w"
  using unsigned_less[where 'a = nat, of w] by (simp add: parse_size_def)

lemma parse_u64_itoa [simp]: "parse_u64 (itoa (unat w)) = Some w"
  using unsigned_less[where 'a = nat, of w] by (simp add: parse_u64_def)

lemma cpu_recovered: "cpuFromAkash c = Some x \<Longrightarrow> ResourceCPU_ToAkash x = (case c of None \<Rightarrow> \<lparr>ac_Units = 0, ac_Attributes = []\<rparr> | Some c \<Rightarrow> c)"
  by (auto simp: cpuFromAkash_def ResourceCPU_ToAkash_def ucast_64_32 split: option.splits if_splits)

lemma resources_recovered:
  assumes "resourcesFromAkash a = Inr c"
  shows "Resources_ToAkash c = recovered_resources a"
proof -
  obtain cpu gpu where x: "cpuFromAkash (ar_CPU a) = Some cpu" "cpuFromAkash (ar_GPU a) = Some gpu"
    using assms by (auto simp: resourcesFromAkash_def Let_def split: option.splits)
  have m: "parse_size [] = 0" by (simp add: parse_size_def parse_uint_def)
  have "ResourceVolume_ToAkash \<circ> (\<lambda>s. \<lparr>cv_Name = as_Name s, cv_Size = itoa (unat (as_Quantity s)), cv_Attributes = as_Attributes s\<rparr>) = id"
    by (rule ext) (simp add: ResourceVolume_ToAkash_def)
  then show ?thesis using assms x cpu_recovered[OF x(1)] cpu_recovered[OF x(2)]
    by (auto simp: resourcesFromAkash_def Resources_ToAkash_def recovered_resources_def ResourceMemory_ToAkash_def m Let_def split: option.splits)
qed

lemma expose_recovered:
  assumes "pp (pt (ae_Proto e)) = Some (ae_Proto e)" and "ae_Port e < 65536" and "ae_ExternalPort e < 65536"
  shows "expose_toAkash pp (manifestServiceExposeFromAkash pt e) = Inr (recovered_expose e)"
proof -
  have "proxyToAkash (ce_HTTPOptions (manifestServiceExposeFromAkash pt e)) =
      (if ah_Proxy (ae_HTTPOptions e) = Some no_proxy then None else ah_Proxy (ae_HTTPOptions e))"
    by (cases "ah_Proxy (ae_HTTPOptions e)")
      (auto simp: manifestServiceExposeFromAkash_def proxyToAkash_def no_proxy_def Let_def)
  then show ?thesis using assms
    by (simp add: expose_toAkash_def manifestServiceExposeFromAkash_def recovered_expose_def ucast_32_16 Let_def)
qed

lemma exposes_recovered:
  assumes "\<forall>p. pp (pt p) = Some p" and "list_all (\<lambda>e. ae_Port e < 65536 \<and> ae_ExternalPort e < 65536) es"
  shows "\<exists>res'. exposes_fromCRD pp res (map (manifestServiceExposeFromAkash pt) es) = Inr (map recovered_expose es, res')"
  using assms(2)
proof (induction es arbitrary: res)
  case (Cons e es)
  then have "expose_toAkash pp (manifestServiceExposeFromAkash pt e) = Inr (recovered_expose e)"
    using expose_recovered[of pp pt e] assms(1) by simp
  moreover obtain res' where "exposes_fromCRD pp (if length (ae_IP (recovered_expose e)) \<noteq> 0
      then res\<lparr>ar_Endpoints := ar_Endpoints res @ [\<lparr>ep_Kind = Endpoint_LEASED_IP, SequenceNumber = ae_EndpointSequenceNumber (recovered_expose e)\<rparr>]\<rparr>
      else res) (map (manifestServiceExposeFromAkash pt) es) = Inr (map recovered_expose es, res')"
    using Cons by fastforce
  ultimately show ?case by (simp add: Let_def)
qed simp

lemma service_recovered:
  assumes "\<forall>p. pp (pt p) = Some p" and "list_all (\<lambda>e. ae_Port e < 65536 \<and> ae_ExternalPort e < 65536) (as_Expose s)"
    and "manifestServiceFromProvider pt s a st = Inr (c, st')"
  shows "service_fromCRD pp c = Inr (recovered_service s)"
proof -
  obtain res a' where c: "resourcesFromAkash (as_Resources s) = Inr res" "cs_Resources c = res"
      "cs_Expose c = map (manifestServiceExposeFromAkash pt) (as_Expose s)"
      "cs_Params c = map_option (\<lambda>p. \<lparr>cpar_Storage = apar_Storage p, cpar_Permissions = apar_Permissions p\<rparr>) (as_Params s)"
      "cs_Name c = as_SvcName s" "cs_Image c = as_Image s" "cs_Command c = as_Command s" "cs_Args c = as_Args s" "cs_Env c = as_Env s"
      "cs_Count c = as_Count s" "cs_Credentials c = as_Credentials s" "cs_InterconnectGroup c = as_InterconnectGroup s"
    using assms(3) by (auto simp: manifestServiceFromProvider_def split: sum.splits prod.splits)
  obtain res' where "exposes_fromCRD pp (Resources_ToAkash res) (cs_Expose c) = Inr (map recovered_expose (as_Expose s), res')"
    using exposes_recovered[OF assms(1,2)] c(3) by metis
  then show ?thesis using c resources_recovered[OF c(1)]
    by (cases "as_Params s") (simp_all add: service_fromCRD_def recovered_service_def)
qed

lemma services_recovered:
  assumes "\<forall>p. pp (pt p) = Some p"
    and "list_all (\<lambda>s. list_all (\<lambda>e. ae_Port e < 65536 \<and> ae_ExternalPort e < 65536) (as_Expose s)) ss"
    and "services_toCRD pt ss as st = Inr (cs, st')" and "length ss = length as"
  shows "services_fromCRD pp cs = Inr (map recovered_service ss)"
  using assms(2-4)
proof (induction ss arbitrary: as st cs)
  case (Cons s ss)
  then obtain a as' where as: "as = a # as'" by (cases as) auto
  then obtain c st1 cs' where c: "manifestServiceFromProvider pt s a st = Inr (c, st1)" "services_toCRD pt ss as' st1 = Inr (cs', st')" "cs = c # cs'"
    using Cons.prems by (auto split: sum.splits prod.splits)
  then show ?case using Cons as service_recovered[OF assms(1) _ c(1)] by simp
qed simp

lemma exposes_fromCRD_ok: "exposes_fromCRD pp res es = Inr (vs, res') \<Longrightarrow> length vs = length es"
  by (induction es arbitrary: res vs) (auto simp: Let_def split: sum.splits prod.splits if_splits)

lemma service_fromCRD_endpoints: "service_fromCRD pp c = Inr s \<Longrightarrow> ar_Endpoints (as_Resources s) = []"
  by (auto simp: service_fromCRD_def Resources_ToAkash_def Let_def split: sum.splits prod.splits)

lemma services_fromCRD_endpoints: "services_fromCRD pp cs = Inr ss \<Longrightarrow> s \<in> set ss \<Longrightarrow> ar_Endpoints (as_Resources s) = []"
  by (induction cs arbitrary: ss) (auto dest: service_fromCRD_endpoints split: sum.splits)

lemma buildClusterSettings_pair:
  "buildClusterSettings [s1, s2] m = Inr as \<Longrightarrow> ar_ID (as_Resources s1) = ar_ID (as_Resources s2) \<Longrightarrow> \<exists>a. as = [a, a] \<and> m (ar_ID (as_Resources s1)) = Some a"
  by (auto split: option.splits)

lemma no_endpoints_no_quantity:
  "\<forall>u \<in> set us. res_Endpoints (ru_Resources u) = [] \<Longrightarrow> fold (\<lambda>u acc. accumEndpointsOfResources (ru_Resources u) kind acc) us acc = acc"
  by (induction us arbitrary: acc) (auto simp: accumEndpointsOfResources_def)

section \<open>Properties\<close>

text \<open>C31: a provider that restarts recovers its deployments from the cluster. What NewManifest stored for a lease
  and its group reads back as the same lease and the same group, service by service, as long as
  its ports fit 16 bits; what does not come back is listed in \<open>recovered_service\<close>.\<close>

theorem manifest_recovered:
  assumes "\<forall>p. pp (pt p) = Some p" and "addr (l_owner lid) = Some (l_owner lid)" and "addr (l_provider lid) = Some (l_provider lid)"
    and "ports_fit g" and "NewManifest pt lidNS ns lid g settings st = Inr (m, st')"
  shows "\<exists>d. Manifest_Deployment addr pp m = Inr d \<and> cd_lid d = lid \<and> cd_group d = recovered_group g"
proof -
  obtain cs where c: "services_toCRD pt (ag_Services g) settings st = Inr (cs, st')" "length (ag_Services g) = length settings"
      "cmf_LeaseID m = LeaseIDFromAkash lid" "cmf_Group m = \<lparr>cg_Name = ag_Name g, cg_Services = cs\<rparr>"
    using assms(5) by (auto simp: NewManifest_def manifestGroupToCRD_def split: if_splits sum.splits)
  have "LeaseID_FromCRD addr (LeaseIDFromAkash lid) = Inr lid"
    using assms(2,3) by (simp add: LeaseID_FromCRD_def LeaseIDFromAkash_def)
  moreover have "services_fromCRD pp cs = Inr (map recovered_service (ag_Services g))"
    using services_recovered[OF assms(1) _ c(1,2)] assms(4) by (simp add: ports_fit_def)
  ultimately show ?thesis using c(3,4) by (simp add: Manifest_Deployment_def ManifestGroup_FromCRD_def recovered_group_def)
qed

definition ex_service :: "string \<Rightarrow> am_tee option \<Rightarrow> bool am_service" where
  "ex_service n tee = \<lparr>as_SvcName = n, as_Image = ''img'', as_Command = [], as_Args = [], as_Env = [],
     as_Resources = \<lparr>ar_ID = 1, ar_CPU = Some \<lparr>ac_Units = 100, ac_Attributes = []\<rparr>, ar_GPU = None,
       ar_Memory = Some \<lparr>amem_Quantity = 1024, amem_Attributes = []\<rparr>, ar_Storage = [],
       ar_Endpoints = [\<lparr>ep_Kind = Endpoint_LEASED_IP, SequenceNumber = 1\<rparr>]\<rparr>,
     as_Count = 1, as_Expose = [\<lparr>ae_Port = 80, ae_ExternalPort = 0, ae_Proto = True, ae_Service = [], ae_Global = True, ae_Hosts = [],
       ae_EndpointSequenceNumber = 1, ae_IP = ''ip'',
       ae_HTTPOptions = \<lparr>ah_MaxBodySize = 0, ah_ReadTimeout = 0, ah_SendTimeout = 0, ah_NextTries = 0, ah_NextTimeout = 0,
         ah_NextCases = [], ah_Proxy = None\<rparr>\<rparr>],
     as_Params = map_option (\<lambda>t. \<lparr>apar_Storage = [], apar_Permissions = None, apar_TEE = Some t\<rparr>) tee,
     as_Credentials = None, as_InterconnectGroup = []\<rparr>"

definition ex_lid1 :: lease_id where
  "ex_lid1 = \<lparr>l_owner = ''o'', l_dseq = 7, l_gseq = 1, l_oseq = 1, l_provider = ''p''\<rparr>"

definition ex_manifest :: "crd_error + (crd_manifest \<times> scheduler_params list)" where
  "ex_manifest = NewManifest (\<lambda>b. if b then ''TCP'' else ''UDP'') (\<lambda>_. ''ns1'') ''lease'' ex_lid1
     \<lparr>ag_Name = ''g'', ag_Services = [ex_service ''a'' None]\<rparr> [None] []"

lemma ex_manifest_ok: "is_ok ex_manifest"
  by (simp add: ex_manifest_def NewManifest_def manifestGroupToCRD_def manifestServiceFromProvider_def resourcesFromAkash_def cpuFromAkash_def
      ex_service_def set_tee_def)

theorem manifest_recovered_witness:
  "\<exists>m st d. ex_manifest = Inr (m, st) \<and>
     Manifest_Deployment Some (\<lambda>s. if s = ''TCP'' then Some True else if s = ''UDP'' then Some False else None) m = Inr d \<and>
     cd_lid d = ex_lid1 \<and> cd_group d = recovered_group \<lparr>ag_Name = ''g'', ag_Services = [ex_service ''a'' None]\<rparr>"
proof -
  obtain m st where m: "ex_manifest = Inr (m, st)" using ex_manifest_ok by (auto simp: is_ok_iff)
  have "ports_fit \<lparr>ag_Name = ''g'', ag_Services = [ex_service ''a'' None]\<rparr>" by (simp add: ports_fit_def ex_service_def)
  then show ?thesis
    using manifest_recovered[of "\<lambda>s. if s = ''TCP'' then Some True else if s = ''UDP'' then Some False else None" "\<lambda>b. if b then ''TCP'' else ''UDP''"
        Some ex_lid1, OF _ _ _ _ m[unfolded ex_manifest_def]] m by auto
qed

text \<open>the leased addresses of a recovered deployment are not counted. The endpoints that \<open>fromCRD\<close> adds for the
  exposed addresses never reach the service it returns, so the reservation of a recovered
  deployment asks for no address at all, however many its services expose.\<close>

theorem recovered_deployment_counts_no_ips:
  assumes "Manifest_Deployment addr pp m = Inr d"
    and "\<forall>u \<in> set (GetResourceUnits rg). \<exists>s \<in> set (ag_Services (cd_group d)). res_Endpoints (ru_Resources u) = ar_Endpoints (as_Resources s)"
  shows "GetEndpointQuantityOfResourceGroup rg Endpoint_LEASED_IP = 0"
proof -
  obtain ss where "services_fromCRD pp (cg_Services (cmf_Group m)) = Inr ss" "ag_Services (cd_group d) = ss"
    using assms(1) by (auto simp: Manifest_Deployment_def ManifestGroup_FromCRD_def split: sum.splits)
  then have "\<forall>u \<in> set (GetResourceUnits rg). res_Endpoints (ru_Resources u) = []"
    using assms(2) services_fromCRD_endpoints by metis
  then show ?thesis by (simp add: GetEndpointQuantityOfResourceGroup_def no_endpoints_no_quantity)
qed

theorem recovered_deployment_counts_no_ips_witness:
  "\<exists>m st d. ex_manifest = Inr (m, st) \<and>
     Manifest_Deployment Some (\<lambda>s. if s = ''TCP'' then Some True else None) m = Inr d \<and>
     map ae_IP (as_Expose (hd (ag_Services (cd_group d)))) = [''ip''] \<and>
     GetEndpointQuantityOfResourceGroup (OtherGroup ''g'' (map (\<lambda>s. \<lparr>ru_Resources = \<lparr>res_ID = 1, res_CPU = None, res_Memory = None, res_GPU = None,
        res_Storage = [], res_Endpoints = ar_Endpoints (as_Resources s)\<rparr>, ru_Count = 1\<rparr>) (ag_Services (cd_group d)))) Endpoint_LEASED_IP = 0"
proof -
  let ?pp = "\<lambda>s. if s = ''TCP'' then Some True else None"
  obtain m st where m: "ex_manifest = Inr (m, st)" using ex_manifest_ok by (auto simp: is_ok_iff)
  obtain d where d: "Manifest_Deployment Some ?pp m = Inr d" "map ae_IP (as_Expose (hd (ag_Services (cd_group d)))) = [''ip'']"
    using m by (auto simp: ex_manifest_def NewManifest_def manifestGroupToCRD_def manifestServiceFromProvider_def resourcesFromAkash_def
        cpuFromAkash_def ex_service_def set_tee_def Manifest_Deployment_def LeaseID_FromCRD_def LeaseIDFromAkash_def ManifestGroup_FromCRD_def
        service_fromCRD_def expose_toAkash_def manifestServiceExposeFromAkash_def)
  let ?rg = "OtherGroup ''g'' (map (\<lambda>s. \<lparr>ru_Resources = \<lparr>res_ID = 1, res_CPU = None, res_Memory = None, res_GPU = None, res_Storage = [],
      res_Endpoints = ar_Endpoints (as_Resources s)\<rparr>, ru_Count = 1\<rparr>) (ag_Services (cd_group d)))"
  have "GetEndpointQuantityOfResourceGroup ?rg Endpoint_LEASED_IP = 0"
    by (rule recovered_deployment_counts_no_ips[OF d(1)]) auto
  then show ?thesis using m d by (intro exI conjI)
qed

text \<open>the TEE of one service spreads to others. Services that use the same resources share one set of scheduler
  parameters, and storing the manifest writes the TEE of a service through the shared pointer: a
  service that asks for none is stored with the TEE type of its neighbour, and without
  attestation if the neighbour disabled it.\<close>

theorem tee_spreads_to_shared_resources:
  assumes "buildClusterSettings [s1, s2] m = Inr settings" and "ar_ID (as_Resources s1) = ar_ID (as_Resources s2)"
    and "m (ar_ID (as_Resources s1)) = Some (Some i)" and "i < length st"
    and "as_Params s1 = Some p1" and "apar_TEE p1 = Some tee" and "as_Params s2 = None"
    and "services_toCRD pt [s1, s2] settings st = Inr ([c1, c2], st')"
  shows "cs_SchedulerParams c2 = Some i \<and> sp_TEEType (st' ! i) = tee_Type tee \<and>
     (\<not> tee_Attestation tee \<longrightarrow> AttestationDisabled (st' ! i))"
proof -
  have "settings = [Some i, Some i]" using buildClusterSettings_pair[OF assms(1,2)] assms(3) by simp
  then show ?thesis using assms(4-8)
    by (auto simp: manifestServiceFromProvider_def set_tee_def Let_def split: sum.splits if_splits)
qed

theorem tee_spreads_to_shared_resources_witness:
  "\<exists>c1 c2 st. services_toCRD (\<lambda>b. ''TCP'') [ex_service ''a'' (Some \<lparr>tee_Type = ''snp'', tee_Attestation = False\<rparr>), ex_service ''b'' None]
      [Some 0, Some 0] [zero_sparams] = Inr ([c1, c2], st) \<and> cs_SchedulerParams c2 = Some 0 \<and>
     sp_TEEType (st ! 0) = ''snp'' \<and> AttestationDisabled (st ! 0)"
proof -
  let ?s1 = "ex_service ''a'' (Some \<lparr>tee_Type = ''snp'', tee_Attestation = False\<rparr>)" and ?s2 = "ex_service ''b'' None"
  have b: "buildClusterSettings [?s1, ?s2] [1 \<mapsto> Some 0] = Inr [Some 0, Some 0]" by (simp add: ex_service_def)
  obtain c1 c2 st where c: "services_toCRD (\<lambda>b. ''TCP'') [?s1, ?s2] [Some 0, Some 0] [zero_sparams] = Inr ([c1, c2], st)"
    by (simp add: manifestServiceFromProvider_def resourcesFromAkash_def cpuFromAkash_def ex_service_def set_tee_def)
  show ?thesis using tee_spreads_to_shared_resources[OF b _ _ _ _ _ _ c] c by (auto simp: ex_service_def)
qed

end
