(* ===== verification/NginxRoute.thy ===== *)
theory NginxRoute
  imports ManifestData
begin

text \<open>
  How the options of an exposed service become nginx configuration: the directive the hostname
  operator builds for a hostname (cluster/types/v1beta3/clients/hostname), the annotations of the
  ingress path (kubeNginxIngressAnnotations) and the snippet of the gateway path
  (cluster/kube/gateway/nginx_gateway.go). Sizes and times are 32-bit words and wrap as in the code.
  \<open>math.Ceil(float64(ms) / 1000)\<close> is division rounded up: a 32-bit dividend is exact in a float64
  and the quotient of one that is not a multiple of 1000 stays clear of the integers.
\<close>

section \<open>The directive\<close>

record directive =
  d_Hostname :: string
  d_LeaseID :: lease_id
  d_ServiceName :: string
  d_ServicePort :: u32
  d_ReadTimeout :: u32
  d_SendTimeout :: u32
  d_NextTimeout :: u32
  d_MaxBodySize :: u32
  d_NextTries :: u32
  d_NextCases :: "string list"
  d_ProxyBufferingDisable :: bool
  d_ProxyBufferSize :: u32
  d_ProxyBuffersNumber :: u32
  d_ProxyBuffersSize :: u32
  d_ProxyBusyBuffersSize :: u32
  d_ProxyConnectTimeout :: u32

definition u32toa :: "u32 \<Rightarrow> string" where
  "u32toa w = itoa (unat w)"

definition msToSec :: "u32 \<Rightarrow> nat" where
  "msToSec ms = (unat ms + 999) div 1000"

section \<open>Proxy buffers of the ingress path\<close>

record ingressProxyBuffers =
  pb_BufferSize :: u32
  pb_Number :: u32
  pb_BusySize :: u32

definition IngressProxyBuffers :: "directive \<Rightarrow> ingressProxyBuffers" where
  "IngressProxyBuffers d =
     (let bufferSize = d_ProxyBufferSize d;
          out = \<lparr>pb_BufferSize = bufferSize, pb_Number = 0, pb_BusySize = 0\<rparr>;
          number = d_ProxyBuffersNumber d;
          busy = d_ProxyBusyBuffersSize d
      in if (number = 0 \<and> busy = 0) \<or> bufferSize = 0 then out
         else let number = (if number = 0 then 4 else number) in
              if number < 2 then out
              else let busy = (if busy = 0 then 2 * bufferSize else busy) in
                   if busy < bufferSize \<or> busy > (number - 1) * bufferSize then out
                   else out\<lparr>pb_Number := number, pb_BusySize := busy\<rparr>)"

section \<open>Annotations of the ingress path\<close>

definition nginx_root :: string where
  "nginx_root = ''nginx.ingress.kubernetes.io''"

text \<open>The cases in which the next upstream is tried, joined by spaces. \<open>v[0]\<close> panics on an empty case.\<close>

fun next_cases_text :: "string list \<Rightarrow> string option" where
  "next_cases_text [] = Some []"
| "next_cases_text (v # vs) =
     (case v of
        [] \<Rightarrow> None
      | first # _ \<Rightarrow>
          map_option (\<lambda>rest. (if first \<in> set ''12345'' then ''http_'' else []) @ v @ (if vs = [] then [] else '' '') @ rest)
            (next_cases_text vs))"

definition set_if :: "bool \<Rightarrow> string \<Rightarrow> string \<Rightarrow> (string \<rightharpoonup> string) \<Rightarrow> (string \<rightharpoonup> string)" where
  "set_if b k v m = (if b then m(nginx_root @ k \<mapsto> v) else m)"

definition kubeNginxIngressAnnotations :: "directive \<Rightarrow> (string \<rightharpoonup> string) option" where
  "kubeNginxIngressAnnotations d =
     map_option (\<lambda>cases.
       let m = Map.empty;
           m = set_if True ''/proxy-read-timeout'' (itoa (msToSec (d_ReadTimeout d))) m;
           m = set_if True ''/proxy-send-timeout'' (itoa (msToSec (d_SendTimeout d))) m;
           m = set_if True ''/proxy-next-upstream-tries'' (u32toa (d_NextTries d)) m;
           m = set_if True ''/proxy-body-size'' (u32toa (d_MaxBodySize d)) m;
           m = set_if True ''/proxy-next-upstream-timeout'' (itoa (if 0 < d_NextTimeout d then msToSec (d_NextTimeout d) else 0)) m;
           m = set_if True ''/proxy-next-upstream'' cases m;
           m = set_if (d_ProxyBufferingDisable d) ''/proxy-buffering'' ''off'' m;
           pb = IngressProxyBuffers d;
           m = set_if (0 < pb_BufferSize pb) ''/proxy-buffer-size'' (u32toa (pb_BufferSize pb)) m;
           m = set_if (0 < pb_Number pb) ''/proxy-buffers-number'' (u32toa (pb_Number pb)) m;
           m = set_if (0 < pb_BusySize pb) ''/proxy-busy-buffers-size'' (u32toa (pb_BusySize pb)) m;
           m = set_if (0 < d_ProxyConnectTimeout d) ''/proxy-connect-timeout'' (itoa (msToSec (d_ProxyConnectTimeout d))) m
       in m) (next_cases_text (d_NextCases d))"

section \<open>The snippet of the gateway path\<close>

definition proxyBufferLines :: "directive \<Rightarrow> string list" where
  "proxyBufferLines d =
     (let bufferSize = d_ProxyBufferSize d; poolNum = d_ProxyBuffersNumber d;
          poolSize = d_ProxyBuffersSize d; busy = d_ProxyBusyBuffersSize d
      in if (poolNum = 0) \<noteq> (poolSize = 0) then []
         else if bufferSize = 0 \<and> poolNum = 0 \<and> busy = 0 then []
         else
           let bufferSize = (if bufferSize = 0 then poolSize else bufferSize);
               poolSize = (if poolSize = 0 then bufferSize else poolSize);
               poolNum = (if poolNum = 0 then 8 else poolNum)
           in if bufferSize = 0 \<or> poolSize = 0 \<or> poolNum < 2 then []
              else
                let minBusy = (if poolSize > bufferSize then poolSize else bufferSize);
                    maxBusy = (poolNum - 1) * poolSize;
                    busy = (if busy = 0 then minBusy else busy)
                in if busy < minBusy \<or> busy > maxBusy then []
                   else [''proxy_buffer_size '' @ u32toa bufferSize @ '';'',
                         ''proxy_buffers '' @ u32toa poolNum @ '' '' @ u32toa poolSize @ '';'',
                         ''proxy_busy_buffers_size '' @ u32toa busy @ '';''])"

text \<open>\<open>strconv.Atoi\<close>: an optional sign and digits, in the range of an int.\<close>

definition atoi :: "string \<Rightarrow> int option" where
  "atoi s =
     (let neg = has_prefix s ''-'';
          body = (if neg \<or> has_prefix s ''+'' then tl s else s)
      in (case parse_uint body of
            None \<Rightarrow> None
          | Some n \<Rightarrow> let v = (if neg then - int n else int n) in if - (2 ^ 63) \<le> v \<and> v < 2 ^ 63 then Some v else None))"

definition validProxyNextUpstreamTokens :: "string list" where
  "validProxyNextUpstreamTokens =
     [''error'', ''timeout'', ''invalid_header'', ''http_500'', ''http_502'', ''http_503'', ''http_504'', ''http_403'',
      ''http_404'', ''http_429'', ''non_idempotent'', ''off'']"

definition normalizeNextCase :: "string \<Rightarrow> string option" where
  "normalizeNextCase c =
     (let c = (if atoi c \<noteq> None then ''http_'' @ c else c) in
      if c \<in> set validProxyNextUpstreamTokens then Some c else None)"

fun join_spaces :: "string list \<Rightarrow> string" where
  "join_spaces [] = []"
| "join_spaces [x] = x"
| "join_spaces (x # xs) = x @ '' '' @ join_spaces xs"

definition opt_line :: "bool \<Rightarrow> string \<Rightarrow> string list" where
  "opt_line b l = (if b then [l] else [])"

definition snippet_lines :: "directive \<Rightarrow> string list" where
  "snippet_lines d =
     opt_line (0 < d_MaxBodySize d) (''client_max_body_size '' @ u32toa (d_MaxBodySize d) @ '';'') @
     opt_line (0 < d_ReadTimeout d) (''proxy_read_timeout '' @ u32toa (d_ReadTimeout d) @ ''ms;'') @
     opt_line (0 < d_SendTimeout d) (''proxy_send_timeout '' @ u32toa (d_SendTimeout d) @ ''ms;'') @
     opt_line (0 < d_ProxyConnectTimeout d) (''proxy_connect_timeout '' @ itoa (msToSec (d_ProxyConnectTimeout d)) @ ''s;'') @
     opt_line (d_ProxyBufferingDisable d) ''proxy_buffering off;'' @
     proxyBufferLines d @
     opt_line (0 < d_NextTries d) (''proxy_next_upstream_tries '' @ u32toa (d_NextTries d) @ '';'') @
     opt_line (0 < d_NextTimeout d) (''proxy_next_upstream_timeout '' @ u32toa (d_NextTimeout d) @ ''ms;'') @
     (let cases = List.map_filter normalizeNextCase (d_NextCases d) in
      opt_line (cases \<noteq> []) (''proxy_next_upstream '' @ join_spaces cases @ '';''))"

definition httpOptionsSnippet :: "directive \<Rightarrow> string" where
  "httpOptionsSnippet d = concat (map (\<lambda>l. l @ [CHR 0x0A]) (snippet_lines d))"

section \<open>Routes\<close>

record snippets_filter =
  sf_name :: string
  sf_namespace :: string
  sf_value :: string

definition BuildRouteExtensions :: "string \<Rightarrow> string \<Rightarrow> directive \<Rightarrow> snippets_filter list" where
  "BuildRouteExtensions ns routeName d =
     (let snippet = httpOptionsSnippet d in
      if snippet = [] then [] else [\<lparr>sf_name = routeName, sf_namespace = ns, sf_value = snippet\<rparr>])"

record route_rule =
  rr_path :: string
  rr_filters :: "string list"
  rr_backends :: "(string \<times> u32 option) list"

record httpRouteSpec =
  rs_parents :: "(string \<times> string) list"
  rs_hostnames :: "string list"
  rs_rules :: "route_rule list"

definition empty_spec :: httpRouteSpec where
  "empty_spec = \<lparr>rs_parents = [], rs_hostnames = [], rs_rules = []\<rparr>"

definition BuildHTTPRouteSpec :: "string \<Rightarrow> string \<Rightarrow> string \<Rightarrow> string \<Rightarrow> u32 \<Rightarrow> snippets_filter list \<Rightarrow> httpRouteSpec" where
  "BuildHTTPRouteSpec gatewayName gatewayNamespace hostname serviceName servicePort extensions =
     \<lparr>rs_parents = [(gatewayNamespace, gatewayName)], rs_hostnames = [hostname],
      rs_rules = [\<lparr>rr_path = ''/'', rr_filters = map sf_name extensions, rr_backends = [(serviceName, Some servicePort)]\<rparr>]\<rparr>"

text \<open>Reading the status of an extension: \<open>NestedSlice\<close>, \<open>NestedString\<close> and \<open>NestedInt64\<close> on decoded JSON.\<close>

fun json_field :: "string \<Rightarrow> json \<Rightarrow> json option" where
  "json_field k (JObj kvs) = map_of kvs k"
| "json_field k _ = None"

fun nested_slice :: "string list \<Rightarrow> json \<Rightarrow> json list" where
  "nested_slice [] (JArr xs) = xs"
| "nested_slice [] _ = []"
| "nested_slice (k # ks) j = (case json_field k j of None \<Rightarrow> [] | Some v \<Rightarrow> nested_slice ks v)"

definition nested_string :: "string \<Rightarrow> json \<Rightarrow> string" where
  "nested_string k j = (case json_field k j of Some (JStr s) \<Rightarrow> s | _ \<Rightarrow> [])"

definition nested_int64 :: "string \<Rightarrow> json \<Rightarrow> int option" where
  "nested_int64 k j = (case json_field k j of Some (JNum s) \<Rightarrow> atoi s | _ \<Rightarrow> None)"

definition condition_accepts :: "int \<Rightarrow> json \<Rightarrow> bool" where
  "condition_accepts generation cond \<longleftrightarrow>
     (case cond of JObj _ \<Rightarrow>
        nested_string ''type'' cond = ''Accepted'' \<and> nested_string ''status'' cond = ''True'' \<and>
        (case nested_int64 ''observedGeneration'' cond of None \<Rightarrow> True | Some g \<Rightarrow> g = 0 \<or> generation \<le> g)
      | _ \<Rightarrow> False)"

definition extensionAccepted :: "json \<Rightarrow> int \<Rightarrow> bool" where
  "extensionAccepted obj generation =
     list_ex (\<lambda>c. case c of JObj _ \<Rightarrow> list_ex (condition_accepts generation) (nested_slice [''conditions''] c) | _ \<Rightarrow> False)
       (nested_slice [''status'', ''controllers''] obj)"

section \<open>What nginx accepts\<close>

text \<open>
  nginx takes a set of buffers (one buffer, number and size of the pool, busy limit) when the pool
  has two buffers at least and the busy limit lies between the largest buffer and the pool less one
  buffer. The products are over the integers.
\<close>

definition nginx_buffers_ok :: "u32 \<Rightarrow> u32 \<Rightarrow> u32 \<Rightarrow> u32 \<Rightarrow> bool" where
  "nginx_buffers_ok one num sz busy \<longleftrightarrow> 2 \<le> uint num \<and> max (uint one) (uint sz) \<le> uint busy \<and>
     uint busy \<le> (uint num - 1) * uint sz"

text \<open>A plain directive: letters, digits, underscores and spaces, closed by one semicolon.\<close>

definition nginx_plain :: "char \<Rightarrow> bool" where
  "nginx_plain c = (let n = of_char c :: nat in (97 \<le> n \<and> n \<le> 122) \<or> (48 \<le> n \<and> n \<le> 57) \<or> c = CHR ''_'' \<or> c = CHR '' '')"

definition directive_line :: "string \<Rightarrow> bool" where
  "directive_line l \<longleftrightarrow> l \<noteq> [] \<and> last l = CHR '';'' \<and> list_all nginx_plain (butlast l)"

definition line_name :: "string \<Rightarrow> string" where
  "line_name l = takeWhile (\<lambda>c. c \<noteq> CHR '' '') l"

definition nginx_directives :: "string list" where
  "nginx_directives = [''client_max_body_size'', ''proxy_read_timeout'', ''proxy_send_timeout'', ''proxy_connect_timeout'',
     ''proxy_buffering'', ''proxy_buffer_size'', ''proxy_buffers'', ''proxy_busy_buffers_size'', ''proxy_next_upstream_tries'',
     ''proxy_next_upstream_timeout'', ''proxy_next_upstream'']"

section \<open>Lemmas\<close>

lemma uint_times_le: "uint ((a :: u32) * b) \<le> uint a * uint b"
  by (simp add: uint_word_ariths zmod_le_nonneg_dividend)

text \<open>The wrapped upper limit never exceeds the true one.\<close>

lemma busy_limit: "2 \<le> (n :: u32) \<Longrightarrow> busy \<le> (n - 1) * s \<Longrightarrow> 2 \<le> uint n \<and> uint busy \<le> (uint n - 1) * uint s"
proof -
  assume n: "2 \<le> n" and b: "busy \<le> (n - 1) * s"
  have n': "2 \<le> uint n" using n by (simp add: word_le_def)
  have "1 \<le> n" using n' by (simp add: word_le_def)
  then have "uint (n - 1) = uint n - 1" using uint_sub_lem[of 1 n] n' by simp
  then show ?thesis using n' b uint_times_le[of "n - 1" s] by (simp add: word_le_def)
qed

lemma itoa_plain [simp]: "list_all nginx_plain (itoa n)"
  using itoa_digits[of n] by (auto simp: list_all_iff is_digit_def nginx_plain_def Let_def)

lemma u32toa_plain [simp]: "list_all nginx_plain (u32toa w)"
  by (simp add: u32toa_def)

lemma directive_lineI: "list_all nginx_plain b \<Longrightarrow> directive_line (b @ '';'')"
  by (simp add: directive_line_def)

lemma normalizeNextCase_token: "normalizeNextCase c = Some t \<Longrightarrow> t \<in> set validProxyNextUpstreamTokens"
  by (auto simp: normalizeNextCase_def Let_def split: if_splits)

lemma tokens_plain: "t \<in> set validProxyNextUpstreamTokens \<Longrightarrow> list_all nginx_plain t"
  by (auto simp: validProxyNextUpstreamTokens_def nginx_plain_def)

lemma join_spaces_plain: "list_all (list_all nginx_plain) ts \<Longrightarrow> list_all nginx_plain (join_spaces ts)"
  by (induction ts rule: join_spaces.induct) (simp_all add: nginx_plain_def)

lemma next_cases_plain: "list_all nginx_plain (join_spaces (List.map_filter normalizeNextCase cs))"
proof (rule join_spaces_plain)
  show "list_all (list_all nginx_plain) (List.map_filter normalizeNextCase cs)"
    using tokens_plain normalizeNextCase_token by (induction cs) (auto simp: map_filter_simps split: option.split)
qed

text \<open>The group of buffer lines is absent or a set that nginx accepts, built from the values that are set.\<close>

lemma proxyBufferLines_cases:
  "proxyBufferLines d = [] \<or> (\<exists>one num sz busy.
     proxyBufferLines d = [''proxy_buffer_size '' @ u32toa one @ '';'', ''proxy_buffers '' @ u32toa num @ '' '' @ u32toa sz @ '';'',
       ''proxy_busy_buffers_size '' @ u32toa busy @ '';''] \<and> nginx_buffers_ok one num sz busy \<and>
     (d_ProxyBufferSize d \<noteq> 0 \<longrightarrow> one = d_ProxyBufferSize d) \<and> (d_ProxyBuffersNumber d \<noteq> 0 \<longrightarrow> num = d_ProxyBuffersNumber d) \<and>
     (d_ProxyBuffersSize d \<noteq> 0 \<longrightarrow> sz = d_ProxyBuffersSize d) \<and> (d_ProxyBusyBuffersSize d \<noteq> 0 \<longrightarrow> busy = d_ProxyBusyBuffersSize d))"
proof (cases "proxyBufferLines d = []")
  case False
  define one where "one = (if d_ProxyBufferSize d = 0 then d_ProxyBuffersSize d else d_ProxyBufferSize d)"
  define sz where "sz = (if d_ProxyBuffersSize d = 0 then one else d_ProxyBuffersSize d)"
  define num where "num = (if d_ProxyBuffersNumber d = 0 then 8 else d_ProxyBuffersNumber d)"
  define lo where "lo = (if one < sz then sz else one)"
  define busy where "busy = (if d_ProxyBusyBuffersSize d = 0 then lo else d_ProxyBusyBuffersSize d)"
  note defs = one_def[symmetric] sz_def[symmetric] num_def[symmetric] lo_def[symmetric] busy_def[symmetric]
  have f: "\<not> num < 2" "\<not> busy < lo" "\<not> (num - 1) * sz < busy" and
    l: "proxyBufferLines d = [''proxy_buffer_size '' @ u32toa one @ '';'', ''proxy_buffers '' @ u32toa num @ '' '' @ u32toa sz @ '';'',
       ''proxy_busy_buffers_size '' @ u32toa busy @ '';'']"
    using False unfolding proxyBufferLines_def Let_def defs by (auto split: if_splits)
  have "max (uint one) (uint sz) \<le> uint busy" using f(2) by (auto simp: lo_def word_less_def word_le_def split: if_splits)
  then have "nginx_buffers_ok one num sz busy"
    using busy_limit[of num busy sz] f by (simp add: nginx_buffers_ok_def not_less)
  then show ?thesis using l by (intro disjI2 exI[of _ one] exI[of _ num] exI[of _ sz] exI[of _ busy]) (simp add: one_def num_def sz_def busy_def)
qed simp

lemma proxyBufferLines_lines:
  "list_all directive_line (proxyBufferLines d) \<and>
   (proxyBufferLines d = [] \<or> map line_name (proxyBufferLines d) = [''proxy_buffer_size'', ''proxy_buffers'', ''proxy_busy_buffers_size''])"
proof -
  have a: "directive_line (p @ u32toa w @ '';'')" if "list_all nginx_plain p" for p w
    using directive_lineI[of "p @ u32toa w"] that by simp
  have b: "directive_line (p @ u32toa w @ '' '' @ u32toa v @ '';'')" if "list_all nginx_plain p" for p w v
    using directive_lineI[of "p @ u32toa w @ '' '' @ u32toa v"] that by (simp add: nginx_plain_def)
  show ?thesis
    using proxyBufferLines_cases[of d] a[of "''proxy_buffer_size ''"] a[of "''proxy_busy_buffers_size ''"] b[of "''proxy_buffers ''"]
    by (auto simp: line_name_def nginx_plain_def)
qed

lemma num_line: "list_all nginx_plain (p @ q) \<Longrightarrow> directive_line (p @ itoa k @ q @ '';'')"
  using directive_lineI[of "p @ itoa k @ q"] by simp

lemma opt_line_ok: "directive_line l \<Longrightarrow> list_all directive_line (opt_line b l)"
  by (simp add: opt_line_def)

lemma snippet_lines_ok: "list_all directive_line (snippet_lines d)"
proof -
  note ms = num_line[of _ "''ms''", simplified] and s = num_line[of _ "''s''", simplified] and n = num_line[of _ "[]", simplified]
  have c: "directive_line (''proxy_next_upstream '' @ join_spaces (List.map_filter normalizeNextCase (d_NextCases d)) @ '';'')"
    using directive_lineI[of "''proxy_next_upstream '' @ join_spaces (List.map_filter normalizeNextCase (d_NextCases d))"] next_cases_plain
    by (simp add: nginx_plain_def)
  have o: "directive_line ''proxy_buffering off;''" by (simp add: directive_line_def nginx_plain_def)
  show ?thesis
    unfolding snippet_lines_def Let_def list_all_append u32toa_def
    by (intro conjI opt_line_ok ms s n c o proxyBufferLines_lines[THEN conjunct1]) (simp_all add: nginx_plain_def)
qed

lemma opt_line_name: "line_name l = n \<Longrightarrow> subseq (map line_name (opt_line b l)) [n]"
  by (simp add: opt_line_def)

lemma proxyBufferLines_names: "subseq (map line_name (proxyBufferLines d)) [''proxy_buffer_size'', ''proxy_buffers'', ''proxy_busy_buffers_size'']"
  using proxyBufferLines_lines[of d] by auto

text \<open>Every directive is one of a fixed list, in its order, and none comes twice.\<close>

lemma snippet_lines_names: "subseq (map line_name (snippet_lines d)) nginx_directives"
proof -
  have eq: "nginx_directives = [''client_max_body_size''] @ [''proxy_read_timeout''] @ [''proxy_send_timeout''] @ [''proxy_connect_timeout''] @
     [''proxy_buffering''] @ [''proxy_buffer_size'', ''proxy_buffers'', ''proxy_busy_buffers_size''] @ [''proxy_next_upstream_tries''] @
     [''proxy_next_upstream_timeout''] @ [''proxy_next_upstream'']" by (simp add: nginx_directives_def)
  show ?thesis unfolding snippet_lines_def map_append Let_def eq
    by (intro list_emb_append_mono opt_line_name proxyBufferLines_names; simp add: line_name_def)
qed

lemma subseq_set: "subseq xs ys \<Longrightarrow> set xs \<subseteq> set ys"
  by (auto elim: list_emb_set)

lemma subseq_distinct: "subseq xs ys \<Longrightarrow> distinct ys \<Longrightarrow> distinct xs"
  by (induction rule: list_emb.induct) (auto dest: list_emb_set)

lemma IngressProxyBuffers_cases:
  assumes "pb_Number (IngressProxyBuffers d) \<noteq> 0"
  shows "nginx_buffers_ok (pb_BufferSize (IngressProxyBuffers d)) (pb_Number (IngressProxyBuffers d))
     (pb_BufferSize (IngressProxyBuffers d)) (pb_BusySize (IngressProxyBuffers d))"
proof -
  define num where "num = (if d_ProxyBuffersNumber d = 0 then 4 else d_ProxyBuffersNumber d)"
  define busy where "busy = (if d_ProxyBusyBuffersSize d = 0 then 2 * d_ProxyBufferSize d else d_ProxyBusyBuffersSize d)"
  note defs = num_def[symmetric] busy_def[symmetric]
  have f: "\<not> num < 2" "\<not> busy < d_ProxyBufferSize d" "\<not> (num - 1) * d_ProxyBufferSize d < busy" and
    eq: "IngressProxyBuffers d = \<lparr>pb_BufferSize = d_ProxyBufferSize d, pb_Number = num, pb_BusySize = busy\<rparr>"
    using assms unfolding IngressProxyBuffers_def Let_def defs by (auto split: if_splits)
  show ?thesis unfolding eq
    using busy_limit[of num busy "d_ProxyBufferSize d"] f by (simp add: nginx_buffers_ok_def not_less word_le_def)
qed

lemma next_cases_text_None: "next_cases_text vs = None \<longleftrightarrow> [] \<in> set vs"
proof (induction vs)
  case (Cons v vs)
  then show ?case by (cases v) auto
qed simp

section \<open>Properties\<close>

text \<open>C32: a tenant cannot inject configuration. Whatever the options of an exposed service are, the snippet of
  its route is a sequence of lines, each a single plain directive closed by its only semicolon,
  from a fixed list of proxy directives, and no directive comes twice.\<close>

theorem snippet_cannot_inject:
  "\<exists>ls. httpOptionsSnippet d = concat (map (\<lambda>l. l @ [CHR 0x0A]) ls) \<and> list_all directive_line ls \<and>
     distinct (map line_name ls) \<and> set (map line_name ls) \<subseteq> set nginx_directives"
proof (intro exI conjI)
  show "httpOptionsSnippet d = concat (map (\<lambda>l. l @ [CHR 0x0A]) (snippet_lines d))" by (simp add: httpOptionsSnippet_def)
  show "list_all directive_line (snippet_lines d)" by (rule snippet_lines_ok)
  show "distinct (map line_name (snippet_lines d))"
    by (rule subseq_distinct[OF snippet_lines_names]) (simp add: nginx_directives_def)
  show "set (map line_name (snippet_lines d)) \<subseteq> set nginx_directives"
    by (rule subseq_set[OF snippet_lines_names])
qed

text \<open>every set of proxy buffers that reaches nginx is one it accepts, on the ingress and on the gateway
  path, also where the 32-bit product that bounds the busy size wraps around. What the tenant set
  is kept as it is.\<close>

theorem emitted_buffers_accepted:
  "(proxyBufferLines d \<noteq> [] \<longrightarrow> (\<exists>one num sz busy.
      proxyBufferLines d = [''proxy_buffer_size '' @ u32toa one @ '';'', ''proxy_buffers '' @ u32toa num @ '' '' @ u32toa sz @ '';'',
        ''proxy_busy_buffers_size '' @ u32toa busy @ '';''] \<and> nginx_buffers_ok one num sz busy \<and>
      (d_ProxyBufferSize d \<noteq> 0 \<longrightarrow> one = d_ProxyBufferSize d) \<and> (d_ProxyBuffersNumber d \<noteq> 0 \<longrightarrow> num = d_ProxyBuffersNumber d) \<and>
      (d_ProxyBuffersSize d \<noteq> 0 \<longrightarrow> sz = d_ProxyBuffersSize d) \<and> (d_ProxyBusyBuffersSize d \<noteq> 0 \<longrightarrow> busy = d_ProxyBusyBuffersSize d))) \<and>
   (pb_Number (IngressProxyBuffers d) \<noteq> 0 \<longrightarrow>
      nginx_buffers_ok (pb_BufferSize (IngressProxyBuffers d)) (pb_Number (IngressProxyBuffers d))
        (pb_BufferSize (IngressProxyBuffers d)) (pb_BusySize (IngressProxyBuffers d)))"
proof (intro conjI impI)
  assume "proxyBufferLines d \<noteq> []"
  then show "\<exists>one num sz busy. proxyBufferLines d = [''proxy_buffer_size '' @ u32toa one @ '';'',
        ''proxy_buffers '' @ u32toa num @ '' '' @ u32toa sz @ '';'', ''proxy_busy_buffers_size '' @ u32toa busy @ '';''] \<and>
      nginx_buffers_ok one num sz busy \<and>
      (d_ProxyBufferSize d \<noteq> 0 \<longrightarrow> one = d_ProxyBufferSize d) \<and> (d_ProxyBuffersNumber d \<noteq> 0 \<longrightarrow> num = d_ProxyBuffersNumber d) \<and>
      (d_ProxyBuffersSize d \<noteq> 0 \<longrightarrow> sz = d_ProxyBuffersSize d) \<and> (d_ProxyBusyBuffersSize d \<noteq> 0 \<longrightarrow> busy = d_ProxyBusyBuffersSize d)"
    using proxyBufferLines_cases[of d] by (elim disjE) (erule notE, assumption)
qed (rule IngressProxyBuffers_cases)

definition ex_directive :: directive where
  "ex_directive = \<lparr>d_Hostname = ''h'', d_LeaseID = \<lparr>l_owner = ''o'', l_dseq = 1, l_gseq = 1, l_oseq = 1, l_provider = ''p''\<rparr>,
     d_ServiceName = ''web'', d_ServicePort = 80, d_ReadTimeout = 0, d_SendTimeout = 0, d_NextTimeout = 0, d_MaxBodySize = 0,
     d_NextTries = 0, d_NextCases = [''500'', ''; evil''], d_ProxyBufferingDisable = False, d_ProxyBufferSize = 4096,
     d_ProxyBuffersNumber = 4, d_ProxyBuffersSize = 8192, d_ProxyBusyBuffersSize = 0, d_ProxyConnectTimeout = 0\<rparr>"

theorem emitted_buffers_accepted_witness:
  "pb_Number (IngressProxyBuffers ex_directive) = 4 \<and> nginx_buffers_ok 4096 4 4096 8192 \<and> proxyBufferLines ex_directive \<noteq> []"
proof -
  have i: "IngressProxyBuffers ex_directive = \<lparr>pb_BufferSize = 4096, pb_Number = 4, pb_BusySize = 8192\<rparr>"
    by (simp add: IngressProxyBuffers_def ex_directive_def)
  have p: "proxyBufferLines ex_directive \<noteq> []" by (simp add: proxyBufferLines_def ex_directive_def)
  show ?thesis using emitted_buffers_accepted[of ex_directive] i p by simp
qed

text \<open>a consistent set of proxy buffers within the limits the provider enforces on a manifest reaches the
  gateway unchanged: under those limits the product cannot wrap around.\<close>

theorem limited_buffers_reach_gateway:
  assumes "ex_Proxy e = Some p" and "proxy_over_limit e = None"
    and "d_ProxyBufferSize d = BufferSize p" and "d_ProxyBuffersNumber d = BuffersNumber p"
    and "d_ProxyBuffersSize d = BuffersSize p" and "d_ProxyBusyBuffersSize d = BusyBuffersSize p"
    and "BufferSize p \<noteq> 0" and "BusyBuffersSize p \<noteq> 0" and "BuffersSize p \<noteq> 0"
    and "nginx_buffers_ok (BufferSize p) (BuffersNumber p) (BuffersSize p) (BusyBuffersSize p)"
  shows "proxyBufferLines d = [''proxy_buffer_size '' @ u32toa (BufferSize p) @ '';'',
     ''proxy_buffers '' @ u32toa (BuffersNumber p) @ '' '' @ u32toa (BuffersSize p) @ '';'',
     ''proxy_busy_buffers_size '' @ u32toa (BusyBuffersSize p) @ '';'']"
proof -
  let ?n = "BuffersNumber p" and ?s = "BuffersSize p" and ?b = "BusyBuffersSize p"
  have lim: "uint ?n \<le> 16" "uint ?s \<le> 131072"
    using assms(1,2) by (auto simp: proxy_over_limit_def maxProxyBuffersNumber_def maxProxyBuffersSize_def word_less_def split: if_splits)
  have ok: "2 \<le> uint ?n" "uint (BufferSize p) \<le> uint ?b" "uint ?s \<le> uint ?b" "uint ?b \<le> (uint ?n - 1) * uint ?s"
    using assms(10) by (auto simp: nginx_buffers_ok_def)
  have u1: "uint (?n - 1) = uint ?n - 1" using uint_sub_lem[of 1 ?n] ok(1) by simp
  have "uint (?n - 1) * uint ?s \<le> 15 * 131072" using lim u1 ok(1) by (intro mult_mono) auto
  then have "uint ((?n - 1) * ?s) = (uint ?n - 1) * uint ?s" using uint_mult_lem[of "?n - 1" ?s] u1 by simp
  then have "?b \<le> (?n - 1) * ?s" using ok(4) by (simp add: word_le_def)
  moreover have "\<not> ?n < 2" "?n \<noteq> 0" "BufferSize p \<le> ?b" "?s \<le> ?b" using ok(1-3) by (auto simp: word_le_def word_less_def)
  ultimately show ?thesis using assms(3-9) by (simp add: proxyBufferLines_def Let_def not_less)
qed

theorem limited_buffers_reach_gateway_witness:
  "proxyBufferLines (ex_directive\<lparr>d_ProxyBusyBuffersSize := 16384\<rparr>) =
     [''proxy_buffer_size '' @ u32toa 4096 @ '';'', ''proxy_buffers '' @ u32toa 4 @ '' '' @ u32toa 8192 @ '';'',
      ''proxy_busy_buffers_size '' @ u32toa 16384 @ '';'']"
proof -
  let ?p = "\<lparr>BufferSize = 4096, BuffersNumber = 4, BuffersSize = 8192, BusyBuffersSize = 16384\<rparr>"
  let ?e = "\<lparr>ex_Port = 80, ex_ExternalPort = 80, ex_Proto = ''TCP'', ex_Global = True, ex_Hosts = [], ex_IP = [], ex_Proxy = Some ?p\<rparr>"
  have "proxy_over_limit ?e = None"
    by (simp add: proxy_over_limit_def maxProxyBufferSize_def maxProxyBuffersNumber_def maxProxyBuffersSize_def maxProxyBusyBuffersSize_def)
  then have "proxyBufferLines (ex_directive\<lparr>d_ProxyBusyBuffersSize := 16384\<rparr>) =
     [''proxy_buffer_size '' @ u32toa (BufferSize ?p) @ '';'',
      ''proxy_buffers '' @ u32toa (BuffersNumber ?p) @ '' '' @ u32toa (BuffersSize ?p) @ '';'',
      ''proxy_busy_buffers_size '' @ u32toa (BusyBuffersSize ?p) @ '';'']"
    by (intro limited_buffers_reach_gateway[of ?e]) (simp_all add: ex_directive_def nginx_buffers_ok_def)
  then show ?thesis by simp
qed

text \<open>on the ingress path an empty case in the list of next-upstream cases panics the operator, which indexes
  its first byte; every other list of cases is rendered. The gateway path drops such a case.\<close>

theorem empty_next_case_panics:
  "(kubeNginxIngressAnnotations d = None \<longleftrightarrow> [] \<in> set (d_NextCases d)) \<and> normalizeNextCase [] = None"
  by (simp add: kubeNginxIngressAnnotations_def next_cases_text_None normalizeNextCase_def atoi_def has_prefix_def parse_uint_def
      validProxyNextUpstreamTokens_def)

end
