(* ===== verification/KubeApi.thy ===== *)
theory KubeApi
  imports ManifestCRD NginxRoute
begin

text \<open>
  What the Kubernetes operators share: errors of the API, the labels that tie an object to its lease
  (cluster/kube/builder/builder.go, cluster/kube/clientcommon), the selector of a lease, the events of
  a watched resource, and the ingress objects. A label selector is the list of the equalities its
  text joins with commas. The API server is a parameter; \<open>ingress_api_ok\<close> states what is documented
  of the calls on ingresses: a call that returns no error had its effect, one that returns an error had none.
\<close>

section \<open>Errors\<close>

datatype kube_error = KNotFound string | KConflict string | KError string

definition contains :: "string \<Rightarrow> string \<Rightarrow> bool" where
  "contains s sub = list_ex (\<lambda>t. has_prefix t sub) (suffixes s)"

fun kube_error_text :: "kube_error \<Rightarrow> string" where
  "kube_error_text (KNotFound s) = s"
| "kube_error_text (KConflict s) = s"
| "kube_error_text (KError s) = s"

fun IsNotFound :: "kube_error \<Rightarrow> bool" where
  "IsNotFound (KNotFound _) = True"
| "IsNotFound _ = False"

section \<open>Labels\<close>

type_synonym labels = "string \<rightharpoonup> string"

definition AkashManagedLabelName :: string where "AkashManagedLabelName = ''akash.network''"
definition AkashLeaseOwnerLabelName :: string where "AkashLeaseOwnerLabelName = ''akash.network/lease.id.owner''"
definition AkashLeaseDSeqLabelName :: string where "AkashLeaseDSeqLabelName = ''akash.network/lease.id.dseq''"
definition AkashLeaseGSeqLabelName :: string where "AkashLeaseGSeqLabelName = ''akash.network/lease.id.gseq''"
definition AkashLeaseOSeqLabelName :: string where "AkashLeaseOSeqLabelName = ''akash.network/lease.id.oseq''"
definition AkashLeaseProviderLabelName :: string where "AkashLeaseProviderLabelName = ''akash.network/lease.id.provider''"

lemmas label_names = AkashManagedLabelName_def AkashLeaseOwnerLabelName_def AkashLeaseDSeqLabelName_def AkashLeaseGSeqLabelName_def
  AkashLeaseOSeqLabelName_def AkashLeaseProviderLabelName_def

definition AppendLeaseLabels :: "lease_id \<Rightarrow> labels \<Rightarrow> labels" where
  "AppendLeaseLabels lid m = m(
     AkashLeaseOwnerLabelName \<mapsto> l_owner lid,
     AkashLeaseDSeqLabelName \<mapsto> itoa (unat (l_dseq lid)),
     AkashLeaseGSeqLabelName \<mapsto> itoa (unat (l_gseq lid)),
     AkashLeaseOSeqLabelName \<mapsto> itoa (unat (l_oseq lid)),
     AkashLeaseProviderLabelName \<mapsto> l_provider lid)"

definition parse_u32 :: "string \<Rightarrow> u32 option" where
  "parse_u32 s = (case parse_uint s of None \<Rightarrow> None | Some n \<Rightarrow> if n < 2 ^ 32 then Some (of_nat n) else None)"

datatype label_error = MissingLabel string | InvalidLabelValue string string

definition RecoverLeaseIDFromLabels :: "labels \<Rightarrow> label_error + lease_id" where
  "RecoverLeaseIDFromLabels m =
     (case m AkashLeaseDSeqLabelName of None \<Rightarrow> Inl (MissingLabel AkashLeaseDSeqLabelName) | Some dseqS \<Rightarrow>
      (case m AkashLeaseGSeqLabelName of None \<Rightarrow> Inl (MissingLabel AkashLeaseGSeqLabelName) | Some gseqS \<Rightarrow>
       (case m AkashLeaseOSeqLabelName of None \<Rightarrow> Inl (MissingLabel AkashLeaseOSeqLabelName) | Some oseqS \<Rightarrow>
        (case m AkashLeaseOwnerLabelName of None \<Rightarrow> Inl (MissingLabel AkashLeaseOwnerLabelName) | Some ow \<Rightarrow>
         (case m AkashLeaseProviderLabelName of None \<Rightarrow> Inl (MissingLabel AkashLeaseProviderLabelName) | Some pr \<Rightarrow>
          (case parse_u64 dseqS of None \<Rightarrow> Inl (InvalidLabelValue ''dseq'' dseqS) | Some dseq \<Rightarrow>
           (case parse_u32 gseqS of None \<Rightarrow> Inl (InvalidLabelValue ''gseq'' gseqS) | Some gseq \<Rightarrow>
            (case parse_u32 oseqS of None \<Rightarrow> Inl (InvalidLabelValue ''oseq'' oseqS) | Some oseq \<Rightarrow>
               Inr \<lparr>l_owner = ow, l_dseq = dseq, l_gseq = gseq, l_oseq = oseq, l_provider = pr\<rparr>))))))))"

definition updateAkashLabels :: "labels \<Rightarrow> labels \<Rightarrow> labels" where
  "updateAkashLabels currLabels newLabels = (\<lambda>k. case newLabels k of Some v \<Rightarrow> Some v | None \<Rightarrow> if has_prefix k AkashManagedLabelName then None else currLabels k)"

type_synonym selector = "(string \<times> string) list"

definition kubeSelectorForLease :: "lease_id \<Rightarrow> selector" where
  "kubeSelectorForLease lid =
     [(AkashLeaseOwnerLabelName, l_owner lid), (AkashLeaseDSeqLabelName, itoa (unat (l_dseq lid))),
      (AkashLeaseGSeqLabelName, itoa (unat (l_gseq lid))), (AkashLeaseOSeqLabelName, itoa (unat (l_oseq lid)))]"

definition selects :: "selector \<Rightarrow> labels \<Rightarrow> bool" where
  "selects sel m = list_all (\<lambda>(k, v). m k = Some v) sel"

definition managed_labels :: "lease_id \<Rightarrow> labels" where
  "managed_labels lid = AppendLeaseLabels lid [AkashManagedLabelName \<mapsto> ''true'']"

lemma parse_u32_itoa [simp]: "parse_u32 (itoa (unat (w :: u32))) = Some w"
  using unsigned_less[where 'a = nat, of w] by (simp add: parse_u32_def)

lemma recover_append [simp]: "RecoverLeaseIDFromLabels (AppendLeaseLabels lid m) = Inr lid"
  by (simp add: RecoverLeaseIDFromLabels_def AppendLeaseLabels_def label_names)

lemma selects_append [simp]: "selects (kubeSelectorForLease lid) (AppendLeaseLabels lid m)"
  by (simp add: selects_def kubeSelectorForLease_def AppendLeaseLabels_def label_names)

lemma itoa_inj [simp]: "itoa a = itoa b \<longleftrightarrow> a = b"
  by (metis itoa_digits)

text \<open>The selector of a lease leaves the provider out; the other four fields are compared.\<close>

lemma selects_other: "selects (kubeSelectorForLease a) (AppendLeaseLabels b m) \<longleftrightarrow> lease_order_id a = lease_order_id b"
  by (auto simp: selects_def kubeSelectorForLease_def AppendLeaseLabels_def label_names lease_order_id_def word_unat_eq_iff)

text \<open>The labels the provider writes: managed, with a lease that selects them again.\<close>

definition lease_labelled :: "labels \<Rightarrow> bool" where
  "lease_labelled m \<longleftrightarrow> m AkashManagedLabelName = Some ''true'' \<and>
     (case RecoverLeaseIDFromLabels m of Inl _ \<Rightarrow> False | Inr lid \<Rightarrow> selects (kubeSelectorForLease lid) m)"

lemma managed_label [simp]: "managed_labels lid AkashManagedLabelName = Some ''true''"
  by (simp add: managed_labels_def AppendLeaseLabels_def label_names)

lemma lease_labelled_managed [simp]: "lease_labelled (managed_labels lid)"
  using managed_label by (simp add: lease_labelled_def managed_labels_def del: managed_label)

section \<open>Watched resources\<close>

datatype resource_event = ProviderResourceAdd | ProviderResourceUpdate | ProviderResourceDelete | ProviderResourceOther

datatype watch_type = WatchAdded | WatchModified | WatchDeleted | WatchBookmark | WatchError

fun event_of_watch :: "watch_type \<Rightarrow> resource_event option" where
  "event_of_watch WatchAdded = Some ProviderResourceAdd"
| "event_of_watch WatchModified = Some ProviderResourceUpdate"
| "event_of_watch WatchDeleted = Some ProviderResourceDelete"
| "event_of_watch _ = None"

section \<open>Ingresses\<close>

record ingress_path =
  ip_path :: string
  ip_service :: string
  ip_port :: u32

record ingress_rule =
  ir_host :: string
  ir_paths :: "ingress_path list"

record ingress =
  ing_name :: string
  ing_labels :: labels
  ing_annotations :: "string \<rightharpoonup> string"
  ing_class :: string
  ing_rules :: "ingress_rule list"
  ing_version :: string

record 'c ingress_api =
  ia_get :: "string \<Rightarrow> string \<Rightarrow> 'c \<Rightarrow> kube_error + ingress"
  ia_update :: "string \<Rightarrow> ingress \<Rightarrow> 'c \<Rightarrow> kube_error option \<times> 'c"
  ia_create :: "string \<Rightarrow> ingress \<Rightarrow> 'c \<Rightarrow> kube_error option \<times> 'c"
  ia_delete :: "string \<Rightarrow> selector \<Rightarrow> string \<Rightarrow> 'c \<Rightarrow> kube_error option \<times> 'c"
  ia_list :: "'c \<Rightarrow> kube_error + ingress list"

text \<open>The documented behaviour: \<open>store\<close> reads the ingresses of the cluster by namespace and name.\<close>

definition stored :: "string \<Rightarrow> ingress \<Rightarrow> (string \<times> string \<rightharpoonup> ingress) \<Rightarrow> (string \<times> string \<rightharpoonup> ingress) \<Rightarrow> bool" where
  "stored ns i s s' \<longleftrightarrow> (\<exists>v. s' = s((ns, ing_name i) \<mapsto> i\<lparr>ing_version := v\<rparr>))"

definition writes_ok :: "(string \<Rightarrow> ingress \<Rightarrow> 'c \<Rightarrow> kube_error option \<times> 'c) \<Rightarrow> ('c \<Rightarrow> string \<times> string \<rightharpoonup> ingress) \<Rightarrow> bool" where
  "writes_ok W store \<longleftrightarrow> (\<forall>ns i c. case W ns i c of
     (None, c') \<Rightarrow> stored ns i (store c) (store c') | (Some _, c') \<Rightarrow> store c' = store c)"

definition deletes_ok ::
  "(string \<Rightarrow> selector \<Rightarrow> string \<Rightarrow> 'c \<Rightarrow> kube_error option \<times> 'c) \<Rightarrow> ('c \<Rightarrow> string \<times> string \<rightharpoonup> ingress) \<Rightarrow> bool" where
  "deletes_ok D store \<longleftrightarrow> (\<forall>ns sel n c. case D ns sel n c of
     (None, c') \<Rightarrow> store c' = (\<lambda>k. case store c k of None \<Rightarrow> None
        | Some i \<Rightarrow> if k = (ns, n) \<and> selects sel (ing_labels i) then None else Some i)
   | (Some e, c') \<Rightarrow> store c' = store c \<and> (IsNotFound e \<longrightarrow> store c (ns, n) = None))"

definition lists_ok :: "('c \<Rightarrow> kube_error + ingress list) \<Rightarrow> ('c \<Rightarrow> string \<times> string \<rightharpoonup> ingress) \<Rightarrow> bool" where
  "lists_ok L store \<longleftrightarrow> (\<forall>c is. L c = Inr is \<longrightarrow> set is = {i \<in> ran (store c). ing_labels i AkashManagedLabelName = Some ''true''})"

definition ingress_api_ok :: "'c ingress_api \<Rightarrow> ('c \<Rightarrow> string \<times> string \<rightharpoonup> ingress) \<Rightarrow> bool" where
  "ingress_api_ok A store \<longleftrightarrow> writes_ok (ia_update A) store \<and> writes_ok (ia_create A) store \<and> deletes_ok (ia_delete A) store \<and> lists_ok (ia_list A) store"

lemma writes_okD:
  assumes "writes_ok W store"
  shows "W ns i c = (None, c') \<Longrightarrow> stored ns i (store c) (store c')" "W ns i c = (Some e, c') \<Longrightarrow> store c' = store c"
  using assms[unfolded writes_ok_def, THEN spec[of _ ns], THEN spec[of _ i], THEN spec[of _ c]] by auto

lemma deletes_okD:
  assumes "deletes_ok D store"
  shows "D ns sel n c = (None, c') \<Longrightarrow> store c' k = (case store c k of None \<Rightarrow> None
        | Some i \<Rightarrow> if k = (ns, n) \<and> selects sel (ing_labels i) then None else Some i)"
    "D ns sel n c = (Some e, c') \<Longrightarrow> store c' = store c" "D ns sel n c = (Some e, c') \<Longrightarrow> IsNotFound e \<Longrightarrow> store c (ns, n) = None"
  using assms[unfolded deletes_ok_def, THEN spec[of _ ns], THEN spec[of _ sel], THEN spec[of _ n], THEN spec[of _ c]] by (cases k; auto)+

end
