(* ===== verification/OperatorCommon.thy ===== *)
theory OperatorCommon
  imports Market
begin

text \<open>
  The support library of the Kubernetes operators (operator/common): the list of leases whose
  events are ignored after repeated failures (ignore_list.go), and the web results that are
  prepared ahead of the requests for them (prepared_data.go, operator_server.go). Go walks a map
  in an unspecified order, so the operations that walk one take the order as an argument; the
  times the code reads from the clock are arguments as well. A prepare function is the effect it
  has on the prepared result it is handed, with the error it returns.
\<close>

section \<open>The ignore list\<close>

record ignoreListEntry =
  failureCount :: u64
  failedAt :: int
  lastError :: string
  extra :: "string set"

record ignoreListConfig =
  FailureLimit :: u64
  EntryLimit :: u64
  AgeLimit :: int

record ignoreList =
  il_entries :: "lease_id \<rightharpoonup> ignoreListEntry"
  il_cfg :: ignoreListConfig

definition NewIgnoreList :: "ignoreListConfig \<Rightarrow> ignoreList" where
  "NewIgnoreList c = \<lparr>il_entries = Map.empty, il_cfg = c\<rparr>"

definition Size :: "ignoreList \<Rightarrow> nat" where
  "Size il = card (dom (il_entries il))"

text \<open>The zero value a Go map yields for a key that is not in it.\<close>

definition zero_entry :: ignoreListEntry where
  "zero_entry = \<lparr>failureCount = 0, failedAt = 0, lastError = [], extra = {}\<rparr>"

definition AddError :: "int \<Rightarrow> lease_id \<Rightarrow> string \<Rightarrow> string list \<Rightarrow> ignoreList \<Rightarrow> ignoreList" where
  "AddError now k failure ex il =
     (let entry = (case il_entries il k of None \<Rightarrow> zero_entry | Some e \<Rightarrow> e);
          entry = entry\<lparr>failureCount := failureCount entry + 1, failedAt := now, lastError := failure,
                    extra := extra entry \<union> set ex\<rparr>
      in il\<lparr>il_entries := (il_entries il)(k \<mapsto> entry)\<rparr>)"

definition IsFlagged :: "ignoreList \<Rightarrow> lease_id \<Rightarrow> bool" where
  "IsFlagged il k = (case il_entries il k of None \<Rightarrow> False | Some e \<Rightarrow> FailureLimit (il_cfg il) \<le> failureCount e)"

definition delete_all :: "lease_id list \<Rightarrow> ignoreList \<Rightarrow> ignoreList" where
  "delete_all ks il = il\<lparr>il_entries := foldl (\<lambda>m k. m(k := None)) (il_entries il) ks\<rparr>"

text \<open>The first walk collects the entries that are too old; \<open>now k\<close> is the time at which \<open>k\<close> is looked at.\<close>

definition aged_entries :: "(lease_id \<Rightarrow> int) \<Rightarrow> lease_id list \<Rightarrow> ignoreList \<Rightarrow> lease_id list" where
  "aged_entries now order il =
     filter (\<lambda>k. case il_entries il k of None \<Rightarrow> False | Some e \<Rightarrow> AgeLimit (il_cfg il) < now k - failedAt e) order"

text \<open>The second walk collects entries until what is left is within the limit; \<open>n\<close> counts what is left.\<close>

fun excess_entries :: "int \<Rightarrow> int \<Rightarrow> lease_id list \<Rightarrow> lease_id list" where
  "excess_entries limit n [] = []"
| "excess_entries limit n (k # ks) = (if n \<le> limit then [] else k # excess_entries limit (n - 1) ks)"

definition Prune :: "(lease_id \<Rightarrow> int) \<Rightarrow> lease_id list \<Rightarrow> lease_id list \<Rightarrow> ignoreList \<Rightarrow> bool \<times> ignoreList" where
  "Prune now order1 order2 il =
     (let limit = sint (EntryLimit (il_cfg il)) in
      if int (Size il) > limit then
        let old = aged_entries now order1 il;
            il1 = delete_all old il;
            rest = excess_entries limit (int (Size il1)) order2
        in (old \<noteq> [] \<or> rest \<noteq> [], delete_all rest il1)
      else (False, il))"

text \<open>The orders in which Prune walks the entries: each present key once, before and after the first deletions.\<close>

definition prune_orders :: "(lease_id \<Rightarrow> int) \<Rightarrow> lease_id list \<Rightarrow> lease_id list \<Rightarrow> ignoreList \<Rightarrow> bool" where
  "prune_orders now order1 order2 il \<longleftrightarrow> distinct order1 \<and> set order1 = dom (il_entries il) \<and>
     distinct order2 \<and> set order2 = dom (il_entries (delete_all (aged_entries now order1 il) il))"

text \<open>A history of the list: failures recorded and prunings.\<close>

datatype ignore_op =
    IgAdd int lease_id string "string list"
  | IgPrune "lease_id \<Rightarrow> int" "lease_id list" "lease_id list"

fun ignore_step :: "ignoreList \<Rightarrow> ignore_op \<Rightarrow> ignoreList" where
  "ignore_step il (IgAdd now k f ex) = AddError now k f ex il"
| "ignore_step il (IgPrune now o1 o2) = snd (Prune now o1 o2 il)"

definition ignore_run :: "ignoreListConfig \<Rightarrow> ignore_op list \<Rightarrow> ignoreList" where
  "ignore_run c ops = foldl ignore_step (NewIgnoreList c) ops"

fun adds_for :: "lease_id \<Rightarrow> ignore_op \<Rightarrow> nat" where
  "adds_for k (IgAdd _ k' _ _) = (if k' = k then 1 else 0)"
| "adds_for k (IgPrune _ _ _) = 0"

section \<open>Prepared results\<close>

definition preparedResultByteSizeLimit :: nat where
  "preparedResultByteSizeLimit = 8388608"

record preparedResult =
  needsPrepare :: bool
  preparedAt :: int
  pr_data :: bytes

definition pr_Flag :: "preparedResult \<Rightarrow> preparedResult" where
  "pr_Flag pr = pr\<lparr>needsPrepare := True\<rparr>"

definition pr_Set :: "int \<Rightarrow> bytes \<Rightarrow> preparedResult \<Rightarrow> preparedResult" where
  "pr_Set now d pr =
     (let d = (if length d > preparedResultByteSizeLimit then take preparedResultByteSizeLimit d else d)
      in pr\<lparr>needsPrepare := False, preparedAt := now, pr_data := d\<rparr>)"

definition newPreparedResult :: "int \<Rightarrow> preparedResult" where
  "newPreparedResult now = pr_Set now [] \<lparr>needsPrepare = True, preparedAt = 0, pr_data = []\<rparr>"

datatype served = NoContent | ServedOK int bytes

definition servePreparedResult :: "preparedResult \<Rightarrow> served" where
  "servePreparedResult pr = (if length (pr_data pr) = 0 then NoContent else ServedOK (preparedAt pr) (pr_data pr))"

text \<open>A prepare function as its effect on the result it is handed and the error it returns.\<close>

type_synonym 'e prepareFn = "preparedResult \<Rightarrow> 'e option \<times> preparedResult"

record 'e preparedEntry =
  pe_data :: preparedResult
  pe_prepare :: "'e prepareFn"

type_synonym 'e operatorHTTP = "string \<rightharpoonup> 'e preparedEntry"

datatype endpoint_panic = NilPrepare | PathExists string

definition AddPreparedEndpoint ::
  "int \<Rightarrow> string \<Rightarrow> 'e prepareFn option \<Rightarrow> 'e operatorHTTP \<Rightarrow> endpoint_panic + 'e operatorHTTP" where
  "AddPreparedEndpoint now path prep h =
     (case prep of
        None \<Rightarrow> Inl NilPrepare
      | Some f \<Rightarrow> (case h path of
            Some _ \<Rightarrow> Inl (PathExists path)
          | None \<Rightarrow> Inr (h(path \<mapsto> \<lparr>pe_data = newPreparedResult now, pe_prepare = f\<rparr>))))"

text \<open>The flag function AddPreparedEndpoint returns for a path.\<close>

definition flag_endpoint :: "string \<Rightarrow> 'e operatorHTTP \<Rightarrow> 'e operatorHTTP" where
  "flag_endpoint path h = (case h path of None \<Rightarrow> h | Some e \<Rightarrow> h(path \<mapsto> e\<lparr>pe_data := pr_Flag (pe_data e)\<rparr>))"

text \<open>PrepareAll walks the results in the order \<open>ps\<close> and stops at the first error.\<close>

fun PrepareAll :: "string list \<Rightarrow> 'e operatorHTTP \<Rightarrow> 'e option \<times> 'e operatorHTTP" where
  "PrepareAll [] h = (None, h)"
| "PrepareAll (p # ps) h =
     (case h p of
        None \<Rightarrow> PrepareAll ps h
      | Some e \<Rightarrow>
          (if \<not> needsPrepare (pe_data e) then PrepareAll ps h
           else (case pe_prepare e (pe_data e) of (err, d) \<Rightarrow>
             let h' = h(p \<mapsto> e\<lparr>pe_data := d\<rparr>) in
             (case err of Some x \<Rightarrow> (Some x, h') | None \<Rightarrow> PrepareAll ps h'))))"

definition serve_endpoint :: "string \<Rightarrow> 'e operatorHTTP \<Rightarrow> served option" where
  "serve_endpoint path h = map_option (\<lambda>e. servePreparedResult (pe_data e)) (h path)"

text \<open>The prepare functions of the operators compute their bytes and call \<open>Set\<close>, or fail before they do.\<close>

definition prepare_with :: "int \<Rightarrow> ('e + bytes) \<Rightarrow> 'e prepareFn" where
  "prepare_with now r pd = (case r of Inl e \<Rightarrow> (Some e, pd) | Inr b \<Rightarrow> (None, pr_Set now b pd))"

section \<open>Lemmas\<close>

lemma foldl_delete: "foldl (\<lambda>m k. m(k := None)) m ks = m |` (- set ks)"
  by (induction ks arbitrary: m) (auto simp: restrict_map_def fun_eq_iff)

lemma delete_all_entries [simp]: "il_entries (delete_all ks il) = il_entries il |` (- set ks)"
  by (simp add: delete_all_def foldl_delete)

lemma delete_all_cfg [simp]: "il_cfg (delete_all ks il) = il_cfg il"
  by (simp add: delete_all_def)

lemma excess_entries_take: "excess_entries limit n ks = take (nat (n - limit)) ks"
proof (induction ks arbitrary: n)
  case (Cons k ks)
  have "nat (n - limit) = Suc (nat (n - 1 - limit))" if "limit < n" using that by simp
  then show ?case using Cons by simp
qed simp

lemma Size_delete_all:
  assumes "set ks \<subseteq> dom (il_entries il)" and "distinct ks" and "finite (dom (il_entries il))"
  shows "Size (delete_all ks il) = Size il - length ks"
proof -
  have "dom (il_entries (delete_all ks il)) = dom (il_entries il) - set ks" by auto
  then show ?thesis using assms by (simp add: Size_def card_Diff_subset distinct_card)
qed

lemma AddError_entries:
  "il_entries (AddError now k f ex il) k' = (if k' = k then Some (
     let e = (case il_entries il k of None \<Rightarrow> zero_entry | Some e \<Rightarrow> e)
     in e\<lparr>failureCount := failureCount e + 1, failedAt := now, lastError := f, extra := extra e \<union> set ex\<rparr>)
   else il_entries il k')"
  by (simp add: AddError_def Let_def)

lemma AddError_cfg [simp]: "il_cfg (AddError now k f ex il) = il_cfg il"
  by (simp add: AddError_def Let_def)

lemma Prune_cfg [simp]: "il_cfg (snd (Prune now o1 o2 il)) = il_cfg il"
  by (simp add: Prune_def Let_def)

lemma Prune_entry: "il_entries (snd (Prune now o1 o2 il)) k = il_entries il k \<or> il_entries (snd (Prune now o1 o2 il)) k = None"
  by (auto simp: Prune_def Let_def restrict_map_def)

lemma ignore_run_cfg [simp]: "il_cfg (ignore_run c ops) = c"
proof -
  have "il_cfg (foldl ignore_step il ops) = il_cfg il" for il
  proof (induction ops arbitrary: il)
    case (Cons x ops)
    then show ?case by (cases x) simp_all
  qed simp
  then show ?thesis by (simp add: ignore_run_def NewIgnoreList_def)
qed

text \<open>The counter of a lease never exceeds the failures recorded for it.\<close>

lemma failureCount_le:
  "il_entries (ignore_run c ops) k = Some e \<Longrightarrow> unat (failureCount e) \<le> sum_list (map (adds_for k) ops)"
proof (induction ops arbitrary: e rule: rev_induct)
  case Nil
  then show ?case by (simp add: ignore_run_def NewIgnoreList_def)
next
  case (snoc x ops)
  have run: "ignore_run c (ops @ [x]) = ignore_step (ignore_run c ops) x" by (simp add: ignore_run_def)
  have inc: "unat (w + 1) \<le> Suc (unat w)" for w :: u64
    by (simp add: unat_word_ariths(1))
  show ?case
  proof (cases x)
    case (IgAdd now k' f ex)
    show ?thesis
    proof (cases "k' = k")
      case True
      let ?o = "case il_entries (ignore_run c ops) k of None \<Rightarrow> zero_entry | Some e \<Rightarrow> e"
      have "failureCount e = failureCount ?o + 1"
        using snoc.prems run IgAdd True by (auto simp: AddError_entries Let_def)
      moreover have "unat (failureCount ?o) \<le> sum_list (map (adds_for k) ops)"
        using snoc.IH by (auto simp: zero_entry_def split: option.split)
      ultimately show ?thesis using inc[of "failureCount ?o"] IgAdd True by simp
    qed (use snoc run IgAdd in \<open>simp add: AddError_entries\<close>)
  next
    case (IgPrune now o1 o2)
    then show ?thesis using snoc run Prune_entry[of now o1 o2 "ignore_run c ops" k] by auto
  qed
qed

lemma prepare_with_ok: "fst (prepare_with now r pd) = None \<Longrightarrow> \<not> needsPrepare (snd (prepare_with now r pd))"
  by (auto simp: prepare_with_def pr_Set_def Let_def split: sum.splits)

lemma pr_Set_bound: "length (pr_data (pr_Set now d pr)) \<le> preparedResultByteSizeLimit"
  by (simp add: pr_Set_def Let_def)

text \<open>Without prunings the counter is the number of failures recorded, at the width of the counter.\<close>

lemma failureCount_exact:
  assumes "\<forall>op \<in> set ops. case op of IgAdd _ _ _ _ \<Rightarrow> True | IgPrune _ _ _ \<Rightarrow> False"
  shows "(il_entries (ignore_run c ops) k = None \<longleftrightarrow> sum_list (map (adds_for k) ops) = 0) \<and>
    (\<forall>e. il_entries (ignore_run c ops) k = Some e \<longrightarrow> failureCount e = of_nat (sum_list (map (adds_for k) ops)))"
  using assms
proof (induction ops rule: rev_induct)
  case Nil
  show ?case by (simp add: ignore_run_def NewIgnoreList_def)
next
  case (snoc x ops)
  then obtain now k' f ex where x: "x = IgAdd now k' f ex" by (cases x) auto
  have "ignore_run c (ops @ [x]) = AddError now k' f ex (ignore_run c ops)" by (simp add: ignore_run_def x)
  then show ?case using snoc x
    by (cases "il_entries (ignore_run c ops) k") (auto simp: AddError_entries zero_entry_def Let_def simp del: sum_list_eq_0_iff)
qed

lemma PrepareAll_other: "p \<notin> set ps \<Longrightarrow> snd (PrepareAll ps h) p = h p"
  by (induction ps arbitrary: h) (auto simp: Let_def split: option.split prod.split)

section \<open>Properties\<close>

text \<open>the ignore list is bounded. When it holds more entries than the limit, pruning removes every entry that is
  too old and then as many others as the limit asks for, and no more: what is left is the smaller of
  the limit and the number of recent entries. Below the limit nothing is removed.\<close>

theorem ignore_list_bounded:
  assumes "prune_orders now order1 order2 il" and "finite (dom (il_entries il))" and "0 \<le> sint (EntryLimit (il_cfg il))"
  shows "Size (snd (Prune now order1 order2 il)) =
     (if Size il \<le> nat (sint (EntryLimit (il_cfg il))) then Size il
      else min (nat (sint (EntryLimit (il_cfg il)))) (Size il - length (aged_entries now order1 il))) \<and>
    (fst (Prune now order1 order2 il) \<longleftrightarrow> Size (snd (Prune now order1 order2 il)) < Size il)"
proof -
  let ?lim = "sint (EntryLimit (il_cfg il))" and ?old = "aged_entries now order1 il"
  let ?il1 = "delete_all ?old il"
  let ?rest = "excess_entries ?lim (int (Size ?il1)) order2"
  have o: "distinct order1" "set order1 = dom (il_entries il)" "distinct order2" "set order2 = dom (il_entries ?il1)"
    using assms(1) by (simp_all add: prune_orders_def)
  have old: "set ?old \<subseteq> dom (il_entries il)" "distinct ?old" using o by (auto simp: aged_entries_def)
  have s1: "Size ?il1 = Size il - length ?old" using Size_delete_all[OF old assms(2)] .
  have le: "length ?old \<le> Size il"
    using old assms(2) by (metis Size_def card_mono distinct_card)
  have rest: "set ?rest \<subseteq> dom (il_entries ?il1)" "distinct ?rest"
    using o(3,4) set_take_subset[of _ order2] by (auto simp: excess_entries_take)
  have fin: "finite (dom (il_entries ?il1))" using assms(2) by simp
  have len: "length order2 = Size ?il1" using distinct_card[OF o(3)] o(4) by (simp add: Size_def)
  have s2: "Size (delete_all ?rest ?il1) = min (nat ?lim) (Size ?il1)"
    using Size_delete_all[OF rest fin] len assms(3) by (auto simp: excess_entries_take min_def)
  show ?thesis
  proof (cases "int (Size il) > ?lim")
    case True
    have "?old \<noteq> [] \<or> ?rest \<noteq> [] \<longleftrightarrow> min (nat ?lim) (Size ?il1) < Size il"
      using True le len s1 assms(3) by (cases "?old = []") (auto simp: excess_entries_take)
    moreover have "Prune now order1 order2 il = (?old \<noteq> [] \<or> ?rest \<noteq> [], delete_all ?rest ?il1)"
      using True by (simp add: Prune_def Let_def)
    moreover have "\<not> Size il \<le> nat ?lim" using True assms(3) by linarith
    ultimately show ?thesis by (simp only: fst_conv snd_conv s2 if_False) (simp add: s1)
  qed (use assms(3) in \<open>auto simp: Prune_def\<close>)
qed

definition ex_limit :: ignoreListConfig where
  "ex_limit = \<lparr>FailureLimit = 2, EntryLimit = 1, AgeLimit = 10\<rparr>"

definition ex_lid :: "string \<Rightarrow> lease_id" where
  "ex_lid s = \<lparr>l_owner = s, l_dseq = 1, l_gseq = 1, l_oseq = 1, l_provider = ''p''\<rparr>"

theorem ignore_list_bounded_witness:
  "Size (snd (Prune (\<lambda>_. 5) [ex_lid ''a'', ex_lid ''b''] [ex_lid ''b'', ex_lid ''a'']
     (ignore_run ex_limit [IgAdd 1 (ex_lid ''a'') ''x'' [], IgAdd 2 (ex_lid ''b'') ''x'' []]))) = 1"
proof -
  let ?il = "ignore_run ex_limit [IgAdd 1 (ex_lid ''a'') ''x'' [], IgAdd 2 (ex_lid ''b'') ''x'' []]"
  have e: "il_entries ?il = [ex_lid ''a'' \<mapsto> \<lparr>failureCount = 1, failedAt = 1, lastError = ''x'', extra = {}\<rparr>,
      ex_lid ''b'' \<mapsto> \<lparr>failureCount = 1, failedAt = 2, lastError = ''x'', extra = {}\<rparr>]"
    by (simp add: ignore_run_def NewIgnoreList_def AddError_def zero_entry_def ex_lid_def Let_def)
  have d: "dom (il_entries ?il) = {ex_lid ''a'', ex_lid ''b''}" "ex_lid ''a'' \<noteq> ex_lid ''b''"
    unfolding e by (auto, simp add: ex_lid_def)
  have c: "il_cfg ?il = ex_limit" by simp
  have aged: "aged_entries (\<lambda>_. 5) [ex_lid ''a'', ex_lid ''b''] ?il = []"
    unfolding aged_entries_def c e using d(2) by (simp add: ex_limit_def)
  have s: "Size ?il = 2" using d by (simp add: Size_def)
  have "prune_orders (\<lambda>_. 5) [ex_lid ''a'', ex_lid ''b''] [ex_lid ''b'', ex_lid ''a''] ?il"
    unfolding prune_orders_def using d aged by auto
  then show ?thesis using ignore_list_bounded[of "\<lambda>_. 5" _ _ ?il] d(1) s aged by (simp add: ex_limit_def)
qed

text \<open>a lease is ignored only after it has failed often enough: whatever is pruned between, the events of a
  lease are ignored only when at least the configured number of failures was recorded for it, and
  as long as nothing is pruned they are ignored exactly from that failure on.\<close>

theorem ignored_after_failures:
  "(IsFlagged (ignore_run c ops) k \<longrightarrow> unat (FailureLimit c) \<le> sum_list (map (adds_for k) ops)) \<and>
   ((\<forall>op \<in> set ops. case op of IgAdd _ _ _ _ \<Rightarrow> True | IgPrune _ _ _ \<Rightarrow> False) \<and>
      0 < sum_list (map (adds_for k) ops) \<and> sum_list (map (adds_for k) ops) < 2 ^ 64 \<longrightarrow>
      (IsFlagged (ignore_run c ops) k \<longleftrightarrow> unat (FailureLimit c) \<le> sum_list (map (adds_for k) ops)))"
proof -
  have a: "unat (FailureLimit c) \<le> sum_list (map (adds_for k) ops)" if "IsFlagged (ignore_run c ops) k"
    using that failureCount_le[of c ops k] by (auto simp: IsFlagged_def word_le_nat_alt split: option.splits)
  have b: "IsFlagged (ignore_run c ops) k"
    if p: "\<forall>op \<in> set ops. case op of IgAdd _ _ _ _ \<Rightarrow> True | IgPrune _ _ _ \<Rightarrow> False"
      and n: "0 < sum_list (map (adds_for k) ops)" "sum_list (map (adds_for k) ops) < 2 ^ 64"
      and l: "unat (FailureLimit c) \<le> sum_list (map (adds_for k) ops)"
  proof -
    have "unat (of_nat (sum_list (map (adds_for k) ops)) :: u64) = sum_list (map (adds_for k) ops)"
      using n(2) by (simp add: unat_of_nat)
    then show ?thesis using failureCount_exact[OF p, of c k] n(1) l
      by (auto simp: IsFlagged_def word_le_nat_alt simp del: sum_list_eq_0_iff split: option.split)
  qed
  show ?thesis using a b by blast
qed

theorem ignored_after_failures_witness:
  "IsFlagged (ignore_run ex_limit [IgAdd 1 (ex_lid ''a'') ''not found'' [], IgAdd 2 (ex_lid ''a'') ''not found'' []]) (ex_lid ''a'')"
  using ignored_after_failures[of ex_limit "[IgAdd 1 (ex_lid ''a'') ''not found'' [], IgAdd 2 (ex_lid ''a'') ''not found'' []]" "ex_lid ''a''"]
  by (simp add: ex_limit_def)

text \<open>preparing the web results brings every flagged one up to date. If PrepareAll returns no error, a flagged
  endpoint then serves what its prepare function computed, cut to the size limit, an endpoint that
  was not flagged keeps its result, and none is left flagged.\<close>

theorem prepared_results_fresh:
  assumes "distinct ps" and "set ps = dom h"
    and "\<forall>p e. h p = Some e \<longrightarrow> pe_prepare e = prepare_with now (r p)"
    and "PrepareAll ps h = (None, h')"
    and "h p = Some e"
  shows "\<exists>e'. h' p = Some e' \<and> \<not> needsPrepare (pe_data e') \<and> pe_data e' =
     (if needsPrepare (pe_data e) then pr_Set now (projr (r p)) (pe_data e) else pe_data e) \<and>
     (needsPrepare (pe_data e) \<longrightarrow> is_ok (r p))"
proof -
  have "\<exists>e'. snd (PrepareAll ps h) p = Some e' \<and> \<not> needsPrepare (pe_data e') \<and> pe_data e' =
     (if needsPrepare (pe_data e) then pr_Set now (projr (r p)) (pe_data e) else pe_data e) \<and>
     (needsPrepare (pe_data e) \<longrightarrow> is_ok (r p))"
    if "p \<in> set ps" "fst (PrepareAll ps h) = None" "distinct ps" "h p = Some e" "pe_prepare e = prepare_with now (r p)" for ps
    using that
  proof (induction ps arbitrary: h)
    case (Cons q ps)
    show ?case
    proof (cases "q = p")
      case True
      then have n: "p \<notin> set ps" using Cons by simp
      show ?thesis
        using Cons.prems True
        by (auto simp: PrepareAll_other[OF n] prepare_with_def pr_Set_def Let_def split: option.splits if_splits sum.splits)
    next
      case False
      then show ?thesis using Cons
        by (auto simp: Let_def split: option.splits if_splits prod.splits)
    qed
  qed simp
  moreover have "p \<in> set ps" using assms(2,5) by blast
  ultimately show ?thesis using assms by (metis fst_conv snd_conv)
qed

theorem prepared_results_fresh_witness:
  "\<exists>e'. snd (PrepareAll [''/x''] [''/x'' \<mapsto> \<lparr>pe_data = pr_Flag (newPreparedResult 1), pe_prepare = prepare_with 2 (Inr ''{}'' :: unit + bytes)\<rparr>]) ''/x'' = Some e' \<and>
     servePreparedResult (pe_data e') = ServedOK 2 ''{}''"
proof -
  let ?e = "\<lparr>pe_data = pr_Flag (newPreparedResult 1), pe_prepare = prepare_with 2 (Inr ''{}'' :: unit + bytes)\<rparr>"
  let ?h = "[''/x'' \<mapsto> ?e]"
  have p: "PrepareAll [''/x''] ?h = (None, snd (PrepareAll [''/x''] ?h))"
    by (simp add: prepare_with_def pr_Flag_def newPreparedResult_def pr_Set_def)
  have f: "\<forall>p e. ?h p = Some e \<longrightarrow> pe_prepare e = prepare_with 2 (Inr ''{}'')" by (auto split: if_splits)
  have "\<exists>e'. snd (PrepareAll [''/x''] ?h) ''/x'' = Some e' \<and> pe_data e' = pr_Set 2 ''{}'' (pe_data ?e)"
    using prepared_results_fresh[OF _ _ f p, of "''/x''" ?e]
    by (auto simp: pr_Flag_def simp del: PrepareAll.simps)
  then obtain e' where "snd (PrepareAll [''/x''] ?h) ''/x'' = Some e'" "pe_data e' = pr_Set 2 ''{}'' (pe_data ?e)" by blast
  then show ?thesis by (intro exI[of _ e']) (auto simp del: PrepareAll.simps simp: servePreparedResult_def pr_Set_def preparedResultByteSizeLimit_def)
qed

end
