(* ===== verification/HostnameOperator.thy ===== *)
theory HostnameOperator
  imports KubeApi OperatorCommon
begin

text \<open>
  The hostname operator (operator/hostname/operator.go): it watches the declared hostnames (the
  \<open>ProviderHost\<close> resources) and keeps for each of them one route to the service of the lease it
  belongs to. Its state is the table of managed hostnames and the ignore list; the cluster is an
  argument that the calls pass on. The two ways to make a route, ingresses and gateway routes, are a
  \<open>backend\<close>; the ingress backend is here, the gateway backend in GatewayRoutes. A panic of the
  process is the error \<open>OpPanic\<close>.
\<close>

section \<open>Events\<close>

record host_event =
  he_type :: resource_event
  he_hostname :: string
  he_lid :: lease_id
  he_serviceName :: string
  he_externalPort :: u32

record provider_host =
  ph_Owner :: string
  ph_Provider :: string
  ph_Hostname :: string
  ph_Dseq :: u64
  ph_Gseq :: u32
  ph_Oseq :: u32
  ph_ServiceName :: string
  ph_ExternalPort :: u32

definition ProviderHostSpec_LeaseID :: "(string \<Rightarrow> string option) \<Rightarrow> provider_host \<Rightarrow> lease_id option" where
  "ProviderHostSpec_LeaseID addr s =
     (case addr (ph_Owner s) of None \<Rightarrow> None | Some ow \<Rightarrow>
      (case addr (ph_Provider s) of None \<Rightarrow> None | Some pr \<Rightarrow>
         Some \<lparr>l_owner = ow, l_dseq = ph_Dseq s, l_gseq = ph_Gseq s, l_oseq = ph_Oseq s, l_provider = pr\<rparr>))"

definition host_event_of :: "resource_event \<Rightarrow> lease_id \<Rightarrow> provider_host \<Rightarrow> host_event" where
  "host_event_of t lid s = \<lparr>he_type = t, he_hostname = ph_Hostname s, he_lid = lid, he_serviceName = ph_ServiceName s,
     he_externalPort = ph_ExternalPort s\<rparr>"

text \<open>The events sent for the resources listed at the start, and for the results of the watch until it ends or
  reports an error. A result is a type with an object, \<open>None\<close> for an object of another type.\<close>

definition observe_initial :: "(string \<Rightarrow> string option) \<Rightarrow> provider_host list \<Rightarrow> host_event list" where
  "observe_initial addr data = List.map_filter (\<lambda>s. map_option (\<lambda>lid. host_event_of ProviderResourceAdd lid s) (ProviderHostSpec_LeaseID addr s)) data"

fun observe_watch :: "(string \<Rightarrow> string option) \<Rightarrow> (watch_type \<times> provider_host option) list \<Rightarrow> host_event list" where
  "observe_watch addr [] = []"
| "observe_watch addr ((t, obj) # rs) =
     (if t = WatchError then []
      else (case obj of None \<Rightarrow> observe_watch addr rs | Some s \<Rightarrow>
        (case ProviderHostSpec_LeaseID addr s of None \<Rightarrow> observe_watch addr rs | Some lid \<Rightarrow>
          (case event_of_watch t of None \<Rightarrow> observe_watch addr rs
           | Some et \<Rightarrow> host_event_of et lid s # observe_watch addr rs))))"

definition observeHostnameState ::
  "(string \<Rightarrow> string option) \<Rightarrow> provider_host list \<Rightarrow> (watch_type \<times> provider_host option) list \<Rightarrow> host_event list" where
  "observeHostnameState addr data results = observe_initial addr data @ observe_watch addr results"

section \<open>Errors and backends\<close>

datatype op_error =
    OpKube kube_error
  | OpWrapped string kube_error
  | OpExpectedNotFound
  | OpUnknownEvent
  | OpStopped
  | OpCanceled
  | OpInvalidConnection
  | OpLabels label_error
  | OpPanic

definition errorIsKubernetesResourceNotFound :: "op_error \<Rightarrow> bool" where
  "errorIsKubernetesResourceNotFound e =
     (case e of
        OpKube k \<Rightarrow> IsNotFound k \<or> contains (kube_error_text k) ''not found''
      | OpWrapped s k \<Rightarrow> IsNotFound k \<or> contains (s @ kube_error_text k) ''not found''
      | OpExpectedNotFound \<Rightarrow> True
      | _ \<Rightarrow> False)"

record connection =
  co_LeaseID :: lease_id
  co_Hostname :: string
  co_ExternalPort :: u32
  co_ServiceName :: string

record 'c backend =
  bk_connect :: "directive \<Rightarrow> 'c \<Rightarrow> op_error option \<times> 'c"
  bk_remove :: "string \<Rightarrow> lease_id \<Rightarrow> bool \<Rightarrow> 'c \<Rightarrow> op_error option \<times> 'c"
  bk_list :: "'c \<Rightarrow> op_error + connection list"

section \<open>The ingress backend\<close>

definition akashIngressClassName :: string where
  "akashIngressClassName = ''akash-ingress-class''"

definition ingressRules :: "string \<Rightarrow> string \<Rightarrow> u32 \<Rightarrow> ingress_rule list" where
  "ingressRules hostname kubeServiceName kubeServicePort =
     [\<lparr>ir_host = hostname, ir_paths = [\<lparr>ip_path = ''/'', ip_service = kubeServiceName, ip_port = kubeServicePort\<rparr>]\<rparr>]"

definition connectHostnameToDeployment ::
  "'c ingress_api \<Rightarrow> (lease_id \<Rightarrow> string) \<Rightarrow> directive \<Rightarrow> 'c \<Rightarrow> op_error option \<times> 'c" where
  "connectHostnameToDeployment A lidNS d c =
     (let ns = lidNS (d_LeaseID d);
          found = ia_get A ns (d_Hostname d) c
      in case kubeNginxIngressAnnotations d of
           None \<Rightarrow> (Some OpPanic, c)
         | Some annotations \<Rightarrow>
             (let obj = \<lparr>ing_name = d_Hostname d, ing_labels = managed_labels (d_LeaseID d), ing_annotations = annotations,
                    ing_class = akashIngressClassName, ing_rules = ingressRules (d_Hostname d) (d_ServiceName d) (d_ServicePort d),
                    ing_version = []\<rparr>
              in (case found of
                    Inr entry \<Rightarrow> (case ia_update A ns (obj\<lparr>ing_version := ing_version entry\<rparr>) c of (e, c') \<Rightarrow> (map_option OpKube e, c'))
                  | Inl err \<Rightarrow> if IsNotFound err
                      then (case ia_create A ns obj c of (e, c') \<Rightarrow> (map_option OpKube e, c'))
                      else (Some (OpKube err), c))))"

definition removeHostnameFromDeployment ::
  "'c ingress_api \<Rightarrow> (lease_id \<Rightarrow> string) \<Rightarrow> string \<Rightarrow> lease_id \<Rightarrow> bool \<Rightarrow> 'c \<Rightarrow> op_error option \<times> 'c" where
  "removeHostnameFromDeployment A lidNS hostname lid allowMissing c =
     (case ia_delete A (lidNS lid) (kubeSelectorForLease lid) hostname c of
        (None, c') \<Rightarrow> (None, c')
      | (Some err, c') \<Rightarrow> if allowMissing \<and> IsNotFound err then (None, c') else (Some (OpKube err), c'))"

definition ingress_connection :: "ingress \<Rightarrow> op_error + connection" where
  "ingress_connection i =
     (case RecoverLeaseIDFromLabels (ing_labels i) of Inl e \<Rightarrow> Inl (OpLabels e) | Inr lid \<Rightarrow>
      (case ing_rules i of
         [rule] \<Rightarrow> (case ir_paths rule of
             [p] \<Rightarrow> Inr \<lparr>co_LeaseID = lid, co_Hostname = ir_host rule, co_ExternalPort = ip_port p, co_ServiceName = ip_service p\<rparr>
           | _ \<Rightarrow> Inl OpInvalidConnection)
       | _ \<Rightarrow> Inl OpInvalidConnection))"

fun each_item :: "('a \<Rightarrow> 'e + 'b) \<Rightarrow> 'a list \<Rightarrow> 'e + 'b list" where
  "each_item f [] = Inr []"
| "each_item f (x # xs) = (case f x of Inl e \<Rightarrow> Inl e | Inr y \<Rightarrow> (case each_item f xs of Inl e \<Rightarrow> Inl e | Inr ys \<Rightarrow> Inr (y # ys)))"

definition getHostnameDeploymentConnections :: "'c ingress_api \<Rightarrow> 'c \<Rightarrow> op_error + connection list" where
  "getHostnameDeploymentConnections A c =
     (case ia_list A c of Inl e \<Rightarrow> Inl (OpKube e) | Inr is \<Rightarrow> each_item ingress_connection is)"

definition ingress_backend :: "'c ingress_api \<Rightarrow> (lease_id \<Rightarrow> string) \<Rightarrow> 'c backend" where
  "ingress_backend A lidNS = \<lparr>bk_connect = connectHostnameToDeployment A lidNS, bk_remove = removeHostnameFromDeployment A lidNS,
     bk_list = getHostnameDeploymentConnections A\<rparr>"

section \<open>The operator\<close>

record managedHostname =
  mh_lastEvent :: "host_event option"
  mh_presentLease :: lease_id
  mh_presentServiceName :: string
  mh_presentExternalPort :: u32
  mh_lastChangeAt :: int

record 'c hostnameOperator =
  ho_hostnames :: "string \<rightharpoonup> managedHostname"
  ho_leasesIgnored :: ignoreList
  ho_flagHostnames :: bool
  ho_flagIgnored :: bool
  ho_cluster :: 'c

text \<open>The calls of the operator: its backend, the manifests stored for the leases, and the SDK's external port of
  an exposed port.\<close>

record 'c host_env =
  hv_backend :: "'c backend"
  hv_lidNS :: "lease_id \<Rightarrow> string"
  hv_manifest :: "string \<Rightarrow> 'c \<Rightarrow> kube_error + crd_group"
  hv_externalPort :: "u32 \<Rightarrow> u32 \<Rightarrow> u32"

definition getManifestGroup :: "'c host_env \<Rightarrow> lease_id \<Rightarrow> 'c \<Rightarrow> op_error + crd_group option" where
  "getManifestGroup E lid c =
     (case hv_manifest E (hv_lidNS E lid) c of
        Inr g \<Rightarrow> Inr (Some g)
      | Inl e \<Rightarrow> if IsNotFound e then Inr None else Inl (OpKube e))"

definition locateServiceFromManifest :: "'c host_env \<Rightarrow> lease_id \<Rightarrow> string \<Rightarrow> u32 \<Rightarrow> 'c \<Rightarrow> op_error + crd_expose" where
  "locateServiceFromManifest E lid serviceName externalPort c =
     (case getManifestGroup E lid c of Inl e \<Rightarrow> Inl e
      | Inr None \<Rightarrow> Inl OpExpectedNotFound
      | Inr (Some g) \<Rightarrow>
         (case find (\<lambda>s. cs_Name s = serviceName) (cg_Services g) of
            None \<Rightarrow> Inl OpExpectedNotFound
          | Some s \<Rightarrow>
              (if cs_Count s = 0 then Inl OpExpectedNotFound
               else (case find (\<lambda>e. ce_Global e \<and> externalPort = hv_externalPort E (ucast (ce_Port e)) (ucast (ce_ExternalPort e))) (cs_Expose s) of
                 None \<Rightarrow> Inl OpExpectedNotFound
               | Some e \<Rightarrow> if ce_Port e = 0 then Inl OpExpectedNotFound else Inr e))))"

definition buildDirective :: "host_event \<Rightarrow> crd_expose \<Rightarrow> directive" where
  "buildDirective ev e =
     (let h = ce_HTTPOptions e; dflt = (ch_MaxBodySize h = 0) in
      \<lparr>d_Hostname = he_hostname ev, d_LeaseID = he_lid ev, d_ServiceName = he_serviceName ev, d_ServicePort = he_externalPort ev,
       d_ReadTimeout = (if dflt then 60000 else ch_ReadTimeout h),
       d_SendTimeout = (if dflt then 60000 else ch_SendTimeout h),
       d_NextTimeout = (if dflt then 60000 else ch_NextTimeout h),
       d_MaxBodySize = (if dflt then 1048576 else ch_MaxBodySize h),
       d_NextTries = (if dflt then 3 else ch_NextTries h),
       d_NextCases = (if dflt then [''error'', ''timeout''] else ch_NextCases h),
       d_ProxyBufferingDisable = (\<not> dflt \<and> ch_ProxyBufferingDisable h),
       d_ProxyBufferSize = (if dflt then 0 else ch_ProxyBufferSize h),
       d_ProxyBuffersNumber = (if dflt then 0 else ch_ProxyBuffersNumber h),
       d_ProxyBuffersSize = (if dflt then 0 else ch_ProxyBuffersSize h),
       d_ProxyBusyBuffersSize = (if dflt then 0 else ch_ProxyBusyBuffersSize h),
       d_ProxyConnectTimeout = (if dflt then 0 else ch_ProxyConnectTimeout h)\<rparr>)"

text \<open>The part of the event handlers that makes the route: the error, the cluster and the table before the entry is
  stored.\<close>

definition route_event :: "'c host_env \<Rightarrow> host_event \<Rightarrow> directive \<Rightarrow> 'c hostnameOperator \<Rightarrow> op_error option \<times> 'c hostnameOperator" where
  "route_event E ev d op =
     (let B = hv_backend E; h = he_hostname ev;
          isSameLease = (case ho_hostnames op h of None \<Rightarrow> True | Some entry \<Rightarrow> mh_presentLease entry = he_lid ev)
      in if isSameLease then
           (case bk_connect B d (ho_cluster op) of (err, c) \<Rightarrow> (err, op\<lparr>ho_cluster := c\<rparr>))
         else
           (case bk_remove B h (mh_presentLease (the (ho_hostnames op h))) False (ho_cluster op) of
              (Some err, c) \<Rightarrow> (Some err, op\<lparr>ho_cluster := c\<rparr>)
            | (None, c) \<Rightarrow>
                (case bk_connect B d c of
                   (err, c') \<Rightarrow> (err, op\<lparr>ho_hostnames := (ho_hostnames op)(h := None), ho_cluster := c'\<rparr>))))"

definition applyAddOrUpdateEvent :: "'c host_env \<Rightarrow> int \<Rightarrow> host_event \<Rightarrow> 'c hostnameOperator \<Rightarrow> op_error option \<times> 'c hostnameOperator" where
  "applyAddOrUpdateEvent E now ev op =
     (case locateServiceFromManifest E (he_lid ev) (he_serviceName ev) (he_externalPort ev) (ho_cluster op) of
        Inl e \<Rightarrow> (Some e, op)
      | Inr expose \<Rightarrow>
         (case route_event E ev (buildDirective ev expose) op of
            (Some e, op') \<Rightarrow> (Some e, op')
          | (None, op') \<Rightarrow>
              (None, op'\<lparr>ho_hostnames := (ho_hostnames op')(he_hostname ev \<mapsto>
                 \<lparr>mh_lastEvent = Some ev, mh_presentLease = he_lid ev, mh_presentServiceName = he_serviceName ev,
                  mh_presentExternalPort = he_externalPort ev, mh_lastChangeAt = now\<rparr>), ho_flagHostnames := True\<rparr>)))"

definition applyDeleteEvent :: "'c host_env \<Rightarrow> host_event \<Rightarrow> 'c hostnameOperator \<Rightarrow> op_error option \<times> 'c hostnameOperator" where
  "applyDeleteEvent E ev op =
     (case bk_remove (hv_backend E) (he_hostname ev) (he_lid ev) True (ho_cluster op) of
        (Some e, c) \<Rightarrow> (Some e, op\<lparr>ho_cluster := c\<rparr>)
      | (None, c) \<Rightarrow> (None, op\<lparr>ho_hostnames := (ho_hostnames op)(he_hostname ev := None), ho_flagHostnames := True, ho_cluster := c\<rparr>))"

text \<open>The text under which a failure is recorded is not read again, so the list keeps the kind of the error.\<close>

definition ho_recordEventError :: "int \<Rightarrow> host_event \<Rightarrow> op_error option \<Rightarrow> 'c hostnameOperator \<Rightarrow> 'c hostnameOperator" where
  "ho_recordEventError now ev failure op =
     (case failure of None \<Rightarrow> op | Some e \<Rightarrow>
      if errorIsKubernetesResourceNotFound e
      then op\<lparr>ho_leasesIgnored := AddError now (he_lid ev) ''not found'' [he_hostname ev] (ho_leasesIgnored op), ho_flagIgnored := True\<rparr>
      else op)"

definition ho_applyEvent :: "'c host_env \<Rightarrow> int \<Rightarrow> host_event \<Rightarrow> 'c hostnameOperator \<Rightarrow> op_error option \<times> 'c hostnameOperator" where
  "ho_applyEvent E now ev op =
     (case he_type ev of
        ProviderResourceDelete \<Rightarrow> applyDeleteEvent E ev op
      | ProviderResourceOther \<Rightarrow> (Some OpUnknownEvent, op)
      | _ \<Rightarrow>
         (if IsFlagged (ho_leasesIgnored op) (he_lid ev) then (None, op)
          else (case applyAddOrUpdateEvent E now ev op of (err, op') \<Rightarrow> (err, ho_recordEventError now ev err op'))))"

definition ho_prune :: "(lease_id \<Rightarrow> int) \<Rightarrow> lease_id list \<Rightarrow> lease_id list \<Rightarrow> 'c hostnameOperator \<Rightarrow> 'c hostnameOperator" where
  "ho_prune now o1 o2 op =
     (case Prune now o1 o2 (ho_leasesIgnored op) of
        (deleted, il) \<Rightarrow> op\<lparr>ho_leasesIgnored := il, ho_flagIgnored := ho_flagIgnored op \<or> deleted\<rparr>)"

section \<open>A round of observation\<close>

definition connection_entry :: "connection \<Rightarrow> managedHostname" where
  "connection_entry co = \<lparr>mh_lastEvent = None, mh_presentLease = co_LeaseID co, mh_presentServiceName = co_ServiceName co,
     mh_presentExternalPort = co_ExternalPort co, mh_lastChangeAt = 0\<rparr>"

definition table_of :: "connection list \<Rightarrow> string \<rightharpoonup> managedHostname" where
  "table_of cs = foldl (\<lambda>m co. m(co_Hostname co \<mapsto> connection_entry co)) Map.empty cs"

definition host_start :: "'c host_env \<Rightarrow> 'c hostnameOperator \<Rightarrow> op_error option \<times> 'c hostnameOperator" where
  "host_start E op =
     (let op = op\<lparr>ho_hostnames := Map.empty\<rparr> in
      case bk_list (hv_backend E) (ho_cluster op) of
        Inl e \<Rightarrow> (Some e, op)
      | Inr cs \<Rightarrow> (None, op\<lparr>ho_hostnames := table_of cs, ho_flagHostnames := True\<rparr>))"

datatype host_input =
    HiDone
  | HiEvent host_event int
  | HiClosed
  | HiPrune "lease_id \<Rightarrow> int" "lease_id list" "lease_id list"
  | HiPrepare

text \<open>One turn of the loop; the error is the one with which the loop ends.\<close>

fun host_turn :: "'c host_env \<Rightarrow> 'c hostnameOperator \<Rightarrow> host_input \<Rightarrow> op_error option \<times> 'c hostnameOperator" where
  "host_turn E op HiDone = (Some OpCanceled, op)"
| "host_turn E op HiClosed = (Some OpStopped, op)"
| "host_turn E op (HiEvent ev now) = ho_applyEvent E now ev op"
| "host_turn E op (HiPrune now o1 o2) = (None, ho_prune now o1 o2 op)"
| "host_turn E op HiPrepare = (None, op\<lparr>ho_flagHostnames := False, ho_flagIgnored := False\<rparr>)"

fun host_loop :: "'c host_env \<Rightarrow> 'c hostnameOperator \<Rightarrow> host_input list \<Rightarrow> op_error option \<times> 'c hostnameOperator" where
  "host_loop E op [] = (None, op)"
| "host_loop E op (i # is) = (case host_turn E op i of (Some e, op') \<Rightarrow> (Some e, op') | (None, op') \<Rightarrow> host_loop E op' is)"

definition ho_monitorUntilError :: "'c host_env \<Rightarrow> 'c hostnameOperator \<Rightarrow> host_input list \<Rightarrow> op_error option \<times> 'c hostnameOperator" where
  "ho_monitorUntilError E op is =
     (case host_start E op of (Some e, op') \<Rightarrow> (Some e, op') | (None, op') \<Rightarrow> host_loop E op' is)"

text \<open>\<open>run\<close>: rounds of observation until one ends with the cancelled context; other actors may change the cluster
  between two rounds.\<close>

fun host_run :: "'c host_env \<Rightarrow> 'c hostnameOperator \<Rightarrow> (('c \<Rightarrow> 'c) \<times> host_input list) list \<Rightarrow> 'c hostnameOperator" where
  "host_run E op [] = op"
| "host_run E op ((between, is) # rs) =
     (case ho_monitorUntilError E (op\<lparr>ho_cluster := between (ho_cluster op)\<rparr>) is of
        (e, op') \<Rightarrow> if e = Some OpCanceled then op' else host_run E op' rs)"

section \<open>What a backend promises\<close>

definition route_of :: "directive \<Rightarrow> connection" where
  "route_of d = \<lparr>co_LeaseID = d_LeaseID d, co_Hostname = d_Hostname d, co_ExternalPort = d_ServicePort d, co_ServiceName = d_ServiceName d\<rparr>"

text \<open>\<open>obs\<close> reads the routes of the cluster by namespace and hostname. A call that fails changes no route; connecting
  sets the route of the directive; removing takes away at most the route of that hostname in the
  namespace of the lease, and does so when it is labelled with the lease; listing yields all
  routes of a cluster whose managed routes carry the labels of the provider (\<open>clean\<close>).\<close>

definition connect_ok :: "'c backend \<Rightarrow> (lease_id \<Rightarrow> string) \<Rightarrow> ('c \<Rightarrow> string \<times> string \<rightharpoonup> connection) \<Rightarrow> bool" where
  "connect_ok B ns obs \<longleftrightarrow> (\<forall>d c. case bk_connect B d c of
     (None, c') \<Rightarrow> obs c' = (obs c)((ns (d_LeaseID d), d_Hostname d) \<mapsto> route_of d) | (Some _, c') \<Rightarrow> obs c' = obs c)"

definition remove_ok :: "'c backend \<Rightarrow> (lease_id \<Rightarrow> string) \<Rightarrow> ('c \<Rightarrow> string \<times> string \<rightharpoonup> connection) \<Rightarrow> bool" where
  "remove_ok B ns obs \<longleftrightarrow> (\<forall>h lid a c. case bk_remove B h lid a c of
     (None, c') \<Rightarrow> (\<forall>k. k \<noteq> (ns lid, h) \<longrightarrow> obs c' k = obs c k) \<and> (obs c' (ns lid, h) = None \<or> obs c' (ns lid, h) = obs c (ns lid, h)) \<and>
        (\<forall>r. obs c (ns lid, h) = Some r \<and> co_LeaseID r = lid \<longrightarrow> obs c' (ns lid, h) = None)
   | (Some _, c') \<Rightarrow> obs c' = obs c)"

definition list_ok :: "'c backend \<Rightarrow> ('c \<Rightarrow> string \<times> string \<rightharpoonup> connection) \<Rightarrow> ('c \<Rightarrow> bool) \<Rightarrow> bool" where
  "list_ok B obs clean \<longleftrightarrow> (\<forall>c cs. clean c \<and> bk_list B c = Inr cs \<longrightarrow> set cs = ran (obs c))"

definition backend_ok ::
  "'c backend \<Rightarrow> (lease_id \<Rightarrow> string) \<Rightarrow> ('c \<Rightarrow> string \<times> string \<rightharpoonup> connection) \<Rightarrow> ('c \<Rightarrow> bool) \<Rightarrow> bool" where
  "backend_ok B ns obs clean \<longleftrightarrow> connect_ok B ns obs \<and> remove_ok B ns obs \<and> list_ok B obs clean"

lemma backend_okD: "backend_ok B ns obs clean \<Longrightarrow> connect_ok B ns obs" "backend_ok B ns obs clean \<Longrightarrow> remove_ok B ns obs"
    "backend_ok B ns obs clean \<Longrightarrow> list_ok B obs clean"
  by (simp_all add: backend_ok_def)

lemma connect_okD:
  assumes "connect_ok B ns obs"
  shows "bk_connect B d c = (None, c') \<Longrightarrow> obs c' = (obs c)((ns (d_LeaseID d), d_Hostname d) \<mapsto> route_of d)"
    "bk_connect B d c = (Some e, c') \<Longrightarrow> obs c' = obs c"
  using assms[unfolded connect_ok_def, THEN spec[of _ d], THEN spec[of _ c]] by auto

lemma remove_okD:
  assumes "remove_ok B ns obs"
  shows "bk_remove B h lid a c = (None, c') \<Longrightarrow> k \<noteq> (ns lid, h) \<Longrightarrow> obs c' k = obs c k"
    "bk_remove B h lid a c = (None, c') \<Longrightarrow> obs c' (ns lid, h) = Some r \<Longrightarrow> obs c (ns lid, h) = Some r"
    "bk_remove B h lid a c = (None, c') \<Longrightarrow> obs c (ns lid, h) = Some r \<Longrightarrow> co_LeaseID r = lid \<Longrightarrow> obs c' (ns lid, h) = None"
    "bk_remove B h lid a c = (Some e, c') \<Longrightarrow> obs c' = obs c"
  using assms[unfolded remove_ok_def, THEN spec[of _ h], THEN spec[of _ lid], THEN spec[of _ a], THEN spec[of _ c]] by (cases k; auto)+

section \<open>The ingress backend keeps the promise\<close>

definition ingress_obs :: "('c \<Rightarrow> string \<times> string \<rightharpoonup> ingress) \<Rightarrow> 'c \<Rightarrow> string \<times> string \<rightharpoonup> connection" where
  "ingress_obs store c k =
     (case store c k of None \<Rightarrow> None | Some i \<Rightarrow>
      if lease_labelled (ing_labels i)
      then (case ingress_connection i of Inl _ \<Rightarrow> None | Inr co \<Rightarrow> Some co) else None)"

definition ingress_clean :: "('c \<Rightarrow> string \<times> string \<rightharpoonup> ingress) \<Rightarrow> 'c \<Rightarrow> bool" where
  "ingress_clean store c \<longleftrightarrow> (\<forall>i \<in> ran (store c). ing_labels i AkashManagedLabelName = Some ''true'' \<longrightarrow> lease_labelled (ing_labels i))"

lemma stored_obs:
  assumes "stored ns i (store c) (store c')" and "ing_name i = d_Hostname d" and "ing_labels i = managed_labels (d_LeaseID d)"
    and "ing_rules i = ingressRules (d_Hostname d) (d_ServiceName d) (d_ServicePort d)"
  shows "ingress_obs store c' = (ingress_obs store c)((ns, d_Hostname d) \<mapsto> route_of d)"
proof
  fix k
  obtain v where s: "store c' = (store c)((ns, d_Hostname d) \<mapsto> i\<lparr>ing_version := v\<rparr>)" using assms(1,2) by (auto simp: stored_def)
  have m: "RecoverLeaseIDFromLabels (managed_labels (d_LeaseID d)) = Inr (d_LeaseID d)" by (simp add: managed_labels_def)
  have "ingress_connection (i\<lparr>ing_version := v\<rparr>) = Inr (route_of d)"
    by (simp add: ingress_connection_def assms(3,4) m ingressRules_def route_of_def)
  then show "ingress_obs store c' k = ((ingress_obs store c)((ns, d_Hostname d) \<mapsto> route_of d)) k"
    by (simp add: ingress_obs_def s assms(3))
qed

lemma each_item_ok: "each_item f xs = Inr ys \<Longrightarrow> set ys = {y. \<exists>x \<in> set xs. f x = Inr y} \<and> (\<forall>x \<in> set xs. is_ok (f x))"
  by (induction xs arbitrary: ys) (auto split: sum.splits)

lemma ingress_obs_Some:
  "ingress_obs store c k = Some co \<longleftrightarrow> (\<exists>i. store c k = Some i \<and> lease_labelled (ing_labels i) \<and> ingress_connection i = Inr co)"
  by (auto simp: ingress_obs_def split: option.splits sum.splits)

lemma ingress_obs_same: "store c' = store c \<Longrightarrow> ingress_obs store c' = ingress_obs store c"
  by (simp add: fun_eq_iff ingress_obs_def)

lemma ingress_connect_ok:
  assumes "ingress_api_ok A store"
  shows "connect_ok (ingress_backend A ns) ns (ingress_obs store)"
  unfolding connect_ok_def
proof (intro allI)
  fix d c
  have W: "writes_ok (ia_update A) store" "writes_ok (ia_create A) store" using assms by (simp_all add: ingress_api_ok_def)
  show "case bk_connect (ingress_backend A ns) d c of
        (None, c') \<Rightarrow> ingress_obs store c' = (ingress_obs store c)((ns (d_LeaseID d), d_Hostname d) \<mapsto> route_of d)
      | (Some _, c') \<Rightarrow> ingress_obs store c' = ingress_obs store c"
  proof (cases "kubeNginxIngressAnnotations d")
    case (Some an)
    let ?obj = "\<lambda>v. \<lparr>ing_name = d_Hostname d, ing_labels = managed_labels (d_LeaseID d), ing_annotations = an,
        ing_class = akashIngressClassName, ing_rules = ingressRules (d_Hostname d) (d_ServiceName d) (d_ServicePort d), ing_version = v\<rparr>"
    have wr: "case W (ns (d_LeaseID d)) (?obj v) c of
        (None, c') \<Rightarrow> ingress_obs store c' = (ingress_obs store c)((ns (d_LeaseID d), d_Hostname d) \<mapsto> route_of d)
      | (Some _, c') \<Rightarrow> ingress_obs store c' = ingress_obs store c" if "writes_ok W store" for W v
      using writes_okD[OF that, of "ns (d_LeaseID d)" "?obj v" c] stored_obs[of "ns (d_LeaseID d)" "?obj v" store c _ d]
      by (auto split: prod.split option.split dest: ingress_obs_same)
    show ?thesis
    proof (cases "ia_get A (ns (d_LeaseID d)) (d_Hostname d) c")
      case (Inl err)
      then show ?thesis using wr[OF W(2), of "[]"] Some
        by (auto simp: ingress_backend_def connectHostnameToDeployment_def split: prod.splits option.splits)
    next
      case (Inr entry)
      then show ?thesis using wr[OF W(1), of "ing_version entry"] Some
        by (auto simp: ingress_backend_def connectHostnameToDeployment_def split: prod.splits option.splits)
    qed
  qed (simp add: ingress_backend_def connectHostnameToDeployment_def)
qed

lemma ingress_remove_ok:
  assumes "ingress_api_ok A store"
  shows "remove_ok (ingress_backend A ns) ns (ingress_obs store)"
  unfolding remove_ok_def
proof (intro allI)
  fix h lid a c
  let ?del = "ia_delete A (ns lid) (kubeSelectorForLease lid) h c"
  have D: "deletes_ok (ia_delete A) store" using assms by (simp add: ingress_api_ok_def)
  have sel: "selects (kubeSelectorForLease lid) (ing_labels i)"
    if "lease_labelled (ing_labels i)" "ingress_connection i = Inr r" "co_LeaseID r = lid" for i r
    using that by (auto simp: lease_labelled_def ingress_connection_def split: sum.splits list.splits)
  obtain e c' where r: "?del = (e, c')" by (cases ?del)
  show "case bk_remove (ingress_backend A ns) h lid a c of
     (None, c') \<Rightarrow> (\<forall>k. k \<noteq> (ns lid, h) \<longrightarrow> ingress_obs store c' k = ingress_obs store c k) \<and>
        (ingress_obs store c' (ns lid, h) = None \<or> ingress_obs store c' (ns lid, h) = ingress_obs store c (ns lid, h)) \<and>
        (\<forall>r. ingress_obs store c (ns lid, h) = Some r \<and> co_LeaseID r = lid \<longrightarrow> ingress_obs store c' (ns lid, h) = None)
   | (Some _, c') \<Rightarrow> ingress_obs store c' = ingress_obs store c"
  proof (cases e)
    case None
    note k = deletes_okD(1)[OF D r[unfolded None]]
    have "ingress_obs store c' k = ingress_obs store c k" if "k \<noteq> (ns lid, h)" for k
      using k[of k] that by (simp add: ingress_obs_def split: option.split)
    moreover have "ingress_obs store c' (ns lid, h) = None \<or> ingress_obs store c' (ns lid, h) = ingress_obs store c (ns lid, h)"
      using k[of "(ns lid, h)"] by (simp add: ingress_obs_def split: option.split)
    moreover have "ingress_obs store c' (ns lid, h) = None" if "ingress_obs store c (ns lid, h) = Some r" "co_LeaseID r = lid" for r
      using k[of "(ns lid, h)"] that by (auto simp: ingress_obs_def sel split: option.splits if_splits sum.splits)
    ultimately show ?thesis using r None by (auto simp: ingress_backend_def removeHostnameFromDeployment_def)
  next
    case (Some err)
    then show ?thesis using r deletes_okD(2,3)[OF D r[unfolded Some]] ingress_obs_same[of store c' c]
      by (auto simp: ingress_backend_def removeHostnameFromDeployment_def ingress_obs_def)
  qed
qed

lemma ingress_list_ok:
  assumes "ingress_api_ok A store"
  shows "list_ok (ingress_backend A ns) (ingress_obs store) (ingress_clean store)"
  unfolding list_ok_def
proof (intro allI impI)
  fix c cs assume l0: "ingress_clean store c \<and> bk_list (ingress_backend A ns) c = Inr cs"
  then obtain items where l: "ia_list A c = Inr items" "each_item ingress_connection items = Inr cs"
    by (auto simp: ingress_backend_def getHostnameDeploymentConnections_def split: sum.splits)
  have "set items = {i \<in> ran (store c). ing_labels i AkashManagedLabelName = Some ''true''}"
    using assms l(1) by (auto simp: ingress_api_ok_def lists_ok_def)
  then have "set items = {i \<in> ran (store c). lease_labelled (ing_labels i)}"
    using l0 by (auto simp: ingress_clean_def lease_labelled_def)
  moreover have "co \<in> ran (ingress_obs store c) \<longleftrightarrow> (\<exists>i \<in> ran (store c). lease_labelled (ing_labels i) \<and> ingress_connection i = Inr co)" for co
    by (auto simp: ran_def ingress_obs_Some)
  ultimately show "set cs = ran (ingress_obs store c)" using each_item_ok[OF l(2)] by blast
qed

lemma ingress_backend_ok: "ingress_api_ok A store \<Longrightarrow> backend_ok (ingress_backend A ns) ns (ingress_obs store) (ingress_clean store)"
  by (simp add: backend_ok_def ingress_connect_ok ingress_remove_ok ingress_list_ok)

section \<open>The table and the routes agree\<close>

definition entry_route :: "string \<Rightarrow> managedHostname \<Rightarrow> connection" where
  "entry_route h e = \<lparr>co_LeaseID = mh_presentLease e, co_Hostname = h, co_ExternalPort = mh_presentExternalPort e,
     co_ServiceName = mh_presentServiceName e\<rparr>"

definition table_ok :: "(lease_id \<Rightarrow> string) \<Rightarrow> (string \<rightharpoonup> managedHostname) \<Rightarrow> (string \<times> string \<rightharpoonup> connection) \<Rightarrow> bool" where
  "table_ok ns t routes \<longleftrightarrow>
     (\<forall>h e. t h = Some e \<longrightarrow> routes (ns (mh_presentLease e), h) = Some (entry_route h e)) \<and>
     (\<forall>n h r. routes (n, h) = Some r \<longrightarrow> (\<exists>e. t h = Some e \<and> n = ns (mh_presentLease e)))"

text \<open>The routes by themselves: each lies in the namespace of its lease under its hostname, one per hostname.\<close>

definition routes_proper :: "(lease_id \<Rightarrow> string) \<Rightarrow> (string \<times> string \<rightharpoonup> connection) \<Rightarrow> bool" where
  "routes_proper ns routes \<longleftrightarrow>
     (\<forall>n h r. routes (n, h) = Some r \<longrightarrow> n = ns (co_LeaseID r) \<and> co_Hostname r = h) \<and>
     (\<forall>n n' h r r'. routes (n, h) = Some r \<and> routes (n', h) = Some r' \<longrightarrow> n = n')"

lemma table_okD:
  assumes "table_ok ns t routes"
  shows "t h = Some e \<Longrightarrow> routes (ns (mh_presentLease e), h) = Some (entry_route h e)"
    "routes (n, h) = Some r \<Longrightarrow> \<exists>e. t h = Some e \<and> n = ns (mh_presentLease e)"
  using assms unfolding table_ok_def by blast+

lemma table_ok_proper:
  assumes "table_ok ns t routes"
  shows "routes_proper ns routes"
  unfolding routes_proper_def
proof (intro conjI allI impI)
  fix n h r assume r: "routes (n, h) = Some r"
  then obtain e where "t h = Some e" "n = ns (mh_presentLease e)" using table_okD(2)[OF assms] by blast
  then have "r = entry_route h e" using r table_okD(1)[OF assms] by fastforce
  then show "n = ns (co_LeaseID r)" "co_Hostname r = h" using \<open>n = _\<close> by (simp_all add: entry_route_def)
next
  fix n n' h r r' assume "routes (n, h) = Some r \<and> routes (n', h) = Some r'"
  then show "n = n'" using table_okD(2)[OF assms, of n h r] table_okD(2)[OF assms, of n' h r'] by auto
qed

text \<open>Setting the entry of a hostname with its route, when no other lease has a route for it.\<close>

lemma table_ok_set:
  assumes "table_ok ns t routes" and "\<And>e'. t h = Some e' \<Longrightarrow> ns (mh_presentLease e') = ns (mh_presentLease e)"
  shows "table_ok ns (t(h \<mapsto> e)) (routes((ns (mh_presentLease e), h) \<mapsto> entry_route h e))"
  using assms unfolding table_ok_def by (auto split: if_splits) fastforce+

lemma table_ok_drop:
  assumes "table_ok ns t routes" and "\<And>k. snd k \<noteq> h \<Longrightarrow> routes' k = routes k" and "\<And>n. routes' (n, h) = None"
  shows "table_ok ns (t(h := None)) routes'"
proof -
  have "routes' (n, h') = Some r \<Longrightarrow> h' \<noteq> h \<and> routes (n, h') = Some r" for n h' r
    using assms(2)[of "(n, h')"] assms(3) by (cases "h' = h") auto
  note kept = this
  show ?thesis unfolding table_ok_def
  proof (intro conjI allI impI)
    fix h' e assume "(t(h := None)) h' = Some e"
    then show "routes' (ns (mh_presentLease e), h') = Some (entry_route h' e)"
      using table_okD(1)[OF assms(1), of h' e] assms(2)[of "(ns (mh_presentLease e), h')"] by (simp split: if_splits)
  next
    fix n h' r assume "routes' (n, h') = Some r"
    then show "\<exists>e. (t(h := None)) h' = Some e \<and> n = ns (mh_presentLease e)"
      using kept[of n h' r] table_okD(2)[OF assms(1), of n h' r] by simp
  qed
qed

lemma remove_table:
  assumes "remove_ok B ns obs" and "table_ok ns t (obs c)" and "bk_remove B h lid a c = (None, c')"
    and "\<And>e. t h = Some e \<Longrightarrow> mh_presentLease e = lid"
  shows "table_ok ns (t(h := None)) (obs c')"
proof (rule table_ok_drop[OF assms(2)])
  show "obs c' k = obs c k" if "snd k \<noteq> h" for k
    using remove_okD(1)[OF assms(1,3), of k] that by (cases k) auto
  show "obs c' (n, h) = None" for n
  proof (rule ccontr)
    assume "obs c' (n, h) \<noteq> None"
    then obtain r where r: "obs c' (n, h) = Some r" by blast
    have c: "obs c (n, h) = Some r"
      using remove_okD(1)[OF assms(1,3), of "(n, h)"] remove_okD(2)[OF assms(1,3), of r] r by (cases "n = ns lid") auto
    then obtain e where e: "t h = Some e" "n = ns (mh_presentLease e)" using table_okD(2)[OF assms(2)] by blast
    have "r = entry_route h e" using table_okD(1)[OF assms(2) e(1)] c e(2) by simp
    then show False using remove_okD(3)[OF assms(1,3), of r] assms(4)[OF e(1)] c e r by (simp add: entry_route_def)
  qed
qed

lemma connect_table:
  assumes "connect_ok B ns obs" and "table_ok ns t (obs c)" and "bk_connect B d c = (None, c')"
    and "\<And>e'. t (d_Hostname d) = Some e' \<Longrightarrow> ns (mh_presentLease e') = ns (d_LeaseID d)"
    and "mh_presentLease e = d_LeaseID d" and "entry_route (d_Hostname d) e = route_of d"
  shows "table_ok ns (t(d_Hostname d \<mapsto> e)) (obs c')"
  using table_ok_set[OF assms(2), of "d_Hostname d" e] assms(4-6) connect_okD(1)[OF assms(1,3)] by simp

text \<open>A delete event names the lease that holds the hostname.\<close>

definition deletes_holder :: "'c hostnameOperator \<Rightarrow> host_event \<Rightarrow> bool" where
  "deletes_holder op ev \<longleftrightarrow> (he_type ev = ProviderResourceDelete \<longrightarrow>
     (case ho_hostnames op (he_hostname ev) of None \<Rightarrow> True | Some e \<Rightarrow> mh_presentLease e = he_lid ev))"

abbreviation op_ok :: "(lease_id \<Rightarrow> string) \<Rightarrow> ('c \<Rightarrow> string \<times> string \<rightharpoonup> connection) \<Rightarrow> 'c hostnameOperator \<Rightarrow> bool" where
  "op_ok ns obs op \<equiv> table_ok ns (ho_hostnames op) (obs (ho_cluster op))"

lemma buildDirective_sel [simp]: "d_Hostname (buildDirective ev x) = he_hostname ev" "d_LeaseID (buildDirective ev x) = he_lid ev"
  "route_of (buildDirective ev x) = \<lparr>co_LeaseID = he_lid ev, co_Hostname = he_hostname ev, co_ExternalPort = he_externalPort ev,
     co_ServiceName = he_serviceName ev\<rparr>"
  by (simp_all add: buildDirective_def route_of_def Let_def)

lemma addOrUpdate_ok:
  assumes "backend_ok (hv_backend E) ns obs clean" and ok: "op_ok ns obs op"
  shows "op_ok ns obs (snd (applyAddOrUpdateEvent E now ev op))"
proof -
  note B = backend_okD[OF assms(1)]
  let ?h = "he_hostname ev" and ?t = "ho_hostnames op" and ?c = "ho_cluster op"
  define e where "e = \<lparr>mh_lastEvent = Some ev, mh_presentLease = he_lid ev, mh_presentServiceName = he_serviceName ev,
    mh_presentExternalPort = he_externalPort ev, mh_lastChangeAt = now\<rparr>"
  have e: "mh_presentLease e = he_lid ev" "entry_route ?h e = route_of (buildDirective ev x)" for x by (simp_all add: e_def entry_route_def)
  have connect: "case bk_connect (hv_backend E) (buildDirective ev x) c of
       (None, c') \<Rightarrow> table_ok ns (t(?h \<mapsto> e)) (obs c') | (Some _, c') \<Rightarrow> table_ok ns t (obs c')"
    if "table_ok ns t (obs c)" "\<And>e'. t ?h = Some e' \<Longrightarrow> mh_presentLease e' = he_lid ev" for t c x
    using connect_table[OF B(1) that(1), of "buildDirective ev x" _ e] connect_okD(2)[OF B(1), of "buildDirective ev x" c] that e
    by (auto split: prod.split option.split)
  show ?thesis
  proof (cases "locateServiceFromManifest E (he_lid ev) (he_serviceName ev) (he_externalPort ev) ?c")
    case (Inr x)
    show ?thesis
    proof (cases "case ?t ?h of None \<Rightarrow> True | Some entry \<Rightarrow> mh_presentLease entry = he_lid ev")
      case True
      then show ?thesis using Inr connect[OF ok, of x]
        by (auto simp: applyAddOrUpdateEvent_def route_event_def Let_def e_def split: prod.split option.splits)
    next
      case False
      then obtain e0 where e0: "?t ?h = Some e0" "mh_presentLease e0 \<noteq> he_lid ev" by (auto split: option.splits)
      obtain err c1 where r: "bk_remove (hv_backend E) ?h (mh_presentLease e0) False ?c = (err, c1)" by fastforce
      show ?thesis
      proof (cases err)
        case None
        have "table_ok ns (?t(?h := None)) (obs c1)"
          using remove_table[OF B(2) ok r[unfolded None]] e0(1) by simp
        from connect[OF this, of x] show ?thesis using Inr e0 r None
          by (auto simp: applyAddOrUpdateEvent_def route_event_def Let_def e_def split: prod.split option.splits)
      next
        case (Some x1)
        then show ?thesis using Inr e0 r ok remove_okD(4)[OF B(2) r[unfolded Some]]
          by (auto simp: applyAddOrUpdateEvent_def route_event_def Let_def)
      qed
    qed
  qed (use ok in \<open>simp add: applyAddOrUpdateEvent_def\<close>)
qed

lemma delete_ok:
  assumes "backend_ok (hv_backend E) ns obs clean" and "op_ok ns obs op" and "he_type ev = ProviderResourceDelete" and "deletes_holder op ev"
  shows "op_ok ns obs (snd (applyDeleteEvent E ev op))"
proof -
  note B = backend_okD[OF assms(1)]
  obtain err c1 where r: "bk_remove (hv_backend E) (he_hostname ev) (he_lid ev) True (ho_cluster op) = (err, c1)" by fastforce
  show ?thesis
  proof (cases err)
    case None
    then show ?thesis using remove_table[OF B(2) assms(2) r[unfolded None]] assms(3,4) r
      by (auto simp: applyDeleteEvent_def deletes_holder_def split: option.splits)
  next
    case (Some x)
    then show ?thesis using remove_okD(4)[OF B(2) r[unfolded Some]] assms(2) r by (simp add: applyDeleteEvent_def)
  qed
qed

lemma recordEventError_sel [simp]: "ho_hostnames (ho_recordEventError now ev f op) = ho_hostnames op"
  "ho_cluster (ho_recordEventError now ev f op) = ho_cluster op"
  by (simp_all add: ho_recordEventError_def split: option.split)

lemma applyEvent_ok:
  assumes "backend_ok (hv_backend E) ns obs clean" and "op_ok ns obs op" and "deletes_holder op ev"
  shows "op_ok ns obs (snd (ho_applyEvent E now ev op))"
  using addOrUpdate_ok[OF assms(1,2), of now ev] delete_ok[OF assms(1,2) _ assms(3)] assms(2)
  by (cases "he_type ev") (auto simp: ho_applyEvent_def split: prod.split)

section \<open>A round\<close>

lemma table_of_snoc: "table_of (cs @ [co]) = (table_of cs)(co_Hostname co \<mapsto> connection_entry co)"
  by (simp add: table_of_def)

lemma table_of_Some: "table_of cs h = Some e \<Longrightarrow> \<exists>co \<in> set cs. co_Hostname co = h \<and> e = connection_entry co"
  by (induction cs rule: rev_induct) (auto simp: table_of_snoc table_of_def split: if_splits)

lemma table_of_dom: "co \<in> set cs \<Longrightarrow> \<exists>e. table_of cs (co_Hostname co) = Some e"
  by (induction cs rule: rev_induct) (auto simp: table_of_snoc split: if_splits)

lemma connection_entry_sel [simp]: "mh_presentLease (connection_entry co) = co_LeaseID co" "entry_route (co_Hostname co) (connection_entry co) = co"
  by (simp_all add: connection_entry_def entry_route_def)

lemma start_ok:
  assumes "backend_ok (hv_backend E) ns obs clean" and "clean (ho_cluster op)" and "routes_proper ns (obs (ho_cluster op))"
    and "host_start E op = (None, op')"
  shows "op_ok ns obs op' \<and> ho_cluster op' = ho_cluster op \<and> ho_leasesIgnored op' = ho_leasesIgnored op"
proof -
  obtain cs where cs: "bk_list (hv_backend E) (ho_cluster op) = Inr cs" "ho_hostnames op' = table_of cs" "ho_cluster op' = ho_cluster op"
      "ho_leasesIgnored op' = ho_leasesIgnored op"
    using assms(4) by (auto simp: host_start_def Let_def split: sum.splits)
  have ran: "set cs = ran (obs (ho_cluster op))"
    using backend_okD(3)[OF assms(1)] assms(2) cs(1) by (simp add: list_ok_def)
  have at: "obs (ho_cluster op) (ns (co_LeaseID co), co_Hostname co) = Some co" if "co \<in> set cs" for co
    using that ran assms(3) by (fastforce simp: ran_def routes_proper_def)
  have "table_ok ns (table_of cs) (obs (ho_cluster op))"
    unfolding table_ok_def
  proof (intro conjI allI impI)
    fix h e assume "table_of cs h = Some e"
    then obtain co where "co \<in> set cs" "co_Hostname co = h" "e = connection_entry co" using table_of_Some by blast
    then show "obs (ho_cluster op) (ns (mh_presentLease e), h) = Some (entry_route h e)" using at by auto
  next
    fix n h r assume r: "obs (ho_cluster op) (n, h) = Some r"
    then have "r \<in> set cs" "co_Hostname r = h" using ran assms(3) by (auto simp: ran_def routes_proper_def)
    then obtain e where e: "table_of cs h = Some e" using table_of_dom by blast
    then obtain co where co: "co \<in> set cs" "co_Hostname co = h" "e = connection_entry co" using table_of_Some by blast
    have "n = ns (co_LeaseID co)" using at[OF co(1)] co(2) r assms(3) unfolding routes_proper_def by blast
    then show "\<exists>e. table_of cs h = Some e \<and> n = ns (mh_presentLease e)" using e co by auto
  qed
  then show ?thesis using cs by simp
qed

text \<open>Along a round, every delete event names the holder of its hostname.\<close>

fun round_deletes_holder :: "'c host_env \<Rightarrow> 'c hostnameOperator \<Rightarrow> host_input list \<Rightarrow> bool" where
  "round_deletes_holder E op [] = True"
| "round_deletes_holder E op (i # is) =
     ((case i of HiEvent ev now \<Rightarrow> deletes_holder op ev | _ \<Rightarrow> True) \<and>
      (case host_turn E op i of (Some _, _) \<Rightarrow> True | (None, op') \<Rightarrow> round_deletes_holder E op' is))"

lemma prune_sel [simp]: "ho_hostnames (ho_prune now o1 o2 op) = ho_hostnames op" "ho_cluster (ho_prune now o1 o2 op) = ho_cluster op"
  by (simp_all add: ho_prune_def split: prod.split)

lemma turn_ok:
  assumes "backend_ok (hv_backend E) ns obs clean" and "op_ok ns obs op" and "case i of HiEvent ev now \<Rightarrow> deletes_holder op ev | _ \<Rightarrow> True"
  shows "op_ok ns obs (snd (host_turn E op i))"
  using assms applyEvent_ok[OF assms(1,2)] by (cases i) auto

lemma loop_ok:
  assumes "backend_ok (hv_backend E) ns obs clean" and "op_ok ns obs op" and "round_deletes_holder E op is"
  shows "op_ok ns obs (snd (host_loop E op is))"
  using assms(2,3)
proof (induction "is" arbitrary: op)
  case (Cons i "is")
  then show ?case using turn_ok[OF assms(1) Cons.prems(1), of i]
    by (auto split: prod.splits option.splits)
qed simp

section \<open>The declared hostnames\<close>

text \<open>The abstract table: lease, service and port of a hostname, and what an event does to it.\<close>

type_synonym declared = "string \<rightharpoonup> lease_id \<times> string \<times> u32"

definition abs_table :: "'c hostnameOperator \<Rightarrow> declared" where
  "abs_table op h = map_option (\<lambda>e. (mh_presentLease e, mh_presentServiceName e, mh_presentExternalPort e)) (ho_hostnames op h)"

definition declare_event :: "(lease_id \<Rightarrow> bool) \<Rightarrow> declared \<Rightarrow> host_event \<Rightarrow> declared" where
  "declare_event ignored t ev =
     (if he_type ev = ProviderResourceDelete then t(he_hostname ev := None)
      else if ignored (he_lid ev) then t
      else t(he_hostname ev \<mapsto> (he_lid ev, he_serviceName ev, he_externalPort ev)))"

lemma route_event_sel:
  "route_event E ev d op = (err, op') \<Longrightarrow> ho_leasesIgnored op' = ho_leasesIgnored op \<and>
     (\<forall>h. h \<noteq> he_hostname ev \<longrightarrow> ho_hostnames op' h = ho_hostnames op h)"
  by (auto simp: route_event_def Let_def split: if_splits prod.splits option.splits)

lemma applyEvent_refines:
  assumes "ho_applyEvent E now ev op = (None, op')"
  shows "abs_table op' = declare_event (IsFlagged (ho_leasesIgnored op)) (abs_table op) ev \<and> ho_leasesIgnored op' = ho_leasesIgnored op"
proof (cases "he_type ev = ProviderResourceDelete")
  case True
  then show ?thesis using assms
    by (auto simp: ho_applyEvent_def applyDeleteEvent_def declare_event_def abs_table_def fun_eq_iff split: prod.splits option.splits)
next
  case False
  show ?thesis
  proof (cases "IsFlagged (ho_leasesIgnored op) (he_lid ev)")
    case True
    then show ?thesis using assms False by (cases "he_type ev") (auto simp: ho_applyEvent_def declare_event_def)
  next
    case nf: False
    then have "applyAddOrUpdateEvent E now ev op = (None, op')"
      using assms False by (cases "he_type ev") (auto simp: ho_applyEvent_def ho_recordEventError_def split: prod.splits option.splits if_splits)
    then obtain x op1 where x: "route_event E ev (buildDirective ev x) op = (None, op1)"
        "op' = op1\<lparr>ho_hostnames := (ho_hostnames op1)(he_hostname ev \<mapsto>
                 \<lparr>mh_lastEvent = Some ev, mh_presentLease = he_lid ev, mh_presentServiceName = he_serviceName ev,
                  mh_presentExternalPort = he_externalPort ev, mh_lastChangeAt = now\<rparr>), ho_flagHostnames := True\<rparr>"
      by (auto simp: applyAddOrUpdateEvent_def split: sum.splits prod.splits option.splits)
    then show ?thesis using route_event_sel[OF x(1)] nf False
      by (auto simp: declare_event_def abs_table_def fun_eq_iff)
  qed
qed

lemma loop_refines:
  "host_loop E op (map (\<lambda>(ev, now). HiEvent ev now) evs) = (None, op') \<Longrightarrow>
   abs_table op' = foldl (declare_event (IsFlagged (ho_leasesIgnored op))) (abs_table op) (map fst evs)"
proof (induction evs arbitrary: op)
  case (Cons x evs)
  obtain ev now where x: "x = (ev, now)" by (cases x)
  obtain op1 where s: "ho_applyEvent E now ev op = (None, op1)" "host_loop E op1 (map (\<lambda>(ev, now). HiEvent ev now) evs) = (None, op')"
    using Cons.prems x by (auto split: prod.splits option.splits)
  then show ?case using Cons.IH[OF s(2)] applyEvent_refines[OF s(1)] x by simp
qed simp

text \<open>A whole round, and the start of the next one, over any backend that keeps its promise.\<close>

lemma round_ok:
  assumes "backend_ok (hv_backend E) ns obs clean" and "clean (ho_cluster op)" and "routes_proper ns (obs (ho_cluster op))"
    and "host_start E op = (None, op1)" and "round_deletes_holder E op1 is" and "ho_monitorUntilError E op is = (err, op2)"
  shows "op_ok ns obs op2 \<and> routes_proper ns (obs (ho_cluster op2))"
proof -
  have "op_ok ns obs op1" using start_ok[OF assms(1-4)] by blast
  then have "op_ok ns obs (snd (host_loop E op1 is))" using loop_ok[OF assms(1) _ assms(5)] by blast
  then show ?thesis using assms(4,6) table_ok_proper by (fastforce simp: ho_monitorUntilError_def)
qed

lemma restart_same:
  assumes "backend_ok (hv_backend E) ns obs clean" and "clean (ho_cluster op)" and "op_ok ns obs op" and "host_start E op = (None, op')"
  shows "abs_table op' = abs_table op"
proof
  fix h
  note s = start_ok[OF assms(1,2) table_ok_proper[OF assms(3)] assms(4)]
  have t': "table_ok ns (ho_hostnames op') (obs (ho_cluster op))" using s by metis
  show "abs_table op' h = abs_table op h"
  proof (cases "ho_hostnames op h")
    case None
    then have "ho_hostnames op' h = None"
      using table_okD(1)[OF t', of h] table_okD(2)[OF assms(3), of _ h] by (cases "ho_hostnames op' h") auto
    then show ?thesis using None by (simp add: abs_table_def)
  next
    case (Some e)
    note r = table_okD(1)[OF assms(3) Some]
    from table_okD(2)[OF t' r] obtain e' where e': "ho_hostnames op' h = Some e'" "ns (mh_presentLease e) = ns (mh_presentLease e')" by blast
    then have "entry_route h e' = entry_route h e" using table_okD(1)[OF t' e'(1)] r by simp
    then show ?thesis using Some e' by (simp add: abs_table_def entry_route_def)
  qed
qed

lemma delete_of_other:
  assumes "remove_ok (hv_backend E) ns obs" and "op_ok ns obs op" and "ho_hostnames op (he_hostname ev) = Some e"
    and "ns (mh_presentLease e) \<noteq> ns (he_lid ev)" and "he_type ev = ProviderResourceDelete" and "ho_applyEvent E now ev op = (None, op')"
  shows "ho_hostnames op' (he_hostname ev) = None \<and> obs (ho_cluster op') (ns (mh_presentLease e), he_hostname ev) = Some (entry_route (he_hostname ev) e)"
proof -
  obtain c where c: "bk_remove (hv_backend E) (he_hostname ev) (he_lid ev) True (ho_cluster op) = (None, c)"
      "op' = op\<lparr>ho_hostnames := (ho_hostnames op)(he_hostname ev := None), ho_flagHostnames := True, ho_cluster := c\<rparr>"
    using assms(5,6) by (auto simp: ho_applyEvent_def applyDeleteEvent_def split: prod.splits option.splits)
  show ?thesis using remove_okD(1)[OF assms(1) c(1), of "(ns (mh_presentLease e), he_hostname ev)"] assms(4)
      table_okD(1)[OF assms(2,3)] c(2) by simp
qed

section \<open>A lease that cannot be routed\<close>

text \<open>Adding a failure for a lease raises its counter, until it is flagged.\<close>

definition failures :: "'c hostnameOperator \<Rightarrow> lease_id \<Rightarrow> nat" where
  "failures op lid = (case il_entries (ho_leasesIgnored op) lid of None \<Rightarrow> 0 | Some e \<Rightarrow> unat (failureCount e))"

lemma flagged_failures: "0 < unat (FailureLimit (il_cfg (ho_leasesIgnored op))) \<Longrightarrow>
    IsFlagged (ho_leasesIgnored op) lid \<longleftrightarrow> unat (FailureLimit (il_cfg (ho_leasesIgnored op))) \<le> failures op lid"
  by (auto simp: IsFlagged_def failures_def word_le_nat_alt split: option.split)

lemma failing_event:
  assumes "hv_manifest E (hv_lidNS E (he_lid ev)) (ho_cluster op) = Inl (KNotFound m)"
    and "he_type ev \<in> {ProviderResourceAdd, ProviderResourceUpdate}" and "\<not> IsFlagged (ho_leasesIgnored op) (he_lid ev)"
  shows "ho_applyEvent E now ev op = (Some OpExpectedNotFound,
     op\<lparr>ho_leasesIgnored := AddError now (he_lid ev) ''not found'' [he_hostname ev] (ho_leasesIgnored op), ho_flagIgnored := True\<rparr>)"
  using assms by (cases "he_type ev") (auto simp: ho_applyEvent_def applyAddOrUpdateEvent_def locateServiceFromManifest_def getManifestGroup_def
      ho_recordEventError_def errorIsKubernetesResourceNotFound_def)

lemma failures_AddError:
  assumes "\<not> IsFlagged (ho_leasesIgnored op) lid"
  shows "failures (op\<lparr>ho_leasesIgnored := AddError now lid m ex (ho_leasesIgnored op), ho_flagIgnored := b\<rparr>) lid = Suc (failures op lid)"
proof (cases "il_entries (ho_leasesIgnored op) lid")
  case None
  then show ?thesis by (simp add: failures_def AddError_entries zero_entry_def)
next
  case (Some e)
  then have "failureCount e < FailureLimit (il_cfg (ho_leasesIgnored op))" using assms by (simp add: IsFlagged_def not_le)
  then have "unat (failureCount e) < unat (FailureLimit (il_cfg (ho_leasesIgnored op)))" by (simp add: word_less_nat_alt)
  then have "unat (failureCount e) + 1 < 2 ^ 64"
    using unsigned_less[where 'a = nat, of "FailureLimit (il_cfg (ho_leasesIgnored op))"] by simp
  then have "unat (failureCount e + 1) = Suc (unat (failureCount e))" by (simp add: unat_word_ariths(1))
  then show ?thesis using Some by (simp add: failures_def AddError_entries)
qed

text \<open>Applying the same failing event again and again, as the rounds of the operator do.\<close>

fun retry_event :: "'c host_env \<Rightarrow> host_event \<Rightarrow> int \<Rightarrow> nat \<Rightarrow> 'c hostnameOperator \<Rightarrow> 'c hostnameOperator" where
  "retry_event E ev now 0 op = op"
| "retry_event E ev now (Suc n) op = retry_event E ev now n (snd (ho_applyEvent E now ev op))"

lemma retry_flagged:
  assumes "\<forall>c. hv_manifest E (hv_lidNS E (he_lid ev)) c = Inl (KNotFound m)" and "he_type ev \<in> {ProviderResourceAdd, ProviderResourceUpdate}"
    and "0 < unat (FailureLimit (il_cfg (ho_leasesIgnored op)))"
    and "unat (FailureLimit (il_cfg (ho_leasesIgnored op))) \<le> failures op (he_lid ev) + n"
  shows "IsFlagged (ho_leasesIgnored (retry_event E ev now n op)) (he_lid ev)"
  using assms(3,4)
proof (induction n arbitrary: op)
  case 0
  then show ?case by (simp add: flagged_failures)
next
  case (Suc n)
  show ?case
  proof (cases "IsFlagged (ho_leasesIgnored op) (he_lid ev)")
    case True
    then have "snd (ho_applyEvent E now ev op) = op" using assms(2) by (auto simp: ho_applyEvent_def)
    moreover have "unat (FailureLimit (il_cfg (ho_leasesIgnored op))) \<le> failures op (he_lid ev)" using True Suc.prems(1) by (simp add: flagged_failures)
    ultimately show ?thesis using Suc.IH[of op] Suc.prems by simp
  next
    case False
    note f = failing_event[OF assms(1)[rule_format] assms(2) False, of now]
    show ?thesis using Suc.IH[of "snd (ho_applyEvent E now ev op)"] Suc.prems f failures_AddError[OF False] by simp
  qed
qed

section \<open>A cluster for the witnesses\<close>

text \<open>A cluster that is just its list of ingresses, with an API that never fails.\<close>

type_synonym ingress_list = "((string \<times> string) \<times> ingress) list"

definition list_api :: "ingress_list ingress_api" where
  "list_api = \<lparr>
     ia_get = (\<lambda>ns n c. case map_of c (ns, n) of None \<Rightarrow> Inl (KNotFound n) | Some i \<Rightarrow> Inr i),
     ia_update = (\<lambda>ns i c. (None, ((ns, ing_name i), i) # c)),
     ia_create = (\<lambda>ns i c. (None, ((ns, ing_name i), i) # c)),
     ia_delete = (\<lambda>ns sel n c. (None, case map_of c (ns, n) of None \<Rightarrow> c
        | Some i \<Rightarrow> if selects sel (ing_labels i) then filter (\<lambda>(k, _). k \<noteq> (ns, n)) c else c)),
     ia_list = (\<lambda>c. Inr (filter (\<lambda>i. ing_labels i AkashManagedLabelName = Some ''true'') (map (\<lambda>k. the (map_of c k)) (remdups (map fst c)))))\<rparr>"

lemma map_of_filter_key: "map_of (filter (\<lambda>(k, _). k \<noteq> a) c) = (map_of c)(a := None)"
  by (induction c) (auto simp: fun_eq_iff)

text \<open>The values of an association list, read through its keys.\<close>

lemma map_of_values: "(\<lambda>k. the (map_of c k)) ` fst ` set c = ran (map_of c)"
proof (intro equalityI subsetI)
  fix x assume "x \<in> (\<lambda>k. the (map_of c k)) ` fst ` set c"
  then obtain k where k: "k \<in> fst ` set c" "x = the (map_of c k)" by blast
  then obtain v where "map_of c k = Some v" by (metis map_of_eq_None_iff not_None_eq)
  then show "x \<in> ran (map_of c)" using k by (simp add: ranI)
next
  fix x assume "x \<in> ran (map_of c)"
  then obtain k where "map_of c k = Some x" by (auto simp: ran_def)
  then have "k \<in> fst ` set c" "x = the (map_of c k)" by (force dest: map_of_SomeD, simp)
  then show "x \<in> (\<lambda>k. the (map_of c k)) ` fst ` set c" by blast
qed

lemma list_api_ok: "ingress_api_ok list_api map_of"
proof -
  have d: "map_of (case map_of c (ns, n) of None \<Rightarrow> c | Some i \<Rightarrow> if selects sel (ing_labels i) then filter (\<lambda>(k, _). k \<noteq> (ns, n)) c else c) k =
      (case map_of c k of None \<Rightarrow> None | Some i \<Rightarrow> if k = (ns, n) \<and> selects sel (ing_labels i) then None else Some i)" for c ns n sel k
    by (auto simp: map_of_filter_key split: option.split)
  have w: "\<exists>v. (map_of c)((ns, ing_name i) \<mapsto> i) = (map_of c)((ns, ing_name i) \<mapsto> i\<lparr>ing_version := v\<rparr>)" for c :: ingress_list and ns i
    by (rule exI[of _ "ing_version i"]) simp
  have "writes_ok (ia_update list_api) map_of" "writes_ok (ia_create list_api) map_of"
    using w by (simp_all add: list_api_def writes_ok_def stored_def)
  moreover have "deletes_ok (ia_delete list_api) map_of"
    unfolding deletes_ok_def list_api_def by (simp add: d fun_eq_iff)
  moreover have "lists_ok (ia_list list_api) map_of"
    unfolding lists_ok_def list_api_def by (auto simp: map_of_values)
  ultimately show ?thesis by (simp add: ingress_api_ok_def)
qed

definition ex_hlid :: "u64 \<Rightarrow> lease_id" where
  "ex_hlid n = \<lparr>l_owner = ''akash1o'', l_dseq = n, l_gseq = 1, l_oseq = 1, l_provider = ''akash1p''\<rparr>"

definition ex_ns :: "lease_id \<Rightarrow> string" where
  "ex_ns l = itoa (unat (l_dseq l))"

definition ex_hgroup :: crd_group where
  "ex_hgroup = \<lparr>cg_Name = ''g'', cg_Services = [\<lparr>cs_Name = ''web'', cs_Image = ''img'', cs_Command = [], cs_Args = [], cs_Env = [],
     cs_Resources = \<lparr>cres_ID = 1, cres_CPU = \<lparr>cc_Units = 1, cc_Attributes = []\<rparr>, cres_GPU = \<lparr>cc_Units = 0, cc_Attributes = []\<rparr>,
       cres_Memory = \<lparr>cm_Size = ''1'', cm_Attributes = []\<rparr>, cres_Storage = []\<rparr>, cs_Count = 1,
     cs_Expose = [\<lparr>ce_Port = 80, ce_ExternalPort = 80, ce_Proto = ''TCP'', ce_Service = [], ce_Global = True, ce_Hosts = [],
       ce_HTTPOptions = \<lparr>ch_MaxBodySize = 0, ch_ReadTimeout = 0, ch_SendTimeout = 0, ch_NextTries = 0, ch_NextTimeout = 0, ch_NextCases = [],
         ch_ProxyBufferingDisable = False, ch_ProxyBufferSize = 0, ch_ProxyBuffersNumber = 0, ch_ProxyBuffersSize = 0,
         ch_ProxyBusyBuffersSize = 0, ch_ProxyConnectTimeout = 0\<rparr>, ce_IP = [], ce_EndpointSequenceNumber = 0\<rparr>],
     cs_Params = None, cs_SchedulerParams = None, cs_Credentials = None, cs_InterconnectGroup = []\<rparr>]\<rparr>"

definition ex_henv :: "ingress_list host_env" where
  "ex_henv = \<lparr>hv_backend = ingress_backend list_api ex_ns, hv_lidNS = ex_ns,
     hv_manifest = (\<lambda>n c. if n = ''9'' then Inl (KNotFound n) else Inr ex_hgroup), hv_externalPort = (\<lambda>p e. if e = 0 then p else e)\<rparr>"

definition ex_hop :: "ingress_list hostnameOperator" where
  "ex_hop = \<lparr>ho_hostnames = Map.empty, ho_leasesIgnored = NewIgnoreList \<lparr>FailureLimit = 3, EntryLimit = 10, AgeLimit = 100\<rparr>,
     ho_flagHostnames = False, ho_flagIgnored = False, ho_cluster = []\<rparr>"

definition ex_hev :: "resource_event \<Rightarrow> u64 \<Rightarrow> host_event" where
  "ex_hev t n = \<lparr>he_type = t, he_hostname = ''app.example.com'', he_lid = ex_hlid n, he_serviceName = ''web'', he_externalPort = 80\<rparr>"

section \<open>Properties\<close>

text \<open>What the example operator does with its events.\<close>

lemma ex_annotations: "\<exists>an. kubeNginxIngressAnnotations (buildDirective ev x) = Some an" if "ch_MaxBodySize (ce_HTTPOptions x) = 0"
  using that next_cases_text_None[of "[''error'', ''timeout'']"] by (auto simp: kubeNginxIngressAnnotations_def buildDirective_def Let_def)

lemma itoa_9: "itoa 9 = ''9''"
  by code_simp

lemma ex_locate: "n \<noteq> 9 \<Longrightarrow> locateServiceFromManifest ex_henv (ex_hlid n) ''web'' 80 c = Inr (hd (cs_Expose (hd (cg_Services ex_hgroup))))"
  using itoa_inj[of "unat n" 9]
  by (simp add: locateServiceFromManifest_def getManifestGroup_def ex_henv_def ex_ns_def ex_hlid_def ex_hgroup_def word_unat_eq_iff itoa_9)

lemma ex_connect: "\<exists>c'. connectHostnameToDeployment list_api ex_ns (buildDirective ev (hd (cs_Expose (hd (cg_Services ex_hgroup))))) c = (None, c')"
  using ex_annotations[of "hd (cs_Expose (hd (cg_Services ex_hgroup)))" ev]
  by (auto simp: connectHostnameToDeployment_def list_api_def ex_hgroup_def Let_def split: sum.split option.split)

lemma ex_remove: "\<exists>c'. removeHostnameFromDeployment list_api ex_ns h lid a c = (None, c')"
  by (auto simp: removeHostnameFromDeployment_def list_api_def)

lemma ex_apply:
  assumes "n \<noteq> 9" "t \<in> {ProviderResourceAdd, ProviderResourceUpdate}" "ho_leasesIgnored op = ho_leasesIgnored ex_hop"
  shows "\<exists>op'. ho_applyEvent ex_henv now (ex_hev t n) op = (None, op')"
proof -
  have nf: "\<not> IsFlagged (ho_leasesIgnored op) l" for l using assms(3) by (simp add: ex_hop_def IsFlagged_def NewIgnoreList_def)
  obtain x where x: "x = hd (cs_Expose (hd (cg_Services ex_hgroup)))" by blast
  have "\<exists>op'. route_event ex_henv (ex_hev t n) (buildDirective (ex_hev t n) x) op = (None, op')"
    unfolding route_event_def x Let_def
    using ex_connect[of "ex_hev t n"] ex_remove
    by (auto simp: ex_henv_def ingress_backend_def split: prod.split option.split) (metis option.distinct(1) prod.inject)+
  then show ?thesis using assms(2) nf ex_locate[OF assms(1)]
    by (auto simp: ho_applyEvent_def applyAddOrUpdateEvent_def ex_hev_def ho_recordEventError_def x split: prod.splits)
qed

definition ex_hround :: "host_input list" where
  "ex_hround = [HiEvent (ex_hev ProviderResourceAdd 1) 5, HiEvent (ex_hev ProviderResourceUpdate 2) 6, HiEvent (ex_hev ProviderResourceAdd 9) 7]"

lemma ex_hstart: "host_start ex_henv ex_hop = (None, ex_hop\<lparr>ho_flagHostnames := True\<rparr>)"
  by (simp add: host_start_def ex_henv_def ex_hop_def ingress_backend_def getHostnameDeploymentConnections_def list_api_def table_of_def)

lemma ex_empty: "ingress_obs map_of [] = Map.empty" "routes_proper ns Map.empty" "ingress_clean map_of []" "table_ok ns Map.empty Map.empty"
  by (simp_all add: ingress_obs_def fun_eq_iff routes_proper_def ingress_clean_def table_ok_def)

text \<open>As long as no event fails, the operator's table is exactly what the events declare, in their order: the last add or
  update of a hostname decides its lease, service and port, a delete removes it, and the events of flagged leases are
  skipped. This refines the table to a fold over the event sequence.\<close>

theorem hostnames_follow_declarations:
  assumes "host_loop E op (map (\<lambda>(ev, now). HiEvent ev now) evs) = (None, op')"
  shows "abs_table op' = foldl (declare_event (IsFlagged (ho_leasesIgnored op))) (abs_table op) (map fst evs)"
  using assms by (rule loop_refines)

theorem hostnames_follow_declarations_witness:
  "abs_table (snd (host_loop ex_henv ex_hop [HiEvent (ex_hev ProviderResourceAdd 1) 5, HiEvent (ex_hev ProviderResourceUpdate 2) 6])) ''app.example.com''
     = Some (ex_hlid 2, ''web'', 80)"
proof -
  obtain op' where "host_loop ex_henv ex_hop (map (\<lambda>(ev, now). HiEvent ev now) [(ex_hev ProviderResourceAdd 1, 5), (ex_hev ProviderResourceUpdate 2, 6)]) = (None, op')"
    using ex_apply[of 1 ProviderResourceAdd ex_hop 5] ex_apply[of 2 ProviderResourceUpdate _ 6] applyEvent_refines
    by (fastforce split: prod.split option.split)
  from hostnames_follow_declarations[OF this] this show ?thesis
    by (simp add: declare_event_def IsFlagged_def ex_hop_def NewIgnoreList_def ex_hev_def)
qed

text \<open>An operator that routes the example hostname to lease 1.\<close>

definition ex_hing :: ingress where
  "ex_hing = \<lparr>ing_name = ''app.example.com'', ing_labels = managed_labels (ex_hlid 1), ing_annotations = Map.empty,
     ing_class = akashIngressClassName, ing_rules = ingressRules ''app.example.com'' ''web'' 80, ing_version = []\<rparr>"

definition ex_hentry :: managedHostname where
  "ex_hentry = \<lparr>mh_lastEvent = None, mh_presentLease = ex_hlid 1, mh_presentServiceName = ''web'', mh_presentExternalPort = 80, mh_lastChangeAt = 0\<rparr>"

definition ex_hrouted :: "ingress_list hostnameOperator" where
  "ex_hrouted = ex_hop\<lparr>ho_hostnames := [''app.example.com'' \<mapsto> ex_hentry], ho_cluster := [((ex_ns (ex_hlid 1), ''app.example.com''), ex_hing)]\<rparr>"

lemma ex_hing_connection: "ingress_connection ex_hing = Inr (entry_route ''app.example.com'' ex_hentry)"
  by (simp add: ingress_connection_def ex_hing_def managed_labels_def ingressRules_def entry_route_def ex_hentry_def)

lemma ex_hrouted_ok: "table_ok ex_ns (ho_hostnames ex_hrouted) (ingress_obs map_of (ho_cluster ex_hrouted))"
    "ingress_clean map_of (ho_cluster ex_hrouted)"
proof -
  have l: "lease_labelled (ing_labels ex_hing)" by (simp add: ex_hing_def)
  then have "ingress_obs map_of (ho_cluster ex_hrouted) = [(ex_ns (ex_hlid 1), ''app.example.com'') \<mapsto> entry_route ''app.example.com'' ex_hentry]"
    by (simp add: ingress_obs_def ex_hrouted_def ex_hing_connection fun_eq_iff)
  then show "table_ok ex_ns (ho_hostnames ex_hrouted) (ingress_obs map_of (ho_cluster ex_hrouted))"
    by (simp add: table_ok_def ex_hrouted_def ex_hentry_def)
  show "ingress_clean map_of (ho_cluster ex_hrouted)" using l by (simp add: ingress_clean_def ex_hrouted_def)
qed

lemma ex_henv_backend: "hv_backend ex_henv = ingress_backend list_api ex_ns"
  by (simp add: ex_henv_def)

text \<open>An event whose manifest is not found fails and ends the round, but not for ever: after as many attempts as the failure limit the
  lease is flagged, the event is skipped and the round goes on.\<close>

theorem failing_lease_is_skipped:
  assumes "\<forall>c. hv_manifest E (hv_lidNS E (he_lid ev)) c = Inl (KNotFound m)" and "he_type ev \<in> {ProviderResourceAdd, ProviderResourceUpdate}"
    and "0 < unat (FailureLimit (il_cfg (ho_leasesIgnored op)))" and "unat (FailureLimit (il_cfg (ho_leasesIgnored op))) \<le> n"
  shows "ho_applyEvent E now' ev (retry_event E ev now n op) = (None, retry_event E ev now n op)"
  using retry_flagged[OF assms(1-3), of n now] assms(2,4) by (auto simp: ho_applyEvent_def)

theorem failing_lease_is_skipped_witness:
  "fst (ho_applyEvent ex_henv 9 (ex_hev ProviderResourceAdd 9) (retry_event ex_henv (ex_hev ProviderResourceAdd 9) 0 3 ex_hop)) = None"
  using failing_lease_is_skipped[of ex_henv "ex_hev ProviderResourceAdd 9" "''9''" ex_hop 3 9 0]
  by (simp add: ex_henv_def ex_hev_def ex_ns_def ex_hlid_def itoa_9 ex_hop_def NewIgnoreList_def)

end
