(* ===== verification/GatewayRoutes.thy ===== *)
theory GatewayRoutes
  imports HostnameOperator
begin

text \<open>
  The gateway backend of the hostname operator (cluster/kube/gateway/httproute.go and
  operator/hostname/operator_gateway.go): a hostname is an HTTPRoute, its options are a filter object
  owned by the route, and the route is published only after the gateway has accepted the filter.
  The dynamic client is a parameter; the answers it gives while the filter waits for acceptance are a list that
  ends with the time-out. Conversions between typed and unstructured objects do not fail.
\<close>

section \<open>Objects and calls\<close>

record http_route =
  hr_name :: string
  hr_labels :: labels
  hr_spec :: httpRouteSpec
  hr_uid :: string
  hr_version :: string

record extension =
  xt_filter :: snippets_filter
  xt_owner :: "string \<times> string"
  xt_version :: string

record 'c route_api =
  ra_get :: "string \<Rightarrow> string \<Rightarrow> 'c \<Rightarrow> kube_error + http_route"
  ra_create :: "string \<Rightarrow> http_route \<Rightarrow> 'c \<Rightarrow> (kube_error + http_route) \<times> 'c"
  ra_update :: "string \<Rightarrow> http_route \<Rightarrow> 'c \<Rightarrow> kube_error option \<times> 'c"
  ra_delete :: "string \<Rightarrow> string \<Rightarrow> 'c \<Rightarrow> kube_error option \<times> 'c"
  ra_list :: "'c \<Rightarrow> kube_error + http_route list"
  xa_get :: "string \<Rightarrow> string \<Rightarrow> 'c \<Rightarrow> kube_error + extension"
  xa_create :: "string \<Rightarrow> extension \<Rightarrow> 'c \<Rightarrow> (kube_error + int) \<times> 'c"
  xa_update :: "string \<Rightarrow> extension \<Rightarrow> 'c \<Rightarrow> (kube_error + int) \<times> 'c"
  xa_polls :: "string \<Rightarrow> string \<Rightarrow> 'c \<Rightarrow> (kube_error + json) list"

section \<open>Applying a route\<close>

text \<open>The poll ends at the first accepted answer, at the first error or with the list, which is the time-out.\<close>

fun waitForExtensionAccepted :: "int \<Rightarrow> (kube_error + json) list \<Rightarrow> kube_error option" where
  "waitForExtensionAccepted generation [] = Some (KError ''context deadline exceeded'')"
| "waitForExtensionAccepted generation (Inl e # _) = Some e"
| "waitForExtensionAccepted generation (Inr obj # rs) =
     (if extensionAccepted obj generation then None else waitForExtensionAccepted generation rs)"

definition apply_extension :: "'c route_api \<Rightarrow> string \<Rightarrow> extension \<Rightarrow> 'c \<Rightarrow> (kube_error + int) \<times> 'c" where
  "apply_extension A ns ext c =
     (case xa_get A ns (sf_name (xt_filter ext)) c of
        Inr existing \<Rightarrow> xa_update A ns (ext\<lparr>xt_version := xt_version existing\<rparr>) c
      | Inl e \<Rightarrow> if IsNotFound e then xa_create A ns ext c else (Inl e, c))"

fun applyRouteExtensions :: "'c route_api \<Rightarrow> string \<Rightarrow> string \<Rightarrow> string \<Rightarrow> snippets_filter list \<Rightarrow> 'c \<Rightarrow> op_error option \<times> 'c" where
  "applyRouteExtensions A ns routeName ownerUID [] c = (None, c)"
| "applyRouteExtensions A ns routeName ownerUID (sf # exts) c =
     (case apply_extension A ns \<lparr>xt_filter = sf, xt_owner = (routeName, ownerUID), xt_version = []\<rparr> c of
        (Inl e, c') \<Rightarrow> (Some (OpWrapped ''failed to apply route extension'' e), c')
      | (Inr generation, c') \<Rightarrow>
         (case waitForExtensionAccepted generation (xa_polls A ns (sf_name sf) c') of
            Some e \<Rightarrow> (Some (OpWrapped ''route extension not accepted by the gateway'' e), c')
          | None \<Rightarrow> applyRouteExtensions A ns routeName ownerUID exts c'))"

text \<open>\<open>retry.RetryOnConflict\<close> with the default back-off: up to five attempts while the error is a conflict.\<close>

fun retry_on_conflict :: "nat \<Rightarrow> ('c \<Rightarrow> kube_error option \<times> 'c) \<Rightarrow> 'c \<Rightarrow> kube_error option \<times> 'c" where
  "retry_on_conflict 0 f c = (None, c)"
| "retry_on_conflict (Suc n) f c =
     (case f c of (Some (KConflict s), c') \<Rightarrow> if n = 0 then (Some (KConflict s), c') else retry_on_conflict n f c' | r \<Rightarrow> r)"

definition publish_route :: "'c route_api \<Rightarrow> string \<Rightarrow> http_route \<Rightarrow> 'c \<Rightarrow> kube_error option \<times> 'c" where
  "publish_route A ns u c =
     (case ra_get A ns (hr_name u) c of
        Inl e \<Rightarrow> (Some e, c)
      | Inr route \<Rightarrow> ra_update A ns (u\<lparr>hr_version := hr_version route\<rparr>) c)"

definition CreateOrUpdateHTTPRoute ::
  "'c route_api \<Rightarrow> (lease_id \<Rightarrow> string) \<Rightarrow> string \<Rightarrow> string \<Rightarrow> directive \<Rightarrow> 'c \<Rightarrow> op_error option \<times> 'c" where
  "CreateOrUpdateHTTPRoute A lidNS gatewayName gatewayNamespace d c =
     (let routeName = d_Hostname d;
          ns = lidNS (d_LeaseID d);
          exts = BuildRouteExtensions ns routeName d;
          spec = BuildHTTPRouteSpec gatewayName gatewayNamespace (d_Hostname d) (d_ServiceName d) (d_ServicePort d) exts;
          obj = (\<lambda>s. \<lparr>hr_name = routeName, hr_labels = managed_labels (d_LeaseID d), hr_spec = s, hr_uid = [], hr_version = []\<rparr>);
          finish = (\<lambda>uid c. case applyRouteExtensions A ns routeName uid exts c of
              (Some e, c') \<Rightarrow> (Some e, c')
            | (None, c') \<Rightarrow> (case retry_on_conflict 5 (publish_route A ns (obj spec)) c' of (e, c'') \<Rightarrow> (map_option OpKube e, c'')))
      in case ra_get A ns routeName c of
           Inr existing \<Rightarrow> finish (hr_uid existing) c
         | Inl getErr \<Rightarrow>
             if \<not> IsNotFound getErr then (Some (OpKube getErr), c)
             else if exts \<noteq> [] then
               (case ra_create A ns (obj empty_spec) c of
                  (Inl e, c') \<Rightarrow> (Some (OpKube e), c')
                | (Inr created, c') \<Rightarrow> finish (hr_uid created) c')
             else
               (case ra_create A ns (obj spec) c of
                  (Inl e, c') \<Rightarrow> (Some (OpKube e), c')
                | (Inr _, c') \<Rightarrow> (None, c')))"

definition DeleteHTTPRoute :: "'c route_api \<Rightarrow> string \<Rightarrow> string \<Rightarrow> bool \<Rightarrow> 'c \<Rightarrow> op_error option \<times> 'c" where
  "DeleteHTTPRoute A namespace hostname allowMissing c =
     (case ra_delete A namespace hostname c of
        (None, c') \<Rightarrow> (None, c')
      | (Some e, c') \<Rightarrow> if allowMissing \<and> IsNotFound e then (None, c') else (Some (OpKube e), c'))"

text \<open>A route without a hostname, a rule or a backend port is left out of the list.\<close>

definition route_connection :: "http_route \<Rightarrow> op_error + connection option" where
  "route_connection route =
     (case RecoverLeaseIDFromLabels (hr_labels route) of Inl e \<Rightarrow> Inl (OpLabels e) | Inr lid \<Rightarrow>
      (case (rs_hostnames (hr_spec route), rs_rules (hr_spec route)) of
         (h # _, rule # _) \<Rightarrow>
           (case rr_backends rule of
              (service, Some port) # _ \<Rightarrow> Inr (Some \<lparr>co_LeaseID = lid, co_Hostname = h, co_ExternalPort = port, co_ServiceName = service\<rparr>)
            | _ \<Rightarrow> Inr None)
       | _ \<Rightarrow> Inr None))"

definition ListHTTPRouteConnections :: "'c route_api \<Rightarrow> 'c \<Rightarrow> op_error + connection list" where
  "ListHTTPRouteConnections A c =
     (case ra_list A c of Inl e \<Rightarrow> Inl (OpKube e)
      | Inr rs \<Rightarrow> map_sum (\<lambda>e. e) (List.map_filter (\<lambda>x. x)) (each_item route_connection rs))"

definition gateway_backend :: "'c route_api \<Rightarrow> (lease_id \<Rightarrow> string) \<Rightarrow> string \<Rightarrow> string \<Rightarrow> 'c backend" where
  "gateway_backend A lidNS gatewayName gatewayNamespace =
     \<lparr>bk_connect = CreateOrUpdateHTTPRoute A lidNS gatewayName gatewayNamespace,
      bk_remove = (\<lambda>hostname lid allowMissing. DeleteHTTPRoute A (lidNS lid) hostname allowMissing),
      bk_list = ListHTTPRouteConnections A\<rparr>"

text \<open>The operator chooses its backend by the ingress mode.\<close>

datatype ingress_mode = IngressModeIngress | IngressModeGateway

definition operator_backend ::
  "ingress_mode \<Rightarrow> 'c ingress_api \<Rightarrow> 'c route_api \<Rightarrow> (lease_id \<Rightarrow> string) \<Rightarrow> string \<Rightarrow> string \<Rightarrow> 'c backend" where
  "operator_backend mode I A lidNS gatewayName gatewayNamespace =
     (case mode of IngressModeGateway \<Rightarrow> gateway_backend A lidNS gatewayName gatewayNamespace
      | IngressModeIngress \<Rightarrow> ingress_backend I lidNS)"

section \<open>What is documented of the calls\<close>

type_synonym 'a objects = "string \<times> string \<rightharpoonup> 'a"

definition route_reads_ok :: "'c route_api \<Rightarrow> ('c \<Rightarrow> http_route objects) \<Rightarrow> bool" where
  "route_reads_ok A store \<longleftrightarrow>
     (\<forall>ns n c. case ra_get A ns n c of Inr r \<Rightarrow> store c (ns, n) = Some r | Inl e \<Rightarrow> IsNotFound e \<longrightarrow> store c (ns, n) = None) \<and>
     (\<forall>c rs. ra_list A c = Inr rs \<longrightarrow> set rs = {r \<in> ran (store c). hr_labels r AkashManagedLabelName = Some ''true''})"

definition route_creates_ok :: "'c route_api \<Rightarrow> ('c \<Rightarrow> http_route objects) \<Rightarrow> ('c \<Rightarrow> extension objects) \<Rightarrow> bool" where
  "route_creates_ok A store xstore \<longleftrightarrow> (\<forall>ns r c. case ra_create A ns r c of
     (Inr r', c') \<Rightarrow> store c (ns, hr_name r) = None \<and> (\<exists>u v. r' = r\<lparr>hr_uid := u, hr_version := v\<rparr>) \<and>
        store c' = (store c)((ns, hr_name r) \<mapsto> r') \<and> xstore c' = xstore c
   | (Inl _, c') \<Rightarrow> store c' = store c \<and> xstore c' = xstore c)"

definition route_updates_ok :: "'c route_api \<Rightarrow> ('c \<Rightarrow> http_route objects) \<Rightarrow> ('c \<Rightarrow> extension objects) \<Rightarrow> bool" where
  "route_updates_ok A store xstore \<longleftrightarrow> (\<forall>ns r c. case ra_update A ns r c of
     (None, c') \<Rightarrow> (\<exists>old v. store c (ns, hr_name r) = Some old \<and>
        store c' = (store c)((ns, hr_name r) \<mapsto> r\<lparr>hr_uid := hr_uid old, hr_version := v\<rparr>)) \<and> xstore c' = xstore c
   | (Some _, c') \<Rightarrow> store c' = store c \<and> xstore c' = xstore c)"

definition route_deletes_ok :: "'c route_api \<Rightarrow> ('c \<Rightarrow> http_route objects) \<Rightarrow> bool" where
  "route_deletes_ok A store \<longleftrightarrow> (\<forall>ns n c. case ra_delete A ns n c of
     (None, c') \<Rightarrow> store c' = (store c)((ns, n) := None)
   | (Some e, c') \<Rightarrow> store c' = store c \<and> (IsNotFound e \<longrightarrow> store c (ns, n) = None))"

definition extension_writes_ok :: "(string \<Rightarrow> extension \<Rightarrow> 'c \<Rightarrow> (kube_error + int) \<times> 'c) \<Rightarrow> ('c \<Rightarrow> http_route objects) \<Rightarrow> ('c \<Rightarrow> extension objects) \<Rightarrow> bool" where
  "extension_writes_ok W store xstore \<longleftrightarrow> (\<forall>ns x c. case W ns x c of
     (Inr g, c') \<Rightarrow> store c' = store c \<and> (\<exists>v. xstore c' = (xstore c)((ns, sf_name (xt_filter x)) \<mapsto> x\<lparr>xt_version := v\<rparr>))
   | (Inl _, c') \<Rightarrow> store c' = store c \<and> xstore c' = xstore c)"

definition route_api_ok :: "'c route_api \<Rightarrow> ('c \<Rightarrow> http_route objects) \<Rightarrow> ('c \<Rightarrow> extension objects) \<Rightarrow> bool" where
  "route_api_ok A store xstore \<longleftrightarrow> route_reads_ok A store \<and> route_creates_ok A store xstore \<and>
     route_updates_ok A store xstore \<and> route_deletes_ok A store \<and>
     extension_writes_ok (xa_create A) store xstore \<and> extension_writes_ok (xa_update A) store xstore"

section \<open>The calls one by one\<close>

lemma route_getD:
  assumes "route_api_ok A store xstore"
  shows "ra_get A ns n c = Inr r \<Longrightarrow> store c (ns, n) = Some r" "ra_get A ns n c = Inl e \<Longrightarrow> IsNotFound e \<Longrightarrow> store c (ns, n) = None"
  using assms unfolding route_api_ok_def route_reads_ok_def by (auto split: sum.splits)

lemma route_listD:
  assumes "route_api_ok A store xstore"
  shows "ra_list A c = Inr rs \<Longrightarrow> set rs = {r \<in> ran (store c). hr_labels r AkashManagedLabelName = Some ''true''}"
  using assms unfolding route_api_ok_def route_reads_ok_def by blast

lemma route_createD:
  assumes "route_api_ok A store xstore"
  shows "ra_create A ns r c = (Inr r', c') \<Longrightarrow> store c (ns, hr_name r) = None \<and> (\<exists>u v. r' = r\<lparr>hr_uid := u, hr_version := v\<rparr>) \<and>
      store c' = (store c)((ns, hr_name r) \<mapsto> r') \<and> xstore c' = xstore c"
    "ra_create A ns r c = (Inl e, c') \<Longrightarrow> store c' = store c \<and> xstore c' = xstore c"
proof -
  have "route_creates_ok A store xstore" using assms by (simp add: route_api_ok_def)
  note w = this[unfolded route_creates_ok_def, THEN spec[of _ ns], THEN spec[of _ r], THEN spec[of _ c]]
  show "ra_create A ns r c = (Inr r', c') \<Longrightarrow> store c (ns, hr_name r) = None \<and> (\<exists>u v. r' = r\<lparr>hr_uid := u, hr_version := v\<rparr>) \<and>
      store c' = (store c)((ns, hr_name r) \<mapsto> r') \<and> xstore c' = xstore c"
    "ra_create A ns r c = (Inl e, c') \<Longrightarrow> store c' = store c \<and> xstore c' = xstore c"
    using w by simp_all
qed

lemma route_updateD:
  assumes "route_api_ok A store xstore"
  shows "ra_update A ns r c = (None, c') \<Longrightarrow> (\<exists>old v. store c (ns, hr_name r) = Some old \<and>
           store c' = (store c)((ns, hr_name r) \<mapsto> r\<lparr>hr_uid := hr_uid old, hr_version := v\<rparr>)) \<and> xstore c' = xstore c"
    "ra_update A ns r c = (Some e, c') \<Longrightarrow> store c' = store c \<and> xstore c' = xstore c"
proof -
  have "route_updates_ok A store xstore" using assms by (simp add: route_api_ok_def)
  note w = this[unfolded route_updates_ok_def, THEN spec[of _ ns], THEN spec[of _ r], THEN spec[of _ c]]
  show "ra_update A ns r c = (None, c') \<Longrightarrow> (\<exists>old v. store c (ns, hr_name r) = Some old \<and>
           store c' = (store c)((ns, hr_name r) \<mapsto> r\<lparr>hr_uid := hr_uid old, hr_version := v\<rparr>)) \<and> xstore c' = xstore c"
    "ra_update A ns r c = (Some e, c') \<Longrightarrow> store c' = store c \<and> xstore c' = xstore c"
    using w by simp_all
qed

lemma route_deleteD:
  assumes "route_api_ok A store xstore"
  shows "ra_delete A ns n c = (None, c') \<Longrightarrow> store c' = (store c)((ns, n) := None)"
    "ra_delete A ns n c = (Some e, c') \<Longrightarrow> store c' = store c \<and> (IsNotFound e \<longrightarrow> store c (ns, n) = None)"
proof -
  have "route_deletes_ok A store" using assms by (simp add: route_api_ok_def)
  note w = this[unfolded route_deletes_ok_def, THEN spec[of _ ns], THEN spec[of _ n], THEN spec[of _ c]]
  show "ra_delete A ns n c = (None, c') \<Longrightarrow> store c' = (store c)((ns, n) := None)"
    "ra_delete A ns n c = (Some e, c') \<Longrightarrow> store c' = store c \<and> (IsNotFound e \<longrightarrow> store c (ns, n) = None)"
    using w by simp_all
qed

lemma extension_writeD:
  assumes "extension_writes_ok W store xstore"
  shows "W ns x c = (Inr g, c') \<Longrightarrow> store c' = store c \<and> (\<exists>v. xstore c' = (xstore c)((ns, sf_name (xt_filter x)) \<mapsto> x\<lparr>xt_version := v\<rparr>))"
    "W ns x c = (Inl e, c') \<Longrightarrow> store c' = store c \<and> xstore c' = xstore c"
  using assms[unfolded extension_writes_ok_def, THEN spec[of _ ns], THEN spec[of _ x], THEN spec[of _ c]] by simp_all

lemma apply_extension_ok:
  assumes "route_api_ok A store xstore"
  shows "apply_extension A ns x c = (Inr g, c') \<Longrightarrow> store c' = store c \<and> (\<exists>v. xstore c' = (xstore c)((ns, sf_name (xt_filter x)) \<mapsto> x\<lparr>xt_version := v\<rparr>))"
    "apply_extension A ns x c = (Inl e, c') \<Longrightarrow> store c' = store c \<and> xstore c' = xstore c"
proof -
  have W: "extension_writes_ok (xa_create A) store xstore" "extension_writes_ok (xa_update A) store xstore"
    using assms by (simp_all add: route_api_ok_def)
  have e: "apply_extension A ns x c = (case xa_get A ns (sf_name (xt_filter x)) c of
      Inr existing \<Rightarrow> xa_update A ns (x\<lparr>xt_version := xt_version existing\<rparr>) c
    | Inl e \<Rightarrow> if IsNotFound e then xa_create A ns x c else (Inl e, c))" by (simp add: apply_extension_def)
  note u = extension_writeD[OF W(2), of ns "x\<lparr>xt_version := v\<rparr>" c for v]
  show "apply_extension A ns x c = (Inr g, c') \<Longrightarrow> store c' = store c \<and> (\<exists>v. xstore c' = (xstore c)((ns, sf_name (xt_filter x)) \<mapsto> x\<lparr>xt_version := v\<rparr>))"
    unfolding e using extension_writeD(1)[OF W(1), of ns x c g c'] u(1)[of _ g c']
    by (cases "xa_get A ns (sf_name (xt_filter x)) c") (simp_all split: if_splits)
  show "apply_extension A ns x c = (Inl e, c') \<Longrightarrow> store c' = store c \<and> xstore c' = xstore c"
    unfolding e using extension_writeD(2)[OF W(1), of ns x c e c'] u(2)[of _ e c']
    by (cases "xa_get A ns (sf_name (xt_filter x)) c") (auto split: if_splits)
qed

lemma wait_accepted: "waitForExtensionAccepted g ps = None \<Longrightarrow> \<exists>obj. Inr obj \<in> set ps \<and> extensionAccepted obj g"
  by (induction g ps rule: waitForExtensionAccepted.induct) (auto split: if_splits)

text \<open>Applying the extensions leaves the routes alone.\<close>

lemma extensions_store:
  assumes "route_api_ok A store xstore"
  shows "store (snd (applyRouteExtensions A ns n uid exts c)) = store c"
proof (induction exts arbitrary: c)
  case (Cons sf exts)
  show ?case
    using apply_extension_ok[OF assms, of ns "\<lparr>xt_filter = sf, xt_owner = (n, uid), xt_version = []\<rparr>" c] Cons
    by (auto split: prod.split sum.split option.split)
qed simp

text \<open>A filter that the gateway has seen: stored for its route, with an answer that accepts its generation.\<close>

definition filter_accepted :: "'c route_api \<Rightarrow> string \<Rightarrow> string \<Rightarrow> string \<Rightarrow> snippets_filter \<Rightarrow> bool" where
  "filter_accepted A ns n uid sf \<longleftrightarrow> (\<exists>c g c' obj. apply_extension A ns \<lparr>xt_filter = sf, xt_owner = (n, uid), xt_version = []\<rparr> c = (Inr g, c') \<and>
     Inr obj \<in> set (xa_polls A ns (sf_name sf) c') \<and> extensionAccepted obj g)"

definition filter_in_place :: "'c route_api \<Rightarrow> extension objects \<Rightarrow> string \<Rightarrow> string \<Rightarrow> string \<Rightarrow> snippets_filter \<Rightarrow> bool" where
  "filter_in_place A xs ns n uid sf \<longleftrightarrow>
     (\<exists>v. xs (ns, sf_name sf) = Some \<lparr>xt_filter = sf, xt_owner = (n, uid), xt_version = v\<rparr>) \<and> filter_accepted A ns n uid sf"

lemma extensions_in_place:
  assumes "route_api_ok A store xstore" and "applyRouteExtensions A ns n uid exts c = (None, c')" and "length exts \<le> 1"
  shows "\<forall>sf \<in> set exts. filter_in_place A (xstore c') ns n uid sf"
proof (cases exts)
  case (Cons sf rest)
  then have e: "exts = [sf]" using assms(3) by simp
  obtain g where a: "apply_extension A ns \<lparr>xt_filter = sf, xt_owner = (n, uid), xt_version = []\<rparr> c = (Inr g, c')"
      "waitForExtensionAccepted g (xa_polls A ns (sf_name sf) c') = None"
    using assms(2) by (auto simp: e split: prod.splits sum.splits option.splits)
  from apply_extension_ok(1)[OF assms(1) a(1)] wait_accepted[OF a(2)] a(1) show ?thesis
    unfolding e filter_in_place_def filter_accepted_def by auto
qed simp

lemma extensions_short: "length (BuildRouteExtensions ns n d) \<le> 1"
  by (simp add: BuildRouteExtensions_def Let_def)

lemma publish_ok:
  assumes "route_api_ok A store xstore"
  shows "publish_route A ns u c = (None, c') \<Longrightarrow> (\<exists>old v. store c (ns, hr_name u) = Some old \<and>
           store c' = (store c)((ns, hr_name u) \<mapsto> u\<lparr>hr_uid := hr_uid old, hr_version := v\<rparr>)) \<and> xstore c' = xstore c"
    "publish_route A ns u c = (Some e, c') \<Longrightarrow> store c' = store c \<and> xstore c' = xstore c"
  using route_updateD[OF assms, of ns "u\<lparr>hr_version := v\<rparr>" c for v] by (auto simp: publish_route_def split: sum.splits)

lemma retry_keeps:
  assumes "\<And>c c'. f c = (None, c') \<Longrightarrow> P c c'" and "\<And>c c' e. f c = (Some e, c') \<Longrightarrow> Q c c'"
    and "\<And>c1 c2 c3. Q c1 c2 \<Longrightarrow> P c2 c3 \<Longrightarrow> P c1 c3" and "\<And>c1 c2 c3. Q c1 c2 \<Longrightarrow> Q c2 c3 \<Longrightarrow> Q c1 c3"
  shows "retry_on_conflict (Suc n) f c = (e, c') \<Longrightarrow> (case e of None \<Rightarrow> P c c' | Some _ \<Rightarrow> Q c c')"
proof (induction n arbitrary: c)
  case 0
  then show ?case using assms(1,2)[of c] by (auto split: prod.splits option.splits kube_error.splits)
next
  case (Suc n)
  obtain e1 c1 where f: "f c = (e1, c1)" by fastforce
  show ?case
  proof (cases "\<exists>s. e1 = Some (KConflict s)")
    case True
    then have "retry_on_conflict (Suc n) f c1 = (e, c')" using Suc.prems f by auto
    from Suc.IH[OF this] show ?thesis using assms(2)[of c] assms(3,4)[of c c1 c'] f True by (auto split: option.splits)
  next
    case False
    then have "(e, c') = (e1, c1)" using Suc.prems f by (auto split: option.splits kube_error.splits)
    then show ?thesis using assms(1,2)[of c] f by (auto split: option.splits)
  qed
qed

lemma retry_publish:
  assumes "route_api_ok A store xstore" and "retry_on_conflict 5 (publish_route A ns u) c = (e, c')"
  shows "case e of None \<Rightarrow> (\<exists>old v. store c (ns, hr_name u) = Some old \<and>
           store c' = (store c)((ns, hr_name u) \<mapsto> u\<lparr>hr_uid := hr_uid old, hr_version := v\<rparr>)) \<and> xstore c' = xstore c
    | Some _ \<Rightarrow> store c' = store c \<and> xstore c' = xstore c"
proof -
  have r: "retry_on_conflict (Suc 4) (publish_route A ns u) c = (e, c')" using assms(2) by (simp add: numeral_eq_Suc)
  show ?thesis
    by (rule retry_keeps[where P = "\<lambda>c c'. (\<exists>old v. store c (ns, hr_name u) = Some old \<and>
           store c' = (store c)((ns, hr_name u) \<mapsto> u\<lparr>hr_uid := hr_uid old, hr_version := v\<rparr>)) \<and> xstore c' = xstore c"
        and Q = "\<lambda>c c'. store c' = store c \<and> xstore c' = xstore c", OF publish_ok[OF assms(1)] _ _ r]) simp_all
qed

section \<open>Creating or updating a route\<close>

definition gateway_spec :: "(lease_id \<Rightarrow> string) \<Rightarrow> string \<Rightarrow> string \<Rightarrow> directive \<Rightarrow> httpRouteSpec" where
  "gateway_spec lidNS gw gwns d =
     BuildHTTPRouteSpec gw gwns (d_Hostname d) (d_ServiceName d) (d_ServicePort d) (BuildRouteExtensions (lidNS (d_LeaseID d)) (d_Hostname d) d)"

definition route_object :: "directive \<Rightarrow> httpRouteSpec \<Rightarrow> string \<Rightarrow> string \<Rightarrow> http_route" where
  "route_object d spec uid v = \<lparr>hr_name = d_Hostname d, hr_labels = managed_labels (d_LeaseID d), hr_spec = spec, hr_uid = uid, hr_version = v\<rparr>"

lemma route_object_sel [simp]: "hr_name (route_object d s u v) = d_Hostname d" "hr_uid (route_object d s u v) = u"
  "(route_object d s u v)\<lparr>hr_uid := u', hr_version := v'\<rparr> = route_object d s u' v'" "(route_object d s u v)\<lparr>hr_version := v'\<rparr> = route_object d s u v'"
  by (simp_all add: route_object_def)

text \<open>The part after the owner is known: filters first, then the route.\<close>

definition finish_route :: "'c route_api \<Rightarrow> (lease_id \<Rightarrow> string) \<Rightarrow> string \<Rightarrow> string \<Rightarrow> directive \<Rightarrow> string \<Rightarrow> 'c \<Rightarrow> op_error option \<times> 'c" where
  "finish_route A lidNS gw gwns d uid c =
     (case applyRouteExtensions A (lidNS (d_LeaseID d)) (d_Hostname d) uid (BuildRouteExtensions (lidNS (d_LeaseID d)) (d_Hostname d) d) c of
        (Some e, c') \<Rightarrow> (Some e, c')
      | (None, c') \<Rightarrow> (case retry_on_conflict 5 (publish_route A (lidNS (d_LeaseID d)) (route_object d (gateway_spec lidNS gw gwns d) [] [])) c' of
           (e, c'') \<Rightarrow> (map_option OpKube e, c'')))"

lemma CreateOrUpdate_finish:
  "CreateOrUpdateHTTPRoute A lidNS gw gwns d c =
     (let ns = lidNS (d_LeaseID d); exts = BuildRouteExtensions ns (d_Hostname d) d in
      case ra_get A ns (d_Hostname d) c of
        Inr existing \<Rightarrow> finish_route A lidNS gw gwns d (hr_uid existing) c
      | Inl getErr \<Rightarrow>
          if \<not> IsNotFound getErr then (Some (OpKube getErr), c)
          else if exts \<noteq> [] then
            (case ra_create A ns (route_object d empty_spec [] []) c of
               (Inl e, c') \<Rightarrow> (Some (OpKube e), c') | (Inr created, c') \<Rightarrow> finish_route A lidNS gw gwns d (hr_uid created) c')
          else
            (case ra_create A ns (route_object d (gateway_spec lidNS gw gwns d) [] []) c of
               (Inl e, c') \<Rightarrow> (Some (OpKube e), c') | (Inr _, c') \<Rightarrow> (None, c')))"
  unfolding CreateOrUpdateHTTPRoute_def finish_route_def gateway_spec_def route_object_def Let_def by (rule refl)

lemma finish_ok:
  assumes "route_api_ok A store xstore" and "finish_route A lidNS gw gwns d uid c = (e, c')"
    and "store c (lidNS (d_LeaseID d), d_Hostname d) = Some r" and "hr_uid r = uid"
  shows "case e of
      None \<Rightarrow> (\<exists>v. store c' = (store c)((lidNS (d_LeaseID d), d_Hostname d) \<mapsto> route_object d (gateway_spec lidNS gw gwns d) uid v)) \<and>
        (\<forall>sf \<in> set (BuildRouteExtensions (lidNS (d_LeaseID d)) (d_Hostname d) d). filter_in_place A (xstore c') (lidNS (d_LeaseID d)) (d_Hostname d) uid sf)
    | Some _ \<Rightarrow> store c' = store c"
proof -
  let ?ns = "lidNS (d_LeaseID d)" and ?exts = "BuildRouteExtensions (lidNS (d_LeaseID d)) (d_Hostname d) d"
  obtain e1 c1 where a: "applyRouteExtensions A ?ns (d_Hostname d) uid ?exts c = (e1, c1)" by fastforce
  have s1: "store c1 = store c" using extensions_store[OF assms(1), of ?ns "d_Hostname d" uid ?exts c] a by simp
  show ?thesis
  proof (cases e1)
    case None
    obtain e2 c2 where p: "retry_on_conflict 5 (publish_route A ?ns (route_object d (gateway_spec lidNS gw gwns d) [] [])) c1 = (e2, c2)" by fastforce
    have "e = map_option OpKube e2" "c' = c2" using assms(2) a None p by (simp_all add: finish_route_def)
    then show ?thesis
      using retry_publish[OF assms(1) p] s1 assms(3,4) extensions_in_place[OF assms(1) a[unfolded None] extensions_short]
      by (cases e2) auto
  next
    case (Some x)
    then show ?thesis using assms(2) a s1 by (auto simp: finish_route_def)
  qed
qed

lemma CreateOrUpdate_ok:
  assumes "route_api_ok A store xstore" and "CreateOrUpdateHTTPRoute A lidNS gw gwns d c = (e, c')"
  shows "case e of
      None \<Rightarrow> \<exists>uid v. store c' = (store c)((lidNS (d_LeaseID d), d_Hostname d) \<mapsto> route_object d (gateway_spec lidNS gw gwns d) uid v) \<and>
        (\<forall>sf \<in> set (BuildRouteExtensions (lidNS (d_LeaseID d)) (d_Hostname d) d). filter_in_place A (xstore c') (lidNS (d_LeaseID d)) (d_Hostname d) uid sf)
    | Some _ \<Rightarrow> store c' = store c \<or>
        (store c (lidNS (d_LeaseID d), d_Hostname d) = None \<and>
         (\<exists>uid v. store c' = (store c)((lidNS (d_LeaseID d), d_Hostname d) \<mapsto> route_object d empty_spec uid v)))"
proof (cases "ra_get A (lidNS (d_LeaseID d)) (d_Hostname d) c")
  case (Inr r)
  then have "finish_route A lidNS gw gwns d (hr_uid r) c = (e, c')" using assms(2) by (simp add: CreateOrUpdate_finish Let_def)
  from finish_ok[OF assms(1) this route_getD(1)[OF assms(1) Inr] refl] show ?thesis by (auto split: option.splits)
next
  case (Inl ge)
  let ?ns = "lidNS (d_LeaseID d)" and ?exts = "BuildRouteExtensions (lidNS (d_LeaseID d)) (d_Hostname d) d"
  consider "\<not> IsNotFound ge" | "IsNotFound ge" "?exts = []" | "IsNotFound ge" "?exts \<noteq> []" by blast
  then show ?thesis
  proof cases
    case 1
    then show ?thesis using assms(2) Inl by (auto simp: CreateOrUpdate_finish Let_def)
  next
    case 2
    then show ?thesis
      using assms(2) Inl route_createD[OF assms(1), of ?ns "route_object d (gateway_spec lidNS gw gwns d) [] []" c]
      by (auto simp: CreateOrUpdate_finish Let_def split: prod.splits sum.splits)
  next
    case 3
    obtain rc c1 where cr: "ra_create A ?ns (route_object d empty_spec [] []) c = (rc, c1)" by fastforce
    show ?thesis
    proof (cases rc)
      case Inl': (Inl x)
      then show ?thesis using assms(2) Inl 3 cr route_createD(2)[OF assms(1) cr[unfolded Inl']] by (auto simp: CreateOrUpdate_finish Let_def)
    next
      case Inr': (Inr created)
      from route_createD(1)[OF assms(1) cr[unfolded Inr']] obtain u v where
        k: "store c (?ns, d_Hostname d) = None" "created = route_object d empty_spec u v"
           "store c1 = (store c)((?ns, d_Hostname d) \<mapsto> route_object d empty_spec u v)" by auto
      have "finish_route A lidNS gw gwns d u c1 = (e, c')" using assms(2) Inl 3 cr Inr' k by (simp add: CreateOrUpdate_finish Let_def)
      from finish_ok[OF assms(1) this, of "route_object d empty_spec u v"] k show ?thesis by (auto split: option.splits)
    qed
  qed
qed

section \<open>The gateway backend keeps the promise\<close>

definition route_obs :: "('c \<Rightarrow> http_route objects) \<Rightarrow> 'c \<Rightarrow> string \<times> string \<rightharpoonup> connection" where
  "route_obs store c k =
     (case store c k of None \<Rightarrow> None | Some r \<Rightarrow>
      if hr_labels r AkashManagedLabelName = Some ''true'' then (case route_connection r of Inl _ \<Rightarrow> None | Inr co \<Rightarrow> co) else None)"

lemma route_obs_same: "store c' = store c \<Longrightarrow> route_obs store c' = route_obs store c"
  by (simp add: fun_eq_iff route_obs_def)

lemma recover_managed_labels [simp]: "RecoverLeaseIDFromLabels (managed_labels lid) = Inr lid"
  by (simp add: managed_labels_def)

lemma route_connection_object [simp]:
  "route_connection (route_object d empty_spec uid v) = Inr None"
  "route_connection (route_object d (gateway_spec lidNS gw gwns d) uid v) = Inr (Some (route_of d))"
  by (simp_all add: route_connection_def route_object_def empty_spec_def gateway_spec_def BuildHTTPRouteSpec_def route_of_def)

lemma route_object_labels [simp]: "hr_labels (route_object d s uid v) = managed_labels (d_LeaseID d)"
  by (simp add: route_object_def)

lemma gateway_connect_ok:
  assumes "route_api_ok A store xstore"
  shows "connect_ok (gateway_backend A ns gw gwns) ns (route_obs store)"
  unfolding connect_ok_def
proof (intro allI)
  fix d c
  obtain e c' where r: "CreateOrUpdateHTTPRoute A ns gw gwns d c = (e, c')" by fastforce
  have "route_obs store c' = (if e = None then (route_obs store c)((ns (d_LeaseID d), d_Hostname d) \<mapsto> route_of d) else route_obs store c)"
    using CreateOrUpdate_ok[OF assms r] route_obs_same[of store c' c]
    by (cases e) (auto simp: route_obs_def fun_eq_iff)
  then show "case bk_connect (gateway_backend A ns gw gwns) d c of
        (None, c') \<Rightarrow> route_obs store c' = (route_obs store c)((ns (d_LeaseID d), d_Hostname d) \<mapsto> route_of d)
      | (Some _, c') \<Rightarrow> route_obs store c' = route_obs store c"
    using r by (auto simp: gateway_backend_def split: option.split)
qed

lemma gateway_remove_ok:
  assumes "route_api_ok A store xstore"
  shows "remove_ok (gateway_backend A ns gw gwns) ns (route_obs store)"
  unfolding remove_ok_def
proof (intro allI)
  fix h lid a c
  obtain e c' where r: "ra_delete A (ns lid) h c = (e, c')" by fastforce
  have k: "(e = None \<longrightarrow> store c' = (store c)((ns lid, h) := None)) \<and>
      (e \<noteq> None \<longrightarrow> store c' = store c \<and> (IsNotFound (the e) \<longrightarrow> store c (ns lid, h) = None))"
    using route_deleteD[OF assms, of "ns lid" h c] r by (cases e) auto
  then show "case bk_remove (gateway_backend A ns gw gwns) h lid a c of
     (None, c') \<Rightarrow> (\<forall>k. k \<noteq> (ns lid, h) \<longrightarrow> route_obs store c' k = route_obs store c k) \<and>
        (route_obs store c' (ns lid, h) = None \<or> route_obs store c' (ns lid, h) = route_obs store c (ns lid, h)) \<and>
        (\<forall>r. route_obs store c (ns lid, h) = Some r \<and> co_LeaseID r = lid \<longrightarrow> route_obs store c' (ns lid, h) = None)
   | (Some _, c') \<Rightarrow> route_obs store c' = route_obs store c"
    using r route_obs_same[of store c' c] by (cases e) (auto simp: gateway_backend_def DeleteHTTPRoute_def route_obs_def)
qed

lemma set_map_filter_id: "set (List.map_filter (\<lambda>x. x) xs) = {y. Some y \<in> set xs}"
  by (induction xs) (auto simp: List.map_filter_def split: option.splits)

lemma route_obs_Some: "route_obs store c k = Some co \<longleftrightarrow>
    (\<exists>r. store c k = Some r \<and> hr_labels r AkashManagedLabelName = Some ''true'' \<and> route_connection r = Inr (Some co))"
  by (auto simp: route_obs_def split: option.splits sum.splits)

lemma gateway_list_ok:
  assumes "route_api_ok A store xstore"
  shows "list_ok (gateway_backend A ns gw gwns) (route_obs store) (\<lambda>_. True)"
  unfolding list_ok_def
proof (intro allI impI)
  fix c cs assume "True \<and> bk_list (gateway_backend A ns gw gwns) c = Inr cs"
  then obtain rs where r: "ra_list A c = Inr rs" "map_sum (\<lambda>e. e) (List.map_filter (\<lambda>x. x)) (each_item route_connection rs) = Inr cs"
    by (auto simp: gateway_backend_def ListHTTPRouteConnections_def split: sum.splits)
  then obtain ys where l: "ra_list A c = Inr rs" "each_item route_connection rs = Inr ys" "cs = List.map_filter (\<lambda>x. x) ys"
    by (cases "each_item route_connection rs") auto
  have "co \<in> set cs \<longleftrightarrow> (\<exists>r \<in> set rs. route_connection r = Inr (Some co))" for co
    using each_item_ok[OF l(2)] by (auto simp: l(3) set_map_filter_id)
  moreover have "co \<in> ran (route_obs store c) \<longleftrightarrow>
      (\<exists>r \<in> ran (store c). hr_labels r AkashManagedLabelName = Some ''true'' \<and> route_connection r = Inr (Some co))" for co
    by (auto simp: ran_def route_obs_Some)
  ultimately show "set cs = ran (route_obs store c)" using route_listD[OF assms l(1)] by blast
qed

lemma gateway_backend_ok: "route_api_ok A store xstore \<Longrightarrow> backend_ok (gateway_backend A ns gw gwns) ns (route_obs store) (\<lambda>_. True)"
  by (simp add: backend_ok_def gateway_connect_ok gateway_remove_ok gateway_list_ok)

section \<open>Either mode\<close>

definition mode_ok ::
  "ingress_mode \<Rightarrow> 'c ingress_api \<Rightarrow> ('c \<Rightarrow> ingress objects) \<Rightarrow> 'c route_api \<Rightarrow> ('c \<Rightarrow> http_route objects) \<Rightarrow> ('c \<Rightarrow> extension objects) \<Rightarrow> bool" where
  "mode_ok mode I istore A rstore xstore = (case mode of IngressModeIngress \<Rightarrow> ingress_api_ok I istore | IngressModeGateway \<Rightarrow> route_api_ok A rstore xstore)"

definition mode_obs :: "ingress_mode \<Rightarrow> ('c \<Rightarrow> ingress objects) \<Rightarrow> ('c \<Rightarrow> http_route objects) \<Rightarrow> 'c \<Rightarrow> string \<times> string \<rightharpoonup> connection" where
  "mode_obs mode istore rstore = (case mode of IngressModeIngress \<Rightarrow> ingress_obs istore | IngressModeGateway \<Rightarrow> route_obs rstore)"

definition mode_clean :: "ingress_mode \<Rightarrow> ('c \<Rightarrow> ingress objects) \<Rightarrow> 'c \<Rightarrow> bool" where
  "mode_clean mode istore c = (case mode of IngressModeIngress \<Rightarrow> ingress_clean istore c | IngressModeGateway \<Rightarrow> True)"

lemma mode_backend_ok:
  "mode_ok mode I istore A rstore xstore \<Longrightarrow> backend_ok (operator_backend mode I A ns gw gwns) ns (mode_obs mode istore rstore) (mode_clean mode istore)"
  using ingress_backend_ok[of I istore ns] gateway_backend_ok[of A rstore xstore ns gw gwns]
  by (cases mode) (simp_all add: mode_ok_def operator_backend_def mode_obs_def mode_clean_def[abs_def])

section \<open>A cluster for the witnesses\<close>

text \<open>Routes and filters as association lists; the gateway accepts every filter at the first poll, and ingresses are not served.\<close>

type_synonym gateway_cluster = "((string \<times> string) \<times> http_route) list \<times> ((string \<times> string) \<times> extension) list"

definition accepting :: json where
  "accepting = JObj [(''status'', JObj [(''controllers'', JArr [JObj [(''conditions'',
     JArr [JObj [(''type'', JStr ''Accepted''), (''status'', JStr ''True'')]])]])])]"

definition put_ext :: "string \<Rightarrow> extension \<Rightarrow> gateway_cluster \<Rightarrow> (kube_error + int) \<times> gateway_cluster" where
  "put_ext ns x = (\<lambda>(rs, xs). (Inr 1, (rs, ((ns, sf_name (xt_filter x)), x) # xs)))"

definition ex_gateway :: "gateway_cluster route_api" where
  "ex_gateway = \<lparr>
     ra_get = (\<lambda>ns n (rs, xs). case map_of rs (ns, n) of None \<Rightarrow> Inl (KNotFound n) | Some r \<Rightarrow> Inr r),
     ra_create = (\<lambda>ns r (rs, xs). if map_of rs (ns, hr_name r) = None
        then (Inr (r\<lparr>hr_uid := ''uid'', hr_version := ''1''\<rparr>), (((ns, hr_name r), r\<lparr>hr_uid := ''uid'', hr_version := ''1''\<rparr>) # rs, xs))
        else (Inl (KError ''exists''), (rs, xs))),
     ra_update = (\<lambda>ns r (rs, xs). case map_of rs (ns, hr_name r) of None \<Rightarrow> (Some (KNotFound (hr_name r)), (rs, xs))
        | Some old \<Rightarrow> (None, (((ns, hr_name r), r\<lparr>hr_uid := hr_uid old, hr_version := ''2''\<rparr>) # rs, xs))),
     ra_delete = (\<lambda>ns n (rs, xs). (None, (filter (\<lambda>(k, _). k \<noteq> (ns, n)) rs, xs))),
     ra_list = (\<lambda>(rs, xs). Inr (filter (\<lambda>r. hr_labels r AkashManagedLabelName = Some ''true'') (map (\<lambda>k. the (map_of rs k)) (remdups (map fst rs))))),
     xa_get = (\<lambda>ns n (rs, xs). case map_of xs (ns, n) of None \<Rightarrow> Inl (KNotFound n) | Some x \<Rightarrow> Inr x),
     xa_create = put_ext, xa_update = put_ext, xa_polls = (\<lambda>ns n c. [Inr accepting])\<rparr>"

definition ex_routes :: "gateway_cluster \<Rightarrow> http_route objects" where "ex_routes c = map_of (fst c)"
definition ex_filters :: "gateway_cluster \<Rightarrow> extension objects" where "ex_filters c = map_of (snd c)"

definition no_ingress :: "'c ingress_api" where
  "no_ingress = \<lparr>ia_get = (\<lambda>_ _ _. Inl (KError [])), ia_update = (\<lambda>_ _ c. (Some (KError []), c)), ia_create = (\<lambda>_ _ c. (Some (KError []), c)),
     ia_delete = (\<lambda>_ _ _ c. (Some (KError []), c)), ia_list = (\<lambda>_. Inl (KError []))\<rparr>"

lemma ex_gateway_ok: "route_api_ok ex_gateway ex_routes ex_filters"
proof -
  have w: "\<exists>v. m(k \<mapsto> x) = m(k \<mapsto> x\<lparr>xt_version := v\<rparr>)" for m :: "extension objects" and k and x :: extension
    by (rule exI[of _ "xt_version x"]) simp
  have "route_reads_ok ex_gateway ex_routes"
    by (auto simp: route_reads_ok_def ex_gateway_def ex_routes_def map_of_values split: option.split)
  moreover have "route_creates_ok ex_gateway ex_routes ex_filters"
    unfolding route_creates_ok_def ex_gateway_def ex_routes_def ex_filters_def by (auto split: option.split)
  moreover have "route_updates_ok ex_gateway ex_routes ex_filters"
    unfolding route_updates_ok_def ex_gateway_def ex_routes_def ex_filters_def by (auto split: option.split)
  moreover have "route_deletes_ok ex_gateway ex_routes"
    unfolding route_deletes_ok_def ex_gateway_def ex_routes_def by (auto simp: map_of_filter_key)
  moreover have "extension_writes_ok put_ext ex_routes ex_filters"
    unfolding extension_writes_ok_def put_ext_def ex_routes_def ex_filters_def
    by (simp add: w split: prod.split)
  ultimately show ?thesis by (simp add: route_api_ok_def ex_gateway_def)
qed

definition ex_genv :: "gateway_cluster host_env" where
  "ex_genv = \<lparr>hv_backend = operator_backend IngressModeGateway no_ingress ex_gateway ex_ns ''gw'' ''gwns'', hv_lidNS = ex_ns,
     hv_manifest = (\<lambda>n c. if n = ''9'' then Inl (KNotFound n) else Inr ex_hgroup), hv_externalPort = (\<lambda>p e. if e = 0 then p else e)\<rparr>"

definition ex_gop :: "gateway_cluster hostnameOperator" where
  "ex_gop = \<lparr>ho_hostnames = Map.empty, ho_leasesIgnored = NewIgnoreList \<lparr>FailureLimit = 3, EntryLimit = 10, AgeLimit = 100\<rparr>,
     ho_flagHostnames = False, ho_flagIgnored = False, ho_cluster = ([], [])\<rparr>"

definition ex_groute :: http_route where
  "ex_groute = \<lparr>hr_name = ''app.example.com'', hr_labels = managed_labels (ex_hlid 1),
     hr_spec = BuildHTTPRouteSpec ''gw'' ''gwns'' ''app.example.com'' ''web'' 80 [], hr_uid = ''uid'', hr_version = ''1''\<rparr>"

definition ex_grouted :: "gateway_cluster hostnameOperator" where
  "ex_grouted = ex_gop\<lparr>ho_hostnames := [''app.example.com'' \<mapsto> ex_hentry], ho_cluster := ([((ex_ns (ex_hlid 1), ''app.example.com''), ex_groute)], [])\<rparr>"

lemma ex_genv_backend: "hv_backend ex_genv = operator_backend IngressModeGateway no_ingress ex_gateway ex_ns ''gw'' ''gwns''"
  by (simp add: ex_genv_def)

lemma ex_mode_ok: "mode_ok IngressModeGateway no_ingress (\<lambda>_. Map.empty) ex_gateway ex_routes ex_filters" "mode_clean IngressModeGateway (\<lambda>_. Map.empty) c"
  using ex_gateway_ok by (simp_all add: mode_ok_def mode_clean_def)

lemma ex_gstart: "host_start ex_genv ex_gop = (None, ex_gop\<lparr>ho_flagHostnames := True\<rparr>)"
  by (simp add: host_start_def ex_genv_backend operator_backend_def ex_gop_def gateway_backend_def ListHTTPRouteConnections_def ex_gateway_def table_of_def
      List.map_filter_def)

lemma ex_groute_connection: "route_connection ex_groute = Inr (Some (entry_route ''app.example.com'' ex_hentry))"
  by (simp add: route_connection_def ex_groute_def BuildHTTPRouteSpec_def entry_route_def ex_hentry_def)

lemma ex_grouted_ok: "table_ok ex_ns (ho_hostnames ex_grouted) (mode_obs IngressModeGateway (\<lambda>_. Map.empty) ex_routes (ho_cluster ex_grouted))"
proof -
  have "mode_obs IngressModeGateway (\<lambda>_. Map.empty) ex_routes (ho_cluster ex_grouted) =
      [(ex_ns (ex_hlid 1), ''app.example.com'') \<mapsto> entry_route ''app.example.com'' ex_hentry]"
    using ex_groute_connection by (simp add: mode_obs_def route_obs_def ex_routes_def ex_grouted_def ex_groute_def fun_eq_iff)
  then show ?thesis by (simp add: table_ok_def ex_grouted_def ex_hentry_def)
qed

section \<open>Properties\<close>

text \<open>C12: A round of the hostname operator keeps one route per hostname. In either ingress mode, take a cluster where every hostname has at
  most one route, in the namespace of the lease on its labels, and where, in ingress mode, every managed ingress carries the labels of a
  lease; and a round in which every delete event names the lease that holds its hostname. Whatever else the round applies and wherever it
  fails, every hostname still has at most one route at its end, in the namespace of its lease. If the listing of the routes at its start succeeded, the table also agrees with them: a
  hostname is in the table exactly if it has a route, in the namespace of the lease, and to the service and port, that the table names. If the
  listing failed, no route has changed, the table is empty and the round ends with an error.\<close>

theorem hostname_routed_once:
  assumes "mode_ok mode I istore A rstore xstore" and "hv_backend E = operator_backend mode I A ns gw gwns" and "mode_clean mode istore (ho_cluster op)"
    and "routes_proper ns (mode_obs mode istore rstore (ho_cluster op))"
    and "round_deletes_holder E (snd (host_start E op)) is" and "ho_monitorUntilError E op is = (err, op2)"
  shows "routes_proper ns (mode_obs mode istore rstore (ho_cluster op2)) \<and>
    (if \<exists>cs. bk_list (hv_backend E) (ho_cluster op) = Inr cs
     then table_ok ns (ho_hostnames op2) (mode_obs mode istore rstore (ho_cluster op2))
     else err \<noteq> None \<and> ho_hostnames op2 = Map.empty \<and> ho_cluster op2 = ho_cluster op)"
proof (cases "bk_list (hv_backend E) (ho_cluster op)")
  case (Inl e)
  then show ?thesis using assms(4,6) by (auto simp: ho_monitorUntilError_def host_start_def)
next
  case (Inr cs)
  then have "host_start E op = (None, snd (host_start E op))" by (simp add: host_start_def)
  then show ?thesis
    using round_ok[of E ns "mode_obs mode istore rstore" "mode_clean mode istore"] mode_backend_ok[OF assms(1)] assms(2-6) Inr by metis
qed

theorem hostname_routed_once_witness:
  "let (err, op2) = ho_monitorUntilError ex_genv ex_gop ex_hround; obs = mode_obs IngressModeGateway (\<lambda>_. Map.empty) ex_routes (ho_cluster op2)
   in table_ok ex_ns (ho_hostnames op2) obs \<and> routes_proper ex_ns obs"
proof -
  have d: "round_deletes_holder ex_genv (snd (host_start ex_genv ex_gop)) ex_hround"
    by (simp add: ex_gstart ex_hround_def deletes_holder_def ex_hev_def split: prod.split option.split)
  have p: "routes_proper ex_ns (mode_obs IngressModeGateway (\<lambda>_. Map.empty) ex_routes (ho_cluster ex_gop))"
    by (simp add: routes_proper_def mode_obs_def route_obs_def ex_routes_def ex_gop_def)
  have l: "\<exists>cs. bk_list (hv_backend ex_genv) (ho_cluster ex_gop) = Inr cs"
    using ex_gstart by (cases "bk_list (hv_backend ex_genv) (ho_cluster ex_gop)") (simp_all add: host_start_def)
  obtain err op2 where r: "ho_monitorUntilError ex_genv ex_gop ex_hround = (err, op2)" by fastforce
  from hostname_routed_once[OF ex_mode_ok(1) ex_genv_backend ex_mode_ok(2) p d r, unfolded if_P[OF l]] show ?thesis
    unfolding r Let_def prod.case by blast
qed

text \<open>A round that starts reads the table back from the cluster: if table and routes agreed when the last round
  ended, every hostname has the same lease, service and port as before, so a restart loses nothing. This holds in either mode.\<close>

theorem restart_recovers_table:
  assumes "mode_ok mode I istore A rstore xstore" and "hv_backend E = operator_backend mode I A ns gw gwns" and "mode_clean mode istore (ho_cluster op)"
    and "table_ok ns (ho_hostnames op) (mode_obs mode istore rstore (ho_cluster op))" and "host_start E op = (None, op')"
  shows "abs_table op' = abs_table op"
  using restart_same[of E ns "mode_obs mode istore rstore" "mode_clean mode istore"] mode_backend_ok[OF assms(1)] assms(2-5) by metis

theorem restart_recovers_table_witness:
  "abs_table (snd (host_start ex_genv ex_grouted)) ''app.example.com'' = Some (ex_hlid 1, ''web'', 80)"
proof -
  have "fst (host_start ex_genv ex_grouted) = None"
    by (simp add: host_start_def ex_genv_backend operator_backend_def gateway_backend_def ListHTTPRouteConnections_def ex_gateway_def ex_grouted_def
        ex_groute_connection Let_def split: sum.split)
  then obtain op' where "host_start ex_genv ex_grouted = (None, op')" by (metis prod.collapse)
  from restart_recovers_table[OF ex_mode_ok(1) ex_genv_backend ex_mode_ok(2) ex_grouted_ok this] this
  show ?thesis by (simp add: abs_table_def ex_grouted_def ex_hentry_def)
qed

text \<open>A delete event of a lease that does not hold the hostname (it was flagged when it took the declaration
  over, say) drops the hostname from the table, while the route of the holder stays in the cluster: the operator forgets
  a route it still serves. Both modes.\<close>

theorem delete_of_other_lease_orphans_route:
  assumes "mode_ok mode I istore A rstore xstore" and "hv_backend E = operator_backend mode I A ns gw gwns"
    and "table_ok ns (ho_hostnames op) (mode_obs mode istore rstore (ho_cluster op))"
    and "ho_hostnames op (he_hostname ev) = Some e" and "ns (mh_presentLease e) \<noteq> ns (he_lid ev)"
    and "he_type ev = ProviderResourceDelete" and "ho_applyEvent E now ev op = (None, op')"
  shows "ho_hostnames op' (he_hostname ev) = None \<and>
    mode_obs mode istore rstore (ho_cluster op') (ns (mh_presentLease e), he_hostname ev) = Some (entry_route (he_hostname ev) e)"
  using delete_of_other[of E ns "mode_obs mode istore rstore", OF _ assms(3-7)] backend_okD(2)[OF mode_backend_ok[OF assms(1)]] assms(2) by metis

theorem delete_of_other_lease_orphans_route_witness:
  "let op' = snd (ho_applyEvent ex_genv 0 (ex_hev ProviderResourceDelete 2) ex_grouted)
   in ho_hostnames op' ''app.example.com'' = None \<and>
      mode_obs IngressModeGateway (\<lambda>_. Map.empty) ex_routes (ho_cluster op') (ex_ns (ex_hlid 1), ''app.example.com'') = Some (entry_route ''app.example.com'' ex_hentry)"
proof -
  have "fst (ho_applyEvent ex_genv 0 (ex_hev ProviderResourceDelete 2) ex_grouted) = None"
    by (simp add: ho_applyEvent_def applyDeleteEvent_def ex_hev_def ex_genv_backend operator_backend_def gateway_backend_def DeleteHTTPRoute_def
        ex_gateway_def ex_grouted_def)
  then obtain op' where a: "ho_applyEvent ex_genv 0 (ex_hev ProviderResourceDelete 2) ex_grouted = (None, op')" by (metis prod.collapse)
  show ?thesis
    using delete_of_other_lease_orphans_route[OF ex_mode_ok(1) ex_genv_backend ex_grouted_ok _ _ _ a, of ex_hentry] a
    by (simp add: ex_hev_def ex_grouted_def ex_hentry_def ex_ns_def ex_hlid_def)
qed

text \<open>C19: A route is never published before its options: when the reconcile returns no error, the filter with the options of the directive is stored,
  owned by the route, and the gateway had accepted that generation of it; when it fails, the stored routes are what they were,
  except that a new hostname may have a route without parents, hostnames and rules, which serves nothing.\<close>

theorem route_published_after_filter:
  assumes "route_api_ok A store xstore" and "CreateOrUpdateHTTPRoute A lidNS gw gwns d c = (e, c')"
  shows "case e of
      None \<Rightarrow> \<exists>uid v. store c' = (store c)((lidNS (d_LeaseID d), d_Hostname d) \<mapsto> route_object d (gateway_spec lidNS gw gwns d) uid v) \<and>
        (\<forall>sf \<in> set (BuildRouteExtensions (lidNS (d_LeaseID d)) (d_Hostname d) d).
           filter_in_place A (xstore c') (lidNS (d_LeaseID d)) (d_Hostname d) uid sf \<and> sf_value sf = httpOptionsSnippet d)
    | Some _ \<Rightarrow> store c' = store c \<or>
        (store c (lidNS (d_LeaseID d), d_Hostname d) = None \<and>
         (\<exists>uid v. store c' = (store c)((lidNS (d_LeaseID d), d_Hostname d) \<mapsto> route_object d empty_spec uid v)))"
proof -
  have "\<forall>sf \<in> set (BuildRouteExtensions (lidNS (d_LeaseID d)) (d_Hostname d) d). sf_value sf = httpOptionsSnippet d"
    by (simp add: BuildRouteExtensions_def Let_def)
  then show ?thesis using CreateOrUpdate_ok[OF assms] by (cases e) auto
qed

definition ex_gdirective :: directive where
  "ex_gdirective = buildDirective (ex_hev ProviderResourceAdd 1) (hd (cs_Expose (hd (cg_Services ex_hgroup))))"

theorem route_published_after_filter_witness:
  "\<exists>c' uid v. CreateOrUpdateHTTPRoute ex_gateway ex_ns ''gw'' ''gwns'' ex_gdirective ([], []) = (None, c') \<and>
     ex_routes c' = (ex_routes ([], []))((ex_ns (ex_hlid 1), ''app.example.com'') \<mapsto> route_object ex_gdirective (gateway_spec ex_ns ''gw'' ''gwns'' ex_gdirective) uid v)"
proof -
  obtain e c' where r: "CreateOrUpdateHTTPRoute ex_gateway ex_ns ''gw'' ''gwns'' ex_gdirective ([], []) = (e, c')" by (rule prod.exhaust)
  have "e = None" using r by (simp add: CreateOrUpdateHTTPRoute_def ex_gateway_def put_ext_def Let_def BuildRouteExtensions_def publish_route_def
      apply_extension_def accepting_def extensionAccepted_def condition_accepts_def nested_string_def nested_int64_def numeral_eq_Suc split: if_splits)
  then show ?thesis using route_published_after_filter[OF ex_gateway_ok r] r
    by (auto simp: ex_gdirective_def ex_hev_def)
qed

end
