(* ===== verification/Declarations.thy ===== *)
theory Declarations
  imports GatewayRoutes Deploy
begin

text \<open>
  The declarations the provider leaves in the cluster for its operators
  (cluster/kube/client_hostname_connections.go, cluster/kube/cluster_ip_connections.go): one object
  per hostname, named by it, and one per leased address, named by sharing key, protocol and port, both
  labelled with the lease. The calls of the API client are a parameter, with the cluster passed on; all objects are in the
  provider's namespace. The text of a protocol is the protocol, as in the deploy task.
\<close>

section \<open>Objects and calls\<close>

record host_object =
  po_name :: string
  po_labels :: labels
  po_annotations :: "string \<rightharpoonup> string"
  po_spec :: provider_host
  po_version :: string

record leased_ip_spec =
  li_LeaseID :: crd_lease_id
  li_ServiceName :: string
  li_Port :: u32
  li_ExternalPort :: u32
  li_SharingKey :: string
  li_Protocol :: string

record leased_ip =
  lo_name :: string
  lo_labels :: labels
  lo_spec :: leased_ip_spec
  lo_version :: string

record ('o, 'c) crd_api =
  ca_get :: "string \<Rightarrow> 'c \<Rightarrow> kube_error + 'o"
  ca_create :: "'o \<Rightarrow> 'c \<Rightarrow> kube_error option \<times> 'c"
  ca_update :: "'o \<Rightarrow> 'c \<Rightarrow> kube_error option \<times> 'c"
  ca_delete :: "selector \<Rightarrow> string option \<Rightarrow> 'c \<Rightarrow> kube_error option \<times> 'c"
  ca_list :: "selector \<Rightarrow> 'c \<Rightarrow> kube_error + 'o list"

datatype declare_error = DeclareKube kube_error | ErrAlreadyExists

definition AkashLeaseUpdatedAt :: string where "AkashLeaseUpdatedAt = ''akash.network/lease.updated_at''"
definition serviceNameLabel :: string where "serviceNameLabel = ''service-name''"
definition externalPortLabel :: string where "externalPortLabel = ''external-port''"
definition protoLabel :: string where "protoLabel = ''proto''"

section \<open>Hostnames\<close>

definition host_spec :: "lease_id \<Rightarrow> string \<Rightarrow> string \<Rightarrow> u32 \<Rightarrow> provider_host" where
  "host_spec lid host serviceName externalPort = \<lparr>ph_Owner = l_owner lid, ph_Provider = l_provider lid, ph_Hostname = host, ph_Dseq = l_dseq lid,
     ph_Gseq = l_gseq lid, ph_Oseq = l_oseq lid, ph_ServiceName = serviceName, ph_ExternalPort = externalPort\<rparr>"

definition DeclareHostname ::
  "(host_object, 'c) crd_api \<Rightarrow> string \<Rightarrow> lease_id \<Rightarrow> string \<Rightarrow> string \<Rightarrow> u32 \<Rightarrow> 'c \<Rightarrow> kube_error option \<times> 'c" where
  "DeclareHostname A now lid host serviceName externalPort c =
     (let spec = host_spec lid host serviceName externalPort
      in case ca_get A host c of
           Inr obj \<Rightarrow> ca_update A (obj\<lparr>po_labels := managed_labels lid, po_spec := spec,
              po_annotations := (po_annotations obj)(AkashLeaseUpdatedAt \<mapsto> now)\<rparr>) c
         | Inl e \<Rightarrow>
             if \<not> IsNotFound e then (Some e, c)
             else ca_create A \<lparr>po_name = host, po_labels = managed_labels lid, po_annotations = [AkashLeaseUpdatedAt \<mapsto> now],
                    po_spec = spec, po_version = []\<rparr> c)"

definition PurgeDeclaredHostname :: "(host_object, 'c) crd_api \<Rightarrow> lease_id \<Rightarrow> string \<Rightarrow> 'c \<Rightarrow> kube_error option \<times> 'c" where
  "PurgeDeclaredHostname A lid hostname c = ca_delete A (kubeSelectorForLease lid) (Some hostname) c"

definition PurgeDeclaredHostnames :: "(host_object, 'c) crd_api \<Rightarrow> lease_id \<Rightarrow> 'c \<Rightarrow> kube_error option \<times> 'c" where
  "PurgeDeclaredHostnames A lid c = ca_delete A (kubeSelectorForLease lid) None c"

section \<open>Leased addresses\<close>

definition GetDeclaredIPs :: "(leased_ip, 'c) crd_api \<Rightarrow> lease_id \<Rightarrow> 'c \<Rightarrow> kube_error + leased_ip_spec list" where
  "GetDeclaredIPs A lid c = map_sum (\<lambda>e. e) (map lo_spec) (ca_list A (kubeSelectorForLease lid) c)"

text \<open>The selector with service, protocol and port is built and not used: the call selects by the managed label alone.\<close>

definition PurgeDeclaredIP :: "(leased_ip, 'c) crd_api \<Rightarrow> lease_id \<Rightarrow> string \<Rightarrow> u32 \<Rightarrow> string \<Rightarrow> 'c \<Rightarrow> kube_error option \<times> 'c" where
  "PurgeDeclaredIP A lid serviceName externalPort proto c =
     (let labelSelector = kubeSelectorForLease lid @ [(serviceNameLabel, serviceName), (protoLabel, proto), (externalPortLabel, itoa (unat externalPort))]
      in ca_delete A [(AkashManagedLabelName, ''true'')] None c)"

definition ip_resource_name :: "string \<Rightarrow> string \<Rightarrow> u32 \<Rightarrow> string" where
  "ip_resource_name sharingKey proto externalPort = to_lower (sharingKey @ ''-'' @ proto @ ''-'' @ itoa (unat externalPort))"

definition ip_labels :: "lease_id \<Rightarrow> string \<Rightarrow> u32 \<Rightarrow> string \<Rightarrow> labels" where
  "ip_labels lid serviceName externalPort proto =
     AppendLeaseLabels lid [AkashManagedLabelName \<mapsto> ''true'', serviceNameLabel \<mapsto> serviceName, externalPortLabel \<mapsto> itoa (unat externalPort),
       protoLabel \<mapsto> proto]"

definition ip_spec :: "lease_id \<Rightarrow> string \<Rightarrow> u32 \<Rightarrow> u32 \<Rightarrow> string \<Rightarrow> string \<Rightarrow> leased_ip_spec" where
  "ip_spec lid serviceName port externalPort proto sharingKey =
     \<lparr>li_LeaseID = LeaseIDFromAkash lid, li_ServiceName = serviceName, li_Port = port, li_ExternalPort = externalPort, li_SharingKey = sharingKey,
      li_Protocol = proto\<rparr>"

definition DeclareIP ::
  "(leased_ip, 'c) crd_api \<Rightarrow> lease_id \<Rightarrow> string \<Rightarrow> u32 \<Rightarrow> u32 \<Rightarrow> string \<Rightarrow> string \<Rightarrow> bool \<Rightarrow> 'c \<Rightarrow> declare_error option \<times> 'c" where
  "DeclareIP A lid serviceName port externalPort proto sharingKey overwrite c =
     (let resourceName = ip_resource_name sharingKey proto externalPort;
          obj = \<lparr>lo_name = resourceName, lo_labels = ip_labels lid serviceName externalPort proto,
            lo_spec = ip_spec lid serviceName port externalPort proto sharingKey, lo_version = []\<rparr>
      in case ca_get A resourceName c of
           Inr foundEntry \<Rightarrow>
             if \<not> overwrite then (Some ErrAlreadyExists, c)
             else (case ca_update A (obj\<lparr>lo_version := lo_version foundEntry\<rparr>) c of (e, c') \<Rightarrow> (map_option DeclareKube e, c'))
         | Inl e \<Rightarrow>
             if \<not> IsNotFound e then (Some (DeclareKube e), c)
             else (case ca_create A obj c of (e, c') \<Rightarrow> (map_option DeclareKube e, c')))"

definition PurgeDeclaredIPs :: "(leased_ip, 'c) crd_api \<Rightarrow> lease_id \<Rightarrow> 'c \<Rightarrow> kube_error option \<times> 'c" where
  "PurgeDeclaredIPs A lid c = ca_delete A ((AkashManagedLabelName, ''true'') # kubeSelectorForLease lid) None c"

section \<open>What is documented of the calls\<close>

text \<open>\<open>store\<close> reads the objects by name; \<open>nm\<close>, \<open>lab\<close> and \<open>ver\<close> are name, labels and the change of version of an object.\<close>

definition crd_writes_ok :: "('o \<Rightarrow> 'c \<Rightarrow> kube_error option \<times> 'c) \<Rightarrow> ('o \<Rightarrow> string) \<Rightarrow> (string \<Rightarrow> 'o \<Rightarrow> 'o) \<Rightarrow> ('c \<Rightarrow> string \<rightharpoonup> 'o) \<Rightarrow> bool" where
  "crd_writes_ok W nm ver store \<longleftrightarrow> (\<forall>x c. case W x c of
     (None, c') \<Rightarrow> \<exists>v. store c' = (store c)(nm x \<mapsto> ver v x) | (Some _, c') \<Rightarrow> store c' = store c)"

definition crd_deletes_ok :: "(selector \<Rightarrow> string option \<Rightarrow> 'c \<Rightarrow> kube_error option \<times> 'c) \<Rightarrow> ('o \<Rightarrow> labels) \<Rightarrow> ('c \<Rightarrow> string \<rightharpoonup> 'o) \<Rightarrow> bool" where
  "crd_deletes_ok D lab store \<longleftrightarrow> (\<forall>sel n c. case D sel n c of
     (None, c') \<Rightarrow> \<forall>k. store c' k = (case store c k of None \<Rightarrow> None
        | Some x \<Rightarrow> if selects sel (lab x) \<and> (n = None \<or> n = Some k) then None else Some x)
   | (Some _, c') \<Rightarrow> store c' = store c)"

definition crd_reads_ok :: "('o, 'c) crd_api \<Rightarrow> ('o \<Rightarrow> labels) \<Rightarrow> ('o \<Rightarrow> string) \<Rightarrow> ('c \<Rightarrow> string \<rightharpoonup> 'o) \<Rightarrow> bool" where
  "crd_reads_ok A lab nm store \<longleftrightarrow>
     (\<forall>n c. case ca_get A n c of Inr x \<Rightarrow> store c n = Some x \<and> nm x = n | Inl e \<Rightarrow> IsNotFound e \<longrightarrow> store c n = None) \<and>
     (\<forall>sel c xs. ca_list A sel c = Inr xs \<longrightarrow> set xs = {x \<in> ran (store c). selects sel (lab x)})"

definition crd_api_ok :: "('o, 'c) crd_api \<Rightarrow> ('o \<Rightarrow> string) \<Rightarrow> ('o \<Rightarrow> labels) \<Rightarrow> (string \<Rightarrow> 'o \<Rightarrow> 'o) \<Rightarrow> ('c \<Rightarrow> string \<rightharpoonup> 'o) \<Rightarrow> bool" where
  "crd_api_ok A nm lab ver store \<longleftrightarrow> crd_writes_ok (ca_create A) nm ver store \<and> crd_writes_ok (ca_update A) nm ver store \<and>
     crd_deletes_ok (ca_delete A) lab store \<and> crd_reads_ok A lab nm store"

lemma crd_writesD:
  assumes "crd_writes_ok W nm ver store"
  shows "W x c = (None, c') \<Longrightarrow> \<exists>v. store c' = (store c)(nm x \<mapsto> ver v x)" "W x c = (Some e, c') \<Longrightarrow> store c' = store c"
  using assms[unfolded crd_writes_ok_def, THEN spec[of _ x], THEN spec[of _ c]] by simp_all

lemma crd_deletesD:
  assumes "crd_api_ok A nm lab ver store"
  shows "ca_delete A sel n c = (None, c') \<Longrightarrow> store c' k = (case store c k of None \<Rightarrow> None
        | Some x \<Rightarrow> if selects sel (lab x) \<and> (n = None \<or> n = Some k) then None else Some x)"
    "ca_delete A sel n c = (Some e, c') \<Longrightarrow> store c' = store c"
proof -
  have "crd_deletes_ok (ca_delete A) lab store" using assms by (simp add: crd_api_ok_def)
  note w = this[unfolded crd_deletes_ok_def, THEN spec[of _ sel], THEN spec[of _ n], THEN spec[of _ c]]
  show "ca_delete A sel n c = (None, c') \<Longrightarrow> store c' k = (case store c k of None \<Rightarrow> None
        | Some x \<Rightarrow> if selects sel (lab x) \<and> (n = None \<or> n = Some k) then None else Some x)"
    "ca_delete A sel n c = (Some e, c') \<Longrightarrow> store c' = store c"
    using w by simp_all
qed

lemma crd_readsD:
  assumes "crd_api_ok A nm lab ver store"
  shows "ca_get A n c = Inr x \<Longrightarrow> store c n = Some x \<and> nm x = n" "ca_get A n c = Inl e \<Longrightarrow> IsNotFound e \<Longrightarrow> store c n = None"
    "ca_list A sel c = Inr xs \<Longrightarrow> set xs = {x \<in> ran (store c). selects sel (lab x)}"
proof -
  have r: "crd_reads_ok A lab nm store" using assms by (simp add: crd_api_ok_def)
  note g = r[unfolded crd_reads_ok_def, THEN conjunct1, THEN spec[of _ n], THEN spec[of _ c]]
  show "ca_get A n c = Inr x \<Longrightarrow> store c n = Some x \<and> nm x = n" "ca_get A n c = Inl e \<Longrightarrow> IsNotFound e \<Longrightarrow> store c n = None"
    using g by simp_all
  show "ca_list A sel c = Inr xs \<Longrightarrow> set xs = {x \<in> ran (store c). selects sel (lab x)}"
    using r unfolding crd_reads_ok_def by blast
qed

abbreviation hosts_api_ok :: "(host_object, 'c) crd_api \<Rightarrow> ('c \<Rightarrow> string \<rightharpoonup> host_object) \<Rightarrow> bool" where
  "hosts_api_ok A store \<equiv> crd_api_ok A po_name po_labels (\<lambda>v x. x\<lparr>po_version := v\<rparr>) store"

abbreviation ips_api_ok :: "(leased_ip, 'c) crd_api \<Rightarrow> ('c \<Rightarrow> string \<rightharpoonup> leased_ip) \<Rightarrow> bool" where
  "ips_api_ok A store \<equiv> crd_api_ok A lo_name lo_labels (\<lambda>v x. x\<lparr>lo_version := v\<rparr>) store"

section \<open>Declared hostnames\<close>

lemma DeclareHostname_store:
  assumes "hosts_api_ok A store" and "DeclareHostname A now lid host svc port c = (None, c')"
  shows "\<exists>x. store c' = (store c)(host \<mapsto> x) \<and> po_labels x = managed_labels lid \<and> po_spec x = host_spec lid host svc port"
proof -
  have W: "crd_writes_ok (ca_create A) po_name (\<lambda>v x. x\<lparr>po_version := v\<rparr>) store"
      "crd_writes_ok (ca_update A) po_name (\<lambda>v x. x\<lparr>po_version := v\<rparr>) store" using assms(1) by (simp_all add: crd_api_ok_def)
  show ?thesis
  proof (cases "ca_get A host c")
    case (Inr obj)
    let ?x = "obj\<lparr>po_labels := managed_labels lid, po_spec := host_spec lid host svc port,
              po_annotations := (po_annotations obj)(AkashLeaseUpdatedAt \<mapsto> now)\<rparr>"
    have "ca_update A ?x c = (None, c')" using assms(2) Inr by (simp add: DeclareHostname_def Let_def)
    from crd_writesD(1)[OF W(2) this] show ?thesis using crd_readsD(1)[OF assms(1) Inr] by fastforce
  next
    case (Inl e)
    let ?x = "\<lparr>po_name = host, po_labels = managed_labels lid, po_annotations = [AkashLeaseUpdatedAt \<mapsto> now],
                    po_spec = host_spec lid host svc port, po_version = []\<rparr>"
    have "ca_create A ?x c = (None, c')" using assms(2) Inl by (simp add: DeclareHostname_def Let_def split: if_splits)
    from crd_writesD(1)[OF W(1) this] show ?thesis by fastforce
  qed
qed

lemma selects_managed: "selects (kubeSelectorForLease lid') (managed_labels lid) \<longleftrightarrow> lease_order_id lid' = lease_order_id lid"
  by (simp add: managed_labels_def selects_other)

section \<open>Leased addresses\<close>

text \<open>The calls of a deploy task, run against the declared addresses; hostname and workload calls do not touch them.\<close>

fun ip_call :: "(leased_ip, 'c) crd_api \<Rightarrow> lease_id \<Rightarrow> kube_call \<Rightarrow> 'c \<Rightarrow> 'c" where
  "ip_call A lid (CallDeclareIP svc port externalPort proto key) c = snd (DeclareIP A lid svc port externalPort proto key False c)"
| "ip_call A lid (CallPurgeIP svc externalPort proto) c = snd (PurgeDeclaredIP A lid svc externalPort proto c)"
| "ip_call A lid _ c = c"

lemma selects_true: "selects [(AkashManagedLabelName, ''true'')] m \<longleftrightarrow> m AkashManagedLabelName = Some ''true''"
  by (simp add: selects_def)

lemma purge_clears:
  assumes "ips_api_ok A store" and "PurgeDeclaredIP A lid svc port proto c = (None, c')"
  shows "store c' k = (case store c k of None \<Rightarrow> None | Some x \<Rightarrow> if lo_labels x AkashManagedLabelName = Some ''true'' then None else Some x)"
  using crd_deletesD(1)[OF assms(1), of "[(AkashManagedLabelName, ''true'')]" None c c' k] assms(2)
  by (cases "store c k") (simp_all add: PurgeDeclaredIP_def selects_true)

definition no_managed :: "(string \<rightharpoonup> leased_ip) \<Rightarrow> bool" where
  "no_managed s \<longleftrightarrow> (\<forall>x \<in> ran s. lo_labels x AkashManagedLabelName \<noteq> Some ''true'')"

lemma purge_no_managed:
  assumes "ips_api_ok A store" and "\<forall>sel n c. fst (ca_delete A sel n c) = None"
  shows "no_managed (store (snd (PurgeDeclaredIP A lid svc port proto c)))"
proof -
  have "fst (PurgeDeclaredIP A lid svc port proto c) = None" using assms(2) by (simp add: PurgeDeclaredIP_def Let_def)
  then have p: "PurgeDeclaredIP A lid svc port proto c = (None, snd (PurgeDeclaredIP A lid svc port proto c))" by (metis prod.collapse)
  have "lo_labels x AkashManagedLabelName \<noteq> Some ''true''" if "store (snd (PurgeDeclaredIP A lid svc port proto c)) k = Some x" for k x
    using that purge_clears[OF assms(1) p, of k] by (auto split: option.splits if_splits)
  then show ?thesis by (auto simp: no_managed_def ran_def)
qed

text \<open>A deploy task purges after everything else it does.\<close>

lemma doDeploy_purges_last: "\<exists>pre h. do_calls (doDeploy env k hs current d) = pre @ purgeAll h \<and> (\<forall>svc p q. CallPurgeIP svc p q \<notin> set pre)"
proof -
  have dh: "CallPurgeIP svc p q \<notin> set (fst (declare_hosts env k m xs))" for svc p q m xs
    by (induction xs) (auto split: option.split prod.split)
  have di: "CallPurgeIP svc p q \<notin> set (fst (declare_ips env k lid i xs))" for svc p q lid i xs
    by (induction xs arbitrary: i) (auto simp: Let_def case_prod_beta split: ip_answer.splits)
  have none: "\<exists>pre h. [] = pre @ purgeAll h \<and> (\<forall>svc p q. CallPurgeIP svc p q \<notin> set pre)"
    by (rule exI[of _ "[]"], rule exI[of _ newDeployCleanupHelper]) (simp add: purgeAll_def newDeployCleanupHelper_def)
  have some: "\<exists>pre h. CallDeploy d # xs @ purgeAll h0 = pre @ purgeAll h \<and> (\<forall>svc p q. CallPurgeIP svc p q \<notin> set pre)"
    if "\<And>svc p q. CallPurgeIP svc p q \<notin> set xs" for xs h0
    by (rule exI[of _ "CallDeploy d # xs"], rule exI[of _ h0]) (use that in simp)
  have two: "CallPurgeIP svc p q \<notin> set (fst (declare_hosts env k m xs) @ fst (declare_ips env k lid i ys))" for svc p q m xs lid i ys
    using dh di by simp
  show ?thesis unfolding doDeploy_def Let_def case_prod_beta
    using some[of "[]"] some[OF dh] some[OF two] none by (auto split: option.split sum.split)
qed

lemma purge_run_clears:
  assumes "ips_api_ok A store" and "\<forall>sel n c. fst (ca_delete A sel n c) = None"
    and "CallPurgeIP svc port proto \<in> set (pre @ purgeAll h)" and "\<forall>svc p q. CallPurgeIP svc p q \<notin> set pre"
  shows "no_managed (store (fold (ip_call A lid) (pre @ purgeAll h) c))"
proof -
  have keep: "fold (ip_call A lid) (map CallPurgeHostname hs) c = c" for hs c by (induction hs arbitrary: c) simp_all
  have "ipsToPurge h \<noteq> []" using assms(3,4) by (auto simp: purgeAll_def)
  then obtain es e where e: "ipsToPurge h = es @ [e]" by (metis rev_exhaust)
  show ?thesis using purge_no_managed[OF assms(1,2)] by (simp add: purgeAll_def e keep)
qed

section \<open>A cluster for the witnesses\<close>

text \<open>An association list from names to objects, with calls that never fail.\<close>

definition list_crd :: "('o \<Rightarrow> string) \<Rightarrow> ('o \<Rightarrow> labels) \<Rightarrow> ('o, (string \<times> 'o) list) crd_api" where
  "list_crd nm lab = \<lparr>
     ca_get = (\<lambda>n c. case map_of c n of None \<Rightarrow> Inl (KNotFound n) | Some x \<Rightarrow> if nm x = n then Inr x else Inl (KError [])),
     ca_create = (\<lambda>x c. (None, (nm x, x) # c)), ca_update = (\<lambda>x c. (None, (nm x, x) # c)),
     ca_delete = (\<lambda>sel n c. (None, filter (\<lambda>(k, _). \<not> (case map_of c k of None \<Rightarrow> False | Some x \<Rightarrow> selects sel (lab x) \<and> (n = None \<or> n = Some k))) c)),
     ca_list = (\<lambda>sel c. Inr (filter (\<lambda>x. selects sel (lab x)) (map (\<lambda>k. the (map_of c k)) (remdups (map fst c)))))\<rparr>"

lemma map_of_filter_keys: "map_of (filter (\<lambda>(k, _). P k) c) k = (if P k then map_of c k else None)"
  by (induction c) auto

lemma list_crd_ok:
  assumes "\<And>x. \<exists>v. ver v x = x"
  shows "crd_api_ok (list_crd nm lab) nm lab ver map_of"
proof -
  have w: "\<exists>v. m(k \<mapsto> x) = m(k \<mapsto> ver v x)" for m :: "string \<rightharpoonup> 'a" and k x using assms[of x] by metis
  have "crd_writes_ok (ca_create (list_crd nm lab)) nm ver map_of" "crd_writes_ok (ca_update (list_crd nm lab)) nm ver map_of"
    using w by (simp_all add: crd_writes_ok_def list_crd_def)
  moreover have "crd_deletes_ok (ca_delete (list_crd nm lab)) lab map_of"
    by (auto simp: crd_deletes_ok_def list_crd_def map_of_filter_keys split: option.split)
  moreover have "crd_reads_ok (list_crd nm lab) lab nm map_of"
    by (auto simp: crd_reads_ok_def list_crd_def map_of_values split: option.split)
  ultimately show ?thesis by (simp add: crd_api_ok_def)
qed

lemma list_hosts_ok: "hosts_api_ok (list_crd po_name po_labels) map_of"
proof (rule list_crd_ok)
  show "\<exists>v. x\<lparr>po_version := v\<rparr> = x" for x :: host_object by (rule exI[of _ "po_version x"]) simp
qed

lemma list_ips_ok: "ips_api_ok (list_crd lo_name lo_labels) map_of"
proof (rule list_crd_ok)
  show "\<exists>v. x\<lparr>lo_version := v\<rparr> = x" for x :: leased_ip by (rule exI[of _ "lo_version x"]) simp
qed

section \<open>Properties\<close>

text \<open>Declaring a hostname makes its object say exactly one lease: the hostname operator sees an event that connects the hostname to
  that lease, service and port; no other declaration changes; closing any other lease, or purging the hostname for it, leaves
  the declaration in place, so a hostname that moved to a new lease survives the end of the old one; closing its own lease removes it.\<close>

theorem declared_hostname_follows_lease:
  assumes "hosts_api_ok A store" and "DeclareHostname A now lid host svc port c = (None, c1)"
    and "addr (l_owner lid) = Some (l_owner lid)" and "addr (l_provider lid) = Some (l_provider lid)"
  shows "\<exists>x. store c1 = (store c)(host \<mapsto> x) \<and>
     observe_watch addr [(WatchAdded, Some (po_spec x))] =
       [\<lparr>he_type = ProviderResourceAdd, he_hostname = host, he_lid = lid, he_serviceName = svc, he_externalPort = port\<rparr>] \<and>
     (\<forall>lid' h c2. lease_order_id lid' \<noteq> lease_order_id lid \<longrightarrow>
        PurgeDeclaredHostnames A lid' c1 = (None, c2) \<or> PurgeDeclaredHostname A lid' h c1 = (None, c2) \<longrightarrow> store c2 host = Some x) \<and>
     (\<forall>c2. PurgeDeclaredHostnames A lid c1 = (None, c2) \<or> PurgeDeclaredHostname A lid host c1 = (None, c2) \<longrightarrow> store c2 host = None)"
proof -
  obtain x where x: "store c1 = (store c)(host \<mapsto> x)" "po_labels x = managed_labels lid" "po_spec x = host_spec lid host svc port"
    using DeclareHostname_store[OF assms(1,2)] by blast
  have s: "store c1 host = Some x" using x(1) by simp
  have "observe_watch addr [(WatchAdded, Some (po_spec x))] =
       [\<lparr>he_type = ProviderResourceAdd, he_hostname = host, he_lid = lid, he_serviceName = svc, he_externalPort = port\<rparr>]"
    using assms(3,4) by (simp add: x(3) host_spec_def ProviderHostSpec_LeaseID_def host_event_of_def)
  then show ?thesis
    using x(1) crd_deletesD(1)[OF assms(1), of _ _ c1 _ host]
    by (intro exI[of _ x]) (auto simp: PurgeDeclaredHostnames_def PurgeDeclaredHostname_def s x(2) selects_managed)
qed

theorem declared_hostname_follows_lease_witness:
  "map_of (snd (PurgeDeclaredHostnames (list_crd po_name po_labels) (ex_hlid 1)
     (snd (DeclareHostname (list_crd po_name po_labels) ''t'' (ex_hlid 2) ''a.com'' ''web'' 80 [])))) ''a.com'' \<noteq> None"
proof -
  let ?A = "list_crd po_name po_labels"
  have d: "DeclareHostname ?A ''t'' (ex_hlid 2) ''a.com'' ''web'' 80 [] = (None, snd (DeclareHostname ?A ''t'' (ex_hlid 2) ''a.com'' ''web'' 80 []))"
    by (simp add: DeclareHostname_def list_crd_def Let_def)
  have p: "PurgeDeclaredHostnames ?A (ex_hlid 1) c = (None, snd (PurgeDeclaredHostnames ?A (ex_hlid 1) c))" for c
    by (simp add: PurgeDeclaredHostnames_def list_crd_def)
  have n: "lease_order_id (ex_hlid 1) \<noteq> lease_order_id (ex_hlid 2)" by (simp add: lease_order_id_def ex_hlid_def)
  from declared_hostname_follows_lease[OF list_hosts_ok d, of Some] p n show ?thesis by (metis option.distinct(1))
qed

text \<open>C38: When a deploy task of one lease finds a declared address it no longer uses, the purge it makes deletes the declared addresses of every lease of
  the provider, those just declared by the same task included: the selector built for the one address is not passed to the call.\<close>

theorem stale_address_purges_every_lease:
  assumes "ips_api_ok A store" and "\<forall>sel n c. fst (ca_delete A sel n c) = None"
    and "CallPurgeIP svc port proto \<in> set (do_calls (doDeploy env k hs current d))"
  shows "no_managed (store (fold (ip_call A (dp_LeaseID d)) (do_calls (doDeploy env k hs current d)) c))"
proof -
  obtain pre h where p: "do_calls (doDeploy env k hs current d) = pre @ purgeAll h" "\<forall>svc p q. CallPurgeIP svc p q \<notin> set pre"
    using doDeploy_purges_last by blast
  show ?thesis using purge_run_clears[OF assms(1,2) _ p(2)] assms(3) p(1) by metis
qed

text \<open>An address of another owner, and a deploy that drops one of its own.\<close>

definition ex_other_ip :: leased_ip where
  "ex_other_ip = \<lparr>lo_name = ''k-tcp-80'', lo_labels = ip_labels (ex_hlid 7) ''web'' 80 ''TCP'',
     lo_spec = ip_spec (ex_hlid 7) ''web'' 80 80 ''TCP'' ''k'', lo_version = []\<rparr>"

definition ex_stale_kube :: kube where
  "ex_stale_kube = ex_kube\<lparr>k_GetDeclaredIPs := Inr [\<lparr>di_SharingKey = ''old'', di_Protocol = ''TCP'', di_ServiceName = ''web'', di_ExternalPort = 80\<rparr>]\<rparr>"

theorem stale_address_purges_every_lease_witness:
  "map_of (fold (ip_call (list_crd lo_name lo_labels) (dp_LeaseID (ex_web []))) (do_calls (doDeploy ex_deploy_env ex_stale_kube ex_hs {} (ex_web [])))
     [(''k-tcp-80'', ex_other_ip)]) = Map.empty"
proof -
  have c: "do_calls (doDeploy ex_deploy_env ex_stale_kube ex_hs {} (ex_web [])) = [CallDeploy (ex_web []), CallPurgeIP ''web'' 80 ''TCP'']"
    by (simp add: ex_stale_kube_def ex_deploy_defs addIP_def)
  have "CallPurgeIP ''web'' 80 ''TCP'' \<in> set (do_calls (doDeploy ex_deploy_env ex_stale_kube ex_hs {} (ex_web [])))" using c by simp
  moreover have "\<forall>sel n c. fst (ca_delete (list_crd lo_name lo_labels) sel n c) = None" by (simp add: list_crd_def)
  ultimately have "no_managed (map_of (fold (ip_call (list_crd lo_name lo_labels) (dp_LeaseID (ex_web []))) (do_calls (doDeploy ex_deploy_env ex_stale_kube ex_hs {} (ex_web [])))
     [(''k-tcp-80'', ex_other_ip)]))"
    using stale_address_purges_every_lease[OF list_ips_ok] by blast
  moreover have "lo_labels ex_other_ip AkashManagedLabelName = Some ''true''"
    by (simp add: ex_other_ip_def ip_labels_def AppendLeaseLabels_def label_names serviceNameLabel_def externalPortLabel_def protoLabel_def)
  ultimately show ?thesis unfolding c
    by (auto simp: no_managed_def ran_def PurgeDeclaredIP_def list_crd_def Let_def split: if_splits)
qed

text \<open>A leased address stays with the lease that declared it: a deploy of another lease that asks for the same sharing key, protocol and port
  is told that it exists and changes nothing, and a successful declaration adds one object that the lease then reads back, with every other kept.\<close>

theorem leased_address_kept:
  assumes "ips_api_ok A store" and "DeclareIP A lid svc port externalPort proto key False c = (r, c')"
  shows "(store c (ip_resource_name key proto externalPort) \<noteq> None \<longrightarrow> store c' = store c \<and> r \<noteq> None) \<and>
    (r = None \<longrightarrow> (\<exists>x. store c (ip_resource_name key proto externalPort) = None \<and> store c' = (store c)(ip_resource_name key proto externalPort \<mapsto> x) \<and>
       (\<forall>specs. GetDeclaredIPs A lid c' = Inr specs \<longrightarrow> ip_spec lid svc port externalPort proto key \<in> set specs))) \<and>
    (r \<noteq> None \<longrightarrow> store c' = store c)"
proof -
  let ?n = "ip_resource_name key proto externalPort"
  let ?x = "\<lparr>lo_name = ?n, lo_labels = ip_labels lid svc externalPort proto, lo_spec = ip_spec lid svc port externalPort proto key, lo_version = []\<rparr>"
  have W: "crd_writes_ok (ca_create A) lo_name (\<lambda>v x. x\<lparr>lo_version := v\<rparr>) store" using assms(1) by (simp add: crd_api_ok_def)
  show ?thesis
  proof (cases "ca_get A ?n c")
    case (Inr f)
    then have "r = Some ErrAlreadyExists" "c' = c" using assms(2) by (auto simp: DeclareIP_def Let_def)
    then show ?thesis by simp
  next
    case (Inl e)
    show ?thesis
    proof (cases "IsNotFound e")
      case False
      then have "r = Some (DeclareKube e)" "c' = c" using assms(2) Inl by (auto simp: DeclareIP_def Let_def)
      then show ?thesis by simp
    next
      case True
      have n: "store c ?n = None" by (rule crd_readsD(2)[OF assms(1) Inl True])
      obtain ce where cr: "ca_create A ?x c = (ce, c')" "r = map_option DeclareKube ce"
        using assms(2) Inl True by (auto simp: DeclareIP_def Let_def split: prod.splits)
      show ?thesis
      proof (cases ce)
        case None
        then obtain v where s: "store c' = (store c)(?n \<mapsto> ?x\<lparr>lo_version := v\<rparr>)" using crd_writesD(1)[OF W, of ?x c c'] cr(1) by auto
        have sel: "selects (kubeSelectorForLease lid) (lo_labels (?x\<lparr>lo_version := v\<rparr>))" by (simp add: ip_labels_def)
        have "ip_spec lid svc port externalPort proto key \<in> set specs" if g: "GetDeclaredIPs A lid c' = Inr specs" for specs
        proof -
          obtain xs where xs: "ca_list A (kubeSelectorForLease lid) c' = Inr xs" "specs = map lo_spec xs"
            using g by (cases "ca_list A (kubeSelectorForLease lid) c'") (auto simp: GetDeclaredIPs_def)
          have "?x\<lparr>lo_version := v\<rparr> \<in> ran (store c')" by (rule ranI[of _ ?n]) (simp add: s)
          then have "?x\<lparr>lo_version := v\<rparr> \<in> set xs" using crd_readsD(3)[OF assms(1) xs(1)] sel by simp
          then show ?thesis unfolding xs(2) by force
        qed
        moreover have "r = None" using None cr(2) by simp
        ultimately show ?thesis using n s by blast
      next
        case (Some x)
        then show ?thesis using cr n crd_writesD(2)[OF W] by simp
      qed
    qed
  qed
qed

theorem leased_address_kept_witness:
  "fst (DeclareIP (list_crd lo_name lo_labels) (ex_hlid 1) ''db'' 80 80 ''TCP'' ''k'' False [(''k-tcp-80'', ex_other_ip)]) \<noteq> None"
proof -
  have n: "ip_resource_name ''k'' ''TCP'' 80 = ''k-tcp-80''" by code_simp
  obtain r c' where d: "DeclareIP (list_crd lo_name lo_labels) (ex_hlid 1) ''db'' 80 80 ''TCP'' ''k'' False [(''k-tcp-80'', ex_other_ip)] = (r, c')" by fastforce
  show ?thesis using leased_address_kept[OF list_ips_ok d] d by (simp add: n)
qed

end
