(* ===== verification/MetalLB.thy ===== *)
theory MetalLB
  imports Declarations
begin

text \<open>
  The MetalLB client of the IP operator (cluster/kube/operators/clients/metallb/client.go): a leased
  address is a load-balancer service in the namespace of its lease, named by service, external port and
  protocol; services with the same sharing key get the same address. The Kubernetes services and the
  metrics of MetalLB are parameters; a protocol is its text, ports are at their width, and
  target ports are numbers.
\<close>

section \<open>Services\<close>

definition metalLbAllowSharedIP :: string where "metalLbAllowSharedIP = ''metallb.universe.tf/allow-shared-ip''"
definition metalLbPoolAnnotation :: string where "metalLbPoolAnnotation = ''metallb.universe.tf/address-pool''"
definition metricNameAddrInUse :: string where "metricNameAddrInUse = ''metallb_allocator_addresses_in_use_total''"
definition metricNameAddrTotal :: string where "metricNameAddrTotal = ''metallb_allocator_addresses_total''"
definition defaultMetalLBPoolName :: string where "defaultMetalLBPoolName = ''default''"
definition AkashServiceTarget :: string where "AkashServiceTarget = ''akash.network/service-target''"
definition AkashMetalLB :: string where "AkashMetalLB = ''metal-lb''"
definition AkashManifestServiceLabelName :: string where "AkashManifestServiceLabelName = ''akash.network/manifest-service''"

lemmas metallb_names = metalLbAllowSharedIP_def metalLbPoolAnnotation_def AkashServiceTarget_def AkashMetalLB_def AkashManifestServiceLabelName_def
  defaultMetalLBPoolName_def

record service_port =
  sp_Name :: string
  sp_Protocol :: string
  sp_Port :: u32
  sp_TargetPort :: u32

record lb_service =
  ls_name :: string
  ls_labels :: labels
  ls_annotations :: "string \<rightharpoonup> string"
  ls_loadBalancer :: bool
  ls_ports :: "service_port list"
  ls_selector :: "string \<rightharpoonup> string"
  ls_ingress :: "string list"
  ls_version :: string

record 'c service_api =
  sa_get :: "string \<Rightarrow> string \<Rightarrow> 'c \<Rightarrow> kube_error + lb_service"
  sa_create :: "string \<Rightarrow> lb_service \<Rightarrow> 'c \<Rightarrow> kube_error option \<times> 'c"
  sa_update :: "string \<Rightarrow> lb_service \<Rightarrow> 'c \<Rightarrow> kube_error option \<times> 'c"
  sa_delete :: "string \<Rightarrow> string \<Rightarrow> 'c \<Rightarrow> kube_error option \<times> 'c"
  sa_list :: "string \<Rightarrow> selector \<Rightarrow> 'c \<Rightarrow> kube_error + lb_service list"
  sa_list_all :: "selector \<Rightarrow> 'c \<Rightarrow> kube_error + lb_service list"

datatype lb_error =
    LbKube kube_error
  | LbUnknownProtocol string
  | LbWrongType
  | LbWrongPorts nat
  | LbLabels label_error
  | LbProtocol
  | LbEmptySelector
  | LbBalancers nat
  | LbStatus

text \<open>A nil map reads as empty.\<close>

definition map_text :: "(string \<rightharpoonup> string) \<Rightarrow> string \<Rightarrow> string" where
  "map_text m k = (case m k of None \<Rightarrow> [] | Some v \<Rightarrow> v)"

section \<open>Addresses in use\<close>

text \<open>A metric: its gauge, if it is one, and its labels; the families are listed in the order the map is read.\<close>

type_synonym metric = "nat option \<times> (string \<times> string) list"

fun gauge_of_pool :: "string \<Rightarrow> metric list \<Rightarrow> nat option" where
  "gauge_of_pool pool [] = None"
| "gauge_of_pool pool ((None, _) # ms) = gauge_of_pool pool ms"
| "gauge_of_pool pool ((Some v, ls) # ms) =
     (if list_ex (\<lambda>(n, x). n = ''pool'' \<and> x = pool) ls then Some v else gauge_of_pool pool ms)"

fun scan_families :: "string \<Rightarrow> (string \<times> metric list) list \<Rightarrow> nat option \<Rightarrow> nat option \<Rightarrow> nat option \<times> nat option" where
  "scan_families pool [] used free = (used, free)"
| "scan_families pool ((name, ms) # fs) used free =
     (if used \<noteq> None \<and> free \<noteq> None then (used, free)
      else if name = metricNameAddrInUse
      then scan_families pool fs (case gauge_of_pool pool ms of None \<Rightarrow> used | Some v \<Rightarrow> Some v) free
      else if name = metricNameAddrTotal
      then scan_families pool fs used (case gauge_of_pool pool ms of None \<Rightarrow> free | Some v \<Rightarrow> Some v)
      else scan_families pool fs used free)"

definition zero_or :: "nat option \<Rightarrow> nat" where
  "zero_or v = (case v of None \<Rightarrow> 0 | Some n \<Rightarrow> n)"

text \<open>\<open>answer\<close> is the request for the metrics with its parsing; the result is the pair of the addresses in use and the addresses of the pool.\<close>

definition GetIPAddressUsage :: "string \<Rightarrow> lb_error + (string \<times> metric list) list \<Rightarrow> lb_error + nat \<times> nat" where
  "GetIPAddressUsage pool answer = map_sum (\<lambda>e. e) (\<lambda>fs. map_prod zero_or zero_or (scan_families pool fs None None)) answer"

section \<open>Passthroughs\<close>

record ip_directive =
  id_LeaseID :: lease_id
  id_ServiceName :: string
  id_Port :: u32
  id_ExternalPort :: u32
  id_SharingKey :: string
  id_Protocol :: string

definition createIPPassthroughResourceName :: "ip_directive \<Rightarrow> string" where
  "createIPPassthroughResourceName d = to_lower (id_ServiceName d @ ''-ip-'' @ itoa (unat (id_ExternalPort d)) @ ''-'' @ id_Protocol d)"

definition PurgeIPPassthrough :: "'c service_api \<Rightarrow> (lease_id \<Rightarrow> string) \<Rightarrow> ip_directive \<Rightarrow> 'c \<Rightarrow> lb_error option \<times> 'c" where
  "PurgeIPPassthrough A lidNS d c =
     (case sa_delete A (lidNS (id_LeaseID d)) (createIPPassthroughResourceName d) c of
        (None, c') \<Rightarrow> (None, c')
      | (Some e, c') \<Rightarrow> if IsNotFound e then (None, c') else (Some (LbKube e), c'))"

definition passthrough_service :: "string \<Rightarrow> ip_directive \<Rightarrow> lb_service" where
  "passthrough_service pool d =
     \<lparr>ls_name = createIPPassthroughResourceName d,
      ls_labels = (AppendLeaseLabels (id_LeaseID d) Map.empty)(AkashManagedLabelName \<mapsto> ''true'', AkashServiceTarget \<mapsto> AkashMetalLB),
      ls_annotations = (if pool \<noteq> defaultMetalLBPoolName then [metalLbAllowSharedIP \<mapsto> id_SharingKey d, metalLbPoolAnnotation \<mapsto> pool]
         else [metalLbAllowSharedIP \<mapsto> id_SharingKey d]),
      ls_loadBalancer = True,
      ls_ports = [\<lparr>sp_Name = createIPPassthroughResourceName d, sp_Protocol = id_Protocol d, sp_Port = id_ExternalPort d, sp_TargetPort = id_Port d\<rparr>],
      ls_selector = [AkashManagedLabelName \<mapsto> ''true'', AkashManifestServiceLabelName \<mapsto> id_ServiceName d],
      ls_ingress = [], ls_version = []\<rparr>"

definition CreateIPPassthrough :: "'c service_api \<Rightarrow> (lease_id \<Rightarrow> string) \<Rightarrow> string \<Rightarrow> ip_directive \<Rightarrow> 'c \<Rightarrow> lb_error option \<times> 'c" where
  "CreateIPPassthrough A lidNS pool d c =
     (if id_Protocol d \<notin> {''TCP'', ''UDP''} then (Some (LbUnknownProtocol (id_Protocol d)), c)
      else
        let ns = lidNS (id_LeaseID d); portName = createIPPassthroughResourceName d; svc = passthrough_service pool d
        in (case sa_get A ns portName c of
              Inr foundEntry \<Rightarrow> (case sa_update A ns (svc\<lparr>ls_version := ls_version foundEntry\<rparr>) c of (e, c') \<Rightarrow> (map_option LbKube e, c'))
            | Inl e \<Rightarrow> if IsNotFound e then (case sa_create A ns svc c of (e, c') \<Rightarrow> (map_option LbKube e, c')) else (Some (LbKube e), c)))"

definition metallb_selector :: selector where
  "metallb_selector = [(AkashManagedLabelName, ''true''), (AkashServiceTarget, AkashMetalLB)]"

text \<open>The SDK reads the protocol of a port.\<close>

definition ServiceProtocolFromKube :: "string \<Rightarrow> string option" where
  "ServiceProtocolFromKube p = (if p \<in> {''TCP'', ''UDP''} then Some p else None)"

text \<open>A listed service as a directive; its port is not read. \<open>None\<close> for a service that is not of a deployment.\<close>

definition service_passthrough :: "lb_service \<Rightarrow> lb_error + ip_directive option" where
  "service_passthrough s =
     (if ls_labels s AkashLeaseOwnerLabelName = None then Inr None
      else if \<not> ls_loadBalancer s then Inl LbWrongType
      else case ls_ports s of
        [portDefn] \<Rightarrow>
          (case RecoverLeaseIDFromLabels (ls_labels s) of Inl e \<Rightarrow> Inl (LbLabels e) | Inr lid \<Rightarrow>
           (case ServiceProtocolFromKube (sp_Protocol portDefn) of None \<Rightarrow> Inl LbProtocol | Some mproto \<Rightarrow>
            (let serviceName = map_text (ls_selector s) AkashManifestServiceLabelName in
             if serviceName = [] then Inl LbEmptySelector
             else Inr (Some \<lparr>id_LeaseID = lid, id_ServiceName = serviceName, id_Port = 0, id_ExternalPort = sp_Port portDefn,
                    id_SharingKey = map_text (ls_annotations s) metalLbAllowSharedIP, id_Protocol = mproto\<rparr>))))
      | ps \<Rightarrow> Inl (LbWrongPorts (length ps)))"

definition GetIPPassthroughs :: "'c service_api \<Rightarrow> 'c \<Rightarrow> lb_error + ip_directive list" where
  "GetIPPassthroughs A c =
     (case sa_list_all A metallb_selector c of Inl e \<Rightarrow> Inl (LbKube e)
      | Inr ss \<Rightarrow> map_sum (\<lambda>e. e) (List.map_filter (\<lambda>x. x)) (each_item service_passthrough ss))"

record lease_ip_status =
  lis_Port :: u32
  lis_ExternalPort :: u32
  lis_ServiceName :: string
  lis_IP :: string
  lis_Protocol :: string

definition service_status :: "lb_service \<Rightarrow> lb_error + lease_ip_status" where
  "service_status s =
     (case ls_ingress s of
        [ip] \<Rightarrow>
          (case ls_ports s of
             [port] \<Rightarrow>
               (case ServiceProtocolFromKube (sp_Protocol port) of None \<Rightarrow> Inl LbProtocol
                | Some proto \<Rightarrow> Inr \<lparr>lis_Port = sp_TargetPort port, lis_ExternalPort = sp_Port port,
                    lis_ServiceName = map_text (ls_selector s) AkashManifestServiceLabelName, lis_IP = ip, lis_Protocol = proto\<rparr>)
           | ps \<Rightarrow> Inl (LbWrongPorts (length ps)))
      | is \<Rightarrow> Inl (LbBalancers (length is)))"

definition GetIPAddressStatusForLease :: "'c service_api \<Rightarrow> (lease_id \<Rightarrow> string) \<Rightarrow> lease_id \<Rightarrow> 'c \<Rightarrow> lb_error + lease_ip_status list" where
  "GetIPAddressStatusForLease A lidNS lid c =
     (case sa_list A (lidNS lid) metallb_selector c of Inl e \<Rightarrow> Inl (LbKube e) | Inr ss \<Rightarrow> each_item service_status ss)"

section \<open>What is documented of the calls\<close>

definition service_writes_ok :: "(string \<Rightarrow> lb_service \<Rightarrow> 'c \<Rightarrow> kube_error option \<times> 'c) \<Rightarrow> ('c \<Rightarrow> lb_service objects) \<Rightarrow> bool" where
  "service_writes_ok W store \<longleftrightarrow> (\<forall>ns s c. case W ns s c of
     (None, c') \<Rightarrow> \<exists>v i. store c' = (store c)((ns, ls_name s) \<mapsto> s\<lparr>ls_version := v, ls_ingress := i\<rparr>) | (Some _, c') \<Rightarrow> store c' = store c)"

definition service_deletes_ok :: "'c service_api \<Rightarrow> ('c \<Rightarrow> lb_service objects) \<Rightarrow> bool" where
  "service_deletes_ok A store \<longleftrightarrow> (\<forall>ns n c. case sa_delete A ns n c of
     (None, c') \<Rightarrow> store c' = (store c)((ns, n) := None)
   | (Some e, c') \<Rightarrow> store c' = store c \<and> (IsNotFound e \<longrightarrow> store c (ns, n) = None))"

definition service_lists_ok :: "'c service_api \<Rightarrow> ('c \<Rightarrow> lb_service objects) \<Rightarrow> bool" where
  "service_lists_ok A store \<longleftrightarrow> (\<forall>sel c ss. sa_list_all A sel c = Inr ss \<longrightarrow> set ss = {s \<in> ran (store c). selects sel (ls_labels s)})"

definition service_api_ok :: "'c service_api \<Rightarrow> ('c \<Rightarrow> lb_service objects) \<Rightarrow> bool" where
  "service_api_ok A store \<longleftrightarrow> service_writes_ok (sa_create A) store \<and> service_writes_ok (sa_update A) store \<and>
     service_deletes_ok A store \<and> service_lists_ok A store"

lemma service_writeD:
  assumes "service_writes_ok W store"
  shows "W ns s c = (None, c') \<Longrightarrow> \<exists>v i. store c' = (store c)((ns, ls_name s) \<mapsto> s\<lparr>ls_version := v, ls_ingress := i\<rparr>)"
    "W ns s c = (Some e, c') \<Longrightarrow> store c' = store c"
  using assms[unfolded service_writes_ok_def, THEN spec[of _ ns], THEN spec[of _ s], THEN spec[of _ c]] by simp_all

lemma service_deleteD:
  assumes "service_api_ok A store"
  shows "sa_delete A ns n c = (None, c') \<Longrightarrow> store c' = (store c)((ns, n) := None)"
    "sa_delete A ns n c = (Some e, c') \<Longrightarrow> store c' = store c \<and> (IsNotFound e \<longrightarrow> store c (ns, n) = None)"
proof -
  have "service_deletes_ok A store" using assms by (simp add: service_api_ok_def)
  note w = this[unfolded service_deletes_ok_def, THEN spec[of _ ns], THEN spec[of _ n], THEN spec[of _ c]]
  show "sa_delete A ns n c = (None, c') \<Longrightarrow> store c' = (store c)((ns, n) := None)"
    "sa_delete A ns n c = (Some e, c') \<Longrightarrow> store c' = store c \<and> (IsNotFound e \<longrightarrow> store c (ns, n) = None)"
    using w by simp_all
qed

section \<open>The client keeps a service per directive\<close>

text \<open>A stored service serves a directive when it is what the client writes for it; the controller sets version and address.\<close>

definition serves :: "string \<Rightarrow> ip_directive \<Rightarrow> lb_service \<Rightarrow> bool" where
  "serves pool d s \<longleftrightarrow> (\<exists>v i. s = (passthrough_service pool d)\<lparr>ls_version := v, ls_ingress := i\<rparr>)"

abbreviation service_key :: "(lease_id \<Rightarrow> string) \<Rightarrow> ip_directive \<Rightarrow> string \<times> string" where
  "service_key lidNS d \<equiv> (lidNS (id_LeaseID d), createIPPassthroughResourceName d)"

lemma create_ok:
  assumes "service_api_ok A store" and "CreateIPPassthrough A lidNS pool d c = (None, c')"
  shows "\<exists>s. serves pool d s \<and> store c' = (store c)(service_key lidNS d \<mapsto> s)"
proof -
  have W: "service_writes_ok (sa_create A) store" "service_writes_ok (sa_update A) store" using assms(1) by (simp_all add: service_api_ok_def)
  have nm: "ls_name ((passthrough_service pool d)\<lparr>ls_version := v\<rparr>) = createIPPassthroughResourceName d" for v by (simp add: passthrough_service_def)
  have wr: "\<exists>s. serves pool d s \<and> store c' = (store c)(service_key lidNS d \<mapsto> s)"
    if w: "service_writes_ok W store" and r: "W (lidNS (id_LeaseID d)) ((passthrough_service pool d)\<lparr>ls_version := v\<rparr>) c = (None, c')" for W v
    using service_writeD(1)[OF w r] by (auto simp: serves_def nm)
  have self: "passthrough_service pool d = (passthrough_service pool d)\<lparr>ls_version := []\<rparr>" by (simp add: passthrough_service_def)
  show ?thesis
  proof (cases "sa_get A (lidNS (id_LeaseID d)) (createIPPassthroughResourceName d) c")
    case (Inr f)
    then show ?thesis using assms(2) wr[OF W(2), of "ls_version f"] by (auto simp: CreateIPPassthrough_def Let_def split: if_splits prod.splits)
  next
    case (Inl e)
    then show ?thesis using assms(2) wr[OF W(1), of "[]"] self by (auto simp: CreateIPPassthrough_def Let_def split: if_splits prod.splits)
  qed
qed

lemma create_err:
  assumes "service_api_ok A store" and "CreateIPPassthrough A lidNS pool d c = (Some e, c')"
  shows "store c' = store c"
proof -
  have W: "service_writes_ok (sa_create A) store" "service_writes_ok (sa_update A) store" using assms(1) by (simp_all add: service_api_ok_def)
  show ?thesis using assms(2) service_writeD(2)[OF W(1)] service_writeD(2)[OF W(2)]
    by (auto simp: CreateIPPassthrough_def Let_def split: if_splits sum.splits prod.splits)
qed

lemma purge_ok:
  assumes "service_api_ok A store"
  shows "PurgeIPPassthrough A lidNS d c = (None, c') \<Longrightarrow> store c' = (store c)(service_key lidNS d := None)"
    "PurgeIPPassthrough A lidNS d c = (Some e, c') \<Longrightarrow> store c' = store c"
  using service_deleteD[OF assms, of "lidNS (id_LeaseID d)" "createIPPassthroughResourceName d" c]
  by (auto simp: PurgeIPPassthrough_def split: prod.splits option.splits if_splits)

text \<open>A service read back is the directive it was made for, without its port.\<close>

lemma passthrough_read:
  assumes "serves pool d s" and "id_ServiceName d \<noteq> []" and "id_Protocol d \<in> {''TCP'', ''UDP''}"
  shows "service_passthrough s = Inr (Some (d\<lparr>id_Port := 0\<rparr>))"
proof -
  obtain v i where s: "s = (passthrough_service pool d)\<lparr>ls_version := v, ls_ingress := i\<rparr>" using assms(1) by (auto simp: serves_def)
  have "RecoverLeaseIDFromLabels (ls_labels s) = Inr (id_LeaseID d)" "ls_labels s AkashLeaseOwnerLabelName = Some (l_owner (id_LeaseID d))"
    by (simp_all add: s passthrough_service_def RecoverLeaseIDFromLabels_def AppendLeaseLabels_def label_names metallb_names)
  moreover have "ls_loadBalancer s" "ls_ports s = [\<lparr>sp_Name = createIPPassthroughResourceName d, sp_Protocol = id_Protocol d, sp_Port = id_ExternalPort d,
      sp_TargetPort = id_Port d\<rparr>]" by (simp_all add: s passthrough_service_def)
  moreover have "map_text (ls_selector s) AkashManifestServiceLabelName = id_ServiceName d" "map_text (ls_annotations s) metalLbAllowSharedIP = id_SharingKey d"
    by (simp_all add: s passthrough_service_def map_text_def label_names metallb_names)
  ultimately show ?thesis using assms(2,3) by (auto simp: service_passthrough_def ServiceProtocolFromKube_def Let_def)
qed

end
