(* ===== verification/IPOperator.thy ===== *)
theory IPOperator
  imports MetalLB
begin

text \<open>
  The operator of leased addresses (operator/ip/operator.go, operator/ip/types.go): it watches the
  declared addresses and keeps a MetalLB service for each, counts the addresses of the pool, and answers
  status requests behind a barrier that is closed while it restarts. The cluster is an argument the
  calls pass on; what is served over HTTP from prepared results is in OperatorCommon.
\<close>

section \<open>Events\<close>

record ip_event =
  ie_lID :: lease_id
  ie_type :: resource_event
  ie_serviceName :: string
  ie_port :: u32
  ie_externalPort :: u32
  ie_sharingKey :: string
  ie_protocol :: string

datatype ip_observe_error = ObsOwner string | ObsProvider string | ObsLease crd_error | ObsProtocol string

text \<open>A declared address as an event; \<open>addr\<close> parses an address, \<open>pp\<close> a protocol.\<close>

definition ip_event_of ::
  "(string \<Rightarrow> string option) \<Rightarrow> (string \<Rightarrow> string option) \<Rightarrow> resource_event \<Rightarrow> leased_ip_spec \<Rightarrow> ip_observe_error + ip_event" where
  "ip_event_of addr pp t s =
     (if addr (cl_Owner (li_LeaseID s)) = None then Inl (ObsOwner (cl_Owner (li_LeaseID s)))
      else if addr (cl_Provider (li_LeaseID s)) = None then Inl (ObsProvider (cl_Provider (li_LeaseID s)))
      else (case LeaseID_FromCRD addr (li_LeaseID s) of Inl e \<Rightarrow> Inl (ObsLease e) | Inr lid \<Rightarrow>
       (case pp (li_Protocol s) of None \<Rightarrow> Inl (ObsProtocol (li_Protocol s)) | Some proto \<Rightarrow>
          Inr \<lparr>ie_lID = lid, ie_type = t, ie_serviceName = li_ServiceName s, ie_port = li_Port s, ie_externalPort = li_ExternalPort s,
               ie_sharingKey = li_SharingKey s, ie_protocol = proto\<rparr>)))"

text \<open>The listed addresses: one that cannot be read fails the observation.\<close>

definition observe_ip_initial ::
  "(string \<Rightarrow> string option) \<Rightarrow> (string \<Rightarrow> string option) \<Rightarrow> leased_ip_spec list \<Rightarrow> ip_observe_error + ip_event list" where
  "observe_ip_initial addr pp data = each_item (ip_event_of addr pp ProviderResourceAdd) data"

text \<open>The watch: the events sent, and whether the goroutine panics, which it does on an object of another type.\<close>

fun observe_ip_watch ::
  "(string \<Rightarrow> string option) \<Rightarrow> (string \<Rightarrow> string option) \<Rightarrow> (watch_type \<times> leased_ip_spec option) list \<Rightarrow> ip_event list \<times> bool" where
  "observe_ip_watch addr pp [] = ([], False)"
| "observe_ip_watch addr pp ((t, None) # rs) = ([], True)"
| "observe_ip_watch addr pp ((t, Some s) # rs) =
     (let rest = observe_ip_watch addr pp rs in
      case ip_event_of addr pp (case event_of_watch t of Some et \<Rightarrow> et | None \<Rightarrow> ProviderResourceOther) s of
        Inl _ \<Rightarrow> rest
      | Inr ev \<Rightarrow> if t = WatchBookmark then rest else (ev # fst rest, snd rest))"

section \<open>The operator\<close>

record managedIP =
  mi_presentLease :: lease_id
  mi_presentServiceName :: string
  mi_lastEvent :: "ip_event option"
  mi_presentSharingKey :: string
  mi_presentExternalPort :: u32
  mi_presentPort :: u32
  mi_lastChangedAt :: int
  mi_presentProtocol :: string

record 'c ipOperator =
  io_state :: "string \<rightharpoonup> managedIP"
  io_leasesIgnored :: ignoreList
  io_available :: nat
  io_used :: nat
  io_flagState :: bool
  io_flagIgnored :: bool
  io_flagUsage :: bool
  io_cluster :: 'c

record 'c ip_env =
  iv_api :: "'c service_api"
  iv_lidNS :: "lease_id \<Rightarrow> string"
  iv_pool :: string
  iv_metrics :: "'c \<Rightarrow> lb_error + (string \<times> metric list) list"

datatype ip_error =
    IpLb lb_error
  | IpUnknownEvent
  | IpStopped
  | IpCanceled
  | IpObserve ip_observe_error
  | IpWatch string

definition getStateKey :: "lease_id \<Rightarrow> string \<Rightarrow> u32 \<Rightarrow> string" where
  "getStateKey lid sharingKey externalPort = l_owner lid @ ''-'' @ sharingKey @ ''-'' @ itoa (unat externalPort)"

definition buildIPDirective :: "ip_event \<Rightarrow> ip_directive" where
  "buildIPDirective ev = \<lparr>id_LeaseID = ie_lID ev, id_ServiceName = ie_serviceName ev, id_Port = ie_port ev, id_ExternalPort = ie_externalPort ev,
     id_SharingKey = ie_sharingKey ev, id_Protocol = ie_protocol ev\<rparr>"

definition entry_directive :: "managedIP \<Rightarrow> ip_directive" where
  "entry_directive e = \<lparr>id_LeaseID = mi_presentLease e, id_ServiceName = mi_presentServiceName e, id_Port = mi_presentPort e,
     id_ExternalPort = mi_presentExternalPort e, id_SharingKey = mi_presentSharingKey e, id_Protocol = mi_presentProtocol e\<rparr>"

definition io_recordEventError :: "int \<Rightarrow> ip_event \<Rightarrow> lb_error option \<Rightarrow> 'c ipOperator \<Rightarrow> 'c ipOperator" where
  "io_recordEventError now ev failure op =
     (case failure of
        Some (LbKube e) \<Rightarrow>
          if IsNotFound e then op\<lparr>io_leasesIgnored := AddError now (ie_lID ev) ''not found'' [ie_sharingKey ev] (io_leasesIgnored op), io_flagIgnored := True\<rparr>
          else op
      | _ \<Rightarrow> op)"

definition io_applyDeleteEvent :: "'c ip_env \<Rightarrow> ip_event \<Rightarrow> 'c ipOperator \<Rightarrow> lb_error option \<times> 'c ipOperator" where
  "io_applyDeleteEvent E ev op =
     (case PurgeIPPassthrough (iv_api E) (iv_lidNS E) (buildIPDirective ev) (io_cluster op) of
        (Some e, c) \<Rightarrow> (Some e, op\<lparr>io_cluster := c\<rparr>)
      | (None, c) \<Rightarrow> (None, op\<lparr>io_cluster := c,
           io_state := (io_state op)(getStateKey (ie_lID ev) (ie_sharingKey ev) (ie_externalPort ev) := None), io_flagState := True\<rparr>))"

definition hasChanged :: "managedIP \<Rightarrow> ip_event \<Rightarrow> bool" where
  "hasChanged entry ev \<longleftrightarrow> mi_presentServiceName entry \<noteq> ie_serviceName ev \<or> mi_presentPort entry \<noteq> ie_port ev \<or>
     mi_presentSharingKey entry \<noteq> ie_sharingKey ev \<or> mi_presentExternalPort entry \<noteq> ie_externalPort ev \<or> mi_presentProtocol entry \<noteq> ie_protocol ev"

text \<open>The calls an add or update makes: the error, the cluster, and whether the old entry is gone.\<close>

definition connect_ip :: "'c ip_env \<Rightarrow> ip_event \<Rightarrow> managedIP option \<Rightarrow> 'c \<Rightarrow> lb_error option \<times> 'c \<times> bool" where
  "connect_ip E ev entry c =
     (let create = CreateIPPassthrough (iv_api E) (iv_lidNS E) (iv_pool E) (buildIPDirective ev)
      in case entry of
           None \<Rightarrow> (case create c of (e, c') \<Rightarrow> (e, c', False))
         | Some old \<Rightarrow>
             if mi_presentLease old = ie_lID ev
             then (if hasChanged old ev then (case create c of (e, c') \<Rightarrow> (e, c', False)) else (None, c, False))
             else (case PurgeIPPassthrough (iv_api E) (iv_lidNS E) (entry_directive old) c of
                     (Some e, c1) \<Rightarrow> (Some e, c1, False)
                   | (None, c1) \<Rightarrow> (case create c1 of (e, c2) \<Rightarrow> (e, c2, True))))"

definition io_applyAddOrUpdateEvent :: "'c ip_env \<Rightarrow> int \<Rightarrow> ip_event \<Rightarrow> 'c ipOperator \<Rightarrow> lb_error option \<times> 'c ipOperator" where
  "io_applyAddOrUpdateEvent E now ev op =
     (let uid = getStateKey (ie_lID ev) (ie_sharingKey ev) (ie_externalPort ev)
      in case connect_ip E ev (io_state op uid) (io_cluster op) of
           (Some e, c, gone) \<Rightarrow> (Some e, op\<lparr>io_cluster := c, io_state := (if gone then (io_state op)(uid := None) else io_state op)\<rparr>)
         | (None, c, gone) \<Rightarrow> (None, op\<lparr>io_cluster := c, io_flagState := True, io_state := (io_state op)(uid \<mapsto>
              \<lparr>mi_presentLease = ie_lID ev, mi_presentServiceName = ie_serviceName ev, mi_lastEvent = Some ev, mi_presentSharingKey = ie_sharingKey ev,
               mi_presentExternalPort = ie_externalPort ev, mi_presentPort = ie_port ev, mi_lastChangedAt = now, mi_presentProtocol = ie_protocol ev\<rparr>)\<rparr>))"

definition io_applyEvent :: "'c ip_env \<Rightarrow> int \<Rightarrow> ip_event \<Rightarrow> 'c ipOperator \<Rightarrow> ip_error option \<times> 'c ipOperator" where
  "io_applyEvent E now ev op =
     (case ie_type ev of
        ProviderResourceDelete \<Rightarrow> (case io_applyDeleteEvent E ev op of (e, op') \<Rightarrow> (map_option IpLb e, op'))
      | ProviderResourceOther \<Rightarrow> (Some IpUnknownEvent, op)
      | _ \<Rightarrow>
         (if IsFlagged (io_leasesIgnored op) (ie_lID ev) then (None, op)
          else (case io_applyAddOrUpdateEvent E now ev op of (e, op') \<Rightarrow> (map_option IpLb e, io_recordEventError now ev e op'))))"

definition updateCounts :: "'c ip_env \<Rightarrow> 'c ipOperator \<Rightarrow> ip_error option \<times> 'c ipOperator" where
  "updateCounts E op =
     (case GetIPAddressUsage (iv_pool E) (iv_metrics E (io_cluster op)) of
        Inl e \<Rightarrow> (Some (IpLb e), op)
      | Inr (u, a) \<Rightarrow> (None, op\<lparr>io_used := u, io_available := a, io_flagUsage := True\<rparr>))"

section \<open>A round of observation\<close>

text \<open>The entry made for a service found at the start; its protocol is not set.\<close>

definition passthrough_entry :: "int \<Rightarrow> ip_directive \<Rightarrow> managedIP" where
  "passthrough_entry startupTime d = \<lparr>mi_presentLease = id_LeaseID d, mi_presentServiceName = id_ServiceName d, mi_lastEvent = None,
     mi_presentSharingKey = id_SharingKey d, mi_presentExternalPort = id_ExternalPort d, mi_presentPort = id_Port d, mi_lastChangedAt = startupTime,
     mi_presentProtocol = []\<rparr>"

definition ip_table_of :: "int \<Rightarrow> ip_directive list \<Rightarrow> string \<rightharpoonup> managedIP" where
  "ip_table_of now ds = foldl (\<lambda>m d. m(getStateKey (id_LeaseID d) (id_SharingKey d) (id_ExternalPort d) \<mapsto> passthrough_entry now d)) Map.empty ds"

text \<open>\<open>others\<close> is the first error of observing the declarations, watching the pools and preparing the results.\<close>

definition io_start :: "'c ip_env \<Rightarrow> int \<Rightarrow> ip_error option \<Rightarrow> 'c ipOperator \<Rightarrow> ip_error option \<times> 'c ipOperator" where
  "io_start E now others op =
     (let op = op\<lparr>io_state := Map.empty\<rparr> in
      case GetIPPassthroughs (iv_api E) (io_cluster op) of
        Inl e \<Rightarrow> (Some (IpLb e), op)
      | Inr ds \<Rightarrow>
          (case updateCounts E (op\<lparr>io_state := ip_table_of now ds, io_flagState := True\<rparr>) of
             (Some e, op') \<Rightarrow> (Some e, op')
           | (None, op') \<Rightarrow> (others, op')))"

datatype ip_input =
    IiDone
  | IiEvent ip_event int
  | IiClosed
  | IiPrune "lease_id \<Rightarrow> int" "lease_id list" "lease_id list"
  | IiPrepare
  | IiUpdate
  | IiPool
  | IiPoolClosed

text \<open>A turn goes on, or ends the loop with its error; a closed watch of the pools ends it with none.\<close>

datatype ip_turn = Goes | Ends "ip_error option"

definition counted :: "'c ip_env \<Rightarrow> 'c ipOperator \<Rightarrow> ip_turn \<times> 'c ipOperator" where
  "counted E op =
     (case updateCounts E op of
        (Some e, op') \<Rightarrow> (Ends (Some e), op')
      | (None, op') \<Rightarrow> (Goes, op'\<lparr>io_flagState := False, io_flagIgnored := False, io_flagUsage := False\<rparr>))"

fun io_turn :: "'c ip_env \<Rightarrow> 'c ipOperator \<Rightarrow> ip_input \<Rightarrow> ip_turn \<times> 'c ipOperator" where
  "io_turn E op IiDone = (Ends (Some IpCanceled), op)"
| "io_turn E op IiClosed = (Ends (Some IpStopped), op)"
| "io_turn E op IiPoolClosed = (Ends None, op)"
| "io_turn E op (IiEvent ev now) =
     (case io_applyEvent E now ev op of (Some e, op') \<Rightarrow> (Ends (Some e), op') | (None, op') \<Rightarrow> counted E op')"
| "io_turn E op (IiPrune now o1 o2) =
     (Goes, op\<lparr>io_leasesIgnored := snd (Prune now o1 o2 (io_leasesIgnored op)), io_flagState := False, io_flagIgnored := False, io_flagUsage := False\<rparr>)"
| "io_turn E op IiPrepare = (Goes, op\<lparr>io_flagState := False, io_flagIgnored := False, io_flagUsage := False\<rparr>)"
| "io_turn E op IiUpdate = counted E op"
| "io_turn E op IiPool = counted E op"

fun io_loop :: "'c ip_env \<Rightarrow> 'c ipOperator \<Rightarrow> ip_input list \<Rightarrow> ip_turn \<times> 'c ipOperator" where
  "io_loop E op [] = (Goes, op)"
| "io_loop E op (i # is) = (case io_turn E op i of (Goes, op') \<Rightarrow> io_loop E op' is | r \<Rightarrow> r)"

definition io_monitorUntilError :: "'c ip_env \<Rightarrow> int \<Rightarrow> ip_error option \<Rightarrow> 'c ipOperator \<Rightarrow> ip_input list \<Rightarrow> ip_turn \<times> 'c ipOperator" where
  "io_monitorUntilError E now others op is =
     (case io_start E now others op of (Some e, op') \<Rightarrow> (Ends (Some e), op') | (None, op') \<Rightarrow> io_loop E op' is)"

section \<open>The status of a lease over HTTP\<close>

datatype ip_response =
    IpNotFound
  | IpServerError lb_error
  | IpNoContent
  | IpStatus "lease_ip_status list"

definition handleIPLeaseStatusGet ::
  "'c ip_env \<Rightarrow> (string \<Rightarrow> string option) \<Rightarrow> string \<Rightarrow> string \<Rightarrow> string \<Rightarrow> string \<Rightarrow> string \<Rightarrow> 'c \<Rightarrow> ip_response" where
  "handleIPLeaseStatusGet E addr provider ownerV dseqV gseqV oseqV c =
     (case parse_u64 dseqV of None \<Rightarrow> IpNotFound | Some dseq \<Rightarrow>
      (case parse_u32 gseqV of None \<Rightarrow> IpNotFound | Some gseq \<Rightarrow>
       (case parse_u32 oseqV of None \<Rightarrow> IpNotFound | Some oseq \<Rightarrow>
        if addr ownerV = None then IpNotFound
        else (case GetIPAddressStatusForLease (iv_api E) (iv_lidNS E)
                \<lparr>l_owner = ownerV, l_dseq = dseq, l_gseq = gseq, l_oseq = oseq, l_provider = provider\<rparr> c of
                Inl e \<Rightarrow> IpServerError e
              | Inr st \<Rightarrow> if st = [] then IpNoContent else IpStatus st))))"

section \<open>The table and the services\<close>

abbreviation event_key :: "ip_event \<Rightarrow> string" where
  "event_key ev \<equiv> getStateKey (ie_lID ev) (ie_sharingKey ev) (ie_externalPort ev)"

abbreviation known :: "managedIP \<Rightarrow> bool" where
  "known e \<equiv> mi_presentProtocol e \<in> {''TCP'', ''UDP''}"

text \<open>What an entry declares. One made by an event is its directive; one made at a start lacks the target port and the protocol,
  so it stands for the directives that differ from it in these only.\<close>

definition entry_directives :: "managedIP \<Rightarrow> ip_directive set" where
  "entry_directives e = (if known e then {entry_directive e}
     else {d. \<exists>p q. p \<in> {''TCP'', ''UDP''} \<and> d = (entry_directive e)\<lparr>id_Protocol := p, id_Port := q\<rparr>})"

text \<open>Every entry of the table has a service made for what it declares.\<close>

definition address_served :: "string \<Rightarrow> (lease_id \<Rightarrow> string) \<Rightarrow> ip_directive \<Rightarrow> lb_service objects \<Rightarrow> bool" where
  "address_served pool lidNS d st \<longleftrightarrow> (\<exists>s. st (service_key lidNS d) = Some s \<and> serves pool d s)"

definition ip_table_ok :: "string \<Rightarrow> (lease_id \<Rightarrow> string) \<Rightarrow> (string \<rightharpoonup> managedIP) \<Rightarrow> lb_service objects \<Rightarrow> bool" where
  "ip_table_ok pool lidNS t st \<longleftrightarrow> (\<forall>k e. t k = Some e \<longrightarrow> (\<exists>d \<in> entry_directives e. address_served pool lidNS d st))"

text \<open>No other entry of the table may have the service of the event, or the one the event replaces.\<close>

definition event_apart :: "(lease_id \<Rightarrow> string) \<Rightarrow> (string \<rightharpoonup> managedIP) \<Rightarrow> ip_event \<Rightarrow> bool" where
  "event_apart lidNS t ev \<longleftrightarrow> (\<forall>k e d. k \<noteq> event_key ev \<and> t k = Some e \<and> d \<in> entry_directives e \<longrightarrow>
     service_key lidNS d \<noteq> service_key lidNS (buildIPDirective ev) \<and>
     (\<forall>old. t (event_key ev) = Some old \<longrightarrow> service_key lidNS d \<noteq> service_key lidNS (entry_directive old)))"

text \<open>The services with the operator's labels are as the client writes them, in the namespace of their lease.\<close>

definition services_written :: "string \<Rightarrow> (lease_id \<Rightarrow> string) \<Rightarrow> lb_service objects \<Rightarrow> bool" where
  "services_written pool lidNS st \<longleftrightarrow> (\<forall>k s. st k = Some s \<and> selects metallb_selector (ls_labels s) \<longrightarrow>
     (\<exists>d. k = service_key lidNS d \<and> serves pool d s \<and> id_ServiceName d \<noteq> [] \<and> id_Protocol d \<in> {''TCP'', ''UDP''}))"

lemma entry_directives_known: "known e \<Longrightarrow> entry_directives e = {entry_directive e}"
  by (simp add: entry_directives_def)

lemma ip_table_okD: "ip_table_ok pool lidNS t st \<Longrightarrow> t k = Some e \<Longrightarrow> \<exists>d \<in> entry_directives e. address_served pool lidNS d st"
  unfolding ip_table_ok_def by blast

lemma served_other: "k \<noteq> service_key lidNS d \<Longrightarrow> address_served pool lidNS d (st(k := x)) \<longleftrightarrow> address_served pool lidNS d st"
  by (auto simp: address_served_def)

lemma served_set: "serves pool d s \<Longrightarrow> address_served pool lidNS d (st(service_key lidNS d \<mapsto> s))"
  by (simp add: address_served_def)

lemma ip_table_drop:
  assumes "ip_table_ok pool lidNS t st"
    and "\<And>k e d. k \<noteq> key \<Longrightarrow> t k = Some e \<Longrightarrow> d \<in> entry_directives e \<Longrightarrow> service_key lidNS d \<noteq> sk"
  shows "ip_table_ok pool lidNS (t(key := None)) (st(sk := x))"
  unfolding ip_table_ok_def
proof (intro allI impI)
  fix k e assume "(t(key := None)) k = Some e"
  then have k: "k \<noteq> key" "t k = Some e" by (auto split: if_splits)
  from ip_table_okD[OF assms(1) k(2)] obtain d where d: "d \<in> entry_directives e" "address_served pool lidNS d st" by blast
  have "address_served pool lidNS d (st(sk := x))"
    using served_other[of sk lidNS d pool st x] assms(2)[OF k d(1)] d(2) by metis
  with d(1) show "\<exists>d \<in> entry_directives e. address_served pool lidNS d (st(sk := x))" by blast
qed

lemma ip_table_set:
  assumes "ip_table_ok pool lidNS t st"
    and "\<And>k e d. k \<noteq> key \<Longrightarrow> t k = Some e \<Longrightarrow> d \<in> entry_directives e \<Longrightarrow> service_key lidNS d \<noteq> service_key lidNS (entry_directive e0)"
    and "serves pool (entry_directive e0) s" and "known e0"
  shows "ip_table_ok pool lidNS (t(key \<mapsto> e0)) (st(service_key lidNS (entry_directive e0) \<mapsto> s))"
proof -
  have "ip_table_ok pool lidNS (t(key := None)) (st(service_key lidNS (entry_directive e0) \<mapsto> s))"
    by (rule ip_table_drop[OF assms(1,2)])
  then show ?thesis using served_set[OF assms(3)] entry_directives_known[OF assms(4)]
    by (auto simp: ip_table_ok_def split: if_splits)
qed

definition event_entry :: "int \<Rightarrow> ip_event \<Rightarrow> managedIP" where
  "event_entry now ev = \<lparr>mi_presentLease = ie_lID ev, mi_presentServiceName = ie_serviceName ev, mi_lastEvent = Some ev, mi_presentSharingKey = ie_sharingKey ev,
     mi_presentExternalPort = ie_externalPort ev, mi_presentPort = ie_port ev, mi_lastChangedAt = now, mi_presentProtocol = ie_protocol ev\<rparr>"

lemma event_entry_directive [simp]: "entry_directive (event_entry now ev) = buildIPDirective ev"
  by (simp add: event_entry_def entry_directive_def buildIPDirective_def)

lemma unchanged_directives: "mi_presentLease e = ie_lID ev \<Longrightarrow> \<not> hasChanged e ev \<Longrightarrow> entry_directives (event_entry now ev) = entry_directives e"
  by (simp add: hasChanged_def entry_directives_def entry_directive_def event_entry_def)

lemma create_protocol: "CreateIPPassthrough A lidNS pool d c = (None, c') \<Longrightarrow> id_Protocol d \<in> {''TCP'', ''UDP''}"
  by (auto simp: CreateIPPassthrough_def split: if_splits)

text \<open>What an add or update does to the services, by the entry it finds.\<close>

lemma connect_ip_ok:
  assumes "service_api_ok (iv_api E) store" and "connect_ip E ev entry c = (None, c', gone)"
  shows "(\<exists>s. serves (iv_pool E) (buildIPDirective ev) s \<and> ie_protocol ev \<in> {''TCP'', ''UDP''} \<and>
       store c' = (case entry of Some old \<Rightarrow> if mi_presentLease old = ie_lID ev then store c
           else (store c)(service_key (iv_lidNS E) (entry_directive old) := None) | None \<Rightarrow> store c)(service_key (iv_lidNS E) (buildIPDirective ev) \<mapsto> s)) \<or>
    (\<exists>old. entry = Some old \<and> mi_presentLease old = ie_lID ev \<and> \<not> hasChanged old ev \<and> store c' = store c)"
proof (cases entry)
  case None
  then have "CreateIPPassthrough (iv_api E) (iv_lidNS E) (iv_pool E) (buildIPDirective ev) c = (None, c')"
    using assms(2) by (auto simp: connect_ip_def split: prod.splits)
  from create_ok[OF assms(1) this] create_protocol[OF this] show ?thesis using None by (auto simp: buildIPDirective_def)
next
  case (Some old)
  show ?thesis
  proof (cases "mi_presentLease old = ie_lID ev")
    case True
    show ?thesis
    proof (cases "hasChanged old ev")
      case True
      then have "CreateIPPassthrough (iv_api E) (iv_lidNS E) (iv_pool E) (buildIPDirective ev) c = (None, c')"
        using assms(2) Some \<open>mi_presentLease old = ie_lID ev\<close> by (auto simp: connect_ip_def split: prod.splits)
      from create_ok[OF assms(1) this] create_protocol[OF this] show ?thesis
        using Some \<open>mi_presentLease old = ie_lID ev\<close> by (auto simp: buildIPDirective_def)
    next
      case False
      then show ?thesis using assms(2) Some True by (auto simp: connect_ip_def)
    qed
  next
    case False
    then obtain c1 where c1: "PurgeIPPassthrough (iv_api E) (iv_lidNS E) (entry_directive old) c = (None, c1)"
        "CreateIPPassthrough (iv_api E) (iv_lidNS E) (iv_pool E) (buildIPDirective ev) c1 = (None, c')"
      using assms(2) Some by (auto simp: connect_ip_def split: prod.splits option.splits)
    from create_ok[OF assms(1) c1(2)] create_protocol[OF c1(2)] show ?thesis
      using purge_ok(1)[OF assms(1) c1(1)] Some False by (auto simp: buildIPDirective_def)
  qed
qed

lemma connect_ip_err:
  assumes "service_api_ok (iv_api E) store" and "connect_ip E ev entry c = (Some e, c', gone)"
  shows "(\<not> gone \<and> store c' = store c) \<or>
    (gone \<and> (\<exists>old. entry = Some old \<and> mi_presentLease old \<noteq> ie_lID ev \<and> store c' = (store c)(service_key (iv_lidNS E) (entry_directive old) := None)))"
  using assms(2) purge_ok[OF assms(1)] create_err[OF assms(1)]
  by (auto simp: connect_ip_def Let_def split: option.splits if_splits prod.splits)

lemma io_add_ok:
  assumes A: "service_api_ok (iv_api E) store" and ok: "ip_table_ok (iv_pool E) (iv_lidNS E) (io_state op) (store (io_cluster op))"
    and ap: "event_apart (iv_lidNS E) (io_state op) ev" and r: "io_applyAddOrUpdateEvent E now ev op = (e, op')"
  shows "ip_table_ok (iv_pool E) (iv_lidNS E) (io_state op') (store (io_cluster op'))"
proof -
  let ?k = "event_key ev" and ?old = "io_state op (event_key ev)"
  obtain e1 c1 gone where c: "connect_ip E ev ?old (io_cluster op) = (e1, c1, gone)" by (metis prod_cases3)
  have apart: "service_key (iv_lidNS E) d \<noteq> service_key (iv_lidNS E) (buildIPDirective ev)"
      "?old = Some old \<Longrightarrow> service_key (iv_lidNS E) d \<noteq> service_key (iv_lidNS E) (entry_directive old)"
    if "k \<noteq> ?k" "io_state op k = Some x" "d \<in> entry_directives x" for k x d old
    using ap that unfolding event_apart_def by blast+
  show ?thesis
  proof (cases e1)
    case None
    have op': "io_state op' = (io_state op)(?k \<mapsto> event_entry now ev)" "io_cluster op' = c1"
      using r c None by (auto simp: io_applyAddOrUpdateEvent_def Let_def event_entry_def)
    let ?st = "case ?old of Some old \<Rightarrow> if mi_presentLease old = ie_lID ev then store (io_cluster op)
         else (store (io_cluster op))(service_key (iv_lidNS E) (entry_directive old) := None) | None \<Rightarrow> store (io_cluster op)"
    from connect_ip_ok[OF A c[unfolded None]] show ?thesis
    proof
      assume "\<exists>old. ?old = Some old \<and> mi_presentLease old = ie_lID ev \<and> \<not> hasChanged old ev \<and> store c1 = store (io_cluster op)"
      then obtain old where o: "?old = Some old" "mi_presentLease old = ie_lID ev" "\<not> hasChanged old ev" "store c1 = store (io_cluster op)" by blast
      show ?thesis using ip_table_okD[OF ok] ip_table_okD[OF ok o(1)] unchanged_directives[OF o(2,3)]
        unfolding ip_table_ok_def op' o(4) by (auto split: if_splits)
    next
      assume "\<exists>s. serves (iv_pool E) (buildIPDirective ev) s \<and> ie_protocol ev \<in> {''TCP'', ''UDP''} \<and>
         store c1 = ?st(service_key (iv_lidNS E) (buildIPDirective ev) \<mapsto> s)"
      then obtain s where s: "serves (iv_pool E) (buildIPDirective ev) s" "ie_protocol ev \<in> {''TCP'', ''UDP''}"
          "store c1 = ?st(service_key (iv_lidNS E) (buildIPDirective ev) \<mapsto> s)" by blast
      have dropped: "ip_table_ok (iv_pool E) (iv_lidNS E) ((io_state op)(?k := None)) ?st"
      proof (cases ?old)
        case None
        then show ?thesis using ok by (auto simp: ip_table_ok_def)
      next
        case (Some old)
        have "ip_table_ok (iv_pool E) (iv_lidNS E) ((io_state op)(?k := None)) (store (io_cluster op))"
          using ok by (auto simp: ip_table_ok_def split: if_splits)
        moreover have "ip_table_ok (iv_pool E) (iv_lidNS E) ((io_state op)(?k := None)) ((store (io_cluster op))(service_key (iv_lidNS E) (entry_directive old) := None))"
          by (rule ip_table_drop[OF ok]) (use apart(2) Some in blast)
        ultimately show ?thesis using Some by simp
      qed
      have "known (event_entry now ev)" using s(2) by (simp add: event_entry_def)
      then have "ip_table_ok (iv_pool E) (iv_lidNS E) (((io_state op)(?k := None))(?k \<mapsto> event_entry now ev))
          (?st(service_key (iv_lidNS E) (entry_directive (event_entry now ev)) \<mapsto> s))"
        by (intro ip_table_set[OF dropped]) (use apart(1) s(1) in \<open>auto split: if_splits\<close>)
      then show ?thesis using s(3) op' by simp
    qed
  next
    case (Some x)
    then show ?thesis using connect_ip_err[OF A c[unfolded Some]] r c ok ip_table_drop[OF ok apart(2)]
      by (auto simp: io_applyAddOrUpdateEvent_def Let_def)
  qed
qed

lemma io_delete_ok:
  assumes A: "service_api_ok (iv_api E) store" and ok: "ip_table_ok (iv_pool E) (iv_lidNS E) (io_state op) (store (io_cluster op))"
    and ap: "event_apart (iv_lidNS E) (io_state op) ev" and r: "io_applyDeleteEvent E ev op = (e, op')"
  shows "ip_table_ok (iv_pool E) (iv_lidNS E) (io_state op') (store (io_cluster op'))"
    "e = None \<Longrightarrow> store (io_cluster op') = (store (io_cluster op))(service_key (iv_lidNS E) (buildIPDirective ev) := None)"
proof -
  obtain e1 c1 where p: "PurgeIPPassthrough (iv_api E) (iv_lidNS E) (buildIPDirective ev) (io_cluster op) = (e1, c1)" by fastforce
  have apart: "service_key (iv_lidNS E) d \<noteq> service_key (iv_lidNS E) (buildIPDirective ev)"
    if "k \<noteq> event_key ev" "io_state op k = Some x" "d \<in> entry_directives x" for k x d using ap that unfolding event_apart_def by blast
  show "ip_table_ok (iv_pool E) (iv_lidNS E) (io_state op') (store (io_cluster op'))"
  proof (cases e1)
    case None
    then show ?thesis using r p purge_ok(1)[OF A p[unfolded None]] ip_table_drop[OF ok apart]
      by (auto simp: io_applyDeleteEvent_def)
  next
    case (Some x)
    then show ?thesis using r p purge_ok(2)[OF A p[unfolded Some]] ok by (auto simp: io_applyDeleteEvent_def)
  qed
  show "e = None \<Longrightarrow> store (io_cluster op') = (store (io_cluster op))(service_key (iv_lidNS E) (buildIPDirective ev) := None)"
    using r p purge_ok(1)[OF A, of "iv_lidNS E" "buildIPDirective ev" "io_cluster op" c1] by (cases e1) (auto simp: io_applyDeleteEvent_def)
qed

lemma io_recordEventError_sel [simp]: "io_state (io_recordEventError now ev f op) = io_state op" "io_cluster (io_recordEventError now ev f op) = io_cluster op"
  by (simp_all add: io_recordEventError_def split: option.split lb_error.split)

abbreviation io_ok :: "'c ip_env \<Rightarrow> ('c \<Rightarrow> lb_service objects) \<Rightarrow> 'c ipOperator \<Rightarrow> bool" where
  "io_ok E store op \<equiv> ip_table_ok (iv_pool E) (iv_lidNS E) (io_state op) (store (io_cluster op))"

lemma io_applyEvent_ok:
  assumes "service_api_ok (iv_api E) store" and "io_ok E store op" and "event_apart (iv_lidNS E) (io_state op) ev"
    and "io_applyEvent E now ev op = (e, op')"
  shows "io_ok E store op'"
proof (cases "ie_type ev = ProviderResourceDelete")
  case True
  obtain e1 op1 where "io_applyDeleteEvent E ev op = (e1, op1)" by fastforce
  then show ?thesis using io_delete_ok(1)[OF assms(1-3)] assms(4) True by (simp add: io_applyEvent_def)
next
  case False
  obtain e1 op1 where "io_applyAddOrUpdateEvent E now ev op = (e1, op1)" by fastforce
  then show ?thesis using io_add_ok[OF assms(1-3)] assms(2,4) False
    by (cases "ie_type ev") (auto simp: io_applyEvent_def split: if_splits)
qed

lemma updateCounts_sel [simp]: "io_state (snd (updateCounts E op)) = io_state op" "io_cluster (snd (updateCounts E op)) = io_cluster op"
  "io_leasesIgnored (snd (updateCounts E op)) = io_leasesIgnored op"
  by (auto simp: updateCounts_def split: sum.split prod.split)

lemma counted_sel [simp]: "io_state (snd (counted E op)) = io_state op" "io_cluster (snd (counted E op)) = io_cluster op"
  using updateCounts_sel(1,2)[of E op] by (cases "updateCounts E op"; cases "fst (updateCounts E op)"; simp add: counted_def)+

text \<open>Along a round, each event is apart from the other entries of the table.\<close>

fun round_apart :: "'c ip_env \<Rightarrow> 'c ipOperator \<Rightarrow> ip_input list \<Rightarrow> bool" where
  "round_apart E op [] = True"
| "round_apart E op (i # is) =
     ((case i of IiEvent ev now \<Rightarrow> event_apart (iv_lidNS E) (io_state op) ev | _ \<Rightarrow> True) \<and>
      (case io_turn E op i of (Goes, op') \<Rightarrow> round_apart E op' is | _ \<Rightarrow> True))"

lemma io_turn_ok:
  assumes "service_api_ok (iv_api E) store" and "io_ok E store op" and "case i of IiEvent ev now \<Rightarrow> event_apart (iv_lidNS E) (io_state op) ev | _ \<Rightarrow> True"
  shows "io_ok E store (snd (io_turn E op i))"
proof (cases i)
  case (IiEvent ev now)
  obtain e op' where a: "io_applyEvent E now ev op = (e, op')" by fastforce
  have "io_ok E store op'" using io_applyEvent_ok[OF assms(1,2) _ a] assms(3) IiEvent by simp
  then show ?thesis using a IiEvent by (cases e) simp_all
qed (use assms(2) in simp_all)

lemma io_loop_ok:
  assumes "service_api_ok (iv_api E) store" and "io_ok E store op" and "round_apart E op is"
  shows "io_ok E store (snd (io_loop E op is))"
  using assms(2,3)
proof (induction "is" arbitrary: op)
  case (Cons i "is")
  obtain r op' where t: "io_turn E op i = (r, op')" by fastforce
  have "io_ok E store op'" using io_turn_ok[OF assms(1) Cons.prems(1), of i] Cons.prems(2) t by simp
  then show ?case using Cons t by (cases r) auto
qed simp

lemma ip_table_of_entry: "ip_table_of now ds k = Some e \<Longrightarrow> \<exists>d \<in> set ds. e = passthrough_entry now d"
proof (induction ds rule: rev_induct)
  case (snoc d ds)
  then show ?case by (auto simp: ip_table_of_def split: if_splits)
qed (simp add: ip_table_of_def)

lemma passthrough_entry_directives: "id_Protocol d \<in> {''TCP'', ''UDP''} \<Longrightarrow> d \<in> entry_directives (passthrough_entry now (d\<lparr>id_Port := 0\<rparr>))"
  by (cases d) (auto simp: entry_directives_def entry_directive_def passthrough_entry_def)

text \<open>A listed passthrough comes from a stored service made for it.\<close>

lemma passthroughs_served:
  assumes "service_api_ok A store" and "services_written pool lidNS (store c)" and "GetIPPassthroughs A c = Inr ds" and "d0 \<in> set ds"
  shows "\<exists>d. d0 = d\<lparr>id_Port := 0\<rparr> \<and> id_Protocol d \<in> {''TCP'', ''UDP''} \<and> address_served pool lidNS d (store c)"
proof -
  from assms(3) obtain ss xs where l: "sa_list_all A metallb_selector c = Inr ss" "each_item service_passthrough ss = Inr xs" "ds = List.map_filter (\<lambda>x. x) xs"
    by (auto simp: GetIPPassthroughs_def map_sum_def split: sum.splits)
  from assms(4) l(3) have "Some d0 \<in> set xs" by (force simp: List.map_filter_def)
  with each_item_ok[OF l(2)] obtain s where s: "s \<in> set ss" "service_passthrough s = Inr (Some d0)" by blast
  then obtain k where "store c k = Some s" "selects metallb_selector (ls_labels s)"
    using assms(1) l(1) by (auto simp: service_api_ok_def service_lists_ok_def ran_def)
  with assms(2) obtain d where d: "k = service_key lidNS d" "serves pool d s" "id_ServiceName d \<noteq> []" "id_Protocol d \<in> {''TCP'', ''UDP''}"
    unfolding services_written_def by blast
  have "d0 = d\<lparr>id_Port := 0\<rparr>" using passthrough_read[OF d(2-4)] s(2) by simp
  then show ?thesis using d \<open>store c k = Some s\<close> unfolding address_served_def by blast
qed

lemma io_start_ok:
  assumes "service_api_ok (iv_api E) store" and "services_written (iv_pool E) (iv_lidNS E) (store (io_cluster op))"
    and "io_start E now others op = (None, op')"
  shows "io_ok E store op'"
proof -
  from assms(3) obtain ds where ds: "GetIPPassthroughs (iv_api E) (io_cluster op) = Inr ds"
      "op' = snd (updateCounts E (op\<lparr>io_state := ip_table_of now ds, io_flagState := True\<rparr>))"
    by (auto simp: io_start_def Let_def split: sum.splits prod.splits option.splits)
  have st: "io_state op' = ip_table_of now ds" "io_cluster op' = io_cluster op" using ds(2) by simp_all
  show ?thesis unfolding ip_table_ok_def st
  proof (intro allI impI)
    fix k e assume "ip_table_of now ds k = Some e"
    then obtain d0 where d0: "d0 \<in> set ds" "e = passthrough_entry now d0" using ip_table_of_entry by blast
    from passthroughs_served[OF assms(1,2) ds(1) d0(1)] obtain d where
      d: "d0 = d\<lparr>id_Port := 0\<rparr>" "id_Protocol d \<in> {''TCP'', ''UDP''}" "address_served (iv_pool E) (iv_lidNS E) d (store (io_cluster op))" by blast
    show "\<exists>d \<in> entry_directives e. address_served (iv_pool E) (iv_lidNS E) d (store (io_cluster op))"
      using passthrough_entry_directives[OF d(2), of now] d(3) by (auto simp: d0(2) d(1))
  qed
qed

lemma io_add_entry: "io_applyAddOrUpdateEvent E now ev op = (None, op') \<Longrightarrow> io_state op' (event_key ev) = Some (event_entry now ev)"
  by (auto simp: io_applyAddOrUpdateEvent_def event_entry_def Let_def split: prod.splits option.splits)

lemma io_applyEvent_add:
  assumes "io_applyEvent E now ev op = (None, op')" and "ie_type ev \<in> {ProviderResourceAdd, ProviderResourceUpdate}" and "\<not> IsFlagged (io_leasesIgnored op) (ie_lID ev)"
  shows "\<exists>op1. io_applyAddOrUpdateEvent E now ev op = (None, op1) \<and> io_state op' = io_state op1 \<and> io_cluster op' = io_cluster op1"
  using assms by (cases "ie_type ev") (auto simp: io_applyEvent_def split: prod.splits)

lemma io_applyEvent_served:
  assumes "service_api_ok (iv_api E) store" and "io_ok E store op" and "event_apart (iv_lidNS E) (io_state op) ev"
    and "io_applyEvent E now ev op = (None, op')" and "ie_protocol ev \<in> {''TCP'', ''UDP''}"
    and "ie_type ev \<in> {ProviderResourceAdd, ProviderResourceUpdate}" and "\<not> IsFlagged (io_leasesIgnored op) (ie_lID ev)"
  shows "address_served (iv_pool E) (iv_lidNS E) (buildIPDirective ev) (store (io_cluster op'))"
proof -
  obtain op1 where a: "io_applyAddOrUpdateEvent E now ev op = (None, op1)" "io_cluster op' = io_cluster op1" using io_applyEvent_add[OF assms(4,6,7)] by blast
  have "known (event_entry now ev)" using assms(5) by (simp add: event_entry_def)
  from entry_directives_known[OF this] ip_table_okD[OF io_add_ok[OF assms(1-3) a(1)] io_add_entry[OF a(1)]] show ?thesis using a(2) by simp
qed

section \<open>The barrier\<close>

text \<open>
  Requests enter while the barrier is enabled: the load of the flag and the increment of the counter are two
  atomic steps. The monitor disables the barrier when its loop ends and then waits until the counter is 0; it
  waits no longer than thirty seconds, after which it goes on. \<open>requests\<close> counts those between the two
  steps and those being served.
\<close>

datatype monitor_pc = MonServing | MonWaiting | MonRestarting

record barrier =
  ba_enabled :: bool
  ba_active :: int
  ba_checked :: nat
  ba_inside :: nat
  ba_monitor :: monitor_pc

definition barrier_init :: barrier where
  "barrier_init = \<lparr>ba_enabled = False, ba_active = 0, ba_checked = 0, ba_inside = 0, ba_monitor = MonRestarting\<rparr>"

inductive barrier_step :: "barrier \<Rightarrow> barrier \<Rightarrow> bool" where
  enable: "ba_monitor b = MonRestarting \<Longrightarrow> barrier_step b (b\<lparr>ba_enabled := True, ba_monitor := MonServing\<rparr>)"
| disable: "ba_monitor b = MonServing \<Longrightarrow> barrier_step b (b\<lparr>ba_enabled := False, ba_monitor := MonWaiting\<rparr>)"
| clear: "ba_monitor b = MonWaiting \<Longrightarrow> ba_active b = 0 \<Longrightarrow> barrier_step b (b\<lparr>ba_monitor := MonRestarting\<rparr>)"
| timeout: "ba_monitor b = MonWaiting \<Longrightarrow> barrier_step b (b\<lparr>ba_monitor := MonRestarting\<rparr>)"
| enter_check: "ba_enabled b \<Longrightarrow> barrier_step b (b\<lparr>ba_checked := Suc (ba_checked b)\<rparr>)"
| enter_count: "ba_checked b = Suc n \<Longrightarrow> barrier_step b (b\<lparr>ba_checked := n, ba_inside := Suc (ba_inside b), ba_active := ba_active b + 1\<rparr>)"
| exit_step: "ba_inside b = Suc n \<Longrightarrow> barrier_step b (b\<lparr>ba_inside := n, ba_active := ba_active b - 1\<rparr>)"

inductive_cases barrier_stepE: "barrier_step b b'"

text \<open>The steps in which the wait ends because the counter is 0.\<close>

inductive barrier_reach :: "barrier \<Rightarrow> bool" where
  init: "barrier_reach barrier_init"
| step: "barrier_reach b \<Longrightarrow> barrier_step b b' \<Longrightarrow> barrier_reach b'"

lemma barrier_count: "barrier_reach b \<Longrightarrow> ba_active b = int (ba_inside b) \<and> (ba_enabled b \<longleftrightarrow> ba_monitor b = MonServing)"
proof (induction rule: barrier_reach.induct)
  case (step b b')
  from step.hyps(2) step.IH show ?case by (cases rule: barrier_step.cases) auto
qed (simp add: barrier_init_def)

section \<open>A cluster for the witnesses\<close>

type_synonym service_list = "((string \<times> string) \<times> lb_service) list"

definition list_services :: "service_list service_api" where
  "list_services = \<lparr>
     sa_get = (\<lambda>ns n c. case map_of c (ns, n) of None \<Rightarrow> Inl (KNotFound n) | Some s \<Rightarrow> Inr s),
     sa_create = (\<lambda>ns s c. (None, ((ns, ls_name s), s) # c)), sa_update = (\<lambda>ns s c. (None, ((ns, ls_name s), s) # c)),
     sa_delete = (\<lambda>ns n c. (None, filter (\<lambda>(k, _). k \<noteq> (ns, n)) c)),
     sa_list = (\<lambda>ns sel c. Inr (filter (\<lambda>s. selects sel (ls_labels s)) (map (\<lambda>k. the (map_of c k)) (filter (\<lambda>k. fst k = ns) (remdups (map fst c)))))),
     sa_list_all = (\<lambda>sel c. Inr (filter (\<lambda>s. selects sel (ls_labels s)) (map (\<lambda>k. the (map_of c k)) (remdups (map fst c)))))\<rparr>"

lemma list_services_ok: "service_api_ok list_services map_of"
proof -
  have w: "\<exists>v i. m(k \<mapsto> s) = m(k \<mapsto> s\<lparr>ls_version := v, ls_ingress := i\<rparr>)" for m :: "lb_service objects" and k and s :: lb_service
    by (rule exI[of _ "ls_version s"], rule exI[of _ "ls_ingress s"]) simp
  have "service_writes_ok (sa_create list_services) map_of" "service_writes_ok (sa_update list_services) map_of"
    using w by (simp_all add: service_writes_ok_def list_services_def)
  moreover have "service_deletes_ok list_services map_of" by (simp add: service_deletes_ok_def list_services_def map_of_filter_key)
  moreover have "service_lists_ok list_services map_of" by (auto simp: service_lists_ok_def list_services_def map_of_values)
  ultimately show ?thesis by (simp add: service_api_ok_def)
qed

definition ex_ipenv :: "service_list ip_env" where
  "ex_ipenv = \<lparr>iv_api = list_services, iv_lidNS = ex_ns, iv_pool = ''default'', iv_metrics = (\<lambda>_. Inr [])\<rparr>"

definition ex_ipop :: "service_list ipOperator" where
  "ex_ipop = \<lparr>io_state = Map.empty, io_leasesIgnored = NewIgnoreList \<lparr>FailureLimit = 3, EntryLimit = 10, AgeLimit = 100\<rparr>, io_available = 0, io_used = 0,
     io_flagState = False, io_flagIgnored = False, io_flagUsage = False, io_cluster = []\<rparr>"

definition ex_ipev :: "resource_event \<Rightarrow> u64 \<Rightarrow> string \<Rightarrow> string \<Rightarrow> ip_event" where
  "ex_ipev t n key proto = \<lparr>ie_lID = ex_hlid n, ie_type = t, ie_serviceName = ''web'', ie_port = 8080, ie_externalPort = 80, ie_sharingKey = key, ie_protocol = proto\<rparr>"

lemma ex_ipenv_sel [simp]: "iv_api ex_ipenv = list_services" "iv_lidNS ex_ipenv = ex_ns" "iv_pool ex_ipenv = ''default''"
  by (simp_all add: ex_ipenv_def)

lemma ex_create: "id_Protocol d \<in> {''TCP'', ''UDP''} \<Longrightarrow> fst (CreateIPPassthrough list_services lidNS pool d c) = None"
  by (auto simp: CreateIPPassthrough_def list_services_def Let_def split: sum.split option.split)

lemma ex_purge: "fst (PurgeIPPassthrough list_services lidNS d c) = None"
  by (simp add: PurgeIPPassthrough_def list_services_def)

lemma ex_connect_ip: "ie_protocol ev \<in> {''TCP'', ''UDP''} \<Longrightarrow> fst (connect_ip ex_ipenv ev entry c) = None"
  using ex_create[of "buildIPDirective ev" ex_ns "''default''"] ex_purge[of ex_ns]
  by (auto simp: connect_ip_def Let_def buildIPDirective_def split: option.split prod.split) (metis fst_conv option.distinct(1))+

lemma ex_ip_apply:
  assumes "ie_protocol ev \<in> {''TCP'', ''UDP''}" and "ie_type ev \<noteq> ProviderResourceOther"
  shows "\<exists>op'. io_applyEvent ex_ipenv now ev op = (None, op')"
  using ex_connect_ip[OF assms(1), of "io_state op (event_key ev)" "io_cluster op"] ex_purge[of ex_ns "buildIPDirective ev" "io_cluster op"] assms(2)
  by (cases "ie_type ev")
    (auto simp: io_applyEvent_def io_applyDeleteEvent_def io_applyAddOrUpdateEvent_def Let_def io_recordEventError_def split: prod.splits option.splits)

section \<open>Properties\<close>

text \<open>C13: The addresses of the operator's table are served. Suppose the start of a round succeeds on a cluster whose services with the
  operator's labels are as its client writes them, and each event of the round is apart from the other entries of the table (none of them can
  have the service of the event, or of the entry it replaces). Then, as long as the loop goes on, through any events, prunings and updates every entry of
  the table has its load-balancer service: one made by an event has the service for exactly its lease, service, ports, sharing key and
  protocol; one found at the start, whose protocol and target port the operator does not know, has a service for its lease, service,
  external port and sharing key, of one of the two protocols. A delete that succeeds leaves no service of its declaration. An
  add or update that succeeds leaves the service of its declaration in place, if the lease is not flagged as failing and the protocol is TCP or UDP; of a
  flagged lease it changes nothing.\<close>

theorem leased_address_served:
  assumes "service_api_ok (iv_api E) store" and "services_written (iv_pool E) (iv_lidNS E) (store (io_cluster op))"
    and "io_start E now0 others op = (None, op1)" and "round_apart E op1 is"
    and "io_loop E op1 is = (Goes, op2)" and "event_apart (iv_lidNS E) (io_state op2) ev" and "io_applyEvent E now ev op2 = (None, op3)"
  shows "ip_table_ok (iv_pool E) (iv_lidNS E) (io_state op2) (store (io_cluster op2)) \<and>
    ip_table_ok (iv_pool E) (iv_lidNS E) (io_state op3) (store (io_cluster op3)) \<and>
    (if ie_type ev = ProviderResourceDelete then store (io_cluster op3) (service_key (iv_lidNS E) (buildIPDirective ev)) = None
     else if IsFlagged (io_leasesIgnored op2) (ie_lID ev) then op3 = op2
     else ie_protocol ev \<in> {''TCP'', ''UDP''} \<longrightarrow> address_served (iv_pool E) (iv_lidNS E) (buildIPDirective ev) (store (io_cluster op3)))"
proof -
  have ok: "io_ok E store op2" using io_loop_ok[OF assms(1) io_start_ok[OF assms(1-3)] assms(4)] assms(5) by simp
  have "store (io_cluster op3) (service_key (iv_lidNS E) (buildIPDirective ev)) = None" if "ie_type ev = ProviderResourceDelete"
    using io_delete_ok(2)[OF assms(1) ok assms(6), of None op3] assms(7) that by (auto simp: io_applyEvent_def split: prod.splits)
  moreover have "ie_type ev \<in> {ProviderResourceAdd, ProviderResourceUpdate}" if "ie_type ev \<noteq> ProviderResourceDelete"
    using assms(7) that by (cases "ie_type ev") (auto simp: io_applyEvent_def)
  moreover have "op3 = op2" if "ie_type ev \<noteq> ProviderResourceDelete" "IsFlagged (io_leasesIgnored op2) (ie_lID ev)"
    using assms(7) that by (cases "ie_type ev") (auto simp: io_applyEvent_def)
  ultimately show ?thesis using ok io_applyEvent_ok[OF assms(1) ok assms(6,7)] io_applyEvent_served[OF assms(1) ok assms(6,7)] by simp
qed

text \<open>A cluster with the service of one lease, at a start; its other name declares an address of its own.\<close>

definition ex_ipbusy :: "service_list ipOperator" where
  "ex_ipbusy = ex_ipop\<lparr>io_state := [event_key (ex_ipev ProviderResourceAdd 1 ''k'' ''TCP'') \<mapsto> event_entry 0 (ex_ipev ProviderResourceAdd 1 ''k'' ''TCP'')],
     io_cluster := [(service_key ex_ns (buildIPDirective (ex_ipev ProviderResourceAdd 1 ''k'' ''TCP'')), passthrough_service ''default'' (buildIPDirective (ex_ipev ProviderResourceAdd 1 ''k'' ''TCP'')))]\<rparr>"

lemma ex_ns_neq: "ex_ns (ex_hlid 1) \<noteq> ex_ns (ex_hlid 2)"
  by (simp add: ex_ns_def ex_hlid_def)

lemma ex_unflagged: "\<not> IsFlagged (io_leasesIgnored ex_ipop) l" "io_leasesIgnored ex_ipbusy = io_leasesIgnored ex_ipop"
  by (simp_all add: IsFlagged_def ex_ipop_def NewIgnoreList_def ex_ipbusy_def)

abbreviation ex_ipd :: ip_directive where
  "ex_ipd \<equiv> buildIPDirective (ex_ipev ProviderResourceAdd 1 ''k'' ''TCP'')"

lemma ex_ipd_sel: "id_Protocol ex_ipd = ''TCP''" "id_ServiceName ex_ipd = ''web''" "id_LeaseID ex_ipd = ex_hlid 1" "id_SharingKey ex_ipd = ''k''" "id_ExternalPort ex_ipd = 80"
  by (simp_all add: buildIPDirective_def ex_ipev_def)

lemma serves_self: "serves pool x (passthrough_service pool x)"
  unfolding serves_def by (rule exI[of _ "[]"], rule exI[of _ "[]"]) (simp add: passthrough_service_def)

lemma ex_busy_passthroughs: "GetIPPassthroughs list_services (io_cluster ex_ipbusy) = Inr [ex_ipd\<lparr>id_Port := 0\<rparr>]"
proof -
  have "selects metallb_selector (ls_labels (passthrough_service ''default'' ex_ipd))"
    by (simp add: selects_def metallb_selector_def passthrough_service_def label_names metallb_names)
  then show ?thesis using passthrough_read[OF serves_self, of ex_ipd "''default''"] ex_ipd_sel
    by (simp add: GetIPPassthroughs_def list_services_def ex_ipbusy_def List.map_filter_def)
qed

lemma ex_busy_start:
  "io_start ex_ipenv 0 None ex_ipbusy = (None, snd (io_start ex_ipenv 0 None ex_ipbusy))"
  "io_leasesIgnored (snd (io_start ex_ipenv 0 None ex_ipbusy)) = io_leasesIgnored ex_ipop"
  "io_state (snd (io_start ex_ipenv 0 None ex_ipbusy)) = [getStateKey (ex_hlid 1) ''k'' 80 \<mapsto> passthrough_entry 0 (ex_ipd\<lparr>id_Port := 0\<rparr>)]"
  using ex_busy_passthroughs ex_unflagged(2) ex_ipd_sel
  by (simp_all add: io_start_def Let_def updateCounts_def GetIPAddressUsage_def ex_ipenv_def zero_or_def ip_table_of_def)

lemma ex_busy_written: "services_written ''default'' ex_ns (map_of (io_cluster ex_ipbusy))"
  unfolding services_written_def
proof (intro allI impI exI[of _ ex_ipd])
  fix k s assume "map_of (io_cluster ex_ipbusy) k = Some s \<and> selects metallb_selector (ls_labels s)"
  then have "k = service_key ex_ns ex_ipd" "s = passthrough_service ''default'' ex_ipd" by (auto simp: ex_ipbusy_def split: if_splits)
  then show "k = service_key ex_ns ex_ipd \<and> serves ''default'' ex_ipd s \<and> id_ServiceName ex_ipd \<noteq> [] \<and> id_Protocol ex_ipd \<in> {''TCP'', ''UDP''}"
    using serves_self ex_ipd_sel by simp
qed

theorem leased_address_served_witness:
  "let op1 = snd (io_start ex_ipenv 0 None ex_ipbusy); ev = ex_ipev ProviderResourceAdd 2 ''j'' ''TCP''; op3 = snd (io_applyEvent ex_ipenv 1 ev op1)
   in ip_table_ok ''default'' ex_ns (io_state op1) (map_of (io_cluster op1)) \<and> io_state op1 \<noteq> Map.empty \<and>
      address_served ''default'' ex_ns (buildIPDirective ev) (map_of (io_cluster op3))"
proof -
  let ?ev = "ex_ipev ProviderResourceAdd 2 ''j'' ''TCP''" and ?op = "snd (io_start ex_ipenv 0 None ex_ipbusy)"
  obtain op' where a: "io_applyEvent ex_ipenv 1 ?ev ?op = (None, op')" using ex_ip_apply[of ?ev 1 ?op] by (auto simp: ex_ipev_def)
  have "event_key ?ev \<noteq> getStateKey (ex_hlid 1) ''k'' 80" by (simp add: getStateKey_def ex_ipev_def ex_hlid_def)
  then have ap: "event_apart ex_ns (io_state ?op) ?ev"
    using ex_ns_neq unfolding event_apart_def ex_busy_start(3)
    by (auto simp: entry_directives_def entry_directive_def passthrough_entry_def buildIPDirective_def ex_ipev_def split: if_splits)
  have ev: "ie_type ?ev = ProviderResourceAdd" "ie_protocol ?ev = ''TCP''" by (simp_all add: ex_ipev_def)
  have r: "round_apart ex_ipenv ?op []" "io_loop ex_ipenv ?op [] = (Goes, ?op)" by simp_all
  note t = leased_address_served[of ex_ipenv map_of ex_ipbusy, OF _ _ ex_busy_start(1) r _ a]
  show ?thesis using t list_services_ok ex_busy_written ap ev ex_busy_start ex_unflagged(1) a by (simp add: Let_def)
qed

text \<open>The table does not tell protocols apart: when another lease of the same owner declares the same sharing key and external port
  for the other protocol, which is an object of its own, the operator takes it for a move of the address and deletes the service of the first lease,
  whose declaration stands.\<close>

theorem other_protocol_takes_address:
  assumes "service_api_ok (iv_api E) store" and "io_state op (event_key ev) = Some e" and "mi_presentLease e \<noteq> ie_lID ev"
    and "iv_lidNS E (mi_presentLease e) \<noteq> iv_lidNS E (ie_lID ev)"
    and "mi_presentProtocol e = ''TCP''" and "ie_protocol ev = ''UDP''" and "mi_presentExternalPort e = ie_externalPort ev"
    and "ie_type ev \<in> {ProviderResourceAdd, ProviderResourceUpdate}" and "\<not> IsFlagged (io_leasesIgnored op) (ie_lID ev)"
    and "io_applyEvent E now ev op = (None, op')"
  shows "store (io_cluster op') (service_key (iv_lidNS E) (entry_directive e)) = None \<and>
    ip_resource_name (ie_sharingKey ev) ''TCP'' (ie_externalPort ev) \<noteq> ip_resource_name (ie_sharingKey ev) ''UDP'' (ie_externalPort ev)"
proof -
  obtain op1 where a: "io_applyAddOrUpdateEvent E now ev op = (None, op1)" "io_cluster op' = io_cluster op1" using io_applyEvent_add[OF assms(10,8,9)] by blast
  obtain c gone where c: "connect_ip E ev (Some e) (io_cluster op) = (None, c, gone)" "io_cluster op1 = c"
    using a(1) assms(2) by (auto simp: io_applyAddOrUpdateEvent_def Let_def split: prod.splits option.splits)
  from connect_ip_ok[OF assms(1) c(1)] assms(3) obtain s where
    s: "store c = ((store (io_cluster op))(service_key (iv_lidNS E) (entry_directive e) := None))(service_key (iv_lidNS E) (buildIPDirective ev) \<mapsto> s)" by auto
  have "service_key (iv_lidNS E) (entry_directive e) \<noteq> service_key (iv_lidNS E) (buildIPDirective ev)"
    using assms(4) by (simp add: entry_directive_def buildIPDirective_def)
  moreover have "to_lower (x @ ''TCP'' @ y) \<noteq> to_lower (x @ ''UDP'' @ y)" for x y by (simp add: to_lower_def to_lower_char_def Let_def)
  then have "ip_resource_name (ie_sharingKey ev) ''TCP'' (ie_externalPort ev) \<noteq> ip_resource_name (ie_sharingKey ev) ''UDP'' (ie_externalPort ev)"
    unfolding ip_resource_name_def by (metis append.assoc)
  ultimately show ?thesis using s c(2) a(2) by simp
qed

theorem other_protocol_takes_address_witness:
  "map_of (io_cluster ex_ipbusy) (service_key ex_ns (buildIPDirective (ex_ipev ProviderResourceAdd 1 ''k'' ''TCP''))) \<noteq> None \<and>
   map_of (io_cluster (snd (io_applyEvent ex_ipenv 1 (ex_ipev ProviderResourceAdd 2 ''k'' ''UDP'') ex_ipbusy)))
     (service_key ex_ns (buildIPDirective (ex_ipev ProviderResourceAdd 1 ''k'' ''TCP''))) = None"
proof -
  let ?ev = "ex_ipev ProviderResourceAdd 2 ''k'' ''UDP''" and ?e = "event_entry 0 (ex_ipev ProviderResourceAdd 1 ''k'' ''TCP'')"
  obtain op' where a: "io_applyEvent ex_ipenv 1 ?ev ex_ipbusy = (None, op')" using ex_ip_apply[of ?ev 1 ex_ipbusy] by (auto simp: ex_ipev_def)
  have st: "io_state ex_ipbusy (event_key ?ev) = Some ?e" by (simp add: ex_ipbusy_def ex_ipev_def ex_hlid_def getStateKey_def)
  have l: "mi_presentLease ?e = ex_hlid 1" "mi_presentProtocol ?e = ''TCP''" "mi_presentExternalPort ?e = 80" "ie_lID ?ev = ex_hlid 2" "ie_protocol ?ev = ''UDP''"
      "ie_externalPort ?ev = 80" "ie_type ?ev = ProviderResourceAdd" by (simp_all add: event_entry_def ex_ipev_def)
  have n: "ex_hlid 1 \<noteq> ex_hlid 2" using ex_ns_neq by metis
  have "map_of (io_cluster ex_ipbusy) (service_key ex_ns (buildIPDirective (ex_ipev ProviderResourceAdd 1 ''k'' ''TCP''))) \<noteq> None" by (simp add: ex_ipbusy_def)
  then show ?thesis using other_protocol_takes_address[of ex_ipenv map_of ex_ipbusy ?ev ?e 1 op'] a st l n ex_ns_neq ex_unflagged list_services_ok by simp
qed

text \<open>After a restart the operator no longer knows the protocol of the services it finds: when an address then moves to another lease of its owner, the purge names
  no existing service, and the service of the old lease stays beside the new one with the same sharing key, port and protocol.\<close>

theorem restart_leaves_old_service:
  assumes "service_api_ok (iv_api E) store" and "GetIPPassthroughs (iv_api E) (io_cluster op) = Inr [d\<lparr>id_Port := 0\<rparr>]"
    and "address_served (iv_pool E) (iv_lidNS E) d (store (io_cluster op))" and "id_Protocol d \<in> {''TCP'', ''UDP''}"
    and "io_start E now0 others op = (None, op1)"
    and "event_key ev = getStateKey (id_LeaseID d) (id_SharingKey d) (id_ExternalPort d)"
    and "iv_lidNS E (id_LeaseID d) \<noteq> iv_lidNS E (ie_lID ev)" and "ie_type ev \<in> {ProviderResourceAdd, ProviderResourceUpdate}"
    and "\<not> IsFlagged (io_leasesIgnored op1) (ie_lID ev)" and "io_applyEvent E now ev op1 = (None, op2)"
  shows "address_served (iv_pool E) (iv_lidNS E) d (store (io_cluster op2)) \<and> address_served (iv_pool E) (iv_lidNS E) (buildIPDirective ev) (store (io_cluster op2))"
proof -
  let ?e = "passthrough_entry now0 (d\<lparr>id_Port := 0\<rparr>)"
  have "op1 = snd (updateCounts E (op\<lparr>io_state := ip_table_of now0 [d\<lparr>id_Port := 0\<rparr>], io_flagState := True\<rparr>))"
    using assms(2,5) by (auto simp: io_start_def Let_def split: prod.splits option.splits)
  then have o1: "io_state op1 (event_key ev) = Some ?e" "io_cluster op1 = io_cluster op" using assms(6) by (simp_all add: ip_table_of_def)
  obtain op' where a: "io_applyAddOrUpdateEvent E now ev op1 = (None, op')" "io_cluster op2 = io_cluster op'" using io_applyEvent_add[OF assms(10,8,9)] by blast
  obtain c gone where c: "connect_ip E ev (Some ?e) (io_cluster op1) = (None, c, gone)" "io_cluster op' = c"
    using a(1) o1(1) by (auto simp: io_applyAddOrUpdateEvent_def Let_def split: prod.splits option.splits)
  have ne: "mi_presentLease ?e \<noteq> ie_lID ev" using assms(7) by (auto simp: passthrough_entry_def)
  obtain s where s: "serves (iv_pool E) (buildIPDirective ev) s"
      "store c = ((store (io_cluster op))(service_key (iv_lidNS E) (entry_directive ?e) := None))(service_key (iv_lidNS E) (buildIPDirective ev) \<mapsto> s)"
    using connect_ip_ok[OF assms(1) c(1)] ne o1(2) by auto
  have k: "service_key (iv_lidNS E) (entry_directive ?e) \<noteq> service_key (iv_lidNS E) d"
    using assms(4) by (auto simp: createIPPassthroughResourceName_def entry_directive_def passthrough_entry_def to_lower_def)
  have k2: "service_key (iv_lidNS E) (buildIPDirective ev) \<noteq> service_key (iv_lidNS E) d" using assms(7) by (auto simp: buildIPDirective_def)
  show ?thesis using assms(3) s(1) unfolding a(2) c(2) s(2) by (simp add: served_set served_other[where lidNS = "iv_lidNS E" and d = d, OF k] served_other[where lidNS = "iv_lidNS E" and d = d, OF k2])
qed

theorem restart_leaves_old_service_witness:
  "let ev = ex_ipev ProviderResourceAdd 2 ''k'' ''TCP''; c = io_cluster (snd (io_applyEvent ex_ipenv 1 ev (snd (io_start ex_ipenv 0 None ex_ipbusy))))
   in address_served ''default'' ex_ns (buildIPDirective (ex_ipev ProviderResourceAdd 1 ''k'' ''TCP'')) (map_of c) \<and> address_served ''default'' ex_ns (buildIPDirective ev) (map_of c)"
proof -
  let ?ev = "ex_ipev ProviderResourceAdd 2 ''k'' ''TCP''"
  have sv: "address_served ''default'' ex_ns ex_ipd (map_of (io_cluster ex_ipbusy))" using serves_self by (simp add: address_served_def ex_ipbusy_def)
  obtain op2 where a: "io_applyEvent ex_ipenv 1 ?ev (snd (io_start ex_ipenv 0 None ex_ipbusy)) = (None, op2)" using ex_ip_apply[of ?ev 1] by (auto simp: ex_ipev_def)
  have e: "ie_type ?ev = ProviderResourceAdd" "ie_lID ?ev = ex_hlid 2" "event_key ?ev = getStateKey (ex_hlid 1) ''k'' 80"
    by (simp_all add: ex_ipev_def getStateKey_def ex_hlid_def)
  show ?thesis
    using restart_leaves_old_service[of ex_ipenv map_of ex_ipbusy ex_ipd 0 None "snd (io_start ex_ipenv 0 None ex_ipbusy)" ?ev 1 op2]
      list_services_ok ex_busy_passthroughs sv ex_ipd_sel ex_busy_start e ex_ns_neq ex_unflagged(1) a by simp
qed

text \<open>Giving the address of a service another name loses the service: the deploy declares the new address before it purges the old one, the two declarations are one service, and the delete of the old
  declaration removes what the add of the new one had set, while the table still lists the new one.\<close>

theorem renamed_address_loses_service:
  assumes "service_api_ok (iv_api E) store" and "ie_type ev \<in> {ProviderResourceAdd, ProviderResourceUpdate}" and "\<not> IsFlagged (io_leasesIgnored op) (ie_lID ev)"
    and "old = ev\<lparr>ie_type := ProviderResourceDelete, ie_sharingKey := oldKey\<rparr>" and "event_key old \<noteq> event_key ev"
    and "io_applyEvent E now ev op = (None, op1)" and "io_applyEvent E now' old op1 = (None, op2)"
  shows "io_state op2 (event_key ev) = Some (event_entry now ev) \<and> store (io_cluster op2) (service_key (iv_lidNS E) (buildIPDirective ev)) = None"
proof -
  obtain op' where a: "io_applyAddOrUpdateEvent E now ev op = (None, op')" "io_state op1 = io_state op'" using io_applyEvent_add[OF assms(6,2,3)] by blast
  have t: "ie_type old = ProviderResourceDelete" using assms(4) by simp
  have k: "service_key (iv_lidNS E) (buildIPDirective old) = service_key (iv_lidNS E) (buildIPDirective ev)"
    using assms(4) by (simp add: buildIPDirective_def createIPPassthroughResourceName_def)
  obtain c where p: "PurgeIPPassthrough (iv_api E) (iv_lidNS E) (buildIPDirective old) (io_cluster op1) = (None, c)"
      "io_cluster op2 = c" "io_state op2 = (io_state op1)(event_key old := None)"
    using assms(7) t by (auto simp: io_applyEvent_def io_applyDeleteEvent_def split: prod.splits option.splits)
  show ?thesis using purge_ok(1)[OF assms(1) p(1)] p(2,3) io_add_entry[OF a(1)] a(2) assms(5) k by auto
qed

theorem renamed_address_loses_service_witness:
  "let op1 = snd (io_applyEvent ex_ipenv 1 (ex_ipev ProviderResourceAdd 1 ''new'' ''TCP'') ex_ipbusy);
       op2 = snd (io_applyEvent ex_ipenv 2 (ex_ipev ProviderResourceDelete 1 ''k'' ''TCP'') op1)
   in io_state op2 (event_key (ex_ipev ProviderResourceAdd 1 ''new'' ''TCP'')) \<noteq> None \<and>
      map_of (io_cluster op2) (service_key ex_ns (buildIPDirective (ex_ipev ProviderResourceAdd 1 ''new'' ''TCP''))) = None"
proof -
  let ?ev = "ex_ipev ProviderResourceAdd 1 ''new'' ''TCP''" and ?old = "ex_ipev ProviderResourceDelete 1 ''k'' ''TCP''"
  obtain op1 where a: "io_applyEvent ex_ipenv 1 ?ev ex_ipbusy = (None, op1)" using ex_ip_apply[of ?ev 1 ex_ipbusy] by (auto simp: ex_ipev_def)
  obtain op2 where b: "io_applyEvent ex_ipenv 2 ?old op1 = (None, op2)" using ex_ip_apply[of ?old 2 op1] by (auto simp: ex_ipev_def)
  have "?old = ?ev\<lparr>ie_type := ProviderResourceDelete, ie_sharingKey := ''k''\<rparr>" "ie_type ?ev = ProviderResourceAdd" "event_key ?old \<noteq> event_key ?ev"
    by (simp_all add: ex_ipev_def getStateKey_def)
  then show ?thesis using renamed_address_loses_service[of ex_ipenv map_of ?ev ex_ipbusy ?old "''k''" 1 op1 2 op2] a b list_services_ok ex_unflagged by simp
qed

text \<open>A request can still slip in after the operator has waited for the requests to end: one that read the flag before it was cleared counts itself only after the wait saw no request, and is served while the state is rebuilt.
  Otherwise the counter is exactly the requests being served.\<close>

theorem barrier_admits_late_request:
  "(\<forall>b. barrier_reach b \<longrightarrow> ba_active b = int (ba_inside b)) \<and>
   (\<exists>b b'. barrier_reach b \<and> ba_monitor b = MonWaiting \<and> ba_active b = 0 \<and> barrier_step (b\<lparr>ba_monitor := MonRestarting\<rparr>) b' \<and>
      barrier_reach b' \<and> ba_monitor b' = MonRestarting \<and> 0 < ba_inside b')"
proof (intro conjI allI impI)
  show "ba_active b = int (ba_inside b)" if "barrier_reach b" for b using barrier_count[OF that] by simp
  define b0 where "b0 = barrier_init\<lparr>ba_enabled := True, ba_monitor := MonServing\<rparr>"
  define b1 where "b1 = b0\<lparr>ba_checked := 1\<rparr>"
  define b2 where "b2 = b1\<lparr>ba_enabled := False, ba_monitor := MonWaiting\<rparr>"
  define b3 where "b3 = b2\<lparr>ba_monitor := MonRestarting\<rparr>"
  define b4 where "b4 = b3\<lparr>ba_checked := 0, ba_inside := 1, ba_active := 1\<rparr>"
  note defs = b0_def b1_def b2_def b3_def b4_def barrier_init_def
  have "barrier_step barrier_init b0" unfolding b0_def by (rule enable) (simp add: barrier_init_def)
  then have r0: "barrier_reach b0" by (rule step[OF init])
  have "barrier_step b0 b1" using enter_check[of b0] by (simp add: defs)
  then have r1: "barrier_reach b1" by (rule step[OF r0])
  have "barrier_step b1 b2" using disable[of b1] by (simp add: defs)
  then have r2: "barrier_reach b2" by (rule step[OF r1])
  have "barrier_step b2 b3" using clear[of b2] by (simp add: defs)
  then have r3: "barrier_reach b3" by (rule step[OF r2])
  have s4: "barrier_step b3 b4" using enter_count[of b3 0] by (simp add: defs)
  then have r4: "barrier_reach b4" by (rule step[OF r3])
  show "\<exists>b b'. barrier_reach b \<and> ba_monitor b = MonWaiting \<and> ba_active b = 0 \<and> barrier_step (b\<lparr>ba_monitor := MonRestarting\<rparr>) b' \<and>
      barrier_reach b' \<and> ba_monitor b' = MonRestarting \<and> 0 < ba_inside b'"
    using r2 s4 r4 by (intro exI[of _ b2] exI[of _ b4]) (simp add: defs)
qed

theorem barrier_admits_late_request_witness: "\<exists>b. barrier_reach b \<and> ba_monitor b = MonRestarting \<and> 0 < ba_active b"
  using barrier_admits_late_request by (metis of_nat_0_less_iff)

end
