(* ===== verification/Migrations.thy ===== *)
theory Migrations
  imports NginxRoute KubeApi "HOL-Library.Char_ord" "HOL-Library.List_Lexorder"
begin

text \<open>
  The start-up migrations of the provider (migrations/registry.go, state.go, ingress_to_httproute.go and the
  command cmd/provider-services/cmd/migrate_run.go): a registry of named migrations, the state file that remembers
  which of them were applied and which provider version ran last, the version comparison that decides
  what is pending, and the migration from ingresses to HTTP routes. The world \<open>'w\<close> (file system and cluster) is
  threaded through; reading and writing the state file, the text form of a time and the calls of the dynamic
  Kubernetes client are parameters. \<open>os.WriteFile\<close> truncates before it writes, so nothing is known of
  the file after a write that fails.
\<close>

section \<open>The state file\<close>

record State =
  Applied :: "string list"
  LastRun :: string
  ProviderVersion :: string

datatype state_error = ReadFailed string | Unmarshal | MkdirFailed string | WriteFailed string

datatype read_result = FileAbsent | FileError string | FileJson "json option"

text \<open>
  The files of the world: \<open>fs_read\<close> answers with the JSON value of the file (\<open>None\<close> when its bytes are not JSON),
  \<open>fs_mkdir\<close> and \<open>fs_write\<close> with their error. \<open>fs_now\<close> is the text of \<open>time.Now()\<close>, \<open>fs_time_ok\<close> tells the texts
  \<open>time.Time\<close> can be decoded from and \<open>fs_zero_time\<close> is the text of its zero value.
\<close>

record 'w state_fs =
  fs_read :: "'w \<Rightarrow> read_result"
  fs_mkdir :: "'w \<Rightarrow> string option \<times> 'w"
  fs_write :: "json \<Rightarrow> 'w \<Rightarrow> string option \<times> 'w"
  fs_now :: "'w \<Rightarrow> string"
  fs_time_ok :: "string \<Rightarrow> bool"
  fs_zero_time :: string

definition empty_state :: "'w state_fs \<Rightarrow> State" where
  "empty_state F = \<lparr>Applied = [], LastRun = fs_zero_time F, ProviderVersion = []\<rparr>"

text \<open>Decoding into the zero \<open>State\<close>. A \<open>null\<close> element leaves the empty string of a fresh slot.\<close>

fun decode_strings :: "json list \<Rightarrow> string list option" where
  "decode_strings [] = Some []"
| "decode_strings (v # vs) =
     (case (decode_string [] v, decode_strings vs) of (Some s, Some ss) \<Rightarrow> Some (s # ss) | _ \<Rightarrow> None)"

definition decode_applied :: "json \<Rightarrow> string list option" where
  "decode_applied v = (case v of JNull \<Rightarrow> Some [] | JArr vs \<Rightarrow> decode_strings vs | _ \<Rightarrow> None)"

definition decode_time :: "'w state_fs \<Rightarrow> string \<Rightarrow> json \<Rightarrow> string option" where
  "decode_time F t v = (case v of JNull \<Rightarrow> Some t | JStr s \<Rightarrow> if fs_time_ok F s then Some s else None | _ \<Rightarrow> None)"

definition state_field :: "'w state_fs \<Rightarrow> string \<Rightarrow> json \<Rightarrow> State \<Rightarrow> State option" where
  "state_field F k v st =
     (if k = ''applied'' then map_option (\<lambda>a. st\<lparr>Applied := a\<rparr>) (decode_applied v)
      else if k = ''last_run'' then map_option (\<lambda>t. st\<lparr>LastRun := t\<rparr>) (decode_time F (LastRun st) v)
      else if k = ''provider_version'' then map_option (\<lambda>p. st\<lparr>ProviderVersion := p\<rparr>) (decode_string (ProviderVersion st) v)
      else Some st)"

definition encode_state :: "State \<Rightarrow> json" where
  "encode_state st = JObj ([(''applied'', JArr (map JStr (Applied st))), (''last_run'', JStr (LastRun st))]
     @ (if ProviderVersion st = [] then [] else [(''provider_version'', JStr (ProviderVersion st))]))"

definition Load :: "'w state_fs \<Rightarrow> 'w \<Rightarrow> state_error + State" where
  "Load F w =
     (case fs_read F w of
        FileAbsent \<Rightarrow> Inr (empty_state F)
      | FileError e \<Rightarrow> Inl (ReadFailed e)
      | FileJson None \<Rightarrow> Inl Unmarshal
      | FileJson (Some v) \<Rightarrow>
          (case decode_struct (state_field F) (empty_state F) v of None \<Rightarrow> Inl Unmarshal | Some st \<Rightarrow> Inr st))"

definition Save :: "'w state_fs \<Rightarrow> State \<Rightarrow> 'w \<Rightarrow> state_error option \<times> 'w" where
  "Save F st w =
     (let data = encode_state (st\<lparr>LastRun := fs_now F w\<rparr>) in
      case fs_mkdir F w of
        (Some e, w') \<Rightarrow> (Some (MkdirFailed e), w')
      | (None, w') \<Rightarrow>
          (case fs_write F data w' of
             (Some e, w'') \<Rightarrow> (Some (WriteFailed e), w'')
           | (None, w'') \<Rightarrow> (None, w'')))"

definition IsApplied :: "'w state_fs \<Rightarrow> string \<Rightarrow> 'w \<Rightarrow> state_error + bool" where
  "IsApplied F name w = (case Load F w of Inl e \<Rightarrow> Inl e | Inr st \<Rightarrow> Inr (name \<in> set (Applied st)))"

definition MarkApplied :: "'w state_fs \<Rightarrow> string \<Rightarrow> 'w \<Rightarrow> state_error option \<times> 'w" where
  "MarkApplied F name w =
     (case Load F w of
        Inl e \<Rightarrow> (Some e, w)
      | Inr st \<Rightarrow> if name \<in> set (Applied st) then (None, w) else Save F (st\<lparr>Applied := Applied st @ [name]\<rparr>) w)"

definition SetProviderVersion :: "'w state_fs \<Rightarrow> string \<Rightarrow> 'w \<Rightarrow> state_error option \<times> 'w" where
  "SetProviderVersion F version w =
     (case Load F w of Inl e \<Rightarrow> (Some e, w) | Inr st \<Rightarrow> Save F (st\<lparr>ProviderVersion := version\<rparr>) w)"

definition GetProviderVersion :: "'w state_fs \<Rightarrow> 'w \<Rightarrow> state_error + string" where
  "GetProviderVersion F w = (case Load F w of Inl e \<Rightarrow> Inl e | Inr st \<Rightarrow> Inr (ProviderVersion st))"

section \<open>Versions\<close>

definition stripVersionSuffix :: "string \<Rightarrow> string" where
  "stripVersionSuffix s = takeWhile (\<lambda>c. c \<noteq> CHR ''-'') s"

text \<open>
  \<open>fmt.Sscanf (s, "%d", &result)\<close> into a variable that holds zero: blanks other than a line break are skipped, then an
  optional sign and digits; the variable stays zero when there are no digits or the number is not an int64.
\<close>

definition sscanf_d :: "string \<Rightarrow> int" where
  "sscanf_d s =
     (let t = dropWhile (\<lambda>c. is_space c \<and> c \<noteq> CHR 0x0A) s;
          neg = has_prefix t ''-'';
          body = (if neg \<or> has_prefix t ''+'' then tl t else t);
          digits = takeWhile is_digit body;
          v = (if neg then - int (digits_val digits) else int (digits_val digits))
      in if - (2 ^ 63) \<le> v \<and> v < 2 ^ 63 then v else 0)"

definition parseVersionPart :: "string list \<Rightarrow> nat \<Rightarrow> int" where
  "parseVersionPart parts i = (if i \<ge> length parts then 0 else sscanf_d (stripVersionSuffix (parts ! i)))"

text \<open>The loop over the parts, from index \<open>i\<close> to \<open>maxLen\<close>.\<close>

function version_loop :: "string list \<Rightarrow> string list \<Rightarrow> nat \<Rightarrow> nat \<Rightarrow> bool" where
  "version_loop p1 p2 maxLen i =
     (if i < maxLen
      then let a = parseVersionPart p1 i; b = parseVersionPart p2 i in
           if a < b then True else if a > b then False else version_loop p1 p2 maxLen (i + 1)
      else False)"
  by pat_completeness auto
termination by (relation "measure (\<lambda>(_, _, m, i). m - i)") auto

declare version_loop.simps [simp del]

definition version_parts :: "string \<Rightarrow> string list" where
  "version_parts v = split_on (CHR ''.'') (trim_prefix (stripVersionSuffix v) ''v'')"

definition versionLessThan :: "string \<Rightarrow> string \<Rightarrow> bool" where
  "versionLessThan v1 v2 =
     (if v1 = [] then False else if v2 = [] then False
      else let v1Parts = version_parts v1; v2Parts = version_parts v2
           in version_loop v1Parts v2Parts (max (length v1Parts) (length v2Parts)) 0)"

section \<open>The registry\<close>

record 'w migration =
  mig_Name :: string
  mig_FromVersion :: string
  mig_Run :: "'w \<Rightarrow> string option \<times> 'w"

datatype register_panic = NilMigration | EmptyName | AlreadyRegistered string

text \<open>The map of registered migrations, as the list of its values in some order.\<close>

definition Get :: "'w migration list \<Rightarrow> string \<Rightarrow> 'w migration option" where
  "Get reg name = find (\<lambda>m. mig_Name m = name) reg"

definition Register :: "'w migration option \<Rightarrow> 'w migration list \<Rightarrow> register_panic + 'w migration list" where
  "Register m reg =
     (case m of
        None \<Rightarrow> Inl NilMigration
      | Some m \<Rightarrow>
          if mig_Name m = [] then Inl EmptyName
          else if Get reg (mig_Name m) \<noteq> None then Inl (AlreadyRegistered (mig_Name m))
          else Inr (m # reg))"

definition GetAll :: "'w migration list \<Rightarrow> 'w migration list" where
  "GetAll reg = sort_key mig_Name reg"

definition versionMatches :: "string \<Rightarrow> string \<Rightarrow> bool" where
  "versionMatches previousVersion fromVersion =
     (let normalizedPrevious = trim_prefix previousVersion ''v''; normalizedFrom = trim_prefix fromVersion ''v''
      in versionLessThan normalizedPrevious normalizedFrom \<or> normalizedPrevious = normalizedFrom)"

fun pending_loop :: "'w state_fs \<Rightarrow> string \<Rightarrow> 'w \<Rightarrow> 'w migration list \<Rightarrow> state_error + 'w migration list" where
  "pending_loop F previous w [] = Inr []"
| "pending_loop F previous w (m # ms) =
     (case IsApplied F (mig_Name m) w of
        Inl e \<Rightarrow> Inl e
      | Inr applied \<Rightarrow>
          if applied \<or> mig_FromVersion m = [] \<or> previous = [] \<or> \<not> versionMatches previous (mig_FromVersion m)
          then pending_loop F previous w ms
          else (case pending_loop F previous w ms of Inl e \<Rightarrow> Inl e | Inr pend \<Rightarrow> Inr (m # pend)))"

definition GetPending :: "'w state_fs \<Rightarrow> 'w migration list \<Rightarrow> 'w \<Rightarrow> state_error + 'w migration list" where
  "GetPending F reg w =
     (case GetProviderVersion F w of
        Inl e \<Rightarrow> Inl e
      | Inr previous \<Rightarrow> pending_loop F previous w (GetAll reg))"

datatype migration_error = PendingFailed state_error | RunFailed string string | MarkFailed string state_error | VersionFailed state_error

fun run_loop :: "'w state_fs \<Rightarrow> 'w migration list \<Rightarrow> 'w \<Rightarrow> nat \<times> migration_error list \<times> 'w" where
  "run_loop F [] w = (0, [], w)"
| "run_loop F (m # ms) w =
     (case mig_Run m w of
        (Some e, w1) \<Rightarrow> (case run_loop F ms w1 of (k, errs, w') \<Rightarrow> (k, RunFailed (mig_Name m) e # errs, w'))
      | (None, w1) \<Rightarrow>
          (case MarkApplied F (mig_Name m) w1 of
             (Some e, w2) \<Rightarrow> (case run_loop F ms w2 of (k, errs, w') \<Rightarrow> (k, MarkFailed (mig_Name m) e # errs, w'))
           | (None, w2) \<Rightarrow> (case run_loop F ms w2 of (k, errs, w') \<Rightarrow> (Suc k, errs, w'))))"

definition RunMigrations :: "'w state_fs \<Rightarrow> 'w migration list \<Rightarrow> string \<Rightarrow> 'w \<Rightarrow> nat \<times> migration_error list \<times> 'w" where
  "RunMigrations F reg currentVersion w =
     (case GetPending F reg w of
        Inl e \<Rightarrow> (0, [PendingFailed e], w)
      | Inr pend \<Rightarrow>
          (case run_loop F pend w of
             (k, errs, w1) \<Rightarrow>
               if currentVersion \<noteq> []
               then (case SetProviderVersion F currentVersion w1 of
                       (Some e, w2) \<Rightarrow> (k, errs @ [VersionFailed e], w2)
                     | (None, w2) \<Rightarrow> (k, errs, w2))
               else (k, errs, w1)))"

section \<open>The command\<close>

definition currentVersionOrDefault :: "string \<Rightarrow> string" where
  "currentVersionOrDefault version = (if version = [] then ''0.0.0'' else version)"

fun mark_all :: "'w state_fs \<Rightarrow> 'w migration list \<Rightarrow> 'w \<Rightarrow> migration_error option \<times> 'w" where
  "mark_all F [] w = (None, w)"
| "mark_all F (m # ms) w =
     (case MarkApplied F (mig_Name m) w of
        (Some e, w') \<Rightarrow> (Some (MarkFailed (mig_Name m) e), w')
      | (None, w') \<Rightarrow> mark_all F ms w')"

definition only_version :: "'w state_fs \<Rightarrow> string \<Rightarrow> 'w \<Rightarrow> (migration_error + nat \<times> migration_error list) \<times> 'w" where
  "only_version F currentVersion w =
     (case SetProviderVersion F currentVersion w of (Some e, w') \<Rightarrow> (Inl (VersionFailed e), w') | (None, w') \<Rightarrow> (Inr (0, []), w'))"

definition runMigrations :: "'w state_fs \<Rightarrow> 'w migration list \<Rightarrow> string \<Rightarrow> 'w \<Rightarrow> (migration_error + nat \<times> migration_error list) \<times> 'w" where
  "runMigrations F reg version w =
     (let currentVersion = currentVersionOrDefault version in
      case GetProviderVersion F w of
        Inl e \<Rightarrow> (Inl (VersionFailed e), w)
      | Inr previousVersion \<Rightarrow>
          if previousVersion = []
          then (case mark_all F (GetAll reg) w of
                  (Some e, w') \<Rightarrow> (Inl e, w')
                | (None, w') \<Rightarrow> only_version F currentVersion w')
          else if GetAll reg = [] then only_version F currentVersion w
          else (case GetPending F reg w of
                  Inl e \<Rightarrow> (Inl (PendingFailed e), w)
                | Inr pend \<Rightarrow>
                    if pend = [] then only_version F currentVersion w
                    else (case RunMigrations F reg currentVersion w of (k, errs, w') \<Rightarrow> (Inr (k, errs), w'))))"

datatype migrate_exit = MigrateOk nat | MigrateAborted migration_error | MigrateFailed nat

definition doMigrateRun :: "'w state_fs \<Rightarrow> 'w migration list \<Rightarrow> string \<Rightarrow> 'w \<Rightarrow> migrate_exit \<times> 'w" where
  "doMigrateRun F reg version w =
     (case runMigrations F reg version w of
        (Inl e, w') \<Rightarrow> (MigrateAborted e, w')
      | (Inr (k, errs), w') \<Rightarrow> (if errs \<noteq> [] then MigrateFailed (length errs) else MigrateOk k, w'))"

text \<open>\<open>None\<close> is a flag that cannot be read; the home flag is looked up twice.\<close>

definition determineStatePath :: "(string \<Rightarrow> string \<Rightarrow> string) \<Rightarrow> string option \<Rightarrow> string option \<Rightarrow> string option \<Rightarrow> string option" where
  "determineStatePath join statePathFlag homeFlag persistentHome =
     (case statePathFlag of
        None \<Rightarrow> None
      | Some statePath \<Rightarrow>
          if statePath \<noteq> [] then Some statePath
          else (case (case homeFlag of Some h \<Rightarrow> Some h | None \<Rightarrow> persistentHome) of
                  None \<Rightarrow> None
                | Some home \<Rightarrow> if home = [] then None else Some (join home ''migrations.json'')))"

section \<open>What the state file promises\<close>

text \<open>
  The documented behaviour of the files: a successful write is what the next read returns, creating the
  directory leaves the file alone, and \<open>time.Time\<close> reads back its own text.
\<close>

definition fs_ok :: "'w state_fs \<Rightarrow> bool" where
  "fs_ok F \<longleftrightarrow> (\<forall>w. fs_time_ok F (fs_now F w)) \<and>
     (\<forall>v w w'. fs_write F v w = (None, w') \<longrightarrow> fs_read F w' = FileJson (Some v)) \<and>
     (\<forall>w. fs_read F (snd (fs_mkdir F w)) = fs_read F w)"

text \<open>A disk on which no write fails, and migrations that leave the state file alone.\<close>

definition fs_total :: "'w state_fs \<Rightarrow> bool" where
  "fs_total F \<longleftrightarrow> (\<forall>w. fst (fs_mkdir F w) = None) \<and> (\<forall>v w. fst (fs_write F v w) = None)"

definition runs_frame :: "'w state_fs \<Rightarrow> 'w migration list \<Rightarrow> bool" where
  "runs_frame F reg \<longleftrightarrow> (\<forall>m\<in>set reg. \<forall>w. fs_read F (snd (mig_Run m w)) = fs_read F w)"

lemma decode_strings_JStr [simp]: "decode_strings (map JStr xs) = Some xs"
  by (induction xs) simp_all

lemma to_lower_state_keys [simp]:
  "to_lower ''applied'' = ''applied''" "to_lower ''last_run'' = ''last_run''" "to_lower ''provider_version'' = ''provider_version''"
  by (simp_all add: to_lower_def to_lower_char_def)

lemma decode_encode_state:
  "fs_time_ok F (LastRun st) \<Longrightarrow> decode_struct (state_field F) (empty_state F) (encode_state st) = Some st"
  by (cases st) (simp add: encode_state_def state_field_def empty_state_def decode_applied_def decode_time_def)

lemma load_after_save:
  assumes "fs_ok F" "Save F st w = (None, w')"
  shows "Load F w' = Inr (st\<lparr>LastRun := fs_now F w\<rparr>)"
proof -
  have t: "fs_time_ok F (fs_now F w)" using assms(1) by (simp add: fs_ok_def)
  from assms(2) obtain w1 where "fs_write F (encode_state (st\<lparr>LastRun := fs_now F w\<rparr>)) w1 = (None, w')"
    by (auto simp: Save_def Let_def split: prod.splits option.splits)
  then have "fs_read F w' = FileJson (Some (encode_state (st\<lparr>LastRun := fs_now F w\<rparr>)))"
    using assms(1) unfolding fs_ok_def by blast
  then show ?thesis using decode_encode_state[of F "st\<lparr>LastRun := fs_now F w\<rparr>"] t by (simp add: Load_def)
qed


text \<open>Marking and versions, as updates of the loaded state.\<close>

lemma mark_applied_loads:
  assumes "fs_ok F" "Load F w = Inr st" "MarkApplied F name w = (None, w')"
  shows "\<exists>st'. Load F w' = Inr st' \<and> set (Applied st') = insert name (set (Applied st)) \<and> ProviderVersion st' = ProviderVersion st"
  using assms load_after_save[OF assms(1), of "st\<lparr>Applied := Applied st @ [name]\<rparr>" w w']
  by (auto simp: MarkApplied_def split: if_splits)

lemma set_version_loads:
  assumes "fs_ok F" "Load F w = Inr st" "SetProviderVersion F version w = (None, w')"
  shows "\<exists>st'. Load F w' = Inr st' \<and> Applied st' = Applied st \<and> ProviderVersion st' = version"
  using assms load_after_save[OF assms(1), of "st\<lparr>ProviderVersion := version\<rparr>" w w'] by (auto simp: SetProviderVersion_def)



lemma load_frame: "fs_read F w' = fs_read F w \<Longrightarrow> Load F w' = Load F w"
  by (simp add: Load_def)

lemma run_frame: "runs_frame F reg \<Longrightarrow> m \<in> set reg \<Longrightarrow> mig_Run m w = (r, w') \<Longrightarrow> Load F w' = Load F w"
  unfolding runs_frame_def by (metis load_frame snd_conv)

section \<open>Versions compare by their first difference\<close>

lemma version_loop_iff:
  "version_loop p1 p2 m i \<longleftrightarrow>
     (\<exists>k\<ge>i. k < m \<and> parseVersionPart p1 k < parseVersionPart p2 k \<and> (\<forall>j\<ge>i. j < k \<longrightarrow> parseVersionPart p1 j = parseVersionPart p2 j))"
proof (induction p1 p2 m i rule: version_loop.induct)
  case (1 p1 p2 m i)
  let ?a = "parseVersionPart p1" and ?b = "parseVersionPart p2"
  consider "\<not> i < m" | "i < m" "?a i < ?b i" | "i < m" "?a i > ?b i" | "i < m" "?a i = ?b i" by linarith
  then show ?case
  proof cases
    case 4
    then have "version_loop p1 p2 m i = version_loop p1 p2 m (i + 1)"
      by (subst version_loop.simps) (simp add: Let_def)
    also have "\<dots> \<longleftrightarrow> (\<exists>k\<ge>i + 1. k < m \<and> ?a k < ?b k \<and> (\<forall>j\<ge>i + 1. j < k \<longrightarrow> ?a j = ?b j))"
      using 1 4 by (simp add: Let_def)
    also have "\<dots> \<longleftrightarrow> (\<exists>k\<ge>i. k < m \<and> ?a k < ?b k \<and> (\<forall>j\<ge>i. j < k \<longrightarrow> ?a j = ?b j))" (is "?l = ?r")
    proof
      assume ?l
      then obtain k where k: "k \<ge> i + 1" "k < m" "?a k < ?b k" "\<forall>j\<ge>i + 1. j < k \<longrightarrow> ?a j = ?b j" by blast
      have "?a j = ?b j" if "j \<ge> i" "j < k" for j using that k(4) 4(2) by (cases "j = i") simp_all
      then show ?r using k by (intro exI[of _ k]) simp
    next
      assume ?r
      then obtain k where k: "k \<ge> i" "k < m" "?a k < ?b k" "\<forall>j\<ge>i. j < k \<longrightarrow> ?a j = ?b j" by blast
      then have "k \<noteq> i" using 4(2) by auto
      then show ?l using k by (intro exI[of _ k]) simp
    qed
    finally show ?thesis .
  next
    case 2
    then show ?thesis by (subst version_loop.simps) (auto simp: Let_def intro!: exI[of _ i])
  next
    case 3
    then have "\<not> (?a k < ?b k \<and> (\<forall>j\<ge>i. j < k \<longrightarrow> ?a j = ?b j))" if "k \<ge> i" for k
      using that by (cases "k = i") auto
    moreover have "\<not> version_loop p1 p2 m i" using 3 by (subst version_loop.simps) (simp add: Let_def)
    ultimately show ?thesis by blast
  qed (subst version_loop.simps, simp)
qed

text \<open>The numbers of a version, zero after the last part.\<close>

definition version_number :: "string \<Rightarrow> nat \<Rightarrow> int" where
  "version_number v i = parseVersionPart (version_parts v) i"

lemma versionLessThan_iff:
  "versionLessThan v1 v2 \<longleftrightarrow> v1 \<noteq> [] \<and> v2 \<noteq> [] \<and>
     (\<exists>k. version_number v1 k < version_number v2 k \<and> (\<forall>j<k. version_number v1 j = version_number v2 j))"
proof -
  have "k < max (length (version_parts v1)) (length (version_parts v2))"
    if "version_number v1 k < version_number v2 k" for k
    using that by (auto simp: version_number_def parseVersionPart_def split: if_splits)
  then show ?thesis
    by (auto simp: versionLessThan_def version_loop_iff Let_def version_number_def[symmetric])
qed

lemma versionLessThan_irrefl: "\<not> versionLessThan v v"
  by (simp add: versionLessThan_iff)

lemma versionLessThan_trans:
  assumes "versionLessThan a b" "versionLessThan b c"
  shows "versionLessThan a c"
proof -
  obtain i where i: "version_number a i < version_number b i" "\<forall>j<i. version_number a j = version_number b j"
    using assms(1) by (auto simp: versionLessThan_iff)
  obtain k where k: "version_number b k < version_number c k" "\<forall>j<k. version_number b j = version_number c j"
    using assms(2) by (auto simp: versionLessThan_iff)
  have "version_number a (min i k) < version_number c (min i k)"
    using i k by (cases i k rule: linorder_cases) (auto simp: min_def)
  moreover have "\<forall>j<min i k. version_number a j = version_number c j" using i(2) k(2) by simp
  ultimately show ?thesis using assms by (auto simp: versionLessThan_iff)
qed

lemma version_suffix_ignored: "version_number (v @ ''-'' @ s) = version_number v"
proof -
  have "stripVersionSuffix (v @ ''-'' @ s) = stripVersionSuffix v" by (induction v) (simp_all add: stripVersionSuffix_def)
  then show ?thesis by (simp add: version_number_def version_parts_def fun_eq_iff)
qed

section \<open>What a start does\<close>

text \<open>The migrations a loaded state leaves to do.\<close>

definition due :: "State \<Rightarrow> 'w migration \<Rightarrow> bool" where
  "due st m \<longleftrightarrow> mig_Name m \<notin> set (Applied st) \<and> mig_FromVersion m \<noteq> [] \<and> ProviderVersion st \<noteq> [] \<and>
     versionMatches (ProviderVersion st) (mig_FromVersion m)"

lemma pending_loop_filter:
  "Load F w = Inr st \<Longrightarrow> pending_loop F (ProviderVersion st) w ms = Inr (filter (due st) ms)"
  by (induction ms) (auto simp: IsApplied_def due_def)

lemma GetPending_filter: "Load F w = Inr st \<Longrightarrow> GetPending F reg w = Inr (filter (due st) (GetAll reg))"
  by (simp add: GetPending_def GetProviderVersion_def pending_loop_filter)

lemma set_GetAll [simp]: "set (GetAll reg) = set reg"
  by (simp add: GetAll_def)


lemma run_loop_clean:
  assumes "fs_ok F" "runs_frame F reg" "set ms \<subseteq> set reg" "Load F w = Inr st" "run_loop F ms w = (k, [], w')"
  shows "k = length ms \<and> (\<exists>st'. Load F w' = Inr st' \<and> set (Applied st') = mig_Name ` set ms \<union> set (Applied st) \<and>
           ProviderVersion st' = ProviderVersion st)"
  using assms(3-5)
proof (induction ms arbitrary: w st k)
  case (Cons m ms)
  obtain w1 where r: "mig_Run m w = (None, w1)"
    using Cons.prems(3) by (auto split: prod.splits option.splits)
  have l1: "Load F w1 = Inr st" using run_frame[OF assms(2) _ r] Cons.prems by simp
  obtain w2 where mk: "MarkApplied F (mig_Name m) w1 = (None, w2)"
    using Cons.prems(3) r by (auto split: prod.splits option.splits)
  obtain st2 where st2: "Load F w2 = Inr st2" "set (Applied st2) = insert (mig_Name m) (set (Applied st))"
      "ProviderVersion st2 = ProviderVersion st"
    using mark_applied_loads[OF assms(1) l1 mk] by blast
  obtain k' where "run_loop F ms w2 = (k', [], w')" "k = Suc k'"
    using Cons.prems(3) r mk by (auto split: prod.splits)
  then show ?case using Cons.IH[OF _ st2(1)] Cons.prems(1) st2 by auto
qed simp


lemma only_version_loads:
  assumes "fs_ok F" "Load F w = Inr st" "only_version F v w = (Inr r, w')"
  shows "r = (0, []) \<and> (\<exists>st'. Load F w' = Inr st' \<and> Applied st' = Applied st \<and> ProviderVersion st' = v)"
  using assms(3) set_version_loads[OF assms(1,2), of v w'] by (auto simp: only_version_def split: prod.splits option.splits)

lemma RunMigrations_clean:
  assumes "fs_ok F" "runs_frame F reg" "Load F w = Inr st" "RunMigrations F reg v w = (k, [], w')" "v \<noteq> []"
  shows "k = length (filter (due st) reg) \<and> (\<exists>st'. Load F w' = Inr st' \<and> ProviderVersion st' = v \<and>
     set (Applied st') = mig_Name ` {m \<in> set reg. due st m} \<union> set (Applied st))"
proof -
  let ?p = "filter (due st) (GetAll reg)"
  obtain k1 errs w1 where rl: "run_loop F ?p w = (k1, errs, w1)" by (cases "run_loop F ?p w")
  then have e: "errs = []" "k = k1" and sv: "SetProviderVersion F v w1 = (None, w')"
    using assms(4,5) GetPending_filter[OF assms(3), of reg] by (auto simp: RunMigrations_def split: prod.splits option.splits)
  have "set ?p \<subseteq> set reg" by auto
  from run_loop_clean[OF assms(1,2) this assms(3) rl[unfolded e(1)]] obtain st1 where st1:
    "k1 = length ?p" "Load F w1 = Inr st1" "set (Applied st1) = mig_Name ` set ?p \<union> set (Applied st)" by blast
  have "length ?p = length (filter (due st) reg)"
    by (simp add: GetAll_def filter_sort length_sort)
  moreover have "set ?p = {m \<in> set reg. due st m}" by auto
  ultimately show ?thesis using set_version_loads[OF assms(1) st1(2) sv] st1 e(2) by auto
qed

text \<open>Every way a start can end without an error, on a provider that has run before.\<close>

lemma clean_start:
  assumes "fs_ok F" "runs_frame F reg" "Load F w = Inr st" "ProviderVersion st \<noteq> []"
    and "runMigrations F reg version w = (Inr (k, []), w')"
  shows "k = length (filter (due st) reg) \<and> (\<exists>st'. Load F w' = Inr st' \<and> ProviderVersion st' = currentVersionOrDefault version \<and>
     set (Applied st') = mig_Name ` {m \<in> set reg. due st m} \<union> set (Applied st))"
proof (cases "filter (due st) (GetAll reg) = []")
  case True
  then have none: "{m \<in> set reg. due st m} = {}" by (auto simp: filter_empty_conv)
  then have "filter (due st) reg = []" by (auto simp: filter_empty_conv)
  moreover have "only_version F (currentVersionOrDefault version) w = (Inr (k, []), w')"
    using assms(5) GetPending_filter[OF assms(3), of reg] True assms(3,4)
    by (auto simp: runMigrations_def GetProviderVersion_def Let_def split: if_splits)
  ultimately show ?thesis using only_version_loads[OF assms(1,3)] none by fastforce
next
  case False
  then have "GetAll reg \<noteq> []" by auto
  then have "RunMigrations F reg (currentVersionOrDefault version) w = (k, [], w')"
    using assms(5) GetPending_filter[OF assms(3), of reg] False assms(3,4)
    by (auto simp: runMigrations_def GetProviderVersion_def Let_def split: prod.splits)
  from RunMigrations_clean[OF assms(1-3) this] show ?thesis by (simp add: currentVersionOrDefault_def)
qed

text \<open>
  A start of a provider that has run before and reports no error has applied exactly the migrations that were due, counts
  each of them once, records the version it is, and leaves nothing to do for any later start: the same registry has no
  pending migration left, whatever version the state file then holds, among those that were due.
\<close>

theorem clean_start_applies_due:
  assumes "fs_ok F" "runs_frame F reg" "Load F w = Inr st" "ProviderVersion st \<noteq> []"
    and "doMigrateRun F reg version w = (MigrateOk k, w')"
  shows "k = length (filter (due st) reg) \<and>
     (\<exists>st'. Load F w' = Inr st' \<and> ProviderVersion st' = currentVersionOrDefault version \<and>
        set (Applied st') = mig_Name ` {m \<in> set reg. due st m} \<union> set (Applied st) \<and>
        (\<forall>m\<in>set reg. due st m \<longrightarrow> \<not> due st' m))"
proof -
  have "runMigrations F reg version w = (Inr (k, []), w')"
    using assms(5) by (auto simp: doMigrateRun_def split: prod.splits sum.splits if_splits)
  from clean_start[OF assms(1-4) this] show ?thesis by (auto simp: due_def)
qed

section \<open>A start on a disk that never fails\<close>


lemma GetAll_distinct: "distinct (map mig_Name reg) \<Longrightarrow> distinct (map mig_Name (GetAll reg))"
  by (simp add: GetAll_def distinct_map)











text \<open>A disk that holds one file and a cluster that is up or down.\<close>

type_synonym disk = "json option \<times> bool"

definition ex_fs :: "disk state_fs" where
  "ex_fs = \<lparr>fs_read = (\<lambda>w. case fst w of None \<Rightarrow> FileAbsent | Some v \<Rightarrow> FileJson (Some v)), fs_mkdir = (\<lambda>w. (None, w)),
     fs_write = (\<lambda>v w. (None, (Some v, snd w))), fs_now = (\<lambda>_. ''2026-01-01T00:00:00Z''), fs_time_ok = (\<lambda>_. True),
     fs_zero_time = ''0001-01-01T00:00:00Z''\<rparr>"

definition ex_migration :: "disk migration" where
  "ex_migration = \<lparr>mig_Name = ''ingress-to-httproute-001'', mig_FromVersion = ''0.10.6'',
     mig_Run = (\<lambda>w. (if snd w then None else Some ''the server is unavailable'', w))\<rparr>"

definition ex_state :: State where
  "ex_state = \<lparr>Applied = [], LastRun = ''2025-01-01T00:00:00Z'', ProviderVersion = ''v0.10.5''\<rparr>"

definition ex_down :: disk where "ex_down = (Some (encode_state ex_state), False)"

lemma ex_fs_ok: "fs_ok ex_fs" "fs_total ex_fs" "runs_frame ex_fs [ex_migration]"
  by (auto simp: fs_ok_def fs_total_def runs_frame_def ex_fs_def ex_migration_def)

lemma ex_name: "mig_Name ex_migration = ''ingress-to-httproute-001''"
  by (simp add: ex_migration_def)

lemma ex_state_loads: "Load ex_fs ex_down = Inr ex_state" "due ex_state ex_migration"
  by code_simp+





lemma ex_up_runs: "fst (doMigrateRun ex_fs [ex_migration] ''v0.11.0'' (fst ex_down, True)) = MigrateOk 1"
  by code_simp

theorem clean_start_applies_due_witness:
  "\<exists>st'. Load ex_fs (snd (doMigrateRun ex_fs [ex_migration] ''v0.11.0'' (fst ex_down, True))) = Inr st' \<and>
     ''ingress-to-httproute-001'' \<in> set (Applied st')"
proof -
  let ?r = "doMigrateRun ex_fs [ex_migration] ''v0.11.0'' (fst ex_down, True)"
  have r: "?r = (MigrateOk 1, snd ?r)" using ex_up_runs by (metis prod.collapse)
  have l: "Load ex_fs (fst ex_down, True) = Inr ex_state" "ProviderVersion ex_state \<noteq> []" by code_simp+
  from clean_start_applies_due[OF ex_fs_ok(1,3) l r] ex_state_loads(2) ex_name show ?thesis by fastforce
qed

section \<open>Fresh installs and registration\<close>

lemma mark_all_loads:
  assumes "fs_ok F"
  shows "Load F w = Inr st \<Longrightarrow> mark_all F ms w = (None, w') \<Longrightarrow> \<exists>st'. Load F w' = Inr st' \<and>
     set (Applied st') = mig_Name ` set ms \<union> set (Applied st) \<and> ProviderVersion st' = ProviderVersion st"
proof (induction ms arbitrary: w st)
  case (Cons m ms)
  then obtain w1 where w1: "MarkApplied F (mig_Name m) w = (None, w1)" "mark_all F ms w1 = (None, w')"
    by (auto split: prod.splits option.splits)
  from mark_applied_loads[OF assms Cons.prems(1) w1(1)] obtain st1 where st1: "Load F w1 = Inr st1"
    "set (Applied st1) = insert (mig_Name m) (set (Applied st))" "ProviderVersion st1 = ProviderVersion st" by blast
  from Cons.IH[OF st1(1) w1(2)] st1 show ?case by auto
qed simp

lemma mark_all_names: "mark_all F ms w = mark_all F (map (mig_Run_update f) ms) w"
  by (induction ms arbitrary: w) (simp_all split: prod.splits option.splits)

lemma GetAll_run_update: "GetAll (map (mig_Run_update f) reg) = map (mig_Run_update f) (GetAll reg)"
proof -
  have ins: "insort_key mig_Name (mig_Run_update f m) (map (mig_Run_update f) ms) = map (mig_Run_update f) (insort_key mig_Name m ms)" for m ms
    by (induction ms) simp_all
  show ?thesis unfolding GetAll_def sort_key_def by (induction reg) (simp_all add: ins)
qed

text \<open>
  A provider without a state file, or with one that names no version, is a fresh install: the start runs no migration (it
  is the same start for any bodies of the migrations), records every registered migration as applied and its own version.
\<close>

theorem fresh_install_runs_nothing:
  assumes "fs_ok F" "Load F w = Inr st" "ProviderVersion st = []" "runMigrations F reg version w = (Inr r, w')"
  shows "r = (0, []) \<and> (\<exists>st'. Load F w' = Inr st' \<and> set (Applied st') = mig_Name ` set reg \<union> set (Applied st) \<and>
           ProviderVersion st' = currentVersionOrDefault version) \<and>
         runMigrations F (map (mig_Run_update f) reg) version w = (Inr r, w')"
proof -
  obtain w1 where w1: "mark_all F (GetAll reg) w = (None, w1)" "only_version F (currentVersionOrDefault version) w1 = (Inr r, w')"
    using assms(2-4) by (auto simp: runMigrations_def GetProviderVersion_def Let_def split: prod.splits option.splits)
  from mark_all_loads[OF assms(1,2) w1(1)] obtain st1 where st1: "Load F w1 = Inr st1"
    "set (Applied st1) = mig_Name ` set reg \<union> set (Applied st)" by auto
  have "runMigrations F (map (mig_Run_update f) reg) version w = (Inr r, w')"
    using assms(2,3) w1 mark_all_names[of F "GetAll reg" w f]
    by (simp add: runMigrations_def GetProviderVersion_def Let_def GetAll_run_update)
  then show ?thesis using only_version_loads[OF assms(1) st1(1) w1(2)] st1(2) by auto
qed

theorem fresh_install_runs_nothing_witness:
  "\<exists>st'. Load ex_fs (snd (runMigrations ex_fs [ex_migration] ''v0.11.0'' (None, False))) = Inr st' \<and>
     ''ingress-to-httproute-001'' \<in> set (Applied st')"
proof -
  let ?r = "runMigrations ex_fs [ex_migration] ''v0.11.0'' (None, False)"
  have "fst ?r = Inr (0, [])" by code_simp
  then have r: "?r = (Inr (0, []), snd ?r)" by (metis prod.collapse)
  have l: "Load ex_fs (None, False) = Inr (empty_state ex_fs)" "ProviderVersion (empty_state ex_fs) = []"
    by (simp_all add: Load_def ex_fs_def empty_state_def)
  from fresh_install_runs_nothing[OF ex_fs_ok(1) l r] ex_name show ?thesis by fastforce
qed

text \<open>Registered names stay unique, and the order in which the map is walked does not matter.\<close>

lemma Register_distinct:
  "Register m reg = Inr reg' \<Longrightarrow> distinct (map mig_Name reg) \<Longrightarrow> distinct (map mig_Name reg')"
  by (auto simp: Register_def Get_def find_None_iff image_iff split: option.splits if_splits) (metis find_None_iff)

lemma GetAll_order_independent:
  assumes "set reg = set reg'" "distinct (map mig_Name reg)" "distinct (map mig_Name reg')"
  shows "GetAll reg = GetAll reg'"
  using assms GetAll_distinct[OF assms(2)] GetAll_distinct[OF assms(3)]
  by (intro map_sorted_distinct_set_unique[of mig_Name]) (simp_all add: distinct_map, simp_all add: GetAll_def)

text \<open>
  A pre-release of the very version a migration is for is neither less than it nor equal to it: the comparison
  ignores the suffix, the equality does not, so the migration is skipped where the comment promises
  \<open>previousVersion <= fromVersion\<close>.
\<close>

theorem prerelease_is_skipped:
  assumes "\<not> has_prefix V ''v''"
  shows "\<not> versionMatches (V @ ''-'' @ s) V"
proof -
  have "\<not> has_prefix (V @ ''-'' @ s) ''v''" using assms by (cases V) (auto simp: has_prefix_def)
  moreover have "\<not> versionLessThan (V @ ''-'' @ s) V"
    by (simp add: versionLessThan_iff version_suffix_ignored del: append_Cons)
  ultimately show ?thesis using assms by (simp add: versionMatches_def trim_prefix_def)
qed

theorem prerelease_is_skipped_witness: "\<not> versionMatches ''0.10.6-rc1'' ''0.10.6''"
  using prerelease_is_skipped[of "''0.10.6''" "''rc1''"] by (simp add: has_prefix_def)

end
