(* ===== verification/IngressMigration.thy ===== *)
theory IngressMigration
  imports Migrations
begin

text \<open>
  The migration from ingresses to HTTP routes (migrations/ingress_to_httproute.go). The Kubernetes calls are parameters
  over the world \<open>'w\<close>, as is \<open>strconv.ParseFloat\<close> followed by \<open>math.Ceil\<close>; converting a route to its unstructured form
  does not fail. A port is kept as its 32 bits.
\<close>

section \<open>Objects and calls\<close>

record mig_rule =
  mr_Host :: string
  mr_HTTP :: "(string \<times> u32) option list option"

record mig_ingress =
  mi_Namespace :: string
  mi_Name :: string
  mi_Labels :: labels
  mi_Annotations :: "string \<rightharpoonup> string"
  mi_Rules :: "mig_rule list"

record mig_route =
  rt_Name :: string
  rt_Labels :: labels
  rt_Annotations :: "string \<rightharpoonup> string"
  rt_Spec :: httpRouteSpec
  rt_Version :: string

text \<open>\<open>me_setup\<close> is the error of the clients that are taken from the context.\<close>

record 'w mig_env =
  me_setup :: "string option"
  me_gateway :: "string \<times> string"
  me_list :: "'w \<Rightarrow> kube_error + mig_ingress list"
  me_get :: "string \<Rightarrow> string \<Rightarrow> 'w \<Rightarrow> kube_error + mig_route"
  me_update :: "string \<Rightarrow> mig_route \<Rightarrow> 'w \<Rightarrow> kube_error option \<times> 'w"
  me_create :: "string \<Rightarrow> mig_route \<Rightarrow> 'w \<Rightarrow> kube_error option \<times> 'w"
  me_ceil :: "string \<Rightarrow> int option"

section \<open>Annotations\<close>

definition ingressRoot :: string where "ingressRoot = ''nginx.ingress.kubernetes.io''"
definition gatewayRoot :: string where "gatewayRoot = ''nginx.org''"

definition itoa_int :: "int \<Rightarrow> string" where
  "itoa_int n = (if n < 0 then ''-'' @ itoa (nat (- n)) else itoa (nat n))"

definition getAnnotationValue :: "(string \<rightharpoonup> string) \<Rightarrow> string \<Rightarrow> string \<Rightarrow> string" where
  "getAnnotationValue annotations key defaultValue = (case annotations key of Some v \<Rightarrow> v | None \<Rightarrow> defaultValue)"

definition getAnnotationInt :: "(string \<Rightarrow> int option) \<Rightarrow> (string \<rightharpoonup> string) \<Rightarrow> string \<Rightarrow> int \<Rightarrow> int" where
  "getAnnotationInt parse_ceil annotations key defaultValue =
     (case annotations key of
        None \<Rightarrow> defaultValue
      | Some v \<Rightarrow>
          (case atoi v of
             Some n \<Rightarrow> n
           | None \<Rightarrow> (case parse_ceil v of Some n \<Rightarrow> n | None \<Rightarrow> defaultValue)))"

definition convertAnnotations :: "(string \<Rightarrow> int option) \<Rightarrow> (string \<rightharpoonup> string) \<Rightarrow> (string \<rightharpoonup> string)" where
  "convertAnnotations parse_ceil a =
     (let readTimeout = getAnnotationInt parse_ceil a (ingressRoot @ ''/proxy-read-timeout'') 60;
          sendTimeout = getAnnotationInt parse_ceil a (ingressRoot @ ''/proxy-send-timeout'') 60;
          m = Map.empty;
          m = m(gatewayRoot @ ''/proxy-read-timeout'' \<mapsto> itoa_int readTimeout);
          m = m(gatewayRoot @ ''/proxy-send-timeout'' \<mapsto> itoa_int sendTimeout);
          bodySize = getAnnotationValue a (ingressRoot @ ''/proxy-body-size'') ''1m'';
          m = m(gatewayRoot @ ''/client-max-body-size'' \<mapsto> bodySize);
          nextTries = getAnnotationValue a (ingressRoot @ ''/proxy-next-upstream-tries'') ''3'';
          m = m(gatewayRoot @ ''/proxy-next-upstream-tries'' \<mapsto> nextTries);
          nextTimeout = getAnnotationValue a (ingressRoot @ ''/proxy-next-upstream-timeout'') ''0'';
          m = (if nextTimeout \<noteq> ''0''
               then (case atoi nextTimeout of
                       Some n \<Rightarrow> if n > 0 then m(gatewayRoot @ ''/proxy-next-upstream-timeout'' \<mapsto> itoa_int n @ ''s'') else m
                     | None \<Rightarrow> m)
               else m);
          nextUpstream = getAnnotationValue a (ingressRoot @ ''/proxy-next-upstream'') []
      in if nextUpstream \<noteq> [] then m(gatewayRoot @ ''/proxy-next-upstream'' \<mapsto> nextUpstream) else m)"

section \<open>Routes\<close>

definition buildHTTPRoute ::
  "(string \<Rightarrow> int option) \<Rightarrow> string \<Rightarrow> labels \<Rightarrow> (string \<rightharpoonup> string) \<Rightarrow> string \<Rightarrow> string \<Rightarrow> string \<Rightarrow> string \<Rightarrow> u32 \<Rightarrow> mig_route" where
  "buildHTTPRoute parse_ceil name ls ingressAnnotations gatewayName gatewayNamespace hostname serviceName servicePort =
     \<lparr>rt_Name = name, rt_Labels = ls, rt_Annotations = convertAnnotations parse_ceil ingressAnnotations,
      rt_Spec = \<lparr>rs_parents = [(gatewayNamespace, gatewayName)], rs_hostnames = [hostname],
                 rs_rules = [\<lparr>rr_path = ''/'', rr_filters = [], rr_backends = [(serviceName, Some servicePort)]\<rparr>]\<rparr>,
      rt_Version = []\<rparr>"

text \<open>The route of an ingress: only its first rule and first path count, and an ingress without them is left alone.\<close>

definition ingress_route :: "'w mig_env \<Rightarrow> mig_ingress \<Rightarrow> mig_route option" where
  "ingress_route E i =
     (case mi_Rules i of
        [] \<Rightarrow> None
      | rule # _ \<Rightarrow>
          (case mr_HTTP rule of
             None \<Rightarrow> None
           | Some [] \<Rightarrow> None
           | Some (None # _) \<Rightarrow> None
           | Some (Some (serviceName, servicePort) # _) \<Rightarrow>
               Some (buildHTTPRoute (me_ceil E) (mi_Name i) (mi_Labels i) (mi_Annotations i) (snd (me_gateway E)) (fst (me_gateway E))
                       (mr_Host rule) serviceName servicePort)))"

definition migrateIngress :: "'w mig_env \<Rightarrow> mig_ingress \<Rightarrow> 'w \<Rightarrow> kube_error option \<times> 'w" where
  "migrateIngress E i w =
     (case ingress_route E i of
        None \<Rightarrow> (None, w)
      | Some u \<Rightarrow>
          (case me_get E (mi_Namespace i) (mi_Name i) w of
             Inr existing \<Rightarrow> me_update E (mi_Namespace i) (u\<lparr>rt_Version := rt_Version existing\<rparr>) w
           | Inl e \<Rightarrow> if IsNotFound e then me_create E (mi_Namespace i) u w else (Some e, w)))"

fun migrate_all :: "'w mig_env \<Rightarrow> mig_ingress list \<Rightarrow> 'w \<Rightarrow> string option \<times> 'w" where
  "migrate_all E [] w = (None, w)"
| "migrate_all E (i # is) w =
     (case migrateIngress E i w of
        (Some e, w') \<Rightarrow> (Some (''failed to migrate ingress '' @ mi_Namespace i @ ''/'' @ mi_Name i @ '': '' @ kube_error_text e), w')
      | (None, w') \<Rightarrow> migrate_all E is w')"

definition migration_run :: "'w mig_env \<Rightarrow> 'w \<Rightarrow> string option \<times> 'w" where
  "migration_run E w =
     (case me_setup E of
        Some e \<Rightarrow> (Some e, w)
      | None \<Rightarrow>
          (case me_list E w of
             Inl e \<Rightarrow> (Some (''failed to list ingresses: '' @ kube_error_text e), w)
           | Inr is \<Rightarrow> migrate_all E is w))"

definition ingressToHTTPRouteMigration :: "'w mig_env \<Rightarrow> 'w migration" where
  "ingressToHTTPRouteMigration E =
     \<lparr>mig_Name = ''ingress-to-httproute-001'', mig_FromVersion = ''0.10.6'', mig_Run = migration_run E\<rparr>"

section \<open>What the migration publishes\<close>

text \<open>
  The documented behaviour of the calls: \<open>routes\<close> reads the routes by namespace and name. A write that succeeds stores the
  object under a version of the server's choice, one that fails stores nothing, and neither touches the ingresses.
\<close>

definition route_writes :: "(string \<Rightarrow> mig_route \<Rightarrow> 'w \<Rightarrow> kube_error option \<times> 'w) \<Rightarrow> ('w \<Rightarrow> string \<times> string \<rightharpoonup> mig_route) \<Rightarrow> bool" where
  "route_writes W routes \<longleftrightarrow> (\<forall>ns r w. case W ns r w of
     (None, w') \<Rightarrow> (\<exists>v. routes w' = (routes w)((ns, rt_Name r) \<mapsto> r\<lparr>rt_Version := v\<rparr>)) | (Some _, w') \<Rightarrow> routes w' = routes w)"

definition mig_env_ok :: "'w mig_env \<Rightarrow> ('w \<Rightarrow> string \<times> string \<rightharpoonup> mig_route) \<Rightarrow> bool" where
  "mig_env_ok E routes \<longleftrightarrow> route_writes (me_create E) routes \<and> route_writes (me_update E) routes \<and>
     (\<forall>ns r w. me_list E (snd (me_create E ns r w)) = me_list E w \<and> me_list E (snd (me_update E ns r w)) = me_list E w)"

text \<open>The routes of the cluster without their versions.\<close>

definition routes_seen :: "('w \<Rightarrow> string \<times> string \<rightharpoonup> mig_route) \<Rightarrow> 'w \<Rightarrow> string \<times> string \<rightharpoonup> mig_route" where
  "routes_seen routes w k = map_option (\<lambda>r. r\<lparr>rt_Version := []\<rparr>) (routes w k)"

text \<open>What the ingresses ask for: the later of two with one name wins, which a cluster never has.\<close>

fun asked :: "'w mig_env \<Rightarrow> mig_ingress list \<Rightarrow> (string \<times> string \<rightharpoonup> mig_route)" where
  "asked E [] = Map.empty"
| "asked E (i # is) = (case ingress_route E i of None \<Rightarrow> Map.empty | Some r \<Rightarrow> [(mi_Namespace i, mi_Name i) \<mapsto> r]) ++ asked E is"

lemma ingress_route_name: "ingress_route E i = Some r \<Longrightarrow> rt_Name r = mi_Name i \<and> rt_Version r = []"
  by (auto simp: ingress_route_def buildHTTPRoute_def split: list.splits option.splits)

lemma route_writesD:
  assumes "route_writes W routes" "W ns r w = (None, w')"
  shows "routes_seen routes w' = (routes_seen routes w)((ns, rt_Name r) \<mapsto> r\<lparr>rt_Version := []\<rparr>)"
proof -
  obtain v where "routes w' = (routes w)((ns, rt_Name r) \<mapsto> r\<lparr>rt_Version := v\<rparr>)"
    using assms(1)[unfolded route_writes_def, THEN spec[of _ ns], THEN spec[of _ r], THEN spec[of _ w]] assms(2) by auto
  then show ?thesis by (auto simp: routes_seen_def fun_eq_iff)
qed

lemma migrateIngress_sees:
  assumes "mig_env_ok E routes" "migrateIngress E i w = (None, w')"
  shows "routes_seen routes w' = routes_seen routes w ++ asked E [i] \<and> me_list E w' = me_list E w"
proof (cases "ingress_route E i")
  case None
  then show ?thesis using assms(2) by (simp add: migrateIngress_def)
next
  case (Some u)
  note n = ingress_route_name[OF Some]
  from assms(2) Some obtain ver where
    "me_update E (mi_Namespace i) (u\<lparr>rt_Version := ver\<rparr>) w = (None, w') \<or> me_create E (mi_Namespace i) u w = (None, w')"
    by (auto simp: migrateIngress_def split: sum.splits if_splits)
  moreover have l: "me_list E (snd (me_update E (mi_Namespace i) (u\<lparr>rt_Version := ver\<rparr>) w)) = me_list E w"
    "me_list E (snd (me_create E (mi_Namespace i) u w)) = me_list E w" for ver
    using assms(1) by (simp_all add: mig_env_ok_def)
  moreover have "u\<lparr>rt_Version := []\<rparr> = u" using n by simp
  ultimately show ?thesis
    using assms(1) Some n route_writesD[of "me_update E" routes] route_writesD[of "me_create E" routes]
    by (auto simp: mig_env_ok_def map_add_def fun_eq_iff) (metis snd_conv)+
qed

lemma migrate_all_sees:
  "mig_env_ok E routes \<Longrightarrow> migrate_all E is w = (None, w') \<Longrightarrow>
     routes_seen routes w' = routes_seen routes w ++ asked E is \<and> me_list E w' = me_list E w"
proof (induction "is" arbitrary: w)
  case (Cons i "is")
  then obtain w1 where w1: "migrateIngress E i w = (None, w1)" "migrate_all E is w1 = (None, w')"
    by (auto split: prod.splits option.splits)
  from migrateIngress_sees[OF Cons.prems(1) w1(1)] Cons.IH[OF Cons.prems(1) w1(2)] show ?case by simp
qed simp

lemma migration_run_sees:
  assumes "mig_env_ok E routes" "migration_run E w = (None, w')"
  shows "\<exists>is. me_list E w = Inr is \<and> routes_seen routes w' = routes_seen routes w ++ asked E is \<and> me_list E w' = Inr is"
proof -
  from assms(2) obtain "is" where "me_list E w = Inr is" "migrate_all E is w = (None, w')"
    by (auto simp: migration_run_def split: option.splits sum.splits prod.splits)
  then show ?thesis using migrate_all_sees[OF assms(1), of "is" w w'] by simp
qed

lemma asked_other: "k \<notin> (\<lambda>i. (mi_Namespace i, mi_Name i)) ` set is \<Longrightarrow> asked E is k = None"
  by (induction "is") (auto simp: map_add_def split: option.splits)

lemma asked_unique:
  assumes "distinct (map (\<lambda>i. (mi_Namespace i, mi_Name i)) is)" "i \<in> set is"
  shows "asked E is (mi_Namespace i, mi_Name i) = ingress_route E i"
  using assms
proof (induction "is")
  case (Cons j "is")
  show ?case
  proof (cases "i = j")
    case True
    then have "asked E is (mi_Namespace i, mi_Name i) = None" using Cons.prems by (intro asked_other) auto
    then show ?thesis using True by (simp add: map_add_def split: option.splits)
  next
    case False
    then have "i \<in> set is" using Cons.prems by simp
    have "(mi_Namespace i, mi_Name i) \<noteq> (mi_Namespace j, mi_Name j)"
      using Cons.prems \<open>i \<in> set is\<close> by (auto simp: image_iff)
    then show ?thesis using Cons \<open>i \<in> set is\<close> by (auto simp: map_add_def split: option.splits)
  qed
qed simp

text \<open>The migration is idempotent and complete: after a run that reports no error every listed ingress that has a first rule with a
  first path to a service is an HTTP route of the same namespace, name, labels, hostname and backend, a second run
  changes no route, and in between nothing but the routes of listed ingresses has changed.
\<close>

theorem ingresses_become_routes:
  assumes "mig_env_ok E routes" "me_list E w = Inr is" "distinct (map (\<lambda>i. (mi_Namespace i, mi_Name i)) is)"
    and "mig_Run (ingressToHTTPRouteMigration E) w = (None, w')"
  shows "(\<forall>i\<in>set is. \<forall>r. ingress_route E i = Some r \<longrightarrow> routes_seen routes w' (mi_Namespace i, mi_Name i) = Some r) \<and>
    (\<forall>k. k \<notin> (\<lambda>i. (mi_Namespace i, mi_Name i)) ` set is \<longrightarrow> routes_seen routes w' k = routes_seen routes w k) \<and>
    (\<forall>w''. mig_Run (ingressToHTTPRouteMigration E) w' = (None, w'') \<longrightarrow> routes_seen routes w'' = routes_seen routes w')"
proof -
  have s: "routes_seen routes w' = routes_seen routes w ++ asked E is" and l: "me_list E w' = Inr is"
    using migration_run_sees[OF assms(1), of w w'] assms(2,4) by (auto simp: ingressToHTTPRouteMigration_def)
  have "routes_seen routes w' (mi_Namespace i, mi_Name i) = Some r" if "i \<in> set is" "ingress_route E i = Some r" for i r
    using s asked_unique[OF assms(3) that(1), of E] that(2) by (simp add: map_add_def)
  moreover have "routes_seen routes w'' = routes_seen routes w'" if "migration_run E w' = (None, w'')" for w''
  proof -
    have "routes_seen routes w'' = routes_seen routes w' ++ asked E is"
      using migration_run_sees[OF assms(1) that] l by auto
    then show ?thesis using s by (simp add: map_add_def fun_eq_iff split: option.splits)
  qed
  ultimately show ?thesis
    using s asked_other[of _ "is" E] by (simp add: ingressToHTTPRouteMigration_def map_add_def)
qed

text \<open>
  The options of a lease are lost by the migration: the annotations it writes are of the family nginx.org, which the
  gateway does not read (cluster/kube/gateway/nginx_gateway.go says so), while the route the hostname operator writes for the
  same directive names a filter. Whenever the directive has an option, the migrated route is a different one.
\<close>

theorem migrated_route_loses_options:
  assumes "BuildRouteExtensions ns name d \<noteq> []" "ingress_route E i = Some r"
  shows "rt_Spec r \<noteq> BuildHTTPRouteSpec (snd (me_gateway E)) (fst (me_gateway E)) host svc port (BuildRouteExtensions ns name d) \<and>
    (\<forall>rule\<in>set (rs_rules (rt_Spec r)). rr_filters rule = [])"
  using assms
  by (auto simp: ingress_route_def buildHTTPRoute_def BuildHTTPRouteSpec_def split: list.splits option.splits)

text \<open>The annotations the hostname operator writes on an ingress survive the conversion value by value, in the new family.\<close>

lemma atoi_itoa: "n < 2 ^ 63 \<Longrightarrow> atoi (itoa n) = Some (int n)"
proof -
  assume n: "n < 2 ^ 63"
  have "list_all is_digit (itoa n)" "itoa n \<noteq> []" using itoa_digits by auto
  then have "\<not> has_prefix (itoa n) ''-''" "\<not> has_prefix (itoa n) ''+''"
    by (cases "itoa n"; auto simp: has_prefix_def is_digit_def)+
  moreover have "int n < 2 ^ 63" using n by (metis of_nat_less_iff of_nat_numeral of_nat_power)
  ultimately show ?thesis by (simp add: atoi_def Let_def)
qed

lemma msToSec_int: "msToSec ms < 2 ^ 63"
proof -
  have "unat ms < 2 ^ 32" using unsigned_less[of ms] by simp
  then show ?thesis by (simp add: msToSec_def)
qed

lemma set_if_apply: "set_if b k v m (nginx_root @ k') = (if b \<and> k = k' then Some v else m (nginx_root @ k'))"
  by (simp add: set_if_def)

lemma itoa_int_nat [simp]: "itoa_int (int n) = itoa n"
  by (simp add: itoa_int_def)

lemma roots: "ingressRoot = nginx_root" "gatewayRoot @ k \<noteq> ingressRoot @ k'"
  by (simp_all add: ingressRoot_def nginx_root_def gatewayRoot_def)

theorem options_carried_over:
  assumes "kubeNginxIngressAnnotations d = Some a"
  shows "convertAnnotations parse_ceil a (gatewayRoot @ ''/proxy-read-timeout'') = Some (itoa (msToSec (d_ReadTimeout d))) \<and>
    convertAnnotations parse_ceil a (gatewayRoot @ ''/proxy-send-timeout'') = Some (itoa (msToSec (d_SendTimeout d))) \<and>
    convertAnnotations parse_ceil a (gatewayRoot @ ''/client-max-body-size'') = Some (u32toa (d_MaxBodySize d)) \<and>
    convertAnnotations parse_ceil a (gatewayRoot @ ''/proxy-next-upstream-tries'') = Some (u32toa (d_NextTries d)) \<and>
    convertAnnotations parse_ceil a (gatewayRoot @ ''/proxy-connect-timeout'') = None \<and>
    convertAnnotations parse_ceil a (gatewayRoot @ ''/proxy-buffering'') = None"
proof -
  have "a (nginx_root @ ''/proxy-read-timeout'') = Some (itoa (msToSec (d_ReadTimeout d)))"
    "a (nginx_root @ ''/proxy-send-timeout'') = Some (itoa (msToSec (d_SendTimeout d)))"
    "a (nginx_root @ ''/proxy-body-size'') = Some (u32toa (d_MaxBodySize d))"
    "a (nginx_root @ ''/proxy-next-upstream-tries'') = Some (u32toa (d_NextTries d))"
    using assms by (auto simp: kubeNginxIngressAnnotations_def Let_def set_if_apply)
  then have v: "getAnnotationInt parse_ceil a (ingressRoot @ ''/proxy-read-timeout'') 60 = int (msToSec (d_ReadTimeout d))"
    "getAnnotationInt parse_ceil a (ingressRoot @ ''/proxy-send-timeout'') 60 = int (msToSec (d_SendTimeout d))"
    "getAnnotationValue a (ingressRoot @ ''/proxy-body-size'') ''1m'' = u32toa (d_MaxBodySize d)"
    "getAnnotationValue a (ingressRoot @ ''/proxy-next-upstream-tries'') ''3'' = u32toa (d_NextTries d)"
    by (simp_all add: getAnnotationInt_def getAnnotationValue_def roots(1) atoi_itoa[OF msToSec_int])
  show ?thesis
    unfolding convertAnnotations_def v Let_def by (simp split: option.split)
qed

theorem options_carried_over_witness:
  "\<exists>a. kubeNginxIngressAnnotations (ex_directive\<lparr>d_ReadTimeout := 1500\<rparr>) = Some a \<and>
     convertAnnotations (\<lambda>_. None) a (gatewayRoot @ ''/proxy-read-timeout'') = Some ''2''"
proof -
  obtain a where a: "kubeNginxIngressAnnotations (ex_directive\<lparr>d_ReadTimeout := 1500\<rparr>) = Some a"
    by (simp add: kubeNginxIngressAnnotations_def ex_directive_def)
  have "itoa (msToSec (d_ReadTimeout (ex_directive\<lparr>d_ReadTimeout := 1500\<rparr>))) = ''2''" by code_simp
  with options_carried_over[OF a, of "\<lambda>_. None"] a show ?thesis by simp
qed

section \<open>A cluster with one ingress\<close>

type_synonym route_list = "((string \<times> string) \<times> mig_route) list"

definition ex_ingress :: mig_ingress where
  "ex_ingress = \<lparr>mi_Namespace = ''ns1'', mi_Name = ''app.example.com'', mi_Labels = [AkashManagedLabelName \<mapsto> ''true''],
     mi_Annotations = Map.empty, mi_Rules = [\<lparr>mr_Host = ''app.example.com'', mr_HTTP = Some [Some (''web'', 80)]\<rparr>]\<rparr>"

definition put_route :: "string \<Rightarrow> mig_route \<Rightarrow> route_list \<Rightarrow> kube_error option \<times> route_list" where
  "put_route ns r w = (None, ((ns, rt_Name r), r\<lparr>rt_Version := ''1''\<rparr>) # w)"

definition ex_mig_env :: "route_list mig_env" where
  "ex_mig_env = \<lparr>me_setup = None, me_gateway = (''akash-gateway'', ''akash-gateway''), me_list = (\<lambda>_. Inr [ex_ingress]),
     me_get = (\<lambda>ns n w. case map_of w (ns, n) of None \<Rightarrow> Inl (KNotFound n) | Some r \<Rightarrow> Inr r),
     me_update = put_route, me_create = put_route, me_ceil = (\<lambda>_. None)\<rparr>"

lemma ex_mig_env_ok: "mig_env_ok ex_mig_env map_of"
  by (auto simp: mig_env_ok_def route_writes_def ex_mig_env_def put_route_def)

theorem ingresses_become_routes_witness:
  "routes_seen map_of (snd (migration_run ex_mig_env [])) (''ns1'', ''app.example.com'') = ingress_route ex_mig_env ex_ingress"
proof -
  have l: "me_list ex_mig_env [] = Inr [ex_ingress]" by (simp add: ex_mig_env_def)
  obtain r where r: "ingress_route ex_mig_env ex_ingress = Some r" by (simp add: ingress_route_def ex_ingress_def)
  have run: "mig_Run (ingressToHTTPRouteMigration ex_mig_env) [] = (None, snd (migration_run ex_mig_env []))"
    using r by (simp add: ingressToHTTPRouteMigration_def migration_run_def ex_mig_env_def migrateIngress_def put_route_def)
  from ingresses_become_routes[OF ex_mig_env_ok l _ run] r show ?thesis by (simp add: ex_ingress_def)
qed

theorem migrated_route_loses_options_witness:
  "\<exists>r. ingress_route ex_mig_env ex_ingress = Some r \<and> (\<forall>rule\<in>set (rs_rules (rt_Spec r)). rr_filters rule = [])"
proof -
  obtain r where r: "ingress_route ex_mig_env ex_ingress = Some r" by (simp add: ingress_route_def ex_ingress_def)
  have "proxyBufferLines ex_directive \<noteq> []" by (simp add: proxyBufferLines_def ex_directive_def)
  then have "snippet_lines ex_directive \<noteq> []" by (simp add: snippet_lines_def)
  then have "BuildRouteExtensions ''ns1'' ''app.example.com'' ex_directive \<noteq> []"
    by (simp add: BuildRouteExtensions_def httpOptionsSnippet_def Let_def)
  from migrated_route_loses_options[OF this r] r show ?thesis by blast
qed

end
