(* ===== verification/GatewayAuth.thy ===== *)
theory GatewayAuth
  imports LeaseBook NginxRoute
begin

text \<open>
  Who may call what on the HTTPS gateway: the authentication of a request (gateway/utils/utils.go), the middlewares
  (gateway/rest/auth.go, middleware.go), the routes and the middlewares each of them is behind
  (gateway/rest/router.go, \<open>newRouter\<close>), the gRPC interceptor (gateway/grpc/server.go) and the mapping of errors to
  status codes (utils/httperror, gateway/rest/cluster_errors.go). The JWT library and the permission checks of its claims, the
  address format and the parsing of lease paths are the packages pkg.akt.dev and golang-jwt: parameters. Matching a URL
  to a route and upgrading to a websocket belong to gorilla: a request arrives here with its route and its path variables.
\<close>

section \<open>HTTP errors\<close>

record http_error =
  he_Err :: string
  he_StatusCode :: nat

definition NewHttpError :: "nat \<Rightarrow> string \<Rightarrow> http_error" where
  "NewHttpError statusCode err = \<lparr>he_Err = err, he_StatusCode = statusCode\<rparr>"

definition ErrInvalidAuthHeader :: http_error where "ErrInvalidAuthHeader = NewHttpError 400 ''invalid authorization header''"
definition ErrJWTInvalidClaims :: http_error where "ErrJWTInvalidClaims = NewHttpError 400 ''JWT has invalid claims''"
definition ErrAuthAmbiguous :: http_error where
  "ErrAuthAmbiguous = NewHttpError 400 ''auth: ambiguous authentication. may not use mTLS and JWT at the same time''"
definition ErrUnauthorized :: http_error where "ErrUnauthorized = NewHttpError 401 ''unauthorized access''"
definition ErrJWTInvalid :: http_error where "ErrJWTInvalid = NewHttpError 401 ''JWT is invalid''"
definition ErrJWTExpired :: http_error where "ErrJWTExpired = NewHttpError 401 ''JWT is expired''"

text \<open>A Go error is one that carries a status code somewhere in its chain, or one that does not.\<close>

datatype gw_error = GwHttp http_error | GwOther string

fun StatusCodeFrom :: "gw_error option \<Rightarrow> nat" where
  "StatusCodeFrom None = 200"
| "StatusCodeFrom (Some (GwHttp e)) = he_StatusCode e"
| "StatusCodeFrom (Some (GwOther _)) = 500"

fun authErrorResponse :: "gw_error \<Rightarrow> http_error" where
  "authErrorResponse (GwHttp e) = e"
| "authErrorResponse (GwOther _) = NewHttpError 500 ''unknown error while processing JWT''"

section \<open>Claims and the JWT library\<close>

datatype access_type = AccessTypeNone | AccessTypeFull | AccessTypeScoped | AccessTypeGranular

datatype permission_scope =
    PermissionScopeSendManifest | PermissionScopeGetManifest | PermissionScopeStatus | PermissionScopeEvents
  | PermissionScopeLogs | PermissionScopeShell | PermissionScopeAttestation

text \<open>The claims the provider sets or reads; \<open>cl_Rest\<close> is the rest of a parsed token.\<close>

record 'x claims =
  cl_Issuer :: string
  cl_Version :: string
  cl_IssuedAt :: "int option"
  cl_NotBefore :: "int option"
  cl_ExpiresAt :: "int option"
  cl_Access :: access_type
  cl_Rest :: 'x

record deployment_id =
  di_Owner :: string
  di_DSeq :: u64

text \<open>What \<open>errors.Is\<close> finds in a JWT error; an error may match several of them.\<close>

datatype jwt_kind = TokenInvalidClaims | TokenExpired | TokenNotValidYet | TokenUsedBeforeIssued | TokenOther

text \<open>
  \<open>jl_parse keyfunc token\<close> is \<open>jwt.ParseWithClaims\<close>: the claims and whether the token is valid, or the kinds of its
  error. \<open>jl_key\<close> looks up the public key of an account (\<open>None\<close>: there is none).
\<close>

record ('x, 'k) jwt_lib =
  jl_AccAddress :: "string \<Rightarrow> string option"
  jl_Validate :: "'x claims \<Rightarrow> string option"
  jl_key :: "string \<Rightarrow> string + 'k option"
  jl_parse :: "(string \<Rightarrow> gw_error + 'k \<times> string) \<Rightarrow> string \<Rightarrow> jwt_kind set + 'x claims \<times> bool"
  jl_empty :: 'x
  jl_IssuerAddress :: "'x claims \<Rightarrow> string"
  jl_AuthorizeForProvider :: "'x claims \<Rightarrow> string \<Rightarrow> bool"
  jl_AuthorizeForDeploymentID :: "'x claims \<Rightarrow> deployment_id \<Rightarrow> string \<Rightarrow> bool"
  jl_AuthorizeDeploymentIDForPermissionScope :: "'x claims \<Rightarrow> deployment_id \<Rightarrow> string \<Rightarrow> permission_scope \<Rightarrow> bool"
  jl_AuthorizeForLeaseID :: "'x claims \<Rightarrow> lease_id \<Rightarrow> bool"
  jl_AuthorizeLeaseIDForPermissionScope :: "'x claims \<Rightarrow> lease_id \<Rightarrow> permission_scope \<Rightarrow> bool"
  jl_ParseDeploymentPath :: "string list \<Rightarrow> string + deployment_id"
  jl_ParseLeasePath :: "string list \<Rightarrow> string + lease_id"

section \<open>Authentication\<close>

definition empty_claims :: "('x, 'k) jwt_lib \<Rightarrow> 'x claims" where
  "empty_claims J = \<lparr>cl_Issuer = [], cl_Version = [], cl_IssuedAt = None, cl_NotBefore = None, cl_ExpiresAt = None,
     cl_Access = AccessTypeNone, cl_Rest = jl_empty J\<rparr>"

text \<open>The claims of a caller that is known without a token, valid for fifteen minutes.\<close>

definition full_claims :: "('x, 'k) jwt_lib \<Rightarrow> int \<Rightarrow> string \<Rightarrow> 'x claims" where
  "full_claims J now issuer = (empty_claims J)\<lparr>cl_Issuer := issuer, cl_Version := ''v1'', cl_IssuedAt := Some now,
     cl_NotBefore := Some now, cl_ExpiresAt := Some (now + 900), cl_Access := AccessTypeFull\<rparr>"

text \<open>The errors of a token: \<open>ParseWithClaims\<close> answers \<open>Inr\<close> with a nil error.\<close>

definition jwtErrorToHTTP :: "jwt_kind set option \<Rightarrow> http_error" where
  "jwtErrorToHTTP err =
     (case err of
        None \<Rightarrow> ErrJWTInvalid
      | Some kinds \<Rightarrow>
          if TokenInvalidClaims \<in> kinds then ErrJWTInvalidClaims
          else if TokenExpired \<in> kinds then ErrJWTExpired
          else ErrJWTInvalid)"

text \<open>The key function handed to the parser: the issuer's key, for an issuer that is an address with an account.\<close>

definition key_of_issuer :: "('x, 'k) jwt_lib \<Rightarrow> string \<Rightarrow> gw_error + 'k \<times> string" where
  "key_of_issuer J issStr =
     (case jl_AccAddress J issStr of
        None \<Rightarrow> Inl (GwOther ''invalid address'')
      | Some iss \<Rightarrow>
          (case jl_key J iss of
             Inl e \<Rightarrow> Inl (GwOther e)
           | Inr None \<Rightarrow> Inl (GwHttp ErrJWTInvalid)
           | Inr (Some pk) \<Rightarrow> Inr (pk, iss)))"

definition certificate_claims :: "('x, 'k) jwt_lib \<Rightarrow> int \<Rightarrow> string list \<Rightarrow> gw_error + 'x claims" where
  "certificate_claims J now peerCerts =
     (case peerCerts of
        [commonName] \<Rightarrow>
          (case jl_AccAddress J commonName of
             None \<Rightarrow> Inl (GwOther ''invalid address'')
           | Some owner \<Rightarrow>
               let claims = full_claims J now owner in
               case jl_Validate J claims of Some e \<Rightarrow> Inl (GwOther e) | None \<Rightarrow> Inr claims)
      | _ \<Rightarrow> Inr (empty_claims J))"

text \<open>
  \<open>accept\<close> is the check of the sealed-lease bearer (gateway/pir). A peer certificate, checked during the handshake, is its
  common name.
\<close>

definition AuthProcess :: "('x, 'k) jwt_lib \<Rightarrow> (string \<Rightarrow> bool) \<Rightarrow> int \<Rightarrow> string list \<Rightarrow> string \<Rightarrow> gw_error + 'x claims" where
  "AuthProcess J accept now peerCerts token =
     (case certificate_claims J now peerCerts of
        Inl e \<Rightarrow> Inl e
      | Inr claims \<Rightarrow>
          if cl_Access claims \<noteq> AccessTypeNone \<and> token \<noteq> [] then Inl (GwHttp ErrAuthAmbiguous)
          else if token \<noteq> [] \<and> accept token
          then (let claims = full_claims J now ''pir-derived-access'' in
                case jl_Validate J claims of Some e \<Rightarrow> Inl (GwOther e) | None \<Rightarrow> Inr claims)
          else if token \<noteq> []
          then (case jl_parse J (key_of_issuer J) token of
                  Inl kinds \<Rightarrow> Inl (GwHttp (jwtErrorToHTTP (Some kinds)))
                | Inr (claims, valid) \<Rightarrow> if valid then Inr claims else Inl (GwHttp (jwtErrorToHTTP None)))
          else Inr claims)"

definition AuthHeaderTokenExtractor :: "string \<Rightarrow> gw_error + string" where
  "AuthHeaderTokenExtractor authHeader =
     (if authHeader = [] then Inr []
      else case fields_func is_space authHeader of
             [scheme, token] \<Rightarrow> if to_lower scheme = ''bearer'' then Inr token else Inl (GwHttp ErrInvalidAuthHeader)
           | _ \<Rightarrow> Inl (GwHttp ErrInvalidAuthHeader))"

section \<open>Requests, routes and the request context\<close>

datatype route =
    VersionRoute | AddressRoute | StatusRoute
  | HostnameMigrateRoute | EndpointMigrateRoute
  | PutManifestRoute string
  | QuoteRoute string string string
  | GetManifestRoute string string string
  | LeaseStatusRoute string string string
  | KubeEventsRoute string string string
  | LogsRoute string string string
  | ServiceStatusRoute string string string string
  | ShellRoute string string string

record request =
  rq_Authorization :: string
  rq_PeerCertificates :: "string list"
  rq_Route :: route
  rq_Query :: "string \<Rightarrow> string"

text \<open>The values of the request context; a key that was never set is \<open>None\<close>.\<close>

record 'x req_context =
  cx_provider :: "string option"
  cx_claims :: "'x claims option"
  cx_owner :: "string option"
  cx_deployment :: "deployment_id option"
  cx_lease :: "lease_id option"
  cx_follow :: "bool option"
  cx_tail :: "int option option"
  cx_services :: "string option"
  cx_service :: "string option"

definition no_context :: "'x req_context" where
  "no_context = \<lparr>cx_provider = None, cx_claims = None, cx_owner = None, cx_deployment = None, cx_lease = None,
     cx_follow = None, cx_tail = None, cx_services = None, cx_service = None\<rparr>"

text \<open>A request ends with a response, or with the panic of reading a context key that was never set.\<close>

datatype refusal = Refused nat string | ContextPanic

definition with_key :: "'a option \<Rightarrow> ('a \<Rightarrow> refusal + 'b) \<Rightarrow> refusal + 'b" where
  "with_key v f = (case v of None \<Rightarrow> Inl ContextPanic | Some x \<Rightarrow> f x)"

definition auth_refused :: "gw_error \<Rightarrow> refusal" where
  "auth_refused e = (let ce = authErrorResponse e in Refused (he_StatusCode ce) (he_Err ce))"

section \<open>Middlewares\<close>

datatype middleware =
    SetProvider | PrepareAuth | AuthorizeProvider | RequireOwner | RequireDeploymentID | DeploymentScope permission_scope
  | RequireLeaseID | LeaseScope permission_scope | StreamParams | RequireService

record ('x, 'k) gateway =
  gw_lib :: "('x, 'k) jwt_lib"
  gw_accept :: "string \<Rightarrow> bool"
  gw_addr :: string
  gw_now :: int

fun var_dseq :: "route \<Rightarrow> string" where
  "var_dseq (PutManifestRoute d) = d" | "var_dseq (QuoteRoute d g s) = d" | "var_dseq (GetManifestRoute d g s) = d"
| "var_dseq (LeaseStatusRoute d g s) = d" | "var_dseq (KubeEventsRoute d g s) = d" | "var_dseq (LogsRoute d g s) = d"
| "var_dseq (ServiceStatusRoute d g s n) = d" | "var_dseq (ShellRoute d g s) = d" | "var_dseq _ = []"

fun var_gseq :: "route \<Rightarrow> string" where
  "var_gseq (QuoteRoute d g s) = g" | "var_gseq (GetManifestRoute d g s) = g" | "var_gseq (LeaseStatusRoute d g s) = g"
| "var_gseq (KubeEventsRoute d g s) = g" | "var_gseq (LogsRoute d g s) = g" | "var_gseq (ServiceStatusRoute d g s n) = g"
| "var_gseq (ShellRoute d g s) = g" | "var_gseq _ = []"

fun var_oseq :: "route \<Rightarrow> string" where
  "var_oseq (QuoteRoute d g s) = s" | "var_oseq (GetManifestRoute d g s) = s" | "var_oseq (LeaseStatusRoute d g s) = s"
| "var_oseq (KubeEventsRoute d g s) = s" | "var_oseq (LogsRoute d g s) = s" | "var_oseq (ServiceStatusRoute d g s n) = s"
| "var_oseq (ShellRoute d g s) = s" | "var_oseq _ = []"

fun var_serviceName :: "route \<Rightarrow> string" where
  "var_serviceName (ServiceStatusRoute d g s n) = n" | "var_serviceName _ = []"

definition bad_request :: "string \<Rightarrow> refusal" where
  "bad_request msg = Refused 400 msg"

definition parse_bool :: "string \<Rightarrow> bool option" where
  "parse_bool s =
     (if s \<in> {''1'', ''t'', ''T'', ''true'', ''TRUE'', ''True''} then Some True
      else if s \<in> {''0'', ''f'', ''F'', ''false'', ''FALSE'', ''False''} then Some False else None)"

definition parse_int32 :: "string \<Rightarrow> int option" where
  "parse_int32 s = (case atoi s of Some v \<Rightarrow> if - (2 ^ 31) \<le> v \<and> v < 2 ^ 31 then Some v else None | None \<Rightarrow> None)"

definition parseDeploymentID :: "('x, 'k) gateway \<Rightarrow> request \<Rightarrow> string \<Rightarrow> string + deployment_id" where
  "parseDeploymentID G r owner = jl_ParseDeploymentPath (gw_lib G) [owner, var_dseq (rq_Route r)]"

definition parseLeaseID :: "('x, 'k) gateway \<Rightarrow> request \<Rightarrow> string \<Rightarrow> string \<Rightarrow> string + lease_id" where
  "parseLeaseID G r owner provider =
     jl_ParseLeasePath (gw_lib G) [owner, var_dseq (rq_Route r), var_gseq (rq_Route r), var_oseq (rq_Route r), provider]"

definition prepareAuthMiddleware :: "('x, 'k) gateway \<Rightarrow> request \<Rightarrow> 'x req_context \<Rightarrow> refusal + 'x req_context" where
  "prepareAuthMiddleware G r cx =
     (case AuthHeaderTokenExtractor (rq_Authorization r) of
        Inl e \<Rightarrow> Inl (auth_refused e)
      | Inr tokString \<Rightarrow>
          (case AuthProcess (gw_lib G) (gw_accept G) (gw_now G) (rq_PeerCertificates r) tokString of
             Inl e \<Rightarrow> Inl (auth_refused e)
           | Inr claims \<Rightarrow> Inr (cx\<lparr>cx_claims := Some claims\<rparr>)))"

definition unauthorized :: refusal where
  "unauthorized = auth_refused (GwHttp ErrUnauthorized)"

definition authorizeProviderMiddleware :: "('x, 'k) gateway \<Rightarrow> 'x req_context \<Rightarrow> refusal + 'x req_context" where
  "authorizeProviderMiddleware G cx =
     with_key (cx_provider cx) (\<lambda>provider. with_key (cx_claims cx) (\<lambda>claims.
       if \<not> jl_AuthorizeForProvider (gw_lib G) claims provider then Inl unauthorized else Inr cx))"

definition requireOwner :: "('x, 'k) gateway \<Rightarrow> 'x req_context \<Rightarrow> refusal + 'x req_context" where
  "requireOwner G cx =
     with_key (cx_claims cx) (\<lambda>claims.
       if jl_IssuerAddress (gw_lib G) claims = [] then Inl unauthorized
       else Inr (cx\<lparr>cx_owner := Some (jl_IssuerAddress (gw_lib G) claims)\<rparr>))"

definition requireDeploymentID :: "('x, 'k) gateway \<Rightarrow> request \<Rightarrow> 'x req_context \<Rightarrow> refusal + 'x req_context" where
  "requireDeploymentID G r cx =
     with_key (cx_owner cx) (\<lambda>owner.
       case parseDeploymentID G r owner of
         Inl e \<Rightarrow> Inl (bad_request e)
       | Inr did \<Rightarrow> with_key (cx_claims cx) (\<lambda>claims. with_key (cx_provider cx) (\<lambda>provider.
           if \<not> jl_AuthorizeForDeploymentID (gw_lib G) claims did provider then Inl unauthorized
           else Inr (cx\<lparr>cx_deployment := Some did\<rparr>))))"

definition requireEndpointScopeForDeploymentID ::
  "('x, 'k) gateway \<Rightarrow> permission_scope \<Rightarrow> 'x req_context \<Rightarrow> refusal + 'x req_context" where
  "requireEndpointScopeForDeploymentID G scope cx =
     with_key (cx_claims cx) (\<lambda>claims. with_key (cx_deployment cx) (\<lambda>did. with_key (cx_provider cx) (\<lambda>provider.
       if \<not> jl_AuthorizeDeploymentIDForPermissionScope (gw_lib G) claims did provider scope then Inl unauthorized else Inr cx)))"

definition requireLeaseID :: "('x, 'k) gateway \<Rightarrow> request \<Rightarrow> 'x req_context \<Rightarrow> refusal + 'x req_context" where
  "requireLeaseID G r cx =
     with_key (cx_owner cx) (\<lambda>owner. with_key (cx_provider cx) (\<lambda>provider.
       case parseLeaseID G r owner provider of
         Inl e \<Rightarrow> Inl (bad_request e)
       | Inr lid \<Rightarrow> with_key (cx_claims cx) (\<lambda>claims.
           if \<not> jl_AuthorizeForLeaseID (gw_lib G) claims lid then Inl unauthorized
           else Inr (cx\<lparr>cx_lease := Some lid\<rparr>))))"

definition requireEndpointScopeForLeaseID ::
  "('x, 'k) gateway \<Rightarrow> permission_scope \<Rightarrow> 'x req_context \<Rightarrow> refusal + 'x req_context" where
  "requireEndpointScopeForLeaseID G scope cx =
     with_key (cx_claims cx) (\<lambda>claims. with_key (cx_lease cx) (\<lambda>lid.
       if \<not> jl_AuthorizeLeaseIDForPermissionScope (gw_lib G) claims lid scope then Inl unauthorized else Inr cx))"

definition requestStreamParams :: "request \<Rightarrow> 'x req_context \<Rightarrow> refusal + 'x req_context" where
  "requestStreamParams r cx =
     (let services = rq_Query r ''service'' in
      if has_suffix services '','' then Inl (bad_request ''parameter \"service\" must not contain trailing comma'')
      else case (if rq_Query r ''follow'' = [] then Some False else parse_bool (rq_Query r ''follow'')) of
        None \<Rightarrow> Inl (bad_request ''invalid follow'')
      | Some follow \<Rightarrow>
          (case (if rq_Query r ''tail'' = [] then Some (- 1) else parse_int32 (rq_Query r ''tail'')) of
             None \<Rightarrow> Inl (bad_request ''invalid tail'')
           | Some vl \<Rightarrow>
               if vl < - 1 then Inl (bad_request ''parameter \"tail\" contains invalid value'')
               else Inr (cx\<lparr>cx_follow := Some follow, cx_tail := Some (if vl > - 1 then Some vl else None), cx_services := Some services\<rparr>)))"

definition requireService :: "request \<Rightarrow> 'x req_context \<Rightarrow> refusal + 'x req_context" where
  "requireService r cx =
     (let svc = var_serviceName (rq_Route r) in
      if svc = [] then Inl (bad_request ''empty service name'') else Inr (cx\<lparr>cx_service := Some svc\<rparr>))"

fun apply_middleware :: "('x, 'k) gateway \<Rightarrow> request \<Rightarrow> middleware \<Rightarrow> 'x req_context \<Rightarrow> refusal + 'x req_context" where
  "apply_middleware G r SetProvider cx = Inr (cx\<lparr>cx_provider := Some (gw_addr G)\<rparr>)"
| "apply_middleware G r PrepareAuth cx = prepareAuthMiddleware G r cx"
| "apply_middleware G r AuthorizeProvider cx = authorizeProviderMiddleware G cx"
| "apply_middleware G r RequireOwner cx = requireOwner G cx"
| "apply_middleware G r RequireDeploymentID cx = requireDeploymentID G r cx"
| "apply_middleware G r (DeploymentScope scope) cx = requireEndpointScopeForDeploymentID G scope cx"
| "apply_middleware G r RequireLeaseID cx = requireLeaseID G r cx"
| "apply_middleware G r (LeaseScope scope) cx = requireEndpointScopeForLeaseID G scope cx"
| "apply_middleware G r StreamParams cx = requestStreamParams r cx"
| "apply_middleware G r RequireService cx = requireService r cx"

section \<open>The router\<close>

text \<open>The middlewares around each route of \<open>newRouter\<close>, outermost first.\<close>

definition base_chain :: "middleware list" where
  "base_chain = [SetProvider, PrepareAuth]"

definition authed_chain :: "middleware list" where
  "authed_chain = base_chain @ [AuthorizeProvider, RequireOwner]"

definition lease_chain :: "middleware list" where
  "lease_chain = authed_chain @ [RequireLeaseID]"

fun route_chain :: "route \<Rightarrow> middleware list" where
  "route_chain VersionRoute = base_chain"
| "route_chain AddressRoute = base_chain"
| "route_chain StatusRoute = base_chain"
| "route_chain HostnameMigrateRoute = authed_chain"
| "route_chain EndpointMigrateRoute = authed_chain"
| "route_chain (PutManifestRoute d) = authed_chain @ [RequireDeploymentID, DeploymentScope PermissionScopeSendManifest]"
| "route_chain (QuoteRoute d g s) = lease_chain @ [LeaseScope PermissionScopeAttestation]"
| "route_chain (GetManifestRoute d g s) = lease_chain @ [LeaseScope PermissionScopeGetManifest]"
| "route_chain (LeaseStatusRoute d g s) = lease_chain @ [LeaseScope PermissionScopeStatus]"
| "route_chain (KubeEventsRoute d g s) = lease_chain @ [StreamParams, LeaseScope PermissionScopeEvents]"
| "route_chain (LogsRoute d g s) = lease_chain @ [StreamParams, LeaseScope PermissionScopeLogs]"
| "route_chain (ServiceStatusRoute d g s n) = lease_chain @ [RequireService]"
| "route_chain (ShellRoute d g s) = lease_chain @ [LeaseScope PermissionScopeShell]"

fun run_chain :: "('x, 'k) gateway \<Rightarrow> request \<Rightarrow> middleware list \<Rightarrow> 'x req_context \<Rightarrow> refusal + 'x req_context" where
  "run_chain G r [] cx = Inr cx"
| "run_chain G r (m # ms) cx = (case apply_middleware G r m cx of Inl e \<Rightarrow> Inl e | Inr cx' \<Rightarrow> run_chain G r ms cx')"

text \<open>What a handler is given, or how the request was refused before it.\<close>

definition newRouter :: "('x, 'k) gateway \<Rightarrow> request \<Rightarrow> refusal + 'x req_context" where
  "newRouter G r = run_chain G r (route_chain (rq_Route r)) no_context"

text \<open>The context keys a handler reads.\<close>

definition handler_ready :: "route \<Rightarrow> 'x req_context \<Rightarrow> bool" where
  "handler_ready rt cx =
     (case rt of
        VersionRoute \<Rightarrow> True | AddressRoute \<Rightarrow> True | StatusRoute \<Rightarrow> True
      | HostnameMigrateRoute \<Rightarrow> cx_owner cx \<noteq> None
      | EndpointMigrateRoute \<Rightarrow> cx_owner cx \<noteq> None
      | PutManifestRoute _ \<Rightarrow> cx_deployment cx \<noteq> None
      | KubeEventsRoute _ _ _ \<Rightarrow> cx_lease cx \<noteq> None \<and> cx_follow cx \<noteq> None \<and> cx_services cx \<noteq> None
      | LogsRoute _ _ _ \<Rightarrow> cx_lease cx \<noteq> None \<and> cx_follow cx \<noteq> None \<and> cx_services cx \<noteq> None \<and> cx_tail cx \<noteq> None
      | ServiceStatusRoute _ _ _ _ \<Rightarrow> cx_lease cx \<noteq> None \<and> cx_service cx \<noteq> None
      | _ \<Rightarrow> cx_lease cx \<noteq> None)"

section \<open>The gRPC interceptor\<close>

definition grpc_token :: "string list \<Rightarrow> string" where
  "grpc_token authorization =
     (case authorization of
        [] \<Rightarrow> []
      | tokString # _ \<Rightarrow>
          (case fields_func is_space tokString of
             [scheme, token] \<Rightarrow> if to_lower scheme = ''bearer'' then token else tokString
           | _ \<Rightarrow> tokString))"

definition authInterceptor :: "('x, 'k) gateway \<Rightarrow> string list \<Rightarrow> string list \<Rightarrow> gw_error + 'x claims" where
  "authInterceptor G peerCerts authorization = AuthProcess (gw_lib G) (gw_accept G) (gw_now G) peerCerts (grpc_token authorization)"

datatype grpc_code = GrpcNotFound | GrpcUnavailable | GrpcInvalidArgument | GrpcInternal | GrpcPermissionDenied

definition HTTPToGRPCCode :: "int \<Rightarrow> grpc_code" where
  "HTTPToGRPCCode httpStatus =
     (if httpStatus = 404 then GrpcNotFound
      else if httpStatus = 502 then GrpcUnavailable
      else if 400 \<le> httpStatus \<and> httpStatus < 500 then GrpcInvalidArgument
      else GrpcInternal)"

text \<open>The call for evidence over gRPC: \<open>quote\<close> is the answer of the sidecar, \<open>decode\<close> reads it.\<close>

definition grpc_AttestationQuote ::
  "('x, 'k) gateway \<Rightarrow> 'x claims \<Rightarrow> lease_id \<Rightarrow> (lease_id \<Rightarrow> (string \<times> int) + 'q) \<Rightarrow> ('q \<Rightarrow> 'a option) \<Rightarrow> (grpc_code + 'a)" where
  "grpc_AttestationQuote G claims lid quote decode =
     (if \<not> jl_AuthorizeLeaseIDForPermissionScope (gw_lib G) claims lid PermissionScopeAttestation then Inl GrpcPermissionDenied
      else case quote lid of
        Inl (e, httpStatus) \<Rightarrow> Inl (HTTPToGRPCCode httpStatus)
      | Inr body \<Rightarrow> (case decode body of None \<Rightarrow> Inl GrpcInternal | Some resp \<Rightarrow> Inr resp))"

section \<open>Middlewares typed by the context keys they need and set\<close>

datatype ctx_key = KProvider | KClaims | KOwner | KDeployment | KLease | KStream | KService

fun needs :: "middleware \<Rightarrow> ctx_key set" where
  "needs SetProvider = {}" | "needs PrepareAuth = {}" | "needs AuthorizeProvider = {KProvider, KClaims}"
| "needs RequireOwner = {KClaims}" | "needs RequireDeploymentID = {KOwner, KClaims, KProvider}"
| "needs (DeploymentScope _) = {KClaims, KDeployment, KProvider}" | "needs RequireLeaseID = {KOwner, KProvider, KClaims}"
| "needs (LeaseScope _) = {KClaims, KLease}" | "needs StreamParams = {}" | "needs RequireService = {}"

fun sets :: "middleware \<Rightarrow> ctx_key set" where
  "sets SetProvider = {KProvider}" | "sets PrepareAuth = {KClaims}" | "sets AuthorizeProvider = {}"
| "sets RequireOwner = {KOwner}" | "sets RequireDeploymentID = {KDeployment}" | "sets (DeploymentScope _) = {}"
| "sets RequireLeaseID = {KLease}" | "sets (LeaseScope _) = {}" | "sets StreamParams = {KStream}" | "sets RequireService = {KService}"

fun well_typed :: "ctx_key set \<Rightarrow> middleware list \<Rightarrow> bool" where
  "well_typed ks [] = True"
| "well_typed ks (m # ms) = (needs m \<subseteq> ks \<and> well_typed (ks \<union> sets m) ms)"

fun holds_key :: "'x req_context \<Rightarrow> ctx_key \<Rightarrow> bool" where
  "holds_key cx KProvider = (cx_provider cx \<noteq> None)" | "holds_key cx KClaims = (cx_claims cx \<noteq> None)"
| "holds_key cx KOwner = (cx_owner cx \<noteq> None)" | "holds_key cx KDeployment = (cx_deployment cx \<noteq> None)"
| "holds_key cx KLease = (cx_lease cx \<noteq> None)"
| "holds_key cx KStream = (cx_follow cx \<noteq> None \<and> cx_tail cx \<noteq> None \<and> cx_services cx \<noteq> None)"
| "holds_key cx KService = (cx_service cx \<noteq> None)"

named_theorems passes "when a middleware lets a request through, and with which context"

lemma with_key_iff [passes]: "with_key v f = Inr y \<longleftrightarrow> (\<exists>x. v = Some x \<and> f x = Inr y)"
  by (simp add: with_key_def split: option.split)

lemma with_key_panic [passes]: "with_key v f = Inl ContextPanic \<longleftrightarrow> v = None \<or> (\<exists>x. v = Some x \<and> f x = Inl ContextPanic)"
  by (simp add: with_key_def split: option.split)

lemma sum_case_iff [passes]:
  "(case s of Inl e \<Rightarrow> Inl (f e) | Inr x \<Rightarrow> g x) = Inr y \<longleftrightarrow> (\<exists>x. s = Inr x \<and> g x = Inr y)"
  "(case s of Inl e \<Rightarrow> Inl (f e) | Inr x \<Rightarrow> g x) = Inl z \<longleftrightarrow> (\<exists>e. s = Inl e \<and> z = f e) \<or> (\<exists>x. s = Inr x \<and> g x = Inl z)"
  by (auto split: sum.split)

lemma option_case_iff [passes]:
  "(case v of None \<Rightarrow> Inl e | Some x \<Rightarrow> g x) = Inr y \<longleftrightarrow> (\<exists>x. v = Some x \<and> g x = Inr y)"
  "(case v of None \<Rightarrow> Inl e | Some x \<Rightarrow> g x) = Inl z \<longleftrightarrow> v = None \<and> z = e \<or> (\<exists>x. v = Some x \<and> g x = Inl z)"
  by (auto split: option.split)

lemma guard_iff [passes]:
  "(if b then Inl e else t) = Inr y \<longleftrightarrow> \<not> b \<and> t = Inr y"
  "(if b then Inl e else t) = Inl z \<longleftrightarrow> b \<and> z = e \<or> \<not> b \<and> t = Inl z"
  by auto

lemma not_panic [simp]: "ContextPanic \<noteq> auth_refused e" "ContextPanic \<noteq> unauthorized" "ContextPanic \<noteq> bad_request m" "auth_refused e \<noteq> ContextPanic" "unauthorized \<noteq> ContextPanic" "bad_request m \<noteq> ContextPanic"
  by (simp_all add: auth_refused_def unauthorized_def bad_request_def Let_def)

lemmas middleware_defs = prepareAuthMiddleware_def authorizeProviderMiddleware_def requireOwner_def requireDeploymentID_def
  requireEndpointScopeForDeploymentID_def requireLeaseID_def requireEndpointScopeForLeaseID_def requestStreamParams_def requireService_def

lemma middleware_no_panic:
  "(\<forall>k\<in>needs m. holds_key cx k) \<Longrightarrow> apply_middleware G r m cx \<noteq> Inl ContextPanic"
  by (cases m) (auto simp: middleware_defs passes Let_def)

lemma middleware_sets:
  "apply_middleware G r m cx = Inr cx' \<Longrightarrow> k \<in> sets m \<or> holds_key cx k \<Longrightarrow> holds_key cx' k"
  by (cases m; cases k) (auto simp: middleware_defs passes Let_def)

lemma well_typed_run:
  assumes "well_typed ks ms" "\<forall>k\<in>ks. holds_key cx k"
  shows "run_chain G r ms cx \<noteq> Inl ContextPanic \<and>
    (\<forall>cx'. run_chain G r ms cx = Inr cx' \<longrightarrow> (\<forall>k \<in> ks \<union> \<Union> (sets ` set ms). holds_key cx' k))"
  using assms
proof (induction ms arbitrary: ks cx)
  case (Cons m ms)
  have np: "apply_middleware G r m cx \<noteq> Inl ContextPanic" using Cons.prems middleware_no_panic[of m cx G r] by auto
  show ?case
  proof (cases "apply_middleware G r m cx")
    case (Inl e)
    then show ?thesis using np by auto
  next
    case (Inr cx1)
    have "\<forall>k\<in>ks \<union> sets m. holds_key cx1 k" using middleware_sets[OF Inr] Cons.prems(2) by blast
    with Cons.IH[of "ks \<union> sets m" cx1] Cons.prems(1) show ?thesis using Inr by (simp add: Un_assoc)
  qed
qed simp

lemma routes_well_typed: "well_typed {} (route_chain rt)"
  by (cases rt) (simp_all add: base_chain_def authed_chain_def lease_chain_def)

lemma routes_set_keys: "(\<forall>k \<in> \<Union> (sets ` set (route_chain rt)). holds_key cx k) \<Longrightarrow> handler_ready rt cx"
  by (cases rt) (simp_all add: base_chain_def authed_chain_def lease_chain_def handler_ready_def)

lemma router_context_ready: "newRouter G r \<noteq> Inl ContextPanic" "newRouter G r = Inr cx \<Longrightarrow> handler_ready (rq_Route r) cx"
  using well_typed_run[OF routes_well_typed[of "rq_Route r"], of no_context G r] routes_set_keys[of "rq_Route r"]
  unfolding newRouter_def by auto

text \<open>C21: The router is well typed: a middleware or handler reads a value out of the request context with an unchecked type
  assertion, which panics when the value is missing, and on no route of \<open>newRouter\<close> does that happen: every middleware
  finds the values it needs, and every handler is called with all the values it reads.
\<close>

theorem router_context_complete:
  "case newRouter G r of Inl e \<Rightarrow> e \<noteq> ContextPanic | Inr cx \<Rightarrow> handler_ready (rq_Route r) cx"
  using router_context_ready[of G r] by (auto split: sum.split)

section \<open>Who reaches a handler\<close>

text \<open>
  The documented behaviour of the libraries the checks rely on: claims without an issuer have no issuer address, and a
  parsed path keeps the owner and the provider it was given.
\<close>

definition jwt_lib_ok :: "('x, 'k) jwt_lib \<Rightarrow> bool" where
  "jwt_lib_ok J \<longleftrightarrow> (\<forall>c. cl_Issuer c = [] \<longrightarrow> jl_IssuerAddress J c = []) \<and>
     (\<forall>owner d g s provider lid. jl_ParseLeasePath J [owner, d, g, s, provider] = Inr lid \<longrightarrow> l_owner lid = owner \<and> l_provider lid = provider) \<and>
     (\<forall>owner d did. jl_ParseDeploymentPath J [owner, d] = Inr did \<longrightarrow> di_Owner did = owner)"

text \<open>The ways in which a caller is known: by its one certificate, by a sealed-lease bearer, by a valid token.\<close>

definition known_by :: "('x, 'k) gateway \<Rightarrow> string list \<Rightarrow> string \<Rightarrow> 'x claims \<Rightarrow> bool" where
  "known_by G certs token claims \<longleftrightarrow>
     (\<exists>commonName owner. certs = [commonName] \<and> token = [] \<and> jl_AccAddress (gw_lib G) commonName = Some owner \<and>
        claims = full_claims (gw_lib G) (gw_now G) owner) \<or>
     (length certs \<noteq> 1 \<and> token \<noteq> [] \<and> gw_accept G token \<and> claims = full_claims (gw_lib G) (gw_now G) ''pir-derived-access'') \<or>
     (length certs \<noteq> 1 \<and> token \<noteq> [] \<and> \<not> gw_accept G token \<and> jl_parse (gw_lib G) (key_of_issuer (gw_lib G)) token = Inr (claims, True))"

lemma full_claims_simps [simp]:
  "cl_Access (full_claims J now i) = AccessTypeFull" "cl_Issuer (full_claims J now i) = i"
  "cl_Access (empty_claims J) = AccessTypeNone" "cl_Issuer (empty_claims J) = []"
  by (simp_all add: full_claims_def empty_claims_def)

lemma certificate_claims_cases:
  "certificate_claims J now certs = Inr c \<Longrightarrow>
     (\<exists>cn owner. certs = [cn] \<and> jl_AccAddress J cn = Some owner \<and> c = full_claims J now owner) \<or> (length certs \<noteq> 1 \<and> c = empty_claims J)"
  by (cases certs rule: list.exhaust; cases "tl certs")
    (auto simp: certificate_claims_def Let_def split: option.splits)

lemma AuthProcess_known:
  assumes "AuthProcess (gw_lib G) (gw_accept G) (gw_now G) certs token = Inr claims"
  shows "known_by G certs token claims \<or> (length certs \<noteq> 1 \<and> token = [] \<and> claims = empty_claims (gw_lib G))"
proof -
  from assms obtain c where c: "certificate_claims (gw_lib G) (gw_now G) certs = Inr c"
    by (auto simp: AuthProcess_def split: sum.splits)
  from certificate_claims_cases[OF c] show ?thesis
  proof
    assume "\<exists>cn owner. certs = [cn] \<and> jl_AccAddress (gw_lib G) cn = Some owner \<and> c = full_claims (gw_lib G) (gw_now G) owner"
    then show ?thesis using assms c by (auto simp: AuthProcess_def known_by_def split: if_splits)
  next
    assume "length certs \<noteq> 1 \<and> c = empty_claims (gw_lib G)"
    then show ?thesis using assms c
      by (auto simp: AuthProcess_def known_by_def Let_def split: if_splits option.splits sum.splits)
  qed
qed

definition presented_token :: "request \<Rightarrow> string" where
  "presented_token r = (case AuthHeaderTokenExtractor (rq_Authorization r) of Inr t \<Rightarrow> t | Inl _ \<Rightarrow> [])"

lemma prepareAuth_known:
  assumes "prepareAuthMiddleware G r cx = Inr cx'"
  shows "\<exists>claims. cx' = cx\<lparr>cx_claims := Some claims\<rparr> \<and>
    (known_by G (rq_PeerCertificates r) (presented_token r) claims \<or> claims = empty_claims (gw_lib G))"
proof -
  obtain t claims where "AuthHeaderTokenExtractor (rq_Authorization r) = Inr t" "cx' = cx\<lparr>cx_claims := Some claims\<rparr>"
    and a: "AuthProcess (gw_lib G) (gw_accept G) (gw_now G) (rq_PeerCertificates r) t = Inr claims"
    using assms by (auto simp: prepareAuthMiddleware_def passes)
  then show ?thesis using AuthProcess_known[OF a] by (intro exI[of _ claims]) (auto simp: presented_token_def)
qed

lemma run_chain_append: "run_chain G r (as @ bs) cx = (case run_chain G r as cx of Inl e \<Rightarrow> Inl e | Inr cx' \<Rightarrow> run_chain G r bs cx')"
  by (induction as arbitrary: cx) (simp_all split: sum.split)

lemma run_chain_cong:
  "(\<And>m cx. m \<in> set ms \<Longrightarrow> apply_middleware G r m cx = apply_middleware G r' m cx) \<Longrightarrow> run_chain G r ms cx = run_chain G r' ms cx"
  by (induction ms arbitrary: cx) (simp_all split: sum.split)

lemma authed_chain_known:
  assumes "jwt_lib_ok (gw_lib G)" "run_chain G r authed_chain no_context = Inr cx"
  shows "\<exists>claims. cx = no_context\<lparr>cx_provider := Some (gw_addr G), cx_claims := Some claims, cx_owner := Some (jl_IssuerAddress (gw_lib G) claims)\<rparr> \<and>
    known_by G (rq_PeerCertificates r) (presented_token r) claims \<and> jl_AuthorizeForProvider (gw_lib G) claims (gw_addr G) \<and>
    jl_IssuerAddress (gw_lib G) claims \<noteq> []"
proof -
  obtain cx1 where pa: "prepareAuthMiddleware G r (no_context\<lparr>cx_provider := Some (gw_addr G)\<rparr>) = Inr cx1"
    and rest: "run_chain G r [AuthorizeProvider, RequireOwner] cx1 = Inr cx"
    using assms(2) by (auto simp: authed_chain_def base_chain_def passes)
  obtain claims where claims: "cx1 = no_context\<lparr>cx_provider := Some (gw_addr G), cx_claims := Some claims\<rparr>"
    "known_by G (rq_PeerCertificates r) (presented_token r) claims \<or> claims = empty_claims (gw_lib G)"
    using prepareAuth_known[OF pa] by auto
  have ok: "jl_AuthorizeForProvider (gw_lib G) claims (gw_addr G)" "jl_IssuerAddress (gw_lib G) claims \<noteq> []"
    "cx = cx1\<lparr>cx_owner := Some (jl_IssuerAddress (gw_lib G) claims)\<rparr>"
    using rest claims(1) by (auto simp: authorizeProviderMiddleware_def requireOwner_def passes)
  have "claims \<noteq> empty_claims (gw_lib G)" using ok(2) assms(1) by (auto simp: jwt_lib_ok_def)
  then show ?thesis using claims ok by auto
qed

lemma lease_chain_owner:
  assumes "jwt_lib_ok (gw_lib G)" "run_chain G r lease_chain no_context = Inr cx"
  shows "\<exists>claims lid. cx_claims cx = Some claims \<and> cx_lease cx = Some lid \<and>
    known_by G (rq_PeerCertificates r) (presented_token r) claims \<and> jl_AuthorizeForProvider (gw_lib G) claims (gw_addr G) \<and>
    l_owner lid = jl_IssuerAddress (gw_lib G) claims \<and> l_owner lid \<noteq> [] \<and> l_provider lid = gw_addr G \<and> jl_AuthorizeForLeaseID (gw_lib G) claims lid"
proof -
  obtain cx1 where cx1: "run_chain G r authed_chain no_context = Inr cx1" "requireLeaseID G r cx1 = Inr cx"
    using assms(2) by (auto simp: lease_chain_def run_chain_append passes)
  from authed_chain_known[OF assms(1) cx1(1)] obtain claims where c:
    "cx1 = no_context\<lparr>cx_provider := Some (gw_addr G), cx_claims := Some claims, cx_owner := Some (jl_IssuerAddress (gw_lib G) claims)\<rparr>"
    "known_by G (rq_PeerCertificates r) (presented_token r) claims" "jl_AuthorizeForProvider (gw_lib G) claims (gw_addr G)"
    "jl_IssuerAddress (gw_lib G) claims \<noteq> []" by blast
  obtain lid where lid: "parseLeaseID G r (jl_IssuerAddress (gw_lib G) claims) (gw_addr G) = Inr lid" "jl_AuthorizeForLeaseID (gw_lib G) claims lid"
    "cx = cx1\<lparr>cx_lease := Some lid\<rparr>"
    using cx1(2) c(1) by (auto simp: requireLeaseID_def passes)
  have "l_owner lid = jl_IssuerAddress (gw_lib G) claims \<and> l_provider lid = gw_addr G"
    using lid(1) assms(1) by (auto simp: parseLeaseID_def jwt_lib_ok_def)
  then show ?thesis using c lid by auto
qed

text \<open>What follows the lease on its routes leaves claims and lease alone and checks the scope.\<close>

lemma scope_suffix:
  assumes "run_chain G r ms cx = Inr cx'" "set ms \<subseteq> range LeaseScope \<union> {StreamParams, RequireService}"
  shows "cx_claims cx' = cx_claims cx \<and> cx_lease cx' = cx_lease cx \<and>
    (\<forall>scope claims lid. LeaseScope scope \<in> set ms \<longrightarrow> cx_claims cx = Some claims \<longrightarrow> cx_lease cx = Some lid \<longrightarrow>
       jl_AuthorizeLeaseIDForPermissionScope (gw_lib G) claims lid scope)"
  using assms
proof (induction ms arbitrary: cx)
  case (Cons m ms)
  then obtain cx1 where cx1: "apply_middleware G r m cx = Inr cx1" "run_chain G r ms cx1 = Inr cx'" by (auto simp: passes)
  have "cx_claims cx1 = cx_claims cx \<and> cx_lease cx1 = cx_lease cx \<and> (\<forall>scope claims lid. m = LeaseScope scope \<longrightarrow> cx_claims cx = Some claims \<longrightarrow>
      cx_lease cx = Some lid \<longrightarrow> jl_AuthorizeLeaseIDForPermissionScope (gw_lib G) claims lid scope)"
    using cx1(1) Cons.prems(2) by (auto simp: middleware_defs passes Let_def)
  then show ?case using Cons.IH[OF cx1(2)] Cons.prems(2) by auto
qed simp

lemma lease_route_chain:
  "RequireLeaseID \<in> set (route_chain rt) \<Longrightarrow> \<exists>ms. route_chain rt = lease_chain @ ms \<and> set ms \<subseteq> range LeaseScope \<union> {StreamParams, RequireService}"
  by (cases rt) (auto simp: base_chain_def authed_chain_def lease_chain_def)

text \<open>C11: A lease handler serves nobody but the tenant of the lease, or whom the tenant's token allows. When a request reaches the
  handler of a lease route, its caller is known by a certificate, a sealed-lease bearer or a valid token, the lease
  is one whose owner is the issuer of those credentials and whose provider is this one, the claims are authorised for
  the provider and the lease, and for every scope the route asks for.
\<close>

theorem lease_handler_authorised:
  assumes "jwt_lib_ok (gw_lib G)" "newRouter G r = Inr cx" "RequireLeaseID \<in> set (route_chain (rq_Route r))"
  shows "\<exists>claims lid. cx_claims cx = Some claims \<and> cx_lease cx = Some lid \<and>
    known_by G (rq_PeerCertificates r) (presented_token r) claims \<and>
    l_owner lid = jl_IssuerAddress (gw_lib G) claims \<and> l_owner lid \<noteq> [] \<and> l_provider lid = gw_addr G \<and>
    jl_AuthorizeForProvider (gw_lib G) claims (gw_addr G) \<and> jl_AuthorizeForLeaseID (gw_lib G) claims lid \<and>
    (\<forall>scope. LeaseScope scope \<in> set (route_chain (rq_Route r)) \<longrightarrow> jl_AuthorizeLeaseIDForPermissionScope (gw_lib G) claims lid scope)"
proof -
  obtain ms where ms: "route_chain (rq_Route r) = lease_chain @ ms" "set ms \<subseteq> range LeaseScope \<union> {StreamParams, RequireService}"
    using lease_route_chain[OF assms(3)] by blast
  obtain cx1 where cx1: "run_chain G r lease_chain no_context = Inr cx1" "run_chain G r ms cx1 = Inr cx"
    using assms(2) ms(1) by (auto simp: newRouter_def run_chain_append passes)
  have "LeaseScope scope \<in> set ms" if "LeaseScope scope \<in> set (route_chain (rq_Route r))" for scope
    using that ms(1) by (auto simp: lease_chain_def authed_chain_def base_chain_def)
  then show ?thesis using lease_chain_owner[OF assms(1) cx1(1)] scope_suffix[OF cx1(2) ms(2)] by fastforce
qed

text \<open>
  A request with neither a usable certificate nor a token reaches no handler but those of the three public routes: it is
  refused, and never with a panic.
\<close>

theorem anonymous_is_refused:
  assumes "jwt_lib_ok (gw_lib G)" "length (rq_PeerCertificates r) \<noteq> 1" "rq_Authorization r = []"
    and "rq_Route r \<notin> {VersionRoute, AddressRoute, StatusRoute}"
  shows "\<exists>status msg. newRouter G r = Inl (Refused status msg)"
proof -
  have "\<not> known_by G (rq_PeerCertificates r) (presented_token r) claims" for claims
    using assms(2,3) by (auto simp: known_by_def presented_token_def AuthHeaderTokenExtractor_def)
  then have "run_chain G r authed_chain no_context \<noteq> Inr cx" for cx using authed_chain_known[OF assms(1), of r cx] by blast
  moreover obtain ms where "route_chain (rq_Route r) = authed_chain @ ms"
    using assms(4) by (cases "rq_Route r") (auto simp: lease_chain_def)
  ultimately have "newRouter G r \<noteq> Inr cx" for cx by (auto simp: newRouter_def run_chain_append passes)
  moreover have "newRouter G r \<noteq> Inl ContextPanic" using router_context_ready(1) by blast
  ultimately show ?thesis by (metis refusal.exhaust sum.exhaust)
qed

text \<open>
  The status of one service is not behind a scope: a token that the tenant restricted to other scopes, refused on the
  status of the lease, is served on the status of every service of the lease.
\<close>

theorem service_status_needs_no_scope:
  assumes "run_chain G r lease_chain no_context = Inr cx" "cx_claims cx = Some claims" "cx_lease cx = Some lid"
    and "\<not> jl_AuthorizeLeaseIDForPermissionScope (gw_lib G) claims lid PermissionScopeStatus"
    and "rq_Route r = ServiceStatusRoute d g s n" "n \<noteq> []"
  shows "newRouter G r = Inr (cx\<lparr>cx_service := Some n\<rparr>) \<and>
    newRouter G (r\<lparr>rq_Route := LeaseStatusRoute d g s\<rparr>) = Inl unauthorized"
proof -
  let ?r = "r\<lparr>rq_Route := LeaseStatusRoute d g s\<rparr>"
  have "apply_middleware G r m cx = apply_middleware G ?r m cx" if "m \<in> set lease_chain" for m cx
    using that assms(5)
    by (auto simp: lease_chain_def authed_chain_def base_chain_def prepareAuthMiddleware_def requireLeaseID_def parseLeaseID_def
        split: sum.split)
  then have same: "run_chain G ?r lease_chain no_context = Inr cx" using run_chain_cong[of lease_chain G r ?r] assms(1) by metis
  show ?thesis using assms same
    by (simp add: newRouter_def run_chain_append requireService_def requireEndpointScopeForLeaseID_def with_key_def)
qed

text \<open>
  A token that is expired is answered with \<open>JWT has invalid claims\<close> and status 400 whenever the library reports the
  expiry as one of the failed claims, as golang-jwt does: the case for expired tokens stands behind the one for claims.
\<close>

theorem expired_token_is_a_bad_request:
  assumes "TokenInvalidClaims \<in> kinds"
  shows "jwtErrorToHTTP (Some (insert TokenExpired kinds)) = ErrJWTInvalidClaims \<and> he_StatusCode ErrJWTInvalidClaims \<noteq> he_StatusCode ErrJWTExpired"
  using assms by (simp add: jwtErrorToHTTP_def ErrJWTInvalidClaims_def ErrJWTExpired_def NewHttpError_def)

text \<open>The parameters of a stream that are passed on are in range.\<close>

lemma stream_params_bounds:
  "requestStreamParams r cx = Inr cx' \<Longrightarrow> cx_tail cx' = Some (Some n) \<Longrightarrow> 0 \<le> n \<and> n < 2 ^ 31"
  by (auto simp: requestStreamParams_def Let_def passes parse_int32_def split: if_splits option.splits)

section \<open>A gateway with two tenants\<close>

text \<open>Tokens are \<open>issuer\<close> for full access or \<open>issuer:logs\<close> for the logs alone.\<close>

definition ex_lib :: "(bool, unit) jwt_lib" where
  "ex_lib = \<lparr>jl_AccAddress = (\<lambda>s. if has_prefix s ''akash'' then Some s else None), jl_Validate = (\<lambda>_. None), jl_key = (\<lambda>_. Inr (Some ())),
     jl_parse = (\<lambda>k t. case split_on (CHR '':'') t of
         [iss] \<Rightarrow> Inr (\<lparr>cl_Issuer = iss, cl_Version = ''v1'', cl_IssuedAt = None, cl_NotBefore = None, cl_ExpiresAt = None, cl_Access = AccessTypeFull, cl_Rest = True\<rparr>, True)
       | [iss, _] \<Rightarrow> Inr (\<lparr>cl_Issuer = iss, cl_Version = ''v1'', cl_IssuedAt = None, cl_NotBefore = None, cl_ExpiresAt = None, cl_Access = AccessTypeScoped, cl_Rest = False\<rparr>, True)
       | _ \<Rightarrow> Inl {TokenOther}),
     jl_empty = True, jl_IssuerAddress = cl_Issuer, jl_AuthorizeForProvider = (\<lambda>c p. True), jl_AuthorizeForDeploymentID = (\<lambda>c d p. True),
     jl_AuthorizeDeploymentIDForPermissionScope = (\<lambda>c d p s. cl_Rest c), jl_AuthorizeForLeaseID = (\<lambda>c l. True),
     jl_AuthorizeLeaseIDForPermissionScope = (\<lambda>c l s. cl_Rest c \<or> s = PermissionScopeLogs),
     jl_ParseDeploymentPath = (\<lambda>ps. case ps of [owner, _] \<Rightarrow> Inr \<lparr>di_Owner = owner, di_DSeq = 1\<rparr> | _ \<Rightarrow> Inl ''bad path''),
     jl_ParseLeasePath = (\<lambda>ps. case ps of [owner, _, _, _, p] \<Rightarrow> Inr \<lparr>l_owner = owner, l_dseq = 1, l_gseq = 1, l_oseq = 1, l_provider = p\<rparr> | _ \<Rightarrow> Inl ''bad path'')\<rparr>"

definition ex_gw :: "(bool, unit) GatewayAuth.gateway" where
  "ex_gw = \<lparr>gw_lib = ex_lib, gw_accept = (\<lambda>_. False), gw_addr = ''akash1provider'', gw_now = 0\<rparr>"

definition ex_request :: "string \<Rightarrow> route \<Rightarrow> request" where
  "ex_request auth rt = \<lparr>rq_Authorization = auth, rq_PeerCertificates = [], rq_Route = rt, rq_Query = (\<lambda>_. [])\<rparr>"

lemma ex_lib_ok: "jwt_lib_ok (gw_lib ex_gw)"
  by (auto simp: jwt_lib_ok_def ex_gw_def ex_lib_def)

definition ex_reach :: "string \<Rightarrow> route \<Rightarrow> refusal + lease_id option" where
  "ex_reach auth rt = map_sum id cx_lease (newRouter ex_gw (ex_request auth rt))"

lemma ex_reached:
  "ex_reach ''Bearer akash1tenant'' (LeaseStatusRoute ''1'' ''1'' ''1'')
     = Inr (Some \<lparr>l_owner = ''akash1tenant'', l_dseq = 1, l_gseq = 1, l_oseq = 1, l_provider = ''akash1provider''\<rparr>)"
  by code_simp

theorem lease_handler_authorised_witness:
  "\<exists>cx claims lid. newRouter ex_gw (ex_request ''Bearer akash1tenant'' (LeaseStatusRoute ''1'' ''1'' ''1'')) = Inr cx \<and>
     cx_claims cx = Some claims \<and> cx_lease cx = Some lid \<and> l_owner lid = jl_IssuerAddress ex_lib claims"
proof -
  let ?r = "ex_request ''Bearer akash1tenant'' (LeaseStatusRoute ''1'' ''1'' ''1'')"
  obtain cx where cx: "newRouter ex_gw ?r = Inr cx"
    using ex_reached unfolding ex_reach_def by (cases "newRouter ex_gw ?r") simp_all
  have "RequireLeaseID \<in> set (route_chain (rq_Route ?r))" by (simp add: ex_request_def lease_chain_def)
  from lease_handler_authorised[OF ex_lib_ok cx this] cx show ?thesis by (auto simp: ex_gw_def)
qed

theorem anonymous_is_refused_witness:
  "\<exists>status msg. newRouter ex_gw (ex_request [] (ShellRoute ''1'' ''1'' ''1'')) = Inl (Refused status msg)"
  by (rule anonymous_is_refused[OF ex_lib_ok]) (simp_all add: ex_request_def)

theorem service_status_needs_no_scope_witness:
  "newRouter ex_gw (ex_request ''Bearer akash1tenant:logs'' (LeaseStatusRoute ''1'' ''1'' ''1'')) = Inl unauthorized \<and>
   is_ok (newRouter ex_gw (ex_request ''Bearer akash1tenant:logs'' (ServiceStatusRoute ''1'' ''1'' ''1'' ''web'')))"
proof -
  let ?r = "ex_request ''Bearer akash1tenant:logs'' (ServiceStatusRoute ''1'' ''1'' ''1'' ''web'')"
  have "is_ok (run_chain ex_gw ?r lease_chain no_context)" by code_simp
  then obtain cx where cx: "run_chain ex_gw ?r lease_chain no_context = Inr cx" by (auto simp: is_ok_iff)
  have "(case run_chain ex_gw ?r lease_chain no_context of Inr cx \<Rightarrow> (case (cx_claims cx, cx_lease cx) of
      (Some c, Some l) \<Rightarrow> \<not> jl_AuthorizeLeaseIDForPermissionScope (gw_lib ex_gw) c l PermissionScopeStatus | _ \<Rightarrow> False) | Inl _ \<Rightarrow> False)" by code_simp
  then obtain c l where "cx_claims cx = Some c" "cx_lease cx = Some l"
    "\<not> jl_AuthorizeLeaseIDForPermissionScope (gw_lib ex_gw) c l PermissionScopeStatus"
    using cx by (auto split: option.splits)
  from service_status_needs_no_scope[OF cx this, of "''1''" "''1''" "''1''" "''web''"] show ?thesis by (simp add: ex_request_def)
qed

theorem expired_token_is_a_bad_request_witness: "jwtErrorToHTTP (Some {TokenExpired, TokenInvalidClaims}) = ErrJWTInvalidClaims"
  using expired_token_is_a_bad_request[of "{TokenInvalidClaims}"] by simp

end
