(* ===== verification/GatewayHandlers.thy ===== *)
theory GatewayHandlers
  imports GatewayAuth Declarations ClusterService
begin

text \<open>
  The handlers behind the routes of the gateway (gateway/rest/router.go, router_migrate.go, router_migrate_endpoint.go,
  cluster_errors.go, attestation.go). The clients a handler calls are parameters, their answers values; a handler is what it answers and,
  where it changes state, the state it leaves. Bodies arrive decoded (\<open>None\<close> is a body that is not the expected JSON); writing the answer
  to the connection does not fail.
\<close>

section \<open>Errors of the cluster\<close>

text \<open>What the error mapping asks of an error: the sentinel it wraps, whether Kubernetes says not found, and its text.\<close>

datatype kube_sentinel = ErrNoDeploymentForLease | ErrLeaseNotFound | ErrNoManifestForLease | ErrNoServiceForLease | NoSentinel

record cluster_error =
  cl_sentinel :: kube_sentinel
  cl_kube_not_found :: bool
  cl_refused :: bool
  cl_text :: string

definition IsKubeAPIUnreachable :: "cluster_error \<Rightarrow> bool" where
  "IsKubeAPIUnreachable e = (cl_refused e \<or> contains (cl_text e) ''apiserver not ready'' \<or> trim_space (cl_text e) = ''starting'' \<or>
     contains (cl_text e) ''connection refused'' \<or> contains (cl_text e) ''connection reset'')"

definition clusterErrorToHTTP :: "cluster_error \<Rightarrow> http_error" where
  "clusterErrorToHTTP e =
     (if IsKubeAPIUnreachable e then NewHttpError 503 (cl_text e)
      else if cl_sentinel e \<noteq> NoSentinel \<or> cl_kube_not_found e then NewHttpError 404 (cl_text e)
      else NewHttpError 500 (cl_text e))"

definition websocketLeaseNotFound :: nat where "websocketLeaseNotFound = 4001"
definition websocketServiceUnavailable :: nat where "websocketServiceUnavailable = 4002"
definition websocketInternalServerErrorCode :: nat where "websocketInternalServerErrorCode = 4000"

definition websocketCloseCodeFrom :: "cluster_error \<Rightarrow> nat" where
  "websocketCloseCodeFrom e =
     (let code = he_StatusCode (clusterErrorToHTTP e) in
      if code = 404 then websocketLeaseNotFound else if code = 503 then websocketServiceUnavailable else websocketInternalServerErrorCode)"

datatype 'a answer = Answer nat 'a | Failure nat string

definition writeClusterError :: "cluster_error \<Rightarrow> 'a answer" where
  "writeClusterError e = (let he = clusterErrorToHTTP e in Failure (he_StatusCode he) (he_Err he))"

section \<open>Moving hostnames to another deployment\<close>

record migrateRequestBody =
  HostnamesToMigrate :: "string list"
  DestinationDSeq :: u64
  DestinationGSeq :: u32

definition external_port :: "crd_expose \<Rightarrow> u32" where
  "external_port e = (let port = ucast (ce_ExternalPort e) :: u32 in if port = 0 then ucast (ce_Port e) else port)"

text \<open>The service and port of every hostname of the group; the last expose that names a hostname counts.\<close>

definition host_entries :: "crd_group \<Rightarrow> (string \<times> string \<times> u32) list" where
  "host_entries g = concat (map (\<lambda>s. concat (map (\<lambda>e. map (\<lambda>h. (h, cs_Name s, external_port e)) (ce_Hosts e)) (cs_Expose s))) (cg_Services g))"

definition host_table :: "crd_group \<Rightarrow> (string \<rightharpoonup> string \<times> u32)" where
  "host_table g = foldl (\<lambda>m (h, v). m(h \<mapsto> v)) Map.empty (host_entries g)"

fun transfer_all ::
  "(host_object, 'c) crd_api \<Rightarrow> string \<Rightarrow> lease_id \<Rightarrow> (string \<rightharpoonup> string \<times> u32) \<Rightarrow> string list \<Rightarrow> 'c \<Rightarrow> string option \<times> 'c" where
  "transfer_all A now lid table [] c = (None, c)"
| "transfer_all A now lid table (h # hs) c =
     (let (serviceName, externalPort) = (case table h of Some v \<Rightarrow> v | None \<Rightarrow> ([], 0)) in
      case DeclareHostname A now lid h serviceName externalPort c of
        (Some e, c') \<Rightarrow> (Some (''failed transferring '' @ h @ '': '' @ kube_error_text e), c')
      | (None, c') \<Rightarrow> transfer_all A now lid table hs c')"

definition migrateHandler ::
  "(host_object, 'c) crd_api \<Rightarrow> string \<Rightarrow> (string \<Rightarrow> string option) \<Rightarrow> sel \<Rightarrow> sel \<Rightarrow> (string \<Rightarrow> u64 \<Rightarrow> u32 \<Rightarrow> crd_group find_lease_answer)
    \<Rightarrow> string \<Rightarrow> migrateRequestBody option \<Rightarrow> hostname_service \<times> 'c \<Rightarrow> string list answer \<times> (hostname_service \<times> 'c)" where
  "migrateHandler A now addr s1 s2 findActive owner body w =
     (case body of
        None \<Rightarrow> (Failure 422 [], w)
      | Some b \<Rightarrow>
          if HostnamesToMigrate b = [] then (Failure 400 [], w)
          else case findActive owner (DestinationDSeq b) (DestinationGSeq b) of
            FindNone \<Rightarrow> (Failure 400 ''destination deployment does not exist'', w)
          | FindLease lid mgroup \<Rightarrow>
              (let table = host_table mgroup in
               case find (\<lambda>h. table h = None) (HostnamesToMigrate b) of
                 Some h \<Rightarrow> (Failure 400 (''the hostname '' @ h @ '' is not used by this deployment''), w)
               | None \<Rightarrow>
                   (case PrepareHostnamesForTransfer addr (fst w) (HostnamesToMigrate b) lid s1 s2 of
                      (hs', Inl (ErrHostnameNotAllowed h)) \<Rightarrow> (Failure 400 (''hostname not allowed: '' @ h), (hs', snd w))
                    | (hs', Inl _) \<Rightarrow> (Failure 500 [], (hs', snd w))
                    | (hs', Inr _) \<Rightarrow>
                        (case transfer_all A now lid table (HostnamesToMigrate b) (snd w) of
                           (Some msg, c') \<Rightarrow> (Failure 500 msg, (hs', c'))
                         | (None, c') \<Rightarrow> (Answer 200 (HostnamesToMigrate b), (hs', c')))))
          | _ \<Rightarrow> (Failure 500 [], w))"

section \<open>Moving leased endpoints to another deployment\<close>

record endpointMigrateRequestBody =
  EndpointsToMigrate :: "string list"
  ep_DestinationDSeq :: u64
  ep_DestinationGSeq :: u32

record serviceExposeWithName =
  se_expose :: crd_expose
  se_serviceName :: string
  se_proto :: string

text \<open>
  The loop over the exposes of one service: \<open>seen\<close> is \<open>endpointsInDestination\<close>. The membership test reads the map the
  line before it has written, so that it never skips.
\<close>

fun expose_loop ::
  "(string \<Rightarrow> string option) \<Rightarrow> string \<Rightarrow> crd_expose list \<Rightarrow> string set \<times> serviceExposeWithName list \<Rightarrow> (string set \<times> serviceExposeWithName list) option" where
  "expose_loop parse_proto svc [] acc = Some acc"
| "expose_loop parse_proto svc (e # es) (seen, found) =
     (if \<not> ce_Global e \<or> ce_IP e = [] then expose_loop parse_proto svc es (seen, found)
      else let seen = insert (ce_IP e) seen in
           if ce_IP e \<notin> seen then expose_loop parse_proto svc es (seen, found)
           else case parse_proto (ce_Proto e) of
                  None \<Rightarrow> None
                | Some p \<Rightarrow> expose_loop parse_proto svc es (seen, found @ [\<lparr>se_expose = e, se_serviceName = svc, se_proto = p\<rparr>]))"

fun service_loop ::
  "(string \<Rightarrow> string option) \<Rightarrow> crd_service list \<Rightarrow> string set \<times> serviceExposeWithName list \<Rightarrow> (string set \<times> serviceExposeWithName list) option" where
  "service_loop parse_proto [] acc = Some acc"
| "service_loop parse_proto (s # ss) acc =
     (case expose_loop parse_proto (cs_Name s) (cs_Expose s) acc of None \<Rightarrow> None | Some acc' \<Rightarrow> service_loop parse_proto ss acc')"

definition declare_error_of :: "declare_error \<Rightarrow> cluster_error" where
  "declare_error_of e =
     (case e of
        DeclareKube k \<Rightarrow> \<lparr>cl_sentinel = NoSentinel, cl_kube_not_found = IsNotFound k, cl_refused = False, cl_text = kube_error_text k\<rparr>
      | ErrAlreadyExists \<Rightarrow> \<lparr>cl_sentinel = NoSentinel, cl_kube_not_found = False, cl_refused = False, cl_text = ''kube: resource already exists''\<rparr>)"

fun redeclare_all :: "(leased_ip, 'c) crd_api \<Rightarrow> (bytes \<Rightarrow> bytes) \<Rightarrow> lease_id \<Rightarrow> serviceExposeWithName list \<Rightarrow> 'c \<Rightarrow> declare_error option \<times> 'c" where
  "redeclare_all A sha lid [] c = (None, c)"
| "redeclare_all A sha lid (x # xs) c =
     (let externalPort = DetermineExposedExternalPort (se_expose x);
          sharingKey = MakeIPSharingKey sha lid (ce_IP (se_expose x))
      in case DeclareIP A lid (se_serviceName x) (ucast (ce_Port (se_expose x))) (ucast externalPort) (se_proto x) sharingKey True c of
           (Some e, c') \<Rightarrow> (Some e, c')
         | (None, c') \<Rightarrow> redeclare_all A sha lid xs c')"

definition migrateEndpointHandler ::
  "(leased_ip, 'c) crd_api \<Rightarrow> (bytes \<Rightarrow> bytes) \<Rightarrow> (string \<Rightarrow> string option) \<Rightarrow> (string \<Rightarrow> u64 \<Rightarrow> u32 \<Rightarrow> crd_group find_lease_answer)
    \<Rightarrow> string \<Rightarrow> endpointMigrateRequestBody option \<Rightarrow> 'c \<Rightarrow> string list answer \<times> 'c" where
  "migrateEndpointHandler A sha parse_proto findActive owner body c =
     (case body of
        None \<Rightarrow> (Failure 422 [], c)
      | Some b \<Rightarrow>
          if EndpointsToMigrate b = [] then (Failure 400 [], c)
          else case findActive owner (ep_DestinationDSeq b) (ep_DestinationGSeq b) of
            FindNone \<Rightarrow> (Failure 400 ''destination deployment does not exist'', c)
          | FindLease lid mgroup \<Rightarrow>
              (case service_loop parse_proto (cg_Services mgroup) ({}, []) of
                 None \<Rightarrow> (Failure 500 [], c)
               | Some (endpointsInDestination, servicesToMigrate) \<Rightarrow>
                   (case find (\<lambda>n. n \<notin> endpointsInDestination) (EndpointsToMigrate b) of
                      Some n \<Rightarrow> (Failure 400 (''the endpoint '' @ n @ '' does not exist in the destination deployment''), c)
                    | None \<Rightarrow>
                        (case redeclare_all A sha lid servicesToMigrate c of
                           (Some e, c') \<Rightarrow> (writeClusterError (declare_error_of e), c')
                         | (None, c') \<Rightarrow> (Answer 200 (EndpointsToMigrate b), c'))))
          | _ \<Rightarrow> (Failure 500 [], c))"

section \<open>What moving hostnames does\<close>

lemma foldl_table: "foldl (\<lambda>m (h, v). m(h \<mapsto> v)) m es h = (case map_of (rev es) h of None \<Rightarrow> m h | Some v \<Rightarrow> Some v)"
  by (induction es arbitrary: m rule: rev_induct) (auto split: option.split)

lemma host_table_entries: "host_table g h = Some (svc, port) \<Longrightarrow> (h, svc, port) \<in> set (host_entries g)"
  using map_of_SomeD[of "rev (host_entries g)" h "(svc, port)"] by (auto simp: host_table_def foldl_table split: option.splits)

lemma transfer_all_declares:
  assumes "hosts_api_ok A store" "\<forall>h\<in>set hs. table h \<noteq> None" "transfer_all A now lid table hs c = (None, c')"
  shows "(\<forall>h\<in>set hs. \<exists>x svc port. store c' h = Some x \<and> table h = Some (svc, port) \<and> po_labels x = managed_labels lid \<and> po_spec x = host_spec lid h svc port) \<and>
    (\<forall>h. h \<notin> set hs \<longrightarrow> store c' h = store c h)"
  using assms(2,3)
proof (induction hs arbitrary: c)
  case (Cons h hs)
  obtain svc port where t: "table h = Some (svc, port)" using Cons.prems(1) by auto
  obtain c1 where c1: "DeclareHostname A now lid h svc port c = (None, c1)" "transfer_all A now lid table hs c1 = (None, c')"
    using Cons.prems(2) t by (auto split: prod.splits option.splits)
  obtain x where x: "store c1 = (store c)(h \<mapsto> x)" "po_labels x = managed_labels lid" "po_spec x = host_spec lid h svc port"
    using DeclareHostname_store[OF assms(1) c1(1)] by blast
  note ih = Cons.IH[OF _ c1(2)]
  show ?case using ih Cons.prems(1) x t by (cases "h \<in> set hs") auto
qed simp

lemma migrate_ok_steps:
  assumes "migrateHandler A now addr s1 s2 findActive owner (Some b) (hs, c) = (Answer 200 names, (hs', c'))"
  shows "\<exists>lid g. findActive owner (DestinationDSeq b) (DestinationGSeq b) = FindLease lid g \<and> names = HostnamesToMigrate b \<and>
    (\<forall>h\<in>set names. host_table g h \<noteq> None) \<and> PrepareHostnamesForTransfer addr hs names lid s1 s2 = (hs', Inr ()) \<and>
    transfer_all A now lid (host_table g) names c = (None, c')"
  using assms
  by (auto simp: migrateHandler_def Let_def find_None_iff split: if_splits find_lease_answer.splits option.splits prod.splits sum.splits hostname_error.splits)

lemma prepare_ok_store:
  assumes "PrepareHostnamesForTransfer addr hs names lid s1 s2 = (hs', Inr ())"
  shows "\<exists>hid. hostnameIDFromLeaseID addr lid = Inr hid \<and> prepareHostnamesImpl (inUse hs) names hid = (inUse hs', Inr ())"
  using assms by (auto simp: PrepareHostnamesForTransfer_def Let_def split: sum.splits sel.splits prod.splits if_splits)

text \<open>C20: Moving hostnames to another deployment is safe and complete: a request that is answered with success moves hostnames the destination
  group declares, none of which another tenant holds in the hostname service; it leaves the reservations of all other
  hostnames and of other tenants as they were, gives every hostname that was reserved to the destination deployment, and declares exactly
  the moved hostnames for the destination lease, with a service of the destination group that exposes them.
\<close>

theorem hostnames_migrate_safely:
  assumes "hosts_api_ok A store"
    and "migrateHandler A now addr s1 s2 findActive owner (Some b) (hs, c) = (Answer 200 names, (hs', c'))"
  shows "\<exists>lid g hid. findActive owner (DestinationDSeq b) (DestinationGSeq b) = FindLease lid g \<and> hostnameIDFromLeaseID addr lid = Inr hid \<and>
    names = HostnamesToMigrate b \<and>
    (\<forall>h\<in>set names. \<forall>e. inUse hs h = Some e \<longrightarrow> h_owner e = h_owner hid \<and> inUse hs' h = Some hid) \<and>
    (\<forall>h. h \<notin> set names \<longrightarrow> inUse hs' h = inUse hs h \<and> store c' h = store c h) \<and>
    (\<forall>h\<in>set names. \<exists>x svc port. store c' h = Some x \<and> po_labels x = managed_labels lid \<and> po_spec x = host_spec lid h svc port \<and>
       (h, svc, port) \<in> set (host_entries g))"
proof -
  from migrate_ok_steps[OF assms(2)] obtain lid g where
    g: "findActive owner (DestinationDSeq b) (DestinationGSeq b) = FindLease lid g" "names = HostnamesToMigrate b" "\<forall>h\<in>set names. host_table g h \<noteq> None"
      "PrepareHostnamesForTransfer addr hs names lid s1 s2 = (hs', Inr ())" "transfer_all A now lid (host_table g) names c = (None, c')" by blast
  from prepare_ok_store[OF g(4)] obtain hid where hid: "hostnameIDFromLeaseID addr lid = Inr hid" "prepareHostnamesImpl (inUse hs) names hid = (inUse hs', Inr ())" by blast
  have free: "list_all (free_for (inUse hs) (h_owner hid)) names" using hid(2) prepare_ok_iff[of "inUse hs" names hid] by simp
  have look: "inUse hs' h = (if h \<in> set names \<and> inUse hs h \<noteq> None then Some hid else inUse hs h)" for h
    using prepare_lookup[of "inUse hs" names hid h] hid(2) by simp
  have decl: "(\<forall>h\<in>set names. \<exists>x svc port. store c' h = Some x \<and> po_labels x = managed_labels lid \<and> po_spec x = host_spec lid h svc port \<and>
       (h, svc, port) \<in> set (host_entries g)) \<and> (\<forall>h. h \<notin> set names \<longrightarrow> store c' h = store c h)"
    using transfer_all_declares[OF assms(1) g(3,5)] by (blast intro: host_table_entries)
  have ow: "h_owner e = h_owner hid" if "h \<in> set names" "inUse hs h = Some e" for h e
  proof -
    have "free_for (inUse hs) (h_owner hid) h" using free that(1) by (simp add: list_all_iff)
    then show ?thesis using that(2) unfolding free_for_iff by blast
  qed
  have l: "\<forall>h\<in>set names. \<forall>e. inUse hs h = Some e \<longrightarrow> h_owner e = h_owner hid \<and> inUse hs' h = Some hid"
    by (intro ballI allI impI conjI) (erule ow, assumption, simp add: look)
  have "\<forall>h. h \<notin> set names \<longrightarrow> inUse hs' h = inUse hs h \<and> store c' h = store c h" using decl by (simp add: look)
  then show ?thesis using g(1,2) hid(1) l decl by blast
qed

text \<open>
  A hostname nobody holds, one whose deployment has closed for instance, is declared for the destination but not reserved for it:
  afterwards any other tenant can still reserve it.
\<close>

theorem migrated_free_hostname_unreserved:
  assumes "hosts_api_ok A store"
    and "migrateHandler A now addr s1 s2 findActive owner (Some b) (hs, c) = (Answer 200 names, (hs', c'))"
    and "h \<in> set names" "inUse hs h = None"
  shows "inUse hs' h = None \<and> store c' h \<noteq> None \<and> (\<forall>hid. is_ok (snd (reserveHostnamesImpl (inUse hs') [h] hid)))"
proof -
  from migrate_ok_steps[OF assms(2)] obtain lid g where
    g: "\<forall>h\<in>set names. host_table g h \<noteq> None"
      "PrepareHostnamesForTransfer addr hs names lid s1 s2 = (hs', Inr ())" "transfer_all A now lid (host_table g) names c = (None, c')" by blast
  from prepare_ok_store[OF g(2)] obtain hid where "prepareHostnamesImpl (inUse hs) names hid = (inUse hs', Inr ())" by blast
  then have "inUse hs' h = None" using prepare_lookup[of "inUse hs" names hid h] assms(4) by simp
  moreover have "store c' h \<noteq> None" using transfer_all_declares[OF assms(1) g(1,3)] assms(3) by fastforce
  ultimately show ?thesis by (simp add: reserve_ok_iff free_for_iff)
qed

section \<open>What moving endpoints does\<close>

text \<open>Every global expose with an endpoint name is picked, whatever was asked for.\<close>

definition leased_exposes :: "(string \<Rightarrow> string option) \<Rightarrow> crd_service list \<Rightarrow> serviceExposeWithName list" where
  "leased_exposes parse_proto ss = concat (map (\<lambda>s. map (\<lambda>e. \<lparr>se_expose = e, se_serviceName = cs_Name s, se_proto = the (parse_proto (ce_Proto e))\<rparr>)
     (filter (\<lambda>e. ce_Global e \<and> ce_IP e \<noteq> []) (cs_Expose s))) ss)"

lemma expose_loop_picks:
  "expose_loop parse_proto svc es acc = Some acc' \<Longrightarrow>
     snd acc' = snd acc @ map (\<lambda>e. \<lparr>se_expose = e, se_serviceName = svc, se_proto = the (parse_proto (ce_Proto e))\<rparr>) (filter (\<lambda>e. ce_Global e \<and> ce_IP e \<noteq> []) es)"
proof (induction es arbitrary: acc)
  case (Cons e es)
  obtain seen found where acc: "acc = (seen, found)" by force
  show ?case
  proof (cases "ce_Global e \<and> ce_IP e \<noteq> []")
    case True
    then obtain p where p: "parse_proto (ce_Proto e) = Some p"
      "expose_loop parse_proto svc es (insert (ce_IP e) seen, found @ [\<lparr>se_expose = e, se_serviceName = svc, se_proto = p\<rparr>]) = Some acc'"
      using Cons.prems acc by (auto simp: Let_def split: option.splits)
    from Cons.IH[OF p(2)] True p(1) acc show ?thesis by simp
  next
    case False
    then have "expose_loop parse_proto svc es acc = Some acc'" using Cons.prems acc by auto
    from Cons.IH[OF this] False show ?thesis by auto
  qed
qed simp

lemma service_loop_picks:
  "service_loop parse_proto ss (seen, found) = Some (seen', found') \<Longrightarrow> found' = found @ leased_exposes parse_proto ss"
proof (induction ss arbitrary: seen found)
  case (Cons s ss)
  then obtain seen1 found1 where e: "expose_loop parse_proto (cs_Name s) (cs_Expose s) (seen, found) = Some (seen1, found1)"
    "service_loop parse_proto ss (seen1, found1) = Some (seen', found')" by (auto split: option.splits)
  show ?case using Cons.IH[OF e(2)] expose_loop_picks[OF e(1)] by (simp add: leased_exposes_def)
qed (simp add: leased_exposes_def)

definition endpoint_object :: "(bytes \<Rightarrow> bytes) \<Rightarrow> lease_id \<Rightarrow> serviceExposeWithName \<Rightarrow> string" where
  "endpoint_object sha lid x = ip_resource_name (MakeIPSharingKey sha lid (ce_IP (se_expose x))) (se_proto x) (ucast (DetermineExposedExternalPort (se_expose x)))"

lemma DeclareIP_overwrites:
  assumes "ips_api_ok A store" "DeclareIP A lid svc port externalPort proto key True c = (None, c')"
  shows "\<exists>x. store c' = (store c)(ip_resource_name key proto externalPort \<mapsto> x) \<and> lo_labels x = ip_labels lid svc externalPort proto"
proof -
  have W: "crd_writes_ok (ca_create A) lo_name (\<lambda>v x. x\<lparr>lo_version := v\<rparr>) store" "crd_writes_ok (ca_update A) lo_name (\<lambda>v x. x\<lparr>lo_version := v\<rparr>) store"
    using assms(1) by (simp_all add: crd_api_ok_def)
  let ?o = "\<lparr>lo_name = ip_resource_name key proto externalPort, lo_labels = ip_labels lid svc externalPort proto,
            lo_spec = ip_spec lid svc port externalPort proto key, lo_version = []\<rparr>"
  from assms(2) obtain v where "ca_update A (?o\<lparr>lo_version := v\<rparr>) c = (None, c') \<or> ca_create A ?o c = (None, c')"
    by (auto simp: DeclareIP_def Let_def split: sum.splits if_splits prod.splits)
  then show ?thesis using crd_writesD(1)[OF W(1), of ?o c c'] crd_writesD(1)[OF W(2), of "?o\<lparr>lo_version := v\<rparr>" c c'] by fastforce
qed

lemma redeclare_all_labels:
  assumes "ips_api_ok A store" "redeclare_all A sha lid xs c = (None, c')" "x \<in> set xs"
  shows "\<exists>o' svc p q. store c' (endpoint_object sha lid x) = Some o' \<and> lo_labels o' = ip_labels lid svc p q"
  using assms(2,3)
proof (induction xs arbitrary: c c' rule: rev_induct)
  case (snoc y ys)
  have app: "redeclare_all A sha lid (as @ bs) c = (case redeclare_all A sha lid as c of (None, c1) \<Rightarrow> redeclare_all A sha lid bs c1 | (Some e, c1) \<Rightarrow> (Some e, c1))" for as bs c
    by (induction as arbitrary: c) (auto simp: Let_def split: prod.split option.split)
  obtain c1 where c1: "redeclare_all A sha lid ys c = (None, c1)" "redeclare_all A sha lid [y] c1 = (None, c')"
    using snoc.prems(1) by (auto simp: app split: prod.splits option.splits)
  obtain o1 svc p q where o1: "store c' = (store c1)(endpoint_object sha lid y \<mapsto> o1)" "lo_labels o1 = ip_labels lid svc p q"
    using DeclareIP_overwrites[OF assms(1)] c1(2) by (auto simp: Let_def endpoint_object_def split: prod.splits option.splits) blast
  show ?case
  proof (cases "endpoint_object sha lid x = endpoint_object sha lid y")
    case True
    then show ?thesis using o1 by auto
  next
    case False
    then have "x \<in> set ys" using snoc.prems(2) by auto
    then show ?thesis using snoc.IH[OF c1(1)] o1(1) False by simp
  qed
qed simp

text \<open>Moving one endpoint moves them all: the request names the endpoints to move, but the handler looks each expose up in the map it has just
  put it in, not in the map of the request. After a success every global leased endpoint of the destination is
  declared for the destination lease, taken from whichever lease of the tenant held it, requested or not.
\<close>

theorem unrequested_endpoint_migrated:
  assumes "ips_api_ok A store"
    and "migrateEndpointHandler A sha parse_proto findActive owner (Some b) c = (Answer 200 names, c')"
    and "findActive owner (ep_DestinationDSeq b) (ep_DestinationGSeq b) = FindLease lid g"
    and "s \<in> set (cg_Services g)" "e \<in> set (cs_Expose s)" "ce_Global e" "ce_IP e \<noteq> []"
  shows "\<exists>x svc p q. store c' (ip_resource_name (MakeIPSharingKey sha lid (ce_IP e)) (the (parse_proto (ce_Proto e))) (ucast (DetermineExposedExternalPort e))) = Some x \<and>
    lo_labels x = ip_labels lid svc p q"
proof -
  obtain seen xs where xs: "service_loop parse_proto (cg_Services g) ({}, []) = Some (seen, xs)" "redeclare_all A sha lid xs c = (None, c')"
    using assms(2,3) by (auto simp: migrateEndpointHandler_def writeClusterError_def Let_def split: if_splits option.splits prod.splits)
  let ?x = "\<lparr>se_expose = e, se_serviceName = cs_Name s, se_proto = the (parse_proto (ce_Proto e))\<rparr>"
  have "?x \<in> set xs" using service_loop_picks[OF xs(1)] assms(4-7) by (auto simp: leased_exposes_def)
  from redeclare_all_labels[OF assms(1) xs(2) this] show ?thesis by (simp add: endpoint_object_def)
qed

section \<open>A tenant with two deployments\<close>

definition ex_http :: crd_http where
  "ex_http = \<lparr>ch_MaxBodySize = 0, ch_ReadTimeout = 0, ch_SendTimeout = 0, ch_NextTries = 0, ch_NextTimeout = 0, ch_NextCases = [],
     ch_ProxyBufferingDisable = False, ch_ProxyBufferSize = 0, ch_ProxyBuffersNumber = 0, ch_ProxyBuffersSize = 0, ch_ProxyBusyBuffersSize = 0,
     ch_ProxyConnectTimeout = 0\<rparr>"

definition ex_expose :: "string list \<Rightarrow> string \<Rightarrow> crd_expose" where
  "ex_expose hosts ip = \<lparr>ce_Port = 8080, ce_ExternalPort = 80, ce_Proto = ''TCP'', ce_Service = [], ce_Global = True, ce_Hosts = hosts,
     ce_HTTPOptions = ex_http, ce_IP = ip, ce_EndpointSequenceNumber = 0\<rparr>"

definition ex_crd_service :: "string \<Rightarrow> crd_expose list \<Rightarrow> crd_service" where
  "ex_crd_service name es = \<lparr>cs_Name = name, cs_Image = ''nginx'', cs_Command = [], cs_Args = [], cs_Env = [],
     cs_Resources = \<lparr>cres_ID = 1, cres_CPU = \<lparr>cc_Units = 1, cc_Attributes = []\<rparr>, cres_GPU = \<lparr>cc_Units = 0, cc_Attributes = []\<rparr>,
       cres_Memory = \<lparr>cm_Size = ''1'', cm_Attributes = []\<rparr>, cres_Storage = []\<rparr>,
     cs_Count = 1, cs_Expose = es, cs_Params = None, cs_SchedulerParams = None, cs_Credentials = None, cs_InterconnectGroup = []\<rparr>"

definition ex_group :: crd_group where
  "ex_group = \<lparr>cg_Name = ''g'', cg_Services = [ex_crd_service ''web'' [ex_expose [''app.example.com''] []],
     ex_crd_service ''db'' [ex_expose [] ''one'', ex_expose [] ''two'']]\<rparr>"

definition ex_find :: "string \<Rightarrow> u64 \<Rightarrow> u32 \<Rightarrow> crd_group find_lease_answer" where
  "ex_find = FindActiveLease False [ex_hlid 2] (\<lambda>_. Inr (Some ex_group))"

definition ex_hosts :: "u64 option \<Rightarrow> hostname_service" where
  "ex_hosts holder = \<lparr>inUse = (\<lambda>h. if h = ''app.example.com'' then map_option (\<lambda>d. \<lparr>h_owner = ''akash1o'', h_dseq = d, h_gseq = 1\<rparr>) holder else None),
     blockedHostnames = [], blockedDomains = []\<rparr>"

definition ex_body :: migrateRequestBody where
  "ex_body = \<lparr>HostnamesToMigrate = [''app.example.com''], DestinationDSeq = 2, DestinationGSeq = 1\<rparr>"

abbreviation ex_migrate :: "u64 option \<Rightarrow> string list answer \<times> (hostname_service \<times> (string \<times> host_object) list)" where
  "ex_migrate holder \<equiv> migrateHandler (list_crd po_name po_labels) ''t'' Some SelChan SelChan ex_find ''akash1o'' (Some ex_body) (ex_hosts holder, [])"

lemma ex_table: "host_table ex_group = [''app.example.com'' \<mapsto> (''web'', 80)]"
  by (simp add: host_table_def host_entries_def ex_group_def ex_crd_service_def ex_expose_def external_port_def)

lemma ex_migrates: "ex_migrate holder = (Answer 200 [''app.example.com''], snd (ex_migrate holder))"
  by (cases holder)
    (simp_all add: migrateHandler_def ex_body_def ex_find_def FindActiveLease_def doCheckDeploymentExists_def ex_hlid_def ex_table Let_def
      PrepareHostnamesForTransfer_def hostnameIDFromLeaseID_def prepareHostnamesImpl_def ex_hosts_def DeclareHostname_def list_crd_def)

theorem hostnames_migrate_safely_witness:
  "inUse (fst (snd (ex_migrate (Some 1)))) ''app.example.com'' = Some \<lparr>h_owner = ''akash1o'', h_dseq = 2, h_gseq = 1\<rparr>"
proof -
  have m: "ex_migrate (Some 1) = (Answer 200 [''app.example.com''], (fst (snd (ex_migrate (Some 1))), snd (snd (ex_migrate (Some 1)))))"
    using ex_migrates[of "Some 1"] by simp
  from hostnames_migrate_safely[OF list_hosts_ok m] show ?thesis
    by (auto simp: ex_find_def FindActiveLease_def doCheckDeploymentExists_def ex_body_def ex_hlid_def hostnameIDFromLeaseID_def ex_hosts_def)
qed

theorem migrated_free_hostname_unreserved_witness:
  "inUse (fst (snd (ex_migrate None))) ''app.example.com'' = None"
proof -
  have m: "ex_migrate None = (Answer 200 [''app.example.com''], (fst (snd (ex_migrate None)), snd (snd (ex_migrate None))))"
    using ex_migrates[of None] by simp
  from migrated_free_hostname_unreserved[OF list_hosts_ok m, of "''app.example.com''"] show ?thesis by (simp add: ex_hosts_def)
qed

definition ex_ep_body :: endpointMigrateRequestBody where
  "ex_ep_body = \<lparr>EndpointsToMigrate = [''one''], ep_DestinationDSeq = 2, ep_DestinationGSeq = 1\<rparr>"

definition ex_sha :: "bytes \<Rightarrow> bytes" where "ex_sha b = b"

abbreviation ex_move :: "string list answer \<times> (string \<times> leased_ip) list" where
  "ex_move \<equiv> migrateEndpointHandler (list_crd lo_name lo_labels) ex_sha Some ex_find ''akash1o'' (Some ex_ep_body) []"

lemma list_crd_writes [simp]: "ca_create (list_crd nm lab) x c = (None, (nm x, x) # c)" "ca_update (list_crd nm lab) x c = (None, (nm x, x) # c)"
  by (simp_all add: list_crd_def)

lemma list_DeclareIP:
  assumes "\<forall>k x. map_of c k = Some x \<longrightarrow> lo_name x = k"
  shows "\<exists>o1. DeclareIP (list_crd lo_name lo_labels) lid svc p q proto key True c = (None, (lo_name o1, o1) # c)"
proof (cases "map_of c (ip_resource_name key proto q)")
  case None
  then have "ca_get (list_crd lo_name lo_labels) (ip_resource_name key proto q) c = Inl (KNotFound (ip_resource_name key proto q))"
    by (simp add: list_crd_def)
  then show ?thesis by (auto simp: DeclareIP_def Let_def)
next
  case (Some x)
  then have "ca_get (list_crd lo_name lo_labels) (ip_resource_name key proto q) c = Inr x"
    using assms by (simp add: list_crd_def)
  then show ?thesis by (auto simp: DeclareIP_def Let_def)
qed

theorem unrequested_endpoint_migrated_witness:
  "\<exists>x. map_of (snd ex_move) (ip_resource_name (MakeIPSharingKey ex_sha (ex_hlid 2) ''two'') ''TCP'' 80) = Some x \<and>
     EndpointsToMigrate ex_ep_body = [''one'']"
proof -
  let ?e = "ex_expose [] ''two''"
  have f: "ex_find ''akash1o'' (ep_DestinationDSeq ex_ep_body) (ep_DestinationGSeq ex_ep_body) = FindLease (ex_hlid 2) ex_group"
    by (simp add: ex_find_def FindActiveLease_def doCheckDeploymentExists_def ex_ep_body_def ex_hlid_def)
  have never: "(\<forall>k x. map_of c k = Some x \<longrightarrow> lo_name x = k) \<Longrightarrow> \<exists>c'. redeclare_all (list_crd lo_name lo_labels) ex_sha lid xs c = (None, c')" for lid xs c
  proof (induction xs arbitrary: c)
    case (Cons x xs)
    obtain o1 where o1: "DeclareIP (list_crd lo_name lo_labels) lid (se_serviceName x) (ucast (ce_Port (se_expose x)))
      (ucast (DetermineExposedExternalPort (se_expose x))) (se_proto x) (MakeIPSharingKey ex_sha lid (ce_IP (se_expose x))) True c = (None, (lo_name o1, o1) # c)"
      using list_DeclareIP[OF Cons.prems] by blast
    have "\<forall>k x. map_of ((lo_name o1, o1) # c) k = Some x \<longrightarrow> lo_name x = k" using Cons.prems by auto
    from Cons.IH[OF this] show ?case using o1 by (simp add: Let_def)
  qed simp
  have "\<exists>seen xs. service_loop Some (cg_Services ex_group) ({}, []) = Some (seen, xs) \<and> ''one'' \<in> seen"
    by (simp add: ex_group_def ex_crd_service_def ex_expose_def Let_def)
  then obtain seen xs where sl: "service_loop Some (cg_Services ex_group) ({}, []) = Some (seen, xs)" "''one'' \<in> seen" by blast
  obtain c' where c': "redeclare_all (list_crd lo_name lo_labels) ex_sha (ex_hlid 2) xs [] = (None, c')" using never[of "[]"] by auto
  have "EndpointsToMigrate ex_ep_body = [''one'']" by (simp add: ex_ep_body_def)
  then have "fst ex_move = Answer 200 [''one'']" using sl c' f by (simp add: migrateEndpointHandler_def)
  then have m: "ex_move = (Answer 200 [''one''], snd ex_move)" by (metis prod.collapse)
  have "ex_crd_service ''db'' [ex_expose [] ''one'', ?e] \<in> set (cg_Services ex_group)"
    "?e \<in> set (cs_Expose (ex_crd_service ''db'' [ex_expose [] ''one'', ?e]))" "ce_Global ?e" "ce_IP ?e \<noteq> []"
    by (simp_all add: ex_group_def ex_crd_service_def ex_expose_def)
  from unrequested_endpoint_migrated[OF list_ips_ok m f this]
  show ?thesis by (auto simp: ex_expose_def DetermineExposedExternalPort_def ex_ep_body_def)
qed

end
