(* ===== verification/LeaseHandlers.thy ===== *)
theory LeaseHandlers
  imports GatewayHandlers MetalLB "HOL-Library.Monad_Syntax"
begin

text \<open>
  The handlers of the lease routes that only read (gateway/rest/router.go, attestation.go) and the lease shell (router.go,
  router_shell.go). The answers of the cluster client are parameters. A query string is the list of its parameters in order,
  of which \<open>Values.Get\<close> reads the first of a name.
\<close>

section \<open>Provider and manifest handlers\<close>

definition createAddressHandler :: "string \<Rightarrow> string answer" where
  "createAddressHandler providerAddr = Answer 200 providerAddr"

definition createVersionHandler :: "cluster_error + 'v \<Rightarrow> 'i \<Rightarrow> ('i \<times> 'v) answer" where
  "createVersionHandler kube info = (case kube of Inl e \<Rightarrow> writeClusterError e | Inr v \<Rightarrow> Answer 200 (info, v))"

text \<open>A failing \<open>StatusV1\<close> only leaves the leased addresses out.\<close>

definition createStatusHandler :: "gw_error + 's \<Rightarrow> gw_error + (int \<times> int) option \<Rightarrow> string \<Rightarrow> ('s \<times> string \<times> (int \<times> int) option) answer" where
  "createStatusHandler status statusV1 providerAddr =
     (case status of
        Inl e \<Rightarrow> Failure (StatusCodeFrom (Some e)) (case e of GwHttp h \<Rightarrow> he_Err h | GwOther s \<Rightarrow> s)
      | Inr st \<Rightarrow> Answer 200 (st, providerAddr, case statusV1 of Inl _ \<Rightarrow> None | Inr leasedIP \<Rightarrow> leasedIP))"

definition reply_of_submit :: "submit_reply \<Rightarrow> unit answer" where
  "reply_of_submit r = (case r of SubmitOk \<Rightarrow> Answer 200 () | SubmitHttp code _ \<Rightarrow> Failure code [] | SubmitErr _ \<Rightarrow> Failure 500 [])"

definition createManifestHandler :: "'m option \<Rightarrow> deployment_id \<Rightarrow> (deployment_id \<Rightarrow> 'm \<Rightarrow> submit_reply) \<Rightarrow> unit answer" where
  "createManifestHandler body did submit = (case body of None \<Rightarrow> Failure 422 [] | Some mani \<Rightarrow> reply_of_submit (submit did mani))"

definition getManifestHandler :: "(string \<Rightarrow> 'proto option) \<Rightarrow> cluster_error + crd_group option \<Rightarrow> 'proto am_group list answer" where
  "getManifestHandler pp grp =
     (case grp of
        Inl e \<Rightarrow> writeClusterError e
      | Inr None \<Rightarrow> Failure 404 ''lease not found''
      | Inr (Some g) \<Rightarrow> (case ManifestGroup_FromCRD pp g of Inl e \<Rightarrow> Failure 500 [] | Inr (mgrp, _) \<Rightarrow> Answer 200 [mgrp]))"

section \<open>Lease status\<close>

record ('f, 's) lease_status =
  st_Services :: 's
  st_ForwardedPorts :: "'f option"
  st_IPs :: "(string \<rightharpoonup> lease_ip_status list) option"

definition hasLeasedIPs :: "crd_group \<Rightarrow> bool" where
  "hasLeasedIPs g = list_ex (\<lambda>s. list_ex (\<lambda>e. ce_IP e \<noteq> []) (cs_Expose s)) (cg_Services g)"

definition hasForwardedPorts :: "crd_group \<Rightarrow> bool" where
  "hasForwardedPorts g = list_ex (\<lambda>s. list_ex (\<lambda>e. ce_Global e \<and> ce_ExternalPort e \<noteq> 80) (cs_Expose s)) (cg_Services g)"

definition ips_by_service :: "lease_ip_status list \<Rightarrow> (string \<rightharpoonup> lease_ip_status list)" where
  "ips_by_service xs = foldl (\<lambda>m x. m(lis_ServiceName x \<mapsto> (case m (lis_ServiceName x) of None \<Rightarrow> [] | Some es \<Rightarrow> es) @ [x])) Map.empty xs"

text \<open>\<open>clIP\<close> is the client of the address operator, when the provider has one.\<close>

definition leaseStatusHandler ::
  "cluster_error + crd_group option \<Rightarrow> (cluster_error + lease_ip_status list) option \<Rightarrow> cluster_error + 'f \<Rightarrow> cluster_error + 's
    \<Rightarrow> ('f, 's) lease_status answer" where
  "leaseStatusHandler grp clIP forwardedPortStatus leaseStatus =
     (case grp of
        Inl e \<Rightarrow> writeClusterError e
      | Inr None \<Rightarrow> Failure 404 []
      | Inr (Some g) \<Rightarrow>
          (case (case clIP of
                   None \<Rightarrow> Inr None
                 | Some r \<Rightarrow> if hasLeasedIPs g then (case r of Inl e \<Rightarrow> Inl e | Inr xs \<Rightarrow> Inr (Some (ips_by_service xs))) else Inr None) of
             Inl e \<Rightarrow> writeClusterError e
           | Inr ips \<Rightarrow>
               (case (if hasForwardedPorts g then (case forwardedPortStatus of Inl e \<Rightarrow> Inl e | Inr f \<Rightarrow> Inr (Some f)) else Inr None) of
                  Inl e \<Rightarrow> writeClusterError e
                | Inr ports \<Rightarrow>
                    (case leaseStatus of
                       Inl e \<Rightarrow> writeClusterError e
                     | Inr services \<Rightarrow> Answer 200 \<lparr>st_Services = services, st_ForwardedPorts = ports, st_IPs = ips\<rparr>))))"

definition leaseServiceStatusHandler :: "cluster_error + 's \<Rightarrow> 's answer" where
  "leaseServiceStatusHandler status = (case status of Inl e \<Rightarrow> writeClusterError e | Inr s \<Rightarrow> Answer 200 s)"

section \<open>Attestation quotes\<close>

type_synonym query = "(string \<times> string) list"

definition query_get :: "query \<Rightarrow> string \<Rightarrow> string" where
  "query_get q k = (case map_of q k of None \<Rightarrow> [] | Some v \<Rightarrow> v)"

definition parse_uint31 :: "string \<Rightarrow> nat option" where
  "parse_uint31 s = (case parse_uint s of Some n \<Rightarrow> if n < 2 ^ 31 then Some n else None | None \<Rightarrow> None)"

text \<open>\<open>quote\<close> is the answer of the sidecar: its body and status, or the error with the status to report.\<close>

definition createAttestationQuoteHandler ::
  "query \<Rightarrow> bytes option \<Rightarrow> (string \<Rightarrow> nat \<Rightarrow> bytes \<Rightarrow> (string \<times> nat) + (bytes \<times> nat)) \<Rightarrow> bytes answer" where
  "createAttestationQuoteHandler q body quote =
     (let service = query_get q ''service''; pidx = query_get q ''podIndex'' in
      case (if pidx = [] then Inr 0
            else if service = [] then Inl ''podIndex requires service parameter''
            else case parse_uint31 pidx of None \<Rightarrow> Inl ''invalid podIndex parameter'' | Some n \<Rightarrow> Inr n) of
        Inl msg \<Rightarrow> Failure 400 msg
      | Inr podIndex \<Rightarrow>
          (case body of
             None \<Rightarrow> Failure 400 ''failed to read request body''
           | Some b \<Rightarrow>
               (case quote service podIndex (take 4096 b) of
                  Inl (e, statusCode) \<Rightarrow> Failure statusCode (''attestation quote failed: '' @ e)
                | Inr (resp, statusCode) \<Rightarrow> Answer statusCode resp)))"

section \<open>The parameters of a shell\<close>

text \<open>The command: \<open>cmd0\<close>, \<open>cmd1\<close>, and so on, up to the first that is missing or empty.\<close>

partial_function (option) collect_cmd :: "query \<Rightarrow> nat \<Rightarrow> string list option" where
  "collect_cmd q i =
     (let v = query_get q (''cmd'' @ itoa i) in
      if v = [] then Some []
      else do { rest \<leftarrow> collect_cmd q (i + 1); Some (v # rest) })"

text \<open>
  \<open>strconv.ParseUint (s, 0, 31)\<close>: the base from the prefix, underscores between digits.
\<close>

definition digit_value :: "char \<Rightarrow> nat option" where
  "digit_value c = (let n = of_char (to_lower_char c) :: nat in
     if 48 \<le> n \<and> n \<le> 57 then Some (n - 48) else if 97 \<le> n \<and> n \<le> 122 then Some (n - 87) else None)"

fun digits_in :: "nat \<Rightarrow> nat \<Rightarrow> string \<Rightarrow> nat option" where
  "digits_in base acc [] = Some acc"
| "digits_in base acc (c # cs) =
     (if c = CHR ''_'' then digits_in base acc cs
      else case digit_value c of Some d \<Rightarrow> if d < base then digits_in base (base * acc + d) cs else None | None \<Rightarrow> None)"

fun underscores_after :: "bool \<Rightarrow> char \<Rightarrow> string \<Rightarrow> bool" where
  "underscores_after hex i [] = (i \<noteq> CHR ''_'')"
| "underscores_after hex i (c # cs) =
     (let n = of_char (to_lower_char c) :: nat in
      if (48 \<le> n \<and> n \<le> 57) \<or> (hex \<and> 97 \<le> n \<and> n \<le> 102) then underscores_after hex (CHR ''0'') cs
      else if c = CHR ''_'' then i = CHR ''0'' \<and> underscores_after hex (CHR ''_'') cs
      else i \<noteq> CHR ''_'' \<and> underscores_after hex (CHR ''!'') cs)"

definition base_letter :: "string \<Rightarrow> nat option" where
  "base_letter s = (case s of c # d # _ \<Rightarrow> if c = CHR ''0'' then
       (let l = to_lower_char d in if l = CHR ''b'' then Some 2 else if l = CHR ''o'' then Some 8 else if l = CHR ''x'' then Some 16 else None)
     else None | _ \<Rightarrow> None)"

definition underscoreOK :: "string \<Rightarrow> bool" where
  "underscoreOK s = (case base_letter s of
     Some b \<Rightarrow> underscores_after (b = 16) (CHR ''0'') (drop 2 s) | None \<Rightarrow> underscores_after False (CHR ''^'') s)"

definition parse_uint_base0 :: "string \<Rightarrow> nat option" where
  "parse_uint_base0 s =
     (if s = [] then None
      else let (base, digits) =
             (if has_prefix s ''0''
              then (case base_letter s of Some b \<Rightarrow> if length s \<ge> 3 then (b, drop 2 s) else (8, drop 1 s) | None \<Rightarrow> (8, drop 1 s))
              else (10, s))
           in case digits_in base 0 digits of
                None \<Rightarrow> None
              | Some n \<Rightarrow> if (CHR ''_'' \<in> set s \<and> \<not> underscoreOK s) \<or> n \<ge> 2 ^ 31 then None else Some n)"

record shell_request =
  sr_cmd :: "string list"
  sr_tty :: bool
  sr_service :: string
  sr_stdin :: bool
  sr_podIndex :: nat

text \<open>The checks in the order of the handler; the error is what it logs, the answer is always 400 without a body.\<close>

definition shell_parameters :: "query \<Rightarrow> (string + shell_request) option" where
  "shell_parameters q =
     (case collect_cmd q 0 of
        None \<Rightarrow> None
      | Some cmd \<Rightarrow> Some
          (if cmd = [] then Inl ''missing cmd parameter''
           else if query_get q ''tty'' = [] then Inl ''missing parameter tty''
           else if query_get q ''service'' = [] then Inl ''missing parameter service''
           else if query_get q ''stdin'' = [] then Inl ''missing parameter stdin''
           else if query_get q ''podIndex'' = [] then Inl ''missing parameter podIndex''
           else case parse_uint_base0 (query_get q ''podIndex'') of
                  None \<Rightarrow> Inl ''parameter podIndex invalid''
                | Some podIndex \<Rightarrow> Inr \<lparr>sr_cmd = cmd, sr_tty = (query_get q ''tty'' = ''1''), sr_service = query_get q ''service'',
                     sr_stdin = (query_get q ''stdin'' = ''1''), sr_podIndex = podIndex\<rparr>))"

section \<open>The outcome of a shell\<close>

definition LeaseShellCodeResult :: nat where "LeaseShellCodeResult = 102"
definition LeaseShellCodeFailure :: nat where "LeaseShellCodeFailure = 103"
definition LeaseShellCodeStdin :: nat where "LeaseShellCodeStdin = 104"
definition LeaseShellCodeTerminalResize :: nat where "LeaseShellCodeTerminalResize = 105"

record shell_error =
  sh_ErrExec :: bool
  sh_ErrNoServiceForLease :: bool
  sh_text :: string

definition ErrorIsOkToSendToClient :: "shell_error option \<Rightarrow> bool" where
  "ErrorIsOkToSendToClient e = (case e of None \<Rightarrow> False | Some x \<Rightarrow> sh_ErrExec x)"

record leaseShellResponse =
  rs_ExitCode :: int
  rs_Message :: string

text \<open>
  The last frame of the session: its code, and the response it carries (\<open>None\<close>: empty). \<open>status\<close> is the number of ready replicas of the
  service, \<open>exec\<close> the exit code and error of the command, which is run only when the service is ready.
\<close>

definition shell_outcome :: "shell_error + nat \<Rightarrow> int option \<times> shell_error option \<Rightarrow> nat \<times> leaseShellResponse option" where
  "shell_outcome status exec =
     (case status of
        Inl e \<Rightarrow>
          if ErrorIsOkToSendToClient (Some e) \<or> sh_ErrNoServiceForLease e
          then (LeaseShellCodeResult, Some \<lparr>rs_ExitCode = 0, rs_Message = sh_text e\<rparr>)
          else (LeaseShellCodeFailure, None)
      | Inr ready \<Rightarrow>
          if ready = 0 then (LeaseShellCodeResult, Some \<lparr>rs_ExitCode = 0, rs_Message = ''no active replicase for service''\<rparr>)
          else case exec of
            (Some code, _) \<Rightarrow> (LeaseShellCodeResult, Some \<lparr>rs_ExitCode = code, rs_Message = []\<rparr>)
          | (None, err) \<Rightarrow>
              if ErrorIsOkToSendToClient err
              then (LeaseShellCodeResult, Some \<lparr>rs_ExitCode = 0, rs_Message = (case err of Some e \<Rightarrow> sh_text e | None \<Rightarrow> [])\<rparr>)
              else (LeaseShellCodeFailure, None))"

section \<open>Input of a shell\<close>

datatype ws_message = WsBinary bytes | WsText bytes | WsReadError

datatype shell_input = Stdin bytes | Resize u32 u32 | InputIgnored | InputStop

definition be16 :: "bytes \<Rightarrow> u32" where
  "be16 bs = of_nat (256 * of_char (bs ! 0) + of_char (bs ! 1))"

text \<open>What one message of the client is: two 16-bit numbers, most significant byte first, for the size of the terminal.\<close>

definition shell_message :: "ws_message \<Rightarrow> shell_input" where
  "shell_message m =
     (case m of
        WsReadError \<Rightarrow> InputStop
      | WsText _ \<Rightarrow> InputIgnored
      | WsBinary [] \<Rightarrow> InputIgnored
      | WsBinary (msgID # msg) \<Rightarrow>
          if (of_char msgID :: nat) = LeaseShellCodeStdin then Stdin msg
          else if (of_char msgID :: nat) = LeaseShellCodeTerminalResize
          then (if length msg < 4 then InputStop else Resize (be16 msg) (be16 (drop 2 msg)))
          else InputStop)"

section \<open>The command of a shell is read to its end\<close>

lemma given_cmds_finite: "finite {i. query_get q (''cmd'' @ itoa i) \<noteq> []}"
proof -
  have "(\<lambda>i. ''cmd'' @ itoa i) ` {i. query_get q (''cmd'' @ itoa i) \<noteq> []} \<subseteq> fst ` set q"
    by (auto simp: query_get_def split: option.splits dest: map_of_SomeD intro: rev_image_eqI)
  then have "finite ((\<lambda>i. ''cmd'' @ itoa i) ` {i. query_get q (''cmd'' @ itoa i) \<noteq> []})" by (rule finite_subset) simp
  then show ?thesis by (rule finite_imageD) (auto intro: inj_onI)
qed

lemma collect_cmd_upto:
  assumes "query_get q (''cmd'' @ itoa k) = []" "\<forall>j. i \<le> j \<and> j < k \<longrightarrow> query_get q (''cmd'' @ itoa j) \<noteq> []" "i \<le> k"
  shows "collect_cmd q i = Some (map (\<lambda>j. query_get q (''cmd'' @ itoa j)) [i..<k])"
  using assms(2,3)
proof (induction "k - i" arbitrary: i)
  case 0
  then have "i = k" by simp
  then show ?case using assms(1) by (subst collect_cmd.simps) simp
next
  case (Suc n)
  then have i: "i < k" "query_get q (''cmd'' @ itoa i) \<noteq> []" by auto
  have "n = k - (i + 1)" using Suc.hyps(2) by simp
  then have "collect_cmd q (i + 1) = Some (map (\<lambda>j. query_get q (''cmd'' @ itoa j)) [i + 1..<k])" using Suc.prems i(1) by (intro Suc.hyps(1)) auto
  then show ?case using i by (subst collect_cmd.simps) (simp add: Let_def upt_conv_Cons)
qed

text \<open>
  The loop \<open>for i := 0; true; i++\<close> that reads the command of a shell ends on every query: the command is the parameters \<open>cmd0\<close>,
  \<open>cmd1\<close>, and so on, up to the first one that is empty or missing, so the handler always answers.
\<close>

theorem shell_command_read:
  "\<exists>k. collect_cmd q 0 = Some (map (\<lambda>j. query_get q (''cmd'' @ itoa j)) [0..<k]) \<and>
     (\<forall>j<k. query_get q (''cmd'' @ itoa j) \<noteq> []) \<and> query_get q (''cmd'' @ itoa k) = [] \<and> shell_parameters q \<noteq> None"
proof -
  have "{i. query_get q (''cmd'' @ itoa i) \<noteq> []} \<noteq> UNIV" using given_cmds_finite[of q] infinite_UNIV_nat by auto
  then obtain n where n: "query_get q (''cmd'' @ itoa n) = []" by blast
  define P where "P i \<longleftrightarrow> query_get q (''cmd'' @ itoa i) = []" for i
  have "P n" using n by (simp add: P_def)
  then obtain k where k: "P k" "\<forall>j<k. \<not> P j" using exists_least_iff[of P] by blast
  have before: "\<forall>j<k. query_get q (''cmd'' @ itoa j) \<noteq> []" and e: "query_get q (''cmd'' @ itoa k) = []" using k unfolding P_def by auto
  have c: "collect_cmd q 0 = Some (map (\<lambda>j. query_get q (''cmd'' @ itoa j)) [0..<k])"
    by (rule collect_cmd_upto[OF e]) (use before in blast, rule le0)
  then have "shell_parameters q \<noteq> None" by (simp add: shell_parameters_def)
  then show ?thesis using c e before by blast
qed

section \<open>What a shell tells the client\<close>

text \<open>
  An error of the cluster that is not meant for tenants never reaches the client: the last frame then has the failure code and no content, and
  a message it does carry is the text of an error of the command itself, of a missing service, or that no replica is active.
\<close>

theorem shell_errors_not_leaked:
  assumes "shell_outcome status exec = (code, resp)"
  shows "(resp = None \<longleftrightarrow> code = LeaseShellCodeFailure) \<and>
    (\<forall>r. resp = Some r \<and> rs_Message r \<notin> {[], ''no active replicase for service''} \<longrightarrow>
       (\<exists>e. rs_Message r = sh_text e \<and> (sh_ErrExec e \<or> sh_ErrNoServiceForLease e) \<and> (status = Inl e \<or> snd exec = Some e)))"
  using assms
  by (auto simp: shell_outcome_def ErrorIsOkToSendToClient_def LeaseShellCodeResult_def LeaseShellCodeFailure_def
      split: sum.splits if_splits prod.splits option.splits)

theorem shell_errors_not_leaked_witness:
  "snd (shell_outcome (Inl \<lparr>sh_ErrExec = False, sh_ErrNoServiceForLease = False, sh_text = ''dial tcp 10.0.0.1''\<rparr>) (None, None)) = None"
proof -
  let ?s = "shell_outcome (Inl \<lparr>sh_ErrExec = False, sh_ErrNoServiceForLease = False, sh_text = ''dial tcp 10.0.0.1''\<rparr>) (None, None)"
  have "?s = (LeaseShellCodeFailure, snd ?s)" by (simp add: shell_outcome_def ErrorIsOkToSendToClient_def)
  from shell_errors_not_leaked[OF this] show ?thesis by simp
qed

section \<open>Lease status\<close>

lemma ips_by_service_lookup: "ips_by_service xs s = (let es = filter (\<lambda>x. lis_ServiceName x = s) xs in if es = [] then None else Some es)"
  by (induction xs rule: rev_induct) (auto simp: ips_by_service_def Let_def)

text \<open>
  The status of a lease asks the cluster no more than it must and reports every address: it is answered with success iff the manifest is
  known and every question asked has an answer, the addresses are asked for only where the group has a leased one, and each address
  the operator reports is listed under its service, in order.
\<close>

theorem lease_status_complete:
  assumes "leaseStatusHandler (Inr (Some g)) (Some (Inr xs)) ports services = Answer 200 st"
  shows "(hasLeasedIPs g \<longrightarrow> (\<exists>m. st_IPs st = Some m \<and>
       (\<forall>s. (case m s of None \<Rightarrow> [] | Some es \<Rightarrow> es) = filter (\<lambda>x. lis_ServiceName x = s) xs))) \<and>
    (\<not> hasLeasedIPs g \<longrightarrow> st_IPs st = None) \<and>
    (hasForwardedPorts g \<longrightarrow> (\<exists>p. ports = Inr p \<and> st_ForwardedPorts st = Some p)) \<and> services = Inr (st_Services st)"
  using assms
  by (auto simp: leaseStatusHandler_def writeClusterError_def Let_def ips_by_service_lookup split: if_splits sum.splits)

theorem lease_status_complete_witness:
  "\<not> hasLeasedIPs \<lparr>cg_Name = ''g'', cg_Services = []\<rparr> \<and>
   (\<exists>st. leaseStatusHandler (Inr (Some \<lparr>cg_Name = ''g'', cg_Services = []\<rparr>)) (Some (Inr [])) (Inr (0::nat)) (Inr (1::nat)) = Answer 200 st \<and> st_IPs st = None)"
proof -
  let ?h = "leaseStatusHandler (Inr (Some \<lparr>cg_Name = ''g'', cg_Services = []\<rparr>)) (Some (Inr [])) (Inr (0::nat)) (Inr (1::nat))"
  have n: "\<not> hasLeasedIPs \<lparr>cg_Name = ''g'', cg_Services = []\<rparr>" by (simp add: hasLeasedIPs_def)
  obtain st where st: "?h = Answer 200 st" by (simp add: leaseStatusHandler_def hasLeasedIPs_def hasForwardedPorts_def)
  from lease_status_complete[OF st] n st show ?thesis by blast
qed

text \<open>The codes the gateway answers a cluster error with, over HTTP and over a websocket.\<close>

lemma cluster_error_codes:
  "he_StatusCode (clusterErrorToHTTP e) \<in> {404, 500, 503} \<and>
   (websocketCloseCodeFrom e = websocketLeaseNotFound \<longleftrightarrow> he_StatusCode (clusterErrorToHTTP e) = 404) \<and>
   (websocketCloseCodeFrom e = websocketServiceUnavailable \<longleftrightarrow> he_StatusCode (clusterErrorToHTTP e) = 503)"
  by (simp add: clusterErrorToHTTP_def websocketCloseCodeFrom_def NewHttpError_def websocketLeaseNotFound_def
      websocketServiceUnavailable_def websocketInternalServerErrorCode_def Let_def)

end
