(* ===== verification/ShellSession.thy ===== *)
theory ShellSession
  imports LeaseHandlers
begin

text \<open>
  The goroutines of one lease shell (gateway/rest/router.go, \<open>leaseShellHandler\<close>, and router_shell.go) after the websocket is open: the
  handler itself, which checks the service, runs the command, answers, closes the websocket, waits for the others and only then closes the pipe of
  the input; the reader, which writes every input message into that unbuffered pipe and puts sizes of the terminal into a channel of one place; and the pings.
  The steps interleave in any order. A command that runs may read input and sizes at any time; where no command runs nobody does.
\<close>

datatype main_pc = MStatus | MExec | MReply | MClose | MWait | MDone

text \<open>\<open>RWrite\<close> is blocked in the pipe until the command reads, \<open>RSend\<close> at the channel until it has room.\<close>

datatype reader_pc = RRead | RWrite | RSend | RExit

datatype ping_pc = PNone | PRun | PStop

record shell =
  sh_main :: main_pc
  sh_reader :: reader_pc
  sh_ping :: ping_pc
  sh_open :: bool
  sh_sizes :: nat

text \<open>The reader runs only when the client asked for input.\<close>

definition shell_start :: "bool \<Rightarrow> shell" where
  "shell_start connectStdin = \<lparr>sh_main = MStatus, sh_reader = (if connectStdin then RRead else RExit), sh_ping = PNone, sh_open = True, sh_sizes = 0\<rparr>"

inductive shell_step :: "bool \<Rightarrow> shell \<Rightarrow> shell \<Rightarrow> bool" for tty where
  not_ready: "sh_main s = MStatus \<Longrightarrow> shell_step tty s (s\<lparr>sh_main := MReply\<rparr>)"
| exec: "sh_main s = MStatus \<Longrightarrow> shell_step tty s (s\<lparr>sh_main := MExec, sh_ping := PRun\<rparr>)"
| exec_reads: "sh_main s = MExec \<Longrightarrow> sh_reader s = RWrite \<Longrightarrow> shell_step tty s (s\<lparr>sh_reader := RRead\<rparr>)"
| exec_resizes: "sh_main s = MExec \<Longrightarrow> 0 < sh_sizes s \<Longrightarrow> shell_step tty s (s\<lparr>sh_sizes := sh_sizes s - 1\<rparr>)"
| exec_ends: "sh_main s = MExec \<Longrightarrow> shell_step tty s (s\<lparr>sh_main := MReply, sh_ping := (if sh_ping s = PRun then PStop else sh_ping s)\<rparr>)"
| reply: "sh_main s = MReply \<Longrightarrow> shell_step tty s (s\<lparr>sh_main := MClose\<rparr>)"
| ws_close: "sh_main s = MClose \<Longrightarrow> shell_step tty s (s\<lparr>sh_main := MWait, sh_open := False\<rparr>)"
| waited: "sh_main s = MWait \<Longrightarrow> sh_reader s = RExit \<Longrightarrow> sh_ping s = PNone \<Longrightarrow> shell_step tty s (s\<lparr>sh_main := MDone\<rparr>)"
| read_stdin: "sh_reader s = RRead \<Longrightarrow> sh_open s \<Longrightarrow> shell_step tty s (s\<lparr>sh_reader := RWrite\<rparr>)"
| read_resize: "sh_reader s = RRead \<Longrightarrow> sh_open s \<Longrightarrow> tty \<Longrightarrow> shell_step tty s (s\<lparr>sh_reader := RSend\<rparr>)"
| send_resize: "sh_reader s = RSend \<Longrightarrow> sh_sizes s < 1 \<Longrightarrow> shell_step tty s (s\<lparr>sh_reader := RRead, sh_sizes := sh_sizes s + 1\<rparr>)"
| read_stops: "sh_reader s = RRead \<Longrightarrow> shell_step tty s (s\<lparr>sh_reader := RExit\<rparr>)"
| ping_stops: "sh_ping s \<noteq> PNone \<Longrightarrow> shell_step tty s (s\<lparr>sh_ping := PNone\<rparr>)"

code_pred (modes: i \<Rightarrow> i \<Rightarrow> o \<Rightarrow> bool) shell_step .

inductive_cases shell_stepE: "shell_step tty s s'"

definition shell_reach :: "bool \<Rightarrow> shell \<Rightarrow> shell \<Rightarrow> bool" where
  "shell_reach tty s s' = (shell_step tty)\<^sup>*\<^sup>* s s'"

section \<open>A session that hangs\<close>

text \<open>The handler waits, the reader is blocked in the pipe, and the handler would close the pipe only after waiting.\<close>

definition stuck :: "shell \<Rightarrow> bool" where
  "stuck s \<longleftrightarrow> sh_main s = MWait \<and> sh_reader s = RWrite"

lemma stuck_step: "stuck s \<Longrightarrow> shell_step tty s s' \<Longrightarrow> stuck s'"
  by (erule shell_stepE) (auto simp: stuck_def)

lemma stuck_forever: "shell_reach tty s s' \<Longrightarrow> stuck s \<Longrightarrow> stuck s'"
  unfolding shell_reach_def by (induction rule: rtranclp_induct) (auto intro: stuck_step)

lemma hang_reachable: "\<exists>s. shell_reach tty (shell_start True) s \<and> stuck s"
proof -
  let ?s0 = "shell_start True"
  let ?s1 = "?s0\<lparr>sh_main := MReply\<rparr>"
  let ?s2 = "?s1\<lparr>sh_reader := RWrite\<rparr>"
  let ?s3 = "?s2\<lparr>sh_main := MClose\<rparr>"
  let ?s4 = "?s3\<lparr>sh_main := MWait, sh_open := False\<rparr>"
  have 1: "shell_step tty ?s0 ?s1" by (rule not_ready) (simp add: shell_start_def)
  have 2: "shell_step tty ?s1 ?s2" by (rule read_stdin) (simp_all add: shell_start_def)
  have 3: "shell_step tty ?s2 ?s3" by (rule reply) simp
  have 4: "shell_step tty ?s3 ?s4" by (rule ws_close) simp
  have "(shell_step tty)\<^sup>*\<^sup>* ?s0 ?s4" using 1 2 3 4 by (meson r_into_rtranclp rtranclp_trans)
  then show ?thesis by (intro exI[of _ ?s4]) (simp add: shell_reach_def stuck_def)
qed

text \<open>A shell session can hang for ever: a client that sends input for a service without an active replica, for instance, leaves the
  reader blocked in a pipe nobody reads; the handler waits for the reader before it closes the pipe, and no continuation of the session ends. Closing the
  websocket, which comes before the wait, does not help.
\<close>

theorem shell_session_can_hang:
  "\<exists>s. shell_reach tty (shell_start True) s \<and> (\<forall>s'. shell_reach tty s s' \<longrightarrow> sh_main s' = MWait)"
  using hang_reachable[of tty] stuck_forever by (metis stuck_def)

theorem shell_session_can_hang_witness:
  "\<exists>s. shell_reach True (shell_start True) s \<and> (\<forall>s'. shell_reach True s s' \<longrightarrow> sh_main s' = MWait)"
  using shell_session_can_hang[of True] .

section \<open>Sessions that end\<close>

text \<open>What is left to do when the reader is not blocked and the client sends no more input.\<close>

fun main_rank :: "main_pc \<Rightarrow> nat" where
  "main_rank MStatus = 5" | "main_rank MExec = 4" | "main_rank MReply = 3" | "main_rank MClose = 2" | "main_rank MWait = 1" | "main_rank MDone = 0"

definition shell_rank :: "shell \<Rightarrow> nat" where
  "shell_rank s = 2 * main_rank (sh_main s) + (if sh_ping s = PNone then 0 else 1) + sh_sizes s"

lemma no_input_step:
  "sh_reader s = RExit \<Longrightarrow> shell_step tty s s' \<Longrightarrow> sh_reader s' = RExit \<and> shell_rank s' < shell_rank s"
  by (erule shell_stepE) (auto simp: shell_rank_def)

lemma no_input_progress: "sh_reader s = RExit \<Longrightarrow> sh_main s \<noteq> MDone \<Longrightarrow> \<exists>s'. shell_step tty s s'"
  by (cases "sh_ping s = PNone"; cases "sh_main s") (auto intro: shell_step.intros dest: ping_stops[of s tty])

text \<open>
  A session whose reader is gone, or never ran because the client asked for no input, always ends: every step brings it nearer to the end, and while it has not
  ended there is a step to take.
\<close>

theorem shell_without_input_ends:
  assumes "sh_reader s = RExit"
  shows "(\<forall>s'. shell_reach tty s s' \<longrightarrow> sh_main s' \<noteq> MDone \<longrightarrow> (\<exists>s''. shell_step tty s' s'' \<and> shell_rank s'' < shell_rank s')) \<and>
    (\<exists>s'. shell_reach tty s s' \<and> sh_main s' = MDone)"
proof
  have keep: "sh_reader s' = RExit" if "shell_reach tty s s'" for s'
    using that assms unfolding shell_reach_def by (induction rule: rtranclp_induct) (auto dest: no_input_step)
  show "\<forall>s'. shell_reach tty s s' \<longrightarrow> sh_main s' \<noteq> MDone \<longrightarrow> (\<exists>s''. shell_step tty s' s'' \<and> shell_rank s'' < shell_rank s')"
    using keep no_input_progress no_input_step by blast
  show "\<exists>s'. shell_reach tty s s' \<and> sh_main s' = MDone"
    using assms
  proof (induction "shell_rank s" arbitrary: s rule: less_induct)
    case less
    show ?case
    proof (cases "sh_main s = MDone")
      case True
      then show ?thesis by (auto simp: shell_reach_def)
    next
      case False
      then obtain s1 where s1: "shell_step tty s s1" using no_input_progress[OF less.prems] by blast
      from no_input_step[OF less.prems s1] less.hyps obtain s' where "shell_reach tty s1 s'" "sh_main s' = MDone" by blast
      then show ?thesis using s1 unfolding shell_reach_def by (meson converse_rtranclp_into_rtranclp)
    qed
  qed
qed

theorem shell_without_input_ends_witness: "\<exists>s'. shell_reach True (shell_start False) s' \<and> sh_main s' = MDone"
  using shell_without_input_ends[of "shell_start False" True] by (simp add: shell_start_def)

end
