(* ===== verification/InventoryConfig.thy ===== *)
theory InventoryConfig
  imports Prelude "HOL-Library.Char_ord" "HOL-Library.List_Lexorder"
begin

text \<open>
  The configuration of the inventory operator (\<open>operator/inventory/config.go\<close>): which storage classes the provider
  offers and which nodes and storage classes of nodes it leaves out. The file is YAML, read by a library; the decoder of
  the library and the compiler of regular expressions are arguments, a compiled expression is the predicate
  \<open>MatchString\<close>. The exclusions are filtered by removing elements from a slice while ranging over it, so the
  loops are modelled on the backing array, which a removal shifts in place.
\<close>

section \<open>Removing elements from a slice while ranging over it\<close>

text \<open>
  A slice is its backing array and its length. \<open>remove\<close> (\<open>util.go\<close>) appends the part behind the index to the part before it:
  the array is shifted in place, the slice gets shorter, and an index at or past the length panics.
\<close>

definition slice_remove :: "'a list \<Rightarrow> nat \<Rightarrow> nat \<Rightarrow> ('a list \<times> nat) option" where
  "slice_remove a m s = (if s + 1 \<le> m then Some (take s a @ drop (Suc s) (take m a) @ drop (m - 1) a, m - 1) else None)"

text \<open>
  \<open>for j, x := range s { if P(x) { s = remove(s, j) } }\<close>: the range keeps the length the slice had at the start and reads the array
  as it is at each turn. \<open>k\<close> turns are left, \<open>j\<close> is the index, \<open>a\<close> and \<open>m\<close> are the array and the length of \<open>s\<close>.
\<close>

fun range_remove_from :: "('a \<Rightarrow> bool) \<Rightarrow> nat \<Rightarrow> nat \<Rightarrow> 'a list \<Rightarrow> nat \<Rightarrow> ('a list \<times> nat) option" where
  "range_remove_from P 0 j a m = Some (a, m)"
| "range_remove_from P (Suc k) j a m =
     (if P (a ! j)
      then (case slice_remove a m j of None \<Rightarrow> None | Some (a', m') \<Rightarrow> range_remove_from P k (Suc j) a' m')
      else range_remove_from P k (Suc j) a m)"

definition range_remove :: "('a \<Rightarrow> bool) \<Rightarrow> 'a list \<Rightarrow> 'a list option" where
  "range_remove P xs = map_option (\<lambda>(a, m). take m a) (range_remove_from P (length xs) 0 xs (length xs))"

section \<open>The configuration\<close>

type_synonym regexp = "string \<Rightarrow> bool"

record ExcludeNodeStorage =
  NodeFilter :: regexp
  Classes :: "string list"

record Exclude =
  ex_Nodes :: "regexp list"
  ex_NodeStorage :: "ExcludeNodeStorage list"

text \<open>The version is a value of the version library, \<open>None\<close> the zero value.\<close>

record 'v Config =
  cfg_Version :: "'v option"
  ClusterStorage :: "string list"
  cfg_Exclude :: Exclude
  ResourcePatterns :: "string list"
  dirty :: bool

text \<open>Copying makes new arrays and leaves out the version.\<close>

definition Config_Copy :: "'v Config \<Rightarrow> 'v Config" where
  "Config_Copy cfg = cfg\<lparr>cfg_Version := None, dirty := False\<rparr>"

fun filter_rules :: "string list \<Rightarrow> ExcludeNodeStorage list \<Rightarrow> ExcludeNodeStorage list option" where
  "filter_rules requested [] = Some []"
| "filter_rules requested (r # rs) =
     (case range_remove (\<lambda>c. c \<notin> set requested) (Classes r) of
        None \<Rightarrow> None
      | Some cs \<Rightarrow> map_option ((#) (r\<lparr>Classes := cs\<rparr>)) (filter_rules requested rs))"

definition FilterOutStorageClasses :: "'v Config \<Rightarrow> string list \<Rightarrow> 'v Config option" where
  "FilterOutStorageClasses cfg available =
     (if ClusterStorage cfg = available then Some cfg
      else let requested = sort (remdups (filter (\<lambda>c. c \<in> set available) (ClusterStorage cfg)))
           in case filter_rules requested (ex_NodeStorage (cfg_Exclude cfg)) of
                None \<Rightarrow> None
              | Some rules \<Rightarrow> Some (cfg\<lparr>ClusterStorage := requested, cfg_Exclude := (cfg_Exclude cfg)\<lparr>ex_NodeStorage := rules\<rparr>, dirty := True\<rparr>))"

definition IsNodeExcluded :: "Exclude \<Rightarrow> string \<Rightarrow> bool" where
  "IsNodeExcluded ex name \<longleftrightarrow> (\<exists>r\<in>set (ex_Nodes ex). r name)"

definition IsStorageNodeExcluded :: "Exclude \<Rightarrow> string \<Rightarrow> string \<Rightarrow> bool" where
  "IsStorageNodeExcluded ex name cls \<longleftrightarrow> (\<exists>r\<in>set (ex_NodeStorage ex). \<exists>c\<in>set (Classes r). c = cls \<and> NodeFilter r name)"

definition HasStorageClass :: "'v Config \<Rightarrow> string \<Rightarrow> bool" where
  "HasStorageClass cfg name \<longleftrightarrow> name \<in> set (ClusterStorage cfg)"

fun remove_classes :: "string list \<Rightarrow> string list \<Rightarrow> string list option" where
  "remove_classes [] sc = Some sc"
| "remove_classes (e # es) sc = (case range_remove (\<lambda>c. e = c) sc of None \<Rightarrow> None | Some sc' \<Rightarrow> remove_classes es sc')"

fun apply_rules :: "string \<Rightarrow> ExcludeNodeStorage list \<Rightarrow> string list \<Rightarrow> string list option" where
  "apply_rules name [] sc = Some sc"
| "apply_rules name (r # rs) sc =
     (if \<not> NodeFilter r name then apply_rules name rs sc
      else case remove_classes (Classes r) sc of None \<Rightarrow> None | Some sc' \<Rightarrow> apply_rules name rs sc')"

definition StorageClassesForNode :: "'v Config \<Rightarrow> string \<Rightarrow> string list option" where
  "StorageClassesForNode cfg name = apply_rules name (ex_NodeStorage (cfg_Exclude cfg)) (ClusterStorage cfg)"

section \<open>Reading the file\<close>

datatype config_error = InvalidVersion | UnexpectedField string | DecodeFailed string | EmptyFilter | BadRegexp string | NonExistingClass string
  | ConfigReadFailed string

text \<open>
  What the libraries do: tolerant version numbers, decoding of a YAML value into strings and into the raw
  form of the exclusions (names, and filters with classes), regular expressions, the file and the text of the document.
\<close>

record ('y, 'v) yaml_lib =
  yl_version :: "'y \<Rightarrow> 'v option"
  yl_strings :: "'y \<Rightarrow> string + string list"
  yl_exclude :: "'y \<Rightarrow> string + (string list \<times> (string \<times> string list) list)"
  yl_patterns :: "'y \<Rightarrow> string + string list"
  yl_compile :: "string \<Rightarrow> regexp option"
  yl_document :: "string \<Rightarrow> string + (string \<times> 'y) list"
  yl_file :: "string + string"

definition compile_filter :: "('y, 'v) yaml_lib \<Rightarrow> string \<Rightarrow> config_error + regexp" where
  "compile_filter L e = (if e = [] then Inl EmptyFilter else case yl_compile L e of None \<Rightarrow> Inl (BadRegexp e) | Some r \<Rightarrow> Inr r)"

fun ExcludeRules_UnmarshalYAML :: "('y, 'v) yaml_lib \<Rightarrow> string list \<Rightarrow> config_error + regexp list" where
  "ExcludeRules_UnmarshalYAML L [] = Inr []"
| "ExcludeRules_UnmarshalYAML L (e # es) =
     (case compile_filter L e of
        Inl err \<Rightarrow> Inl err
      | Inr r \<Rightarrow> (case ExcludeRules_UnmarshalYAML L es of Inl err \<Rightarrow> Inl err | Inr rs \<Rightarrow> Inr (r # rs)))"

definition ExcludeNodeStorage_UnmarshalYAML :: "('y, 'v) yaml_lib \<Rightarrow> string \<times> string list \<Rightarrow> config_error + ExcludeNodeStorage" where
  "ExcludeNodeStorage_UnmarshalYAML L t =
     (case compile_filter L (fst t) of Inl err \<Rightarrow> Inl err | Inr r \<Rightarrow> Inr \<lparr>NodeFilter = r, Classes = snd t\<rparr>)"

fun decode_node_storage :: "('y, 'v) yaml_lib \<Rightarrow> (string \<times> string list) list \<Rightarrow> config_error + ExcludeNodeStorage list" where
  "decode_node_storage L [] = Inr []"
| "decode_node_storage L (t # ts) =
     (case ExcludeNodeStorage_UnmarshalYAML L t of
        Inl err \<Rightarrow> Inl err
      | Inr r \<Rightarrow> (case decode_node_storage L ts of Inl err \<Rightarrow> Inl err | Inr rs \<Rightarrow> Inr (r # rs)))"

definition decode_exclude :: "('y, 'v) yaml_lib \<Rightarrow> 'y \<Rightarrow> config_error + Exclude" where
  "decode_exclude L y =
     (case yl_exclude L y of
        Inl e \<Rightarrow> Inl (DecodeFailed e)
      | Inr (names, storage) \<Rightarrow>
          (case ExcludeRules_UnmarshalYAML L names of
             Inl err \<Rightarrow> Inl err
           | Inr rs \<Rightarrow> (case decode_node_storage L storage of
               Inl err \<Rightarrow> Inl err
             | Inr ss \<Rightarrow> Inr \<lparr>ex_Nodes = rs, ex_NodeStorage = ss\<rparr>)))"

definition zero_config :: "'v Config" where
  "zero_config = \<lparr>cfg_Version = None, ClusterStorage = [], cfg_Exclude = \<lparr>ex_Nodes = [], ex_NodeStorage = []\<rparr>, ResourcePatterns = [], dirty = False\<rparr>"

fun config_fields :: "('y, 'v) yaml_lib \<Rightarrow> (string \<times> 'y) list \<Rightarrow> 'v Config \<Rightarrow> config_error + 'v Config" where
  "config_fields L [] res = Inr res"
| "config_fields L ((k, y) # fs) res =
     (if k = ''version'' then (case yl_version L y of None \<Rightarrow> Inl InvalidVersion | Some v \<Rightarrow> config_fields L fs (res\<lparr>cfg_Version := Some v\<rparr>))
      else if k = ''cluster_storage'' then (case yl_strings L y of Inl e \<Rightarrow> Inl (DecodeFailed e) | Inr cs \<Rightarrow> config_fields L fs (res\<lparr>ClusterStorage := cs\<rparr>))
      else if k = ''exclude'' then (case decode_exclude L y of Inl e \<Rightarrow> Inl e | Inr ex \<Rightarrow> config_fields L fs (res\<lparr>cfg_Exclude := ex\<rparr>))
      else if k = ''interconnect'' then (case yl_patterns L y of Inl e \<Rightarrow> Inl (DecodeFailed e) | Inr ps \<Rightarrow> config_fields L fs (res\<lparr>ResourcePatterns := ps\<rparr>))
      else Inl (UnexpectedField k))"

text \<open>Every excluded class is one of the configured classes; the class lists are sorted.\<close>

fun check_rules :: "string list \<Rightarrow> ExcludeNodeStorage list \<Rightarrow> config_error + ExcludeNodeStorage list" where
  "check_rules avail [] = Inr []"
| "check_rules avail (r # rs) =
     (case find (\<lambda>c. c \<notin> set avail) (Classes r) of
        Some c \<Rightarrow> Inl (NonExistingClass c)
      | None \<Rightarrow> (case check_rules avail rs of Inl e \<Rightarrow> Inl e | Inr rs' \<Rightarrow> Inr (r\<lparr>Classes := sort (Classes r)\<rparr> # rs')))"

definition Config_UnmarshalYAML :: "('y, 'v) yaml_lib \<Rightarrow> (string \<times> 'y) list \<Rightarrow> config_error + 'v Config" where
  "Config_UnmarshalYAML L fs =
     (case config_fields L fs zero_config of
        Inl e \<Rightarrow> Inl e
      | Inr res \<Rightarrow>
          (case check_rules (ClusterStorage res) (ex_NodeStorage (cfg_Exclude res)) of
             Inl e \<Rightarrow> Inl e
           | Inr rs \<Rightarrow> Inr (res\<lparr>cfg_Exclude := (cfg_Exclude res)\<lparr>ex_NodeStorage := rs\<rparr>, ClusterStorage := sort (ClusterStorage res)\<rparr>)))"

definition yaml_Unmarshal :: "('y, 'v) yaml_lib \<Rightarrow> string \<Rightarrow> config_error + 'v Config" where
  "yaml_Unmarshal L text = (case yl_document L text of Inl e \<Rightarrow> Inl (DecodeFailed e) | Inr fs \<Rightarrow> Config_UnmarshalYAML L fs)"

text \<open>
  The result of \<open>loadConfig\<close>: the error, and the configuration that goes with it, which is the default one when the caller
  asks for that. A value that ends in yaml stands for the file of the flag; \<open>dflt\<close> is the text of \<open>defaultConfig\<close>.
\<close>

definition loadConfig :: "('y, 'v) yaml_lib \<Rightarrow> string \<Rightarrow> string \<Rightarrow> bool \<Rightarrow> config_error option \<times> 'v Config" where
  "loadConfig L dflt cfg defaultOnErr =
     (let data = (if cfg = [] then Inr dflt else if has_suffix cfg ''yaml'' then yl_file L else Inr cfg);
          result = (case data of Inl e \<Rightarrow> Inl (ConfigReadFailed e) | Inr d \<Rightarrow> yaml_Unmarshal L d)
      in case result of
           Inr res \<Rightarrow> (None, res)
         | Inl e \<Rightarrow> (Some e, if defaultOnErr then (case yaml_Unmarshal L dflt of Inl _ \<Rightarrow> zero_config | Inr d \<Rightarrow> d) else zero_config))"

section \<open>What the removal does\<close>

lemma slice_remove_nth:
  assumes "slice_remove a m s = Some (a', m')" "m \<le> length a" "i < length a"
  shows "a' ! i = (if i < s then a ! i else if i < m - 1 then a ! Suc i else a ! i)"
proof -
  have sm: "s + 1 \<le> m" and a': "a' = take s a @ drop (Suc s) (take m a) @ drop (m - 1) a"
    using assms(1) by (auto simp: slice_remove_def split: if_splits)
  have l1: "length (take s a) = s" "length (drop (Suc s) (take m a)) = m - 1 - s" using sm assms(2) by simp_all
  consider "i < s" | "s \<le> i" "i < m - 1" | "m - 1 \<le> i" "s \<le> i" using sm by linarith
  then show ?thesis
  proof cases
    case 2
    then have "i - s < m - 1 - s" by linarith
    then show ?thesis using 2 l1 sm assms(2) by (simp add: a' nth_append)
  next
    case 3
    then have "i - s - (m - 1 - s) = i - (m - 1)" "\<not> i - s < m - 1 - s" using sm by linarith+
    then show ?thesis using 3 l1 sm assms(2,3) by (simp add: a' nth_append)
  qed (use l1 in \<open>simp add: a' nth_append\<close>)
qed

lemma slice_remove_length: "slice_remove a m s = Some (a', m') \<Longrightarrow> m \<le> length a \<Longrightarrow> length a' = length a \<and> m' = m - 1 \<and> s < m"
  by (auto simp: slice_remove_def split: if_splits)

lemma slice_remove_take:
  assumes "slice_remove a m s = Some (a', m')" "m \<le> length a"
  shows "take m' a' = take s (take m a) @ drop (Suc s) (take m a)"
proof -
  have sm: "Suc s \<le> m" and a': "a' = take s a @ drop (Suc s) (take m a) @ drop (m - 1) a" "m' = m - 1"
    using assms(1) by (auto simp: slice_remove_def split: if_splits)
  have l: "length (take s a @ drop (Suc s) (take m a)) = m - 1" using sm assms(2) by simp
  have "take m' a' = take s a @ drop (Suc s) (take m a)"
    unfolding a' append_assoc[symmetric] using l by (metis append_eq_conv_conj)
  then show ?thesis using sm by (simp add: min_def)
qed

lemma range_remove_from_add:
  "range_remove_from P (k + l) j a m =
     (case range_remove_from P k j a m of None \<Rightarrow> None | Some (a', m') \<Rightarrow> range_remove_from P l (j + k) a' m')"
  by (induction k arbitrary: j a m) (auto split: option.splits)

lemma range_remove_from_none: "(\<forall>i. j \<le> i \<and> i < j + k \<longrightarrow> \<not> P (a ! i)) \<Longrightarrow> range_remove_from P k j a m = Some (a, m)"
  by (induction k arbitrary: j) auto

text \<open>Up to the first match nothing happens.\<close>

lemma range_remove_first:
  assumes "xs = ys @ x # zs" "P x" "\<forall>y\<in>set ys. \<not> P y"
  shows "range_remove_from P (length xs) 0 xs (length xs) =
     range_remove_from P (length zs) (Suc (length ys)) (ys @ zs @ [last (x # zs)]) (length xs - 1)"
proof -
  have "range_remove_from P (length ys) 0 xs (length xs) = Some (xs, length xs)"
    using assms by (intro range_remove_from_none) (auto simp: nth_append)
  moreover have "drop (length ys + length zs) xs = [last (x # zs)]"
    using assms(1) by (cases zs rule: rev_cases) simp_all
  then have "slice_remove xs (length xs) (length ys) = Some (ys @ zs @ [last (x # zs)], length xs - 1)"
    using assms(1) by (simp add: slice_remove_def)
  ultimately show ?thesis
    using assms(1,2) range_remove_from_add[of P "length ys" "Suc (length zs)" 0 xs "length xs"] by (simp add: nth_append)
qed

theorem range_remove_single:
  assumes "length (filter P xs) \<le> 1"
  shows "range_remove P xs = Some (filter (\<lambda>x. \<not> P x) xs)"
proof (cases "filter P xs")
  case Nil
  then have "range_remove_from P (length xs) 0 xs (length xs) = Some (xs, length xs)"
    by (intro range_remove_from_none) (auto simp: filter_empty_conv)
  then show ?thesis using Nil by (simp add: range_remove_def filter_empty_conv)
next
  case (Cons x rest)
  from filter_eq_ConsD[OF Cons] obtain ys zs where xs: "xs = ys @ x # zs" "\<forall>u\<in>set ys. \<not> P u" "P x" "rest = filter P zs" by blast
  have zs: "\<forall>u\<in>set zs. \<not> P u" using assms Cons xs(4) by (auto simp: filter_empty_conv)
  let ?a = "ys @ zs @ [last (x # zs)]"
  have "\<not> P (?a ! i)" if i: "Suc (length ys) \<le> i" "i < Suc (length ys) + length zs" for i
  proof -
    have "zs \<noteq> []" "?a ! i = (zs @ [last zs]) ! (i - length ys)" "i - length ys < Suc (length zs)" using i by (auto simp: nth_append)
    then have "?a ! i \<in> set zs" by (auto simp: nth_append)
    then show ?thesis using zs by blast
  qed
  then have "range_remove_from P (length zs) (Suc (length ys)) ?a (length xs - 1) = Some (?a, length xs - 1)"
    by (intro range_remove_from_none) auto
  then show ?thesis
    using range_remove_first[OF xs(1,3,2)] xs zs by (simp add: range_remove_def filter_id_conv[THEN iffD2])
qed

text \<open>A removal that has shifted the array meets the last element again at the old end, where it cannot be removed.\<close>

lemma range_remove_stale_end:
  assumes "j + k = length a" "0 < k" "m < length a" "P (a ! (length a - 1))"
  shows "range_remove_from P k j a m = None"
  using assms
proof (induction k arbitrary: j a m)
  case (Suc k)
  show ?case
  proof (cases "P (a ! j)")
    case True
    show ?thesis
    proof (cases "slice_remove a m j")
      case (Some am)
      obtain a' m' where am: "am = (a', m')" by fastforce
      note rem = Some[unfolded am]
      have l: "length a' = length a" "m' = m - 1" "j < m" using slice_remove_length[OF rem] Suc.prems(3) by simp_all
      have "a' ! (length a - 1) = a ! (length a - 1)"
        using slice_remove_nth[OF rem, of "length a - 1"] Suc.prems(3) l(3) by (auto dest: diff_less_mono2)
      moreover have "0 < k" using Suc.prems(1,3) l(3) by linarith
      ultimately have "range_remove_from P k (Suc j) a' m' = None"
        using Suc.IH[of "Suc j" a' m'] Suc.prems l by simp
      then show ?thesis using True rem by simp
    qed (use True in simp)
  next
    case False
    have "j = length a - 1" if "k = 0" using Suc.prems(1) that by simp
    then have "0 < k" using Suc.prems(4) False by blast
    then show ?thesis using Suc.IH[of "Suc j" a m] Suc.prems False by simp
  qed
qed simp

lemma range_remove_keeps_end:
  assumes "j + k \<le> length a" "m \<le> length a" "0 < m" "\<forall>i. m - 1 \<le> i \<and> i < length a \<longrightarrow> a ! i = z" "\<not> P z"
  shows "range_remove_from P k j a m \<noteq> None"
  using assms
proof (induction k arbitrary: j a m)
  case (Suc k)
  show ?case
  proof (cases "P (a ! j)")
    case True
    then have jm: "j < m - 1" using Suc.prems by (metis add_Suc_right linorder_not_le less_iff_Suc_add le_add1 order_less_le_trans)
    then have "\<exists>a'. slice_remove a m j = Some (a', m - 1)" by (simp add: slice_remove_def)
    then obtain a' where rem: "slice_remove a m j = Some (a', m - 1)" by blast
    have l: "length a' = length a" using slice_remove_length[OF rem] Suc.prems(2) by simp
    have "a' ! i = z" if "m - 1 - 1 \<le> i" "i < length a'" for i
    proof -
      have "m - 1 \<le> Suc i" using that(1) by linarith
      then show ?thesis using slice_remove_nth[OF rem, of i] Suc.prems(2,4) that l jm by (auto simp: not_less)
    qed
    then show ?thesis using Suc.IH[of "Suc j" a' "m - 1"] Suc.prems True rem l jm by simp
  next
    case False
    then show ?thesis using Suc.IH[of "Suc j" a m] Suc.prems by simp
  qed
qed simp

theorem range_remove_panics_iff:
  "range_remove P xs = None \<longleftrightarrow> xs \<noteq> [] \<and> P (last xs) \<and> (\<exists>x\<in>set (butlast xs). P x)"
proof (cases xs rule: rev_cases)
  case (snoc bs z)
  consider "\<not> P z" | "P z" "\<forall>x\<in>set bs. \<not> P x" | "P z" "\<exists>x\<in>set bs. P x" by blast
  then show ?thesis
  proof cases
    case 1
    have "\<forall>i. length xs - 1 \<le> i \<and> i < length xs \<longrightarrow> xs ! i = z" using snoc by (auto simp: nth_append)
    then have "range_remove_from P (length xs) 0 xs (length xs) \<noteq> None"
      using snoc 1 by (intro range_remove_keeps_end[of _ _ _ _ z]) simp_all
    then show ?thesis using snoc 1 by (auto simp: range_remove_def)
  next
    case 2
    then have "filter P xs = [z]" using snoc by (simp add: filter_empty_conv)
    then show ?thesis using range_remove_single[of P xs] snoc 2 by simp
  next
    case 3
    then obtain ys x us where bs: "bs = ys @ x # us" "P x" "\<forall>y\<in>set ys. \<not> P y" using split_list_first_prop by metis
    then have xs: "xs = ys @ x # (us @ [z])" using snoc by simp
    let ?a = "ys @ (us @ [z]) @ [z]"
    have "range_remove_from P (length (us @ [z])) (Suc (length ys)) ?a (length xs - 1) = None"
      using xs 3(1) by (intro range_remove_stale_end) (simp_all add: nth_append)
    then have "range_remove_from P (length xs) 0 xs (length xs) = None"
      using range_remove_first[OF xs bs(2,3)] by simp
    then have "range_remove P xs = None" by (simp add: range_remove_def)
    moreover have "butlast xs = bs" "last xs = z" "xs \<noteq> []" using snoc by simp_all
    ultimately show ?thesis using 3 by blast
  qed
qed (simp add: range_remove_def)

text \<open>What is left when there is no panic: every element that was to stay, and nothing new.\<close>

lemma set_remove_nth: "j < length xs \<Longrightarrow> set xs = insert (xs ! j) (set (take j xs @ drop (Suc j) xs))"
  by (metis id_take_nth_drop set_append list.set(2) Un_insert_right)

lemma range_remove_from_set:
  assumes "range_remove_from P k j a m = Some (a', m')" "m \<le> length a"
  shows "set (take m' a') \<subseteq> set (take m a)" "x \<in> set (take m a) \<Longrightarrow> \<not> P x \<Longrightarrow> x \<in> set (take m' a')"
proof -
  have "m' \<le> length a' \<and> set (take m' a') \<subseteq> set (take m a) \<and> (\<forall>x\<in>set (take m a). \<not> P x \<longrightarrow> x \<in> set (take m' a'))"
    using assms
  proof (induction k arbitrary: j a m)
    case (Suc k)
    show ?case
    proof (cases "P (a ! j)")
      case True
      then obtain b n where rem: "slice_remove a m j = Some (b, n)" and rest: "range_remove_from P k (Suc j) b n = Some (a', m')"
        using Suc.prems(1) by (auto split: option.splits)
      have l: "length b = length a" "n = m - 1" "j < m" using slice_remove_length[OF rem Suc.prems(2)] by simp_all
      have eq: "set (take m a) = insert (a ! j) (set (take n b))"
        using set_remove_nth[of j "take m a"] slice_remove_take[OF rem Suc.prems(2)] l(3) Suc.prems(2) by simp
      have "n \<le> length b" using l Suc.prems(2) by simp
      then show ?thesis unfolding eq using Suc.IH[OF rest] True by blast
    next
      case False
      then show ?thesis using Suc.IH[of "Suc j" a m] Suc.prems by simp
    qed
  qed simp
  then show "set (take m' a') \<subseteq> set (take m a)" "x \<in> set (take m a) \<Longrightarrow> \<not> P x \<Longrightarrow> x \<in> set (take m' a')" by blast+
qed

lemma range_remove_set:
  assumes "range_remove P xs = Some ys"
  shows "set ys \<subseteq> set xs" "x \<in> set xs \<Longrightarrow> \<not> P x \<Longrightarrow> x \<in> set ys"
proof -
  obtain a m where r: "range_remove_from P (length xs) 0 xs (length xs) = Some (a, m)" "ys = take m a"
    using assms by (auto simp: range_remove_def)
  show "set ys \<subseteq> set xs" "x \<in> set xs \<Longrightarrow> \<not> P x \<Longrightarrow> x \<in> set ys" using range_remove_from_set[OF r(1)] r(2) by simp_all
qed

section \<open>The classes of a node\<close>

lemma filter_eq_distinct: "distinct sc \<Longrightarrow> length (filter ((=) e) sc) \<le> 1"
  by (induction sc) (auto simp: filter_empty_conv)

lemma remove_classes_distinct: "distinct sc \<Longrightarrow> remove_classes es sc = Some (filter (\<lambda>c. c \<notin> set es) sc)"
proof (induction es arbitrary: sc)
  case (Cons e es)
  have "range_remove ((=) e) sc = Some (filter (\<lambda>c. e \<noteq> c) sc)"
    by (rule range_remove_single[OF filter_eq_distinct[OF Cons.prems]])
  then show ?case using Cons by (simp add: conj_commute eq_commute)
qed simp

lemma apply_rules_distinct:
  "distinct sc \<Longrightarrow> apply_rules name rs sc = Some (filter (\<lambda>c. \<not> (\<exists>r\<in>set rs. c \<in> set (Classes r) \<and> NodeFilter r name)) sc)"
proof (induction rs arbitrary: sc)
  case (Cons r rs)
  then show ?case by (auto simp: remove_classes_distinct conj_commute intro!: filter_cong)
qed simp

text \<open>
  The two ways in which the configuration answers whether a node has a storage class agree: the classes of a node are the
  configured ones, in their order, that are not excluded on the node.
\<close>

lemma node_classes_exact:
  assumes "distinct (ClusterStorage cfg)"
  shows "StorageClassesForNode cfg name = Some (filter (\<lambda>c. \<not> IsStorageNodeExcluded (cfg_Exclude cfg) name c) (ClusterStorage cfg))"
  using apply_rules_distinct[OF assms] by (simp add: StorageClassesForNode_def IsStorageNodeExcluded_def Bex_def conj_commute)

lemma filter_rules_members:
  assumes "filter_rules req rs = Some rs'" "c \<in> set req"
  shows "(\<exists>r\<in>set rs'. c \<in> set (Classes r) \<and> NodeFilter r name) \<longleftrightarrow> (\<exists>r\<in>set rs. c \<in> set (Classes r) \<and> NodeFilter r name)"
  using assms(1)
proof (induction rs arbitrary: rs')
  case (Cons r rs)
  then obtain cs rs'' where s: "range_remove (\<lambda>c. c \<notin> set req) (Classes r) = Some cs" "filter_rules req rs = Some rs''" "rs' = r\<lparr>Classes := cs\<rparr> # rs''"
    by (auto split: option.splits)
  have "c \<in> set cs \<longleftrightarrow> c \<in> set (Classes r)" using range_remove_set[OF s(1)] assms(2) by blast
  then show ?case using Cons.IH[OF s(2)] s(3) by simp
qed simp

lemma filter_rules_panics_iff:
  "filter_rules req rs = None \<longleftrightarrow>
     (\<exists>r\<in>set rs. Classes r \<noteq> [] \<and> last (Classes r) \<notin> set req \<and> (\<exists>c\<in>set (butlast (Classes r)). c \<notin> set req))"
proof (induction rs)
  case (Cons r rs)
  have "filter_rules req (r # rs) = None \<longleftrightarrow> range_remove (\<lambda>c. c \<notin> set req) (Classes r) = None \<or> filter_rules req rs = None"
    by (simp split: option.split)
  then show ?case unfolding Cons.IH range_remove_panics_iff by simp
qed simp

text \<open>A configuration that was read names only configured classes in its exclusions.\<close>

lemma check_rules_ok:
  "check_rules avail rs = Inr rs' \<Longrightarrow> r \<in> set rs' \<Longrightarrow> set (Classes r) \<subseteq> set avail \<and> sorted (Classes r)"
proof (induction rs arbitrary: rs')
  case (Cons a rs)
  then obtain rs'' where "check_rules avail rs = Inr rs''" "rs' = a\<lparr>Classes := sort (Classes a)\<rparr> # rs''" "\<forall>c\<in>set (Classes a). c \<in> set avail"
    by (auto simp: find_None_iff split: option.splits sum.splits)
  then show ?case using Cons.IH[of rs''] Cons.prems(2) by auto
qed simp

theorem read_config_consistent:
  assumes "Config_UnmarshalYAML L fs = Inr cfg" "r \<in> set (ex_NodeStorage (cfg_Exclude cfg))"
  shows "set (Classes r) \<subseteq> set (ClusterStorage cfg)" "sorted (Classes r)" "sorted (ClusterStorage cfg)"
  using assms check_rules_ok by (fastforce simp: Config_UnmarshalYAML_def split: sum.splits)+

text \<open>C23: A node is offered exactly the storage classes that are configured, present in the cluster and not excluded for the node:
  from a configuration that was read and the sorted names of the classes the cluster has, the classes computed for a node are
  sorted, without repetition, and are the configured and present classes for which no exclusion rule matches the node.
\<close>

theorem offered_classes_exact:
  assumes "Config_UnmarshalYAML L fs = Inr cfg" "distinct available"
    and "FilterOutStorageClasses (Config_Copy cfg) available = Some adj" "StorageClassesForNode adj name = Some sc"
  shows "distinct sc \<and> sorted sc \<and>
    set sc = {c. HasStorageClass cfg c \<and> c \<in> set available \<and> \<not> IsStorageNodeExcluded (cfg_Exclude cfg) name c}"
proof -
  let ?req = "sort (remdups (filter (\<lambda>c. c \<in> set available) (ClusterStorage cfg)))"
  let ?ex = "IsStorageNodeExcluded (cfg_Exclude cfg) name"
  have cs: "sorted (ClusterStorage cfg)" using assms(1) by (auto simp: Config_UnmarshalYAML_def split: sum.splits)
  have "distinct (ClusterStorage adj) \<and> sorted (ClusterStorage adj) \<and> set (ClusterStorage adj) = set (ClusterStorage cfg) \<inter> set available \<and>
    (\<forall>c\<in>set (ClusterStorage adj). IsStorageNodeExcluded (cfg_Exclude adj) name c \<longleftrightarrow> ?ex c)"
  proof (cases "ClusterStorage cfg = available")
    case True
    then show ?thesis using assms(2,3) cs by (auto simp: FilterOutStorageClasses_def Config_Copy_def)
  next
    case False
    then obtain rs where rs: "filter_rules ?req (ex_NodeStorage (cfg_Exclude cfg)) = Some rs" "ClusterStorage adj = ?req" "ex_NodeStorage (cfg_Exclude adj) = rs"
      using assms(3) by (auto simp: FilterOutStorageClasses_def Config_Copy_def Let_def split: option.splits)
    then show ?thesis using filter_rules_members[OF rs(1), of _ name] by (auto simp: IsStorageNodeExcluded_def)
  qed
  moreover then have "sc = filter (\<lambda>c. \<not> IsStorageNodeExcluded (cfg_Exclude adj) name c) (ClusterStorage adj)"
    using node_classes_exact[of adj name] assms(4) by simp
  ultimately show ?thesis by (auto simp: HasStorageClass_def sorted_filter[of id, simplified] intro: sorted_wrt_filter)
qed

text \<open>C40: Two unavailable classes stop the operator: the exclusions are filtered by removing classes from the slice while ranging over
  it. For a configuration that was read, the filter panics exactly when some rule excludes a class list whose last class the
  cluster does not have and whose earlier classes include another one it does not have; in every other case it succeeds.
\<close>

theorem exclusions_filter_panics:
  assumes "Config_UnmarshalYAML L fs = Inr cfg"
  shows "FilterOutStorageClasses (Config_Copy cfg) available = None \<longleftrightarrow>
    (\<exists>r\<in>set (ex_NodeStorage (cfg_Exclude cfg)).
       Classes r \<noteq> [] \<and> last (Classes r) \<notin> set available \<and> (\<exists>c\<in>set (butlast (Classes r)). c \<notin> set available))"
    (is "_ \<longleftrightarrow> (\<exists>r\<in>_. ?bad r)")
proof -
  let ?req = "sort (remdups (filter (\<lambda>c. c \<in> set available) (ClusterStorage cfg)))"
  have sub: "set (Classes r) \<subseteq> set (ClusterStorage cfg)" if "r \<in> set (ex_NodeStorage (cfg_Exclude cfg))" for r
    using read_config_consistent(1)[OF assms that] .
  have req: "c \<in> set ?req \<longleftrightarrow> c \<in> set available" if "c \<in> set (ClusterStorage cfg)" for c using that by simp
  have "?bad r \<longleftrightarrow> Classes r \<noteq> [] \<and> last (Classes r) \<notin> set ?req \<and> (\<exists>c\<in>set (butlast (Classes r)). c \<notin> set ?req)"
    if r: "r \<in> set (ex_NodeStorage (cfg_Exclude cfg))" for r
    using sub[OF r] req by (meson in_set_butlastD last_in_set subsetD)
  moreover have "\<not> ?bad r" if "r \<in> set (ex_NodeStorage (cfg_Exclude cfg))" "ClusterStorage cfg = available" for r
    using sub[OF that(1)] that(2) by (meson last_in_set subsetD)
  ultimately show ?thesis
    using filter_rules_panics_iff[of ?req "ex_NodeStorage (cfg_Exclude cfg)"]
    by (auto simp: FilterOutStorageClasses_def Config_Copy_def Let_def split: option.split simp del: set_sort set_remdups set_filter)
qed

text \<open>Two local-storage classes, both left out on every node.\<close>

definition ex_yaml :: "(unit, nat) yaml_lib" where
  "ex_yaml = \<lparr>yl_version = (\<lambda>_. Some 1), yl_strings = (\<lambda>_. Inr [''beta2'', ''beta3'']),
     yl_exclude = (\<lambda>_. Inr ([], [(''node'', [''beta2'', ''beta3''])])), yl_patterns = (\<lambda>_. Inr []),
     yl_compile = (\<lambda>e. Some (\<lambda>n. has_prefix n e)), yl_document = (\<lambda>_. Inr []), yl_file = Inr []\<rparr>"

definition ex_fields :: "(string \<times> unit) list" where
  "ex_fields = [(''cluster_storage'', ()), (''exclude'', ())]"

definition ex_cfg :: "nat Config" where
  "ex_cfg = zero_config\<lparr>ClusterStorage := [''beta2'', ''beta3''],
     cfg_Exclude := \<lparr>ex_Nodes = [], ex_NodeStorage = [\<lparr>NodeFilter = (\<lambda>n. has_prefix n ''node''), Classes = [''beta2'', ''beta3'']\<rparr>]\<rparr>\<rparr>"

lemma ex_cfg_read: "Config_UnmarshalYAML ex_yaml ex_fields = Inr ex_cfg"
  by (simp add: Config_UnmarshalYAML_def ex_yaml_def ex_fields_def ex_cfg_def zero_config_def decode_exclude_def compile_filter_def
      ExcludeNodeStorage_UnmarshalYAML_def)

theorem exclusions_filter_panics_witness: "FilterOutStorageClasses (Config_Copy ex_cfg) [''default''] = None"
  using exclusions_filter_panics[OF ex_cfg_read, of "[''default'']"] by (simp add: ex_cfg_def)

theorem offered_classes_exact_witness:
  "\<exists>adj sc. FilterOutStorageClasses (Config_Copy ex_cfg) [''beta3''] = Some adj \<and> StorageClassesForNode adj ''gpu1'' = Some sc \<and> set sc = {''beta3''}"
proof -
  obtain adj where adj: "FilterOutStorageClasses (Config_Copy ex_cfg) [''beta3''] = Some adj" "ClusterStorage adj = [''beta3'']"
    by (simp add: FilterOutStorageClasses_def Config_Copy_def ex_cfg_def range_remove_def slice_remove_def zero_config_def Let_def)
  obtain sc where sc: "StorageClassesForNode adj ''gpu1'' = Some sc" using node_classes_exact[of adj "''gpu1''"] adj(2) by simp
  have "\<not> has_prefix ''gpu1'' ''node''" by (simp add: has_prefix_def)
  with offered_classes_exact[OF ex_cfg_read _ adj(1) sc] adj sc show ?thesis
    by (auto simp: HasStorageClass_def IsStorageNodeExcluded_def ex_cfg_def)
qed

end
