(* ===== verification/NodeHardware.thy ===== *)
theory NodeHardware
  imports Resources InventoryConfig Json
begin

text \<open>
  What the inventory operator learns of a node (\<open>operator/inventory/node-discovery.go\<close>, \<open>infiniband.go\<close>): the resources
  Kubernetes reports for it, the fabric and the families of its host channel adapters, the extended resource of its
  interconnect, found by glob patterns, its processors and its GPUs from two scans of the hardware. The answers of the
  discovery pod and the contents of sysfs are arguments. Quantities are integers in nano-units; a Kubernetes resource
  list is a map that the code walks in its unspecified order, so it is a list of pairs in the order of the walk.
\<close>

section \<open>Host channel adapters\<close>

record IBDiscovery =
  NCCLIBHCAPrefixes :: "string list"
  Fabric :: string

definition no_ib :: IBDiscovery where
  "no_ib = \<lparr>NCCLIBHCAPrefixes = [], Fabric = []\<rparr>"

definition is_dec :: "char \<Rightarrow> bool" where
  "is_dec c \<longleftrightarrow> CHR ''0'' \<le> c \<and> c \<le> CHR ''9''"

text \<open>The trailing digits go, and one underscore before them.\<close>

definition familyPrefix :: "string \<Rightarrow> string" where
  "familyPrefix s =
     (let stem = rev (dropWhile is_dec (rev s))
      in if stem = s then s
         else if stem \<noteq> [] \<and> last stem = CHR ''_'' then butlast stem else stem)"

fun hca_loop :: "string set \<Rightarrow> string list \<Rightarrow> string list" where
  "hca_loop seen [] = []"
| "hca_loop seen (n # ns) =
     (let p = familyPrefix n
      in if p = [] \<or> p \<in> seen then hca_loop seen ns else p # hca_loop (insert p seen) ns)"

definition nccLHCAPrefixesOf :: "string list \<Rightarrow> string list" where
  "nccLHCAPrefixesOf names = hca_loop {} names"

definition fabricInfiniband :: string where "fabricInfiniband = ''infiniband''"
definition fabricRoCE :: string where "fabricRoCE = ''roce''"

text \<open>\<open>link_layer\<close> is the file of port 1 of a device, \<open>None\<close> when it cannot be read.\<close>

definition fabricOfFirstHCA :: "(string \<Rightarrow> string option) \<Rightarrow> string list \<Rightarrow> string" where
  "fabricOfFirstHCA link_layer names =
     (case names of
        [] \<Rightarrow> []
      | n # _ \<Rightarrow> (case link_layer n of
          None \<Rightarrow> []
        | Some raw \<Rightarrow>
            (let layer = trim_space (to_lower raw)
             in if layer = fabricInfiniband then fabricInfiniband else if layer = ''ethernet'' then fabricRoCE else [])))"

text \<open>\<open>entries\<close> is the listing of the directory, \<open>None\<close> when it cannot be read.\<close>

definition discoverInfinibandAt :: "string list option \<Rightarrow> (string \<Rightarrow> string option) \<Rightarrow> IBDiscovery" where
  "discoverInfinibandAt entries link_layer =
     (case entries of
        None \<Rightarrow> no_ib
      | Some names \<Rightarrow> if names = [] then no_ib
          else \<lparr>NCCLIBHCAPrefixes = nccLHCAPrefixesOf names, Fabric = fabricOfFirstHCA link_layer names\<rparr>)"

definition parseIBInfo :: "IBDiscovery option \<Rightarrow> IBDiscovery" where
  "parseIBInfo answer = (case answer of None \<Rightarrow> no_ib | Some ib \<Rightarrow> ib)"

section \<open>Glob patterns\<close>

text \<open>
  \<open>filepath.Match\<close> on a system with the separator slash, character by character. A pattern is cut into chunks at the stars outside of
  brackets; a chunk has to match at the current position or, after a star, at the first later position that is reached without
  passing a separator. There is no backtracking over an earlier star.
\<close>

fun chunk_end :: "bool \<Rightarrow> string \<Rightarrow> string \<times> string" where
  "chunk_end inrange [] = ([], [])"
| "chunk_end inrange (c # cs) =
     (if c = CHR 0x5C then (case cs of [] \<Rightarrow> ([c], []) | d # ds \<Rightarrow> (case chunk_end inrange ds of (a, b) \<Rightarrow> (c # d # a, b)))
      else if c = CHR ''*'' \<and> \<not> inrange then ([], c # cs)
      else (case chunk_end (if c = CHR ''['' then True else if c = CHR '']'' then False else inrange) cs of (a, b) \<Rightarrow> (c # a, b)))"

definition scanChunk :: "string \<Rightarrow> bool \<times> string \<times> string" where
  "scanChunk pattern = (let p = dropWhile ((=) (CHR ''*'')) pattern in (p \<noteq> pattern, chunk_end False p))"

text \<open>One character of a class, possibly escaped; the class cannot end behind it.\<close>

fun getEsc :: "string \<Rightarrow> (char \<times> string) option" where
  "getEsc [] = None"
| "getEsc (c # cs) =
     (if c = CHR ''-'' \<or> c = CHR '']'' then None
      else if c = CHR 0x5C then (case cs of d # e # es \<Rightarrow> Some (d, e # es) | _ \<Rightarrow> None)
      else (if cs = [] then None else Some (c, cs)))"

lemma getEsc_shorter: "getEsc cs = Some (c, cs') \<Longrightarrow> length cs' < length cs"
  by (cases cs) (auto split: if_splits list.splits)

text \<open>The ranges of a class: whether one matches, and what follows the class.\<close>

function class_ranges :: "string \<Rightarrow> bool \<Rightarrow> bool \<Rightarrow> char \<Rightarrow> (bool \<times> string) option" where
  "class_ranges cs some matched r =
     (if some \<and> cs \<noteq> [] \<and> hd cs = CHR '']'' then Some (matched, tl cs)
      else case getEsc cs of
             None \<Rightarrow> None
           | Some (lo, cs1) \<Rightarrow>
               (if hd cs1 = CHR ''-''
                then (case getEsc (tl cs1) of
                        None \<Rightarrow> None
                      | Some (hi, cs2) \<Rightarrow> class_ranges cs2 True (matched \<or> (lo \<le> r \<and> r \<le> hi)) r)
                else class_ranges cs1 True (matched \<or> r = lo) r))"
  by auto
termination
proof (relation "measure (\<lambda>(cs, _). length cs)", goal_cases)
  case (2 cs some matched r p lo cs1 q hi cs2)
  then show ?case using getEsc_shorter[of cs lo cs1] getEsc_shorter[of "tl cs1" hi cs2] by simp
next
  case (3 cs some matched r p lo cs1)
  then show ?case using getEsc_shorter[of cs lo cs1] by simp
qed simp

declare class_ranges.simps [simp del]

lemma class_ranges_shorter: "class_ranges cs some matched r = Some (m, cs') \<Longrightarrow> length cs' < length cs"
proof (induction cs some matched r rule: class_ranges.induct)
  case (1 cs some matched r)
  show ?case
  proof (cases "some \<and> cs \<noteq> [] \<and> hd cs = CHR '']''")
    case False
    then obtain lo cs1 where lo: "getEsc cs = Some (lo, cs1)"
      using 1(3) by (subst (asm) class_ranges.simps) (auto split: option.splits)
    note short = getEsc_shorter[OF lo]
    show ?thesis
    proof (cases "hd cs1 = CHR ''-''")
      case True
      then obtain hi cs2 where hi: "getEsc (tl cs1) = Some (hi, cs2)" "class_ranges cs2 True (matched \<or> (lo \<le> r \<and> r \<le> hi)) r = Some (m, cs')"
        using 1(3) False lo by (subst (asm) class_ranges.simps) (auto split: option.splits)
      have "length cs' < length cs2" by (rule 1(1)[OF False lo _ True hi(1) _ hi(2)]) simp_all
      then show ?thesis using short getEsc_shorter[OF hi(1)] by simp
    next
      case neg: False
      then have rest: "class_ranges cs1 True (matched \<or> r = lo) r = Some (m, cs')"
        using 1(3) False lo by (subst (asm) class_ranges.simps) auto
      have "length cs' < length cs1" by (rule 1(2)[OF False lo _ neg rest]) simp
      then show ?thesis using short by simp
    qed
  qed (use 1(3) in \<open>subst (asm) class_ranges.simps, auto simp: neq_Nil_conv\<close>)
qed

datatype chunk_match = BadPattern | NoMatch | Rest string

text \<open>The rest of the name is \<open>None\<close> once the match has failed; the chunk is still read to its end, to find a bad pattern.\<close>

function matchChunk :: "string \<Rightarrow> string option \<Rightarrow> chunk_match" where
  "matchChunk [] s = (case s of None \<Rightarrow> NoMatch | Some t \<Rightarrow> Rest t)"
| "matchChunk (c # cs) s =
     (let s = (if s = Some [] then None else s)
      in if c = CHR ''['' then
           (let negated = (cs \<noteq> [] \<and> hd cs = CHR ''^'');
                body = (if negated then tl cs else cs)
            in case class_ranges body False False (case s of None \<Rightarrow> CHR 0x00 | Some t \<Rightarrow> hd t) of
                 None \<Rightarrow> BadPattern
               | Some (m, cs') \<Rightarrow> matchChunk cs' (if m = negated then None else map_option tl s))
         else if c = CHR ''?'' then
           matchChunk cs (case s of None \<Rightarrow> None | Some t \<Rightarrow> if hd t = CHR ''/'' then None else Some (tl t))
         else if c = CHR 0x5C then
           (case cs of [] \<Rightarrow> BadPattern
            | d # ds \<Rightarrow> matchChunk ds (case s of None \<Rightarrow> None | Some t \<Rightarrow> if d = hd t then Some (tl t) else None))
         else matchChunk cs (case s of None \<Rightarrow> None | Some t \<Rightarrow> if c = hd t then Some (tl t) else None))"
  by pat_completeness auto
termination
  by (relation "measure (\<lambda>(cs, _). length cs)") (auto simp: Let_def dest!: class_ranges_shorter split: if_splits)

text \<open>After a star: positions behind one more character each, as long as that character is no separator.\<close>

fun star_skip :: "string \<Rightarrow> bool \<Rightarrow> string \<Rightarrow> string option" where
  "star_skip chunk is_last [] = None"
| "star_skip chunk is_last (n # name) =
     (if n = CHR ''/'' then None
      else case matchChunk chunk (Some name) of
             BadPattern \<Rightarrow> None
           | NoMatch \<Rightarrow> star_skip chunk is_last name
           | Rest t \<Rightarrow> if is_last \<and> t \<noteq> [] then star_skip chunk is_last name else Some t)"

lemma chunk_end_append: "chunk_end r cs = (a, b) \<Longrightarrow> cs = a @ b"
  by (induction r cs arbitrary: a b rule: chunk_end.induct) (auto split: if_splits list.splits prod.splits)

lemma scanChunk_shorter:
  assumes "scanChunk p = (star, chunk, rest)" "p \<noteq> []"
  shows "length rest < length p"
proof -
  let ?q = "dropWhile ((=) (CHR ''*'')) p"
  have s: "star = (?q \<noteq> p)" "chunk_end False ?q = (chunk, rest)" using assms(1) by (auto simp: scanChunk_def Let_def)
  have r: "?q = chunk @ rest" by (rule chunk_end_append[OF s(2)])
  show ?thesis
  proof (cases "?q = p")
    case True
    then obtain c cs where p: "p = c # cs" "c \<noteq> CHR ''*''" using assms(2) dropWhile_eq_self_iff[of "(=) (CHR ''*'')" p] by (cases p) auto
    then have "chunk \<noteq> []" using s(2) True by (auto split: if_splits list.splits prod.splits)
    then show ?thesis using arg_cong[OF r, of length] True by (cases chunk) simp_all
  next
    case False
    have l: "length p = length (takeWhile ((=) (CHR ''*'')) p) + length ?q" by (metis length_append takeWhile_dropWhile_id)
    have "takeWhile ((=) (CHR ''*'')) p \<noteq> []" using False by (metis append_Nil takeWhile_dropWhile_id)
    then have "length ?q < length p" using l by (cases "takeWhile ((=) (CHR ''*'')) p") simp_all
    then show ?thesis using arg_cong[OF r, of length] by simp
  qed
qed

text \<open>Where the name goes on behind a chunk; the last chunk has to use the name up.\<close>

definition chunk_position :: "bool \<Rightarrow> string \<Rightarrow> bool \<Rightarrow> string \<Rightarrow> string option" where
  "chunk_position star chunk is_last name =
     (let skip = (if star then star_skip chunk is_last name else None)
      in case matchChunk chunk (Some name) of
           BadPattern \<Rightarrow> None
         | NoMatch \<Rightarrow> skip
         | Rest t \<Rightarrow> if t = [] \<or> \<not> is_last then Some t else skip)"

function Match :: "string \<Rightarrow> string \<Rightarrow> bool" where
  "Match pattern name =
     (if pattern = [] then name = []
      else case scanChunk pattern of
             (star, chunk, rest) \<Rightarrow>
               (if star \<and> chunk = [] then CHR ''/'' \<notin> set name
                else case chunk_position star chunk (rest = []) name of None \<Rightarrow> False | Some t \<Rightarrow> Match rest t))"
  by auto
termination
  by (relation "measure (\<lambda>(p, _). length p)") (auto dest: scanChunk_shorter[OF sym])

declare Match.simps [simp del]

text \<open>A pattern without metacharacters is a prefix; a bad pattern matches nothing.\<close>

definition resourcePatternMatches :: "string \<Rightarrow> string \<Rightarrow> bool" where
  "resourcePatternMatches pattern name =
     (if \<not> list_ex (\<lambda>c. c \<in> {CHR ''*'', CHR ''?'', CHR ''[''}) pattern then has_prefix name pattern else Match pattern name)"

definition DefaultInterconnectResourcePattern :: string where
  "DefaultInterconnectResourcePattern = ''rdma/rdma_shared_device_*''"

definition best_match :: "string \<Rightarrow> string list \<Rightarrow> string" where
  "best_match p names = foldl (\<lambda>best name. if resourcePatternMatches p name \<and> (best = [] \<or> name < best) then name else best) [] names"

fun first_match :: "string list \<Rightarrow> string list \<Rightarrow> string" where
  "first_match names [] = []"
| "first_match names (p # ps) = (let best = best_match p names in if best \<noteq> [] then best else first_match names ps)"

type_synonym resource_list = "(string \<times> int) list"

definition matchInterconnectResourceName :: "resource_list \<Rightarrow> string list \<Rightarrow> string" where
  "matchInterconnectResourceName quantities patterns =
     first_match (map fst quantities) (if patterns = [] then [DefaultInterconnectResourcePattern] else patterns)"

section \<open>The resources of a node\<close>

definition ResourceGPUNvidia :: string where "ResourceGPUNvidia = ''nvidia.com/gpu''"
definition ResourceGPUNvidiaPGPU :: string where "ResourceGPUNvidiaPGPU = ''nvidia.com/pgpu''"
definition ResourceGPUAMD :: string where "ResourceGPUAMD = ''amd.com/gpu''"

lemmas gpu_names = ResourceGPUNvidia_def ResourceGPUNvidiaPGPU_def ResourceGPUAMD_def

record kube_node =
  kn_Name :: string
  kn_Labels :: "(string \<times> string) list"
  kn_Unschedulable :: bool
  kn_Taints :: "string list"
  kn_Conditions :: "(string \<times> string) list"
  kn_Architecture :: string
  kn_Allocatable :: resource_list
  kn_Capacity :: resource_list

text \<open>\<open>MilliValue\<close> and \<open>Value\<close> round up to a multiple of the unit.\<close>

definition round_up :: "int \<Rightarrow> int \<Rightarrow> int" where
  "round_up u q = - ((- q) div u) * u"

abbreviation milli_value :: "int \<Rightarrow> int" where "milli_value \<equiv> round_up (10 ^ 6)"
abbreviation unit_value :: "int \<Rightarrow> int" where "unit_value \<equiv> round_up (10 ^ 9)"

text \<open>The kinds of resource the switch tells apart; the interconnect has the name the node has now.\<close>

datatype resource_kind = RCPU | RMemory | REphemeral | RGPU | RInterconnect | ROther

definition kind_of :: "string \<Rightarrow> string \<Rightarrow> resource_kind" where
  "kind_of ic name =
     (if name = ''cpu'' then RCPU
      else if name = ''memory'' then RMemory
      else if name = ''ephemeral-storage'' then REphemeral
      else if name = ResourceGPUNvidia \<or> name = ResourceGPUNvidiaPGPU \<or> name = ResourceGPUAMD then RGPU
      else if ic \<noteq> [] \<and> name = ic then RInterconnect
      else ROther)"

definition set_allocatable :: "string \<Rightarrow> node \<Rightarrow> string \<times> int \<Rightarrow> node" where
  "set_allocatable ic n r =
     (case kind_of ic (fst r) of
        RCPU \<Rightarrow> n\<lparr>CPU_Quantity := (CPU_Quantity n)\<lparr>Allocatable := Some (milli_value (snd r))\<rparr>\<rparr>
      | RMemory \<Rightarrow> n\<lparr>Memory_Quantity := (Memory_Quantity n)\<lparr>Allocatable := Some (unit_value (snd r))\<rparr>\<rparr>
      | REphemeral \<Rightarrow> n\<lparr>EphemeralStorage := (EphemeralStorage n)\<lparr>Allocatable := Some (unit_value (snd r))\<rparr>\<rparr>
      | RGPU \<Rightarrow> n\<lparr>GPU_Quantity := (GPU_Quantity n)\<lparr>Allocatable := Some (unit_value (snd r))\<rparr>\<rparr>
      | RInterconnect \<Rightarrow> n\<lparr>GPUInterconnect := (GPUInterconnect n)\<lparr>Allocatable := Some (unit_value (snd r))\<rparr>\<rparr>
      | ROther \<Rightarrow> n)"

definition set_capacity :: "string \<Rightarrow> node \<Rightarrow> string \<times> int \<Rightarrow> node" where
  "set_capacity ic n r =
     (case kind_of ic (fst r) of
        RCPU \<Rightarrow> n\<lparr>CPU_Quantity := (CPU_Quantity n)\<lparr>Capacity := Some (milli_value (snd r))\<rparr>\<rparr>
      | RMemory \<Rightarrow> n\<lparr>Memory_Quantity := (Memory_Quantity n)\<lparr>Capacity := Some (unit_value (snd r))\<rparr>\<rparr>
      | REphemeral \<Rightarrow> n\<lparr>EphemeralStorage := (EphemeralStorage n)\<lparr>Capacity := Some (unit_value (snd r))\<rparr>\<rparr>
      | RGPU \<Rightarrow> n\<lparr>GPU_Quantity := (GPU_Quantity n)\<lparr>Capacity := Some (unit_value (snd r))\<rparr>\<rparr>
      | RInterconnect \<Rightarrow> n\<lparr>GPUInterconnect := (GPUInterconnect n)\<lparr>Capacity := Some (unit_value (snd r))\<rparr>\<rparr>
      | ROther \<Rightarrow> n)"

definition updateNodeInfo :: "kube_node \<Rightarrow> node \<Rightarrow> string list \<Rightarrow> node" where
  "updateNodeInfo knode n patterns =
     (let n0 = n\<lparr>Capabilities := (Capabilities n)\<lparr>InterconnectResourceName := []\<rparr>,
                 GPUInterconnect := (GPUInterconnect n)\<lparr>Capacity := Some 0, Allocatable := Some 0\<rparr>\<rparr>;
          ic0 = matchInterconnectResourceName (kn_Allocatable knode) patterns;
          ic = (if ic0 = [] then matchInterconnectResourceName (kn_Capacity knode) patterns else ic0);
          n1 = (if ic \<noteq> [] then n0\<lparr>Capabilities := (Capabilities n0)\<lparr>InterconnectResourceName := ic\<rparr>\<rparr> else n0)
      in foldl (set_capacity ic) (foldl (set_allocatable ic) n1 (kn_Allocatable knode)) (kn_Capacity knode))"

definition nodeAllocatableChanged :: "kube_node \<Rightarrow> kube_node \<Rightarrow> bool" where
  "nodeAllocatableChanged prev cur \<longleftrightarrow>
     length (kn_Allocatable prev) \<noteq> length (kn_Allocatable cur) \<or>
     list_ex (\<lambda>(r, pv). case map_of (kn_Allocatable cur) r of None \<Rightarrow> True | Some cv \<Rightarrow> unit_value pv \<noteq> unit_value cv) (kn_Allocatable prev)"

definition normalizeArch :: "string \<Rightarrow> string" where
  "normalizeArch arch = (if arch = ''x86_64'' then ''amd64'' else if arch = ''aarch64'' then ''arm64'' else arch)"

section \<open>Processors and GPUs\<close>

record processor =
  pr_ID :: nat
  pr_Vendor :: string
  pr_Model :: string
  pr_NumThreads :: nat

definition cpuQueryMaxAttempts :: nat where "cpuQueryMaxAttempts = 5"

text \<open>The answers of the discovery pod to the attempts, \<open>None\<close> a failed one; the first success counts.\<close>

fun first_answer :: "nat \<Rightarrow> 'a option list \<Rightarrow> 'a option" where
  "first_answer 0 as = None"
| "first_answer (Suc k) [] = None"
| "first_answer (Suc k) (a # as) = (case a of Some x \<Rightarrow> Some x | None \<Rightarrow> first_answer k as)"

definition parseCPUInfo :: "processor list option list \<Rightarrow> string \<Rightarrow> cpu_info list" where
  "parseCPUInfo answers arch =
     (case first_answer cpuQueryMaxAttempts answers of
        None \<Rightarrow> []
      | Some ps \<Rightarrow> map (\<lambda>c. \<lparr>cpu_ID = itoa (pr_ID c), cpu_Vendor = pr_Vendor c, cpu_Model = pr_Model c, Vcores = pr_NumThreads c, Arch = arch\<rparr>) ps)"

record RegistryGPUDevice =
  rd_Name :: string
  rd_Interface :: string
  rd_MemorySize :: string

record RegistryGPUVendor =
  rv_Name :: string
  rv_Devices :: "string \<rightharpoonup> RegistryGPUDevice"

type_synonym registry_vendors = "string \<rightharpoonup> RegistryGPUVendor"

text \<open>A device of either scan: its PCI address, its class (of the PCI scan) and the numbers of vendor and product, if known.\<close>

record pci_device =
  pd_Address :: string
  pd_Class :: "string option"
  pd_Vendor :: "string option"
  pd_Product :: "string option"

definition gpu_of :: "registry_vendors \<Rightarrow> pci_device \<Rightarrow> gpu_info option" where
  "gpu_of reg d =
     (case (pd_Vendor d, pd_Product d) of
        (Some v, Some p) \<Rightarrow>
          (case reg v of
             None \<Rightarrow> None
           | Some vendor \<Rightarrow> (case rv_Devices vendor p of
               None \<Rightarrow> None
             | Some model \<Rightarrow> Some \<lparr>Vendor = rv_Name vendor, VendorID = v, gpu_Name = rd_Name model, ModelID = p,
                 MemorySize = rd_MemorySize model, Interface = rd_Interface model\<rparr>))
      | _ \<Rightarrow> None)"

text \<open>The graphics cards of the first scan, with the addresses it recognised.\<close>

fun ghw_scan :: "registry_vendors \<Rightarrow> pci_device list \<Rightarrow> string set \<times> gpu_info list" where
  "ghw_scan reg [] = ({}, [])"
| "ghw_scan reg (d # ds) =
     (case ghw_scan reg ds of
        (known, res) \<Rightarrow> (case gpu_of reg d of None \<Rightarrow> (known, res) | Some g \<Rightarrow> (insert (pd_Address d) known, g # res)))"

text \<open>The second scan: display controllers, class 03, at other addresses.\<close>

definition pci_fallback :: "registry_vendors \<Rightarrow> string set \<Rightarrow> pci_device list \<Rightarrow> gpu_info list" where
  "pci_fallback reg known ds =
     List.map_filter (gpu_of reg) (filter (\<lambda>d. (case pd_Class d of None \<Rightarrow> False | Some c \<Rightarrow> has_prefix c ''03'') \<and> pd_Address d \<notin> known) ds)"

text \<open>The answers are \<open>None\<close> when the pod gave nothing; \<open>gpu_sort\<close> is the order of the SDK.\<close>

definition parseGPUInfo :: "(gpu_info list \<Rightarrow> gpu_info list) \<Rightarrow> registry_vendors \<Rightarrow> pci_device list option \<Rightarrow> pci_device list option \<Rightarrow> gpu_info list" where
  "parseGPUInfo gpu_sort reg ghw pci =
     (let (known, res) = (case ghw of None \<Rightarrow> ({}, []) | Some ds \<Rightarrow> ghw_scan reg ds)
      in gpu_sort (res @ (case pci of None \<Rightarrow> [] | Some ds \<Rightarrow> pci_fallback reg known ds)))"

definition zero_pair :: resource_pair where
  "zero_pair = \<lparr>Capacity = Some 0, Allocatable = Some 0, Allocated = Some 0\<rparr>"

definition initNodeInfo :: "cpu_info list \<Rightarrow> gpu_info list \<Rightarrow> IBDiscovery \<Rightarrow> kube_node \<Rightarrow> string list \<Rightarrow> node" where
  "initNodeInfo cpus gpus ib knode patterns =
     updateNodeInfo knode
       \<lparr>node_Name = kn_Name knode, CPU_Quantity = zero_pair, CPU_Info = cpus, Memory_Quantity = zero_pair, GPU_Quantity = zero_pair,
        GPU_Info = gpus, EphemeralStorage = zero_pair, VolumesAttached = zero_pair, VolumesMounted = zero_pair, GPUInterconnect = zero_pair,
        Capabilities = \<lparr>StorageClasses = [], InterconnectFabric = Fabric ib, InterconnectResourceName = [],
          NCCLHCAPrefixes = NCCLIBHCAPrefixes ib\<rparr>\<rparr> patterns"

section \<open>What is discovered\<close>

lemma hca_loop_spec: "distinct (hca_loop seen ns) \<and> set (hca_loop seen ns) = familyPrefix ` set ns - insert [] seen"
  by (induction ns arbitrary: seen) (auto simp: Let_def)

text \<open>The families are listed once each, in any order of the devices the same ones, and no empty one.\<close>

lemma hca_families: "distinct (nccLHCAPrefixesOf names) \<and> set (nccLHCAPrefixesOf names) = familyPrefix ` set names - {[]}"
  using hca_loop_spec[of "{}" names] by (simp add: nccLHCAPrefixesOf_def)

text \<open>
  The comment of \<open>familyPrefix\<close> gives four examples; the code agrees with the first three. A name that is a family already
  and ends in a digit loses the digit.
\<close>

lemma familyPrefix_examples:
  "familyPrefix ''mlx5_0'' = ''mlx5''" "familyPrefix ''bnxt_re0'' = ''bnxt_re''" "familyPrefix ''ib0'' = ''ib''" "familyPrefix ''mlx5'' = ''mlx''"
  by (simp_all add: familyPrefix_def is_dec_def less_eq_char_def Let_def)

definition plain :: "char \<Rightarrow> bool" where
  "plain c \<longleftrightarrow> c \<notin> {CHR ''*'', CHR ''?'', CHR ''['', CHR '']'', CHR 0x5C}"

lemma matchChunk_failed: "list_all plain cs \<Longrightarrow> matchChunk cs None = NoMatch"
  by (induction cs) (auto simp: plain_def Let_def)

lemma matchChunk_plain: "list_all plain cs \<Longrightarrow> matchChunk cs (Some s) = (if has_prefix s cs then Rest (drop (length cs) s) else NoMatch)"
proof (induction cs arbitrary: s)
  case (Cons c cs)
  then show ?case by (cases s) (auto simp: plain_def Let_def has_prefix_def matchChunk_failed[unfolded plain_def])
qed (simp add: has_prefix_def)

lemma chunk_end_plain: "list_all plain cs \<Longrightarrow> chunk_end False (cs @ CHR ''*'' # rest) = (cs, CHR ''*'' # rest)"
  by (induction cs) (auto simp: plain_def split: list.splits)

text \<open>A plain text followed by one star: the text is a prefix and no separator comes behind it.\<close>

lemma Match_prefix_star:
  assumes "list_all plain cs" "cs \<noteq> []"
  shows "Match (cs @ ''*'') name \<longleftrightarrow> has_prefix name cs \<and> CHR ''/'' \<notin> set (drop (length cs) name)"
proof -
  obtain c ds where cs: "cs = c # ds" "c \<noteq> CHR ''*''" using assms by (cases cs) (auto simp: plain_def)
  have s: "scanChunk (cs @ ''*'') = (False, cs, ''*'')"
    using chunk_end_plain[OF assms(1), of "[]"] cs by (simp add: scanChunk_def)
  have star: "Match ''*'' t \<longleftrightarrow> CHR ''/'' \<notin> set t" for t by (subst Match.simps) (simp add: scanChunk_def)
  have "Match (cs @ ''*'') name = (case chunk_position False cs False name of None \<Rightarrow> False | Some t \<Rightarrow> Match ''*'' t)"
    by (subst Match.simps) (simp add: s)
  then show ?thesis using matchChunk_plain[OF assms(1), of name] by (simp add: chunk_position_def star)
qed

text \<open>The default pattern takes the shared RDMA devices, and only names without a further separator.\<close>

definition rdma_prefix :: string where
  "rdma_prefix = ''rdma/rdma_shared_device_''"

lemma default_pattern_matches:
  "resourcePatternMatches DefaultInterconnectResourcePattern name \<longleftrightarrow>
     has_prefix name rdma_prefix \<and> CHR ''/'' \<notin> set (drop (length rdma_prefix) name)"
proof -
  have d: "DefaultInterconnectResourcePattern = rdma_prefix @ ''*''" by (simp add: DefaultInterconnectResourcePattern_def rdma_prefix_def)
  have "list_all plain rdma_prefix" "rdma_prefix \<noteq> []" by (simp_all add: plain_def rdma_prefix_def)
  then show ?thesis using Match_prefix_star[of rdma_prefix name] by (simp add: resourcePatternMatches_def d)
qed

lemma Min_smaller: "finite M \<Longrightarrow> Min (insert (if n < b then n else b) M) = Min (insert n (insert b M))"
proof (cases "M = {}")
  case False
  assume "finite M"
  have m: "(if n < b then n else b) = min n b" by (auto simp: min_def)
  show ?thesis unfolding m using \<open>finite M\<close> False by (simp only: Min_insert finite_insert insert_not_empty not_False_eq_True min.assoc)
qed (auto simp: min_def)

lemma best_match_fold:
  "[] \<notin> set names \<Longrightarrow>
   foldl (\<lambda>best name. if resourcePatternMatches p name \<and> (best = [] \<or> name < best) then name else best) b names =
     (let S = {n \<in> set names. resourcePatternMatches p n} \<union> (if b = [] then {} else {b}) in if S = {} then [] else Min S)"
proof (induction names arbitrary: b)
  case (Cons n ns)
  let ?M = "{n \<in> set ns. resourcePatternMatches p n}"
  let ?f = "\<lambda>best name. if resourcePatternMatches p name \<and> (best = [] \<or> name < best) then name else best"
  have fin: "finite ?M" by simp
  have ne: "n \<noteq> []" using Cons.prems by auto
  have ins: "{m \<in> set (n # ns). resourcePatternMatches p m} = (if resourcePatternMatches p n then insert n ?M else ?M)" by auto
  show ?case
  proof (cases "resourcePatternMatches p n \<and> b \<noteq> []")
    case True
    let ?b = "if n < b then n else b"
    have "?b \<noteq> []" using True ne by simp
    then have "foldl ?f ?b ns = Min (insert ?b ?M)" using Cons.IH[of ?b] Cons.prems by simp
    then show ?thesis unfolding ins Let_def using True Min_smaller[OF fin, of n b] by (simp add: insert_commute)
  next
    case False
    then have "foldl ?f b (n # ns) = foldl ?f (if resourcePatternMatches p n then n else b) ns" by auto
    then show ?thesis unfolding ins using Cons.IH Cons.prems ne False by (auto simp: Let_def)
  qed
qed (simp add: Let_def)

lemma best_match_set:
  "[] \<notin> set names \<Longrightarrow> best_match p names = (let S = {n \<in> set names. resourcePatternMatches p n} in if S = {} then [] else Min S)"
  using best_match_fold[of names p "[]"] by (simp add: best_match_def)

text \<open>
  The name of the interconnect does not depend on the order in which the map of resources is walked: two walks over the
  same names find the same one.
\<close>

lemma interconnect_name_stable:
  assumes "fst ` set qs = fst ` set qs'" "[] \<notin> fst ` set qs"
  shows "matchInterconnectResourceName qs ps = matchInterconnectResourceName qs' ps"
proof -
  have "best_match p (map fst qs) = best_match p (map fst qs')" for p using assms by (simp add: best_match_set)
  then have "first_match (map fst qs) l = first_match (map fst qs') l" for l by (induction l) (simp_all add: Let_def)
  then show ?thesis by (simp add: matchInterconnectResourceName_def)
qed

section \<open>Updates of the resources\<close>

fun allocated_for :: "node \<Rightarrow> resource_kind \<Rightarrow> int option" where
  "allocated_for n RCPU = Allocated (CPU_Quantity n)"
| "allocated_for n RMemory = Allocated (Memory_Quantity n)"
| "allocated_for n REphemeral = Allocated (EphemeralStorage n)"
| "allocated_for n RGPU = Allocated (GPU_Quantity n)"
| "allocated_for n RInterconnect = Allocated (GPUInterconnect n)"
| "allocated_for n ROther = None"

lemma set_resource_frame:
  "allocated_for (set_allocatable ic n r) k = allocated_for n k" "allocated_for (set_capacity ic n r) k = allocated_for n k"
  "Capabilities (set_allocatable ic n r) = Capabilities n" "Capabilities (set_capacity ic n r) = Capabilities n"
  "node_Name (set_allocatable ic n r) = node_Name n" "node_Name (set_capacity ic n r) = node_Name n"
  by (cases k; simp add: set_allocatable_def set_capacity_def split: resource_kind.split)+

lemma set_resources_frame [simp]:
  "allocated_for (foldl (set_allocatable ic) n rs) k = allocated_for n k" "allocated_for (foldl (set_capacity ic) n rs) k = allocated_for n k"
  "Capabilities (foldl (set_allocatable ic) n rs) = Capabilities n" "Capabilities (foldl (set_capacity ic) n rs) = Capabilities n"
  "node_Name (foldl (set_allocatable ic) n rs) = node_Name n" "node_Name (foldl (set_capacity ic) n rs) = node_Name n"
  by (induction rs arbitrary: n) (simp_all add: set_resource_frame)

text \<open>An update changes what a node has and could give, never what is allocated on it.\<close>

lemma updateNodeInfo_allocated: "allocated_for (updateNodeInfo knode n ps) k = allocated_for n k"
  unfolding updateNodeInfo_def Let_def set_resources_frame by (cases k) simp_all

lemma updateNodeInfo_name [simp]: "node_Name (updateNodeInfo knode n ps) = node_Name n"
  by (simp add: updateNodeInfo_def Let_def)

lemma initNodeInfo_allocated: "k \<noteq> ROther \<Longrightarrow> allocated_for (initNodeInfo cpus gpus ib knode ps) k = Some 0"
  unfolding initNodeInfo_def updateNodeInfo_allocated by (cases k) (simp_all add: zero_pair_def)

text \<open>
  A node that reports its GPUs under two names, as one with cards for passthrough does, has the number that the
  walk over the map meets last, so the same report gives different numbers.
\<close>

theorem gpu_allocatable_depends_on_walk:
  "Allocatable (GPU_Quantity (updateNodeInfo (knode\<lparr>kn_Allocatable := [(ResourceGPUNvidia, a), (ResourceGPUNvidiaPGPU, b)]\<rparr>) n ps)) = Some (unit_value b) \<and>
   Allocatable (GPU_Quantity (updateNodeInfo (knode\<lparr>kn_Allocatable := [(ResourceGPUNvidiaPGPU, b), (ResourceGPUNvidia, a)]\<rparr>) n ps)) = Some (unit_value a)"
proof -
  have cap: "Allocatable (GPU_Quantity (foldl (set_capacity ic) m rs)) = Allocatable (GPU_Quantity m)" for ic m rs
    by (induction rs arbitrary: m) (simp_all add: set_capacity_def split: resource_kind.split)
  show ?thesis by (simp add: updateNodeInfo_def Let_def cap set_allocatable_def kind_of_def gpu_names)
qed

text \<open>
  The interconnect is reset before the new report is read, the GPUs are not: a node whose report no longer names any GPU
  keeps the capacity it had.
\<close>

lemma set_other_gpu:
  "kind_of ic (fst r) \<noteq> RGPU \<Longrightarrow> GPU_Quantity (set_allocatable ic m r) = GPU_Quantity m \<and> GPU_Quantity (set_capacity ic m r) = GPU_Quantity m"
  by (cases "kind_of ic (fst r)") (simp_all add: set_allocatable_def set_capacity_def)

theorem vanished_gpus_stay:
  assumes "\<forall>r \<in> set (kn_Allocatable knode) \<union> set (kn_Capacity knode). fst r \<notin> {ResourceGPUNvidia, ResourceGPUNvidiaPGPU, ResourceGPUAMD}"
  shows "GPU_Quantity (updateNodeInfo knode n ps) = GPU_Quantity n"
proof -
  have kind: "kind_of ic (fst r) \<noteq> RGPU" if "r \<in> set (kn_Allocatable knode) \<union> set (kn_Capacity knode)" for ic r
    using assms that by (auto simp: kind_of_def)
  have a: "GPU_Quantity (foldl (set_allocatable ic) m rs) = GPU_Quantity m" if "set rs \<subseteq> set (kn_Allocatable knode)" for ic m rs
    using that by (induction rs arbitrary: m) (simp_all add: set_other_gpu kind)
  have c: "GPU_Quantity (foldl (set_capacity ic) m rs) = GPU_Quantity m" if "set rs \<subseteq> set (kn_Capacity knode)" for ic m rs
    using that by (induction rs arbitrary: m) (simp_all add: set_other_gpu kind)
  show ?thesis by (simp add: updateNodeInfo_def Let_def a c)
qed

theorem vanished_gpus_stay_witness:
  "Allocatable (GPU_Quantity (updateNodeInfo
      \<lparr>kn_Name = ''node1'', kn_Labels = [], kn_Unschedulable = False, kn_Taints = [], kn_Conditions = [], kn_Architecture = ''x86_64'',
       kn_Allocatable = [(''cpu'', 4 * 10 ^ 9)], kn_Capacity = []\<rparr>
      (initNodeInfo [] [] no_ib
        \<lparr>kn_Name = ''node1'', kn_Labels = [], kn_Unschedulable = False, kn_Taints = [], kn_Conditions = [], kn_Architecture = ''x86_64'',
         kn_Allocatable = [(ResourceGPUNvidia, 8 * 10 ^ 9)], kn_Capacity = []\<rparr> []) [])) = Some (8 * 10 ^ 9)"
  by (subst vanished_gpus_stay)
    (simp_all add: gpu_names initNodeInfo_def updateNodeInfo_def set_allocatable_def kind_of_def Let_def round_up_def)

section \<open>GPUs are counted once\<close>

definition display :: "pci_device \<Rightarrow> bool" where
  "display d \<longleftrightarrow> (case pd_Class d of None \<Rightarrow> False | Some c \<Rightarrow> has_prefix c ''03'')"

definition registered :: "registry_vendors \<Rightarrow> pci_device \<Rightarrow> bool" where
  "registered reg d \<longleftrightarrow> gpu_of reg d \<noteq> None"

lemma ghw_scan_spec:
  "fst (ghw_scan reg ds) = pd_Address ` set (filter (registered reg) ds) \<and> length (snd (ghw_scan reg ds)) = length (filter (registered reg) ds)"
  by (induction ds) (auto simp: registered_def split: prod.splits option.splits)

lemma length_map_filter: "length (List.map_filter f xs) = length (filter (\<lambda>x. f x \<noteq> None) xs)"
  by (induction xs) (auto simp: List.map_filter_def)

lemma pci_fallback_length:
  "length (pci_fallback reg known ds) = length (filter (\<lambda>d. registered reg d \<and> display d \<and> pd_Address d \<notin> known) ds)"
  by (simp add: pci_fallback_def length_map_filter display_def registered_def conj_ac)

lemma length_filter_addresses:
  "distinct (map pd_Address ds) \<Longrightarrow> length (filter P ds) = card (pd_Address ` set (filter P ds))"
  by (metis (no_types, lifting) distinct_card distinct_map_filter length_map set_map)

text \<open>C24: A GPU is counted once, whether one scan of the hardware sees it or both: with one device per PCI address in each scan, the
  number of GPUs of a node is the number of addresses at which a registered card was seen by the first scan or a registered
  display controller by the second.
\<close>

theorem gpus_counted_once:
  assumes "distinct (map pd_Address ghw)" "distinct (map pd_Address pci)" "\<forall>gs. length (gpu_sort gs) = length gs"
  shows "length (parseGPUInfo gpu_sort reg (Some ghw) (Some pci)) =
    card (pd_Address ` {d \<in> set ghw. registered reg d} \<union> pd_Address ` {d \<in> set pci. registered reg d \<and> display d})"
proof -
  let ?A = "pd_Address ` {d \<in> set ghw. registered reg d}" and ?B = "pd_Address ` {d \<in> set pci. registered reg d \<and> display d}"
  let ?P = "\<lambda>d. registered reg d \<and> display d \<and> pd_Address d \<notin> ?A"
  have "length (parseGPUInfo gpu_sort reg (Some ghw) (Some pci)) = length (filter (registered reg) ghw) + length (filter ?P pci)"
    using assms(3) ghw_scan_spec[of reg ghw] by (auto simp: parseGPUInfo_def Let_def pci_fallback_length split: prod.split)
  also have "\<dots> = card ?A + card (pd_Address ` set (filter ?P pci))"
    using length_filter_addresses[OF assms(1), of "registered reg"] length_filter_addresses[OF assms(2), of ?P] by simp
  also have "pd_Address ` set (filter ?P pci) = ?B - ?A" by auto
  also have "card ?A + card (?B - ?A) = card (?A \<union> ?B)" by (subst card_Un_disjoint[symmetric]) auto
  finally show ?thesis .
qed

definition ex_registry :: registry_vendors where
  "ex_registry = [''10de'' \<mapsto> \<lparr>rv_Name = ''nvidia'', rv_Devices = [''20b2'' \<mapsto> \<lparr>rd_Name = ''a100'', rd_Interface = ''SXM4'', rd_MemorySize = ''80Gi''\<rparr>]\<rparr>]"

definition ex_card :: "string \<Rightarrow> pci_device" where
  "ex_card addr = \<lparr>pd_Address = addr, pd_Class = Some ''03'', pd_Vendor = Some ''10de'', pd_Product = Some ''20b2''\<rparr>"

definition keep_order :: "gpu_info list \<Rightarrow> gpu_info list" where "keep_order gs = gs"

theorem gpus_counted_once_witness:
  "length (parseGPUInfo keep_order ex_registry (Some [ex_card ''0000:01:00.0'']) (Some [ex_card ''0000:01:00.0'', ex_card ''0000:02:00.0''])) = 2"
proof -
  have "registered ex_registry (ex_card a)" "display (ex_card a)" "pd_Address (ex_card a) = a" for a
    by (simp_all add: registered_def gpu_of_def ex_registry_def ex_card_def display_def has_prefix_def)
  moreover then have "{d \<in> set [ex_card ''0000:01:00.0'']. registered ex_registry d} = {ex_card ''0000:01:00.0''}"
    "{d \<in> set [ex_card ''0000:01:00.0'', ex_card ''0000:02:00.0'']. registered ex_registry d \<and> display d} = {ex_card ''0000:01:00.0'', ex_card ''0000:02:00.0''}"
    by auto
  ultimately show ?thesis
    using gpus_counted_once[of "[ex_card ''0000:01:00.0'']" "[ex_card ''0000:01:00.0'', ex_card ''0000:02:00.0'']" keep_order ex_registry]
    by (simp add: keep_order_def insert_commute)
qed

end
