(* ===== verification/NodeDiscovery.thy ===== *)
theory NodeDiscovery
  imports NodeHardware KubeApi
begin

text \<open>
  The monitor of one node (\<open>operator/inventory/node-discovery.go\<close>): it adds up what the pods of the node have requested, labels the
  node with its capabilities and publishes its state, or its removal when the provider may not use it. The loop is a function from
  the state and one event to the state; the answers of Kubernetes and of the discovery pod belong to the event. A map of
  labels is the list of its entries in the order of the keys, so that equality of maps is equality of lists.
\<close>

section \<open>Pods and what they request\<close>

text \<open>A volume is the medium and the size limit of an empty directory, or some other kind.\<close>

record kube_pod =
  pod_Namespace :: string
  pod_Name :: string
  pod_Conditions :: "(string \<times> string) list"
  pod_Containers :: "resource_list list"
  pod_Volumes :: "(string \<times> int option) option list"

definition podKey :: "kube_pod \<Rightarrow> string" where
  "podKey p = pod_Namespace p @ ''/'' @ pod_Name p"

definition isPodAllocated :: "kube_pod \<Rightarrow> bool" where
  "isPodAllocated p = (case map_of (pod_Conditions p) ''PodScheduled'' of None \<Rightarrow> False | Some status \<Rightarrow> status = ''True'')"

definition change_pair :: "(int \<Rightarrow> int) \<Rightarrow> resource_pair \<Rightarrow> resource_pair" where
  "change_pair f p = p\<lparr>Allocated := map_option f (Allocated p)\<rparr>"

fun change_allocated :: "(int \<Rightarrow> int) \<Rightarrow> resource_kind \<Rightarrow> node \<Rightarrow> node" where
  "change_allocated f RCPU n = n\<lparr>CPU_Quantity := change_pair f (CPU_Quantity n)\<rparr>"
| "change_allocated f RMemory n = n\<lparr>Memory_Quantity := change_pair f (Memory_Quantity n)\<rparr>"
| "change_allocated f REphemeral n = n\<lparr>EphemeralStorage := change_pair f (EphemeralStorage n)\<rparr>"
| "change_allocated f RGPU n = n\<lparr>GPU_Quantity := change_pair f (GPU_Quantity n)\<rparr>"
| "change_allocated f RInterconnect n = n\<lparr>GPUInterconnect := change_pair f (GPUInterconnect n)\<rparr>"
| "change_allocated f ROther n = n"

text \<open>The size limits of the volumes that live in memory.\<close>

definition memory_limits :: "kube_pod \<Rightarrow> int list" where
  "memory_limits p =
     List.map_filter (\<lambda>v. case v of Some (medium, Some limit) \<Rightarrow> if medium = ''Memory'' then Some limit else None | _ \<Rightarrow> None) (pod_Volumes p)"

definition add_container :: "string \<Rightarrow> int list \<Rightarrow> node \<Rightarrow> resource_list \<Rightarrow> node" where
  "add_container ic limits n requests =
     foldl (\<lambda>n l. change_allocated (\<lambda>a. a + l) RMemory n)
       (foldl (\<lambda>n (name, q). change_allocated (\<lambda>a. a + q) (kind_of ic name) n) n requests) limits"

definition addPodAllocatedResources :: "node \<Rightarrow> kube_pod \<Rightarrow> node" where
  "addPodAllocatedResources n p = foldl (add_container (InterconnectResourceName (Capabilities n)) (memory_limits p)) n (pod_Containers p)"

text \<open>Subtracting logs a result below zero and keeps it.\<close>

definition subAllocatedResource :: "node \<Rightarrow> resource_kind \<Rightarrow> int \<Rightarrow> node" where
  "subAllocatedResource n k q = change_allocated (\<lambda>a. a - q) k n"

definition sub_container :: "string \<Rightarrow> int list \<Rightarrow> node \<Rightarrow> resource_list \<Rightarrow> node" where
  "sub_container ic limits n requests =
     foldl (\<lambda>n l. subAllocatedResource n RMemory l) (foldl (\<lambda>n (name, q). subAllocatedResource n (kind_of ic name) q) n requests) limits"

definition subPodAllocatedResources :: "node \<Rightarrow> kube_pod \<Rightarrow> node" where
  "subPodAllocatedResources n p = foldl (sub_container (InterconnectResourceName (Capabilities n)) (memory_limits p)) n (pod_Containers p)"

definition reset_pair :: "resource_pair \<Rightarrow> resource_pair" where
  "reset_pair p = p\<lparr>Allocated := Some 0\<rparr>"

definition nodeResetAllocated :: "node \<Rightarrow> node" where
  "nodeResetAllocated n =
     n\<lparr>CPU_Quantity := reset_pair (CPU_Quantity n), GPU_Quantity := reset_pair (GPU_Quantity n), Memory_Quantity := reset_pair (Memory_Quantity n),
       EphemeralStorage := reset_pair (EphemeralStorage n), VolumesAttached := reset_pair (VolumesAttached n),
       VolumesMounted := reset_pair (VolumesMounted n), GPUInterconnect := reset_pair (GPUInterconnect n)\<rparr>"

section \<open>Labels\<close>

type_synonym label_map = "(string \<times> string) list"

fun label_put :: "string \<Rightarrow> 'v \<Rightarrow> (string \<times> 'v) list \<Rightarrow> (string \<times> 'v) list" where
  "label_put k v [] = [(k, v)]"
| "label_put k v ((k', v') # l) =
     (if k < k' then (k, v) # (k', v') # l else if k = k' then (k, v) # l else (k', v') # label_put k v l)"

definition labelNvidiaComGPUPresent :: string where
  "labelNvidiaComGPUPresent = ResourceGPUNvidia @ ''.present''"

definition isLabelManaged :: "string \<Rightarrow> bool" where
  "isLabelManaged key \<longleftrightarrow> has_prefix key AkashManagedLabelName \<or> key = labelNvidiaComGPUPresent"

definition copyManagedLabels :: "label_map \<Rightarrow> label_map" where
  "copyManagedLabels l = filter (\<lambda>(k, _). isLabelManaged k) l"

definition removeManagedLabels :: "label_map \<Rightarrow> label_map" where
  "removeManagedLabels l = filter (\<lambda>(k, _). \<not> isLabelManaged k) l"

definition isNodeReady :: "kube_node \<Rightarrow> bool" where
  "isNodeReady kn =
     (if list_ex (\<lambda>t. t = ''NoSchedule'' \<or> t = ''NoExecute'') (kn_Taints kn) then False
      else case map_of (kn_Conditions kn) ''Ready'' of None \<Rightarrow> False | Some status \<Rightarrow> status = ''True'')"

definition AkashServiceCapabilityGPU :: string where "AkashServiceCapabilityGPU = ''akash.network/capabilities.gpu''"
definition AkashServiceCapabilityStorage :: string where "AkashServiceCapabilityStorage = ''akash.network/capabilities.storage''"

text \<open>A label that counts: one more than its value, which reads as a number of 32 bits, or one.\<close>

definition parse_count :: "string \<Rightarrow> nat" where
  "parse_count v = (case parse_uint v of None \<Rightarrow> 0 | Some n \<Rightarrow> min n (2 ^ 32 - 1))"

definition label_count :: "label_map \<Rightarrow> string \<Rightarrow> label_map" where
  "label_count l key = label_put key (case map_of l key of None \<Rightarrow> ''1'' | Some v \<Rightarrow> itoa (Suc (parse_count v))) l"

definition model_key :: "gpu_info \<Rightarrow> string" where
  "model_key g = AkashServiceCapabilityGPU @ ''.vendor.'' @ Vendor g @ ''.model.'' @ gpu_Name g"

definition gpu_keys :: "gpu_info \<Rightarrow> string list" where
  "gpu_keys g =
     model_key g #
     (if MemorySize g \<noteq> [] then [model_key g @ ''.ram.'' @ MemorySize g] else []) @
     (if Interface g \<noteq> [] then [model_key g @ ''.interface.'' @ FilterGPUInterface (Interface g)] else [])"

definition gpu_labels :: "label_map \<Rightarrow> gpu_info \<Rightarrow> label_map" where
  "gpu_labels l g =
     foldl label_count (if Vendor g = ''nvidia'' then label_put labelNvidiaComGPUPresent ''true'' l else l) (gpu_keys g)"

definition is_excluded :: "'v Config \<Rightarrow> kube_node \<Rightarrow> bool" where
  "is_excluded cfg kn \<longleftrightarrow> \<not> isNodeReady kn \<or> kn_Unschedulable kn \<or> IsNodeExcluded (cfg_Exclude cfg) (kn_Name kn)"

definition set_classes :: "node \<Rightarrow> string list \<Rightarrow> node" where
  "set_classes n cs = n\<lparr>Capabilities := (Capabilities n)\<lparr>StorageClasses := cs\<rparr>\<rparr>"

text \<open>\<open>None\<close> is a panic in the filter of the configuration.\<close>

definition generateLabels :: "'v Config \<Rightarrow> kube_node \<Rightarrow> node \<Rightarrow> string list \<Rightarrow> (label_map \<times> node) option" where
  "generateLabels cfg kn n sc =
     (case FilterOutStorageClasses (Config_Copy cfg) (sort sc) of
        None \<Rightarrow> None
      | Some adj \<Rightarrow>
          (if is_excluded adj kn then Some ([], set_classes n [])
           else case StorageClassesForNode adj (kn_Name kn) of
                  None \<Rightarrow> None
                | Some allowed \<Rightarrow>
                    (let l0 = label_put AkashManagedLabelName ''true'' [];
                         l1 = foldl (\<lambda>l cls. label_put (AkashServiceCapabilityStorage @ ''.class.'' @ cls) ''1'' l) l0 allowed
                     in Some (foldl gpu_labels l1 (GPU_Info n), set_classes n allowed))))"

section \<open>The monitor\<close>

datatype node_state = NodeRemoved string | NodeUpdated string node

datatype mon_pc = MonRunning | MonLeft | MonPanicked

record 'v monitor =
  mn_cfg :: "'v Config"
  mn_sc :: "string list"
  mn_gpusIDs :: registry_vendors
  mn_knode :: kube_node
  mn_node :: node
  mn_currLabels :: label_map
  mn_currPods :: "kube_pod list"
  mn_updated :: bool
  mn_statech :: bool
  mn_labelch :: bool
  mn_published :: "node_state list"
  mn_patches :: "label_map list"
  mn_pc :: mon_pc

text \<open>
  The answer of a restart of the watch is the list of the pods of the node, or \<open>None\<close> when the watch or the list fails. An error
  event of the watch carries no pod.
\<close>

datatype 'v mon_event =
    MonCancel
  | MonConfig "'v Config"
  | MonClasses "string list"
  | MonRegistry registry_vendors "pci_device list option" "pci_device list option"
  | MonNode watch_type kube_node "IBDiscovery option" "kube_pod list option"
  | MonPodsClosed "kube_pod list option"
  | MonPod watch_type kube_pod
  | MonPodError
  | MonState
  | MonLabels

text \<open>Leaving publishes the removal of a node that was published.\<close>

definition mon_leave :: "string \<Rightarrow> 'v monitor \<Rightarrow> 'v monitor" where
  "mon_leave name m = m\<lparr>mn_pc := MonLeft, mn_published := mn_published m @ (if mn_updated m then [NodeRemoved name] else [])\<rparr>"

definition pods_put :: "kube_pod \<Rightarrow> kube_pod list \<Rightarrow> kube_pod list" where
  "pods_put p ps = p # filter (\<lambda>q. podKey q \<noteq> podKey p) ps"

definition track_pod :: "node \<times> kube_pod list \<Rightarrow> kube_pod \<Rightarrow> node \<times> kube_pod list" where
  "track_pod s p = (if isPodAllocated p then (addPodAllocatedResources (fst s) p, pods_put p (snd s)) else s)"

definition recount :: "node \<Rightarrow> kube_pod list \<Rightarrow> node \<times> kube_pod list" where
  "recount n items = foldl track_pod (nodeResetAllocated n, []) items"

definition restartPodsWatcher :: "string \<Rightarrow> kube_pod list option \<Rightarrow> 'v monitor \<Rightarrow> 'v monitor" where
  "restartPodsWatcher name answer m =
     (case answer of
        None \<Rightarrow> mon_leave name m
      | Some items \<Rightarrow> (case recount (mn_node m) items of (n, ps) \<Rightarrow> m\<lparr>mn_node := n, mn_currPods := ps\<rparr>))"

definition find_pod :: "string \<Rightarrow> kube_pod list \<Rightarrow> kube_pod option" where
  "find_pod key ps = find (\<lambda>p. podKey p = key) ps"

definition mon_pod :: "watch_type \<Rightarrow> kube_pod \<Rightarrow> 'v monitor \<Rightarrow> 'v monitor" where
  "mon_pod t p m =
     (case t of
        WatchAdded \<Rightarrow> (if find_pod (podKey p) (mn_currPods m) = None \<and> isPodAllocated p
                        then m\<lparr>mn_currPods := pods_put p (mn_currPods m), mn_node := addPodAllocatedResources (mn_node m) p\<rparr> else m)
      | WatchModified \<Rightarrow> (if find_pod (podKey p) (mn_currPods m) = None \<and> isPodAllocated p
                        then m\<lparr>mn_currPods := pods_put p (mn_currPods m), mn_node := addPodAllocatedResources (mn_node m) p\<rparr> else m)
      | WatchDeleted \<Rightarrow> (case find_pod (podKey p) (mn_currPods m) of
                           None \<Rightarrow> m
                         | Some q \<Rightarrow> m\<lparr>mn_node := subPodAllocatedResources (mn_node m) q, mn_currPods := filter (\<lambda>r. podKey r \<noteq> podKey p) (mn_currPods m)\<rparr>)
      | _ \<Rightarrow> m)\<lparr>mn_statech := True\<rparr>"

definition mon_config :: "'v Config \<Rightarrow> 'v monitor \<Rightarrow> 'v monitor" where
  "mon_config c m =
     (let changed = (ResourcePatterns c \<noteq> ResourcePatterns (mn_cfg m));
          m1 = m\<lparr>mn_cfg := c\<rparr>
      in (if changed then m1\<lparr>mn_node := updateNodeInfo (mn_knode m) (mn_node m) (ResourcePatterns c), mn_statech := True\<rparr> else m1)\<lparr>mn_labelch := True\<rparr>)"

definition set_ib :: "IBDiscovery \<Rightarrow> node \<Rightarrow> node" where
  "set_ib ib n = n\<lparr>Capabilities := (Capabilities n)\<lparr>NCCLHCAPrefixes := NCCLIBHCAPrefixes ib, InterconnectFabric := Fabric ib\<rparr>\<rparr>"

definition mon_node :: "string \<Rightarrow> watch_type \<Rightarrow> kube_node \<Rightarrow> IBDiscovery option \<Rightarrow> kube_pod list option \<Rightarrow> 'v monitor \<Rightarrow> 'v monitor" where
  "mon_node name t obj ib answer m =
     (if kn_Name obj \<noteq> name then m
      else if t \<noteq> WatchModified then m\<lparr>mn_knode := obj\<rparr>
      else let m1 = (if nodeAllocatableChanged (mn_knode m) obj
                     then restartPodsWatcher name answer
                            (m\<lparr>mn_node := updateNodeInfo obj (set_ib (parseIBInfo ib) (mn_node m)) (ResourcePatterns (mn_cfg m))\<rparr>)
                     else m)
           in if mn_pc m1 \<noteq> MonRunning then m1 else m1\<lparr>mn_labelch := True, mn_knode := obj\<rparr>)"

definition mon_state :: "string \<Rightarrow> 'v monitor \<Rightarrow> 'v monitor" where
  "mon_state name m =
     (let m1 = m\<lparr>mn_statech := False\<rparr>
      in if mn_currLabels m \<noteq> [] then m1\<lparr>mn_published := mn_published m @ [NodeUpdated name (mn_node m)], mn_updated := True\<rparr>
         else if mn_updated m then m1\<lparr>mn_published := mn_published m @ [NodeRemoved name], mn_updated := False\<rparr>
         else m1)"

text \<open>New labels are sent as a patch together with the labels of the node that are not managed; a failed patch is only logged.\<close>

definition mon_labels :: "'v monitor \<Rightarrow> 'v monitor" where
  "mon_labels m =
     (case generateLabels (mn_cfg m) (mn_knode m) (mn_node m) (mn_sc m) of
        None \<Rightarrow> m\<lparr>mn_pc := MonPanicked\<rparr>
      | Some (labels, n) \<Rightarrow>
          (let m1 = m\<lparr>mn_labelch := False\<rparr>;
               m2 = (if n \<noteq> mn_node m then m1\<lparr>mn_node := n, mn_statech := True\<rparr> else m1)
           in if labels = mn_currLabels m then m2
              else m2\<lparr>mn_currLabels := copyManagedLabels labels,
                      mn_patches := mn_patches m @ [foldl (\<lambda>l (k, v). label_put k v l) labels (removeManagedLabels (kn_Labels (mn_knode m)))],
                      mn_statech := True\<rparr>))"

definition mon_turn :: "(gpu_info list \<Rightarrow> gpu_info list) \<Rightarrow> string \<Rightarrow> 'v monitor \<Rightarrow> 'v mon_event \<Rightarrow> 'v monitor" where
  "mon_turn gpu_sort name m e =
     (if mn_pc m \<noteq> MonRunning then m
      else case e of
        MonCancel \<Rightarrow> mon_leave name m
      | MonConfig c \<Rightarrow> mon_config c m
      | MonClasses sc \<Rightarrow> m\<lparr>mn_sc := sc, mn_labelch := True\<rparr>
      | MonRegistry reg ghw pci \<Rightarrow>
          m\<lparr>mn_gpusIDs := reg, mn_node := (mn_node m)\<lparr>GPU_Info := parseGPUInfo gpu_sort reg ghw pci\<rparr>, mn_labelch := True\<rparr>
      | MonNode t obj ib answer \<Rightarrow> mon_node name t obj ib answer m
      | MonPodsClosed answer \<Rightarrow> restartPodsWatcher name answer m
      | MonPod t p \<Rightarrow> mon_pod t p m
      | MonPodError \<Rightarrow> m\<lparr>mn_pc := MonPanicked\<rparr>
      | MonState \<Rightarrow> if mn_statech m then mon_state name m else m
      | MonLabels \<Rightarrow> if mn_labelch m then mon_labels m else m)"

text \<open>
  The start: the first configuration and storage classes, the registry, the node as Kubernetes knows it (an empty one when it
  cannot be read), the hardware, and the first list of pods.
\<close>

definition no_knode :: kube_node where
  "no_knode = \<lparr>kn_Name = [], kn_Labels = [], kn_Unschedulable = False, kn_Taints = [], kn_Conditions = [], kn_Architecture = [],
     kn_Allocatable = [], kn_Capacity = []\<rparr>"

definition mon_start ::
  "(gpu_info list \<Rightarrow> gpu_info list) \<Rightarrow> string \<Rightarrow> 'v Config \<Rightarrow> string list \<Rightarrow> registry_vendors \<Rightarrow> kube_node option \<Rightarrow> processor list option list \<Rightarrow>
   pci_device list option \<Rightarrow> pci_device list option \<Rightarrow> IBDiscovery option \<Rightarrow> kube_pod list option \<Rightarrow> 'v monitor" where
  "mon_start gpu_sort name cfg sc reg knode cpus ghw pci ib answer =
     (let kn = (case knode of None \<Rightarrow> no_knode | Some k \<Rightarrow> k);
          n = initNodeInfo (parseCPUInfo cpus (normalizeArch (kn_Architecture kn))) (parseGPUInfo gpu_sort reg ghw pci) (parseIBInfo ib) kn (ResourcePatterns cfg)
      in restartPodsWatcher name answer
           \<lparr>mn_cfg = cfg, mn_sc = sc, mn_gpusIDs = reg, mn_knode = kn, mn_node = n,
            mn_currLabels = (case knode of None \<Rightarrow> [] | Some k \<Rightarrow> copyManagedLabels (kn_Labels k)), mn_currPods = [],
            mn_updated = False, mn_statech = False, mn_labelch = False, mn_published = [], mn_patches = [], mn_pc = MonRunning\<rparr>)"

definition mon_run :: "(gpu_info list \<Rightarrow> gpu_info list) \<Rightarrow> string \<Rightarrow> 'v monitor \<Rightarrow> 'v mon_event list \<Rightarrow> 'v monitor" where
  "mon_run gpu_sort name m es = foldl (mon_turn gpu_sort name) m es"

section \<open>What is allocated is what the pods request\<close>

definition container_requests :: "string \<Rightarrow> int list \<Rightarrow> resource_list \<Rightarrow> resource_kind \<Rightarrow> int" where
  "container_requests ic limits requests k =
     sum_list (map (\<lambda>(name, q). if kind_of ic name = k then q else 0) requests) + sum_list (map (\<lambda>l. if RMemory = k then l else 0) limits)"

definition pod_requests :: "string \<Rightarrow> kube_pod \<Rightarrow> resource_kind \<Rightarrow> int" where
  "pod_requests ic p k = sum_list (map (\<lambda>c. container_requests ic (memory_limits p) c k) (pod_Containers p))"

definition tracked_requests :: "string \<Rightarrow> kube_pod list \<Rightarrow> resource_kind \<Rightarrow> int" where
  "tracked_requests ic ps k = sum_list (map (\<lambda>p. pod_requests ic p k) ps)"

lemma allocated_for_change:
  "allocated_for (change_allocated (\<lambda>a. a + q) k n) k' = map_option (\<lambda>a. a + (if k = k' then q else 0)) (allocated_for n k')"
  by (cases k; cases k') (simp_all add: change_pair_def option.map_ident)

lemma change_allocated_frame [simp]: "Capabilities (change_allocated f k n) = Capabilities n" "node_Name (change_allocated f k n) = node_Name n"
  by (cases k; simp)+

text \<open>Steps that each add an amount add up to the sum of the amounts.\<close>

lemma foldl_adds:
  assumes "\<And>n x. allocated_for (f n x) k = map_option (\<lambda>a. a + g x) (allocated_for n k)"
  shows "allocated_for (foldl f n xs) k = map_option (\<lambda>a. a + sum_list (map g xs)) (allocated_for n k)"
  by (induction xs arbitrary: n) (simp_all add: assms option.map_comp comp_def add.assoc option.map_ident del: allocated_for.simps)

lemma add_container_allocated:
  "allocated_for (add_container ic ls n rs) k = map_option (\<lambda>a. a + container_requests ic ls rs k) (allocated_for n k)"
proof -
  let ?r = "\<lambda>(name, q). if kind_of ic name = k then q else 0"
  have r: "allocated_for (foldl (\<lambda>n (name, q). change_allocated (\<lambda>a. a + q) (kind_of ic name) n) n rs) k =
      map_option (\<lambda>a. a + sum_list (map ?r rs)) (allocated_for n k)"
    by (rule foldl_adds) (simp add: allocated_for_change split: prod.split)
  show ?thesis unfolding add_container_def container_requests_def
    by (subst foldl_adds[of _ k "\<lambda>l. if RMemory = k then l else 0"], rule allocated_for_change) (simp add: r option.map_comp comp_def add.assoc)
qed

lemma sub_container_allocated:
  "allocated_for (sub_container ic ls n rs) k = map_option (\<lambda>a. a + - container_requests ic ls rs k) (allocated_for n k)"
proof -
  let ?r = "\<lambda>(name, q). if kind_of ic name = k then - q else 0"
  have sub: "subAllocatedResource n j q = change_allocated (\<lambda>a. a + - q) j n" for n j q by (simp add: subAllocatedResource_def)
  have r: "allocated_for (foldl (\<lambda>n (name, q). subAllocatedResource n (kind_of ic name) q) n rs) k =
      map_option (\<lambda>a. a + sum_list (map ?r rs)) (allocated_for n k)"
    by (rule foldl_adds) (simp only: sub allocated_for_change split: prod.split, simp)
  have neg: "sum_list (map ?r rs) = - sum_list (map (\<lambda>(name, q). if kind_of ic name = k then q else 0) rs)"
    "sum_list (map (\<lambda>l. if RMemory = k then - l else 0) ls) = - sum_list (map (\<lambda>l. if RMemory = k then l else 0) ls)"
    by (induction rs) (auto, induction ls, auto)
  have l: "allocated_for (foldl (\<lambda>n l. subAllocatedResource n RMemory l) m ls) k =
      map_option (\<lambda>a. a + sum_list (map (\<lambda>l. if RMemory = k then - l else 0) ls)) (allocated_for m k)" for m
    by (rule foldl_adds) (simp only: sub allocated_for_change)
  show ?thesis unfolding sub_container_def container_requests_def l r neg by (simp add: option.map_comp comp_def algebra_simps)
qed

lemma addPod_allocated:
  "allocated_for (addPodAllocatedResources n p) k =
     map_option (\<lambda>a. a + pod_requests (InterconnectResourceName (Capabilities n)) p k) (allocated_for n k)"
  unfolding addPodAllocatedResources_def pod_requests_def by (rule foldl_adds) (rule add_container_allocated)

lemma subPod_allocated:
  "allocated_for (subPodAllocatedResources n p) k =
     map_option (\<lambda>a. a - pod_requests (InterconnectResourceName (Capabilities n)) p k) (allocated_for n k)"
proof -
  have neg: "sum_list (map (\<lambda>c. - f c) cs) = - sum_list (map f cs)" for f :: "resource_list \<Rightarrow> int" and cs by (induction cs) simp_all
  show ?thesis unfolding subPodAllocatedResources_def pod_requests_def
    by (subst foldl_adds[OF sub_container_allocated]) (simp add: neg)
qed

lemma foldl_frame: "(\<And>n x. g (f n x) = g n) \<Longrightarrow> g (foldl f n xs) = g n"
  by (induction xs arbitrary: n) simp_all

lemma container_frame: "Capabilities (add_container ic ls n rs) = Capabilities n" "Capabilities (sub_container ic ls n rs) = Capabilities n"
  unfolding add_container_def sub_container_def subAllocatedResource_def
  by (subst foldl_frame[of Capabilities]; (subst foldl_frame[of Capabilities])?; auto split: prod.split)+

lemma pod_resources_frame [simp]:
  "Capabilities (addPodAllocatedResources n p) = Capabilities n" "Capabilities (subPodAllocatedResources n p) = Capabilities n"
  unfolding addPodAllocatedResources_def subPodAllocatedResources_def by (rule foldl_frame, rule container_frame)+

lemma nodeResetAllocated_spec: "k \<noteq> ROther \<Longrightarrow> allocated_for (nodeResetAllocated n) k = Some 0" "Capabilities (nodeResetAllocated n) = Capabilities n"
  by (cases k; simp add: nodeResetAllocated_def reset_pair_def)+

text \<open>The four other resources do not depend on the name of the interconnect.\<close>

lemma pod_requests_other: "k \<noteq> RInterconnect \<Longrightarrow> k \<noteq> ROther \<Longrightarrow> pod_requests ic p k = pod_requests ic' p k"
proof -
  assume k: "k \<noteq> RInterconnect" "k \<noteq> ROther"
  have "kind_of ic name = k \<longleftrightarrow> kind_of ic' name = k" for name using k by (auto simp: kind_of_def)
  then show ?thesis by (simp add: pod_requests_def container_requests_def)
qed

lemma tracked_requests_other: "k \<noteq> RInterconnect \<Longrightarrow> k \<noteq> ROther \<Longrightarrow> tracked_requests ic ps k = tracked_requests ic' ps k"
  using pod_requests_other[of k ic _ ic'] by (simp add: tracked_requests_def)

text \<open>\<open>fixed\<close> asks for the interconnect as well.\<close>

definition counted_kind :: "bool \<Rightarrow> resource_kind \<Rightarrow> bool" where
  "counted_kind fixed k \<longleftrightarrow> k \<noteq> ROther \<and> (k = RInterconnect \<longrightarrow> fixed)"

definition counts :: "bool \<Rightarrow> node \<Rightarrow> kube_pod list \<Rightarrow> bool" where
  "counts fixed n ps \<longleftrightarrow> distinct (map podKey ps) \<and>
     (\<forall>k. counted_kind fixed k \<longrightarrow> allocated_for n k = Some (tracked_requests (InterconnectResourceName (Capabilities n)) ps k))"

lemma filter_other_pods: "podKey q \<notin> podKey ` set ps \<Longrightarrow> filter (\<lambda>r. podKey r \<noteq> podKey q) ps = ps"
  by (induction ps) auto

lemma counts_add:
  assumes "counts fixed n ps" "podKey p \<notin> podKey ` set ps"
  shows "counts fixed (addPodAllocatedResources n p) (pods_put p ps)"
proof -
  show ?thesis using assms filter_other_pods[OF assms(2)] by (auto simp: counts_def pods_put_def addPod_allocated tracked_requests_def simp del: allocated_for.simps)
qed

lemma tracked_requests_remove:
  "distinct (map podKey ps) \<Longrightarrow> q \<in> set ps \<Longrightarrow>
   tracked_requests ic (filter (\<lambda>r. podKey r \<noteq> podKey q) ps) k = tracked_requests ic ps k - pod_requests ic q k"
proof (induction ps)
  case (Cons p ps)
  show ?case
  proof (cases "p = q")
    case True
    then show ?thesis using filter_other_pods[of q ps] Cons.prems(1) by (simp add: tracked_requests_def)
  next
    case False
    then have "podKey p \<noteq> podKey q" using Cons.prems by (auto simp: rev_image_eqI)
    then show ?thesis using Cons False by (simp add: tracked_requests_def)
  qed
qed simp

lemma counts_sub:
  assumes "counts fixed n ps" "q \<in> set ps"
  shows "counts fixed (subPodAllocatedResources n q) (filter (\<lambda>r. podKey r \<noteq> podKey q) ps)"
  using assms tracked_requests_remove[of ps q] by (auto simp: counts_def subPod_allocated distinct_map_filter simp del: allocated_for.simps)

lemma disjoint_insert_subset: "A \<subseteq> insert k B \<Longrightarrow> k \<notin> C \<Longrightarrow> B \<inter> C = {} \<Longrightarrow> A \<inter> C = {}"
  by blast

lemma recount_counts:
  assumes "distinct (map podKey items)"
  shows "counts fixed (fst (recount n items)) (snd (recount n items)) \<and> set (snd (recount n items)) \<subseteq> set items"
proof -
  have main: "counts fixed (fst (foldl track_pod s items)) (snd (foldl track_pod s items)) \<and> set (snd (foldl track_pod s items)) \<subseteq> set (snd s) \<union> set items"
    if "counts fixed (fst s) (snd s)" "podKey ` set (snd s) \<inter> podKey ` set items = {}" for s
    using that assms
  proof (induction items arbitrary: s)
    case (Cons p items)
    have "counts fixed (fst (track_pod s p)) (snd (track_pod s p)) \<and> set (snd (track_pod s p)) \<subseteq> insert p (set (snd s))"
      using Cons.prems counts_add[of fixed "fst s" "snd s" p] by (auto simp: track_pod_def pods_put_def)
    note here = this
    have "podKey ` set (snd (track_pod s p)) \<subseteq> insert (podKey p) (podKey ` set (snd s))" using here by blast
    moreover have "podKey p \<notin> podKey ` set items" "podKey ` set (snd s) \<inter> podKey ` set items = {}" using Cons.prems(2,3) by auto
    ultimately have disj: "podKey ` set (snd (track_pod s p)) \<inter> podKey ` set items = {}" by (rule disjoint_insert_subset)
    have "distinct (map podKey items)" using Cons.prems(3) by simp
    from Cons.IH[OF conjunct1[OF here] disj this] here show ?case by (simp only: foldl_Cons list.set) blast
  qed simp
  have "counts fixed (nodeResetAllocated n) []"
    by (simp add: counts_def counted_kind_def nodeResetAllocated_spec tracked_requests_def del: allocated_for.simps)
  then show ?thesis using main[of "(nodeResetAllocated n, [])"] by (simp add: recount_def)
qed

text \<open>Requests are not negative, so sums of them are not.\<close>

definition pod_ok :: "kube_pod \<Rightarrow> bool" where
  "pod_ok p \<longleftrightarrow> (\<forall>c\<in>set (pod_Containers p). \<forall>r\<in>set c. 0 \<le> snd r) \<and> (\<forall>l\<in>set (memory_limits p). 0 \<le> l)"

lemma pod_requests_nonneg: "pod_ok p \<Longrightarrow> 0 \<le> pod_requests ic p k"
  unfolding pod_requests_def container_requests_def by (force simp: pod_ok_def intro!: sum_list_nonneg add_nonneg_nonneg)

lemma counts_nonneg: "counts fixed n ps \<Longrightarrow> \<forall>p\<in>set ps. pod_ok p \<Longrightarrow> counted_kind fixed k \<Longrightarrow> \<exists>a\<ge>0. allocated_for n k = Some a"
  by (auto simp: counts_def tracked_requests_def pod_requests_nonneg simp del: allocated_for.simps intro!: sum_list_nonneg)

text \<open>
  What the events bring: lists of pods have one pod for a key, requests are not negative, and with \<open>fixed\<close> the patterns of the
  interconnect are the same in every configuration.
\<close>

definition pods_answer_ok :: "kube_pod list option \<Rightarrow> bool" where
  "pods_answer_ok a \<longleftrightarrow> (case a of None \<Rightarrow> True | Some ps \<Rightarrow> distinct (map podKey ps) \<and> (\<forall>p\<in>set ps. pod_ok p))"

fun event_ok :: "bool \<Rightarrow> string list \<Rightarrow> 'v mon_event \<Rightarrow> bool" where
  "event_ok fixed pats (MonConfig c) \<longleftrightarrow> (fixed \<longrightarrow> ResourcePatterns c = pats)"
| "event_ok fixed pats (MonNode t obj ib answer) \<longleftrightarrow> pods_answer_ok answer"
| "event_ok fixed pats (MonPodsClosed answer) \<longleftrightarrow> pods_answer_ok answer"
| "event_ok fixed pats (MonPod t p) \<longleftrightarrow> pod_ok p"
| "event_ok fixed pats e \<longleftrightarrow> True"

definition mon_inv :: "bool \<Rightarrow> string list \<Rightarrow> 'v monitor \<Rightarrow> bool" where
  "mon_inv fixed pats m \<longleftrightarrow>
     (mn_pc m = MonRunning \<longrightarrow> counts fixed (mn_node m) (mn_currPods m) \<and> (\<forall>p\<in>set (mn_currPods m). pod_ok p) \<and>
        (fixed \<longrightarrow> ResourcePatterns (mn_cfg m) = pats) \<and> (mn_updated m \<and> mn_currLabels m = [] \<longrightarrow> mn_statech m)) \<and>
     (\<forall>name n k. NodeUpdated name n \<in> set (mn_published m) \<longrightarrow> counted_kind fixed k \<longrightarrow> (\<exists>a\<ge>0. allocated_for n k = Some a))"

lemma mon_leave_inv: "mon_inv fixed pats m \<Longrightarrow> mon_inv fixed pats (mon_leave name m)"
  by (auto simp: mon_inv_def mon_leave_def simp del: allocated_for.simps)

text \<open>A restart recounts, whatever the node says before.\<close>

lemma restart_inv:
  assumes "pods_answer_ok answer" "mn_pc m = MonRunning" "fixed \<longrightarrow> ResourcePatterns (mn_cfg m) = pats" "mn_updated m \<and> mn_currLabels m = [] \<longrightarrow> mn_statech m"
    "\<forall>name n k. NodeUpdated name n \<in> set (mn_published m) \<longrightarrow> counted_kind fixed k \<longrightarrow> (\<exists>a\<ge>0. allocated_for n k = Some a)"
  shows "mon_inv fixed pats (restartPodsWatcher name answer m)"
proof (cases answer)
  case None
  then show ?thesis using assms by (auto simp: restartPodsWatcher_def mon_inv_def mon_leave_def simp del: allocated_for.simps)
next
  case (Some items)
  obtain n ps where r: "recount (mn_node m) items = (n, ps)" by fastforce
  have "counts fixed n ps" "\<forall>p\<in>set ps. pod_ok p"
    using recount_counts[of items fixed "mn_node m"] r assms(1) Some by (auto simp: pods_answer_ok_def)
  then show ?thesis using assms(2-5) r Some by (auto simp: restartPodsWatcher_def mon_inv_def simp del: allocated_for.simps)
qed

lemma set_classes_frame [simp]:
  "allocated_for (set_classes n cs) k = allocated_for n k" "InterconnectResourceName (Capabilities (set_classes n cs)) = InterconnectResourceName (Capabilities n)"
  by (cases k; simp add: set_classes_def)+

lemma generateLabels_node: "generateLabels cfg kn n sc = Some (l, n') \<Longrightarrow> \<exists>cs. n' = set_classes n cs"
  by (auto simp: generateLabels_def Let_def split: option.splits if_splits)

lemma counts_classes [simp]: "counts fixed (set_classes n cs) ps = counts fixed n ps"
  by (simp add: counts_def del: allocated_for.simps)

lemma mon_labels_inv: "mon_inv fixed pats m \<Longrightarrow> mn_pc m = MonRunning \<Longrightarrow> mon_inv fixed pats (mon_labels m)"
  unfolding mon_labels_def mon_inv_def Let_def
  by (auto split: option.splits dest!: generateLabels_node simp del: allocated_for.simps)

lemma mon_state_inv: "mon_inv fixed pats m \<Longrightarrow> mn_pc m = MonRunning \<Longrightarrow> mon_inv fixed pats (mon_state name m)"
  using counts_nonneg[of fixed "mn_node m" "mn_currPods m"]
  unfolding mon_state_def mon_inv_def Let_def by (auto simp del: allocated_for.simps)

lemma find_pod_Some: "find_pod key ps = Some q \<Longrightarrow> q \<in> set ps \<and> podKey q = key"
  by (auto simp: find_pod_def find_Some_iff)

lemma find_pod_None: "find_pod key ps = None \<longleftrightarrow> key \<notin> podKey ` set ps"
  by (auto simp: find_pod_def find_None_iff)

lemma mon_pod_inv:
  assumes "mon_inv fixed pats m" "mn_pc m = MonRunning" "pod_ok p"
  shows "mon_inv fixed pats (mon_pod t p m)"
proof -
  have c: "counts fixed (mn_node m) (mn_currPods m)" "\<forall>q\<in>set (mn_currPods m). pod_ok q" using assms(1,2) by (auto simp: mon_inv_def)
  have add: "counts fixed (addPodAllocatedResources (mn_node m) p) (pods_put p (mn_currPods m))" if "find_pod (podKey p) (mn_currPods m) = None"
    using counts_add[OF c(1)] that by (simp add: find_pod_None)
  have sub: "counts fixed (subPodAllocatedResources (mn_node m) q) (filter (\<lambda>r. podKey r \<noteq> podKey p) (mn_currPods m))"
    if "find_pod (podKey p) (mn_currPods m) = Some q" for q
    using counts_sub[OF c(1), of q] find_pod_Some[OF that] by simp
  have put: "\<forall>q\<in>set (pods_put p (mn_currPods m)). pod_ok q" using c(2) assms(3) by (auto simp: pods_put_def)
  show ?thesis using assms(1,2) add sub put c
    by (cases t) (simp_all add: mon_pod_def mon_inv_def del: allocated_for.simps split: option.split)
qed

lemma counts_updateNodeInfo:
  assumes "counts False n ps"
  shows "counts False (updateNodeInfo kn n pats) ps"
  using assms tracked_requests_other[of _ "InterconnectResourceName (Capabilities n)" ps "InterconnectResourceName (Capabilities (updateNodeInfo kn n pats))"]
  by (auto simp: counts_def counted_kind_def updateNodeInfo_allocated simp del: allocated_for.simps)

lemma mon_config_inv:
  assumes "mon_inv fixed pats m" "mn_pc m = MonRunning" "fixed \<longrightarrow> ResourcePatterns c = pats"
  shows "mon_inv fixed pats (mon_config c m)"
  using assms counts_updateNodeInfo[of "mn_node m" "mn_currPods m" "mn_knode m" "ResourcePatterns c"]
  by (cases fixed) (auto simp: mon_config_def mon_inv_def Let_def simp del: allocated_for.simps)

lemma mon_node_inv:
  assumes "mon_inv fixed pats m" "mn_pc m = MonRunning" "pods_answer_ok answer"
  shows "mon_inv fixed pats (mon_node name t obj ib answer m)"
proof -
  let ?m = "m\<lparr>mn_node := updateNodeInfo obj (set_ib (parseIBInfo ib) (mn_node m)) (ResourcePatterns (mn_cfg m))\<rparr>"
  have "mon_inv fixed pats (restartPodsWatcher name answer ?m)"
    using assms by (intro restart_inv) (auto simp: mon_inv_def simp del: allocated_for.simps)
  then show ?thesis using assms(1,2) by (auto simp: mon_node_def mon_inv_def Let_def simp del: allocated_for.simps)
qed

lemma gpu_info_frame: "counts fixed (n\<lparr>GPU_Info := gs\<rparr>) ps = counts fixed n ps"
proof -
  have "allocated_for (n\<lparr>GPU_Info := gs\<rparr>) k = allocated_for n k" for k by (cases k) simp_all
  then show ?thesis by (simp add: counts_def del: allocated_for.simps)
qed

lemma mon_turn_inv:
  assumes "mon_inv fixed pats m" "event_ok fixed pats e"
  shows "mon_inv fixed pats (mon_turn gs name m e)"
proof (cases "mn_pc m = MonRunning")
  case True
  have restart: "mon_inv fixed pats (restartPodsWatcher name a m)" if "pods_answer_ok a" for a
    using assms(1) True that by (intro restart_inv) (auto simp: mon_inv_def simp del: allocated_for.simps)
  have plain: "mon_inv fixed pats (m\<lparr>mn_sc := sc, mn_labelch := True\<rparr>)" "mon_inv fixed pats (m\<lparr>mn_pc := MonPanicked\<rparr>)"
    "mon_inv fixed pats (m\<lparr>mn_gpusIDs := reg, mn_node := (mn_node m)\<lparr>GPU_Info := gi\<rparr>, mn_labelch := True\<rparr>)" for sc reg gi
    using assms(1) by (simp_all add: mon_inv_def gpu_info_frame del: allocated_for.simps)
  show ?thesis using assms True restart plain
    by (cases e) (simp_all add: mon_turn_def mon_leave_inv mon_config_inv mon_node_inv mon_pod_inv mon_state_inv mon_labels_inv)
qed (simp add: mon_turn_def assms(1))

lemma mon_run_inv:
  assumes "mon_inv fixed pats m" "list_all (event_ok fixed pats) es"
  shows "mon_inv fixed pats (mon_run gs name m es)"
  using assms unfolding mon_run_def by (induction es arbitrary: m) (simp_all add: mon_turn_inv)

lemma mon_start_inv: "pods_answer_ok answer \<Longrightarrow> mon_inv fixed (ResourcePatterns cfg) (mon_start gs name cfg sc reg knode cpus ghw pci ib answer)"
  unfolding mon_start_def Let_def by (rule restart_inv) simp_all

section \<open>Properties of the monitor\<close>


text \<open>
  A change of the patterns gives the interconnect another name and keeps the amount that was counted under the old one. When
  the pods that use the new name leave, more is subtracted than was added, and the state that is published has a negative
  amount.
\<close>

theorem pattern_change_publishes_negative:
  assumes "mn_pc m = MonRunning" "mn_currLabels m \<noteq> []" "find_pod (podKey q) (mn_currPods m) = Some q"
    and "ResourcePatterns c \<noteq> ResourcePatterns (mn_cfg m)" "allocated_for (mn_node m) RInterconnect = Some a"
    and "a < pod_requests (InterconnectResourceName (Capabilities (updateNodeInfo (mn_knode m) (mn_node m) (ResourcePatterns c)))) q RInterconnect"
  shows "\<exists>n b. NodeUpdated name n \<in> set (mn_published (mon_run gs name m [MonConfig c, MonPod WatchDeleted q, MonState])) \<and>
    allocated_for n RInterconnect = Some b \<and> b < 0"
proof -
  let ?n1 = "updateNodeInfo (mn_knode m) (mn_node m) (ResourcePatterns c)"
  let ?n = "subPodAllocatedResources ?n1 q"
  have "NodeUpdated name ?n \<in> set (mn_published (mon_run gs name m [MonConfig c, MonPod WatchDeleted q, MonState]))"
    using assms(1-4) by (simp add: mon_run_def mon_turn_def mon_config_def mon_pod_def mon_state_def Let_def)
  moreover have "allocated_for ?n RInterconnect = Some (a - pod_requests (InterconnectResourceName (Capabilities ?n1)) q RInterconnect)"
    using assms(5) by (simp add: subPod_allocated updateNodeInfo_allocated del: allocated_for.simps)
  ultimately show ?thesis using assms(6) by fastforce
qed

text \<open>What makes a node unusable, in the terms of Kubernetes and of the configuration: a taint that keeps pods off or evicts them, no
  \<open>Ready\<close> condition that is true, a cordon, or a name that a pattern of the excluded nodes matches.\<close>

definition unusable :: "'v Config \<Rightarrow> kube_node \<Rightarrow> bool" where
  "unusable cfg kn \<longleftrightarrow> ''NoSchedule'' \<in> set (kn_Taints kn) \<or> ''NoExecute'' \<in> set (kn_Taints kn) \<or> (''Ready'', ''True'') \<notin> set (kn_Conditions kn) \<or>
     kn_Unschedulable kn \<or> list_ex (\<lambda>r. r (kn_Name kn)) (ex_Nodes (cfg_Exclude cfg))"

lemma unusable_excluded: "unusable cfg kn \<Longrightarrow> is_excluded cfg kn"
  by (auto simp: unusable_def is_excluded_def isNodeReady_def IsNodeExcluded_def list_ex_iff dest: map_of_SomeD split: option.splits)

text \<open>C18: A node that can no longer be used is withdrawn. From every state a run reaches with the filter of the configuration intact, when the
  node has a taint \<open>NoSchedule\<close> or \<open>NoExecute\<close>, has no true \<open>Ready\<close> condition, is cordoned or is excluded by name in the configuration, and its
  labels are due, the next turns of the label and the state signal leave the node unpublished: nothing is published about it any more, or its
  removal is the last thing that was. (Kubernetes lists each pod once, and no pod requests a negative amount.)\<close>

theorem unusable_node_withdrawn:
  assumes "m = mon_run gs name (mon_start gs name cfg sc reg knode cpus ghw pci ib answer) es"
    and "pods_answer_ok answer" "list_all (event_ok False (ResourcePatterns cfg)) es" "mn_pc m = MonRunning" "mn_labelch m"
    and "FilterOutStorageClasses (Config_Copy (mn_cfg m)) (sort (mn_sc m)) = Some adj" "unusable (mn_cfg m) (mn_knode m)"
    and "m' = mon_run gs name m [MonLabels, MonState]"
  shows "\<not> mn_updated m' \<and> mn_currLabels m' = [] \<and>
    mn_published m' = mn_published m @ (if mn_updated m then [NodeRemoved name] else [])"
proof -
  have inv: "mon_inv False (ResourcePatterns cfg) m" unfolding assms(1) by (rule mon_run_inv[OF mon_start_inv[OF assms(2)] assms(3)])
  have ex: "ex_Nodes (cfg_Exclude adj) = ex_Nodes (cfg_Exclude (mn_cfg m))"
    using assms(6) by (auto simp: FilterOutStorageClasses_def Config_Copy_def Let_def split: if_splits option.splits)
  then have "generateLabels (mn_cfg m) (mn_knode m) (mn_node m) (mn_sc m) = Some ([], set_classes (mn_node m) [])"
    using assms(6) unusable_excluded[OF assms(7)] by (simp add: generateLabels_def is_excluded_def IsNodeExcluded_def)
  then show ?thesis
    using inv assms(4,5,8) by (auto simp: mon_run_def mon_turn_def mon_labels_def mon_state_def mon_inv_def Let_def copyManagedLabels_def)
qed

text \<open>An error event of the watch of the pods, as Kubernetes sends when a watch expires, takes the operator down.\<close>

lemma watch_error_panics: "mn_pc m = MonRunning \<Longrightarrow> mn_pc (mon_turn gs name m MonPodError) = MonPanicked"
  by (simp add: mon_turn_def)

text \<open>The labels count the GPUs of each model, memory size and interface.\<close>

lemma map_of_label_put [simp]: "map_of (label_put k v l) = (map_of l)(k \<mapsto> v)"
  by (induction l) (auto simp: fun_eq_iff)

lemma label_counts:
  assumes "map_of l key = (if c = 0 then None else Some (itoa c))" "c + length ks < 2 ^ 32"
  shows "map_of (foldl label_count l ks) key = (if c + count_list ks key = 0 then None else Some (itoa (c + count_list ks key)))"
  using assms
proof (induction ks arbitrary: l c)
  case (Cons k ks)
  have one: "itoa 1 = ''1''" by code_simp
  have "map_of (label_count l k) key = (if c + (if k = key then 1 else 0) = 0 then None else Some (itoa (c + (if k = key then 1 else 0))))"
    using Cons.prems one by (auto simp: label_count_def parse_count_def min_def)
  from Cons.IH[OF this] Cons.prems show ?case by (auto split: if_splits)
qed simp

lemma gpu_label_counts:
  assumes "key \<noteq> labelNvidiaComGPUPresent" "map_of l key = (if c = 0 then None else Some (itoa c))" "c + length (concat (map gpu_keys gs)) < 2 ^ 32"
  shows "map_of (foldl gpu_labels l gs) key =
    (if c + count_list (concat (map gpu_keys gs)) key = 0 then None else Some (itoa (c + count_list (concat (map gpu_keys gs)) key)))"
  using assms(2,3)
proof (induction gs arbitrary: l c)
  case (Cons g gs)
  let ?l = "if Vendor g = ''nvidia'' then label_put labelNvidiaComGPUPresent ''true'' l else l"
  have "map_of ?l key = (if c = 0 then None else Some (itoa c))" using Cons.prems(1) assms(1) by simp
  then have step: "map_of (gpu_labels l g) key =
      (if c + count_list (gpu_keys g) key = 0 then None else Some (itoa (c + count_list (gpu_keys g) key)))"
    unfolding gpu_labels_def using Cons.prems(2) by (intro label_counts) simp_all
  have "count_list (gpu_keys g) key \<le> length (gpu_keys g)" by (rule count_le_length)
  then have "c + count_list (gpu_keys g) key + length (concat (map gpu_keys gs)) < 2 ^ 32" using Cons.prems(2) by simp
  from Cons.IH[OF step this] show ?case by (simp add: count_list_append add.assoc)
qed simp

lemma capability_keys:
  "model_key g \<noteq> AkashManagedLabelName" "model_key g \<noteq> labelNvidiaComGPUPresent" "model_key g \<noteq> AkashServiceCapabilityStorage @ ''.class.'' @ cls"
proof -
  have m: "take 28 (model_key g) = ''akash.network/capabilities.g''" by (simp add: model_key_def AkashServiceCapabilityGPU_def)
  have "take 28 AkashManagedLabelName \<noteq> ''akash.network/capabilities.g''" by (simp add: AkashManagedLabelName_def)
  then show "model_key g \<noteq> AkashManagedLabelName" using m by metis
  have "take 28 labelNvidiaComGPUPresent \<noteq> ''akash.network/capabilities.g''" by (simp add: labelNvidiaComGPUPresent_def ResourceGPUNvidia_def)
  then show "model_key g \<noteq> labelNvidiaComGPUPresent" using m by metis
  have "take 28 (AkashServiceCapabilityStorage @ ''.class.'' @ cls) \<noteq> ''akash.network/capabilities.g''" by (simp add: AkashServiceCapabilityStorage_def)
  then show "model_key g \<noteq> AkashServiceCapabilityStorage @ ''.class.'' @ cls" using m by metis
qed

lemma class_labels_other: "\<forall>cls\<in>set cs. key \<noteq> AkashServiceCapabilityStorage @ ''.class.'' @ cls \<Longrightarrow>
   map_of (foldl (\<lambda>l cls. label_put (AkashServiceCapabilityStorage @ ''.class.'' @ cls) ''1'' l) l cs) key = map_of l key"
  by (induction cs arbitrary: l) simp_all

text \<open>
  The label of a GPU model says how many GPUs of the node carry it: the provider schedules a workload for a model by this label.
\<close>

theorem model_label_counts:
  assumes "generateLabels cfg kn n sc = Some (labels, n')" "labels \<noteq> []" "g \<in> set (GPU_Info n)" "length (concat (map gpu_keys (GPU_Info n))) < 2 ^ 32"
  shows "map_of labels (model_key g) = Some (itoa (count_list (concat (map gpu_keys (GPU_Info n))) (model_key g)))"
proof -
  obtain allowed where l: "labels = foldl gpu_labels (foldl (\<lambda>l cls. label_put (AkashServiceCapabilityStorage @ ''.class.'' @ cls) ''1'' l)
      (label_put AkashManagedLabelName ''true'' []) allowed) (GPU_Info n)"
    using assms(1,2) by (auto simp: generateLabels_def Let_def split: option.splits if_splits)
  have "model_key g \<in> set (concat (map gpu_keys (GPU_Info n)))" using assms(3) by (auto simp: gpu_keys_def)
  then have pos: "count_list (concat (map gpu_keys (GPU_Info n))) (model_key g) \<noteq> 0" by (metis count_list_0_iff)
  show ?thesis unfolding l
    by (subst gpu_label_counts[where c = 0]) (use capability_keys[of g] class_labels_other[of allowed "model_key g"] assms(4) pos in simp_all)
qed

section \<open>A node with one pod\<close>

definition ex_pod :: kube_pod where
  "ex_pod = \<lparr>pod_Namespace = ''lease1'', pod_Name = ''web-0'', pod_Conditions = [(''PodScheduled'', ''True'')],
     pod_Containers = [[(''cpu'', 2 * 10 ^ 9), (''rdma/rdma_shared_device_ib'', 10 ^ 9)]], pod_Volumes = []\<rparr>"

definition ex_knode :: kube_node where
  "ex_knode = \<lparr>kn_Name = ''node1'', kn_Labels = [(AkashManagedLabelName, ''true'')], kn_Unschedulable = True, kn_Taints = [],
     kn_Conditions = [(''Ready'', ''True'')], kn_Architecture = ''x86_64'', kn_Allocatable = [(''rdma/rdma_shared_device_ib'', 8 * 10 ^ 9)], kn_Capacity = []\<rparr>"

definition ex_conf :: "string list \<Rightarrow> nat Config" where
  "ex_conf pats = zero_config\<lparr>ResourcePatterns := pats\<rparr>"

definition ex_begin :: "string list \<Rightarrow> kube_pod list \<Rightarrow> nat monitor" where
  "ex_begin pats pods = mon_start keep_order ''node1'' (ex_conf pats) [] Map.empty (Some ex_knode) [] None None None (Some pods)"

lemma ex_pod_simps: "podKey ex_pod = ''lease1/web-0''" "isPodAllocated ex_pod" "pod_ok ex_pod" "memory_limits ex_pod = []"
  by (simp_all add: podKey_def isPodAllocated_def pod_ok_def memory_limits_def ex_pod_def List.map_filter_def)


text \<open>The same node, uncordoned and ready, but tainted.\<close>

definition ex_tainted :: kube_node where
  "ex_tainted = ex_knode\<lparr>kn_Unschedulable := False, kn_Taints := [''PreferNoSchedule'', ''NoExecute'']\<rparr>"

definition ex_tainted_begin :: "nat monitor" where
  "ex_tainted_begin = mon_start keep_order ''node1'' (ex_conf []) [] Map.empty (Some ex_tainted) [] None None None (Some [])"

theorem unusable_node_withdrawn_witness:
  "\<exists>m'. m' = mon_run keep_order ''node1'' ex_tainted_begin [MonPod WatchAdded ex_pod, MonState, MonClasses [], MonLabels, MonState] \<and>
     \<not> mn_updated m' \<and> mn_currLabels m' = [] \<and> last (mn_published m') = NodeRemoved ''node1''"
proof -
  let ?es = "[MonPod WatchAdded ex_pod, MonState, MonClasses []] :: nat mon_event list"
  let ?m = "mon_run keep_order ''node1'' ex_tainted_begin ?es"
  let ?m' = "mon_run keep_order ''node1'' ?m [MonLabels, MonState]"
  have ok: "pods_answer_ok (Some [])" "list_all (event_ok False (ResourcePatterns (ex_conf []))) ?es"
    by (simp_all add: pods_answer_ok_def ex_pod_simps)
  have managed: "copyManagedLabels (kn_Labels ex_tainted) = [(AkashManagedLabelName, ''true'')]"
    by (simp add: copyManagedLabels_def ex_tainted_def ex_knode_def isLabelManaged_def has_prefix_def)
  have run: "mn_pc ?m = MonRunning" "mn_labelch ?m" "mn_updated ?m" "mn_cfg ?m = ex_conf []" "mn_sc ?m = []" "mn_knode ?m = ex_tainted"
    by (simp_all add: mon_run_def mon_turn_def ex_tainted_begin_def mon_start_def restartPodsWatcher_def recount_def mon_pod_def mon_state_def find_pod_def
        ex_pod_simps pods_put_def Let_def managed)
  have f: "FilterOutStorageClasses (Config_Copy (mn_cfg ?m)) (sort (mn_sc ?m)) = Some (Config_Copy (ex_conf []))"
    by (simp add: run FilterOutStorageClasses_def Config_Copy_def ex_conf_def zero_config_def)
  have e: "unusable (mn_cfg ?m) (mn_knode ?m)" by (simp add: run unusable_def ex_tainted_def)
  have "\<not> mn_updated ?m' \<and> mn_currLabels ?m' = [] \<and> mn_published ?m' = mn_published ?m @ [NodeRemoved ''node1'']"
    using unusable_node_withdrawn[OF _ ok run(1,2) f e refl, of keep_order "''node1''" "[]" Map.empty "Some ex_tainted" "[]" None None None] run(3)
    by (simp add: ex_tainted_begin_def)
  then show ?thesis by (simp add: mon_run_def)
qed

lemma ex_interconnect:
  "matchInterconnectResourceName (kn_Allocatable ex_knode) [''other/''] = []" "matchInterconnectResourceName [] pats = []"
  "matchInterconnectResourceName (kn_Allocatable ex_knode) [] = ''rdma/rdma_shared_device_ib''"
proof -
  have "first_match [] l = []" for l by (induction l) (simp_all add: best_match_def)
  then show "matchInterconnectResourceName [] pats = []" by (simp add: matchInterconnectResourceName_def)
  show "matchInterconnectResourceName (kn_Allocatable ex_knode) [''other/''] = []"
    by (simp add: matchInterconnectResourceName_def ex_knode_def best_match_def resourcePatternMatches_def has_prefix_def)
  show "matchInterconnectResourceName (kn_Allocatable ex_knode) [] = ''rdma/rdma_shared_device_ib''"
    by (simp add: matchInterconnectResourceName_def ex_knode_def best_match_def default_pattern_matches has_prefix_def rdma_prefix_def)
qed

theorem pattern_change_publishes_negative_witness:
  "\<exists>n b. NodeUpdated ''node1'' n \<in> set (mn_published (mon_run keep_order ''node1'' (ex_begin [''other/''] [ex_pod])
       [MonConfig (ex_conf []), MonPod WatchDeleted ex_pod, MonState])) \<and> allocated_for n RInterconnect = Some b \<and> b < 0"
proof -
  let ?m = "ex_begin [''other/''] [ex_pod]"
  have cap: "kn_Capacity ex_knode = []" by (simp add: ex_knode_def)
  have managed: "copyManagedLabels (kn_Labels ex_knode) = [(AkashManagedLabelName, ''true'')]"
    by (simp add: copyManagedLabels_def ex_knode_def isLabelManaged_def has_prefix_def)
  have m: "mn_pc ?m = MonRunning" "mn_currLabels ?m \<noteq> []" "mn_currPods ?m = [ex_pod]" "ResourcePatterns (mn_cfg ?m) = [''other/'']" "mn_knode ?m = ex_knode"
    by (simp_all add: ex_begin_def mon_start_def restartPodsWatcher_def recount_def track_pod_def ex_pod_simps pods_put_def Let_def managed ex_conf_def)
  have ic: "InterconnectResourceName (Capabilities (updateNodeInfo ex_knode n [''other/''])) = []"
    "InterconnectResourceName (Capabilities (updateNodeInfo ex_knode n [])) = ''rdma/rdma_shared_device_ib''" for n
    by (simp_all add: updateNodeInfo_def Let_def cap ex_interconnect)
  have req: "pod_requests [] ex_pod RInterconnect = 0" "pod_requests ''rdma/rdma_shared_device_ib'' ex_pod RInterconnect = 10 ^ 9"
    by (simp_all add: pod_requests_def ex_pod_simps) (simp_all add: ex_pod_def container_requests_def kind_of_def gpu_names)
  have "allocated_for (mn_node ?m) RInterconnect = Some 0"
    by (simp add: ex_begin_def mon_start_def restartPodsWatcher_def recount_def track_pod_def ex_pod_simps Let_def addPod_allocated
        nodeResetAllocated_spec initNodeInfo_def ic ex_conf_def req del: allocated_for.simps)
  from pattern_change_publishes_negative[OF m(1,2) _ _ this, of ex_pod "ex_conf []" "''node1''" keep_order] m req ic
  show ?thesis by (simp add: find_pod_def ex_conf_def del: allocated_for.simps)
qed

end
