(* ===== verification/InventoryState.thy ===== *)
theory InventoryState
  imports NodeDiscovery
begin

text \<open>
  How the inventory operator puts the cluster together: the connector that runs one discovery per node and the table of node
  states (\<open>operator/inventory/nodes.go\<close>), the state of the cluster that is published to the provider
  (\<open>state.go\<close>), and the volumes of the local-path storage classes (\<open>rancher.go\<close>, \<open>diagnostics.go\<close>). Each goroutine is a function from
  its state and one event; a map is the list of its entries in the order of the keys.
\<close>

section \<open>The discoveries of the nodes\<close>

text \<open>
  A discovery ends by sending its name to the connector, over a channel with room for one name. Shutting a discovery down waits for its
  end, and the connector, the only reader of the channel, does this in its own loop: when the channel is full it waits for ever.
  \<open>co_dead\<close> are the discoveries that have sent their name, \<open>co_started\<close> every start in order.
\<close>

record connector =
  co_nodes :: "string set"
  co_dead :: "string set"
  co_signals :: "string list"
  co_started :: "string list"
  co_blocked :: bool

datatype connector_event = CoEnds string | CoSignal | CoAdded string | CoDeleted string

definition newNodeDiscovery :: "string \<Rightarrow> connector \<Rightarrow> connector" where
  "newNodeDiscovery name c = c\<lparr>co_nodes := insert name (co_nodes c), co_dead := co_dead c - {name}, co_started := co_started c @ [name]\<rparr>"

definition discovery_shutdown :: "string \<Rightarrow> connector \<Rightarrow> connector" where
  "discovery_shutdown name c =
     (if name \<in> co_dead c then c
      else if co_signals c = [] then c\<lparr>co_dead := insert name (co_dead c), co_signals := [name]\<rparr>
      else c\<lparr>co_blocked := True\<rparr>)"

definition connector_step :: "connector \<Rightarrow> connector_event \<Rightarrow> connector" where
  "connector_step c e =
     (if co_blocked c then c
      else case e of
        CoEnds name \<Rightarrow>
          (if name \<in> co_nodes c \<and> name \<notin> co_dead c \<and> co_signals c = []
           then c\<lparr>co_dead := insert name (co_dead c), co_signals := [name]\<rparr> else c)
      | CoSignal \<Rightarrow>
          (case co_signals c of
             [] \<Rightarrow> c
           | name # rest \<Rightarrow>
               (let c1 = c\<lparr>co_signals := rest\<rparr>;
                    c2 = (if name \<in> co_nodes c then discovery_shutdown name (c1\<lparr>co_nodes := co_nodes c - {name}\<rparr>) else c1)
                in newNodeDiscovery name c2))
      | CoAdded name \<Rightarrow> newNodeDiscovery name c
      | CoDeleted name \<Rightarrow>
          (if name \<in> co_nodes c
           then (let c1 = discovery_shutdown name c in if co_blocked c1 then c1 else c1\<lparr>co_nodes := co_nodes c1 - {name}\<rparr>)
           else c))"

text \<open>
  A node that is deleted comes back: its discovery says goodbye on the channel, the connector takes that for a discovery that died and
  starts a new one for the node.
\<close>

theorem deleted_node_rediscovered:
  assumes "\<not> co_blocked c" "name \<in> co_nodes c" "name \<notin> co_dead c" "co_signals c = []"
  shows "name \<in> co_nodes (foldl connector_step c [CoDeleted name, CoSignal]) \<and>
    co_started (foldl connector_step c [CoDeleted name, CoSignal]) = co_started c @ [name]"
  using assms by (simp add: connector_step_def discovery_shutdown_def newNodeDiscovery_def Let_def)

text \<open>
  The connector can stop for ever: when one discovery has ended by itself and its name waits in the channel, the deletion of
  another node waits for room in the channel, which only the connector could make. No later event is handled.
\<close>

theorem connector_deadlocks:
  assumes "\<not> co_blocked c" "a \<in> co_nodes c" "b \<in> co_nodes c" "a \<noteq> b" "a \<notin> co_dead c" "b \<notin> co_dead c" "co_signals c = []"
  shows "co_blocked (foldl connector_step c [CoEnds a, CoDeleted b]) \<and>
    (\<forall>es. foldl connector_step c ([CoEnds a, CoDeleted b] @ es) = foldl connector_step c [CoEnds a, CoDeleted b])"
proof -
  let ?c = "foldl connector_step c [CoEnds a, CoDeleted b]"
  have b: "co_blocked ?c" using assms by (simp add: connector_step_def discovery_shutdown_def Let_def)
  have "foldl connector_step d es = d" if "co_blocked d" for d es using that by (induction es) (simp_all add: connector_step_def)
  then have "foldl connector_step ?c es = ?c" for es using b .
  then show ?thesis using b unfolding foldl_append by blast
qed

definition ex_connector :: connector where
  "ex_connector = foldl connector_step \<lparr>co_nodes = {}, co_dead = {}, co_signals = [], co_started = [], co_blocked = False\<rparr> [CoAdded ''a'', CoAdded ''b'']"

theorem deleted_node_rediscovered_witness: "''a'' \<in> co_nodes (foldl connector_step ex_connector [CoDeleted ''a'', CoSignal])"
  using deleted_node_rediscovered[of ex_connector "''a''"] by (simp add: ex_connector_def connector_step_def newNodeDiscovery_def)

theorem connector_deadlocks_witness: "co_blocked (foldl connector_step ex_connector [CoEnds ''a'', CoDeleted ''b''])"
  using connector_deadlocks[of ex_connector "''a''" "''b''"] by (simp add: ex_connector_def connector_step_def newNodeDiscovery_def)

section \<open>The table of the nodes\<close>

type_synonym node_table = "(string \<times> node) list"

fun state_name :: "node_state \<Rightarrow> string" where
  "state_name (NodeRemoved name) = name"
| "state_name (NodeUpdated name n) = name"

fun apply_state :: "node_table \<Rightarrow> node_state \<Rightarrow> node_table" where
  "apply_state t (NodeUpdated name n) = label_put name n t"
| "apply_state t (NodeRemoved name) = filter (\<lambda>(k, _). k \<noteq> name) t"

text \<open>\<open>nodes_sort\<close> is the order of the SDK. Every state publishes a new snapshot; a query is answered with one.\<close>

record nodes_service =
  cn_nodes :: node_table
  cn_snapshots :: "node list list"
  cn_answers :: "node list list"

datatype nodes_event = NodesState node_state | NodesQuery

definition nodes_snapshot :: "(node list \<Rightarrow> node list) \<Rightarrow> node_table \<Rightarrow> node list" where
  "nodes_snapshot nodes_sort t = nodes_sort (map snd t)"

definition nodes_step :: "(node list \<Rightarrow> node list) \<Rightarrow> nodes_service \<Rightarrow> nodes_event \<Rightarrow> nodes_service" where
  "nodes_step nodes_sort s e =
     (case e of
        NodesState st \<Rightarrow>
          (let t = apply_state (cn_nodes s) st in s\<lparr>cn_nodes := t, cn_snapshots := cn_snapshots s @ [nodes_snapshot nodes_sort t]\<rparr>)
      | NodesQuery \<Rightarrow> s\<lparr>cn_answers := cn_answers s @ [nodes_snapshot nodes_sort (cn_nodes s)]\<rparr>)"

lemma map_of_without: "map_of (filter (\<lambda>(k, _). k \<noteq> name) t) key = (if key = name then None else map_of t key)"
  by (induction t) auto

lemma map_of_apply_state:
  "map_of (apply_state t st) key = (if state_name st = key then (case st of NodeUpdated _ n \<Rightarrow> Some n | NodeRemoved _ \<Rightarrow> None) else map_of t key)"
  by (cases st) (auto simp: map_of_without)

text \<open>The entry of a node depends on the states of that node only.\<close>

lemma table_of_node: "map_of (foldl apply_state t evs) key = map_of (foldl apply_state t (filter (\<lambda>st. state_name st = key) evs)) key"
proof (induction evs rule: rev_induct)
  case (snoc st evs)
  then show ?case by (simp add: map_of_apply_state)
qed simp

lemma nodes_table: "cn_nodes (foldl (nodes_step srt) s es) = foldl apply_state (cn_nodes s) (List.map_filter (\<lambda>e. case e of NodesState st \<Rightarrow> Some st | _ \<Rightarrow> None) es)"
  by (induction es arbitrary: s) (auto simp: nodes_step_def List.map_filter_def Let_def split: nodes_event.split)

text \<open>What a monitor has published is in the table exactly while its last publication was an update.\<close>

definition table_inv :: "string \<Rightarrow> 'v monitor \<Rightarrow> bool" where
  "table_inv name m \<longleftrightarrow>
     (\<forall>st\<in>set (mn_published m). state_name st = name) \<and>
     (map_of (foldl apply_state [] (mn_published m)) name \<noteq> None \<longleftrightarrow> mn_updated m \<and> mn_pc m \<noteq> MonLeft)"

lemma table_inv_keep:
  "table_inv name m \<Longrightarrow> mn_published m' = mn_published m \<Longrightarrow> mn_updated m' = mn_updated m \<Longrightarrow> mn_pc m \<noteq> MonLeft \<Longrightarrow> mn_pc m' \<noteq> MonLeft \<Longrightarrow> table_inv name m'"
  by (simp add: table_inv_def)

lemma table_inv_leave: "table_inv name m \<Longrightarrow> mn_pc m \<noteq> MonLeft \<Longrightarrow> table_inv name (mon_leave name m)"
  by (auto simp: table_inv_def mon_leave_def map_of_without)

lemma table_inv_restart:
  "table_inv name m \<Longrightarrow> mn_pc m = MonRunning \<Longrightarrow> table_inv name (restartPodsWatcher name a m)"
  by (auto simp: restartPodsWatcher_def table_inv_leave split: option.split prod.split intro: table_inv_keep)

lemma table_inv_state: "table_inv name m \<Longrightarrow> mn_pc m = MonRunning \<Longrightarrow> table_inv name (mon_state name m)"
  by (auto simp: table_inv_def mon_state_def Let_def map_of_without)

lemma table_inv_node:
  assumes "table_inv name m" "mn_pc m = MonRunning"
  shows "table_inv name (mon_node name t obj ib a m)"
proof -
  let ?m = "m\<lparr>mn_node := updateNodeInfo obj (set_ib (parseIBInfo ib) (mn_node m)) (ResourcePatterns (mn_cfg m))\<rparr>"
  have "table_inv name ?m" using assms by (auto intro: table_inv_keep)
  then have r: "table_inv name (restartPodsWatcher name a ?m)" using assms(2) by (simp add: table_inv_restart)
  then have "table_inv name ((restartPodsWatcher name a ?m)\<lparr>mn_labelch := True, mn_knode := obj\<rparr>)" by (simp add: table_inv_def)
  then show ?thesis using r assms by (auto simp: mon_node_def Let_def intro: table_inv_keep)
qed

lemma table_inv_turn:
  assumes "table_inv name m"
  shows "table_inv name (mon_turn gs name m e)"
proof (cases "mn_pc m = MonRunning")
  case True
  have pod: "table_inv name (mon_pod t p m)" for t p
    by (rule table_inv_keep[OF assms]; cases t; simp add: mon_pod_def True split: option.split)
  have labels: "table_inv name (mon_labels m)"
    by (rule table_inv_keep[OF assms]) (auto simp: mon_labels_def Let_def True split: option.split)
  have cfg: "table_inv name (mon_config c m)" for c
    by (rule table_inv_keep[OF assms]) (auto simp: mon_config_def Let_def True)
  have rest: "table_inv name (m\<lparr>mn_sc := sc, mn_labelch := True\<rparr>)" "table_inv name (m\<lparr>mn_pc := MonPanicked\<rparr>)"
    "table_inv name (m\<lparr>mn_gpusIDs := reg, mn_node := (mn_node m)\<lparr>GPU_Info := gi\<rparr>, mn_labelch := True\<rparr>)" for sc reg gi
    using assms True by (auto intro: table_inv_keep)
  show ?thesis using assms True pod labels cfg rest
    by (cases e) (simp_all add: mon_turn_def table_inv_leave table_inv_restart table_inv_state table_inv_node)
qed (simp add: mon_turn_def assms)

lemma table_inv_run: "table_inv name m \<Longrightarrow> table_inv name (mon_run gs name m es)"
  unfolding mon_run_def by (induction es arbitrary: m) (simp_all add: table_inv_turn)

lemma table_inv_start: "table_inv name (mon_start gs name cfg sc reg knode cpus ghw pci ib answer)"
  unfolding mon_start_def Let_def by (rule table_inv_restart) (simp_all add: table_inv_def)

text \<open>C22: The table of the nodes follows the monitors. Whatever states of other nodes and queries come in between, when the table has taken what
  the monitor of a node published, the node is in it exactly when the monitor has not left and its last publication was an update; a monitor that has
  left leaves no entry behind.
\<close>

theorem table_follows_monitor:
  assumes "m = mon_run gs name (mon_start gs name cfg sc reg knode cpus ghw pci ib answer) es"
    and "filter (\<lambda>st. state_name st = name) (List.map_filter (\<lambda>e. case e of NodesState st \<Rightarrow> Some st | _ \<Rightarrow> None) evs) = mn_published m"
    and "s = foldl (nodes_step nodes_sort) \<lparr>cn_nodes = [], cn_snapshots = [], cn_answers = []\<rparr> evs"
  shows "map_of (cn_nodes s) name \<noteq> None \<longleftrightarrow> mn_updated m \<and> mn_pc m \<noteq> MonLeft"
proof -
  have "table_inv name m" unfolding assms(1) by (rule table_inv_run[OF table_inv_start])
  moreover have "map_of (cn_nodes s) name = map_of (foldl apply_state [] (mn_published m)) name"
    unfolding assms(3) nodes_table assms(2)[symmetric] by (simp add: table_of_node[symmetric])
  ultimately show ?thesis by (simp add: table_inv_def)
qed

definition keep_nodes :: "node list \<Rightarrow> node list" where "keep_nodes ns = ns"

theorem table_follows_monitor_witness:
  "\<exists>m s. m = mon_run keep_order ''node1'' (ex_begin [] []) [MonPod WatchAdded ex_pod, MonState, MonCancel] \<and>
     s = foldl (nodes_step keep_nodes) \<lparr>cn_nodes = [], cn_snapshots = [], cn_answers = []\<rparr> (map NodesState (mn_published m)) \<and>
     map_of (cn_nodes s) ''node1'' = None"
proof -
  let ?es = "[MonPod WatchAdded ex_pod, MonState, MonCancel] :: nat mon_event list"
  let ?m = "mon_run keep_order ''node1'' (ex_begin [] []) ?es"
  let ?s = "foldl (nodes_step keep_nodes) \<lparr>cn_nodes = [], cn_snapshots = [], cn_answers = []\<rparr> (map NodesState (mn_published ?m))"
  have r: "mn_pc (mon_run gs n m (xs @ [MonCancel])) = MonLeft" if "mn_pc (mon_run gs n m xs) = MonRunning" for gs n and m :: "nat monitor" and xs
    using that by (simp add: mon_run_def mon_turn_def mon_leave_def)
  have "mn_pc (mon_run keep_order ''node1'' (ex_begin [] []) ([MonPod WatchAdded ex_pod, MonState] :: nat mon_event list)) = MonRunning"
    by (simp add: mon_run_def mon_turn_def ex_begin_def mon_start_def restartPodsWatcher_def recount_def mon_pod_def mon_state_def find_pod_def
        ex_pod_simps Let_def)
  then have left: "mn_pc ?m = MonLeft" using r[of keep_order "''node1''" "ex_begin [] []" "[MonPod WatchAdded ex_pod, MonState]"] by simp
  have "table_inv ''node1'' ?m" unfolding ex_begin_def by (rule table_inv_run[OF table_inv_start])
  then have "filter (\<lambda>st. state_name st = ''node1'') (mn_published ?m) = mn_published ?m" by (simp add: table_inv_def filter_id_conv)
  moreover have "List.map_filter (\<lambda>e. case e of NodesState st \<Rightarrow> Some st | _ \<Rightarrow> None) (map NodesState sts) = sts" for sts
    by (induction sts) (simp_all add: List.map_filter_def)
  ultimately have "map_of (cn_nodes ?s) ''node1'' \<noteq> None \<longleftrightarrow> mn_updated ?m \<and> mn_pc ?m \<noteq> MonLeft"
    unfolding ex_begin_def by (intro table_follows_monitor[OF refl _ refl]) simp
  then show ?thesis using left by auto
qed

section \<open>The state of the cluster\<close>

text \<open>The storage of each driver as it last reported it; the configuration is consulted when a driver reports.\<close>

record 'v cluster_state =
  cs_storage :: "(string \<times> storage_class list) list"
  cs_state :: cluster
  cs_cfg :: "'v Config"
  cs_signal :: bool
  cs_published :: "cluster list"
  cs_answers :: "cluster list"

datatype 'v inv_cluster_event = ClConfig "'v Config" | ClNodes "node list" | ClStorage string "storage_class list" | ClQuery | ClSignal

definition offered_storage :: "'v Config \<Rightarrow> (string \<times> storage_class list) list \<Rightarrow> storage_class list" where
  "offered_storage cfg st = filter (\<lambda>c. HasStorageClass cfg (sc_Class c)) (concat (map snd st))"

definition clusterState_step :: "'v cluster_state \<Rightarrow> 'v inv_cluster_event \<Rightarrow> 'v cluster_state" where
  "clusterState_step s e =
     (case e of
        ClConfig c \<Rightarrow> s\<lparr>cs_cfg := c\<rparr>
      | ClNodes ns \<Rightarrow> s\<lparr>cs_state := (cs_state s)\<lparr>Nodes := ns\<rparr>, cs_signal := True\<rparr>
      | ClStorage driver st \<Rightarrow>
          (let all = label_put driver st (cs_storage s)
           in s\<lparr>cs_storage := all, cs_state := (cs_state s)\<lparr>Storage := offered_storage (cs_cfg s) all\<rparr>, cs_signal := True\<rparr>)
      | ClQuery \<Rightarrow> s\<lparr>cs_answers := cs_answers s @ [cs_state s]\<rparr>
      | ClSignal \<Rightarrow> if cs_signal s then s\<lparr>cs_signal := False, cs_published := cs_published s @ [cs_state s]\<rparr> else s)"

definition cluster_start :: "'v Config \<Rightarrow> 'v cluster_state" where
  "cluster_start cfg = \<lparr>cs_storage = [], cs_state = \<lparr>Nodes = [], Storage = []\<rparr>, cs_cfg = cfg, cs_signal = False, cs_published = [], cs_answers = []\<rparr>"

text \<open>
  A change of the configuration alone publishes nothing and changes no answer: a storage class that was taken out of the
  configuration is offered until a driver reports again.
\<close>

theorem config_change_not_published:
  "cs_state (clusterState_step s (ClConfig c)) = cs_state s \<and> cs_signal (clusterState_step s (ClConfig c)) = cs_signal s"
  by (simp add: clusterState_step_def)

text \<open>What is published of the storage are classes some configuration in force has, and what is published of the nodes is a snapshot.\<close>

definition inv_cluster_ok :: "'v Config set \<Rightarrow> node list set \<Rightarrow> 'v cluster_state \<Rightarrow> bool" where
  "inv_cluster_ok cfgs snaps s \<longleftrightarrow> cs_cfg s \<in> cfgs \<and>
     (\<forall>cl\<in>insert (cs_state s) (set (cs_published s) \<union> set (cs_answers s)).
        Nodes cl \<in> insert [] snaps \<and> (\<forall>c\<in>set (Storage cl). \<exists>cfg\<in>cfgs. HasStorageClass cfg (sc_Class c)))"

lemma inv_cluster_step:
  assumes "inv_cluster_ok cfgs snaps s" "\<forall>c. e = ClConfig c \<longrightarrow> c \<in> cfgs" "\<forall>ns. e = ClNodes ns \<longrightarrow> ns \<in> snaps"
  shows "inv_cluster_ok cfgs snaps (clusterState_step s e)"
  using assms by (cases e) (auto simp: inv_cluster_ok_def clusterState_step_def offered_storage_def Let_def)

lemma inv_cluster_run:
  assumes "inv_cluster_ok cfgs snaps s" "\<forall>c. ClConfig c \<in> set es \<longrightarrow> c \<in> cfgs" "\<forall>ns. ClNodes ns \<in> set es \<longrightarrow> ns \<in> snaps"
  shows "inv_cluster_ok cfgs snaps (foldl clusterState_step s es)"
  using assms by (induction es arbitrary: s) (simp_all add: inv_cluster_step)

theorem published_cluster_configured:
  assumes "cl \<in> set (cs_published (foldl clusterState_step (cluster_start cfg) es))" "c \<in> set (Storage cl)"
  shows "\<exists>cfg'. (cfg' = cfg \<or> ClConfig cfg' \<in> set es) \<and> HasStorageClass cfg' (sc_Class c)"
proof -
  let ?cfgs = "insert cfg {c. ClConfig c \<in> set es}"
  have "inv_cluster_ok ?cfgs {ns. ClNodes ns \<in> set es} (foldl clusterState_step (cluster_start cfg) es)"
    by (rule inv_cluster_run) (auto simp: inv_cluster_ok_def cluster_start_def)
  then show ?thesis using assms by (force simp: inv_cluster_ok_def)
qed

theorem published_cluster_configured_witness:
  "\<exists>cfg'. (cfg' = ex_cfg \<or> ClConfig cfg' \<in> set [ClStorage ''rancher'' [\<lparr>sc_Class = ''beta3'', sc_Quantity = zero_pair\<rparr>], ClSignal]) \<and> HasStorageClass cfg' ''beta3''"
  using published_cluster_configured[of "\<lparr>Nodes = [], Storage = [\<lparr>sc_Class = ''beta3'', sc_Quantity = zero_pair\<rparr>]\<rparr>" ex_cfg
      "[ClStorage ''rancher'' [\<lparr>sc_Class = ''beta3'', sc_Quantity = zero_pair\<rparr>], ClSignal]" "\<lparr>sc_Class = ''beta3'', sc_Quantity = zero_pair\<rparr>"]
  by (simp add: clusterState_step_def cluster_start_def offered_storage_def HasStorageClass_def ex_cfg_def)

end
