(* ===== verification/RancherStorage.thy ===== *)
theory RancherStorage
  imports InventoryState
begin

text \<open>
  The storage classes of the local-path provisioner (\<open>operator/inventory/rancher.go\<close>, \<open>subStorageAllocatedResource\<close> of \<open>diagnostics.go\<close>): the
  loop keeps, per storage class, what the persistent volumes of the class take, and reports the classes the provider manages. Maps
  are lists of their entries in the order of the keys; the answers of Kubernetes belong to the events.
\<close>

record rancher_class =
  isRancher :: bool
  isAkashManaged :: bool
  rc_allocated :: int

text \<open>A storage class as Kubernetes has it: its name, its provisioner and the value of the label of the provider.\<close>

record kube_class =
  kc_Name :: string
  kc_Provisioner :: string
  kc_Label :: string

record volume =
  pv_Name :: string
  pv_Class :: string
  pv_Capacity :: "int option"

record rancher =
  ra_scs :: "(string \<times> rancher_class) list"
  ra_pvs :: "(string \<times> volume) list"
  ra_allocatable :: int
  ra_watching :: bool
  ra_scrape :: bool
  ra_published :: "storage_class list list"
  ra_panicked :: bool

text \<open>
  A volume event brings the answer about its class, should the loop not know it; an event of a class brings the number of classes
  and the list of the volumes, used when the watch is started, \<open>None\<close> when it does not start: its channel is then read from nothing, a panic.
\<close>

datatype rancher_event =
    RaVolume watch_type volume kube_class
  | RaNode "int option"
  | RaClass watch_type kube_class nat "volume list option"
  | RaScrape

definition parse_bool_label :: "string \<Rightarrow> bool" where
  "parse_bool_label v \<longleftrightarrow> v \<in> {''1'', ''t'', ''T'', ''TRUE'', ''true'', ''True''}"

definition class_flags :: "kube_class \<Rightarrow> rancher_class \<Rightarrow> rancher_class" where
  "class_flags k r = r\<lparr>isRancher := (kc_Provisioner k = ''rancher.io/local-path''), isAkashManaged := parse_bool_label (kc_Label k)\<rparr>"

definition new_class :: rancher_class where
  "new_class = \<lparr>isRancher = False, isAkashManaged = False, rc_allocated = 0\<rparr>"

definition known_class :: "kube_class \<Rightarrow> string \<Rightarrow> (string \<times> rancher_class) list \<Rightarrow> rancher_class" where
  "known_class k name scs = (case map_of scs name of Some r \<Rightarrow> r | None \<Rightarrow> class_flags k new_class)"

definition add_volume_size :: "int \<Rightarrow> rancher_class \<Rightarrow> rancher_class" where
  "add_volume_size q r = r\<lparr>rc_allocated := rc_allocated r + q\<rparr>"

text \<open>Subtracting logs a result below zero and keeps it.\<close>

definition subStorageAllocatedResource :: "int \<Rightarrow> rancher_class \<Rightarrow> rancher_class" where
  "subStorageAllocatedResource q r = r\<lparr>rc_allocated := rc_allocated r - q\<rparr>"

definition rancher_volume :: "watch_type \<Rightarrow> volume \<Rightarrow> kube_class \<Rightarrow> rancher \<Rightarrow> rancher" where
  "rancher_volume t v k s =
     (let add = (case pv_Capacity v of
                   None \<Rightarrow> s
                 | Some q \<Rightarrow>
                     (let r = known_class k (pv_Class v) (ra_scs s)
                      in if map_of (ra_pvs s) (pv_Name v) = None
                         then s\<lparr>ra_scs := label_put (pv_Class v) (add_volume_size q r) (ra_scs s), ra_pvs := label_put (pv_Name v) v (ra_pvs s)\<rparr>
                         else s\<lparr>ra_scs := label_put (pv_Class v) r (ra_scs s)\<rparr>));
          del = (case pv_Capacity v of
                   None \<Rightarrow> s
                 | Some q \<Rightarrow>
                     (let s1 = s\<lparr>ra_pvs := filter (\<lambda>(n, _). n \<noteq> pv_Name v) (ra_pvs s)\<rparr>
                      in case map_of (ra_scs s) (pv_Class v) of
                           None \<Rightarrow> s1
                         | Some r \<Rightarrow> s1\<lparr>ra_scs := label_put (pv_Class v) (subStorageAllocatedResource q r) (ra_scs s)\<rparr>))
      in (case t of WatchAdded \<Rightarrow> add | WatchModified \<Rightarrow> add | WatchDeleted \<Rightarrow> del | _ \<Rightarrow> s)\<lparr>ra_scrape := True\<rparr>)"

definition list_volume :: "rancher \<Rightarrow> volume \<Rightarrow> rancher" where
  "list_volume s v =
     (case (pv_Capacity v, map_of (ra_scs s) (pv_Class v)) of
        (Some q, Some r) \<Rightarrow> s\<lparr>ra_scs := label_put (pv_Class v) (add_volume_size q r) (ra_scs s), ra_pvs := label_put (pv_Name v) v (ra_pvs s)\<rparr>
      | _ \<Rightarrow> s)"

definition rancher_class_event :: "watch_type \<Rightarrow> kube_class \<Rightarrow> nat \<Rightarrow> volume list option \<Rightarrow> rancher \<Rightarrow> rancher" where
  "rancher_class_event t k classes vols s =
     (let upd = (let r = (case map_of (ra_scs s) (kc_Name k) of None \<Rightarrow> new_class | Some r \<Rightarrow> r);
                     s1 = s\<lparr>ra_scs := label_put (kc_Name k) (class_flags k r) (ra_scs s)\<rparr>
                 in if classes = length (ra_scs s1) \<and> \<not> ra_watching s1
                    then (case vols of
                            None \<Rightarrow> s1\<lparr>ra_panicked := True\<rparr>
                          | Some vs \<Rightarrow> foldl list_volume (s1\<lparr>ra_watching := True\<rparr>) vs)
                    else s1)
      in (case t of WatchAdded \<Rightarrow> upd | WatchModified \<Rightarrow> upd | _ \<Rightarrow> s)\<lparr>ra_scrape := True\<rparr>)"

definition class_report :: "int \<Rightarrow> string \<times> rancher_class \<Rightarrow> storage_class" where
  "class_report cap c =
     \<lparr>sc_Class = fst c, sc_Quantity = \<lparr>Capacity = Some cap, Allocatable = Some cap, Allocated = Some (unit_value (rc_allocated (snd c)))\<rparr>\<rparr>"

definition rancher_scrape :: "rancher \<Rightarrow> rancher" where
  "rancher_scrape s =
     (let res = map (class_report (ra_allocatable s)) (filter (\<lambda>(_, r). isRancher r \<and> isAkashManaged r) (ra_scs s))
      in s\<lparr>ra_scrape := False, ra_published := ra_published s @ (if res \<noteq> [] then [res] else [])\<rparr>)"

definition rancher_step :: "rancher \<Rightarrow> rancher_event \<Rightarrow> rancher" where
  "rancher_step s e =
     (if ra_panicked s then s else case e of
        RaVolume t v k \<Rightarrow> if ra_watching s then rancher_volume t v k s else s
      | RaNode a \<Rightarrow> s\<lparr>ra_allocatable := (case a of None \<Rightarrow> ra_allocatable s | Some q \<Rightarrow> unit_value q), ra_scrape := True\<rparr>
      | RaClass t k classes vols \<Rightarrow> rancher_class_event t k classes vols s
      | RaScrape \<Rightarrow> if ra_scrape s then rancher_scrape s else s)"

definition rancher_start :: rancher where
  "rancher_start = \<lparr>ra_scs = [], ra_pvs = [], ra_allocatable = (2 ^ 63 - 1) * 10 ^ 9, ra_watching = False, ra_scrape = False, ra_published = [], ra_panicked = False\<rparr>"

section \<open>The volumes of a class\<close>

definition volume_size :: "volume \<Rightarrow> int" where
  "volume_size v = (case pv_Capacity v of None \<Rightarrow> 0 | Some q \<Rightarrow> q)"

definition class_volumes :: "(string \<times> volume) list \<Rightarrow> string \<Rightarrow> int" where
  "class_volumes pvs cls = sum_list (map (\<lambda>(_, v). if pv_Class v = cls then volume_size v else 0) pvs)"

definition class_allocated :: "(string \<times> rancher_class) list \<Rightarrow> string \<Rightarrow> int" where
  "class_allocated scs cls = (case map_of scs cls of None \<Rightarrow> 0 | Some r \<Rightarrow> rc_allocated r)"

text \<open>What is allocated in a class is what its volumes take, and the volumes have one entry each, under their name.\<close>

definition rancher_inv :: "rancher \<Rightarrow> bool" where
  "rancher_inv s \<longleftrightarrow> distinct (map fst (ra_pvs s)) \<and> (\<forall>(n, v) \<in> set (ra_pvs s). n = pv_Name v \<and> map_of (ra_scs s) (pv_Class v) \<noteq> None) \<and>
     (\<forall>cls. class_allocated (ra_scs s) cls = class_volumes (ra_pvs s) cls)"

lemma class_allocated_put [simp]:
  "class_allocated (label_put c r scs) cls = (if cls = c then rc_allocated r else class_allocated scs cls)"
  by (simp add: class_allocated_def)

lemma set_label_put: "k \<notin> fst ` set l \<Longrightarrow> set (label_put k v l) = insert (k, v) (set l)"
  by (induction l) (auto split: if_splits)

lemma distinct_label_put: "k \<notin> fst ` set l \<Longrightarrow> distinct (map fst l) \<Longrightarrow> distinct (map fst (label_put k v l))"
proof (induction l)
  case (Cons x l)
  then show ?case by (cases x) (auto simp: set_label_put)
qed simp

lemma class_volumes_put: "n \<notin> fst ` set pvs \<Longrightarrow> class_volumes (label_put n v pvs) cls = class_volumes pvs cls + (if pv_Class v = cls then volume_size v else 0)"
  by (induction pvs) (auto simp: class_volumes_def)

lemma class_volumes_remove:
  "distinct (map fst pvs) \<Longrightarrow> (n, v) \<in> set pvs \<Longrightarrow>
   class_volumes (filter (\<lambda>(m, _). m \<noteq> n) pvs) cls = class_volumes pvs cls - (if pv_Class v = cls then volume_size v else 0)"
proof (induction pvs)
  case (Cons x pvs)
  obtain m w where x: "x = (m, w)" by fastforce
  show ?case
  proof (cases "m = n")
    case True
    then have "w = v" "n \<notin> fst ` set pvs" using Cons.prems x by (auto simp: rev_image_eqI)
    moreover then have "filter (\<lambda>(m, _). m \<noteq> n) pvs = pvs" by (intro filter_True) force
    ultimately show ?thesis using x True by (simp add: class_volumes_def)
  next
    case False
    then show ?thesis using Cons x by (simp add: class_volumes_def)
  qed
qed simp

lemma tracked_name: "map_of pvs n = None \<longleftrightarrow> n \<notin> fst ` set pvs"
  by (simp add: map_of_eq_None_iff)

lemma known_class_allocated: "rc_allocated (known_class k c scs) = class_allocated scs c"
  by (auto simp: known_class_def class_allocated_def class_flags_def new_class_def split: option.split)

lemma track_volume_inv:
  assumes "rancher_inv s" "pv_Name v \<notin> fst ` set (ra_pvs s)" "rc_allocated r = class_allocated (ra_scs s) (pv_Class v)" "pv_Capacity v = Some q"
  shows "rancher_inv (s\<lparr>ra_scs := label_put (pv_Class v) (add_volume_size q r) (ra_scs s), ra_pvs := label_put (pv_Name v) v (ra_pvs s)\<rparr>)"
  using assms by (auto simp: rancher_inv_def distinct_label_put set_label_put class_volumes_put add_volume_size_def volume_size_def)

text \<open>
  What the events have to bring for the accounts to be right: a deleted volume is a tracked one, with the class and the size it was
  tracked with; the list of volumes has one volume for a name.
\<close>

fun rancher_event_ok :: "rancher \<Rightarrow> rancher_event \<Rightarrow> bool" where
  "rancher_event_ok s (RaVolume WatchDeleted v k) \<longleftrightarrow> (pv_Name v, v) \<in> set (ra_pvs s) \<and> pv_Capacity v \<noteq> None"
| "rancher_event_ok s (RaClass t k n (Some vs)) \<longleftrightarrow> distinct (map pv_Name vs) \<and> (\<not> ra_watching s \<longrightarrow> ra_pvs s = [])"
| "rancher_event_ok s e \<longleftrightarrow> True"

fun rancher_run_ok :: "rancher \<Rightarrow> rancher_event list \<Rightarrow> bool" where
  "rancher_run_ok s [] \<longleftrightarrow> True"
| "rancher_run_ok s (e # es) \<longleftrightarrow> rancher_event_ok s e \<and> rancher_run_ok (rancher_step s e) es"

lemma rancher_inv_other [simp]:
  "rancher_inv (s\<lparr>ra_scrape := b\<rparr>) = rancher_inv s" "rancher_inv (s\<lparr>ra_watching := b\<rparr>) = rancher_inv s" "rancher_inv (s\<lparr>ra_panicked := b\<rparr>) = rancher_inv s"
  "rancher_inv (s\<lparr>ra_published := ps\<rparr>) = rancher_inv s" "rancher_inv (s\<lparr>ra_allocatable := q\<rparr>) = rancher_inv s"
  by (simp_all add: rancher_inv_def)

lemma rancher_inv_put_class:
  "rancher_inv s \<Longrightarrow> rc_allocated r = class_allocated (ra_scs s) c \<Longrightarrow> rancher_inv (s\<lparr>ra_scs := label_put c r (ra_scs s)\<rparr>)"
  by (auto simp: rancher_inv_def)

lemma class_allocated_known: "map_of scs c = Some r \<Longrightarrow> rc_allocated r = class_allocated scs c"
  by (simp add: class_allocated_def)

lemma list_volumes_inv:
  "rancher_inv s \<Longrightarrow> distinct (map pv_Name vs) \<Longrightarrow> \<forall>v\<in>set vs. pv_Name v \<notin> fst ` set (ra_pvs s) \<Longrightarrow> rancher_inv (foldl list_volume s vs)"
proof (induction vs arbitrary: s)
  case (Cons v vs)
  have "rancher_inv (list_volume s v) \<and> fst ` set (ra_pvs (list_volume s v)) \<subseteq> insert (pv_Name v) (fst ` set (ra_pvs s))"
    using Cons.prems track_volume_inv[of s v] class_allocated_known[of "ra_scs s" "pv_Class v"]
    by (auto simp: list_volume_def set_label_put split: option.split)
  moreover have "\<forall>w\<in>set vs. pv_Name w \<notin> insert (pv_Name v) (fst ` set (ra_pvs s))" using Cons.prems(2,3) by simp (metis imageI)
  ultimately have "rancher_inv (list_volume s v)" "\<forall>w\<in>set vs. pv_Name w \<notin> fst ` set (ra_pvs (list_volume s v))" by blast+
  then show ?case using Cons.IH[of "list_volume s v"] Cons.prems(2) by simp
qed simp

lemma untrack_volume_inv:
  assumes "rancher_inv s" "(pv_Name v, v) \<in> set (ra_pvs s)" "pv_Capacity v = Some q" "map_of (ra_scs s) (pv_Class v) = Some r"
  shows "rancher_inv (s\<lparr>ra_pvs := filter (\<lambda>(n, _). n \<noteq> pv_Name v) (ra_pvs s), ra_scs := label_put (pv_Class v) (subStorageAllocatedResource q r) (ra_scs s)\<rparr>)"
  using assms class_volumes_remove[of "ra_pvs s" "pv_Name v" v] class_allocated_known[OF assms(4)]
  by (auto simp: rancher_inv_def subStorageAllocatedResource_def volume_size_def distinct_map_filter)

lemma rancher_volume_inv:
  assumes "rancher_inv s" "rancher_event_ok s (RaVolume t v k)"
  shows "rancher_inv (rancher_volume t v k s)"
proof -
  have add: "rancher_inv (s\<lparr>ra_scs := label_put (pv_Class v) (add_volume_size q (known_class k (pv_Class v) (ra_scs s))) (ra_scs s),
      ra_pvs := label_put (pv_Name v) v (ra_pvs s)\<rparr>)" if "pv_Capacity v = Some q" "map_of (ra_pvs s) (pv_Name v) = None" for q
    using track_volume_inv[OF assms(1) _ known_class_allocated that(1)] that(2) by (simp add: tracked_name)
  have again: "rancher_inv (s\<lparr>ra_scs := label_put (pv_Class v) (known_class k (pv_Class v) (ra_scs s)) (ra_scs s)\<rparr>)"
    by (rule rancher_inv_put_class[OF assms(1) known_class_allocated])
  have del: "\<exists>q r. pv_Capacity v = Some q \<and> map_of (ra_scs s) (pv_Class v) = Some r \<and> (pv_Name v, v) \<in> set (ra_pvs s)" if "t = WatchDeleted"
    using assms that by (auto simp: rancher_inv_def)
  show ?thesis
  proof (cases t)
    case WatchDeleted
    from del[OF this] obtain q r where d: "pv_Capacity v = Some q" "map_of (ra_scs s) (pv_Class v) = Some r" "(pv_Name v, v) \<in> set (ra_pvs s)" by blast
    show ?thesis using untrack_volume_inv[OF assms(1) d(3,1,2)] by (simp add: rancher_volume_def Let_def WatchDeleted d)
  qed (use assms(1) add again in \<open>simp_all add: rancher_volume_def Let_def split: option.split\<close>)
qed

lemma rancher_step_inv:
  assumes "rancher_inv s" "rancher_event_ok s e"
  shows "rancher_inv (rancher_step s e)"
proof (cases e)
  case (RaClass t k n vols)
  let ?r = "case map_of (ra_scs s) (kc_Name k) of None \<Rightarrow> new_class | Some r \<Rightarrow> r"
  let ?s = "s\<lparr>ra_scs := label_put (kc_Name k) (class_flags k ?r) (ra_scs s)\<rparr>"
  have "rc_allocated (class_flags k ?r) = class_allocated (ra_scs s) (kc_Name k)"
    by (simp add: class_flags_def class_allocated_def new_class_def split: option.split)
  then have s: "rancher_inv ?s" by (rule rancher_inv_put_class[OF assms(1)])
  have "rancher_inv (foldl list_volume (?s\<lparr>ra_watching := True\<rparr>) vs)" if "vols = Some vs" "\<not> ra_watching s" for vs
    using assms(2) s that RaClass by (intro list_volumes_inv) auto
  then show ?thesis using assms(1) s RaClass
    by (cases t) (simp_all add: rancher_step_def rancher_class_event_def Let_def split: option.split)
qed (use assms rancher_volume_inv in \<open>simp_all add: rancher_step_def rancher_scrape_def Let_def\<close>)

text \<open>
  The accounts of the storage: in every run in which a volume is deleted with the class and the size it was tracked with, what is allocated in
  a class is what its tracked volumes take.
\<close>

theorem volumes_accounted:
  assumes "rancher_run_ok rancher_start es"
  shows "class_allocated (ra_scs (foldl rancher_step rancher_start es)) cls = class_volumes (ra_pvs (foldl rancher_step rancher_start es)) cls"
proof -
  have "rancher_inv (foldl rancher_step s es)" if "rancher_inv s" "rancher_run_ok s es" for s
    using that by (induction es arbitrary: s) (simp_all add: rancher_step_inv)
  moreover have "rancher_inv rancher_start" by (simp add: rancher_inv_def rancher_start_def class_allocated_def class_volumes_def)
  ultimately show ?thesis using assms by (simp add: rancher_inv_def)
qed

text \<open>
  A volume that is expanded while it is tracked keeps its old size in the account, and its deletion subtracts the new one: when
  it was the only volume of the class, the account is negative, for the provider as well.
\<close>

theorem expanded_volume_negative:
  assumes "\<not> ra_panicked s" "ra_watching s" "map_of (ra_pvs s) (pv_Name v) \<noteq> None" "map_of (ra_scs s) (pv_Class v) = Some r"
    and "pv_Capacity v = Some q" "rc_allocated r < q"
  shows "class_allocated (ra_scs (foldl rancher_step s [RaVolume WatchModified v k, RaVolume WatchDeleted v k])) (pv_Class v) = rc_allocated r - q"
  using assms by (auto simp: rancher_step_def rancher_volume_def known_class_def subStorageAllocatedResource_def Let_def split: if_splits)

text \<open>When no class is managed any more nothing is published: the last report stays in force.\<close>

lemma unmanaged_not_withdrawn:
  "\<forall>(c, r) \<in> set (ra_scs s). \<not> isAkashManaged r \<Longrightarrow> ra_published (rancher_scrape s) = ra_published s"
  by (auto simp: rancher_scrape_def Let_def filter_empty_conv)

definition ex_class :: kube_class where
  "ex_class = \<lparr>kc_Name = ''beta3'', kc_Provisioner = ''rancher.io/local-path'', kc_Label = ''true''\<rparr>"

definition ex_volume :: "int \<Rightarrow> volume" where
  "ex_volume q = \<lparr>pv_Name = ''pv1'', pv_Class = ''beta3'', pv_Capacity = Some q\<rparr>"

definition ex_rancher :: "rancher_event list" where
  "ex_rancher = [RaClass WatchAdded ex_class 1 (Some []), RaVolume WatchAdded (ex_volume 5) ex_class]"

lemmas rancher_eval = ex_rancher_def ex_class_def ex_volume_def rancher_start_def rancher_step_def rancher_class_event_def rancher_volume_def known_class_def
  class_flags_def new_class_def add_volume_size_def parse_bool_label_def Let_def

theorem volumes_accounted_witness: "class_allocated (ra_scs (foldl rancher_step rancher_start ex_rancher)) ''beta3'' = 5"
  using volumes_accounted[of ex_rancher "''beta3''"] by (simp add: rancher_eval class_volumes_def volume_size_def)

theorem expanded_volume_negative_witness:
  "class_allocated (ra_scs (foldl rancher_step rancher_start (ex_rancher @ [RaVolume WatchModified (ex_volume 8) ex_class, RaVolume WatchDeleted (ex_volume 8) ex_class]))) ''beta3'' = - 3"
  using expanded_volume_negative[of "foldl rancher_step rancher_start ex_rancher" "ex_volume 8" _ 8 ex_class]
  by (simp add: rancher_eval)

end
