(* ===== verification/Spec2Isabelle.thy ===== *)
theory Spec2Isabelle
  imports Hostname LeaseBook InventoryService Pricing BidService Deploy DeploymentMonitor ClusterService ManifestService
    BalanceChecker ProviderAttributes IPOperator IngressMigration ShellSession RancherStorage
begin

text \<open>
  A verification development of the Rezerve provider (the Go program under \<open>src/provider\<close>): the
  daemon that sells the capacity of a Kubernetes cluster on the Akash market, with a private-auction
  gate in front of its bids.

  \<^bold>\<open>The program.\<close> The bid engine watches the chain's orders and runs one monitor per order, which
  checks eligibility, reserves capacity, prices, bids and waits for the outcome. The cluster
  service keeps the inventory of reservations and runs one deployment manager per lease. The manifest
  service takes the tenant's manifest, validates it against the chain and publishes it, on which
  the cluster service deploys. The balance checker watches the escrow account of every lease. Around
  them stand the hostname reservations, the pricing, the provider attributes, the private gate
  (\<open>pirgate\<close>, \<open>gateway/pir\<close>), and the Kubernetes operators. The services are goroutines with one
  \<open>select\<close> loop each; they meet through calls, channels and a bus of events.

  \<^bold>\<open>How it is modelled.\<close> A loop is a function from the state and one event to the state, and a run
  is the fold over a list of events, so a theorem about every list of events is a theorem about every
  order in which the goroutines, timers, answers and chain events can arrive. What a task sends back
  (an answer of Kubernetes, of the chain, of a timer) is part of its event. Errors are values
  (\<open>'e + 'a\<close> with the error on the left, or an option for a panic). Machine integers are words
  where the code can wrap them. Go maps are partial functions; where the code walks a map in its
  unspecified order, the order is an argument. Code that is not in the repository (the chain SDK,
  Kubernetes, cryptography, the JSON text level) is a parameter of the definitions, and what a theorem
  needs of it is a hypothesis in its statement, with a witness on a concrete instance.

  \<^bold>\<open>The theories.\<close>
  \<^item> Prelude: strings, hex, big-endian numbers, results, runs and invariants. Market: the identifiers of
    the market. Json: decoding of JSON values into structs, decimal numbers.
  \<^item> Hostname (\<open>cluster/hostname.go\<close>): the store of hostname reservations and its service. No owner
    can take a hostname of another; the check agrees with the reservation.
  \<^item> Envelope, Gate, LeaseBook (\<open>pirgate\<close>, \<open>gateway/pir\<close>): sealed bids, the allocation gate with its
    match query and commitment store, lease access by derived bearers, serving by docker.
  \<^item> Resources, Placement, Inventories, InventoryService (\<open>cluster/types\<close>, \<open>cluster/kube/operators/clients/inventory\<close>,
    \<open>cluster/inventory.go\<close>, \<open>cluster/reservation.go\<close>): resource requests, placement of a group on
    nodes with CPU, memory, GPU, storage and interconnect, the two inventories, and the service that
    reserves and gives back. Capacity (up to the rounding of the SDK's quantities), external ports and leased
    addresses are conserved.
  \<^item> BidOrder, Pricing, BidService, ProviderAttributes (\<open>bidengine\<close>): the life of an order from
    discovery to clean-up, the price, the map of monitors with the traversal of the chain's pages, the
    cache of auditor signatures.
  \<^item> ManifestData, ManifestManager, ManifestService (\<open>manifest\<close>, \<open>event\<close>, \<open>cluster/util\<close>): validation,
    publication and replies for the manifests of a deployment, the service over its managers, the
    watchdogs that close a bid without a manifest.
  \<^item> DeploymentManager, Deploy, DeploymentMonitor, ClusterService (\<open>cluster/manager.go\<close>, \<open>manager_cleanup.go\<close>,
    \<open>monitor.go\<close>, \<open>service.go\<close>): the state machine of a lease with its tasks, teardown and
    reclamation (shown to refine a core without them), one deploy with its Kubernetes calls, the health
    checks, and the map of managers over the inventory service.
  \<^item> Registry: the interface the three maps of running children share (bid monitors, deployment
    managers, manifest managers) as the locale \<open>child_registry\<close>, interpreted on each of them.
  \<^item> BalanceChecker (\<open>balance_checker.go\<close>): escrow checks, timers, withdrawals.
  \<^item> ManifestCRD (\<open>pkg/apis/akash.network/v2beta2\<close>, \<open>cluster/kube/builder/builder.go\<close>): the manifest as
    it is stored in Kubernetes and read back at a restart.
  \<^item> NginxRoute (\<open>cluster/kube/gateway\<close>, annotations of \<open>operator/hostname\<close>): the nginx configuration of an
    exposed service. OperatorCommon (\<open>operator/common\<close>): ignore list and prepared results.
  \<^item> KubeApi: errors, labels, selectors and watch events that the Kubernetes components share, and the ingress
    calls. HostnameOperator and GatewayRoutes (\<open>operator/hostname\<close>, \<open>cluster/kube/gateway/httproute.go\<close>): the
    operator that routes declared hostnames, over a backend whose promise (\<open>backend_ok\<close>) is proved for
    ingresses and for gateway routes; table and routes agree through every round whose first listing succeeds, a route is published only
    after its options are accepted, a restart reads the table back.
  \<^item> Declarations (\<open>cluster/kube/client_hostname_connections.go\<close>, \<open>cluster_ip_connections.go\<close>): the objects by which
    a deploy tells the operators its hostnames and leased addresses. MetalLB and IPOperator (\<open>operator/ip\<close>,
    \<open>cluster/kube/operators/clients/metallb\<close>): the load-balancer service of each leased address, the operator
    that keeps them through every round (also those it finds at a start, of which it does not know the protocol), and
    its barrier as a step relation.
  \<^item> Migrations and IngressMigration (\<open>migrations\<close>, \<open>cmd/provider-services/cmd/migrate_run.go\<close>): the state file, the order
    of versions, pending migrations and their run at a start; the migration of ingresses to gateway routes.
  \<^item> GatewayAuth (\<open>gateway/utils\<close>, \<open>gateway/rest/auth.go\<close>, \<open>middleware.go\<close>, the routes of \<open>router.go\<close>, \<open>gateway/grpc\<close>):
    who a caller is and which handler it reaches; no handler reads a missing value, and a lease is served only to whom
    its tenant allows. GatewayHandlers and LeaseHandlers (the handlers of \<open>gateway/rest\<close>): moving hostnames and
    endpoints between deployments, status, manifests, quotes, shell parameters and answers. ShellSession: the
    goroutines of a shell session as a step relation.
  \<^item> InventoryConfig, NodeHardware, NodeDiscovery, InventoryState, RancherStorage (\<open>operator/inventory\<close>): the operator that tells
    the provider what the cluster has. The configuration with its exclusions, filtered on the backing array of a slice; the
    hardware of a node and the glob patterns that find its interconnect; the monitor of a node, whose allocated amounts are the
    requests of its pods; the connector of the discoveries, the table of the nodes and the published state; the volumes
    of the local-path storage.

  \<^bold>\<open>What the lemmas show.\<close> For every loop an invariant of its state holds along every run, by
  induction over the events, and the properties are read off it: nothing reserved leaks, one task
  runs per lease, one child per key, every request is answered once, a teardown can always be
  completed, a bid is placed only with reason and closed when it is lost. For the pure parts there are
  round trips (envelope, JSON bytes, stored manifest), equivalences with a reference definition
  (health-check streaks, price as group cost, reservation check), bounds at the width of the
  integers, and injectivity of what is derived from secrets. Theorems of kind error state a behaviour
  that departs from what the code means to do; the findings of the manifest name them.

  \<^bold>\<open>Termination and fuel.\<close> Every loop over data is structural recursion. The traversal of the chain's pages
  (\<open>ordersFetcher\<close>) may run for ever and is a \<open>partial_function\<close> in the option monad; that it
  returns is proved from the hypotheses on the answers. So is the loop that collects the words of a shell command
  (\<open>collect_cmd\<close>), which is proved to return on every request. The comparison of versions (\<open>version_loop\<close>) has a
  measure, and so have the chunks of a glob pattern (\<open>class_ranges\<close>, \<open>matchChunk\<close>, \<open>Match\<close>). The loop that waits for a served lease takes the number of its attempts from the code. No other fuel is used.

  \<^bold>\<open>Not modelled.\<close> Generated code, mocks, command lines, metrics and logs; the REST and gRPC transports
  with their TLS configuration, the matching of URLs and the websocket writers of logs and events; the builders of
  Kubernetes objects and the calls that apply them; the pod that reads the hardware of a node and the Ceph storage; the
  attestation sidecar, which reads devices; the ACME client and the storage back ends; the pricing
  script, which is an external program. The Rust crates are outside the scope of this
  development.
\<close>

end
